(* ===== verification/Prelude.thy ===== *)
theory Prelude
  imports Main "HOL-Library.AList" "HOL-Library.List_Lexorder" "HOL-Library.Char_ord"
    "HOL-Library.Multiset"
begin

text \<open>
  The shared base of the development: Go maps, Go's sorting functions, decimal
  formatting, and 64-bit arithmetic.

  A Go map is an association list whose keys are distinct (\<open>wf_map\<close>).  The order of
  the list stands for the order in which one \<open>range\<close> over the map visits its
  entries: Go leaves that order open, and every theorem of the development is about an
  arbitrary list, so it holds whichever order the runtime picks.  Reading a key that is
  not there gives Go's zero value, which is the default argument of \<open>mget\<close>.
  A map that may be \<open>nil\<close> is an option.  A Go \<open>map[string]bool\<close> that is only
  tested for membership is the list of its true keys.
\<close>

named_theorems gomap "rewriting of reads after writes on Go maps"
named_theorems model_defs "definitions unfolded when a closed instance is evaluated"

type_synonym ('k, 'v) gomap = "('k \<times> 'v) list"

subsection \<open>Go maps\<close>

definition wf_map :: "('k, 'v) gomap \<Rightarrow> bool" where
  "wf_map m \<longleftrightarrow> distinct (map fst m)"

definition keys :: "('k, 'v) gomap \<Rightarrow> 'k list" where
  "keys m = map fst m"

definition mget :: "'v \<Rightarrow> ('k, 'v) gomap \<Rightarrow> 'k \<Rightarrow> 'v" where
  "mget d m k = (case map_of m k of None \<Rightarrow> d | Some v \<Rightarrow> v)"

definition mput :: "'k \<Rightarrow> 'v \<Rightarrow> ('k, 'v) gomap \<Rightarrow> ('k, 'v) gomap" where
  "mput k v m = AList.update k v m"

definition mdel :: "'k \<Rightarrow> ('k, 'v) gomap \<Rightarrow> ('k, 'v) gomap" where
  "mdel k m = filter (\<lambda>e. fst e \<noteq> k) m"

abbreviation geti :: "('k, int) gomap \<Rightarrow> 'k \<Rightarrow> int" where
  "geti m k \<equiv> mget 0 m k"

abbreviation gets :: "('k, string) gomap \<Rightarrow> 'k \<Rightarrow> string" where
  "gets m k \<equiv> mget [] m k"

text \<open>\<open>m[k] += a\<close> on a map of integers.\<close>

definition madd :: "'k \<Rightarrow> int \<Rightarrow> ('k, int) gomap \<Rightarrow> ('k, int) gomap" where
  "madd k a m = mput k (geti m k + a) m"

lemma map_of_mput [gomap, simp]: "map_of (mput k v m) = (map_of m)(k \<mapsto> v)"
  by (simp add: mput_def update_conv')

lemma mget_mput [gomap, simp]: "mget d (mput k v m) k' = (if k' = k then v else mget d m k')"
  by (simp add: mget_def)

lemma geti_madd [gomap, simp]: "geti (madd k a m) k' = (if k' = k then geti m k + a else geti m k')"
  by (simp add: madd_def)

lemma wf_map_mput [simp]: "wf_map m \<Longrightarrow> wf_map (mput k v m)"
  by (simp add: wf_map_def mput_def distinct_update)

lemma wf_map_madd [simp]: "wf_map m \<Longrightarrow> wf_map (madd k a m)"
  by (simp add: madd_def)

lemma wf_map_Nil [simp]: "wf_map []"
  by (simp add: wf_map_def)

lemma mget_Nil [simp]: "mget d [] k = d"
  by (simp add: mget_def)

lemma keys_Nil [simp]: "keys [] = []"
  by (simp add: keys_def)

lemma mget_Cons: "mget d ((k, v) # m) k' = (if k' = k then v else mget d m k')"
  by (simp add: mget_def)

lemma keys_Cons: "keys ((k, v) # m) = k # keys m"
  by (simp add: keys_def)

lemma wf_map_Cons: "wf_map ((k, v) # m) \<longleftrightarrow> k \<notin> set (keys m) \<and> wf_map m"
  by (simp add: wf_map_def keys_def)

lemma set_keys: "set (keys m) = dom (map_of m)"
  by (simp add: keys_def dom_map_of_conv_image_fst)

lemma set_keys_mput [simp]: "set (keys (mput k v m)) = insert k (set (keys m))"
  by (simp add: set_keys)

lemma keys_mput_present: "k \<in> set (keys m) \<Longrightarrow> keys (mput k v m) = keys m"
  by (induction m) (auto simp: keys_def mput_def)

lemma map_of_mdel [gomap]: "map_of (mdel k m) k' = (if k' = k then None else map_of m k')"
  by (induction m) (auto simp: mdel_def)

lemma mget_in: "wf_map m \<Longrightarrow> (k, v) \<in> set m \<Longrightarrow> mget d m k = v"
  by (simp add: wf_map_def mget_def)

lemma mget_absent: "k \<notin> set (keys m) \<Longrightarrow> mget d m k = d"
  by (simp add: mget_def set_keys domIff)

lemma mget_entry: "k \<in> set (keys m) \<Longrightarrow> (k, mget d m k) \<in> set m"
  by (auto simp: mget_def set_keys domIff map_of_SomeD split: option.splits)

lemma in_keysI: "(k, v) \<in> set m \<Longrightarrow> k \<in> set (keys m)"
  by (force simp: keys_def)

lemma set_mput: "set (mput k v m) \<subseteq> insert (k, v) (set m)"
  by (induction m) (auto simp: mput_def)

lemma ex_entry:
  assumes "wf_map m"
  shows "(\<exists>(k, v) \<in> set m. P k v) \<longleftrightarrow> (\<exists>k \<in> set (keys m). P k (mget d m k))"
proof
  assume "\<exists>(k, v) \<in> set m. P k v"
  then obtain k v where e: "(k, v) \<in> set m" "P k v" by auto
  then have "k \<in> set (keys m)" by (force simp: keys_def)
  with e mget_in [OF assms e(1), of d] show "\<exists>k \<in> set (keys m). P k (mget d m k)" by auto
next
  assume "\<exists>k \<in> set (keys m). P k (mget d m k)"
  then show "\<exists>(k, v) \<in> set m. P k v" using mget_entry by fastforce
qed

text \<open>\<open>maps.Equal\<close>: the same keys with the same values.\<close>

definition maps_equal :: "('k, 'v) gomap \<Rightarrow> ('k, 'v) gomap \<Rightarrow> bool" where
  "maps_equal a b \<longleftrightarrow> length a = length b \<and> list_all (\<lambda>(k, v). map_of b k = Some v) a"

lemma maps_equal_refl: "wf_map m \<Longrightarrow> maps_equal m m"
  by (auto simp: maps_equal_def wf_map_def list_all_iff)

subsection \<open>Summing over a map\<close>

text \<open>The sum of a map's values does not depend on the order they are visited in.\<close>

lemma sum_list_upd:
  "wf_map m \<Longrightarrow> sum_list (map snd (madd k a m)) = sum_list (map snd m) + (a :: int)"
proof (induction m)
  case Nil
  then show ?case by (simp add: madd_def mput_def)
next
  case (Cons e m)
  obtain k' v where e: "e = (k', v)" by force
  show ?case
  proof (cases "k' = k")
    case True
    then show ?thesis by (simp add: e madd_def mput_def mget_def)
  next
    case False
    with Cons e show ?thesis
      by (simp add: madd_def mput_def mget_def wf_map_def split: option.splits)
  qed
qed

subsection \<open>Sorting\<close>

text \<open>
  \<open>sort.SliceStable(s, lt)\<close>.  For a strict weak order \<open>lt\<close> the stable result is
  unique, so insertion sort computes it.  \<open>sort.Slice\<close> is not stable: it is modelled
  the same way, which is one of the orders it may give, and theorems about its callers
  do not depend on the order of ties unless the order is total.
\<close>

fun sort_ins :: "('a \<Rightarrow> 'a \<Rightarrow> bool) \<Rightarrow> 'a \<Rightarrow> 'a list \<Rightarrow> 'a list" where
  "sort_ins lt x [] = [x]"
| "sort_ins lt x (y # ys) = (if lt y x then y # sort_ins lt x ys else x # y # ys)"

fun sort_slice :: "('a \<Rightarrow> 'a \<Rightarrow> bool) \<Rightarrow> 'a list \<Rightarrow> 'a list" where
  "sort_slice lt [] = []"
| "sort_slice lt (x # xs) = sort_ins lt x (sort_slice lt xs)"

lemma mset_sort_ins [simp]: "mset (sort_ins lt x xs) = add_mset x (mset xs)"
  by (induction xs) auto

lemma mset_sort_slice [simp]: "mset (sort_slice lt xs) = mset xs"
  by (induction xs) auto

lemma set_sort_slice [simp]: "set (sort_slice lt xs) = set xs"
  using mset_sort_slice [of lt xs] by (metis set_mset_mset)

lemma length_sort_slice [simp]: "length (sort_slice lt xs) = length xs"
  using mset_sort_slice [of lt xs] by (metis size_mset)

lemma set_sort_ins [simp]: "set (sort_ins lt x xs) = insert x (set xs)"
  by (induction xs) auto

lemma distinct_sort_slice [simp]: "distinct (sort_slice lt xs) = distinct xs"
  using mset_sort_slice [of lt xs] by (metis mset_eq_imp_distinct_iff)

text \<open>What Go asks of a comparison given to its sorting functions.\<close>

locale strict_weak_order =
  fixes lt :: "'a \<Rightarrow> 'a \<Rightarrow> bool"
  assumes swo_irrefl: "\<not> lt x x"
    and swo_trans: "lt x y \<Longrightarrow> lt y z \<Longrightarrow> lt x z"
    and swo_incomp: "\<not> lt x y \<Longrightarrow> \<not> lt y z \<Longrightarrow> \<not> lt x z"
begin

lemma swo_asym: "lt x y \<Longrightarrow> \<not> lt y x"
  using swo_irrefl swo_trans by blast

lemma sorted_sort_ins:
  "sorted_wrt (\<lambda>a b. \<not> lt b a) ys \<Longrightarrow> sorted_wrt (\<lambda>a b. \<not> lt b a) (sort_ins lt x ys)"
proof (induction ys)
  case Nil
  then show ?case by simp
next
  case (Cons y ys)
  then show ?case
    by (auto dest: swo_asym) (meson swo_incomp)
qed

lemma sorted_sort_slice: "sorted_wrt (\<lambda>a b. \<not> lt b a) (sort_slice lt xs)"
  by (induction xs) (auto intro: sorted_sort_ins)

text \<open>Stability: elements that compare equal keep the order they came in.\<close>

lemma sort_ins_stable_out:
  "\<not> P x \<Longrightarrow> filter P (sort_ins lt x ys) = filter P ys"
  by (induction ys) auto

lemma sort_ins_stable_in:
  assumes "\<And>y. P y \<Longrightarrow> \<not> lt y x" and "P x"
  shows "filter P (sort_ins lt x ys) = x # filter P ys"
  using assms by (induction ys) auto

lemma sort_slice_stable:
  assumes "\<And>x y. P x \<Longrightarrow> P y \<Longrightarrow> \<not> lt x y"
  shows "filter P (sort_slice lt xs) = filter P xs"
  using assms by (induction xs) (auto simp: sort_ins_stable_in sort_ins_stable_out)

text \<open>
  The sorted order does not depend on the order of the input where no two elements
  compare equal: the case of every comparison that ends on a unique name.
\<close>

lemma sort_slice_unique:
  assumes tot: "\<And>x y. x \<in> set xs \<Longrightarrow> y \<in> set xs \<Longrightarrow> \<not> lt x y \<Longrightarrow> \<not> lt y x \<Longrightarrow> x = y"
    and perm: "mset xs = mset ys"
  shows "sort_slice lt xs = sort_slice lt ys"
proof -
  have uniq: "as = bs" if "sorted_wrt (\<lambda>a b. \<not> lt b a) as" "sorted_wrt (\<lambda>a b. \<not> lt b a) bs"
    "mset as = mset bs" "set as \<subseteq> set xs" for as bs
    using that
  proof (induction as arbitrary: bs)
    case Nil
    then show ?case by simp
  next
    case (Cons a as)
    then obtain b bs' where bs: "bs = b # bs'" by (cases bs) auto
    have eq: "a = b"
    proof (rule ccontr)
      assume ne: "a \<noteq> b"
      have m: "set (a # as) = set bs" using Cons.prems(3) by (metis set_mset_mset)
      with ne bs have "b \<in> set as" "a \<in> set bs'" by auto
      with Cons.prems(1,2) bs have "\<not> lt b a" "\<not> lt a b" by auto
      with tot ne Cons.prems(4) m bs show False
        by (metis insertI1 list.set(2) subsetD)
    qed
    with Cons bs show ?case by auto
  qed
  show ?thesis
    by (rule uniq) (use perm in \<open>auto simp: sorted_sort_slice\<close>)
qed

end

text \<open>
  The shapes of comparison the code sorts by: a key ascending or descending, and a key that
  decides where it differs and leaves the rest to the next comparison.
\<close>

lemma swo_key: "strict_weak_order (\<lambda>a b. f a < (f b :: 'b :: linorder))"
  by unfold_locales auto

lemma swo_desc: "strict_weak_order (\<lambda>a b. f a > (f b :: 'b :: linorder))"
  by unfold_locales auto

lemma swo_on:
  assumes "strict_weak_order lt"
  shows "strict_weak_order (\<lambda>a b. lt (f a) (f b))"
proof
  fix x y z
  show "\<not> lt (f x) (f x)" by (rule strict_weak_order.swo_irrefl [OF assms])
  show "lt (f x) (f y) \<Longrightarrow> lt (f y) (f z) \<Longrightarrow> lt (f x) (f z)"
    by (rule strict_weak_order.swo_trans [OF assms])
  show "\<not> lt (f x) (f y) \<Longrightarrow> \<not> lt (f y) (f z) \<Longrightarrow> \<not> lt (f x) (f z)"
    by (rule strict_weak_order.swo_incomp [OF assms])
qed

lemma swo_key_then:
  assumes "strict_weak_order lt"
  shows "strict_weak_order (\<lambda>a b. if f a \<noteq> (f b :: 'b :: linorder) then f a < f b else lt a b)"
proof
  fix x y z
  show "\<not> (if f x \<noteq> f x then f x < f x else lt x x)"
    by (simp add: strict_weak_order.swo_irrefl [OF assms])
  show "(if f x \<noteq> f y then f x < f y else lt x y) \<Longrightarrow> (if f y \<noteq> f z then f y < f z else lt y z)
      \<Longrightarrow> (if f x \<noteq> f z then f x < f z else lt x z)"
    using strict_weak_order.swo_trans [OF assms, of x y z] by (auto split: if_splits)
  show "\<not> (if f x \<noteq> f y then f x < f y else lt x y) \<Longrightarrow> \<not> (if f y \<noteq> f z then f y < f z else lt y z)
      \<Longrightarrow> \<not> (if f x \<noteq> f z then f x < f z else lt x z)"
    using strict_weak_order.swo_incomp [OF assms, of x y z] by (auto split: if_splits)
qed

lemma swo_desc_then:
  assumes "strict_weak_order lt"
  shows "strict_weak_order (\<lambda>a b. if f a \<noteq> (f b :: 'b :: linorder) then f a > f b else lt a b)"
proof
  fix x y z
  show "\<not> (if f x \<noteq> f x then f x > f x else lt x x)"
    by (simp add: strict_weak_order.swo_irrefl [OF assms])
  show "(if f x \<noteq> f y then f x > f y else lt x y) \<Longrightarrow> (if f y \<noteq> f z then f y > f z else lt y z)
      \<Longrightarrow> (if f x \<noteq> f z then f x > f z else lt x z)"
    using strict_weak_order.swo_trans [OF assms, of x y z] by (auto split: if_splits)
  show "\<not> (if f x \<noteq> f y then f x > f y else lt x y) \<Longrightarrow> \<not> (if f y \<noteq> f z then f y > f z else lt y z)
      \<Longrightarrow> \<not> (if f x \<noteq> f z then f x > f z else lt x z)"
    using strict_weak_order.swo_incomp [OF assms, of x y z] by (auto split: if_splits)
qed

lemma swo_flag_then:
  assumes "strict_weak_order lt"
  shows "strict_weak_order (\<lambda>a b. if p a \<noteq> p b then p a else lt a b)"
proof -
  have "(\<lambda>a b. if p a \<noteq> p b then p a else lt a b) = (\<lambda>a b. if p a \<noteq> p b then p a > p b else lt a b)"
    by (intro ext) auto
  with swo_desc_then [OF assms, of p] show ?thesis by simp
qed

lemma swo_never: "strict_weak_order (\<lambda>a b. False)"
  by unfold_locales auto

subsection \<open>Numbers as text\<close>

text \<open>\<open>%d\<close> of an integer.\<close>

definition digit_char :: "nat \<Rightarrow> char" where
  "digit_char d = char_of (48 + d)"

fun show_nat :: "nat \<Rightarrow> string" where
  "show_nat n = (if n < 10 then [digit_char n] else show_nat (n div 10) @ [digit_char (n mod 10)])"

declare show_nat.simps [simp del]

definition show_int :: "int \<Rightarrow> string" where
  "show_int i = (if i < 0 then CHR ''-'' # show_nat (nat (- i)) else show_nat (nat i))"

text \<open>
  \<open>strconv.Atoi\<close> with its error dropped: a text that is no number reads as 0, and a
  number out of range as the nearest 64-bit one.
\<close>

definition is_digit :: "char \<Rightarrow> bool" where
  "is_digit c \<longleftrightarrow> of_char c \<ge> (48 :: nat) \<and> of_char c \<le> (57 :: nat)"

definition digits_value :: "string \<Rightarrow> nat" where
  "digits_value s = foldl (\<lambda>n c. 10 * n + (of_char c - 48)) 0 s"

definition clamp64 :: "int \<Rightarrow> int" where
  "clamp64 i = max (- (2 ^ 63)) (min (2 ^ 63 - 1) i)"

definition atoi :: "string \<Rightarrow> int" where
  "atoi s =
     (let neg = (s \<noteq> [] \<and> hd s = CHR ''-'');
          body = (if s \<noteq> [] \<and> (hd s = CHR ''-'' \<or> hd s = CHR ''+'') then tl s else s)
      in if body = [] \<or> \<not> list_all is_digit body then 0
         else clamp64 (if neg then - int (digits_value body) else int (digits_value body)))"

text \<open>Decimal text reads back, so it tells numbers apart, and it has no separator in it.\<close>

lemma digits_value_snoc: "digits_value (s @ [c]) = 10 * digits_value s + (of_char c - 48)"
  by (simp add: digits_value_def)

lemma of_char_digit: "d < 10 \<Longrightarrow> of_char (digit_char d) = 48 + d"
  by (simp add: digit_char_def)

lemma digits_value_show_nat: "digits_value (show_nat n) = n"
proof (induction n rule: show_nat.induct)
  case (1 n)
  show ?case
  proof (cases "n < 10")
    case True
    then show ?thesis by (subst show_nat.simps) (simp add: digits_value_def of_char_digit)
  next
    case False
    with 1 show ?thesis
      by (subst show_nat.simps) (simp add: digits_value_snoc of_char_digit)
  qed
qed

lemma show_nat_digits: "c \<in> set (show_nat n) \<Longrightarrow> is_digit c"
proof (induction n rule: show_nat.induct)
  case (1 n)
  have d: "d < 10 \<Longrightarrow> is_digit (digit_char d)" for d by (simp add: is_digit_def of_char_digit)
  from 1 show ?case by (subst (asm) (2) show_nat.simps) (auto split: if_splits intro: d)
qed

lemma show_int_chars: "c \<in> set (show_int i) \<Longrightarrow> is_digit c \<or> c = CHR ''-''"
  by (auto simp: show_int_def split: if_splits dest: show_nat_digits)

lemma show_int_no_sep:
  "CHR ''/'' \<notin> set (show_int i)" "CHR '';'' \<notin> set (show_int i)" "CHR ''='' \<notin> set (show_int i)"
  using show_int_chars [of _ i] by (force simp: is_digit_def)+

lemma show_int_inj: "show_int i = show_int j \<longleftrightarrow> i = j"
proof
  assume eq: "show_int i = show_int j"
  have no: "show_nat n \<noteq> CHR ''-'' # xs" for n xs
    using show_nat_digits [of "CHR ''-''" n] by (auto simp: is_digit_def)
  have "nat i = nat j" if "\<not> i < 0" "\<not> j < 0"
    using eq that by (metis digits_value_show_nat show_int_def)
  moreover have "nat (- i) = nat (- j)" if "i < 0" "j < 0"
    using eq that by (metis digits_value_show_nat list.inject show_int_def)
  moreover have "(i < 0) = (j < 0)" using eq no by (auto simp: show_int_def split: if_splits) metis+
  ultimately show "i = j" by (cases "i < 0") auto
qed simp

lemma append_sep_inj:
  assumes "c \<notin> set xs" and "c \<notin> set xs'"
  shows "xs @ c # ys = xs' @ c # ys' \<longleftrightarrow> xs = xs' \<and> ys = ys'"
proof
  assume "xs @ c # ys = xs' @ c # ys'"
  then have "takeWhile (\<lambda>x. x \<noteq> c) (xs @ c # ys) = takeWhile (\<lambda>x. x \<noteq> c) (xs' @ c # ys')"
    "dropWhile (\<lambda>x. x \<noteq> c) (xs @ c # ys) = dropWhile (\<lambda>x. x \<noteq> c) (xs' @ c # ys')" by simp_all
  moreover have "takeWhile (\<lambda>x. x \<noteq> c) (zs @ c # us) = zs \<and> dropWhile (\<lambda>x. x \<noteq> c) (zs @ c # us) = c # us"
    if "c \<notin> set zs" for zs us
    using that by (induction zs) auto
  ultimately show "xs = xs' \<and> ys = ys'" using assms by simp
qed simp

subsection \<open>64-bit arithmetic\<close>

text \<open>Go's int64: addition and multiplication wrap, division truncates towards zero.\<close>

definition wrap64 :: "int \<Rightarrow> int" where
  "wrap64 x = (x + 2 ^ 63) mod 2 ^ 64 - 2 ^ 63"

definition go_div :: "int \<Rightarrow> int \<Rightarrow> int" where
  "go_div a b = sgn a * sgn b * (\<bar>a\<bar> div \<bar>b\<bar>)"

definition in_int64 :: "int \<Rightarrow> bool" where
  "in_int64 x \<longleftrightarrow> - (2 ^ 63) \<le> x \<and> x < 2 ^ 63"

lemma wrap64_id [simp]: "in_int64 x \<Longrightarrow> wrap64 x = x"
  by (simp add: wrap64_def in_int64_def)

lemma in_int64_wrap64 [simp]: "in_int64 (wrap64 x)"
proof -
  have "0 \<le> (x + 2 ^ 63) mod 2 ^ 64" "(x + 2 ^ 63) mod 2 ^ 64 < (2 :: int) ^ 64" by simp_all
  then show ?thesis by (simp add: wrap64_def in_int64_def)
qed

lemma go_div_nonneg: "0 \<le> a \<Longrightarrow> 0 < b \<Longrightarrow> go_div a b = a div b"
  by (cases "a = 0") (simp_all add: go_div_def)

subsection \<open>Lists\<close>

lemma list_all2_right: "list_all2 P xs ys \<Longrightarrow> y \<in> set ys \<Longrightarrow> \<exists>x \<in> set xs. P x y"
  by (induction rule: list_all2_induct) auto

text \<open>\<open>strings.Join\<close>.\<close>

fun join :: "string \<Rightarrow> string list \<Rightarrow> string" where
  "join sep [] = []"
| "join sep [x] = x"
| "join sep (x # y # xs) = x @ sep @ join sep (y # xs)"

text \<open>\<open>slices.Index\<close>: the first position of \<open>x\<close>, -1 when it is not there.\<close>

fun slice_index :: "'a list \<Rightarrow> 'a \<Rightarrow> int" where
  "slice_index [] x = -1"
| "slice_index (y # ys) x =
     (if y = x then 0 else let i = slice_index ys x in if i < 0 then -1 else i + 1)"

lemma slice_index_ge: "-1 \<le> slice_index xs x"
  by (induction xs) (auto simp: Let_def)

lemma slice_index_neg [simp]: "slice_index xs x < 0 \<longleftrightarrow> x \<notin> set xs"
proof (induction xs)
  case (Cons y ys)
  then show ?case using slice_index_ge [of ys x] by (auto simp: Let_def)
qed simp

text \<open>\<open>strings.Index(s, c)\<close> of one character.\<close>

definition char_index :: "string \<Rightarrow> char \<Rightarrow> int" where
  "char_index s c = slice_index s c"

end
