(* ===== verification/Reasons.thy ===== *)
theory Reasons
  imports Prelude
begin

text \<open>
  Why a job waits or was ended (controlplane/domain/constants.go, fault_class.go and
  the vocabulary of contract/clusterapi/phase.go): queue reasons and eviction reasons as the
  strings they are stored as, "code: detail", the class of fault a reason names, and what a runtime says of
  a job that does not start or that failed.

  Strings are Go strings, so lists of bytes.  A message is cut at a number of runes, so the
  UTF-8 decoding of Go's range loop and \<open>[]rune\<close> is written out: a byte that starts no valid
  sequence is one rune, U+FFFD.
\<close>

subsection \<open>Runes\<close>

definition byte_in :: "nat \<Rightarrow> nat \<Rightarrow> char \<Rightarrow> bool" where
  "byte_in lo hi c \<longleftrightarrow> lo \<le> of_char c \<and> of_char c \<le> hi"

abbreviation tail_byte :: "char \<Rightarrow> bool" where
  "tail_byte \<equiv> byte_in 128 191"

text \<open>The range of the second byte after a first byte, and the number of tail bytes after that.\<close>

definition lead_byte :: "char \<Rightarrow> (nat \<times> nat \<times> nat) option" where
  "lead_byte c =
     (if byte_in 194 223 c then Some (128, 191, 0)
      else if byte_in 224 224 c then Some (160, 191, 1)
      else if byte_in 237 237 c then Some (128, 159, 1)
      else if byte_in 225 239 c then Some (128, 191, 1)
      else if byte_in 240 240 c then Some (144, 191, 2)
      else if byte_in 241 243 c then Some (128, 191, 2)
      else if byte_in 244 244 c then Some (128, 143, 2)
      else None)"

definition RuneError :: string where
  "RuneError = [char_of (239 :: nat), char_of (191 :: nat), char_of (189 :: nat)]"

text \<open>The number of bytes of the rune a string starts with, \<open>None\<close> where the bytes are not UTF-8.\<close>

fun rune_width :: "string \<Rightarrow> nat option" where
  "rune_width [] = None"
| "rune_width (c # cs) =
     (if of_char c < (128 :: nat) then Some 1
      else case lead_byte c of
        None \<Rightarrow> None
      | Some (lo, hi, n) \<Rightarrow>
          (case cs of
             [] \<Rightarrow> None
           | d # ds \<Rightarrow>
               if byte_in lo hi d \<and> n \<le> length ds \<and> list_all tail_byte (take n ds) then Some (n + 2) else None))"

text \<open>\<open>[]rune(s)\<close>, each rune as the bytes it is written back with.\<close>

function runes :: "string \<Rightarrow> string list" where
  "runes [] = []"
| "runes (c # cs) =
     (case rune_width (c # cs) of
        None \<Rightarrow> RuneError # runes cs
      | Some w \<Rightarrow> take w (c # cs) # runes (drop (w - 1) cs))"
  by pat_completeness auto
termination by (relation "measure length") auto

subsection \<open>Statuses\<close>

datatype ExperimentStatus =
  StatusSubmitted | StatusQueued | StatusRunning | StatusCompleted | StatusFailed | StatusEvicted
| StatusRejected | StatusCancelled

definition Ended :: "ExperimentStatus \<Rightarrow> bool" where
  "Ended s \<longleftrightarrow> s \<in> {StatusCompleted, StatusFailed, StatusEvicted, StatusRejected, StatusCancelled}"

definition PlacedStatuses :: "ExperimentStatus list" where
  "PlacedStatuses = [StatusSubmitted, StatusRunning]"

definition UnstartedStatuses :: "ExperimentStatus list" where
  "UnstartedStatuses = [StatusQueued, StatusSubmitted]"

definition cancels :: "ExperimentStatus \<Rightarrow> bool" where
  "cancels s \<longleftrightarrow> \<not> Ended s"

datatype JobPhase = JobPhasePending | JobPhaseRunning | JobPhaseSucceeded | JobPhaseFailed | JobPhaseGone

subsection \<open>Queue reasons\<close>

definition NotAdmittedAwaitingAdmission :: string where
  "NotAdmittedAwaitingAdmission = ''awaiting_admission''"

definition NotAdmittedCapacityUnavailable :: string where "NotAdmittedCapacityUnavailable = ''capacity_unavailable''"
definition NotAdmittedOutranked :: string where "NotAdmittedOutranked = ''outranked''"
definition NotAdmittedStageCut :: string where "NotAdmittedStageCut = ''stage_cut''"
definition NotAdmittedJobTooLong :: string where "NotAdmittedJobTooLong = ''job_too_long''"
definition NotAdmittedWorkloadCreation :: string where "NotAdmittedWorkloadCreation = ''workload_creation_failed''"
definition NotAdmittedInsufficientQuota :: string where "NotAdmittedInsufficientQuota = ''insufficient_quota''"
definition NotAdmittedNoMultiNodeCluster :: string where "NotAdmittedNoMultiNodeCluster = ''no_multi_node_cluster''"
definition NotAdmittedNoClusterForOrg :: string where "NotAdmittedNoClusterForOrg = ''no_cluster_for_org''"
definition NotAdmittedClustersDisabled :: string where "NotAdmittedClustersDisabled = ''clusters_disabled''"
definition NotAdmittedWaitingForScaleUp :: string where "NotAdmittedWaitingForScaleUp = ''waiting-for-scale-up''"
definition NotAdmittedNoScalableCapacity :: string where "NotAdmittedNoScalableCapacity = ''no_scalable_capacity''"
definition NotAdmittedConcurrencyCap :: string where "NotAdmittedConcurrencyCap = ''concurrency_cap''"
definition NotAdmittedExceedsAcceleratorShare :: string where "NotAdmittedExceedsAcceleratorShare = ''exceeds_accelerator_share''"
definition NotAdmittedExceedsClusterCapacity :: string where "NotAdmittedExceedsClusterCapacity = ''exceeds_cluster_capacity''"
definition NotAdmittedNoClusterForArchitecture :: string where "NotAdmittedNoClusterForArchitecture = ''no_cluster_for_architecture''"
definition NotAdmittedOrgComputeLimit :: string where "NotAdmittedOrgComputeLimit = ''org_compute_limit''"
definition NotAdmittedProjectComputeLimit :: string where "NotAdmittedProjectComputeLimit = ''project_compute_limit''"
definition NotAdmittedExceedsProjectComputeLimit :: string where "NotAdmittedExceedsProjectComputeLimit = ''exceeds_project_compute_limit''"

definition QueueReasonAwaitingAdmission :: string where
  "QueueReasonAwaitingAdmission = NotAdmittedAwaitingAdmission @
     '': the scheduler has not looked at the job since it was queued, which it does within seconds''"

definition waiting_codes :: "string list" where
  "waiting_codes = [NotAdmittedAwaitingAdmission, NotAdmittedCapacityUnavailable, NotAdmittedOutranked, NotAdmittedWaitingForScaleUp,
     NotAdmittedNoScalableCapacity, NotAdmittedConcurrencyCap, NotAdmittedOrgComputeLimit, NotAdmittedProjectComputeLimit]"

text \<open>The part of a reason before its first colon, the whole of it where there is none.\<close>

definition Code :: "string \<Rightarrow> string" where
  "Code r = takeWhile (\<lambda>c. c \<noteq> CHR '':'') r"

definition QueueReasonClearsByWaiting :: "string \<Rightarrow> bool" where
  "QueueReasonClearsByWaiting reason \<longleftrightarrow> Code reason \<in> set waiting_codes"

text \<open>\<open>strings.Cut(stored, ": ")\<close>.\<close>

fun SplitQueueReason :: "string \<Rightarrow> string \<times> string" where
  "SplitQueueReason [] = ([], [])"
| "SplitQueueReason (c # cs) =
     (if c = CHR '':'' \<and> cs \<noteq> [] \<and> hd cs = CHR '' '' then ([], tl cs)
      else let (reason, message) = SplitQueueReason cs in (c # reason, message))"

text \<open>A stored queue reason has both parts (\<open>sentenced\<close> of storage/db).\<close>

definition sentenced :: "string \<Rightarrow> bool" where
  "sentenced reason \<longleftrightarrow> fst (SplitQueueReason reason) \<noteq> [] \<and> snd (SplitQueueReason reason) \<noteq> []"

subsection \<open>Eviction reasons and their class\<close>

definition EvictionSilent :: string where "EvictionSilent = ''silent''"

definition EvictionNeverReportedMetrics :: string where "EvictionNeverReportedMetrics = ''never_reported_metrics''"

definition EvictionQuotaExhaustion :: string where "EvictionQuotaExhaustion = ''quota_exhaustion''"

definition EvictionExperimentClosed :: string where "EvictionExperimentClosed = ''experiment_closed''"

definition EvictionCancelled :: string where "EvictionCancelled = ''cancelled''"

definition EvictionStageCut :: string where "EvictionStageCut = ''stage_cut''"

definition EvictionJobTooLong :: string where "EvictionJobTooLong = ''job_too_long''"

definition EvictionStuckPending :: string where "EvictionStuckPending = ''stuck_pending''"

definition EvictionResourceDisbalance :: string where "EvictionResourceDisbalance = ''resource_disbalance''"

definition EvictionUnschedulable :: string where "EvictionUnschedulable = ''unschedulable''"

definition EvictionWorkloadGone :: string where "EvictionWorkloadGone = ''workload_gone''"

definition EvictionClusterUnreachable :: string where "EvictionClusterUnreachable = ''cluster_unreachable''"

definition EvictionAcceleratorTypeMismatch :: string where
  "EvictionAcceleratorTypeMismatch = ''accelerator_type_mismatch''"

definition EvictionAcceleratorTypeUnobservable :: string where
  "EvictionAcceleratorTypeUnobservable = ''accelerator_type_unobservable''"

definition EvictionPreemptedForGuaranteed :: string where
  "EvictionPreemptedForGuaranteed = ''preempted_for_guaranteed''"

definition EvictionScaleUpTimeout :: string where "EvictionScaleUpTimeout = ''scale_up_timeout''"

definition EvictionCodeUnreachable :: string where "EvictionCodeUnreachable = ''code_unreachable''"

definition EvictionNoOffer :: string where "EvictionNoOffer = ''no_offer''"

definition EvictionClusterWithdrawn :: string where "EvictionClusterWithdrawn = ''cluster_withdrawn''"

lemmas eviction_defs = EvictionSilent_def EvictionNeverReportedMetrics_def EvictionQuotaExhaustion_def
  EvictionExperimentClosed_def EvictionCancelled_def EvictionStageCut_def EvictionJobTooLong_def
  EvictionStuckPending_def EvictionResourceDisbalance_def EvictionUnschedulable_def EvictionWorkloadGone_def
  EvictionClusterUnreachable_def EvictionAcceleratorTypeMismatch_def EvictionAcceleratorTypeUnobservable_def
  EvictionPreemptedForGuaranteed_def EvictionScaleUpTimeout_def EvictionCodeUnreachable_def
  EvictionNoOffer_def EvictionClusterWithdrawn_def

definition WithDetail :: "string \<Rightarrow> string \<Rightarrow> string" where
  "WithDetail r detail = r @ '': '' @ detail"

definition AnsweredStatus :: "ExperimentStatus \<Rightarrow> string \<Rightarrow> ExperimentStatus" where
  "AnsweredStatus stored evictionReason =
     (if Code evictionReason = EvictionCancelled then StatusCancelled else stored)"

datatype FaultClass = FaultWorkload | FaultInfrastructure | FaultPolicy | FaultUnclassified

definition faultClasses :: "(string, FaultClass) gomap" where
  "faultClasses =
     [(EvictionNeverReportedMetrics, FaultWorkload), (EvictionSilent, FaultWorkload), (EvictionJobTooLong, FaultWorkload),
      (EvictionResourceDisbalance, FaultWorkload), (EvictionUnschedulable, FaultWorkload),
      (EvictionClusterUnreachable, FaultInfrastructure), (EvictionWorkloadGone, FaultInfrastructure),
      (EvictionAcceleratorTypeUnobservable, FaultInfrastructure), (EvictionAcceleratorTypeMismatch, FaultInfrastructure),
      (EvictionStuckPending, FaultInfrastructure), (EvictionScaleUpTimeout, FaultInfrastructure),
      (EvictionCodeUnreachable, FaultInfrastructure), (EvictionNoOffer, FaultInfrastructure),
      (EvictionStageCut, FaultPolicy), (EvictionQuotaExhaustion, FaultPolicy), (EvictionPreemptedForGuaranteed, FaultPolicy),
      (EvictionExperimentClosed, FaultPolicy), (EvictionCancelled, FaultPolicy), (EvictionClusterWithdrawn, FaultPolicy)]"

definition Classify :: "string \<Rightarrow> FaultClass option" where
  "Classify reason = map_of faultClasses (Code reason)"

definition IsInfrastructureFault :: "string \<Rightarrow> bool" where
  "IsInfrastructureFault reason \<longleftrightarrow> Classify reason = Some FaultInfrastructure"

definition FailedByItsCluster :: "string \<Rightarrow> bool" where
  "FailedByItsCluster reason \<longleftrightarrow>
     IsInfrastructureFault reason \<and> Code reason \<noteq> EvictionCodeUnreachable \<and> Code reason \<noteq> EvictionNoOffer"

definition IsPolicyFault :: "string \<Rightarrow> bool" where
  "IsPolicyFault reason \<longleftrightarrow> Classify reason = Some FaultPolicy"

text \<open>The ids that get a checkpoint window; an experiment is its id and its eviction reason, \<open>None\<close> a nil pointer.\<close>

definition CheckpointWindowGrants :: "(string \<times> string) option list \<Rightarrow> string list" where
  "CheckpointWindowGrants exps =
     [i. Some (i, reason) \<leftarrow> exps, i \<noteq> [] \<and> IsPolicyFault reason]"

definition ClassifyCounts :: "(string, int) gomap \<Rightarrow> (FaultClass, int) gomap" where
  "ClassifyCounts byReason =
     fold (\<lambda>(reason, n) byClass.
        madd (case Classify reason of None \<Rightarrow> FaultUnclassified | Some c \<Rightarrow> c) n byClass) byReason []"

subsection \<open>What a runtime says of a job\<close>

record PhaseDetail =
  pd_Reason :: string
  pd_Message :: string

definition PhaseReasonImagePullFailed :: string where "PhaseReasonImagePullFailed = ''image_pull_failed''"

definition PhaseReasonConfigError :: string where "PhaseReasonConfigError = ''config_error''"

definition PhaseReasonInvalidImage :: string where "PhaseReasonInvalidImage = ''invalid_image''"

definition PhaseReasonContainerFailed :: string where "PhaseReasonContainerFailed = ''container_failed''"

definition PhaseReasonOOMKilled :: string where "PhaseReasonOOMKilled = ''oom_killed''"

definition PhaseReasonCodeUnreachable :: string where "PhaseReasonCodeUnreachable = ''code_unreachable''"

definition PhaseReasonNoOffer :: string where "PhaseReasonNoOffer = ''no_offer''"

definition PhaseReasonScaleUpRefused :: string where "PhaseReasonScaleUpRefused = ''scale_up_refused''"

definition NeverSelfHealsPhaseReasons :: "string list" where
  "NeverSelfHealsPhaseReasons =
     [PhaseReasonImagePullFailed, PhaseReasonConfigError, PhaseReasonInvalidImage, PhaseReasonNoOffer]"

definition failureCauseDetailRunes :: nat where
  "failureCauseDetailRunes = 400"

definition FailureNoReason :: string where
  "FailureNoReason = ''failed, runtime gave no reason; see '' @ [CHR 0x60] @ ''hl job logs'' @ [CHR 0x60]"

text \<open>The first line of the message, bounded.\<close>

definition pd_detail :: "PhaseDetail \<Rightarrow> string" where
  "pd_detail d =
     (let message = takeWhile (\<lambda>c. c \<noteq> CHR 0x0A) (pd_Message d)
      in if length (runes message) > failureCauseDetailRunes then concat (take failureCauseDetailRunes (runes message))
         else message)"

definition FailureCause :: "PhaseDetail \<Rightarrow> string" where
  "FailureCause d =
     (let message = pd_detail d
      in if pd_Reason d = [] \<and> message \<noteq> [] then FailureNoReason @ '' ('' @ message @ '')''
         else if pd_Reason d \<noteq> PhaseReasonContainerFailed \<and> pd_Reason d \<noteq> PhaseReasonOOMKilled then FailureNoReason
         else if message = [] then pd_Reason d
         else pd_Reason d @ '': '' @ message)"

definition EvictionOfFailure :: "PhaseDetail \<Rightarrow> string option" where
  "EvictionOfFailure d =
     (if pd_Reason d \<noteq> PhaseReasonCodeUnreachable then None
      else if pd_detail d \<noteq> [] then Some (WithDetail EvictionCodeUnreachable (pd_detail d))
      else Some EvictionCodeUnreachable)"

definition Said :: "PhaseDetail \<Rightarrow> string" where
  "Said d =
     (let message = pd_detail d
      in if message = [] then pd_Reason d
         else if pd_Reason d = [] then message
         else pd_Reason d @ '': '' @ message)"

definition EvictionOfNeverStarting :: "PhaseDetail \<Rightarrow> string" where
  "EvictionOfNeverStarting d =
     (let (code, said) = (if pd_Reason d = PhaseReasonNoOffer then (EvictionNoOffer, pd_detail d)
                          else (EvictionUnschedulable, Said d))
      in if said = [] then code else WithDetail code said)"

subsection \<open>Codes survive their detail\<close>

lemma Code_WithDetail [simp]: "Code (WithDetail r d) = Code r"
  by (induction r) (simp_all add: Code_def WithDetail_def)

lemma Classify_WithDetail [simp]: "Classify (WithDetail r d) = Classify r"
  by (simp add: Classify_def)

lemma IsInfrastructureFault_WithDetail [simp]: "IsInfrastructureFault (WithDetail r d) = IsInfrastructureFault r"
  by (simp add: IsInfrastructureFault_def)

lemma infrastructure_reasons [simp]:
  "IsInfrastructureFault EvictionStuckPending" "IsInfrastructureFault EvictionScaleUpTimeout"
  "IsInfrastructureFault EvictionAcceleratorTypeMismatch" "IsInfrastructureFault EvictionAcceleratorTypeUnobservable"
  "IsInfrastructureFault EvictionCodeUnreachable" "IsInfrastructureFault EvictionNoOffer"
  by code_simp+

lemma other_reasons [simp]:
  "\<not> IsInfrastructureFault EvictionCancelled" "\<not> IsInfrastructureFault EvictionUnschedulable"
  "\<not> IsInfrastructureFault EvictionResourceDisbalance" "\<not> IsInfrastructureFault EvictionPreemptedForGuaranteed"
  "\<not> IsInfrastructureFault EvictionClusterWithdrawn"
  by code_simp+

text \<open>An environment's failure is an infrastructure fault whatever the runtime said of it.\<close>

lemma EvictionOfFailure_infrastructure: "EvictionOfFailure d = Some r \<Longrightarrow> IsInfrastructureFault r"
  by (auto simp: EvictionOfFailure_def split: if_splits)

lemma EvictionOfNeverStarting_class:
  "IsInfrastructureFault (EvictionOfNeverStarting d) \<longleftrightarrow> pd_Reason d = PhaseReasonNoOffer"
  by (auto simp: EvictionOfNeverStarting_def Let_def)

text \<open>The classes account for every counted job.\<close>

lemma ClassifyCounts_total: "sum_list (map snd (ClassifyCounts byReason)) = sum_list (map snd byReason)"
proof -
  let ?c = "\<lambda>reason. case Classify reason of None \<Rightarrow> FaultUnclassified | Some c \<Rightarrow> c"
  have "wf_map m \<Longrightarrow> sum_list (map snd (fold (\<lambda>(reason, n) byClass. madd (?c reason) n byClass) xs m))
      = sum_list (map snd m) + sum_list (map snd xs)" for m and xs :: "(string \<times> int) list"
    by (induction xs arbitrary: m) (auto simp: sum_list_upd)
  then show ?thesis by (simp add: ClassifyCounts_def)
qed

lemma sentenced_awaiting [simp]: "sentenced QueueReasonAwaitingAdmission"
  by code_simp

end
