(* ===== verification/Jobs.thy ===== *)
theory Jobs
  imports Prelude Complex_Main
begin

text \<open>
  What a job states and what it holds: the job vocabulary of the cluster contract
  (contract/clusterapi), the quantities it is written in (contract/jobspec), the
  experiment record and its resource footprint (controlplane/domain).

  Go's int and int64 are \<open>int\<close>; the one product the source discusses overflow of,
  in FairShare, is computed at its 64-bit width.  float64 is \<open>rat\<close> and time.Time is
  an \<open>int\<close> of nanoseconds.  The quantity type of Kubernetes' resource package is
  not part of the repository: it is the parameter \<open>quantity_lib\<close> of every definition
  that reads a quantity.
\<close>

subsection \<open>Quantities\<close>

text \<open>A parsed \<open>resource.Quantity\<close>, read through the three methods the code calls.\<close>

record quantity =
  MilliValue :: int
  Value :: int
  Sign :: int

text \<open>
  The functions of the resource package the code calls: ParseQuantity, and the String
  of NewMilliQuantity(v, DecimalSI) and of NewQuantity(v, BinarySI).
\<close>

record quantity_lib =
  lib_parse :: "string \<Rightarrow> quantity option"
  lib_milli_string :: "int \<Rightarrow> string"
  lib_binary_string :: "int \<Rightarrow> string"

datatype quantity_error = BareSign string | NotAQuantity string | NegativeQuantity string

definition ParseQuantity :: "quantity_lib \<Rightarrow> string \<Rightarrow> quantity_error + quantity" where
  "ParseQuantity Q qty =
     (if qty = ''-'' \<or> qty = ''+'' then Inl (BareSign qty)
      else case lib_parse Q qty of
          None \<Rightarrow> Inl (NotAQuantity qty)
        | Some q \<Rightarrow> if Sign q < 0 then Inl (NegativeQuantity qty) else Inr q)"

definition CPUCores :: "quantity_lib \<Rightarrow> string \<Rightarrow> quantity_error + rat" where
  "CPUCores Q qty =
     (case ParseQuantity Q qty of Inl e \<Rightarrow> Inl e | Inr q \<Rightarrow> Inr (of_int (MilliValue q) / 1000))"

subsection \<open>Accelerator types\<close>

type_synonym AcceleratorType = string

definition CPUType :: AcceleratorType where
  "CPUType = ''hypothesisloop.dev/cpu=core''"

datatype TypeKind = TypeKindAccelerator | TypeKindCPU

definition acc_Is :: "AcceleratorType \<Rightarrow> AcceleratorType \<Rightarrow> bool" where
  "acc_Is g other \<longleftrightarrow> g = other"

definition acc_Kind :: "AcceleratorType \<Rightarrow> TypeKind" where
  "acc_Kind g = (if acc_Is g CPUType then TypeKindCPU else TypeKindAccelerator)"

definition acc_split :: "AcceleratorType \<Rightarrow> (string \<times> string) option" where
  "acc_split g =
     (let eq = char_index g (CHR ''='')
      in if eq \<le> 0 \<or> eq = int (length g) - 1 then None
         else Some (take (nat eq) g, drop (nat eq + 1) g))"

definition acc_Key :: "AcceleratorType \<Rightarrow> string" where
  "acc_Key g = (case acc_split g of None \<Rightarrow> [] | Some (key, _) \<Rightarrow> key)"

definition acc_Value :: "AcceleratorType \<Rightarrow> string" where
  "acc_Value g = (case acc_split g of None \<Rightarrow> [] | Some (_, val) \<Rightarrow> val)"

definition acc_Domain :: "AcceleratorType \<Rightarrow> string" where
  "acc_Domain g =
     (let key = acc_Key g; slash = char_index key (CHR ''/'')
      in if slash \<le> 0 then [] else take (nat slash) key)"

datatype acc_error = NotKeyValue AcceleratorType | NotVendorQualified AcceleratorType
  | EmptyValue AcceleratorType

definition acc_Validate :: "AcceleratorType \<Rightarrow> acc_error option" where
  "acc_Validate g =
     (case acc_split g of
        None \<Rightarrow> Some (NotKeyValue g)
      | Some (key, val) \<Rightarrow>
          if char_index key (CHR ''/'') \<le> 0 then Some (NotVendorQualified g)
          else if val = [] then Some (EmptyValue g)
          else None)"

definition MatchesLabels :: "AcceleratorType \<Rightarrow> (string, string) gomap \<Rightarrow> bool" where
  "MatchesLabels g labels =
     (case acc_split g of None \<Rightarrow> False | Some (key, val) \<Rightarrow> gets labels key = val)"

definition MatchesAttributes :: "AcceleratorType \<Rightarrow> string \<Rightarrow> (string, string) gomap \<Rightarrow> bool" where
  "MatchesAttributes g driver attributes =
     (case acc_split g of
        None \<Rightarrow> False
      | Some (key, val) \<Rightarrow>
          if acc_Domain g \<noteq> driver then False
          else gets attributes (drop (nat (char_index key (CHR ''/'') + 1)) key) = val)"

subsection \<open>Nearness levels\<close>

type_synonym NodesLevel = string

definition NodesWithinRegion :: NodesLevel where
  "NodesWithinRegion = ''region''"

definition NodesWithinZone :: NodesLevel where
  "NodesWithinZone = ''zone''"

definition NodesWithinPlacementGroup :: NodesLevel where
  "NodesWithinPlacementGroup = ''placement_group''"

definition NodesLevels :: "NodesLevel list" where
  "NodesLevels = [NodesWithinRegion, NodesWithinZone, NodesWithinPlacementGroup]"

definition AsNearAs :: "NodesLevel \<Rightarrow> NodesLevel \<Rightarrow> bool" where
  "AsNearAs l want \<longleftrightarrow> l \<in> set NodesLevels \<and> slice_index NodesLevels l \<ge> slice_index NodesLevels want"

subsection \<open>The job specification\<close>

record TopologySpec =
  SpreadAcrossHosts :: "bool option"
  top_NodesWithin :: NodesLevel

record JobGroup =
  jg_Name :: string
  jg_Replicas :: int
  jg_CPU :: string
  jg_Memory :: string
  jg_Storage :: string
  jg_AcceleratorCount :: int
  jg_AcceleratorType :: AcceleratorType
  jg_Command :: "string list"
  jg_Args :: "string list"
  jg_Env :: "(string, string) gomap"

record JobSpec =
  js_Command :: "string list"
  js_Args :: "string list"
  js_Env :: "(string, string) gomap"
  js_SecretEnv :: "(string, string) gomap"
  js_CPU :: string
  js_Memory :: string
  js_Storage :: string
  js_AcceleratorCount :: int
  js_AcceleratorType :: AcceleratorType
  js_AcceptableAcceleratorTypes :: "AcceleratorType list"
  js_NodeSelector :: "(string, string) gomap"
  js_Slots :: "string list"
  js_Groups :: "JobGroup list"
  js_NumNodes :: int
  js_MaxRetries :: "int option"
  js_TerminationGracePeriodSeconds :: "int option"
  js_CheckpointGraceSeconds :: "int option"
  js_Topology :: "TopologySpec option"
  js_ShmSize :: string

definition Nodes :: "JobSpec \<Rightarrow> int" where
  "Nodes j =
     (if js_Groups j \<noteq> [] then sum_list (map jg_Replicas (js_Groups j))
      else if js_NumNodes j < 1 then 1 else js_NumNodes j)"

definition NodeGroups :: "JobSpec \<Rightarrow> JobGroup list" where
  "NodeGroups j =
     (if js_Groups j \<noteq> [] then js_Groups j
      else [\<lparr>jg_Name = [], jg_Replicas = Nodes j, jg_CPU = js_CPU j, jg_Memory = js_Memory j,
             jg_Storage = js_Storage j, jg_AcceleratorCount = js_AcceleratorCount j,
             jg_AcceleratorType = js_AcceleratorType j, jg_Command = js_Command j,
             jg_Args = js_Args j, jg_Env = js_Env j\<rparr>])"

definition TotalAccelerators :: "JobSpec \<Rightarrow> int" where
  "TotalAccelerators j = sum_list (map (\<lambda>g. jg_AcceleratorCount g * jg_Replicas g) (NodeGroups j))"

definition NodesWithin :: "JobSpec \<Rightarrow> NodesLevel" where
  "NodesWithin j =
     (if Nodes j \<le> 1 then []
      else case js_Topology j of
          None \<Rightarrow> NodesWithinZone
        | Some t \<Rightarrow> if top_NodesWithin t = [] then NodesWithinZone else top_NodesWithin t)"

definition ResolvedGrace :: "JobSpec \<Rightarrow> (int \<times> int) option" where
  "ResolvedGrace j =
     (case js_TerminationGracePeriodSeconds j of
        None \<Rightarrow> None
      | Some shutdown \<Rightarrow>
          Some (shutdown, case js_CheckpointGraceSeconds j of None \<Rightarrow> 0 | Some c \<Rightarrow> c))"

datatype topology_error = BadNodesWithin NodesLevel

definition ValidateTopology :: "JobSpec \<Rightarrow> topology_error option" where
  "ValidateTopology j =
     (case js_Topology j of
        None \<Rightarrow> None
      | Some t \<Rightarrow>
          if top_NodesWithin t = [] \<or> top_NodesWithin t \<in> set NodesLevels then None
          else Some (BadNodesWithin (top_NodesWithin t)))"

fun GroupAcceleratorType_of :: "JobGroup list \<Rightarrow> AcceleratorType" where
  "GroupAcceleratorType_of [] = []"
| "GroupAcceleratorType_of (g # gs) =
     (if jg_AcceleratorType g \<noteq> [] then jg_AcceleratorType g else GroupAcceleratorType_of gs)"

definition GroupAcceleratorType :: "JobSpec \<Rightarrow> AcceleratorType" where
  "GroupAcceleratorType j = GroupAcceleratorType_of (js_Groups j)"

subsection \<open>The resources one node holds\<close>

definition NodeResourceCPUMillicores :: string where
  "NodeResourceCPUMillicores = ''cpu_millicores''"

definition NodeResourceMemoryBytes :: string where
  "NodeResourceMemoryBytes = ''memory_bytes''"

definition NodeResourceStorageBytes :: string where
  "NodeResourceStorageBytes = ''storage_bytes''"

text \<open>
  One quantity of a node in the canonical unit of its key, left out when it cannot be
  read or is not positive.
\<close>

definition node_resource :: "quantity_lib \<Rightarrow> string \<Rightarrow> string \<Rightarrow> (string, int) gomap" where
  "node_resource Q key qty =
     (case ParseQuantity Q qty of
        Inl _ \<Rightarrow> []
      | Inr q \<Rightarrow>
          let value = (if key = NodeResourceCPUMillicores then MilliValue q else Value q)
          in if value > 0 then [(key, value)] else [])"

definition nodeResources :: "quantity_lib \<Rightarrow> JobGroup \<Rightarrow> (string, int) gomap" where
  "nodeResources Q grp =
     node_resource Q NodeResourceCPUMillicores (jg_CPU grp) @
     node_resource Q NodeResourceMemoryBytes (jg_Memory grp) @
     node_resource Q NodeResourceStorageBytes (jg_Storage grp)"

record NodeShape =
  ns_Group :: string
  ns_AcceleratorCount :: int
  ns_Resources :: "(string, int) gomap"

definition NodeShapes_of :: "quantity_lib \<Rightarrow> JobSpec \<Rightarrow> NodeShape list" where
  "NodeShapes_of Q j =
     concat (map (\<lambda>grp.
       replicate (nat (jg_Replicas grp))
         \<lparr>ns_Group = jg_Name grp, ns_AcceleratorCount = jg_AcceleratorCount grp,
          ns_Resources = nodeResources Q grp\<rparr>) (NodeGroups j))"

subsection \<open>Footprints\<close>

datatype ResourceKind = ResourceKindCPU | ResourceKindMemory | ResourceKindStorage
  | ResourceKindAccelerator

datatype ResourceKey = ResourceKey (Kind: ResourceKind) (Name: string)

type_synonym Footprint = "(ResourceKey, int) gomap"

definition NewFootprint :: Footprint where
  "NewFootprint = []"

definition fp_Add :: "Footprint \<Rightarrow> ResourceKey \<Rightarrow> int \<Rightarrow> Footprint" where
  "fp_Add f key amount = madd key amount f"

definition Scale :: "Footprint \<Rightarrow> int \<Rightarrow> Footprint" where
  "Scale f n = map (\<lambda>(k, v). (k, v * n)) f"

definition AddFootprint :: "Footprint \<Rightarrow> Footprint \<Rightarrow> Footprint" where
  "AddFootprint f other = fold (\<lambda>(k, v). madd k v) other f"

definition fp_Sub :: "Footprint \<Rightarrow> Footprint \<Rightarrow> Footprint" where
  "fp_Sub f other = fold (\<lambda>(k, v). madd k (- v)) other f"

definition Fits :: "Footprint \<Rightarrow> Footprint \<Rightarrow> bool" where
  "Fits capacity footprint = list_all (\<lambda>(k, need). need \<le> 0 \<or> need \<le> geti capacity k) footprint"

definition CapacityFootprint :: "rat \<Rightarrow> (string, int) gomap \<Rightarrow> int \<Rightarrow> int \<Rightarrow> Footprint" where
  "CapacityFootprint cpuCores acceleratorByType ramBytes storageBytes =
     (let trunc = (\<lambda>x :: rat. if x < 0 then \<lceil>x\<rceil> else \<lfloor>x\<rfloor>);
          fp = fp_Add NewFootprint (ResourceKey ResourceKindCPU []) (trunc (cpuCores * 1000));
          fp = fold (\<lambda>(t, n) f. fp_Add f (ResourceKey ResourceKindAccelerator t) n) acceleratorByType fp;
          fp = fp_Add fp (ResourceKey ResourceKindMemory []) ramBytes
      in fp_Add fp (ResourceKey ResourceKindStorage []) storageBytes)"

datatype share_error = NothingInstalled int

definition FairShare :: "int \<Rightarrow> int \<Rightarrow> int \<Rightarrow> share_error + int" where
  "FairShare totalCanonical heldAccelerators installedAccelerators =
     (if installedAccelerators \<le> 0 then Inl (NothingInstalled installedAccelerators)
      else if heldAccelerators \<le> 0 \<or> totalCanonical \<le> 0 then Inr 0
      else Inr (go_div (wrap64 (totalCanonical * heldAccelerators)) installedAccelerators))"

definition nodeResourceKeys :: "string \<Rightarrow> ResourceKey" where
  "nodeResourceKeys key =
     (if key = NodeResourceCPUMillicores then ResourceKey ResourceKindCPU []
      else if key = NodeResourceMemoryBytes then ResourceKey ResourceKindMemory []
      else ResourceKey ResourceKindStorage [])"

subsection \<open>The experiment record\<close>

datatype CapacityTier = CapacityGuaranteed | CapacityBurst

record TriedCluster =
  tc_ClusterID :: string
  tc_At :: int
  tc_Reason :: string

text \<open>The fields of \<open>domain.Experiment\<close> that scheduling reads or writes.\<close>

record Experiment =
  ex_ID :: string
  ex_AgentID :: string
  ex_PlatformExperimentID :: string
  ex_OrgID :: string
  ex_ClusterName :: string
  ex_Job :: JobSpec
  ex_ResolvedJob :: "JobSpec option"
  ex_Image :: string
  ex_ImageArchitecture :: string
  ex_AcceleratorType :: AcceleratorType
  ex_AcceleratorCount :: int
  ex_EstimatedDurationHours :: rat
  ex_EstimatedCostAccH :: rat
  ex_CapacityTier :: CapacityTier
  ex_PriorityScore :: rat
  ex_QueuedAt :: "int option"
  ex_AttemptCount :: int
  ex_InfraRequeueCount :: int
  ex_TriedClusters :: "TriedCluster list"
  ex_RanOnAcceleratorType :: AcceleratorType
  ex_CreatedAt :: int

definition EffectiveJob :: "Experiment \<Rightarrow> JobSpec" where
  "EffectiveJob e = (case ex_ResolvedJob e of Some j \<Rightarrow> j | None \<Rightarrow> ex_Job e)"

definition NodeArchitectureLabel :: string where
  "NodeArchitectureLabel = ''kubernetes.io/arch''"

definition OnImageArchitecture :: "Experiment \<Rightarrow> (string, string) gomap \<Rightarrow> bool" where
  "OnImageArchitecture e labels \<longleftrightarrow>
     ex_ImageArchitecture e = [] \<or> gets labels NodeArchitectureLabel = ex_ImageArchitecture e"

definition NodeShapes :: "quantity_lib \<Rightarrow> Experiment \<Rightarrow> NodeShape list" where
  "NodeShapes Q e = NodeShapes_of Q (EffectiveJob e)"

definition RetriesUsed :: "Experiment \<Rightarrow> int" where
  "RetriesUsed e = ex_AttemptCount e - ex_InfraRequeueCount e"

definition RatedCost :: "Experiment \<Rightarrow> rat \<Rightarrow> rat \<Rightarrow> rat" where
  "RatedCost e estimated hours =
     (if ex_EstimatedDurationHours e \<le> 0 then 0
      else (estimated / ex_EstimatedDurationHours e) * hours)"

text \<open>The rate table is a package variable set at startup: an argument here.\<close>

definition EstimateHeld :: "(string, rat) gomap \<Rightarrow> Experiment \<Rightarrow> rat option" where
  "EstimateHeld rates e =
     (case map_of rates (ex_AcceleratorType e) of
        None \<Rightarrow> None
      | Some rate \<Rightarrow> Some (rate * of_int (ex_AcceleratorCount e) * ex_EstimatedDurationHours e))"

definition group_footprint :: "quantity_lib \<Rightarrow> JobGroup \<Rightarrow> Footprint" where
  "group_footprint Q grp =
     Scale (fold (\<lambda>(key, amount) f. fp_Add f (nodeResourceKeys key) amount)
        (nodeResources Q grp) NewFootprint) (jg_Replicas grp)"

definition exp_Footprint :: "quantity_lib \<Rightarrow> Experiment \<Rightarrow> Footprint" where
  "exp_Footprint Q e =
     (let fp = fold (\<lambda>grp f. AddFootprint f (group_footprint Q grp))
                 (NodeGroups (EffectiveJob e)) NewFootprint
      in if ex_AcceleratorCount e > 0 \<and> ex_AcceleratorType e \<noteq> []
         then fp_Add fp (ResourceKey ResourceKindAccelerator (ex_AcceleratorType e)) (ex_AcceleratorCount e)
         else fp)"

subsection \<open>Reading a map that was added into\<close>

lemma geti_fold_madd:
  "geti (fold (\<lambda>(k, v). madd (g k) v) xs f) key =
     geti f key + sum_list (map snd (filter (\<lambda>e. g (fst e) = key) xs))"
  by (induction xs arbitrary: f) auto

lemma wf_map_fold_madd: "wf_map f \<Longrightarrow> wf_map (fold (\<lambda>(k, v). madd (g k) v) xs f)"
  by (induction xs arbitrary: f) auto

lemma sum_filter_key:
  "wf_map m \<Longrightarrow> sum_list (map snd (filter (\<lambda>e. fst e = key) m)) = geti m key"
proof (induction m)
  case Nil
  then show ?case by simp
next
  case (Cons e m)
  then have "wf_map m" and "fst e \<notin> set (keys m)" by (auto simp: wf_map_def keys_def)
  moreover have "filter (\<lambda>x. fst x = key) m = []" if "fst e = key"
    using calculation(2) that by (auto simp: keys_def filter_empty_conv image_iff)
  ultimately show ?case
    using Cons.IH by (cases e) (auto simp: mget_def)
qed

lemma geti_AddFootprint [gomap]:
  "wf_map other \<Longrightarrow> geti (AddFootprint f other) k = geti f k + geti other k"
  using geti_fold_madd [of "\<lambda>k. k" other f k] by (simp add: AddFootprint_def sum_filter_key)

lemma geti_fp_Sub [gomap]:
  assumes "wf_map other"
  shows "geti (fp_Sub f other) k = geti f k - geti other k"
proof -
  have "geti (fold (\<lambda>(k, v). madd k (- v)) xs f) k =
      geti f k - sum_list (map snd (filter (\<lambda>e. fst e = k) xs))" for xs
    by (induction xs arbitrary: f) auto
  with assms show ?thesis by (simp add: fp_Sub_def sum_filter_key)
qed

lemma map_of_Scale: "map_of (Scale f n) k = map_option (\<lambda>v. v * n) (map_of f k)"
  by (induction f) (auto simp: Scale_def)

lemma geti_Scale [gomap]: "geti (Scale f n) k = geti f k * n"
  by (simp add: mget_def map_of_Scale split: option.splits)

lemma wf_AddFootprint [simp]: "wf_map f \<Longrightarrow> wf_map (AddFootprint f other)"
  using wf_map_fold_madd [of f "\<lambda>k. k" other] by (simp add: AddFootprint_def)

lemma wf_fp_Sub [simp]: "wf_map f \<Longrightarrow> wf_map (fp_Sub f other)"
proof -
  have "wf_map (fold (\<lambda>(k, v). madd k (- v)) xs f)" if "wf_map f" for xs :: Footprint and f
    using that by (induction xs arbitrary: f) auto
  then show "wf_map f \<Longrightarrow> ?thesis" by (simp add: fp_Sub_def)
qed

lemma wf_Scale [simp]: "wf_map (Scale f n) = wf_map f"
  by (simp add: wf_map_def Scale_def case_prod_beta comp_def)

lemma wf_NewFootprint [simp]: "wf_map NewFootprint"
  by (simp add: NewFootprint_def)

subsection \<open>The fit check\<close>

lemma Fits_iff:
  assumes "wf_map fp"
  shows "Fits capacity fp \<longleftrightarrow> (\<forall>k. 0 < geti fp k \<longrightarrow> geti fp k \<le> geti capacity k)"
    (is "?l = ?r")
proof
  assume l: ?l
  show ?r
  proof (intro allI impI)
    fix k assume pos: "0 < geti fp k"
    then have "(k, geti fp k) \<in> set fp"
      by (metis less_irrefl mget_absent mget_entry)
    with l pos show "geti fp k \<le> geti capacity k"
      by (fastforce simp: Fits_def list_all_iff)
  qed
next
  assume r: ?r
  have "v \<le> 0 \<or> v \<le> geti capacity k" if "(k, v) \<in> set fp" for k v
    using spec [OF r, of k] mget_in [OF assms that, of 0] by linarith
  then show ?l by (auto simp: Fits_def list_all_iff)
qed

lemma Fits_mono:
  assumes "Fits c fp" and le: "\<And>k. geti c k \<le> geti d k"
  shows "Fits d fp"
proof -
  have "v \<le> 0 \<or> v \<le> geti d k" if "(k, v) \<in> set fp" for k v
    using assms(1) le [of k] that by (fastforce simp: Fits_def list_all_iff)
  then show ?thesis by (auto simp: Fits_def list_all_iff)
qed

subsection \<open>Node shapes\<close>

lemmas node_keys = NodeResourceCPUMillicores_def NodeResourceMemoryBytes_def NodeResourceStorageBytes_def

lemma node_keys_distinct [simp]:
  "NodeResourceCPUMillicores \<noteq> NodeResourceMemoryBytes"
  "NodeResourceCPUMillicores \<noteq> NodeResourceStorageBytes"
  "NodeResourceMemoryBytes \<noteq> NodeResourceStorageBytes"
  "NodeResourceMemoryBytes \<noteq> NodeResourceCPUMillicores"
  "NodeResourceStorageBytes \<noteq> NodeResourceCPUMillicores"
  "NodeResourceStorageBytes \<noteq> NodeResourceMemoryBytes"
  by (simp_all add: node_keys)

lemma set_node_resource: "set (node_resource Q key qty) \<subseteq> {key} \<times> {0<..}"
  by (auto simp: node_resource_def Let_def split: sum.splits)

lemma node_resource_cases:
  obtains "node_resource Q key qty = []" | v where "0 < v" "node_resource Q key qty = [(key, v)]"
proof (cases "ParseQuantity Q qty")
  case (Inl e)
  then show ?thesis using that(1) by (simp add: node_resource_def)
next
  case (Inr q)
  define v where "v = (if key = NodeResourceCPUMillicores then MilliValue q else Value q)"
  from Inr have "node_resource Q key qty = (if v > 0 then [(key, v)] else [])"
    by (simp add: node_resource_def v_def)
  then show ?thesis using that by (cases "v > 0") auto
qed

lemma wf_nodeResources [simp]: "wf_map (nodeResources Q grp)"
  unfolding nodeResources_def
  by (rule node_resource_cases [of Q NodeResourceCPUMillicores "jg_CPU grp"];
      rule node_resource_cases [of Q NodeResourceMemoryBytes "jg_Memory grp"];
      rule node_resource_cases [of Q NodeResourceStorageBytes "jg_Storage grp"])
    (auto simp: wf_map_def)

lemma nodeResources_pos: "(k, v) \<in> set (nodeResources Q grp) \<Longrightarrow> 0 < v"
  using set_node_resource by (fastforce simp: nodeResources_def)

lemma nodeResources_key:
  "(k, v) \<in> set (nodeResources Q grp) \<Longrightarrow>
   k \<in> {NodeResourceCPUMillicores, NodeResourceMemoryBytes, NodeResourceStorageBytes}"
  using set_node_resource by (fastforce simp: nodeResources_def)

lemma geti_nodeResources_nonneg: "0 \<le> geti (nodeResources Q grp) k"
  by (metis le_less mget_absent mget_entry nodeResources_pos)

lemma NodeShapes_resources:
  assumes "s \<in> set (NodeShapes Q e)"
  shows "wf_map (ns_Resources s)" and "(k, v) \<in> set (ns_Resources s) \<Longrightarrow> 0 < v"
  using assms by (auto simp: NodeShapes_def NodeShapes_of_def dest: nodeResources_pos)

lemma length_NodeShapes:
  assumes "\<And>g. g \<in> set (js_Groups (EffectiveJob e)) \<Longrightarrow> 0 \<le> jg_Replicas g"
  shows "int (length (NodeShapes Q e)) = Nodes (EffectiveJob e)"
proof -
  have "int (length (concat (map (\<lambda>g. replicate (nat (jg_Replicas g)) (f g)) gs))) =
      sum_list (map jg_Replicas gs)" if "\<And>g. g \<in> set gs \<Longrightarrow> 0 \<le> jg_Replicas g"
    for gs and f :: "JobGroup \<Rightarrow> NodeShape"
    using that by (induction gs) auto
  with assms show ?thesis
    by (simp add: NodeShapes_def NodeShapes_of_def NodeGroups_def Nodes_def)
qed

text \<open>
  A sum over the nodes of a job is the sum over its groups of replicas times one node,
  provided no group states a negative number of replicas.
\<close>

lemma sum_NodeShapes:
  assumes "\<And>g. g \<in> set (NodeGroups (EffectiveJob e)) \<Longrightarrow> 0 \<le> jg_Replicas g"
  shows "sum_list (map f (NodeShapes Q e)) =
     sum_list (map (\<lambda>g. jg_Replicas g *
       f \<lparr>ns_Group = jg_Name g, ns_AcceleratorCount = jg_AcceleratorCount g,
          ns_Resources = nodeResources Q g\<rparr>) (NodeGroups (EffectiveJob e)))"
proof -
  define shape where "shape g = \<lparr>ns_Group = jg_Name g, ns_AcceleratorCount = jg_AcceleratorCount g,
    ns_Resources = nodeResources Q g\<rparr>" for g
  have "sum_list (map f (concat (map (\<lambda>g. replicate (nat (jg_Replicas g)) (shape g)) gs))) =
      sum_list (map (\<lambda>g. jg_Replicas g * f (shape g)) gs)"
    if "\<And>g. g \<in> set gs \<Longrightarrow> 0 \<le> jg_Replicas g" for gs
    using that by (induction gs) (auto simp: sum_list_replicate)
  with assms show ?thesis
    by (simp add: NodeShapes_def NodeShapes_of_def shape_def)
qed

subsection \<open>The footprint of a job\<close>

lemma nodeResourceKeys_simps [simp]:
  "nodeResourceKeys NodeResourceCPUMillicores = ResourceKey ResourceKindCPU []"
  "nodeResourceKeys NodeResourceMemoryBytes = ResourceKey ResourceKindMemory []"
  "nodeResourceKeys NodeResourceStorageBytes = ResourceKey ResourceKindStorage []"
  by (simp_all add: nodeResourceKeys_def)

definition node_dimensions :: "string set" where
  "node_dimensions = {NodeResourceCPUMillicores, NodeResourceMemoryBytes, NodeResourceStorageBytes}"

lemma inj_nodeResourceKeys: "inj_on nodeResourceKeys node_dimensions"
  by (auto simp: inj_on_def node_dimensions_def)

lemma wf_group_footprint [simp]: "wf_map (group_footprint Q grp)"
  using wf_map_fold_madd [of "[]" nodeResourceKeys "nodeResources Q grp"]
  by (simp add: group_footprint_def fp_Add_def NewFootprint_def)

lemma geti_group_footprint:
  assumes "key \<in> node_dimensions"
  shows "geti (group_footprint Q grp) (nodeResourceKeys key) =
     jg_Replicas grp * geti (nodeResources Q grp) key"
proof -
  have "(nodeResourceKeys (fst x) = nodeResourceKeys key) = (fst x = key)"
    if "x \<in> set (nodeResources Q grp)" for x
    using that assms inj_nodeResourceKeys nodeResources_key [of "fst x" "snd x" Q grp]
    by (auto simp: node_dimensions_def dest: inj_onD)
  then have "filter (\<lambda>e. nodeResourceKeys (fst e) = nodeResourceKeys key) (nodeResources Q grp)
      = filter (\<lambda>e. fst e = key) (nodeResources Q grp)"
    by (intro filter_cong) auto
  moreover have "geti (group_footprint Q grp) (nodeResourceKeys key) = jg_Replicas grp *
      geti (fold (\<lambda>(k, v). madd (nodeResourceKeys k) v) (nodeResources Q grp) []) (nodeResourceKeys key)"
    by (simp add: group_footprint_def geti_Scale fp_Add_def NewFootprint_def)
  ultimately show ?thesis
    by (simp add: geti_fold_madd sum_filter_key)
qed

lemma geti_group_footprint_accelerator:
  "geti (group_footprint Q grp) (ResourceKey ResourceKindAccelerator t) = 0"
proof -
  have "filter (\<lambda>e. nodeResourceKeys (fst e) = ResourceKey ResourceKindAccelerator t) m = []" for m :: "(string, int) gomap"
    by (auto simp: filter_empty_conv nodeResourceKeys_def)
  then show ?thesis
    by (simp add: group_footprint_def geti_Scale fp_Add_def NewFootprint_def geti_fold_madd)
qed

lemma geti_fold_groups:
  "geti (fold (\<lambda>grp f. AddFootprint f (group_footprint Q grp)) gs f) k =
     geti f k + sum_list (map (\<lambda>g. geti (group_footprint Q g) k) gs)"
  by (induction gs arbitrary: f) (auto simp: geti_AddFootprint)

lemma wf_fold_groups:
  "wf_map f \<Longrightarrow> wf_map (fold (\<lambda>grp f. AddFootprint f (group_footprint Q grp)) gs f)"
  by (induction gs arbitrary: f) auto

lemma wf_exp_Footprint [simp]: "wf_map (exp_Footprint Q e)"
  by (simp add: exp_Footprint_def fp_Add_def Let_def wf_fold_groups)

lemma nodeResourceKeys_not_accelerator [simp]:
  "nodeResourceKeys key \<noteq> ResourceKey ResourceKindAccelerator t"
  by (simp add: nodeResourceKeys_def)

lemma geti_exp_Footprint_node:
  assumes "key \<in> node_dimensions"
  shows "geti (exp_Footprint Q e) (nodeResourceKeys key) =
     sum_list (map (\<lambda>g. jg_Replicas g * geti (nodeResources Q g) key) (NodeGroups (EffectiveJob e)))"
  using assms
  by (simp add: exp_Footprint_def Let_def fp_Add_def geti_fold_groups geti_group_footprint NewFootprint_def)

lemma geti_exp_Footprint_accelerator:
  "geti (exp_Footprint Q e) (ResourceKey ResourceKindAccelerator t) =
     (if ex_AcceleratorCount e > 0 \<and> ex_AcceleratorType e \<noteq> [] \<and> t = ex_AcceleratorType e
      then ex_AcceleratorCount e else 0)"
  by (auto simp: exp_Footprint_def Let_def fp_Add_def geti_fold_groups NewFootprint_def
      geti_group_footprint_accelerator)

subsection \<open>Fair shares\<close>

lemma FairShare_value:
  assumes "0 < installed" and "0 < held" and "0 < amount" and "amount * held < 2 ^ 63"
  shows "FairShare amount held installed = Inr (amount * held div installed)"
proof -
  have "0 < amount * held" using assms by simp
  with assms(4) have "in_int64 (amount * held)" by (simp add: in_int64_def)
  with assms \<open>0 < amount * held\<close> show ?thesis
    by (simp add: FairShare_def go_div_nonneg)
qed

lemma sum_div_le:
  fixes n :: int
  assumes "0 < n"
  shows "sum_list (map (\<lambda>h. t * h div n) hs) * n \<le> t * sum_list hs"
proof (induction hs)
  case (Cons h hs)
  have "(t * h div n) * n \<le> t * h"
    using div_mult_mod_eq [of "t * h" n] pos_mod_sign [OF assms, of "t * h"] by linarith
  with Cons show ?case by (simp add: algebra_simps)
qed simp

end
