(* ===== verification/Samples.thy ===== *)
theory Samples
  imports Jobs "HOL-Library.Code_Target_Numeral"
begin

text \<open>
  Concrete data the closed instances of the development are evaluated on: a quantity
  library that reads plain decimal numbers and thousandths, a job on one A100, the same on two nodes, and
  a cluster of two nodes.
\<close>

definition sample_parse :: "string \<Rightarrow> quantity option" where
  "sample_parse s =
     (let milli = (s \<noteq> [] \<and> last s = CHR ''m''); digits = (if milli then butlast s else s)
      in if digits = [] \<or> \<not> list_all is_digit digits then None
         else let n = int (digits_value digits)
              in Some (if milli then \<lparr>MilliValue = n, Value = (n + 999) div 1000, Sign = sgn n\<rparr>
                       else \<lparr>MilliValue = 1000 * n, Value = n, Sign = sgn n\<rparr>))"

definition sample_Q :: quantity_lib where
  "sample_Q = \<lparr>lib_parse = sample_parse, lib_milli_string = (\<lambda>v. show_int v @ ''m''), lib_binary_string = show_int\<rparr>"

definition sample_job :: JobSpec where
  "sample_job = \<lparr>js_Command = [], js_Args = [], js_Env = [], js_SecretEnv = [], js_CPU = ''4'', js_Memory = ''8'', js_Storage = ''2'',
     js_AcceleratorCount = 1, js_AcceleratorType = ''nvidia.com/gpu.product=A100'', js_AcceptableAcceleratorTypes = [],
     js_NodeSelector = [], js_Slots = [], js_Groups = [], js_NumNodes = 1, js_MaxRetries = None,
     js_TerminationGracePeriodSeconds = None, js_CheckpointGraceSeconds = None, js_Topology = None, js_ShmSize = []\<rparr>"

definition sample_exp :: Experiment where
  "sample_exp = \<lparr>ex_ID = ''e1'', ex_AgentID = ''a1'', ex_PlatformExperimentID = ''p1'', ex_OrgID = ''o1'', ex_ClusterName = [],
     ex_Job = sample_job, ex_ResolvedJob = None, ex_Image = [], ex_ImageArchitecture = [],
     ex_AcceleratorType = ''nvidia.com/gpu.product=A100'', ex_AcceleratorCount = 1, ex_EstimatedDurationHours = 2,
     ex_EstimatedCostAccH = 2, ex_CapacityTier = CapacityGuaranteed, ex_PriorityScore = 0, ex_QueuedAt = Some 0,
     ex_AttemptCount = 0, ex_InfraRequeueCount = 0, ex_TriedClusters = [], ex_RanOnAcceleratorType = [], ex_CreatedAt = 0\<rparr>"

definition sample_two :: Experiment where
  "sample_two = sample_exp\<lparr>ex_Job := sample_job\<lparr>js_NumNodes := 2\<rparr>, ex_AcceleratorCount := 2\<rparr>"

definition sample_byNode :: "(string, (string, int) gomap) gomap" where
  "sample_byNode = [(''n1'', [(''nvidia.com/gpu.product=A100'', 2)]), (''n2'', [(''nvidia.com/gpu.product=A100'', 1)])]"

definition sample_nodeRes :: "(string, (string, int) gomap) gomap" where
  "sample_nodeRes = [(''n1'', [(NodeResourceCPUMillicores, 8000), (NodeResourceMemoryBytes, 16), (NodeResourceStorageBytes, 4)]),
     (''n2'', [(NodeResourceCPUMillicores, 4000), (NodeResourceMemoryBytes, 8), (NodeResourceStorageBytes, 2)])]"

end
