(* ===== verification/Labels.thy ===== *)
theory Labels
  imports Samples
begin

text \<open>
  What the scheduler reads off a node's labels (controlplane/service/scheduler/placement,
  nodes.go and slots.go): whether the node may run a job, whether it is a slot that holds
  one job at a time, and the place it is in at a nearness level.
\<close>

type_synonym labels = "(string, string) gomap"
type_synonym labelmap = "(string, labels) gomap"
type_synonym amounts = "(string, int) gomap"
type_synonym capmap = "(string, amounts) gomap"

subsection \<open>Label names\<close>

definition NodeLabelReservedPrefix :: string where
  "NodeLabelReservedPrefix = ''hypothesisloop.io/''"

definition NodeSlotLabel :: string where
  "NodeSlotLabel = NodeLabelReservedPrefix @ ''slot''"

definition NodeSlotAcceleratorsLabel :: string where
  "NodeSlotAcceleratorsLabel = NodeLabelReservedPrefix @ ''slot-accelerators''"

definition NodeSlotNoOfferLabel :: string where
  "NodeSlotNoOfferLabel = NodeLabelReservedPrefix @ ''slot-no-offer''"

definition NodeSlotNetworkLabel :: string where
  "NodeSlotNetworkLabel = NodeLabelReservedPrefix @ ''slot-network''"

definition NodeSlotNoNetworkLabel :: string where
  "NodeSlotNoNetworkLabel = NodeLabelReservedPrefix @ ''slot-no-network''"

definition NodeSlotNetworkWithinLabel :: string where
  "NodeSlotNetworkWithinLabel = NodeLabelReservedPrefix @ ''slot-network-within''"

definition NodeRegionLabel :: string where
  "NodeRegionLabel = ''topology.kubernetes.io/region''"

definition NodeZoneLabel :: string where
  "NodeZoneLabel = ''topology.kubernetes.io/zone''"

definition NodePlacementGroupKeyLabel :: string where
  "NodePlacementGroupKeyLabel = NodeLabelReservedPrefix @ ''placement-group-key''"

subsection \<open>Which nodes run a job\<close>

definition AcceleratorKey :: "AcceleratorType \<Rightarrow> string" where
  "AcceleratorKey t = t"

definition RequiresDistinctHosts :: "Experiment \<Rightarrow> bool" where
  "RequiresDistinctHosts e =
     (if Nodes (ex_Job e) \<le> 1 \<or> TotalAccelerators (ex_Job e) \<le> 0 then False
      else case js_Topology (ex_Job e) of
          None \<Rightarrow> True
        | Some t \<Rightarrow> (case SpreadAcrossHosts t of None \<Rightarrow> True | Some b \<Rightarrow> b))"

definition LabelsMatch :: "labels \<Rightarrow> labels \<Rightarrow> bool" where
  "LabelsMatch actual required = list_all (\<lambda>(key, val). gets actual key = val) required"

definition RunsOn :: "labels \<Rightarrow> Experiment \<Rightarrow> bool" where
  "RunsOn lab e \<longleftrightarrow> LabelsMatch lab (js_NodeSelector (ex_Job e)) \<and> OnImageArchitecture e lab"

subsection \<open>Slots\<close>

definition isSlot :: "labels \<Rightarrow> bool" where
  "isSlot lab \<longleftrightarrow> gets lab NodeSlotLabel \<noteq> []"

definition HasSlots :: "labelmap \<Rightarrow> bool" where
  "HasSlots labelsByNode = list_ex (\<lambda>(_, lab). isSlot lab) labelsByNode"

definition labelCount :: "labels \<Rightarrow> string \<Rightarrow> int" where
  "labelCount lab key = atoi (gets lab key)"

definition SlotAccelerators :: "labels \<Rightarrow> int" where
  "SlotAccelerators lab = labelCount lab NodeSlotAcceleratorsLabel"

definition SlotNetwork :: "labels \<Rightarrow> int" where
  "SlotNetwork lab = labelCount lab NodeSlotNetworkLabel"

definition slotWithin :: "labels \<Rightarrow> NodesLevel" where
  "slotWithin lab = gets lab NodeSlotNetworkWithinLabel"

definition takesWholeSlot :: "NodeShape \<Rightarrow> string \<Rightarrow> amounts \<Rightarrow> amounts \<Rightarrow> bool" where
  "takesWholeSlot shape nodeKey accelerators resources =
     (let free = sum_list (map snd accelerators)
      in if free \<noteq> ns_AcceleratorCount shape
            \<or> (ns_AcceleratorCount shape > 0 \<and> geti accelerators nodeKey \<noteq> ns_AcceleratorCount shape)
         then False
         else if resources = [] then False
         else list_all (\<lambda>(name, amount). 0 < amount \<and> geti (ns_Resources shape) name = amount) resources)"

subsection \<open>Places\<close>

definition levelLabels :: "NodesLevel \<Rightarrow> string" where
  "levelLabels l =
     (if l = NodesWithinRegion then NodeRegionLabel
      else if l = NodesWithinZone then NodeZoneLabel else [])"

definition labelledLevels :: "labelmap \<Rightarrow> string list" where
  "labelledLevels labelsByNode =
     filter (\<lambda>key. list_ex (\<lambda>(_, lab). gets lab key \<noteq> []) labelsByNode)
       [NodeRegionLabel, NodeZoneLabel]"

text \<open>The loop of nearness over the levels from the widest to \<open>level\<close>.\<close>

fun nearness_walk :: "labels \<Rightarrow> NodesLevel \<Rightarrow> string list \<Rightarrow> labels \<Rightarrow> NodesLevel list \<Rightarrow> labels option" where
  "nearness_walk lab level labelled place [] = Some place"
| "nearness_walk lab level labelled place (l # ls) =
     (let key = (if l = NodesWithinPlacementGroup then gets lab NodePlacementGroupKeyLabel
                 else levelLabels l);
          val = gets lab key
      in if key \<noteq> [] \<and> val \<noteq> [] then
           (if l = level then Some (mput key val place)
            else nearness_walk lab level labelled (mput key val place) ls)
         else if l = NodesWithinPlacementGroup \<or> key \<in> set labelled then None
         else if l = level then Some place
         else nearness_walk lab level labelled place ls)"

text \<open>
  The place of a node at a level; \<open>None\<close> is a node no job within the level may take,
  and the empty place stands for Go's nil as well as for its empty map, which every
  caller treats alike.
\<close>

definition nearness :: "labelmap \<Rightarrow> string \<Rightarrow> NodesLevel \<Rightarrow> string list \<Rightarrow> labels option" where
  "nearness labelsByNode node level labelled =
     (let lab = mget [] labelsByNode node
      in if level = [] then Some []
         else if isSlot lab then (if AsNearAs (slotWithin lab) level then Some [] else None)
         else nearness_walk lab level labelled [] NodesLevels)"

definition placeKey :: "labels \<Rightarrow> string" where
  "placeKey place =
     concat (map (\<lambda>key. key @ ''='' @ gets place key @ '';'') (sort (keys place)))"

subsection \<open>Lemmas\<close>

lemma LabelsMatch_iff:
  "wf_map required \<Longrightarrow> LabelsMatch actual required \<longleftrightarrow>
     (\<forall>key \<in> set (keys required). gets actual key = gets required key)"
  by (force simp: LabelsMatch_def list_all_iff keys_def mget_in)

lemma nearness_no_level [simp]: "nearness labelsByNode node [] labelled = Some []"
  by (simp add: nearness_def)

lemma levels_distinct [simp]:
  "NodesWithinRegion \<noteq> NodesWithinZone" "NodesWithinRegion \<noteq> NodesWithinPlacementGroup"
  "NodesWithinZone \<noteq> NodesWithinPlacementGroup" "NodesWithinZone \<noteq> NodesWithinRegion"
  "NodesWithinPlacementGroup \<noteq> NodesWithinRegion" "NodesWithinPlacementGroup \<noteq> NodesWithinZone"
  by (simp_all add: NodesWithinRegion_def NodesWithinZone_def NodesWithinPlacementGroup_def)

text \<open>
  Two nodes in the same place at a level carry the same labels for it: what a place
  holds is read off the node it came from.
\<close>

definition place_of :: "labels \<Rightarrow> labels \<Rightarrow> bool" where
  "place_of lab place \<longleftrightarrow> (\<forall>k v. map_of place k = Some v \<longrightarrow> gets lab k = v)"

lemma place_of_mput: "place_of lab place \<Longrightarrow> place_of lab (mput k (gets lab k) place)"
  by (simp add: place_of_def)

lemma nearness_walk_labels:
  "place_of lab place \<Longrightarrow> nearness_walk lab level labelled place ls = Some p \<Longrightarrow> place_of lab p"
proof (induction ls arbitrary: place)
  case Nil
  then show ?case by simp
next
  case (Cons l ls)
  define key where
    "key = (if l = NodesWithinPlacementGroup then gets lab NodePlacementGroupKeyLabel else levelLabels l)"
  have step: "nearness_walk lab level labelled place (l # ls) =
      (if key \<noteq> [] \<and> gets lab key \<noteq> [] then
         (if l = level then Some (mput key (gets lab key) place)
          else nearness_walk lab level labelled (mput key (gets lab key) place) ls)
       else if l = NodesWithinPlacementGroup \<or> key \<in> set labelled then None
       else if l = level then Some place else nearness_walk lab level labelled place ls)"
    by (simp add: key_def Let_def)
  from Cons.prems(1) have "place_of lab (mput key (gets lab key) place)" by (rule place_of_mput)
  with Cons.prems Cons.IH show ?case unfolding step by (metis option.distinct(1) option.inject)
qed

lemma nearness_labels:
  assumes "nearness labelsByNode node level labelled = Some place"
  shows "place_of (mget [] labelsByNode node) place"
proof -
  have "place_of lab []" for lab by (simp add: place_of_def)
  with assms show ?thesis
    by (auto simp: nearness_def Let_def simp del: nearness_walk.simps split: if_splits
        intro: nearness_walk_labels)
qed

end
