(* ===== verification/Search.thy ===== *)
theory Search
  imports Labels
begin

text \<open>
  The placement search (planPlacement in placement/nodes.go): nodes for every rank of every
  job against the free capacity, hardest rank first, each on the tightest node that fits,
  with backtracking, pruning of nodes left in the same state, and a budget of node trials.

  Go keeps the capacity in maps it changes before descending and changes back when a
  subtree fails.  Here a subtree gets the changed state as an argument and the caller
  keeps its own, which is the state Go restores (\<open>add_after_sub\<close>).  The budget is the
  one variable that is not restored: it is threaded through the whole search.
\<close>

subsection \<open>Capacity of a node\<close>

definition cap_upd :: "capmap \<Rightarrow> string \<Rightarrow> (amounts \<Rightarrow> amounts) \<Rightarrow> capmap" where
  "cap_upd m node f = (case map_of m node of None \<Rightarrow> m | Some c \<Rightarrow> mput node (f c) m)"

definition NodeHasRoom :: "amounts option \<Rightarrow> amounts \<Rightarrow> bool" where
  "NodeHasRoom available needed =
     (if needed = [] then True
      else case available of
          None \<Rightarrow> False
        | Some a \<Rightarrow> list_all (\<lambda>(key, amount). amount \<le> geti a key) needed)"

definition subtractNodeResources :: "amounts \<Rightarrow> amounts \<Rightarrow> amounts" where
  "subtractNodeResources available used = fold (\<lambda>(key, amount). madd key (- amount)) used available"

definition AddNodeResources :: "amounts \<Rightarrow> amounts \<Rightarrow> amounts" where
  "AddNodeResources available used = fold (\<lambda>(key, amount). madd key amount) used available"

definition shapeResourceTotal :: "NodeShape \<Rightarrow> int" where
  "shapeResourceTotal shape = sum_list (map snd (ns_Resources shape))"

definition sameShape :: "NodeShape list \<Rightarrow> NodeShape \<Rightarrow> int" where
  "sameShape shapes shape =
     int (length (filter (\<lambda>other. ns_AcceleratorCount other = ns_AcceleratorCount shape
       \<and> maps_equal (ns_Resources other) (ns_Resources shape)) shapes))"

definition qualifyingNodes :: "capmap \<Rightarrow> labelmap \<Rightarrow> Experiment \<Rightarrow> string list" where
  "qualifyingNodes capacity labelsByNode e =
     sort (filter (\<lambda>node. LabelsMatch (mget [] labelsByNode node) (js_NodeSelector (EffectiveJob e))
       \<and> OnImageArchitecture e (mget [] labelsByNode node)) (keys capacity))"

subsection \<open>The ranks to place\<close>

record rank =
  rk_job :: nat
  rk_rank :: nat
  rk_shape :: NodeShape
  rk_key :: string
  rk_distinct :: bool
  rk_network :: int
  rk_nodes :: "string list"

record rankAssignment =
  ra_job :: nat
  ra_rank :: nat
  ra_shape :: NodeShape
  ra_node :: string
  ra_key :: string

type_synonym places = "(string, string) gomap option"

text \<open>
  The place of each node a job within a level may take; \<open>None\<close> (Go's nil) for a job on
  one node, or when its nodes may be apart.
\<close>

definition job_places :: "capmap \<Rightarrow> capmap \<Rightarrow> labelmap \<Rightarrow> bool \<Rightarrow> Experiment \<Rightarrow> places" where
  "job_places byNode nodeRes labelsByNode apart e =
     (let level = NodesWithin (EffectiveJob e)
      in if level \<noteq> [] \<and> \<not> apart then
           Some (fold (\<lambda>node m.
               case nearness labelsByNode node level (labelledLevels labelsByNode) of
                 None \<Rightarrow> m | Some place \<Rightarrow> mput node (placeKey place) m)
             (qualifyingNodes byNode labelsByNode e @ qualifyingNodes nodeRes labelsByNode e) [])
         else None)"

definition within_place :: "places \<Rightarrow> string list \<Rightarrow> string list" where
  "within_place pl nodes =
     (case pl of None \<Rightarrow> nodes | Some m \<Rightarrow> filter (\<lambda>node. map_of m node \<noteq> None) nodes)"

text \<open>
  The ranks of one job.  A job pinned to slots (\<open>js_Slots\<close>) states one per rank; Go
  indexes the list by the rank and panics when it is shorter, which no job admission
  resolved is: here such a rank has no node to take.
\<close>

definition job_ranks :: "quantity_lib \<Rightarrow> capmap \<Rightarrow> capmap \<Rightarrow> labelmap \<Rightarrow> bool \<Rightarrow> nat \<Rightarrow> Experiment \<Rightarrow> rank list" where
  "job_ranks Q byNode nodeRes labelsByNode apart i e =
     (let pl = job_places byNode nodeRes labelsByNode apart e;
          acceleratorNodes = within_place pl (qualifyingNodes byNode labelsByNode e);
          plainNodes = within_place pl (qualifyingNodes nodeRes labelsByNode e);
          shapes = NodeShapes Q e;
          pinned = js_Slots (EffectiveJob e)
      in map (\<lambda>(r, shape).
           let nodes = (if ns_AcceleratorCount shape > 0 then acceleratorNodes else plainNodes)
           in \<lparr>rk_job = i, rk_rank = r, rk_shape = shape, rk_key = AcceleratorKey (ex_AcceleratorType e),
               rk_distinct = RequiresDistinctHosts e,
               rk_network = (if pinned \<noteq> [] then 0
                             else if length shapes > 1 then sameShape shapes shape else 0),
               rk_nodes = (if pinned \<noteq> []
                 then filter (\<lambda>node. r < length pinned \<and>
                        gets (mget [] labelsByNode node) NodeSlotLabel = pinned ! r) nodes
                 else nodes)\<rparr>)
         (enumerate 0 shapes))"

text \<open>Hardest rank first.\<close>

definition shape_before :: "NodeShape \<Rightarrow> NodeShape \<Rightarrow> bool" where
  "shape_before a b =
     (if ns_AcceleratorCount a \<noteq> ns_AcceleratorCount b
      then ns_AcceleratorCount a > ns_AcceleratorCount b
      else shapeResourceTotal a > shapeResourceTotal b)"

definition rank_before :: "rank \<Rightarrow> rank \<Rightarrow> bool" where
  "rank_before a b = shape_before (rk_shape a) (rk_shape b)"

interpretation rank_order: strict_weak_order rank_before
  unfolding rank_before_def [abs_def] shape_before_def by (intro swo_desc_then swo_desc)

subsection \<open>The search\<close>

text \<open>
  The state of the search: the capacity left, the nodes each job uses, the place a job is
  held to once one of its ranks is placed, and how many of its ranks are.
\<close>

record search_state =
  ss_byNode :: capmap
  ss_nodeResources :: capmap
  ss_used :: "(nat \<times> string) list"
  ss_at :: "nat \<Rightarrow> string"
  ss_placed :: "nat \<Rightarrow> nat"

text \<open>Whether a node hosts a rank now, and the accelerator key it draws on.\<close>

definition nodeFits :: "labelmap \<Rightarrow> (nat \<Rightarrow> places) \<Rightarrow> rank \<Rightarrow> search_state \<Rightarrow> string \<Rightarrow> string option" where
  "nodeFits labelsByNode pl r st node =
     (let shape = rk_shape r; lab = mget [] labelsByNode node
      in if rk_distinct r \<and> (rk_job r, node) \<in> set (ss_used st) then None
         else if (case pl (rk_job r) of None \<Rightarrow> False
                  | Some m \<Rightarrow> ss_placed st (rk_job r) > 0 \<and> gets m node \<noteq> ss_at st (rk_job r)) then None
         else
           let nodeKey = (if ns_AcceleratorCount shape > 0 then rk_key r else [])
           in if ns_AcceleratorCount shape > 0
                 \<and> geti (mget [] (ss_byNode st) node) nodeKey < ns_AcceleratorCount shape then None
              else if \<not> NodeHasRoom (map_of (ss_nodeResources st) node) (ns_Resources shape) then None
              else if isSlot lab
                 \<and> (\<not> takesWholeSlot shape nodeKey (mget [] (ss_byNode st) node) (mget [] (ss_nodeResources st) node)
                    \<or> SlotNetwork lab < rk_network r) then None
              else Some nodeKey)"

text \<open>What a node would have left after hosting a rank, as the best-fit sort key.\<close>

definition leftover :: "rank \<Rightarrow> search_state \<Rightarrow> string \<Rightarrow> string \<Rightarrow> int \<times> int" where
  "leftover r st node nodeKey =
     ((if ns_AcceleratorCount (rk_shape r) > 0
       then geti (mget [] (ss_byNode st) node) nodeKey - ns_AcceleratorCount (rk_shape r) else 0),
      sum_list (map (\<lambda>(k, v). v - geti (ns_Resources (rk_shape r)) k) (mget [] (ss_nodeResources st) node)))"

text \<open>The exact state of a node after hosting a rank, dimension by dimension.\<close>

definition equivalentState :: "(nat \<Rightarrow> places) \<Rightarrow> rank \<Rightarrow> search_state \<Rightarrow> string \<Rightarrow> string \<Rightarrow> string" where
  "equivalentState pl r st node nodeKey =
     (let res = mget [] (ss_nodeResources st) node
      in (case pl (rk_job r) of None \<Rightarrow> [] | Some m \<Rightarrow> ''at='' @ gets m node @ '';'') @
         (if ns_AcceleratorCount (rk_shape r) > 0
          then ''a='' @ show_int (geti (mget [] (ss_byNode st) node) nodeKey - ns_AcceleratorCount (rk_shape r)) @ '';''
          else []) @
         concat (map (\<lambda>k. k @ ''='' @ show_int (geti res k - geti (ns_Resources (rk_shape r)) k) @ '';'')
           (sort (keys res))))"

record candidate =
  cd_node :: string
  cd_key :: string
  cd_accLeft :: int
  cd_resLeft :: int
  cd_state :: string

definition candidate_before :: "candidate \<Rightarrow> candidate \<Rightarrow> bool" where
  "candidate_before a b =
     (if cd_accLeft a \<noteq> cd_accLeft b then cd_accLeft a < cd_accLeft b
      else cd_resLeft a < cd_resLeft b)"

interpretation candidate_order: strict_weak_order candidate_before
  unfolding candidate_before_def [abs_def] by (intro swo_key_then swo_key)

definition candidate_at :: "(nat \<Rightarrow> places) \<Rightarrow> rank \<Rightarrow> search_state \<Rightarrow> string \<Rightarrow> string \<Rightarrow> candidate" where
  "candidate_at pl r st node nodeKey =
     \<lparr>cd_node = node, cd_key = nodeKey, cd_accLeft = fst (leftover r st node nodeKey),
      cd_resLeft = snd (leftover r st node nodeKey), cd_state = equivalentState pl r st node nodeKey\<rparr>"

definition candidates :: "labelmap \<Rightarrow> (nat \<Rightarrow> places) \<Rightarrow> rank \<Rightarrow> search_state \<Rightarrow> candidate list" where
  "candidates labelsByNode pl r st =
     sort_slice candidate_before
       (List.map_filter (\<lambda>node. map_option (candidate_at pl r st node) (nodeFits labelsByNode pl r st node))
         (rk_nodes r))"

text \<open>The state once a rank is placed on a node.\<close>

definition put_rank :: "(nat \<Rightarrow> places) \<Rightarrow> rank \<Rightarrow> string \<Rightarrow> string \<Rightarrow> search_state \<Rightarrow> search_state" where
  "put_rank pl r node nodeKey st =
     (let shape = rk_shape r; job = rk_job r in
      st\<lparr>ss_byNode := (if ns_AcceleratorCount shape > 0
             then cap_upd (ss_byNode st) node (madd nodeKey (- ns_AcceleratorCount shape))
             else ss_byNode st),
         ss_nodeResources := cap_upd (ss_nodeResources st) node (\<lambda>c. subtractNodeResources c (ns_Resources shape)),
         ss_used := (job, node) # ss_used st,
         ss_at := (case pl job of None \<Rightarrow> ss_at st
           | Some m \<Rightarrow> if ss_placed st job = 0 then (ss_at st)(job := gets m node) else ss_at st),
         ss_placed := (ss_placed st)(job := ss_placed st job + 1)\<rparr>)"

definition assign :: "rank \<Rightarrow> string \<Rightarrow> string \<Rightarrow> rankAssignment" where
  "assign r node nodeKey =
     \<lparr>ra_job = rk_job r, ra_rank = rk_rank r, ra_shape = rk_shape r, ra_node = node, ra_key = nodeKey\<rparr>"

text \<open>The closure \<open>place\<close> and its loop over the candidates of one rank.\<close>

function (sequential) place_from ::
    "labelmap \<Rightarrow> (nat \<Rightarrow> places) \<Rightarrow> rank list \<Rightarrow> search_state \<Rightarrow> nat \<Rightarrow> rankAssignment list option \<times> nat"
  and try_candidates ::
    "labelmap \<Rightarrow> (nat \<Rightarrow> places) \<Rightarrow> rank \<Rightarrow> rank list \<Rightarrow> candidate list \<Rightarrow> string list \<Rightarrow> search_state \<Rightarrow> nat
      \<Rightarrow> rankAssignment list option \<times> nat" where
  "place_from L pl [] st budget = (Some [], budget)"
| "place_from L pl (r # rs) st budget = try_candidates L pl r rs (candidates L pl r st) [] st budget"
| "try_candidates L pl r rs [] tried st budget = (None, budget)"
| "try_candidates L pl r rs (c # cs) tried st budget =
     (if cd_state c \<in> set tried then try_candidates L pl r rs cs tried st budget
      else if budget = 0 then (None, 0)
      else case place_from L pl rs (put_rank pl r (cd_node c) (cd_key c) st) (budget - 1) of
          (Some plan, b) \<Rightarrow> (Some (assign r (cd_node c) (cd_key c) # plan), b)
        | (None, b) \<Rightarrow>
            if b = 0 then (None, 0)
            else try_candidates L pl r rs cs (cd_state c # tried) st b)"
  by pat_completeness auto
termination
  by (relation "measures
      [case_sum (\<lambda>(_, _, rs, _, _). length rs) (\<lambda>(_, _, _, rs, _, _, _, _). length rs),
       case_sum (\<lambda>_. 0) (\<lambda>(_, _, _, _, cs, _, _, _). Suc (length cs))]") auto

definition searchBudget :: nat where
  "searchBudget = 50000"

definition plan_ranks :: "quantity_lib \<Rightarrow> capmap \<Rightarrow> capmap \<Rightarrow> labelmap \<Rightarrow> Experiment list \<Rightarrow> bool \<Rightarrow> rank list" where
  "plan_ranks Q byNode nodeRes labelsByNode jobs apart =
     sort_slice rank_before
       (concat (map (\<lambda>(i, e). job_ranks Q byNode nodeRes labelsByNode apart i e) (enumerate 0 jobs)))"

definition plan_places :: "capmap \<Rightarrow> capmap \<Rightarrow> labelmap \<Rightarrow> Experiment list \<Rightarrow> bool \<Rightarrow> nat \<Rightarrow> places" where
  "plan_places byNode nodeRes labelsByNode jobs apart i =
     (if i < length jobs then job_places byNode nodeRes labelsByNode apart (jobs ! i) else None)"

definition start_state :: "capmap \<Rightarrow> capmap \<Rightarrow> search_state" where
  "start_state byNode nodeRes =
     \<lparr>ss_byNode = byNode, ss_nodeResources = nodeRes, ss_used = [],
      ss_at = (\<lambda>_. []), ss_placed = (\<lambda>_. 0)\<rparr>"

text \<open>planPlacement with the budget of the package variable given as an argument.\<close>

definition plan_within :: "nat \<Rightarrow> quantity_lib \<Rightarrow> capmap \<Rightarrow> capmap \<Rightarrow> labelmap \<Rightarrow> Experiment list \<Rightarrow> bool
    \<Rightarrow> rankAssignment list option \<times> nat" where
  "plan_within budget Q byNode nodeRes labelsByNode jobs apart =
     place_from labelsByNode (plan_places byNode nodeRes labelsByNode jobs apart)
       (plan_ranks Q byNode nodeRes labelsByNode jobs apart)
       (start_state byNode nodeRes) budget"

definition planPlacement :: "quantity_lib \<Rightarrow> capmap \<Rightarrow> capmap \<Rightarrow> labelmap \<Rightarrow> Experiment list \<Rightarrow> bool
    \<Rightarrow> rankAssignment list option" where
  "planPlacement Q byNode nodeRes labelsByNode jobs apart =
     fst (plan_within searchBudget Q byNode nodeRes labelsByNode jobs apart)"

end
