(* ===== verification/Search_Sound.thy ===== *)
theory Search_Sound
  imports Search
begin

text \<open>
  Soundness of the placement search.  \<open>legal\<close> says that a plan is a sequence of rank
  placements each of which fits when its turn comes; the search returns legal plans
  only.  From a legal plan follow the properties that do not mention the order of the
  search: what the plan takes of a node is free there, hosts of a spreading job are
  distinct, the nodes of a job are in one place, and a slot takes one rank.
\<close>

definition of_rank :: "rank \<Rightarrow> rankAssignment \<Rightarrow> bool" where
  "of_rank r a \<longleftrightarrow> ra_job a = rk_job r \<and> ra_rank a = rk_rank r \<and> ra_shape a = rk_shape r"

fun legal :: "labelmap \<Rightarrow> (nat \<Rightarrow> places) \<Rightarrow> rank list \<Rightarrow> search_state \<Rightarrow> rankAssignment list \<Rightarrow> bool" where
  "legal L pl [] st plan \<longleftrightarrow> plan = []"
| "legal L pl (r # rs) st [] \<longleftrightarrow> False"
| "legal L pl (r # rs) st (a # plan) \<longleftrightarrow>
     ra_node a \<in> set (rk_nodes r) \<and> nodeFits L pl r st (ra_node a) = Some (ra_key a)
     \<and> of_rank r a
     \<and> legal L pl rs (put_rank pl r (ra_node a) (ra_key a) st) plan"

text \<open>What a plan takes of one node.\<close>

definition acc_used :: "rankAssignment list \<Rightarrow> string \<Rightarrow> string \<Rightarrow> int" where
  "acc_used plan node key =
     sum_list (map (\<lambda>a. ns_AcceleratorCount (ra_shape a))
       (filter (\<lambda>a. ra_node a = node \<and> ra_key a = key \<and> ns_AcceleratorCount (ra_shape a) > 0) plan))"

definition res_used :: "rankAssignment list \<Rightarrow> string \<Rightarrow> string \<Rightarrow> int" where
  "res_used plan node k =
     sum_list (map (\<lambda>a. geti (ns_Resources (ra_shape a)) k) (filter (\<lambda>a. ra_node a = node) plan))"

subsection \<open>Reading capacity after a placement\<close>

lemma mget_cap_upd [gomap]:
  "mget [] (cap_upd m node f) n =
     (if n = node \<and> map_of m node \<noteq> None then f (mget [] m node) else mget [] m n)"
  by (auto simp: cap_upd_def mget_def split: option.splits)

lemma map_of_cap_upd [gomap]:
  "map_of (cap_upd m node f) n = (if n = node then map_option f (map_of m node) else map_of m n)"
  by (auto simp: cap_upd_def split: option.splits)

lemma geti_subtractNodeResources [gomap]:
  assumes "wf_map used"
  shows "geti (subtractNodeResources a used) k = geti a k - geti used k"
proof -
  have "geti (fold (\<lambda>(key, amount). madd key (- amount)) xs a) k =
      geti a k - sum_list (map snd (filter (\<lambda>e. fst e = k) xs))" for xs
    by (induction xs arbitrary: a) auto
  with assms show ?thesis by (simp add: subtractNodeResources_def sum_filter_key)
qed

lemma geti_AddNodeResources [gomap]:
  assumes "wf_map used"
  shows "geti (AddNodeResources a used) k = geti a k + geti used k"
  using geti_fold_madd [of "\<lambda>k. k" used a k] assms by (simp add: AddNodeResources_def sum_filter_key)

lemma add_after_sub:
  "wf_map used \<Longrightarrow> geti (AddNodeResources (subtractNodeResources a used) used) k = geti a k"
  by (simp add: geti_AddNodeResources geti_subtractNodeResources)

text \<open>A shape as NodeShapes builds it: one entry per dimension, none of them zero.\<close>

definition good_shape :: "NodeShape \<Rightarrow> bool" where
  "good_shape s \<longleftrightarrow> wf_map (ns_Resources s) \<and> (\<forall>(k, v) \<in> set (ns_Resources s). 0 < v)"

lemma good_shapeD:
  assumes "good_shape s"
  shows "wf_map (ns_Resources s)" and "0 \<le> geti (ns_Resources s) k"
    and "0 < geti (ns_Resources s) k \<Longrightarrow> (k, geti (ns_Resources s) k) \<in> set (ns_Resources s)"
proof -
  show "wf_map (ns_Resources s)" using assms by (simp add: good_shape_def)
  show "0 \<le> geti (ns_Resources s) k"
    using assms mget_absent [of k "ns_Resources s" 0] mget_entry [of k "ns_Resources s" 0]
    by (fastforce simp: good_shape_def)
  show "(k, geti (ns_Resources s) k) \<in> set (ns_Resources s)" if "0 < geti (ns_Resources s) k"
    using that mget_absent [of k "ns_Resources s" 0] mget_entry [of k "ns_Resources s" 0] by fastforce
qed

lemma good_NodeShapes: "s \<in> set (NodeShapes Q e) \<Longrightarrow> good_shape s"
  using NodeShapes_resources [of s Q e] by (auto simp: good_shape_def)

text \<open>
  The node's room, read as amounts: an unreported node has none, so the nil test of
  NodeHasRoom is the amount test.
\<close>

lemma NodeHasRoom_iff:
  assumes "good_shape s"
  shows "NodeHasRoom (map_of m node) (ns_Resources s) \<longleftrightarrow>
     (\<forall>k. 0 < geti (ns_Resources s) k \<longrightarrow> geti (ns_Resources s) k \<le> geti (mget [] m node) k)"
    (is "?l = ?r")
proof
  assume l: ?l
  show ?r
  proof (intro allI impI)
    fix k assume pos: "0 < geti (ns_Resources s) k"
    with good_shapeD(3) [OF assms] have e: "(k, geti (ns_Resources s) k) \<in> set (ns_Resources s)" .
    then have "ns_Resources s \<noteq> []" by auto
    with l obtain a where "map_of m node = Some a"
      and "list_all (\<lambda>(key, amount). amount \<le> geti a key) (ns_Resources s)"
      by (auto simp: NodeHasRoom_def split: option.splits)
    with e show "geti (ns_Resources s) k \<le> geti (mget [] m node) k"
      by (auto simp: mget_def list_all_iff)
  qed
next
  assume r: ?r
  have amounts: "0 < v \<and> v \<le> geti (mget [] m node) k" if "(k, v) \<in> set (ns_Resources s)" for k v
    using assms that spec [OF r, of k] mget_in [of "ns_Resources s" k v 0] by (auto simp: good_shape_def)
  show ?l
  proof (cases "ns_Resources s")
    case Nil
    then show ?thesis by (simp add: NodeHasRoom_def)
  next
    case (Cons e es)
    then obtain k v where "(k, v) \<in> set (ns_Resources s)" by (cases e) auto
    then have "0 < geti (mget [] m node) k" using amounts by fastforce
    then obtain a where a: "map_of m node = Some a"
      by (cases "map_of m node") (auto simp: mget_def)
    then have "mget [] m node = a" by (simp add: mget_def)
    with a amounts show ?thesis by (fastforce simp: NodeHasRoom_def list_all_iff)
  qed
qed

subsection \<open>What a fitting node gives\<close>

lemma nodeFits_key:
  "nodeFits L pl r st node = Some key \<Longrightarrow>
     key = (if ns_AcceleratorCount (rk_shape r) > 0 then rk_key r else [])"
  by (auto simp: nodeFits_def Let_def split: if_splits)

lemma nodeFits_acc:
  "nodeFits L pl r st node = Some key \<Longrightarrow> 0 < ns_AcceleratorCount (rk_shape r) \<Longrightarrow>
     ns_AcceleratorCount (rk_shape r) \<le> geti (mget [] (ss_byNode st) node) key"
  by (auto simp: nodeFits_def Let_def split: if_splits)

lemma nodeFits_room:
  "nodeFits L pl r st node = Some key \<Longrightarrow>
     NodeHasRoom (map_of (ss_nodeResources st) node) (ns_Resources (rk_shape r))"
  by (auto simp: nodeFits_def Let_def split: if_splits)

lemma nodeFits_distinct:
  "nodeFits L pl r st node = Some key \<Longrightarrow> rk_distinct r \<Longrightarrow> (rk_job r, node) \<notin> set (ss_used st)"
  by (auto simp: nodeFits_def Let_def split: if_splits)

lemma nodeFits_place:
  "nodeFits L pl r st node = Some key \<Longrightarrow> pl (rk_job r) = Some m \<Longrightarrow> 0 < ss_placed st (rk_job r) \<Longrightarrow>
     gets m node = ss_at st (rk_job r)"
  by (auto simp: nodeFits_def Let_def split: if_splits)

lemma nodeFits_slot:
  "nodeFits L pl r st node = Some key \<Longrightarrow> isSlot (mget [] L node) \<Longrightarrow>
     takesWholeSlot (rk_shape r) key (mget [] (ss_byNode st) node) (mget [] (ss_nodeResources st) node)
     \<and> rk_network r \<le> SlotNetwork (mget [] L node)"
  by (auto simp: nodeFits_def Let_def split: if_splits)

lemma acc_put_rank:
  assumes "nodeFits L pl r st node = Some key"
  shows "geti (mget [] (ss_byNode (put_rank pl r node key st)) n) k =
     geti (mget [] (ss_byNode st) n) k -
     (if n = node \<and> k = key \<and> 0 < ns_AcceleratorCount (rk_shape r)
      then ns_AcceleratorCount (rk_shape r) else 0)"
proof (cases "0 < ns_AcceleratorCount (rk_shape r)")
  case True
  with nodeFits_acc [OF assms] have "0 < geti (mget [] (ss_byNode st) node) key" by simp
  then have "map_of (ss_byNode st) node \<noteq> None" by (cases "map_of (ss_byNode st) node") (auto simp: mget_def)
  with True show ?thesis by (simp add: put_rank_def Let_def mget_cap_upd)
next
  case False
  then show ?thesis by (simp add: put_rank_def Let_def)
qed

lemma res_put_rank:
  assumes "nodeFits L pl r st node = Some key" and good: "good_shape (rk_shape r)"
  shows "geti (mget [] (ss_nodeResources (put_rank pl r node key st)) n) k =
     geti (mget [] (ss_nodeResources st) n) k -
     (if n = node then geti (ns_Resources (rk_shape r)) k else 0)"
proof (cases "map_of (ss_nodeResources st) node")
  case None
  then have "mget [] (ss_nodeResources st) node = []" by (simp add: mget_def)
  with nodeFits_room [OF assms(1)] good_shapeD(2) [OF good, of k]
  have "geti (ns_Resources (rk_shape r)) k = 0"
    using None by (auto simp: NodeHasRoom_def split: if_splits)
  with None show ?thesis by (simp add: put_rank_def Let_def mget_cap_upd)
next
  case (Some a)
  with good_shapeD(1) [OF good] show ?thesis
    by (simp add: put_rank_def Let_def mget_cap_upd geti_subtractNodeResources)
qed

lemma placed_put_rank [simp]:
  "ss_placed (put_rank pl r node key st) = (ss_placed st)(rk_job r := ss_placed st (rk_job r) + 1)"
  "ss_used (put_rank pl r node key st) = (rk_job r, node) # ss_used st"
  by (simp_all add: put_rank_def Let_def)

lemma at_put_rank:
  "ss_at (put_rank pl r node key st) j =
     (case pl (rk_job r) of
        Some m \<Rightarrow> if j = rk_job r \<and> ss_placed st j = 0 then gets m node else ss_at st j
      | None \<Rightarrow> ss_at st j)"
  by (auto simp: put_rank_def Let_def split: option.splits)

subsection \<open>The search returns legal plans\<close>

lemma set_candidates:
  "c \<in> set (candidates L pl r st) \<Longrightarrow>
     cd_node c \<in> set (rk_nodes r) \<and> nodeFits L pl r st (cd_node c) = Some (cd_key c)
     \<and> c = candidate_at pl r st (cd_node c) (cd_key c)"
  by (auto simp: candidates_def List.map_filter_def candidate_at_def)

lemma in_candidates:
  "node \<in> set (rk_nodes r) \<Longrightarrow> nodeFits L pl r st node = Some key \<Longrightarrow>
     candidate_at pl r st node key \<in> set (candidates L pl r st)"
  by (force simp: candidates_def List.map_filter_def)

lemma search_legal:
  "place_from L pl rs st b = (Some plan, b') \<Longrightarrow> legal L pl rs st plan"
  "(\<And>c. c \<in> set cs \<Longrightarrow> cd_node c \<in> set (rk_nodes r) \<and> nodeFits L pl r st (cd_node c) = Some (cd_key c)) \<Longrightarrow>
     try_candidates L pl r rs cs tried st b = (Some plan, b') \<Longrightarrow> legal L pl (r # rs) st plan"
proof (induction L pl rs st b and L pl r rs cs tried st b
    arbitrary: plan b' and plan b' rule: place_from_try_candidates.induct)
  case (1 L pl st budget)
  then show ?case by simp
next
  case (2 L pl r rs st budget)
  then show ?case using set_candidates by (metis place_from.simps(2))
next
  case (3 L pl r rs tried st budget)
  then show ?case by simp
next
  case (4 L pl r rs c cs tried st budget)
  show ?case
  proof (cases "cd_state c \<in> set tried \<or> budget = 0")
    case True
    with 4 show ?thesis by (auto split: if_splits)
  next
    case False
    obtain o' b1 where sub: "place_from L pl rs (put_rank pl r (cd_node c) (cd_key c) st) (budget - 1) = (o', b1)"
      by force
    show ?thesis
    proof (cases o')
      case (Some p)
      with False sub 4(5) have plan: "plan = assign r (cd_node c) (cd_key c) # p" by auto
      from False sub Some 4(2) have "legal L pl rs (put_rank pl r (cd_node c) (cd_key c) st) p" by auto
      with plan 4(4) [of c] show ?thesis by (simp add: assign_def of_rank_def)
    next
      case None
      with False sub 4 show ?thesis by (auto split: if_splits)
    qed
  qed
qed

subsection \<open>Properties of legal plans\<close>

lemma legal_ranks:
  "legal L pl rs st plan \<Longrightarrow>
     list_all2 (\<lambda>r a. of_rank r a \<and> ra_node a \<in> set (rk_nodes r)
       \<and> ra_key a = (if 0 < ns_AcceleratorCount (rk_shape r) then rk_key r else [])) rs plan"
  by (induction L pl rs st plan rule: legal.induct) (auto dest: nodeFits_key)

lemma acc_used_Cons [simp]:
  "acc_used (a # plan) node key =
     (if ra_node a = node \<and> ra_key a = key \<and> 0 < ns_AcceleratorCount (ra_shape a)
      then ns_AcceleratorCount (ra_shape a) else 0) + acc_used plan node key"
  by (simp add: acc_used_def)

lemma res_used_Cons [simp]:
  "res_used (a # plan) node k =
     (if ra_node a = node then geti (ns_Resources (ra_shape a)) k else 0) + res_used plan node k"
  by (simp add: res_used_def)

lemma used_Nil [simp]: "acc_used [] node key = 0" "res_used [] node k = 0"
  by (simp_all add: acc_used_def res_used_def)

lemma assign_simps [simp]:
  "ra_job (assign r n k) = rk_job r" "ra_rank (assign r n k) = rk_rank r"
  "ra_shape (assign r n k) = rk_shape r" "ra_node (assign r n k) = n" "ra_key (assign r n k) = k"
  by (simp_all add: assign_def)

lemma legal_ConsD:
  assumes "legal L pl (r # rs) st (a # plan)"
  shows "nodeFits L pl r st (ra_node a) = Some (ra_key a)" and "ra_shape a = rk_shape r"
    and "ra_job a = rk_job r" and "legal L pl rs (put_rank pl r (ra_node a) (ra_key a) st) plan"
    and "ra_node a \<in> set (rk_nodes r)"
  using assms by (auto simp: of_rank_def)

lemma legal_acc:
  "legal L pl rs st plan \<Longrightarrow>
     acc_used plan node key = 0 \<or> acc_used plan node key \<le> geti (mget [] (ss_byNode st) node) key"
proof (induction L pl rs st plan rule: legal.induct)
  case (3 L pl r rs st a plan)
  note d = legal_ConsD [OF "3.prems"]
  from "3.IH" d(4) have
    "acc_used plan node key = 0 \<or> acc_used plan node key \<le>
      geti (mget [] (ss_byNode (put_rank pl r (ra_node a) (ra_key a) st)) node) key"
    by blast
  with nodeFits_acc [OF d(1)] acc_put_rank [OF d(1), of node key] d(2) show ?case by auto
qed auto

lemma legal_res:
  "legal L pl rs st plan \<Longrightarrow> (\<And>r. r \<in> set rs \<Longrightarrow> good_shape (rk_shape r)) \<Longrightarrow>
     res_used plan node k = 0 \<or> res_used plan node k \<le> geti (mget [] (ss_nodeResources st) node) k"
proof (induction L pl rs st plan rule: legal.induct)
  case (3 L pl r rs st a plan)
  note d = legal_ConsD [OF "3.prems"(1)]
  have good: "good_shape (rk_shape r)" using "3.prems"(2) by simp
  have "res_used plan node k = 0 \<or> res_used plan node k \<le>
      geti (mget [] (ss_nodeResources (put_rank pl r (ra_node a) (ra_key a) st)) node) k"
    by (rule "3.IH" [OF d(4)]) (use "3.prems"(2) in auto)
  moreover have "\<not> 0 < geti (ns_Resources (rk_shape r)) k \<or>
      geti (ns_Resources (rk_shape r)) k \<le> geti (mget [] (ss_nodeResources st) (ra_node a)) k"
    using spec [OF NodeHasRoom_iff [OF good, THEN iffD1, OF nodeFits_room [OF d(1)]], of k] by simp
  ultimately show ?case
    using res_put_rank [OF d(1) good, of node k] good_shapeD(2) [OF good, of k] d(2) by auto
qed auto

lemma legal_distinct:
  "legal L pl rs st plan \<Longrightarrow> (\<And>r. r \<in> set rs \<Longrightarrow> rk_job r = j \<Longrightarrow> rk_distinct r) \<Longrightarrow>
     distinct (map ra_node (filter (\<lambda>a. ra_job a = j) plan))
     \<and> (\<forall>a \<in> set plan. ra_job a = j \<longrightarrow> (j, ra_node a) \<notin> set (ss_used st))"
proof (induction L pl rs st plan rule: legal.induct)
  case (3 L pl r rs st a plan)
  note d = legal_ConsD [OF "3.prems"(1)]
  have IH: "distinct (map ra_node (filter (\<lambda>a. ra_job a = j) plan))
     \<and> (\<forall>b \<in> set plan. ra_job b = j \<longrightarrow>
         (j, ra_node b) \<notin> set (ss_used (put_rank pl r (ra_node a) (ra_key a) st)))"
    by (rule "3.IH" [OF d(4)]) (use "3.prems"(2) in auto)
  have "rk_job r = j \<Longrightarrow> (j, ra_node a) \<notin> set (ss_used st)"
    using nodeFits_distinct [OF d(1)] "3.prems"(2) by fastforce
  with IH d(3) show ?case by auto
qed auto

lemma legal_place:
  "legal L pl rs st plan \<Longrightarrow> pl j = Some m \<Longrightarrow>
     \<exists>p. (0 < ss_placed st j \<longrightarrow> p = ss_at st j)
       \<and> (\<forall>a \<in> set plan. ra_job a = j \<longrightarrow> gets m (ra_node a) = p)"
proof (induction L pl rs st plan rule: legal.induct)
  case (3 L pl r rs st a plan)
  note d = legal_ConsD [OF "3.prems"(1)]
  obtain p where p: "0 < ss_placed (put_rank pl r (ra_node a) (ra_key a) st) j \<longrightarrow>
      p = ss_at (put_rank pl r (ra_node a) (ra_key a) st) j"
    and all: "\<forall>b \<in> set plan. ra_job b = j \<longrightarrow> gets m (ra_node b) = p"
    using "3.IH" [OF d(4) "3.prems"(2)] by (elim exE conjE)
  show ?case
  proof (cases "rk_job r = j")
    case True
    with p "3.prems"(2) have "p = (if ss_placed st j = 0 then gets m (ra_node a) else ss_at st j)"
      by (auto simp: at_put_rank)
    moreover have "0 < ss_placed st j \<Longrightarrow> gets m (ra_node a) = ss_at st j"
      using nodeFits_place [OF d(1)] True "3.prems"(2) by auto
    ultimately show ?thesis using all by (intro exI [of _ p]) auto
  next
    case False
    with p d(3) all show ?thesis
      by (intro exI [of _ p]) (auto simp: at_put_rank split: option.splits if_splits)
  qed
qed auto

text \<open>A slot that reports nothing, or lacks some dimension, takes nothing more.\<close>

definition spent :: "search_state \<Rightarrow> string \<Rightarrow> bool" where
  "spent st node \<longleftrightarrow> mget [] (ss_nodeResources st) node = []
     \<or> (\<exists>(k, v) \<in> set (mget [] (ss_nodeResources st) node). v \<le> 0)"

lemma spent_takes_nothing:
  assumes "spent st node" and "isSlot (mget [] L node)"
  shows "nodeFits L pl r st node = None"
proof (rule ccontr)
  assume "nodeFits L pl r st node \<noteq> None"
  then obtain key where "nodeFits L pl r st node = Some key" by auto
  with nodeFits_slot [OF this assms(2)] assms(1) show False
    by (fastforce simp: takesWholeSlot_def Let_def spent_def list_all_iff split: if_splits)
qed

lemma spent_put_rank:
  assumes fits: "nodeFits L pl r st node = Some key" and slot: "isSlot (mget [] L node)"
    and good: "good_shape (rk_shape r)" and wf: "wf_map (mget [] (ss_nodeResources st) node)"
  shows "spent (put_rank pl r node key st) node"
proof -
  have t: "takesWholeSlot (rk_shape r) key (mget [] (ss_byNode st) node) (mget [] (ss_nodeResources st) node)"
    using nodeFits_slot [OF fits slot] by simp
  then obtain k v where kv: "(k, v) \<in> set (mget [] (ss_nodeResources st) node)"
    and eq: "geti (ns_Resources (rk_shape r)) k = v"
    by (cases "mget [] (ss_nodeResources st) node")
      (auto simp: takesWholeSlot_def Let_def split: if_splits)
  have "map_of (ss_nodeResources st) node \<noteq> None"
    using kv by (cases "map_of (ss_nodeResources st) node") (auto simp: mget_def)
  then have after: "mget [] (ss_nodeResources (put_rank pl r node key st)) node =
      subtractNodeResources (mget [] (ss_nodeResources st) node) (ns_Resources (rk_shape r))"
    by (simp add: put_rank_def Let_def mget_cap_upd)
  have zero: "geti (mget [] (ss_nodeResources (put_rank pl r node key st)) node) k = 0"
    using res_put_rank [OF fits good, of node k] eq mget_in [OF wf kv, of 0] by simp
  have sub: "set (keys a) \<subseteq> set (keys (subtractNodeResources a xs))" for a xs :: amounts
    unfolding subtractNodeResources_def
    by (induction xs arbitrary: a) (auto, metis (no_types, lifting) insertI2 madd_def set_keys_mput subsetD)
  have "k \<in> set (keys (mget [] (ss_nodeResources (put_rank pl r node key st)) node))"
    using sub kv by (force simp: after keys_def)
  from mget_entry [OF this, of 0] zero show ?thesis by (force simp: spent_def)
qed

lemma spent_stays:
  assumes "spent st node" and "n \<noteq> node"
  shows "spent (put_rank pl r n key st) node"
  using assms by (simp add: spent_def put_rank_def Let_def mget_cap_upd)

lemma legal_spent:
  "legal L pl rs st plan \<Longrightarrow> spent st node \<Longrightarrow> isSlot (mget [] L node) \<Longrightarrow>
     \<forall>a \<in> set plan. ra_node a \<noteq> node"
proof (induction L pl rs st plan rule: legal.induct)
  case (3 L pl r rs st a plan)
  note d = legal_ConsD [OF "3.prems"(1)]
  have ne: "ra_node a \<noteq> node" using d(1) spent_takes_nothing "3.prems"(2,3) by fastforce
  with "3.IH" d(4) spent_stays [OF "3.prems"(2)] "3.prems" show ?case by auto
qed auto

definition wf_caps :: "capmap \<Rightarrow> bool" where
  "wf_caps m \<longleftrightarrow> wf_map m \<and> (\<forall>(node, c) \<in> set m. wf_map c)"

lemma wf_caps_mget: "wf_caps m \<Longrightarrow> wf_map (mget [] m node)"
  by (cases "map_of m node") (auto simp: wf_caps_def mget_def dest: map_of_SomeD)

lemma wf_subtract: "wf_map a \<Longrightarrow> wf_map (subtractNodeResources a used)"
  unfolding subtractNodeResources_def by (induction used arbitrary: a) auto

lemma legal_slot_once:
  "legal L pl rs st plan \<Longrightarrow> isSlot (mget [] L node) \<Longrightarrow>
     (\<And>r. r \<in> set rs \<Longrightarrow> good_shape (rk_shape r)) \<Longrightarrow>
     (\<And>n. wf_map (mget [] (ss_nodeResources st) n)) \<Longrightarrow>
     length (filter (\<lambda>a. ra_node a = node) plan) \<le> 1"
proof (induction L pl rs st plan rule: legal.induct)
  case (3 L pl r rs st a plan)
  note d = legal_ConsD [OF "3.prems"(1)]
  show ?case
  proof (cases "ra_node a = node")
    case True
    have "spent (put_rank pl r (ra_node a) (ra_key a) st) node"
      using spent_put_rank [OF d(1)] True "3.prems" by auto
    with legal_spent [OF d(4)] "3.prems"(2) True show ?thesis
      by (auto simp: filter_empty_conv)
  next
    case False
    have "wf_map (mget [] (ss_nodeResources (put_rank pl r (ra_node a) (ra_key a) st)) n)" for n
      using "3.prems"(4) by (simp add: put_rank_def Let_def mget_cap_upd wf_subtract)
    with False "3.IH" d(4) "3.prems" show ?thesis by auto
  qed
qed auto

end
