(* ===== verification/Search_Spec.thy ===== *)
theory Search_Spec
  imports Search_Sound
begin

text \<open>
  The contract of planPlacement, stated without the search: \<open>placement_ok\<close> says of a
  plan what every caller relies on.  The search implements it.
\<close>

subsection \<open>The contract\<close>

text \<open>Every rank of every job, as (job, rank, shape).\<close>

definition demand :: "quantity_lib \<Rightarrow> Experiment list \<Rightarrow> (nat \<times> nat \<times> NodeShape) list" where
  "demand Q jobs =
     concat (map (\<lambda>(i, e). map (\<lambda>(r, s). (i, r, s)) (enumerate 0 (NodeShapes Q e))) (enumerate 0 jobs))"

text \<open>The node carries what the effective job selects and its image's architecture.\<close>

definition admits :: "labelmap \<Rightarrow> Experiment \<Rightarrow> string \<Rightarrow> bool" where
  "admits L e node \<longleftrightarrow>
     LabelsMatch (mget [] L node) (js_NodeSelector (EffectiveJob e)) \<and> OnImageArchitecture e (mget [] L node)"

text \<open>The node is in a place of the level the job's nodes share, named \<open>p\<close>.\<close>

definition at_place :: "labelmap \<Rightarrow> Experiment \<Rightarrow> string \<Rightarrow> string \<Rightarrow> bool" where
  "at_place L e node p \<longleftrightarrow>
     (\<exists>place. nearness L node (NodesWithin (EffectiveJob e)) (labelledLevels L) = Some place
       \<and> placeKey place = p)"

definition within_capacity :: "capmap \<Rightarrow> capmap \<Rightarrow> rankAssignment list \<Rightarrow> bool" where
  "within_capacity byNode nodeRes plan \<longleftrightarrow>
     (\<forall>node key. acc_used plan node key = 0 \<or> acc_used plan node key \<le> geti (mget [] byNode node) key)
     \<and> (\<forall>node k. res_used plan node k = 0 \<or> res_used plan node k \<le> geti (mget [] nodeRes node) k)"

text \<open>What the plan of one job promises beside its capacity.\<close>

definition job_ok :: "labelmap \<Rightarrow> bool \<Rightarrow> Experiment \<Rightarrow> rankAssignment list \<Rightarrow> bool" where
  "job_ok L apart e mine \<longleftrightarrow>
     (\<forall>a \<in> set mine. admits L e (ra_node a)
       \<and> (0 < ns_AcceleratorCount (ra_shape a) \<longrightarrow> ra_key a = AcceleratorKey (ex_AcceleratorType e))
       \<and> (js_Slots (EffectiveJob e) \<noteq> [] \<longrightarrow>
            gets (mget [] L (ra_node a)) NodeSlotLabel = js_Slots (EffectiveJob e) ! ra_rank a))
     \<and> (RequiresDistinctHosts e \<longrightarrow> distinct (map ra_node mine))
     \<and> (NodesWithin (EffectiveJob e) \<noteq> [] \<and> \<not> apart \<longrightarrow>
          (\<exists>p. \<forall>a \<in> set mine. at_place L e (ra_node a) p))"

definition placement_ok :: "quantity_lib \<Rightarrow> capmap \<Rightarrow> capmap \<Rightarrow> labelmap \<Rightarrow> Experiment list \<Rightarrow> bool
    \<Rightarrow> rankAssignment list \<Rightarrow> bool" where
  "placement_ok Q byNode nodeRes L jobs apart plan \<longleftrightarrow>
     mset (map (\<lambda>a. (ra_job a, ra_rank a, ra_shape a)) plan) = mset (demand Q jobs)
     \<and> within_capacity byNode nodeRes plan
     \<and> (\<forall>j < length jobs. job_ok L apart (jobs ! j) (filter (\<lambda>a. ra_job a = j) plan))
     \<and> (\<forall>node. isSlot (mget [] L node) \<longrightarrow> length (filter (\<lambda>a. ra_node a = node) plan) \<le> 1)"

subsection \<open>The ranks the search is given\<close>

lemma set_qualifyingNodes:
  "set (qualifyingNodes capacity L e) = {node \<in> set (keys capacity). admits L e node}"
  by (auto simp: qualifyingNodes_def admits_def)

lemma set_within_place:
  "set (within_place pl nodes) = {node \<in> set nodes. \<forall>m. pl = Some m \<longrightarrow> map_of m node \<noteq> None}"
  by (auto simp: within_place_def split: option.splits)

lemma job_places_Some:
  assumes "job_places byNode nodeRes L apart e = Some m"
  shows "NodesWithin (EffectiveJob e) \<noteq> [] \<and> \<not> apart"
    and "map_of m node = Some p \<Longrightarrow> at_place L e node p"
    and "node \<in> set (qualifyingNodes byNode L e) \<union> set (qualifyingNodes nodeRes L e) \<Longrightarrow>
      map_of m node = map_option placeKey (nearness L node (NodesWithin (EffectiveJob e)) (labelledLevels L))"
proof -
  let ?near = "\<lambda>node. nearness L node (NodesWithin (EffectiveJob e)) (labelledLevels L)"
  have fold: "map_of (fold (\<lambda>node m. case ?near node of None \<Rightarrow> m
       | Some place \<Rightarrow> mput node (placeKey place) m) xs acc) node =
      (if node \<in> set xs \<and> ?near node \<noteq> None then map_option placeKey (?near node) else map_of acc node)"
    for xs acc node
    by (induction xs arbitrary: acc) (auto split: option.splits)
  show "NodesWithin (EffectiveJob e) \<noteq> [] \<and> \<not> apart"
    using assms by (simp add: job_places_def Let_def split: if_splits)
  have m: "map_of m node = (if node \<in> set (qualifyingNodes byNode L e @ qualifyingNodes nodeRes L e)
      \<and> ?near node \<noteq> None then map_option placeKey (?near node) else None)" for node
    using assms fold [where xs = "qualifyingNodes byNode L e @ qualifyingNodes nodeRes L e" and acc = "[]"]
    by (auto simp: job_places_def Let_def simp del: fold_append split: if_splits)
  show "map_of m node = Some p \<Longrightarrow> at_place L e node p"
    using m [of node] by (auto simp: at_place_def split: if_splits)
  show "node \<in> set (qualifyingNodes byNode L e) \<union> set (qualifyingNodes nodeRes L e) \<Longrightarrow>
      map_of m node = map_option placeKey (?near node)"
    using m [of node] by (cases "?near node") auto
qed

lemma job_ranks_rank:
  assumes "r \<in> set (job_ranks Q byNode nodeRes L apart i e)"
  shows "rk_job r = i" and "rk_shape r \<in> set (NodeShapes Q e)"
    and "rk_distinct r = RequiresDistinctHosts e" and "rk_key r = AcceleratorKey (ex_AcceleratorType e)"
    and "node \<in> set (rk_nodes r) \<Longrightarrow> admits L e node"
    and "node \<in> set (rk_nodes r) \<Longrightarrow> js_Slots (EffectiveJob e) \<noteq> [] \<Longrightarrow>
       gets (mget [] L node) NodeSlotLabel = js_Slots (EffectiveJob e) ! rk_rank r"
    and "node \<in> set (rk_nodes r) \<Longrightarrow> job_places byNode nodeRes L apart e = Some m \<Longrightarrow> map_of m node \<noteq> None"
  using assms
  by (auto simp: job_ranks_def Let_def in_set_enumerate_eq set_within_place set_qualifyingNodes
      split: if_splits)

lemma job_ranks_demand:
  "map (\<lambda>r. (rk_job r, rk_rank r, rk_shape r)) (job_ranks Q byNode nodeRes L apart i e) =
     map (\<lambda>(r, s). (i, r, s)) (enumerate 0 (NodeShapes Q e))"
  by (simp add: job_ranks_def Let_def case_prod_beta comp_def)

lemma plan_ranks_demand:
  "mset (map (\<lambda>r. (rk_job r, rk_rank r, rk_shape r)) (plan_ranks Q byNode nodeRes L jobs apart)) =
     mset (demand Q jobs)"
proof -
  let ?f = "\<lambda>r. (rk_job r, rk_rank r, rk_shape r)"
  let ?ranks = "\<lambda>xs. concat (map (\<lambda>(i, e). job_ranks Q byNode nodeRes L apart i e) xs)"
  have eq: "map ?f (?ranks xs) =
    concat (map (\<lambda>(i, e). map (\<lambda>(r, s). (i, r, s)) (enumerate 0 (NodeShapes Q e))) xs)" for xs
    by (induction xs) (auto simp: job_ranks_demand)
  have "mset (map ?f (plan_ranks Q byNode nodeRes L jobs apart)) = mset (map ?f (?ranks (enumerate 0 jobs)))"
    by (simp only: plan_ranks_def mset_map mset_sort_slice)
  then show ?thesis by (simp only: eq demand_def)
qed

lemma plan_ranks_rank:
  "r \<in> set (plan_ranks Q byNode nodeRes L jobs apart) \<longleftrightarrow>
     (\<exists>i < length jobs. r \<in> set (job_ranks Q byNode nodeRes L apart i (jobs ! i)))"
  by (force simp: plan_ranks_def in_set_enumerate_eq)

lemma plan_ranks_job:
  assumes "r \<in> set (plan_ranks Q byNode nodeRes L jobs apart)"
  shows "rk_job r < length jobs"
    and "r \<in> set (job_ranks Q byNode nodeRes L apart (rk_job r) (jobs ! rk_job r))"
    and "good_shape (rk_shape r)"
  using assms by (auto simp: plan_ranks_rank job_ranks_rank(1) dest: job_ranks_rank(2) good_NodeShapes)

subsection \<open>The search implements the contract\<close>

lemma plan_within_legal:
  assumes "fst (plan_within b Q byNode nodeRes L jobs apart) = Some plan"
  shows "legal L (plan_places byNode nodeRes L jobs apart) (plan_ranks Q byNode nodeRes L jobs apart)
     (start_state byNode nodeRes) plan"
proof -
  obtain b' where "plan_within b Q byNode nodeRes L jobs apart = (Some plan, b')"
    using assms by (cases "plan_within b Q byNode nodeRes L jobs apart") auto
  then show ?thesis unfolding plan_within_def by (rule search_legal(1))
qed

lemma legal_plan_demand:
  assumes "legal L pl rs st plan"
  shows "map (\<lambda>a. (ra_job a, ra_rank a, ra_shape a)) plan = map (\<lambda>r. (rk_job r, rk_rank r, rk_shape r)) rs"
  using legal_ranks [OF assms] by (induction rule: list_all2_induct) (auto simp: of_rank_def)

lemma legal_rank_of:
  assumes "legal L pl rs st plan" and "a \<in> set plan"
  shows "\<exists>r \<in> set rs. of_rank r a \<and> ra_node a \<in> set (rk_nodes r)
    \<and> ra_key a = (if 0 < ns_AcceleratorCount (rk_shape r) then rk_key r else [])"
  by (rule list_all2_right [OF legal_ranks [OF assms(1)] assms(2)])

lemma legal_job_rank:
  assumes "legal L (plan_places byNode nodeRes L jobs apart)
      (plan_ranks Q byNode nodeRes L jobs apart) st plan" and "a \<in> set plan"
  obtains r where "r \<in> set (job_ranks Q byNode nodeRes L apart (ra_job a) (jobs ! ra_job a))"
    and "of_rank r a" and "ra_node a \<in> set (rk_nodes r)"
    and "ra_key a = (if 0 < ns_AcceleratorCount (rk_shape r) then rk_key r else [])"
proof -
  from legal_rank_of [OF assms] obtain r where r: "r \<in> set (plan_ranks Q byNode nodeRes L jobs apart)"
    "of_rank r a" "ra_node a \<in> set (rk_nodes r)"
    "ra_key a = (if 0 < ns_AcceleratorCount (rk_shape r) then rk_key r else [])"
    by (elim bexE conjE)
  from r(2) have "ra_job a = rk_job r" by (simp add: of_rank_def)
  with plan_ranks_job(2) [OF r(1)] r that show ?thesis by simp
qed

lemma legal_job_ok:
  assumes legal: "legal L (plan_places byNode nodeRes L jobs apart)
      (plan_ranks Q byNode nodeRes L jobs apart) st plan"
    and j: "j < length jobs"
  shows "job_ok L apart (jobs ! j) (filter (\<lambda>a. ra_job a = j) plan)"
proof -
  have each: "admits L (jobs ! j) (ra_node a)
       \<and> (0 < ns_AcceleratorCount (ra_shape a) \<longrightarrow> ra_key a = AcceleratorKey (ex_AcceleratorType (jobs ! j)))
       \<and> (js_Slots (EffectiveJob (jobs ! j)) \<noteq> [] \<longrightarrow>
            gets (mget [] L (ra_node a)) NodeSlotLabel = js_Slots (EffectiveJob (jobs ! j)) ! ra_rank a)"
    if a: "a \<in> set plan" "ra_job a = j" for a
  proof -
    obtain r where r: "r \<in> set (job_ranks Q byNode nodeRes L apart (ra_job a) (jobs ! ra_job a))"
      "of_rank r a" "ra_node a \<in> set (rk_nodes r)"
      "ra_key a = (if 0 < ns_AcceleratorCount (rk_shape r) then rk_key r else [])"
      by (rule legal_job_rank [OF legal a(1)])
    with job_ranks_rank(4) [OF r(1)] job_ranks_rank(5,6) [OF r(1) r(3)] a(2) show ?thesis
      by (simp add: of_rank_def)
  qed
  have dist: "distinct (map ra_node (filter (\<lambda>a. ra_job a = j) plan))"
    if "RequiresDistinctHosts (jobs ! j)"
  proof -
    have "rk_distinct r" if "r \<in> set (plan_ranks Q byNode nodeRes L jobs apart)" "rk_job r = j" for r
      using job_ranks_rank(3) [OF plan_ranks_job(2) [OF that(1)]] that(2)
        \<open>RequiresDistinctHosts (jobs ! j)\<close> by simp
    from legal_distinct [OF legal this] show ?thesis by simp
  qed
  have place: "\<exists>p. \<forall>a \<in> set (filter (\<lambda>a. ra_job a = j) plan). at_place L (jobs ! j) (ra_node a) p"
    if "NodesWithin (EffectiveJob (jobs ! j)) \<noteq> [] \<and> \<not> apart"
  proof -
    from that obtain m where m: "job_places byNode nodeRes L apart (jobs ! j) = Some m"
      by (auto simp: job_places_def Let_def)
    with j have "plan_places byNode nodeRes L jobs apart j = Some m" by (simp add: plan_places_def)
    from legal_place [OF legal this] obtain p
      where p: "\<forall>a \<in> set plan. ra_job a = j \<longrightarrow> gets m (ra_node a) = p" by (elim exE conjE)
    have "at_place L (jobs ! j) (ra_node a) p" if a: "a \<in> set plan" "ra_job a = j" for a
    proof -
      obtain r where r: "r \<in> set (job_ranks Q byNode nodeRes L apart (ra_job a) (jobs ! ra_job a))"
        "ra_node a \<in> set (rk_nodes r)"
        by (rule legal_job_rank [OF legal a(1)])
      have "map_of m (ra_node a) \<noteq> None"
        using job_ranks_rank(7) [OF r] m a(2) by simp
      moreover have "gets m (ra_node a) = p" using p a by simp
      ultimately have "map_of m (ra_node a) = Some p" by (auto simp: mget_def)
      then show ?thesis by (rule job_places_Some(2) [OF m])
    qed
    then show ?thesis by auto
  qed
  from each dist place show ?thesis by (simp add: job_ok_def)
qed

lemma plan_within_ok:
  assumes "fst (plan_within b Q byNode nodeRes L jobs apart) = Some plan" and "wf_caps nodeRes"
  shows "placement_ok Q byNode nodeRes L jobs apart plan"
proof -
  let ?rs = "plan_ranks Q byNode nodeRes L jobs apart"
  note legal = plan_within_legal [OF assms(1)]
  have "mset (map (\<lambda>a. (ra_job a, ra_rank a, ra_shape a)) plan) = mset (demand Q jobs)"
    by (simp only: legal_plan_demand [OF legal] plan_ranks_demand)
  moreover have "within_capacity byNode nodeRes plan"
    using legal_acc [OF legal] legal_res [OF legal plan_ranks_job(3)]
    by (simp add: within_capacity_def start_state_def)
  moreover have "length (filter (\<lambda>a. ra_node a = node) plan) \<le> 1" if "isSlot (mget [] L node)" for node
    using legal_slot_once [OF legal that plan_ranks_job(3)] wf_caps_mget [OF assms(2)]
    by (simp add: start_state_def)
  ultimately show ?thesis
    using legal_job_ok [OF legal] by (simp add: placement_ok_def)
qed

end
