(* ===== verification/Reservation.thy ===== *)
theory Reservation
  imports Search_Spec
begin

text \<open>
  What the scheduler does with a plan (placement/nodes.go and HoldSlots of slots.go): the
  fit checks, the reservation of one job's ranks in the tick's capacity maps, and the joint
  check of a candidate beside the jobs a cluster already runs.  Go changes the maps it is
  given; here an operation returns them.
\<close>

subsection \<open>Copies\<close>

definition CloneNodes :: "capmap \<Rightarrow> capmap" where
  "CloneNodes byNode = map (\<lambda>(node, capacity). (node, map (\<lambda>(key, count). (key, count)) capacity)) byNode"

definition CloneNodesByCluster :: "(string, capmap) gomap \<Rightarrow> (string, capmap) gomap" where
  "CloneNodesByCluster byCluster = map (\<lambda>(cluster, byNode). (cluster, CloneNodes byNode)) byCluster"

text \<open>A copy holds what the original holds: values here are never shared.\<close>

lemma CloneNodes_id [simp]: "CloneNodes m = m"
  by (simp add: CloneNodes_def case_prod_unfold)

subsection \<open>Reserving a job\<close>

definition take_rank :: "rankAssignment \<Rightarrow> capmap \<times> capmap \<Rightarrow> capmap \<times> capmap" where
  "take_rank p caps =
     (case caps of (byNode, nodeRes) \<Rightarrow>
       ((if ns_AcceleratorCount (ra_shape p) > 0
         then cap_upd byNode (ra_node p) (madd (ra_key p) (- ns_AcceleratorCount (ra_shape p)))
         else byNode),
        cap_upd nodeRes (ra_node p) (\<lambda>c. subtractNodeResources c (ns_Resources (ra_shape p)))))"

definition Reserve :: "quantity_lib \<Rightarrow> capmap \<Rightarrow> capmap \<Rightarrow> labelmap \<Rightarrow> Experiment \<Rightarrow> bool \<times> capmap \<times> capmap" where
  "Reserve Q byNode nodeRes labelsByNode e =
     (case planPlacement Q (CloneNodes byNode) (CloneNodes nodeRes) labelsByNode [e] False of
        None \<Rightarrow> (False, byNode, nodeRes)
      | Some plan \<Rightarrow> (True, fold take_rank plan (byNode, nodeRes)))"

definition TopologyFits :: "quantity_lib \<Rightarrow> capmap \<Rightarrow> capmap \<Rightarrow> labelmap \<Rightarrow> Experiment \<Rightarrow> bool" where
  "TopologyFits Q byNode nodeRes labelsByNode e =
     fst (Reserve Q (CloneNodes byNode) (CloneNodes nodeRes) labelsByNode e)"

definition FitsOnlyApart :: "quantity_lib \<Rightarrow> capmap \<Rightarrow> capmap \<Rightarrow> labelmap \<Rightarrow> Experiment \<Rightarrow> bool" where
  "FitsOnlyApart Q byNode nodeRes labelsByNode e =
     (if NodesWithin (EffectiveJob e) = [] \<or> TopologyFits Q byNode nodeRes labelsByNode e then False
      else planPlacement Q (CloneNodes byNode) (CloneNodes nodeRes) labelsByNode [e] True \<noteq> None)"

text \<open>
  The hardest node of a job, over its shapes in order; the start value is Go's zero shape,
  whose nil resources the first shape replaces.
\<close>

fun hardest_of :: "(NodeShape \<times> int) option \<Rightarrow> NodeShape list \<Rightarrow> NodeShape" where
  "hardest_of None [] = \<lparr>ns_Group = [], ns_AcceleratorCount = 0, ns_Resources = []\<rparr>"
| "hardest_of (Some (h, _)) [] = h"
| "hardest_of None (s # ss) = hardest_of (Some (s, shapeResourceTotal s)) ss"
| "hardest_of (Some (h, t)) (s # ss) =
     (if ns_AcceleratorCount s > ns_AcceleratorCount h
         \<or> (ns_AcceleratorCount s = ns_AcceleratorCount h \<and> shapeResourceTotal s > t)
      then hardest_of (Some (s, shapeResourceTotal s)) ss
      else hardest_of (Some (h, t)) ss)"

definition HardestNodeShape :: "quantity_lib \<Rightarrow> Experiment \<Rightarrow> NodeShape" where
  "HardestNodeShape Q e = hardest_of None (NodeShapes Q e)"

definition NodeResourceKind :: "string \<Rightarrow> ResourceKind option" where
  "NodeResourceKind resource =
     (if resource = NodeResourceCPUMillicores then Some ResourceKindCPU
      else if resource = NodeResourceMemoryBytes then Some ResourceKindMemory
      else if resource = NodeResourceStorageBytes then Some ResourceKindStorage
      else None)"

subsection \<open>A candidate beside the jobs already desired\<close>

definition zeroed :: "amounts \<Rightarrow> amounts" where
  "zeroed c = map (\<lambda>(key, _). (key, 0)) c"

definition HoldSlots :: "capmap \<Rightarrow> capmap \<Rightarrow> labelmap \<Rightarrow> string list \<Rightarrow> capmap \<times> capmap" where
  "HoldSlots byNode nodeRes labelsByNode slots =
     fold (\<lambda>(node, lab) (b, n).
        if \<not> isSlot lab \<or> gets lab NodeSlotLabel \<notin> set slots then (b, n)
        else (cap_upd b node zeroed, cap_upd n node zeroed))
       labelsByNode (byNode, nodeRes)"

text \<open>The loop over the desired jobs: the slots pinned jobs hold, and the jobs to plan.\<close>

fun hold_desired :: "labelmap \<Rightarrow> Experiment list \<Rightarrow> capmap \<Rightarrow> capmap \<Rightarrow> capmap \<times> capmap \<times> Experiment list" where
  "hold_desired labelsByNode [] byNode nodeRes = (byNode, nodeRes, [])"
| "hold_desired labelsByNode (d # ds) byNode nodeRes =
     (if js_Slots (EffectiveJob d) \<noteq> []
      then case HoldSlots byNode nodeRes labelsByNode (js_Slots (EffectiveJob d)) of
             (b, n) \<Rightarrow> hold_desired labelsByNode ds b n
      else case hold_desired labelsByNode ds byNode nodeRes of (b, n, jobs) \<Rightarrow> (b, n, d # jobs))"

text \<open>The slot label of the node each rank of the candidate got, in rank order.\<close>

definition candidate_slots :: "labelmap \<Rightarrow> nat \<Rightarrow> nat \<Rightarrow> rankAssignment list \<Rightarrow> string list" where
  "candidate_slots labelsByNode job ranks plan =
     fold (\<lambda>p slots. if ra_job p = job
                      then slots[ra_rank p := gets (mget [] labelsByNode (ra_node p)) NodeSlotLabel]
                      else slots) plan (replicate ranks [])"

text \<open>The place of the candidate's first rank in the plan, added to a selector.\<close>

definition with_place :: "labelmap \<Rightarrow> NodesLevel \<Rightarrow> nat \<Rightarrow> rankAssignment list \<Rightarrow> JobSpec \<Rightarrow> JobSpec" where
  "with_place labelsByNode level job plan resolved =
     (case find (\<lambda>p. ra_job p = job) plan of
        None \<Rightarrow> resolved
      | Some p \<Rightarrow>
          (case nearness labelsByNode (ra_node p) level (labelledLevels labelsByNode) of
             None \<Rightarrow> resolved
           | Some place \<Rightarrow>
               if place = [] then resolved
               else resolved\<lparr>js_NodeSelector :=
                 fold (\<lambda>(k, v). mput k v) place (js_NodeSelector resolved)\<rparr>))"

definition DesiredFits :: "quantity_lib \<Rightarrow> capmap \<Rightarrow> capmap \<Rightarrow> labelmap \<Rightarrow> Experiment list \<Rightarrow> Experiment
    \<Rightarrow> JobSpec \<Rightarrow> bool \<times> JobSpec" where
  "DesiredFits Q byNode nodeRes labelsByNode desired candidate resolved =
     (case hold_desired labelsByNode desired (CloneNodes byNode) (CloneNodes nodeRes) of
        (b, n, planned) \<Rightarrow>
          let jobs = planned @ [candidate]
          in case planPlacement Q b n labelsByNode jobs False of
               None \<Rightarrow> (False, resolved)
             | Some plan \<Rightarrow>
                 let last = length jobs - 1;
                     slots = candidate_slots labelsByNode last (length (NodeShapes Q candidate)) plan;
                     level = NodesWithin (EffectiveJob candidate)
                 in if [] \<notin> set slots
                    then (True, with_place labelsByNode level last plan (resolved\<lparr>js_Slots := slots\<rparr>))
                    else if list_ex (\<lambda>slot. slot \<noteq> []) slots then (False, resolved)
                    else (True, with_place labelsByNode level last plan resolved))"

text \<open>A cluster of two slots of the size of the sample job, and a job that holds the first.\<close>

definition sample_slotLabels :: labelmap where
  "sample_slotLabels = [(''n1'', [(NodeSlotLabel, ''s1'')]), (''n2'', [(NodeSlotLabel, ''s2'')])]"

definition sample_slotByNode :: capmap where
  "sample_slotByNode = map (\<lambda>n. (n, [(''nvidia.com/gpu.product=A100'', 1)])) [''n1'', ''n2'']"

definition sample_slotRes :: capmap where
  "sample_slotRes = map (\<lambda>n. (n, [(NodeResourceCPUMillicores, 4000), (NodeResourceMemoryBytes, 8),
     (NodeResourceStorageBytes, 2)])) [''n1'', ''n2'']"

definition sample_pinned :: Experiment where
  "sample_pinned = sample_exp\<lparr>ex_ID := ''e0'', ex_ResolvedJob := Some (sample_job\<lparr>js_Slots := [''s1'']\<rparr>)\<rparr>"

subsection \<open>What a reservation takes\<close>

lemma take_rank_put:
  assumes "of_rank r a"
  shows "take_rank a (ss_byNode st, ss_nodeResources st) =
     (ss_byNode (put_rank pl r (ra_node a) (ra_key a) st),
      ss_nodeResources (put_rank pl r (ra_node a) (ra_key a) st))"
  using assms by (simp add: take_rank_def put_rank_def of_rank_def Let_def)

lemma legal_take:
  "legal L pl rs st plan \<Longrightarrow> (\<And>r. r \<in> set rs \<Longrightarrow> good_shape (rk_shape r)) \<Longrightarrow>
     fold take_rank plan (ss_byNode st, ss_nodeResources st) = (b, n) \<Longrightarrow>
     geti (mget [] b node) key = geti (mget [] (ss_byNode st) node) key - acc_used plan node key
     \<and> geti (mget [] n node) key = geti (mget [] (ss_nodeResources st) node) key - res_used plan node key"
proof (induction L pl rs st plan rule: legal.induct)
  case (3 L pl r rs st a plan)
  note d = legal_ConsD [OF "3.prems"(1)]
  let ?st = "put_rank pl r (ra_node a) (ra_key a) st"
  have "of_rank r a" using "3.prems"(1) by simp
  then have "fold take_rank plan (ss_byNode ?st, ss_nodeResources ?st) = (b, n)"
    using "3.prems"(3) take_rank_put [of r a st pl] by simp
  with "3.IH" [OF d(4)] "3.prems"(2) have
    "geti (mget [] b node) key = geti (mget [] (ss_byNode ?st) node) key - acc_used plan node key
     \<and> geti (mget [] n node) key = geti (mget [] (ss_nodeResources ?st) node) key - res_used plan node key"
    by auto
  moreover have "good_shape (rk_shape r)" using "3.prems"(2) by simp
  ultimately show ?case
    using acc_put_rank [OF d(1), of node key] res_put_rank [OF d(1), of node key] d(2) by auto
qed auto

lemma Reserve_plan:
  assumes "Reserve Q byNode nodeRes L e = (True, byNode', nodeRes')"
  obtains plan where "planPlacement Q byNode nodeRes L [e] False = Some plan"
    and "fold take_rank plan (byNode, nodeRes) = (byNode', nodeRes')"
  using assms by (auto simp: Reserve_def split: option.splits)

lemma planPlacement_legal:
  assumes "planPlacement Q byNode nodeRes L jobs apart = Some plan"
  shows "legal L (plan_places byNode nodeRes L jobs apart) (plan_ranks Q byNode nodeRes L jobs apart)
     (start_state byNode nodeRes) plan"
  using assms by (auto simp: planPlacement_def intro: plan_within_legal)

lemma planPlacement_ok:
  assumes "planPlacement Q byNode nodeRes L jobs apart = Some plan" and "wf_caps nodeRes"
  shows "placement_ok Q byNode nodeRes L jobs apart plan"
  using assms by (auto simp: planPlacement_def intro: plan_within_ok)

lemma Reserve_takes:
  assumes "planPlacement Q byNode nodeRes L [e] False = Some plan"
    and "fold take_rank plan (byNode, nodeRes) = (b, n)"
  shows "geti (mget [] b node) key = geti (mget [] byNode node) key - acc_used plan node key"
    and "geti (mget [] n node) key = geti (mget [] nodeRes node) key - res_used plan node key"
  using legal_take [OF planPlacement_legal [OF assms(1)] plan_ranks_job(3), where b = b and n = n and node = node and key = key] assms(2)
  by (simp_all add: start_state_def)

subsection \<open>Held slots\<close>

text \<open>A node all of whose free amounts are zero.\<close>

definition drained :: "capmap \<Rightarrow> string \<Rightarrow> bool" where
  "drained n node \<longleftrightarrow> (\<forall>(k, v) \<in> set (mget [] n node). v = 0)"

lemma drained_upd: "drained n node \<or> m = node \<Longrightarrow> drained (cap_upd n m zeroed) node"
  by (auto simp: drained_def mget_cap_upd zeroed_def) (simp add: mget_def)

lemma HoldSlots_snd:
  "snd (fold (\<lambda>(node, lab) (b, n).
        if \<not> isSlot lab \<or> gets lab NodeSlotLabel \<notin> set slots then (b, n)
        else (cap_upd b node zeroed, cap_upd n node zeroed)) L (b, n)) =
   fold (\<lambda>(node, lab) n.
        if \<not> isSlot lab \<or> gets lab NodeSlotLabel \<notin> set slots then n else cap_upd n node zeroed) L n"
  by (induction L arbitrary: b n) (auto simp: case_prod_beta)

lemma HoldSlots_drained:
  assumes "HoldSlots b n L slots = (b', n')"
  shows "drained n node \<Longrightarrow> drained n' node"
    and "(node, lab) \<in> set L \<Longrightarrow> isSlot lab \<Longrightarrow> gets lab NodeSlotLabel \<in> set slots \<Longrightarrow> drained n' node"
proof -
  define f where "f = (\<lambda>(node, lab) n.
    if \<not> isSlot lab \<or> gets lab NodeSlotLabel \<notin> set slots then n else cap_upd n node zeroed)"
  have n': "n' = fold f L n"
    using assms HoldSlots_snd [of slots L b n] by (simp add: HoldSlots_def f_def)
  have keep: "drained n node \<Longrightarrow> drained (fold f xs n) node" for xs n node
    by (induction xs arbitrary: n) (auto simp: f_def drained_upd)
  then show "drained n node \<Longrightarrow> drained n' node" by (simp add: n')
  assume at: "(node, lab) \<in> set L" "isSlot lab" "gets lab NodeSlotLabel \<in> set slots"
  then obtain xs ys where L: "L = xs @ (node, lab) # ys" by (auto simp: in_set_conv_decomp)
  have "drained (f (node, lab) m) node" for m using at by (simp add: f_def drained_upd)
  then show "drained n' node" by (simp add: n' L keep)
qed

lemma hold_desired_drained:
  "hold_desired L ds b n = (b', n', jobs) \<Longrightarrow>
     drained n node \<or> (\<exists>d \<in> set ds. \<exists>lab. (node, lab) \<in> set L \<and> isSlot lab
        \<and> gets lab NodeSlotLabel \<in> set (js_Slots (EffectiveJob d))) \<Longrightarrow>
     drained n' node"
proof (induction L ds b n arbitrary: jobs rule: hold_desired.induct)
  case (2 L d ds b n)
  show ?case
  proof (cases "js_Slots (EffectiveJob d) = []")
    case True
    then obtain jobs' where "hold_desired L ds b n = (b', n', jobs')"
      using "2.prems"(1) by (auto split: prod.splits)
    with True "2.IH"(2) "2.prems"(2) show ?thesis by auto
  next
    case False
    obtain b1 n1 where h: "HoldSlots b n L (js_Slots (EffectiveJob d)) = (b1, n1)" by force
    with False "2.prems"(1) have rest: "hold_desired L ds b1 n1 = (b', n', jobs)" by simp
    show ?thesis
      by (rule "2.IH"(1) [OF False h [symmetric] rest])
        (use "2.prems"(2) HoldSlots_drained [OF h] in auto)
  qed
qed auto

lemma wf_caps_cap_upd:
  assumes "wf_caps m" and "\<And>c. wf_map c \<Longrightarrow> wf_map (f c)"
  shows "wf_caps (cap_upd m node f)"
proof (cases "map_of m node")
  case None
  with assms(1) show ?thesis by (simp add: cap_upd_def)
next
  case (Some c)
  then have "(node, c) \<in> set m" by (rule map_of_SomeD)
  with assms have "wf_map (f c)" by (auto simp: wf_caps_def)
  moreover have "set (mput node (f c) m) \<subseteq> insert (node, f c) (set m)"
    by (induction m) (auto simp: mput_def)
  ultimately show ?thesis using assms(1) Some by (auto simp: wf_caps_def cap_upd_def)
qed

lemma wf_caps_hold_desired:
  assumes "hold_desired L ds b n = (b', n', jobs)" and "wf_caps n"
  shows "wf_caps n'"
proof -
  have hold: "wf_caps (snd (HoldSlots b n L slots))" if "wf_caps n" for b n L slots
  proof -
    have z: "wf_map c \<Longrightarrow> wf_map (zeroed c)" for c
      by (simp add: wf_map_def zeroed_def case_prod_beta comp_def)
    have "wf_caps (fold (\<lambda>(node, lab) n. if \<not> isSlot lab \<or> gets lab NodeSlotLabel \<notin> set slots
        then n else cap_upd n node zeroed) xs n)" for xs
      using that by (induction xs arbitrary: n) (auto simp: wf_caps_cap_upd z)
    then show ?thesis by (simp only: HoldSlots_def HoldSlots_snd)
  qed
  from assms show ?thesis
  proof (induction L ds b n arbitrary: jobs rule: hold_desired.induct)
    case (2 L d ds b n)
    obtain b1 n1 where h: "HoldSlots b n L (js_Slots (EffectiveJob d)) = (b1, n1)" by force
    show ?case
    proof (cases "js_Slots (EffectiveJob d) = []")
      case True
      then obtain jobs' where "hold_desired L ds b n = (b', n', jobs')"
        using "2.prems"(1) by (auto split: prod.splits)
      with True "2.IH"(2) "2.prems"(2) show ?thesis by simp
    next
      case False
      with h "2.prems"(1) have "hold_desired L ds b1 n1 = (b', n', jobs)" by simp
      moreover have "wf_caps n1" using hold [OF "2.prems"(2), of b L "js_Slots (EffectiveJob d)"] h by simp
      ultimately show ?thesis by (rule "2.IH"(1) [OF False h [symmetric]])
    qed
  qed auto
qed

subsection \<open>The ranks of one job in a plan\<close>

lemma demand_ranks:
  "map (\<lambda>(j, r, s). (j, r)) (demand Q jobs) =
     concat (map (\<lambda>(i, e). map (Pair i) [0..<length (NodeShapes Q e)]) (enumerate 0 jobs))"
proof -
  have e: "map (\<lambda>(j, r, s). (j, r)) (map (\<lambda>(r, s). (i, r, s)) (enumerate 0 ss)) = map (Pair i) [0..<length ss]"
    for i :: nat and ss :: "NodeShape list"
    by (rule nth_equalityI) (simp_all add: nth_enumerate_eq)
  show ?thesis by (simp add: demand_def map_concat comp_def case_prod_unfold flip: e)
qed

lemma distinct_demand: "distinct (map (\<lambda>(j, r, s). (j, r)) (demand Q jobs))"
proof -
  let ?f = "\<lambda>k. concat (map (\<lambda>(i, e). map (Pair i) [0..<length (NodeShapes Q e)]) (enumerate k jobs))"
  have "distinct (?f k) \<and> (\<forall>(i, r) \<in> set (?f k). k \<le> i)" for k
    by (induction jobs arbitrary: k)
      (auto simp: enumerate_simps distinct_map inj_on_def, fastforce+)
  then show ?thesis by (simp only: demand_ranks)
qed

lemma placement_ranks:
  assumes "placement_ok Q b n L jobs apart plan"
  shows "distinct (map (\<lambda>a. (ra_job a, ra_rank a)) plan)"
    and "j < length jobs \<Longrightarrow> r < length (NodeShapes Q (jobs ! j)) \<Longrightarrow>
      \<exists>a \<in> set plan. ra_job a = j \<and> ra_rank a = r"
proof -
  let ?t = "\<lambda>a. (ra_job a, ra_rank a, ra_shape a)"
  have m: "mset (map ?t plan) = mset (demand Q jobs)"
    using assms by (simp add: placement_ok_def)
  have "mset (map (\<lambda>(j, r, s). (j, r)) (map ?t plan)) = mset (map (\<lambda>(j, r, s). (j, r)) (demand Q jobs))"
    unfolding mset_map [of "\<lambda>(j, r, s). (j, r)"] m ..
  from mset_eq_imp_distinct_iff [OF this] distinct_demand [of Q jobs]
  have "distinct (map (\<lambda>(j, r, s). (j, r)) (map ?t plan))" by simp
  then show "distinct (map (\<lambda>a. (ra_job a, ra_rank a)) plan)" by (simp add: comp_def)
  assume "j < length jobs" "r < length (NodeShapes Q (jobs ! j))"
  then have "(j, r) \<in> set (map (\<lambda>(j, r, s). (j, r)) (demand Q jobs))"
    unfolding demand_ranks by (force simp: in_set_enumerate_eq)
  then obtain s where "(j, r, s) \<in> set (demand Q jobs)" by auto
  then have "(j, r, s) \<in> set (map ?t plan)" by (simp only: mset_eq_setD [OF m])
  then show "\<exists>a \<in> set plan. ra_job a = j \<and> ra_rank a = r" by auto
qed

subsection \<open>The slots of a candidate\<close>

abbreviation slot_of :: "labelmap \<Rightarrow> string \<Rightarrow> string" where
  "slot_of L node \<equiv> gets (mget [] L node) NodeSlotLabel"

definition put_slot :: "labelmap \<Rightarrow> nat \<Rightarrow> rankAssignment \<Rightarrow> string list \<Rightarrow> string list" where
  "put_slot L job p slots = (if ra_job p = job then slots[ra_rank p := slot_of L (ra_node p)] else slots)"

lemma candidate_slots_put: "candidate_slots L job n plan = fold (put_slot L job) plan (replicate n [])"
  unfolding candidate_slots_def put_slot_def by simp

lemma length_put_slots: "length (fold (put_slot L job) plan xs) = length xs"
  by (induction plan arbitrary: xs) (auto simp: put_slot_def)

lemma nth_put_slots:
  assumes "distinct (map (\<lambda>a. (ra_job a, ra_rank a)) plan)"
    and "p \<in> set plan" and "ra_job p = job" and "ra_rank p < length xs"
  shows "fold (put_slot L job) plan xs ! ra_rank p = slot_of L (ra_node p)"
  using assms
proof (induction plan arbitrary: xs)
  case (Cons a plan)
  have other: "\<forall>a \<in> set plan. ra_job a = job \<longrightarrow> ra_rank a \<noteq> i \<Longrightarrow>
      fold (put_slot L job) plan ys ! i = ys ! i" for ys i
    by (induction plan arbitrary: ys) (auto simp: put_slot_def)
  show ?case
  proof (cases "p = a")
    case True
    have "(ra_job a, ra_rank a) \<notin> (\<lambda>a. (ra_job a, ra_rank a)) ` set plan" using Cons.prems(1) by simp
    with True Cons.prems(3) have "\<forall>a \<in> set plan. ra_job a = job \<longrightarrow> ra_rank a \<noteq> ra_rank p"
      by (auto simp: image_iff)
    with True Cons.prems(3,4) show ?thesis by (simp add: other) (simp add: put_slot_def)
  next
    case False
    with Cons show ?thesis by (auto simp: put_slot_def)
  qed
qed simp

lemma nth_candidate_slots:
  assumes "placement_ok Q b n L jobs apart plan" and "j < length jobs"
    and "r < length (NodeShapes Q (jobs ! j))"
  obtains a where "a \<in> set plan" and "ra_job a = j" and "ra_rank a = r"
    and "candidate_slots L j (length (NodeShapes Q (jobs ! j))) plan ! r = slot_of L (ra_node a)"
proof -
  from placement_ranks(2) [OF assms] obtain a where a: "a \<in> set plan" "ra_job a = j" "ra_rank a = r"
    by auto
  then have "candidate_slots L j (length (NodeShapes Q (jobs ! j))) plan ! r = slot_of L (ra_node a)"
    using nth_put_slots [OF placement_ranks(1) [OF assms(1)] a(1,2)] assms(3)
    by (simp add: candidate_slots_put)
  with a show ?thesis by (rule that)
qed

subsection \<open>The joint check\<close>

lemma with_place_slots [simp]: "js_Slots (with_place L level job plan resolved) = js_Slots resolved"
  by (auto simp: with_place_def split: option.splits)

lemma DesiredFits_True:
  assumes "DesiredFits Q byNode nodeRes L desired candidate resolved = (True, r)"
  obtains b n planned plan where "hold_desired L desired byNode nodeRes = (b, n, planned)"
    and "planPlacement Q b n L (planned @ [candidate]) False = Some plan"
    and "js_Slots r = js_Slots resolved \<or>
      (js_Slots r = candidate_slots L (length planned) (length (NodeShapes Q candidate)) plan
       \<and> [] \<notin> set (js_Slots r))"
proof -
  obtain b n planned where h: "hold_desired L desired byNode nodeRes = (b, n, planned)"
    by (metis prod_cases3)
  from assms obtain plan where p: "planPlacement Q b n L (planned @ [candidate]) False = Some plan"
    by (auto simp: DesiredFits_def h Let_def split: option.splits)
  have "js_Slots r = js_Slots resolved \<or>
      (js_Slots r = candidate_slots L (length planned) (length (NodeShapes Q candidate)) plan
       \<and> [] \<notin> set (js_Slots r))"
    using assms by (auto simp: DesiredFits_def h p Let_def split: if_splits)
  with h p show ?thesis by (rule that)
qed

lemma slot_entry: "isSlot (mget [] L node) \<Longrightarrow> (node, mget [] L node) \<in> set L"
  by (rule mget_entry) (auto simp: isSlot_def mget_absent intro: ccontr)

lemma drained_spent: "drained n node \<Longrightarrow> spent (start_state b n) node"
  by (cases "mget [] n node") (auto simp: drained_def spent_def start_state_def)

lemma held_slot_untouched:
  assumes "hold_desired L desired byNode nodeRes = (b, n, planned)"
    and "planPlacement Q b n L jobs False = Some plan" and "a \<in> set plan"
    and "isSlot (mget [] L (ra_node a))" and "d \<in> set desired"
  shows "slot_of L (ra_node a) \<notin> set (js_Slots (EffectiveJob d))"
proof
  assume "slot_of L (ra_node a) \<in> set (js_Slots (EffectiveJob d))"
  with assms(4,5) slot_entry [OF assms(4)] have "drained n (ra_node a)"
    by (intro hold_desired_drained [OF assms(1)]) blast
  with legal_spent [OF planPlacement_legal [OF assms(2)] drained_spent] assms(3,4) show False by auto
qed

text \<open>Slot labels name slots: no two nodes carry the same one.\<close>

definition slots_unique :: "labelmap \<Rightarrow> bool" where
  "slots_unique L \<longleftrightarrow> distinct (map (\<lambda>(_, lab). gets lab NodeSlotLabel) (filter (\<lambda>(_, lab). isSlot lab) L))"

lemma slots_uniqueD:
  assumes "slots_unique L" and "isSlot (mget [] L m)" and "slot_of L m = slot_of L m'"
  shows "m = m'"
proof -
  have "isSlot (mget [] L m')" using assms(2,3) by (simp add: isSlot_def)
  then have e: "(m, mget [] L m) \<in> set (filter (\<lambda>(_, lab). isSlot lab) L)"
    "(m', mget [] L m') \<in> set (filter (\<lambda>(_, lab). isSlot lab) L)"
    using assms(2) slot_entry by auto
  have "inj_on (\<lambda>(_, lab). gets lab NodeSlotLabel) (set (filter (\<lambda>(_, lab). isSlot lab) L))"
    using assms(1) by (simp only: slots_unique_def distinct_map)
  from inj_onD [OF this _ e] assms(3) show ?thesis by simp
qed

lemma same_node_same_assignment:
  assumes "length (filter (\<lambda>a. ra_node a = node) plan) \<le> 1"
    and "a \<in> set plan" and "b \<in> set plan" and "ra_node a = node" and "ra_node b = node"
  shows "a = b"
proof -
  have "a \<in> set (filter (\<lambda>a. ra_node a = node) plan)" "b \<in> set (filter (\<lambda>a. ra_node a = node) plan)"
    using assms by auto
  with assms(1) show ?thesis
    by (cases "filter (\<lambda>a. ra_node a = node) plan") auto
qed

lemma candidate_slots_distinct:
  assumes ok: "placement_ok Q b n L jobs apart plan" and j: "j < length jobs"
    and slots: "xs = candidate_slots L j (length (NodeShapes Q (jobs ! j))) plan"
    and full: "[] \<notin> set xs" and uniq: "slots_unique L"
  shows "distinct xs"
  unfolding distinct_conv_nth
proof (intro allI impI)
  fix i k assume i: "i < length xs" and k: "k < length xs" and ne: "i \<noteq> k"
  have len: "length xs = length (NodeShapes Q (jobs ! j))"
    by (simp add: slots candidate_slots_put length_put_slots)
  obtain a where a: "a \<in> set plan" "ra_rank a = i" "xs ! i = slot_of L (ra_node a)"
    using nth_candidate_slots [OF ok j] i len slots by metis
  obtain c where c: "c \<in> set plan" "ra_rank c = k" "xs ! k = slot_of L (ra_node c)"
    using nth_candidate_slots [OF ok j] k len slots by metis
  have slot: "isSlot (mget [] L (ra_node a))"
    using full a(3) i by (auto simp: isSlot_def in_set_conv_nth)
  have once: "length (filter (\<lambda>x. ra_node x = ra_node a) plan) \<le> 1"
    using ok slot by (simp add: placement_ok_def)
  show "xs ! i \<noteq> xs ! k"
  proof
    assume "xs ! i = xs ! k"
    with a(3) c(3) have "ra_node c = ra_node a" by (metis slots_uniqueD [OF uniq slot])
    with same_node_same_assignment [OF once c(1) a(1)] a(2) c(2) ne show False by simp
  qed
qed

subsection \<open>The hardest node\<close>

lemma hardest_of_max:
  "t = shapeResourceTotal h \<Longrightarrow> s \<in> insert h (set ss) \<Longrightarrow> \<not> shape_before s (hardest_of (Some (h, t)) ss)"
proof (induction ss arbitrary: h t s)
  case (Cons x xs)
  let ?best = "if ns_AcceleratorCount x > ns_AcceleratorCount h
         \<or> (ns_AcceleratorCount x = ns_AcceleratorCount h \<and> shapeResourceTotal x > t) then x else h"
  have step: "hardest_of (Some (h, t)) (x # xs) = hardest_of (Some (?best, shapeResourceTotal ?best)) xs"
    using Cons.prems(1) by simp
  have top: "\<not> shape_before ?best (hardest_of (Some (?best, shapeResourceTotal ?best)) xs)"
    by (rule Cons.IH) simp_all
  have rest: "\<not> shape_before s (hardest_of (Some (?best, shapeResourceTotal ?best)) xs)" if "s \<in> set xs"
    by (rule Cons.IH) (use that in simp_all)
  from Cons.prems consider "s = h" | "s = x" | "s \<in> set xs" by auto
  then show ?case
  proof cases
    case 3
    then show ?thesis unfolding step by (rule rest)
  qed (use top Cons.prems(1) in \<open>unfold step, auto simp: shape_before_def split: if_splits\<close>)
qed (simp add: shape_before_def)

lemma hardest_of_in: "hardest_of (Some (h, t)) ss \<in> insert h (set ss)"
proof (induction ss arbitrary: h t)
  case (Cons x xs)
  have "hardest_of (Some (x, shapeResourceTotal x)) xs \<in> insert x (set xs)"
    "hardest_of (Some (h, t)) xs \<in> insert h (set xs)" by (rule Cons.IH)+
  then show ?case by auto
qed simp

subsection \<open>Properties\<close>

text \<open>C1: planPlacement is sound. The plan it returns places every rank of every job exactly once,
  takes of no node more accelerators or resources than the node has free, puts a rank only on a node
  that carries its job's selector and image architecture, gives the ranks of a spreading job distinct
  hosts, keeps the nodes of a job within its nearness level (unless they may be apart), keeps a pinned
  job on its slots, and never shares a slot.\<close>

theorem planPlacement_sound:
  assumes "planPlacement Q byNode nodeRes L jobs apart = Some plan" and "wf_caps nodeRes"
  shows "placement_ok Q byNode nodeRes L jobs apart plan"
  by (rule planPlacement_ok [OF assms])

theorem planPlacement_sound_witness:
  "\<exists>plan. planPlacement sample_Q sample_byNode sample_nodeRes [] [sample_two] False = Some plan
     \<and> map ra_node plan = [''n2'', ''n1'']
     \<and> placement_ok sample_Q sample_byNode sample_nodeRes [] [sample_two] False plan"
proof -
  have "map_option (map ra_node) (planPlacement sample_Q sample_byNode sample_nodeRes [] [sample_two] False)
      = Some [''n2'', ''n1'']"
    by code_simp
  then obtain plan where p: "planPlacement sample_Q sample_byNode sample_nodeRes [] [sample_two] False = Some plan"
    "map ra_node plan = [''n2'', ''n1'']"
    by auto
  have "wf_caps sample_nodeRes" by code_simp
  from planPlacement_sound [OF p(1) this] p(2) p(1) show ?thesis
    by (intro exI [of _ plan] conjI)
qed

text \<open>C2: Reserve is exact. When it answers true the new capacity of every node is the old one less
  what one sound plan of the job takes there, in every accelerator and resource dimension, and no
  amount that was not negative becomes negative.\<close>

theorem Reserve_exact:
  assumes "Reserve Q byNode nodeRes L e = (True, byNode', nodeRes')" and "wf_caps nodeRes"
  shows "\<exists>plan. placement_ok Q byNode nodeRes L [e] False plan
     \<and> (\<forall>node key. geti (mget [] byNode' node) key = geti (mget [] byNode node) key - acc_used plan node key
          \<and> geti (mget [] nodeRes' node) key = geti (mget [] nodeRes node) key - res_used plan node key)
     \<and> (\<forall>node key. 0 \<le> geti (mget [] byNode node) key \<longrightarrow> 0 \<le> geti (mget [] byNode' node) key)
     \<and> (\<forall>node key. 0 \<le> geti (mget [] nodeRes node) key \<longrightarrow> 0 \<le> geti (mget [] nodeRes' node) key)"
proof -
  obtain plan where p: "planPlacement Q byNode nodeRes L [e] False = Some plan"
    and t: "fold take_rank plan (byNode, nodeRes) = (byNode', nodeRes')"
    by (rule Reserve_plan [OF assms(1)])
  note ok = planPlacement_ok [OF p assms(2)] and takes = Reserve_takes [OF p t]
  have cap: "acc_used plan node key = 0 \<or> acc_used plan node key \<le> geti (mget [] byNode node) key"
    "res_used plan node key = 0 \<or> res_used plan node key \<le> geti (mget [] nodeRes node) key" for node key
    using ok by (simp_all add: placement_ok_def within_capacity_def)
  have "0 \<le> geti (mget [] byNode node) key \<Longrightarrow> 0 \<le> geti (mget [] byNode' node) key"
    "0 \<le> geti (mget [] nodeRes node) key \<Longrightarrow> 0 \<le> geti (mget [] nodeRes' node) key" for node key
    using cap [of node key] takes [of node key] by linarith+
  with ok takes show ?thesis by blast
qed

theorem Reserve_exact_witness:
  "\<exists>byNode' nodeRes' plan. Reserve sample_Q sample_byNode sample_nodeRes [] sample_two = (True, byNode', nodeRes')
     \<and> placement_ok sample_Q sample_byNode sample_nodeRes [] [sample_two] False plan
     \<and> geti (mget [] nodeRes' ''n1'') NodeResourceCPUMillicores =
         geti (mget [] sample_nodeRes ''n1'') NodeResourceCPUMillicores
           - res_used plan ''n1'' NodeResourceCPUMillicores"
proof -
  have "fst (Reserve sample_Q sample_byNode sample_nodeRes [] sample_two)" by code_simp
  then obtain b n where r: "Reserve sample_Q sample_byNode sample_nodeRes [] sample_two = (True, b, n)"
    by (cases "Reserve sample_Q sample_byNode sample_nodeRes [] sample_two") auto
  have "wf_caps sample_nodeRes" by code_simp
  from Reserve_exact [OF r this] obtain plan
    where "placement_ok sample_Q sample_byNode sample_nodeRes [] [sample_two] False plan"
      "\<forall>node key. geti (mget [] b node) key = geti (mget [] sample_byNode node) key - acc_used plan node key
        \<and> geti (mget [] n node) key = geti (mget [] sample_nodeRes node) key - res_used plan node key"
    by (elim exE conjE)
  with r show ?thesis by (intro exI [of _ b] exI [of _ n] exI [of _ plan] conjI) simp_all
qed

text \<open>DesiredFits never books a slot twice. A candidate it resolves onto slots gets one slot per
  node, all different, each the label of a node that carries the candidate's selector and architecture,
  and none of them held by a job that is already desired on the cluster.\<close>

theorem DesiredFits_slots:
  assumes fits: "DesiredFits Q byNode nodeRes L desired candidate resolved = (True, r)"
    and wf: "wf_caps nodeRes" and uniq: "slots_unique L"
    and onto: "js_Slots r \<noteq> js_Slots resolved"
  shows "distinct (js_Slots r) \<and> length (js_Slots r) = length (NodeShapes Q candidate)
     \<and> (\<forall>slot \<in> set (js_Slots r).
          (\<exists>node. isSlot (mget [] L node) \<and> slot_of L node = slot \<and> admits L candidate node)
          \<and> (\<forall>d \<in> set desired. slot \<notin> set (js_Slots (EffectiveJob d))))"
proof -
  obtain b n planned plan where h: "hold_desired L desired byNode nodeRes = (b, n, planned)"
    and p: "planPlacement Q b n L (planned @ [candidate]) False = Some plan"
    and s: "js_Slots r = candidate_slots L (length planned) (length (NodeShapes Q candidate)) plan"
      "[] \<notin> set (js_Slots r)"
    by (rule DesiredFits_True [OF fits]) (use onto in auto)
  let ?jobs = "planned @ [candidate]"
  have ok: "placement_ok Q b n L ?jobs False plan"
    by (rule planPlacement_ok [OF p wf_caps_hold_desired [OF h wf]])
  have j: "length planned < length ?jobs" "?jobs ! length planned = candidate" by simp_all
  have len: "length (js_Slots r) = length (NodeShapes Q candidate)"
    by (simp add: s candidate_slots_put length_put_slots)
  have each: "(\<exists>node. isSlot (mget [] L node) \<and> slot_of L node = slot \<and> admits L candidate node)
      \<and> (\<forall>d \<in> set desired. slot \<notin> set (js_Slots (EffectiveJob d)))" if slot: "slot \<in> set (js_Slots r)" for slot
  proof -
    obtain i where i: "i < length (NodeShapes Q candidate)" "slot = js_Slots r ! i"
      using slot len by (auto simp: in_set_conv_nth)
    obtain a where a: "a \<in> set plan" "ra_job a = length planned" "slot = slot_of L (ra_node a)"
      using nth_candidate_slots [OF ok j(1), of i] i s(1) j(2) by metis
    have sl: "isSlot (mget [] L (ra_node a))" using a(3) slot s(2) by (auto simp: isSlot_def)
    have "job_ok L False (?jobs ! length planned) (filter (\<lambda>a. ra_job a = length planned) plan)"
      using ok j(1) unfolding placement_ok_def by blast
    with a j(2) have "admits L candidate (ra_node a)" by (simp add: job_ok_def)
    with sl a(3) held_slot_untouched [OF h p a(1) sl] show ?thesis by blast
  qed
  have "distinct (js_Slots r)"
    by (rule candidate_slots_distinct [OF ok j(1) _ s(2) uniq]) (simp add: s(1))
  with len each show ?thesis by blast
qed

theorem DesiredFits_slots_witness:
  "\<exists>r. DesiredFits sample_Q sample_slotByNode sample_slotRes sample_slotLabels [sample_pinned] sample_exp sample_job
       = (True, r) \<and> js_Slots r = [''s2''] \<and> ''s2'' \<notin> set (js_Slots (EffectiveJob sample_pinned))"
proof -
  let ?d = "DesiredFits sample_Q sample_slotByNode sample_slotRes sample_slotLabels [sample_pinned] sample_exp sample_job"
  have f: "fst ?d \<and> js_Slots (snd ?d) = [''s2'']" by code_simp
  then obtain r where r: "?d = (True, r)" "js_Slots r = [''s2'']" by (cases ?d) auto
  have "wf_caps sample_slotRes" "slots_unique sample_slotLabels" by code_simp+
  moreover have "js_Slots r \<noteq> js_Slots sample_job" by (simp add: r(2) sample_job_def)
  ultimately have "\<forall>d \<in> set [sample_pinned]. ''s2'' \<notin> set (js_Slots (EffectiveJob d))"
    using DesiredFits_slots [OF r(1)] r(2) by simp
  with r show ?thesis by simp
qed

text \<open>HardestNodeShape names a node of the job that no other is harder than: none has more
  accelerators, and none with as many asks for more cpu, memory and storage in sum. It is the order
  the placement search places ranks in.\<close>

theorem HardestNodeShape_max:
  assumes "s \<in> set (NodeShapes Q e)"
  shows "HardestNodeShape Q e \<in> set (NodeShapes Q e) \<and> \<not> shape_before s (HardestNodeShape Q e)"
proof (cases "NodeShapes Q e")
  case (Cons h ss)
  with assms hardest_of_in [of h "shapeResourceTotal h" ss] hardest_of_max [OF refl, of s h ss]
  show ?thesis by (simp add: HardestNodeShape_def)
qed (use assms in simp)

theorem HardestNodeShape_max_witness:
  "HardestNodeShape sample_Q sample_two \<in> set (NodeShapes sample_Q sample_two)"
proof -
  have "NodeShapes sample_Q sample_two ! 0 \<in> set (NodeShapes sample_Q sample_two)" by code_simp
  from HardestNodeShape_max [OF this] show ?thesis by simp
qed

end
