(* ===== verification/Matching.thy ===== *)
theory Matching
  imports Reservation
begin

text \<open>
  The matching of SpreadHostsWhenIdle (placement/footprint.go): the nodes of a job that spreads
  over hosts, each given a host of its own with room for it, by augmenting paths.

  \<open>assign_hosts\<close> is the closure \<open>assign\<close> and its loop over the hosts.  The map
  \<open>seen\<close> is shared by the nested calls in Go, so it is returned; the map \<open>holder\<close> too.
\<close>

type_synonym holders = "(string, nat) gomap"

function assign_hosts :: "(nat \<Rightarrow> string \<Rightarrow> bool) \<Rightarrow> string list \<Rightarrow> string list \<Rightarrow> nat \<Rightarrow> string list \<Rightarrow> holders
    \<Rightarrow> bool \<times> string list \<times> holders" where
  "assign_hosts room hosts [] rank seen holder = (False, seen, holder)"
| "assign_hosts room hosts (host # rest) rank seen holder =
     (if host \<in> set seen \<or> \<not> room rank host then assign_hosts room hosts rest rank seen holder
      else case map_of holder host of
          None \<Rightarrow> (True, host # seen, mput host rank holder)
        | Some other \<Rightarrow>
            (case assign_hosts room hosts hosts other (host # seen) holder of
               (True, seen', holder') \<Rightarrow> (True, seen', mput host rank holder')
             | (False, seen', holder') \<Rightarrow> assign_hosts room hosts rest rank seen' holder'))"
  by pat_completeness auto

lemma assign_hosts_seen_dom:
  "assign_hosts_dom (room, hosts, hs, rank, seen, holder) \<Longrightarrow>
     set seen \<subseteq> set (fst (snd (assign_hosts room hosts hs rank seen holder)))"
proof (induction room hosts hs rank seen holder rule: assign_hosts.pinduct)
  case (1 room hosts rank seen holder)
  then show ?case by (simp add: assign_hosts.psimps)
next
  case (2 room hosts host rest rank seen holder)
  note step = assign_hosts.psimps(2) [OF "2.hyps"]
  show ?case
  proof (cases "host \<in> set seen \<or> \<not> room rank host")
    case True
    with "2.IH"(1) step show ?thesis by simp
  next
    case False
    show ?thesis
    proof (cases "map_of holder host")
      case None
      with False step show ?thesis by auto
    next
      case (Some other)
      obtain b seen' holder' where sub: "assign_hosts room hosts hosts other (host # seen) holder = (b, seen', holder')"
        by (metis prod_cases3)
      with "2.IH"(2) [OF False Some] have "set seen \<subseteq> set seen'" by simp
      moreover have "\<not> b \<Longrightarrow> set seen' \<subseteq> set (fst (snd (assign_hosts room hosts rest rank seen' holder')))"
        using "2.IH"(3) [OF False Some] sub by simp
      ultimately show ?thesis using False Some sub step by (cases b) auto
    qed
  qed
qed

termination assign_hosts
proof (relation "measures
    [\<lambda>(room, hosts, hs, rank, seen, holder). card (set hosts \<union> set hs - set seen),
     \<lambda>(room, hosts, hs, rank, seen, holder). length hs]", goal_cases)
  case 1
  show ?case by simp
next
  case (2 room hosts host rest rank seen holder)
  have "card (set hosts \<union> set rest - set seen) \<le> card (set hosts \<union> set (host # rest) - set seen)"
    by (rule card_mono) auto
  then show ?case by auto
next
  case (3 room hosts host rest rank seen holder other)
  have "card (set hosts \<union> set hosts - set (host # seen)) < card (set hosts \<union> set (host # rest) - set seen)"
    using 3 by (intro psubset_card_mono) auto
  then show ?case by auto
next
  case (4 room hosts host rest rank seen holder other b y seen' holder')
  have "set (host # seen) \<subseteq> set seen'"
    using assign_hosts_seen_dom [OF 4(6)] 4(3,5) by (metis fst_conv snd_conv)
  then have "card (set hosts \<union> set rest - set seen') \<le> card (set hosts \<union> set (host # rest) - set seen)"
    by (intro card_mono) auto
  then show ?case by auto
qed


definition SpreadHosts_step :: "(nat \<Rightarrow> string \<Rightarrow> bool) \<Rightarrow> string list \<Rightarrow> nat \<Rightarrow> int \<times> holders \<Rightarrow> int \<times> holders" where
  "SpreadHosts_step room hosts rank acc =
     (case acc of (held, holder) \<Rightarrow>
        case assign_hosts room hosts hosts rank [] holder of
          (ok, _, holder') \<Rightarrow> (if ok then held + 1 else held, holder'))"

definition SpreadHostsWhenIdle :: "quantity_lib \<Rightarrow> capmap \<Rightarrow> Experiment \<Rightarrow> int" where
  "SpreadHostsWhenIdle Q nodeTotals e =
     (let shapes = NodeShapes Q e;
          hosts = sort (keys nodeTotals);
          room = (\<lambda>rank host. NodeHasRoom (map_of nodeTotals host) (ns_Resources (shapes ! rank)))
      in fst (fold (SpreadHosts_step room hosts) [0..<length shapes] (0, [])))"

subsection \<open>A call that fails\<close>

text \<open>
  A failed call changes no holder.  Every host it saw is held, and every host with room for
  the rank, or for the holder of a host it saw, was seen.
\<close>

lemma assign_hosts_fails:
  "assign_hosts room hosts hs rank seen holder = (False, seen', holder') \<Longrightarrow>
     holder' = holder \<and> set seen \<subseteq> set seen' \<and> set seen' \<subseteq> set seen \<union> set hosts \<union> set hs
     \<and> (\<forall>h \<in> set hs. room rank h \<longrightarrow> h \<in> set seen')
     \<and> (\<forall>h \<in> set seen' - set seen. \<exists>other. map_of holder h = Some other
          \<and> (\<forall>h' \<in> set hosts. room other h' \<longrightarrow> h' \<in> set seen'))"
proof (induction room hosts hs rank seen holder arbitrary: seen' holder' rule: assign_hosts.induct)
  case (1 room hosts rank seen holder)
  then show ?case by auto
next
  case (2 room hosts host rest rank seen holder)
  show ?case
  proof (cases "host \<in> set seen \<or> \<not> room rank host")
    case True
    with "2.prems" have "assign_hosts room hosts rest rank seen holder = (False, seen', holder')" by simp
    from "2.IH"(1) [OF True this] True show ?thesis by auto
  next
    case False
    then obtain other where other: "map_of holder host = Some other"
      using "2.prems" by (auto split: option.splits)
    obtain b s1 h1 where sub: "assign_hosts room hosts hosts other (host # seen) holder = (b, s1, h1)"
      by (metis prod_cases3)
    have "\<not> b" and rest: "assign_hosts room hosts rest rank s1 h1 = (False, seen', holder')"
      using "2.prems" False other sub by (auto split: bool.splits)
    then have sub': "assign_hosts room hosts hosts other (host # seen) holder = (False, s1, h1)"
      using sub by simp
    note first = "2.IH"(2) [OF False other sub']
    have "holder' = h1 \<and> set s1 \<subseteq> set seen' \<and> set seen' \<subseteq> set s1 \<union> set hosts \<union> set rest
     \<and> (\<forall>h \<in> set rest. room rank h \<longrightarrow> h \<in> set seen')
     \<and> (\<forall>h \<in> set seen' - set s1. \<exists>other. map_of h1 h = Some other
          \<and> (\<forall>h' \<in> set hosts. room other h' \<longrightarrow> h' \<in> set seen'))"
      by (rule "2.IH"(3) [OF False other sub' [symmetric] refl refl rest])
    note second = this
    have old: "\<exists>other. map_of holder h = Some other \<and> (\<forall>h' \<in> set hosts. room other h' \<longrightarrow> h' \<in> set seen')"
      if "h \<in> set seen' - set seen" for h
    proof -
      consider "h = host" | "h \<in> set s1 - set (host # seen)" | "h \<in> set seen' - set s1"
        using \<open>h \<in> set seen' - set seen\<close> by auto
      then show ?thesis
      proof cases
        case 1
        with other first second show ?thesis by auto
      next
        case 2
        with first obtain o' where "map_of holder h = Some o'"
          "\<forall>h' \<in> set hosts. room o' h' \<longrightarrow> h' \<in> set s1" by blast
        with second show ?thesis by blast
      next
        case 3
        with first second show ?thesis by auto
      qed
    qed
    from first second old show ?thesis by auto
  qed
qed

subsection \<open>A call that succeeds\<close>

text \<open>The ranks held on hosts outside \<open>S\<close>, and that none of them is held twice there.\<close>

definition held_out :: "holders \<Rightarrow> string set \<Rightarrow> nat set" where
  "held_out holder S = {r. \<exists>h. h \<notin> S \<and> map_of holder h = Some r}"

definition inj_out :: "holders \<Rightarrow> string set \<Rightarrow> bool" where
  "inj_out holder S \<longleftrightarrow>
     (\<forall>h1 h2 r. h1 \<notin> S \<and> h2 \<notin> S \<and> map_of holder h1 = Some r \<and> map_of holder h2 = Some r \<longrightarrow> h1 = h2)"

lemma inj_outD: "inj_out m S \<Longrightarrow> h1 \<notin> S \<Longrightarrow> h2 \<notin> S \<Longrightarrow> map_of m h1 = Some r \<Longrightarrow> map_of m h2 = Some r \<Longrightarrow> h1 = h2"
  by (auto simp: inj_out_def)

lemma inj_out_mono: "inj_out m S \<Longrightarrow> S \<subseteq> T \<Longrightarrow> inj_out m T"
  by (auto simp: inj_out_def)

lemma held_out_mono: "S \<subseteq> T \<Longrightarrow> held_out m T \<subseteq> held_out m S"
  by (auto simp: held_out_def)

lemma inj_out_mput:
  assumes "inj_out m (insert h S)" and "r \<notin> held_out m (insert h S)"
  shows "inj_out (mput h r m) S"
  using assms by (auto simp: inj_out_def held_out_def)

lemma held_out_mput: "h \<notin> S \<Longrightarrow> held_out (mput h r m) S = insert r (held_out m (insert h S))"
  by (auto simp: held_out_def)

lemma held_out_remove:
  assumes "inj_out m S" and "h \<notin> S" and "map_of m h = Some r"
  shows "r \<notin> held_out m (insert h S)" and "insert r (held_out m (insert h S)) = held_out m S"
  using assms by (auto simp: held_out_def inj_out_def) (metis option.inject)

text \<open>Hosts that were seen and left alone between \<open>S\<close> and \<open>T\<close> are put back into view.\<close>

lemma out_widen:
  assumes "S \<subseteq> T" and same: "\<And>h. h \<in> T \<Longrightarrow> map_of m' h = map_of m h"
    and m: "inj_out m S" "r \<notin> held_out m S"
    and m': "inj_out m' T" "held_out m' T = insert r (held_out m T)"
  shows "inj_out m' S" and "held_out m' S = insert r (held_out m S)"
proof -
  have split: "held_out x S = held_out x T \<union> {r. \<exists>h \<in> T - S. map_of x h = Some r}" for x
    using assms(1) by (auto simp: held_out_def)
  have seen: "{r. \<exists>h \<in> T - S. map_of m' h = Some r} = {r. \<exists>h \<in> T - S. map_of m h = Some r}"
    using same by auto
  show "held_out m' S = insert r (held_out m S)"
    unfolding split [of m'] split [of m] seen m'(2) by auto
  show "inj_out m' S"
    unfolding inj_out_def
  proof (intro allI impI, elim conjE)
    fix h1 h2 q
    assume h: "h1 \<notin> S" "h2 \<notin> S" "map_of m' h1 = Some q" "map_of m' h2 = Some q"
    have cross: "False" if "a \<in> T" "a \<notin> S" "b \<notin> T" "map_of m' a = Some q" "map_of m' b = Some q" for a b
    proof -
      have a: "map_of m a = Some q" using same that by auto
      then have "q \<in> held_out m S" using that(2) by (auto simp: held_out_def)
      then have "q \<noteq> r" using m(2) by auto
      moreover have "q \<in> held_out m' T" using that by (auto simp: held_out_def)
      ultimately obtain b' where "b' \<notin> T" "map_of m b' = Some q" using m'(2) by (auto simp: held_out_def)
      with inj_outD [OF m(1) that(2) _ a, of b'] assms(1) that(1) show False by auto
    qed
    show "h1 = h2"
    proof (cases "h1 \<in> T"; cases "h2 \<in> T")
      assume "h1 \<in> T" "h2 \<in> T"
      with h same show ?thesis by (intro inj_outD [OF m(1) h(1,2)]) auto
    next
      assume "h1 \<notin> T" "h2 \<notin> T"
      with h show ?thesis by (intro inj_outD [OF m'(1)]) auto
    qed (use h cross in blast)+
  qed
qed

lemma assign_hosts_succeeds:
  "assign_hosts room hosts hs rank seen holder = (True, seen', holder') \<Longrightarrow>
     inj_out holder (set seen) \<Longrightarrow> rank \<notin> held_out holder (set seen) \<Longrightarrow>
     (\<forall>h \<in> set seen. map_of holder' h = map_of holder h)
     \<and> inj_out holder' (set seen)
     \<and> held_out holder' (set seen) = insert rank (held_out holder (set seen))
     \<and> (\<forall>h r. map_of holder' h = Some r \<longrightarrow>
          map_of holder h = Some r \<or> (room r h \<and> h \<in> set hosts \<union> set hs))"
proof (induction room hosts hs rank seen holder arbitrary: seen' holder' rule: assign_hosts.induct)
  case (2 room hosts host rest rank seen holder)
  show ?case
  proof (cases "host \<in> set seen \<or> \<not> room rank host")
    case True
    with "2.prems"(1) have "assign_hosts room hosts rest rank seen holder = (True, seen', holder')" by simp
    from "2.IH"(1) [OF True this "2.prems"(2,3)] show ?thesis by auto
  next
    case False
    show ?thesis
    proof (cases "map_of holder host")
      case None
      with False "2.prems"(1) have h': "holder' = mput host rank holder" by simp
      have "held_out holder (insert host (set seen)) = held_out holder (set seen)"
        using None by (auto simp: held_out_def) (metis option.distinct(1))
      moreover have "inj_out holder (insert host (set seen))"
        using "2.prems"(2) by (rule inj_out_mono) auto
      ultimately show ?thesis
        using False "2.prems"(3) unfolding h' by (auto intro: inj_out_mput simp: held_out_mput)
    next
      case (Some other)
      obtain b s1 h1 where sub: "assign_hosts room hosts hosts other (host # seen) holder = (b, s1, h1)"
        by (metis prod_cases3)
      have new: "host \<notin> set seen" using False by simp
      note rem = held_out_remove [OF "2.prems"(2) new Some]
      have inj1: "inj_out holder (set (host # seen))"
        using "2.prems"(2) by (rule inj_out_mono) auto
      show ?thesis
      proof (cases b)
        case True
        with sub have sub': "assign_hosts room hosts hosts other (host # seen) holder = (True, s1, h1)" by simp
        have "other \<notin> held_out holder (set (host # seen))" using rem(1) by simp
        note IH = "2.IH"(2) [OF False Some sub' inj1 this]
        from False Some sub' "2.prems"(1) have h': "holder' = mput host rank h1" by simp
        have held: "held_out h1 (insert host (set seen)) = held_out holder (set seen)"
          using IH rem(2) by simp
        have "inj_out holder' (set seen)"
          unfolding h' using IH held "2.prems"(3) by (intro inj_out_mput) simp_all
        moreover have "held_out holder' (set seen) = insert rank (held_out holder (set seen))"
          unfolding h' by (simp add: held_out_mput [OF new] held)
        moreover have "\<forall>h \<in> set seen. map_of holder' h = map_of holder h"
          unfolding h' using IH new by auto
        moreover have "\<forall>h r. map_of holder' h = Some r \<longrightarrow>
            map_of holder h = Some r \<or> (room r h \<and> h \<in> set hosts \<union> set (host # rest))"
          unfolding h' using IH False by auto
        ultimately show ?thesis by blast
      next
        case False': False
        with sub have sub': "assign_hosts room hosts hosts other (host # seen) holder = (False, s1, h1)" by simp
        note fail = assign_hosts_fails [OF this]
        then have h1: "h1 = holder" and le: "set seen \<subseteq> set s1" by auto
        have rest: "assign_hosts room hosts rest rank s1 h1 = (True, seen', holder')"
          using False Some sub' "2.prems"(1) by simp
        have "inj_out h1 (set s1)" "rank \<notin> held_out h1 (set s1)"
          using "2.prems"(2,3) inj_out_mono [OF _ le] held_out_mono [OF le] unfolding h1 by blast+
        note IH = "2.IH"(3) [OF False Some sub' [symmetric] refl refl rest this, unfolded h1]
        from out_widen [OF le _ "2.prems"(2,3), of holder'] IH le show ?thesis by auto
      qed
    qed
  qed
qed simp

subsection \<open>The matching\<close>

text \<open>A host of its own, with room, for each of the ranks \<open>R\<close>.\<close>

definition spread_on :: "(nat \<Rightarrow> string \<Rightarrow> bool) \<Rightarrow> string list \<Rightarrow> nat set \<Rightarrow> (nat \<Rightarrow> string) \<Rightarrow> bool" where
  "spread_on room hosts R f \<longleftrightarrow> inj_on f R \<and> (\<forall>r \<in> R. f r \<in> set hosts \<and> room r (f r))"

definition matching :: "(nat \<Rightarrow> string \<Rightarrow> bool) \<Rightarrow> string list \<Rightarrow> holders \<Rightarrow> bool" where
  "matching room hosts holder \<longleftrightarrow>
     inj_out holder {} \<and> (\<forall>h r. map_of holder h = Some r \<longrightarrow> room r h \<and> h \<in> set hosts)"

text \<open>
  Hall's argument: the hosts a failed call saw are each held by another rank, and with the
  failed one those ranks are more than the hosts that have room for any of them.
\<close>

lemma assign_hosts_must_succeed:
  assumes m: "matching room hosts holder" and f: "spread_on room hosts R f"
    and rank: "rank \<in> R" "rank \<notin> held_out holder {}" and held: "held_out holder {} \<subseteq> R"
  shows "fst (assign_hosts room hosts hosts rank [] holder)"
proof (rule ccontr)
  assume "\<not> ?thesis"
  then obtain S h' where "assign_hosts room hosts hosts rank [] holder = (False, S, h')"
    by (metis prod_cases3 fst_conv)
  note fail = assign_hosts_fails [OF this]
  define by_host where "by_host h = the (map_of holder h)" for h
  have own: "map_of holder h = Some (by_host h)" if "h \<in> set S" for h
    using fail that by (force simp: by_host_def)
  have inj: "inj_on by_host (set S)"
    using m own by (auto simp: inj_on_def matching_def inj_out_def)
  let ?R = "insert rank (by_host ` set S)"
  have "by_host ` set S \<subseteq> held_out holder {}"
    using own by (auto simp: held_out_def)
  then have sub: "?R \<subseteq> R" and new: "rank \<notin> by_host ` set S" using rank held by auto
  have "f ` ?R \<subseteq> set S"
  proof
    fix h assume "h \<in> f ` ?R"
    then obtain r where r: "r \<in> ?R" "h = f r" by blast
    with f sub have "f r \<in> set hosts" "room r (f r)" by (auto simp: spread_on_def)
    moreover have "\<forall>h \<in> set hosts. room r h \<longrightarrow> h \<in> set S" if "r = by_host s" "s \<in> set S" for s
      using fail own [OF that(2)] that by fastforce
    ultimately show "h \<in> set S" using r fail by auto
  qed
  then have "card (f ` ?R) \<le> card (set S)" by (intro card_mono) auto
  moreover have "inj_on f ?R"
    by (rule inj_on_subset [OF _ sub]) (use f in \<open>simp add: spread_on_def\<close>)
  then have "card (f ` ?R) = card ?R" by (rule card_image)
  moreover have "card ?R = Suc (card (set S))" using new inj by (simp add: card_image)
  ultimately show False by simp
qed

lemma SpreadHosts_invariant:
  assumes "distinct ranks"
  shows "matching room hosts (snd (fold (SpreadHosts_step room hosts) ranks (0, [])))
     \<and> held_out (snd (fold (SpreadHosts_step room hosts) ranks (0, []))) {} \<subseteq> set ranks
     \<and> fst (fold (SpreadHosts_step room hosts) ranks (0, [])) =
         int (card (held_out (snd (fold (SpreadHosts_step room hosts) ranks (0, []))) {}))
     \<and> (\<forall>R f. set ranks \<subseteq> R \<and> spread_on room hosts R f \<longrightarrow>
          held_out (snd (fold (SpreadHosts_step room hosts) ranks (0, []))) {} = set ranks)"
  using assms
proof (induction ranks rule: rev_induct)
  case Nil
  then show ?case by (simp add: matching_def inj_out_def held_out_def)
next
  case (snoc rank ranks)
  obtain held holder where st: "fold (SpreadHosts_step room hosts) ranks (0, []) = (held, holder)" by force
  note IH = snoc.IH [unfolded st] and new = snoc.prems
  have m: "matching room hosts holder" and sub: "held_out holder {} \<subseteq> set ranks"
    and held: "held = int (card (held_out holder {}))" using IH new by auto
  have fresh: "rank \<notin> held_out holder {}" using sub new by auto
  obtain ok s holder' where call: "assign_hosts room hosts hosts rank [] holder = (ok, s, holder')"
    by (metis prod_cases3)
  have step: "fold (SpreadHosts_step room hosts) (ranks @ [rank]) (0, []) =
      (if ok then held + 1 else held, holder')"
    by (simp add: st SpreadHosts_step_def call)
  show ?case
  proof (cases ok)
    case False
    with call have "assign_hosts room hosts hosts rank [] holder = (False, s, holder')" by simp
    then have "holder' = holder" using assign_hosts_fails by blast
    moreover have False if "set (ranks @ [rank]) \<subseteq> R" "spread_on room hosts R f" for R f
      using assign_hosts_must_succeed [OF m that(2) _ fresh] that(1) sub call False by auto
    ultimately show ?thesis using m sub held step False by auto
  next
    case True
    with call have ok': "assign_hosts room hosts hosts rank [] holder = (True, s, holder')" by simp
    have "inj_out holder (set [])" using m by (simp add: matching_def)
    note succ = assign_hosts_succeeds [OF ok' this, simplified, OF fresh]
    have "matching room hosts holder'" using m succ unfolding matching_def by blast
    moreover have "finite (held_out holder {})" using sub by (rule finite_subset) simp
    moreover have "held_out holder {} = set ranks" if "set (ranks @ [rank]) \<subseteq> R" "spread_on room hosts R f" for R f
      using IH new that by auto
    ultimately show ?thesis using succ sub held fresh step True by auto
  qed
qed

lemma SpreadHosts_perfect:
  "fst (fold (SpreadHosts_step room hosts) [0..<n] (0, [])) = int n \<longleftrightarrow>
     (\<exists>f. spread_on room hosts {..<n} f)"
    (is "?l = ?r")
proof
  define holder where "holder = snd (fold (SpreadHosts_step room hosts) [0..<n] (0, []))"
  have inv: "matching room hosts holder" "held_out holder {} \<subseteq> {..<n}"
    "fst (fold (SpreadHosts_step room hosts) [0..<n] (0, [])) = int (card (held_out holder {}))"
    "\<And>R f. {..<n} \<subseteq> R \<and> spread_on room hosts R f \<Longrightarrow> held_out holder {} = {..<n}"
    using SpreadHosts_invariant [of "[0..<n]" room hosts]
    by (auto simp: holder_def lessThan_atLeast0)
  show ?r if ?l
  proof -
    have "held_out holder {} = {..<n}"
      using inv that by (intro card_subset_eq) auto
    then have "\<forall>r \<in> {..<n}. \<exists>h. map_of holder h = Some r" by (auto simp: held_out_def)
    then obtain f where f: "\<forall>r \<in> {..<n}. map_of holder (f r) = Some r" by metis
    then have "inj_on f {..<n}" by (metis inj_onI option.inject)
    with f inv(1) have "spread_on room hosts {..<n} f" by (auto simp: spread_on_def matching_def)
    then show ?thesis by (rule exI [of _ f])
  qed
  show ?l if ?r
  proof -
    from that obtain f where "spread_on room hosts {..<n} f" ..
    with inv(4) have "held_out holder {} = {..<n}" by blast
    with inv(3) show ?thesis by simp
  qed
qed

lemma SpreadHostsWhenIdle_perfect:
  "SpreadHostsWhenIdle Q nodeTotals e = int (length (NodeShapes Q e)) \<longleftrightarrow>
     (\<exists>f. inj_on f {..<length (NodeShapes Q e)} \<and> (\<forall>r < length (NodeShapes Q e).
        f r \<in> set (keys nodeTotals)
        \<and> NodeHasRoom (map_of nodeTotals (f r)) (ns_Resources (NodeShapes Q e ! r))))"
  by (simp add: SpreadHostsWhenIdle_def Let_def SpreadHosts_perfect) (auto simp: spread_on_def)

end
