(* ===== verification/Footprints.thy ===== *)
theory Footprints
  imports Matching
begin

text \<open>
  Footprint arithmetic and what an idle cluster holds (placement/footprint.go): whether a
  cluster with nothing running on it could take a job, what a job that does not fit is short
  of, and which accelerator types admission tries.
\<close>

subsection \<open>Accelerator types to try\<close>

fun distinct_types :: "AcceleratorType list \<Rightarrow> AcceleratorType list \<Rightarrow> AcceleratorType list" where
  "distinct_types seen [] = []"
| "distinct_types seen (t # ts) =
     (if t \<in> set seen then distinct_types seen ts else t # distinct_types (t # seen) ts)"

definition CandidateTypes :: "Experiment \<Rightarrow> AcceleratorType list" where
  "CandidateTypes e =
     (if js_AcceleratorType (ex_Job e) = [] then []
      else if ex_RanOnAcceleratorType e \<noteq> [] then [ex_RanOnAcceleratorType e]
      else js_AcceleratorType (ex_Job e) #
        distinct_types [js_AcceleratorType (ex_Job e)] (js_AcceptableAcceleratorTypes (ex_Job e)))"

text \<open>The types a job is judged at: its own where it names none.\<close>

definition judged_types :: "Experiment \<Rightarrow> AcceleratorType list" where
  "judged_types e = (if CandidateTypes e = [] then [ex_AcceleratorType e] else CandidateTypes e)"

definition fitsInstalled :: "quantity_lib \<Rightarrow> Footprint \<Rightarrow> Experiment \<Rightarrow> bool" where
  "fitsInstalled Q totalFP e =
     list_ex (\<lambda>t. Fits totalFP (exp_Footprint Q (e\<lparr>ex_AcceleratorType := t\<rparr>))) (judged_types e)"

subsection \<open>Idle clusters\<close>

definition fitsIdleNodes :: "quantity_lib \<Rightarrow> capmap \<Rightarrow> Experiment \<Rightarrow> bool" where
  "fitsIdleNodes Q nodeTotals e =
     (if RequiresDistinctHosts e
      then SpreadHostsWhenIdle Q nodeTotals e = int (length (NodeShapes Q e))
      else list_all (\<lambda>shape. list_ex (\<lambda>(_, node). NodeHasRoom (Some node) (ns_Resources shape)) nodeTotals)
        (NodeShapes Q e))"

definition idlePlaces :: "capmap \<Rightarrow> labelmap \<Rightarrow> NodesLevel \<Rightarrow> capmap list" where
  "idlePlaces nodeTotals labelsByNode level =
     map snd (fold (\<lambda>(node, totals) byPlace.
         case nearness labelsByNode node level (labelledLevels labelsByNode) of
           None \<Rightarrow> byPlace
         | Some place \<Rightarrow>
             mput (placeKey place) (mput node totals (mget [] byPlace (placeKey place))) byPlace)
       nodeTotals [])"

definition FitsWhenIdle :: "quantity_lib \<Rightarrow> Footprint \<Rightarrow> capmap \<Rightarrow> labelmap \<Rightarrow> Experiment \<Rightarrow> bool" where
  "FitsWhenIdle Q totalFP nodeTotals labelsByNode e =
     (if \<not> fitsInstalled Q totalFP e then False
      else if nodeTotals = [] then True
      else
        let level = NodesWithin (EffectiveJob e)
        in if level = [] then fitsIdleNodes Q nodeTotals e
           else list_ex (\<lambda>nodes. fitsIdleNodes Q nodes e) (idlePlaces nodeTotals labelsByNode level))"

definition FitsWhenIdleOnlyApart :: "quantity_lib \<Rightarrow> Footprint \<Rightarrow> capmap \<Rightarrow> labelmap \<Rightarrow> Experiment \<Rightarrow> bool" where
  "FitsWhenIdleOnlyApart Q totalFP nodeTotals labelsByNode e \<longleftrightarrow>
     fitsInstalled Q totalFP e \<and> nodeTotals \<noteq> [] \<and> fitsIdleNodes Q nodeTotals e
     \<and> \<not> FitsWhenIdle Q totalFP nodeTotals labelsByNode e"

text \<open>
  The place a job waits in for nodes an autoscaler adds; the answer's \<open>None\<close> is Go's
  \<open>ok = false\<close>.
\<close>

definition scale_up_tally :: "labelmap \<Rightarrow> Experiment \<Rightarrow> (string, labels) gomap \<times> (string, int) gomap" where
  "scale_up_tally labelsByNode e =
     fold (\<lambda>(node, lab) (places, runs).
        case nearness labelsByNode node (NodesWithin (EffectiveJob e)) (labelledLevels labelsByNode) of
          None \<Rightarrow> (places, runs)
        | Some here \<Rightarrow>
            (mput (placeKey here) here places, if RunsOn lab e then madd (placeKey here) 1 runs else runs))
      labelsByNode ([], [])"

fun best_key :: "(string, int) gomap \<Rightarrow> string \<Rightarrow> string list \<Rightarrow> string" where
  "best_key runs best [] = best"
| "best_key runs best (key # ks) = best_key runs (if geti runs key > geti runs best then key else best) ks"

definition ScaleUpPlace :: "labelmap \<Rightarrow> Experiment \<Rightarrow> labels option" where
  "ScaleUpPlace labelsByNode e =
     (let level = NodesWithin (EffectiveJob e)
      in if level = [] then Some []
         else if level = NodesWithinPlacementGroup then None
         else case scale_up_tally labelsByNode e of (places, runs) \<Rightarrow>
           (case sort (keys places) of
              [] \<Rightarrow> if labelsByNode = [] then Some [] else None
            | key # ks \<Rightarrow> Some (mget [] places (best_key runs key ks))))"

subsection \<open>Shortfalls\<close>

definition CloneAvail :: "(string, Footprint) gomap \<Rightarrow> (string, Footprint) gomap" where
  "CloneAvail avail = map (\<lambda>(cluster, fp). (cluster, map (\<lambda>(key, value). (key, value)) fp)) avail"

definition SubtractFootprint :: "Footprint option \<Rightarrow> Footprint \<Rightarrow> Footprint option" where
  "SubtractFootprint avail fp =
     (case avail of
        None \<Rightarrow> None
      | Some a \<Rightarrow> Some (fold (\<lambda>(k, v) a. mput k (if geti a k - v < 0 then 0 else geti a k - v) a) fp a))"

definition Shortfall :: "Footprint \<Rightarrow> Footprint \<Rightarrow> Footprint" where
  "Shortfall avail footprint =
     fold (\<lambda>(k, need) out. if geti avail k < need then fp_Add out k (need - geti avail k) else out)
       footprint NewFootprint"

definition roomFor :: "Footprint \<Rightarrow> Footprint \<Rightarrow> int" where
  "roomFor free footprint =
     max (fold (\<lambda>(key, need) room.
           if need \<le> 0 then room
           else let n = go_div (geti free key) need in if room < 0 \<or> n < room then n else room)
         footprint (-1)) 0"

definition ReportsEveryDimension :: "Footprint \<Rightarrow> Footprint \<Rightarrow> bool" where
  "ReportsEveryDimension capacity footprint =
     list_all (\<lambda>(key, need). need \<le> 0 \<or> map_of capacity key \<noteq> None) footprint"

text \<open>What a node lacks for a shape, dimension by dimension.\<close>

definition node_deficit :: "amounts \<Rightarrow> NodeShape \<Rightarrow> amounts" where
  "node_deficit free shape =
     List.map_filter (\<lambda>(resource, need).
       let short = need - geti free resource in if short > 0 then Some (resource, short) else None)
      (ns_Resources shape)"

text \<open>
  The walk over the nodes for one rank: the node it lands on, "" for none, and what the
  least deficient node lacks.
\<close>

fun shortfall_scan :: "labelmap \<Rightarrow> Experiment \<Rightarrow> NodeShape \<Rightarrow> capmap \<Rightarrow> capmap \<Rightarrow> string list \<Rightarrow>
    (amounts \<times> int) option \<Rightarrow> string list \<Rightarrow> string \<times> amounts" where
  "shortfall_scan L e shape accelerators resources occupied best [] =
     ([], case best of None \<Rightarrow> [] | Some (deficit, _) \<Rightarrow> deficit)"
| "shortfall_scan L e shape accelerators resources occupied best (node # nodes) =
     (if \<not> RunsOn (mget [] L node) e
         \<or> (RequiresDistinctHosts e \<and> node \<in> set occupied)
         \<or> (ns_AcceleratorCount shape > 0
            \<and> geti (mget [] accelerators node) (AcceleratorKey (ex_AcceleratorType e)) < ns_AcceleratorCount shape)
      then shortfall_scan L e shape accelerators resources occupied best nodes
      else
        let deficit = node_deficit (mget [] resources node) shape;
            lack = sum_list (map snd deficit)
        in if lack = 0 then (node, case best of None \<Rightarrow> [] | Some (d, _) \<Rightarrow> d)
           else shortfall_scan L e shape accelerators resources occupied
             (case best of None \<Rightarrow> Some (deficit, lack)
              | Some (_, bestTotal) \<Rightarrow> if lack < bestTotal then Some (deficit, lack) else best) nodes)"

definition raise_to :: "ResourceKey \<Rightarrow> int \<Rightarrow> Footprint \<Rightarrow> Footprint" where
  "raise_to k short out = (if geti out k < short then mput k short out else out)"

fun shortfall_walk :: "labelmap \<Rightarrow> Experiment \<Rightarrow> string list \<Rightarrow> NodeShape list \<Rightarrow> capmap \<Rightarrow> capmap \<Rightarrow> string list
    \<Rightarrow> Footprint \<Rightarrow> Footprint" where
  "shortfall_walk L e nodes [] accelerators resources occupied out = out"
| "shortfall_walk L e nodes (shape # shapes) accelerators resources occupied out =
     (case shortfall_scan L e shape accelerators resources occupied None nodes of
        (placed, deficit) \<Rightarrow>
          if placed \<noteq> [] then
            shortfall_walk L e nodes shapes
              (if ns_AcceleratorCount shape > 0
               then cap_upd accelerators placed
                 (madd (AcceleratorKey (ex_AcceleratorType e)) (- ns_AcceleratorCount shape))
               else accelerators)
              (cap_upd resources placed (\<lambda>c. subtractNodeResources c (ns_Resources shape)))
              (placed # occupied) out
          else fold (\<lambda>(resource, short) out.
              case NodeResourceKind resource of None \<Rightarrow> out | Some kind \<Rightarrow> raise_to (ResourceKey kind []) short out)
            deficit out)"

definition addNodeResourceShortfall :: "quantity_lib \<Rightarrow> Footprint \<Rightarrow> capmap \<Rightarrow> capmap \<Rightarrow> labelmap \<Rightarrow> Experiment \<Rightarrow> Footprint" where
  "addNodeResourceShortfall Q out byNode nodeRes labelsByNode e =
     (if NodeShapes Q e = [] then out
      else shortfall_walk labelsByNode e (sort (keys (CloneNodes nodeRes)))
        (sort_slice shape_before (NodeShapes Q e)) (CloneNodes byNode) (CloneNodes nodeRes) [] out)"

text \<open>Accelerators missing when each rank has a host of its own, and when ranks may share.\<close>

definition spread_missing :: "int list \<Rightarrow> int list \<Rightarrow> int" where
  "spread_missing capacities perRank =
     sum_list (map (\<lambda>(rank, need).
       let available = (if rank < length capacities then capacities ! rank else 0)
       in if available < need then need - available else 0) (enumerate 0 perRank))"

fun stacked_missing :: "int list \<Rightarrow> int list \<Rightarrow> int" where
  "stacked_missing capacities [] = 0"
| "stacked_missing capacities (need # rest) =
     (case rev (sort capacities) of
        [] \<Rightarrow> need + stacked_missing [] rest
      | c # cs \<Rightarrow> if c < need then (need - c) + stacked_missing (0 # cs) rest
                  else stacked_missing ((c - need) # cs) rest)"

definition PreemptionShortfall :: "quantity_lib \<Rightarrow> Footprint \<Rightarrow> capmap \<Rightarrow> capmap \<Rightarrow> labelmap \<Rightarrow> Experiment \<Rightarrow> Footprint
    \<Rightarrow> Footprint" where
  "PreemptionShortfall Q clusterAvail byNode nodeRes labelsByNode e footprint =
     (let out = addNodeResourceShortfall Q (Shortfall clusterAvail footprint) byNode nodeRes labelsByNode e
      in if TotalAccelerators (ex_Job e) \<le> 0 then out
         else
           let key = AcceleratorKey (ex_AcceleratorType e);
               capacities = rev (sort (map (\<lambda>(_, capacity). geti capacity key)
                 (filter (\<lambda>(node, _). RunsOn (mget [] labelsByNode node) e) byNode)));
               perRank = rev (sort (filter (\<lambda>n. n > 0) (map ns_AcceleratorCount (NodeShapes Q e))));
               missing = (if RequiresDistinctHosts e then spread_missing capacities perRank
                          else stacked_missing capacities perRank)
           in raise_to (ResourceKey ResourceKindAccelerator key) missing out)"

subsection \<open>Lemmas on idle clusters\<close>

text \<open>A node for every rank of a job, each with room for it, distinct when the job spreads.\<close>

definition hosted :: "quantity_lib \<Rightarrow> capmap \<Rightarrow> Experiment \<Rightarrow> (nat \<Rightarrow> string) \<Rightarrow> bool" where
  "hosted Q nodeTotals e f \<longleftrightarrow>
     (RequiresDistinctHosts e \<longrightarrow> inj_on f {..<length (NodeShapes Q e)})
     \<and> (\<forall>r < length (NodeShapes Q e). f r \<in> set (keys nodeTotals)
          \<and> NodeHasRoom (map_of nodeTotals (f r)) (ns_Resources (NodeShapes Q e ! r)))"

lemma node_with_room:
  assumes "wf_map m"
  shows "list_ex (\<lambda>(_, node). NodeHasRoom (Some node) need) m \<longleftrightarrow>
     (\<exists>n \<in> set (keys m). NodeHasRoom (map_of m n) need)"
  using assms by (force simp: list_ex_iff keys_def wf_map_def)

lemma fitsIdleNodes_iff:
  assumes "wf_map nodeTotals"
  shows "fitsIdleNodes Q nodeTotals e \<longleftrightarrow> (\<exists>f. hosted Q nodeTotals e f)"
proof (cases "RequiresDistinctHosts e")
  case True
  then show ?thesis by (simp add: fitsIdleNodes_def hosted_def SpreadHostsWhenIdle_perfect)
next
  case False
  have "fitsIdleNodes Q nodeTotals e \<longleftrightarrow>
      (\<forall>r < length (NodeShapes Q e). \<exists>n \<in> set (keys nodeTotals).
         NodeHasRoom (map_of nodeTotals n) (ns_Resources (NodeShapes Q e ! r)))"
    using False by (simp add: fitsIdleNodes_def node_with_room [OF assms] list_all_length)
  also have "\<dots> \<longleftrightarrow> (\<exists>f. hosted Q nodeTotals e f)"
    using False by (simp add: hosted_def) metis
  finally show ?thesis .
qed

text \<open>The nodes of one place, as idlePlaces groups them.\<close>

definition place_nodes :: "capmap \<Rightarrow> labelmap \<Rightarrow> NodesLevel \<Rightarrow> string \<Rightarrow> string \<Rightarrow> bool" where
  "place_nodes nodeTotals L level key node \<longleftrightarrow> node \<in> set (keys nodeTotals)
     \<and> (\<exists>place. nearness L node level (labelledLevels L) = Some place \<and> placeKey place = key)"

definition by_place :: "labelmap \<Rightarrow> NodesLevel \<Rightarrow> capmap \<Rightarrow> (string, capmap) gomap \<Rightarrow> (string, capmap) gomap" where
  "by_place L level nodeTotals acc =
     fold (\<lambda>(node, totals) byPlace.
         case nearness L node level (labelledLevels L) of
           None \<Rightarrow> byPlace
         | Some place \<Rightarrow>
             mput (placeKey place) (mput node totals (mget [] byPlace (placeKey place))) byPlace)
       nodeTotals acc"

lemma wf_by_place:
  "wf_map acc \<Longrightarrow> (\<And>k. wf_map (mget [] acc k)) \<Longrightarrow>
     wf_map (by_place L level nt acc) \<and> wf_map (mget [] (by_place L level nt acc) k)"
proof (induction nt arbitrary: acc)
  case (Cons x nt)
  then show ?case by (cases x) (auto simp: by_place_def split: option.split)
qed (simp add: by_place_def)

lemma keys_by_place:
  "set (keys (by_place L level nt acc)) =
     set (keys acc) \<union> {key. \<exists>node. place_nodes nt L level key node}"
proof (induction nt arbitrary: acc)
  case (Cons x nt)
  obtain node t where x: "x = (node, t)" by force
  have pn: "place_nodes (x # nt) L level key n \<longleftrightarrow> place_nodes nt L level key n \<or>
     (n = node \<and> (\<exists>place. nearness L node level (labelledLevels L) = Some place \<and> placeKey place = key))" for key n
    by (auto simp: place_nodes_def x keys_def)
  show ?case
  proof (cases "nearness L node level (labelledLevels L)")
    case None
    then have "by_place L level (x # nt) acc = by_place L level nt acc" by (simp add: by_place_def x)
    with Cons.IH None show ?thesis by (simp add: pn)
  next
    case (Some place)
    then have "by_place L level (x # nt) acc =
        by_place L level nt (mput (placeKey place) (mput node t (mget [] acc (placeKey place))) acc)"
      by (simp add: by_place_def x)
    with Cons.IH Some show ?thesis by (auto simp: pn)
  qed
qed (simp add: by_place_def place_nodes_def [abs_def])

lemma map_of_by_place:
  "wf_map nt \<Longrightarrow> map_of (mget [] (by_place L level nt acc) key) node =
     (if place_nodes nt L level key node then map_of nt node else map_of (mget [] acc key) node)"
proof (induction nt arbitrary: acc)
  case Nil
  then show ?case by (simp add: by_place_def place_nodes_def)
next
  case (Cons x nt)
  obtain n t where x: "x = (n, t)" by force
  have wf: "wf_map nt" and new: "n \<notin> set (keys nt)" using Cons.prems by (auto simp: wf_map_def x keys_def)
  have same: "place_nodes (x # nt) L level key node \<longleftrightarrow> place_nodes nt L level key node \<or>
     (node = n \<and> (\<exists>place. nearness L n level (labelledLevels L) = Some place \<and> placeKey place = key))"
    by (auto simp: place_nodes_def x keys_def)
  have gone: "\<not> place_nodes nt L level key n" using new by (simp add: place_nodes_def)
  show ?case
  proof (cases "nearness L n level (labelledLevels L)")
    case None
    then have "by_place L level (x # nt) acc = by_place L level nt acc" by (simp add: by_place_def x)
    with Cons.IH [OF wf, of acc] same None gone show ?thesis by (auto simp: x)
  next
    case (Some place)
    then have "by_place L level (x # nt) acc =
        by_place L level nt (mput (placeKey place) (mput n t (mget [] acc (placeKey place))) acc)"
      by (simp add: by_place_def x)
    with Cons.IH [OF wf, of "mput (placeKey place) (mput n t (mget [] acc (placeKey place))) acc"] same Some gone
    show ?thesis by (auto simp: x)
  qed
qed

lemma set_values:
  assumes "wf_map m"
  shows "set (map snd m) = {mget d m key | key. key \<in> set (keys m)}"
proof -
  have "mget d m k = v \<and> k \<in> set (keys m)" if "(k, v) \<in> set m" for k v
    using mget_in [OF assms that] that by (force simp: keys_def)
  moreover have "mget d m k \<in> snd ` set m" if "k \<in> set (keys m)" for k
    using mget_entry [OF that, of d] by force
  ultimately show ?thesis by fastforce
qed

lemma set_idlePlaces:
  assumes "wf_map nt"
  shows "set (idlePlaces nt L level) =
     {mget [] (by_place L level nt []) key | key. \<exists>node. place_nodes nt L level key node}"
proof -
  let ?m = "by_place L level nt []"
  have "wf_map ?m" using wf_by_place [of "[]"] by simp
  then have "set (map snd ?m) = {mget [] ?m key | key. key \<in> set (keys ?m)}" by (rule set_values)
  then show ?thesis by (simp add: keys_by_place idlePlaces_def by_place_def [symmetric])
qed

lemma hosted_in_place:
  assumes "wf_map nt"
  shows "hosted Q (mget [] (by_place L level nt []) key) e f \<longleftrightarrow>
     hosted Q nt e f \<and> (\<forall>r < length (NodeShapes Q e). place_nodes nt L level key (f r))"
proof -
  let ?g = "mget [] (by_place L level nt []) key"
  have m: "map_of ?g node = (if place_nodes nt L level key node then map_of nt node else None)" for node
    using map_of_by_place [OF assms, of L level "[]" key node] by simp
  have k: "node \<in> set (keys ?g) \<longleftrightarrow> place_nodes nt L level key node" for node
    using m [of node] by (auto simp: set_keys place_nodes_def domIff)
  show ?thesis unfolding hosted_def k m
    by (auto simp: place_nodes_def)
qed

lemma FitsWhenIdle_iff:
  assumes wf: "wf_map nt" and ne: "NodeShapes Q e \<noteq> []"
  shows "FitsWhenIdle Q totalFP nt L e \<longleftrightarrow> fitsInstalled Q totalFP e \<and>
     (nt = [] \<or> (\<exists>f p. hosted Q nt e f \<and>
        (NodesWithin (EffectiveJob e) \<noteq> [] \<longrightarrow> (\<forall>r < length (NodeShapes Q e). at_place L e (f r) p))))"
proof -
  let ?level = "NodesWithin (EffectiveJob e)"
  let ?in = "\<lambda>key f. \<forall>r < length (NodeShapes Q e). place_nodes nt L ?level key (f r)"
  have wfg: "wf_map (mget [] (by_place L ?level nt []) key)" for key
    using wf_by_place [of "[]" L ?level nt key] by simp
  have g: "fitsIdleNodes Q (mget [] (by_place L ?level nt []) key) e \<longleftrightarrow> (\<exists>f. hosted Q nt e f \<and> ?in key f)" for key
    by (simp add: fitsIdleNodes_iff [OF wfg] hosted_in_place [OF wf])
  have "list_ex (\<lambda>nodes. fitsIdleNodes Q nodes e) (idlePlaces nt L ?level) \<longleftrightarrow>
      (\<exists>key. (\<exists>node. place_nodes nt L ?level key node) \<and> (\<exists>f. hosted Q nt e f \<and> ?in key f))"
    unfolding list_ex_iff set_idlePlaces [OF wf] g [symmetric] by blast
  also have "\<dots> \<longleftrightarrow> (\<exists>f key. hosted Q nt e f \<and> ?in key f)"
    using ne by (metis length_greater_0_conv)
  also have "\<dots> \<longleftrightarrow> (\<exists>f p. hosted Q nt e f \<and> (\<forall>r < length (NodeShapes Q e). at_place L e (f r) p))"
    by (intro ex_cong1 conj_cong refl) (auto simp: hosted_def place_nodes_def at_place_def)
  finally show ?thesis
    by (auto simp: FitsWhenIdle_def Let_def fitsIdleNodes_iff [OF wf])
qed

subsection \<open>Lemmas on shortfalls\<close>

lemma geti_Shortfall:
  assumes "wf_map fp"
  shows "geti (Shortfall avail fp) k = (if k \<in> set (keys fp) then max 0 (geti fp k - geti avail k) else 0)"
proof -
  have "geti (fold (\<lambda>(k, need) out. if geti avail k < need then fp_Add out k (need - geti avail k) else out) xs out) k =
      geti out k + (if k \<in> set (keys xs) then max 0 (geti xs k - geti avail k) else 0)"
    if "wf_map xs" for xs out
    using that
  proof (induction xs arbitrary: out)
    case (Cons x xs)
    obtain key need where x: "x = (key, need)" by force
    have "wf_map xs" "key \<notin> set (keys xs)" using Cons.prems by (auto simp: wf_map_Cons x)
    with Cons.IH show ?case
      by (auto simp: x fp_Add_def keys_Cons mget_Cons)
  qed simp
  with assms show ?thesis by (simp add: Shortfall_def NewFootprint_def)
qed

lemma wf_Shortfall [simp]: "wf_map (Shortfall avail fp)"
proof -
  have "wf_map out \<Longrightarrow> wf_map (fold (\<lambda>(k, need) out. if geti avail k < need then fp_Add out k (need - geti avail k) else out) xs out)"
    for xs out
    by (induction xs arbitrary: out) (auto simp: fp_Add_def)
  then show ?thesis by (simp add: Shortfall_def NewFootprint_def)
qed

lemma geti_SubtractFootprint:
  assumes "wf_map fp" and "SubtractFootprint (Some a) fp = Some b"
  shows "geti b k = (if k \<in> set (keys fp) then max 0 (geti a k - geti fp k) else geti a k)"
proof -
  have "geti (fold (\<lambda>(k, v) a. mput k (if geti a k - v < 0 then 0 else geti a k - v) a) xs a) k =
      (if k \<in> set (keys xs) then max 0 (geti a k - geti xs k) else geti a k)" if "wf_map xs" for xs a
    using that
  proof (induction xs arbitrary: a)
    case (Cons x xs)
    obtain key v where x: "x = (key, v)" by force
    have "wf_map xs" "key \<notin> set (keys xs)" using Cons.prems by (auto simp: wf_map_Cons x)
    with Cons.IH show ?case by (auto simp: x keys_Cons mget_Cons)
  qed simp
  from this [OF assms(1), of a] assms(2) show ?thesis by (simp add: SubtractFootprint_def)
qed

text \<open>The fewest of the dimensions a footprint asks for.\<close>

lemma le_div_iff_int:
  assumes "0 < (c :: int)"
  shows "n \<le> a div c \<longleftrightarrow> n * c \<le> a"
proof
  assume "n \<le> a div c"
  then have "n * c \<le> a div c * c" using assms by simp
  also have "\<dots> \<le> a" using div_mult_mod_eq [of a c] pos_mod_sign [OF assms, of a] by linarith
  finally show "n * c \<le> a" .
next
  assume "n * c \<le> a"
  from zdiv_mono1 [OF this assms] assms show "n \<le> a div c" by simp
qed

lemma roomFor_fold:
  assumes free: "\<And>k. 0 \<le> geti free k"
  defines "step \<equiv> (\<lambda>(key, need) room. if need \<le> 0 then room
      else let n = go_div (geti free key) need in if room < 0 \<or> n < room then n else room)"
  shows "(n \<le> max (fold step fp r) 0 \<longleftrightarrow>
      (\<forall>(k, need) \<in> set fp. 0 < need \<longrightarrow> n * need \<le> geti free k) \<and> (r < 0 \<or> n \<le> r))
    \<or> (r < 0 \<and> \<not> (\<exists>(k, need) \<in> set fp. 0 < need) \<and> fold step fp r = r)"
proof (induction fp arbitrary: r)
  case Nil
  then show ?case by auto
next
  case (Cons x fp)
  obtain k need where x: "x = (k, need)" by force
  show ?case
  proof (cases "0 < need")
    case False
    then have "fold step (x # fp) r = fold step fp r" by (simp add: step_def x)
    with Cons.IH [of r] False show ?thesis by (simp add: x)
  next
    case True
    define q where "q = geti free k div need"
    have q: "0 \<le> q" "n \<le> q \<longleftrightarrow> n * need \<le> geti free k"
      using True free [of k] by (simp_all add: q_def pos_imp_zdiv_nonneg_iff le_div_iff_int)
    define r' where "r' = (if r < 0 \<or> q < r then q else r)"
    have "fold step (x # fp) r = fold step fp r'"
      using True by (simp add: step_def x go_div_nonneg [OF free] Let_def r'_def q_def)
    moreover have "n \<le> r' \<longleftrightarrow> n \<le> q \<and> (r < 0 \<or> n \<le> r)" "\<not> r' < 0" using q(1) by (auto simp: r'_def)
    ultimately show ?thesis using Cons.IH [of r'] True q(2) by (auto simp: x)
  qed
qed

subsection \<open>A plan gives every rank a host\<close>

lemma plan_node_known:
  assumes "planPlacement Q byNode nodeRes L jobs apart = Some plan" and "a \<in> set plan"
  shows "ra_node a \<in> set (keys byNode) \<union> set (keys nodeRes)"
proof -
  obtain r where "r \<in> set (job_ranks Q byNode nodeRes L apart (ra_job a) (jobs ! ra_job a))"
    "ra_node a \<in> set (rk_nodes r)"
    by (rule legal_job_rank [OF planPlacement_legal [OF assms(1)] assms(2)])
  then show ?thesis
    by (auto simp: job_ranks_def Let_def set_within_place set_qualifyingNodes split: if_splits)
qed

lemma demand_one: "(j, r, s) \<in> set (demand Q [e]) \<longleftrightarrow> j = 0 \<and> r < length (NodeShapes Q e) \<and> s = NodeShapes Q e ! r"
  by (auto simp: demand_def in_set_enumerate_eq image_iff enumerate_simps)

lemma plan_one_job:
  assumes "placement_ok Q byNode nodeRes L [e] apart plan" and "a \<in> set plan"
  shows "ra_job a = 0" and "ra_shape a = NodeShapes Q e ! ra_rank a" and "good_shape (ra_shape a)"
proof -
  have "mset (map (\<lambda>a. (ra_job a, ra_rank a, ra_shape a)) plan) = mset (demand Q [e])"
    using assms(1) unfolding placement_ok_def by (elim conjE)
  from mset_eq_setD [OF this] assms(2) have d: "(ra_job a, ra_rank a, ra_shape a) \<in> set (demand Q [e])"
    by force
  then show "ra_job a = 0" "ra_shape a = NodeShapes Q e ! ra_rank a" by (simp_all add: demand_one)
  from d show "good_shape (ra_shape a)" by (auto simp: demand_one intro: good_NodeShapes nth_mem)
qed

lemma shape_le_res_used:
  assumes "a \<in> set plan" and "\<And>b. b \<in> set plan \<Longrightarrow> good_shape (ra_shape b)"
  shows "geti (ns_Resources (ra_shape a)) k \<le> res_used plan (ra_node a) k"
proof -
  have nonneg: "0 \<le> res_used xs node k" if "\<And>b. b \<in> set xs \<Longrightarrow> good_shape (ra_shape b)" for xs node
    using that by (induction xs) (auto simp: good_shapeD(2))
  show ?thesis
    using assms
  proof (induction plan)
    case (Cons b plan)
    have "0 \<le> res_used plan (ra_node b) k" by (rule nonneg) (use Cons.prems in auto)
    moreover have "0 \<le> geti (ns_Resources (ra_shape b)) k" using Cons.prems by (simp add: good_shapeD(2))
    ultimately show ?case using Cons by auto
  qed simp
qed

lemma plan_hosted:
  assumes plan: "planPlacement Q byNode nodeRes L [e] False = Some plan" and wf: "wf_caps nodeRes"
    and known: "set (keys byNode) \<union> set (keys nodeRes) \<subseteq> set (keys nt)"
    and le: "\<And>node k. geti (mget [] nodeRes node) k \<le> geti (mget [] nt node) k"
  shows "\<exists>f p. hosted Q nt e f \<and>
     (NodesWithin (EffectiveJob e) \<noteq> [] \<longrightarrow> (\<forall>r < length (NodeShapes Q e). at_place L e (f r) p))"
proof -
  let ?n = "length (NodeShapes Q e)"
  note ok = planPlacement_ok [OF plan wf]
  have "\<forall>r \<in> {..<?n}. \<exists>a. a \<in> set plan \<and> ra_rank a = r"
    using placement_ranks(2) [OF ok, of 0] by fastforce
  then obtain asg where asg: "\<forall>r \<in> {..<?n}. asg r \<in> set plan \<and> ra_rank (asg r) = r" by metis
  define f where "f r = ra_node (asg r)" for r
  have job: "job_ok L False e plan"
  proof -
    have "filter (\<lambda>a. ra_job a = 0) plan = plan"
      using plan_one_job(1) [OF ok] by (simp add: filter_id_conv)
    with ok show ?thesis by (simp add: placement_ok_def)
  qed
  have inj: "inj_on f {..<?n}" if "RequiresDistinctHosts e"
  proof (rule inj_onI)
    fix r s assume rs: "r \<in> {..<?n}" "s \<in> {..<?n}" "f r = f s"
    have "inj_on ra_node (set plan)" using job that by (simp add: job_ok_def distinct_map)
    with rs asg have "asg r = asg s" by (auto simp: f_def dest: inj_onD)
    with rs(1,2) asg show "r = s" by metis
  qed
  have room: "f r \<in> set (keys nt) \<and> NodeHasRoom (map_of nt (f r)) (ns_Resources (NodeShapes Q e ! r))"
    if r: "r < ?n" for r
  proof -
    have a: "asg r \<in> set plan" "ra_rank (asg r) = r" using asg r by auto
    have sh: "ra_shape (asg r) = NodeShapes Q e ! r" using plan_one_job(2) [OF ok a(1)] a(2) by simp
    have "geti (ns_Resources (NodeShapes Q e ! r)) k \<le> geti (mget [] nt (f r)) k"
      if "0 < geti (ns_Resources (NodeShapes Q e ! r)) k" for k
    proof -
      have "geti (ns_Resources (NodeShapes Q e ! r)) k \<le> res_used plan (f r) k"
        using shape_le_res_used [OF a(1) plan_one_job(3) [OF ok], of k] sh by (simp add: f_def)
      moreover have "res_used plan (f r) k = 0 \<or> res_used plan (f r) k \<le> geti (mget [] nodeRes (f r)) k"
        using ok by (simp add: placement_ok_def within_capacity_def)
      ultimately show ?thesis using le [of "f r" k] that by linarith
    qed
    then have "NodeHasRoom (map_of nt (f r)) (ns_Resources (NodeShapes Q e ! r))"
      by (intro NodeHasRoom_iff [OF good_NodeShapes [OF nth_mem [OF r]], THEN iffD2] allI impI)
    moreover have "f r \<in> set (keys nt)"
      using plan_node_known [OF plan a(1)] known by (auto simp: f_def)
    ultimately show ?thesis by blast
  qed
  have "hosted Q nt e f" using inj room by (simp add: hosted_def)
  moreover have "\<exists>p. NodesWithin (EffectiveJob e) \<noteq> [] \<longrightarrow> (\<forall>r < ?n. at_place L e (f r) p)"
  proof (cases "NodesWithin (EffectiveJob e) = []")
    case False
    with job obtain p where "\<forall>a \<in> set plan. at_place L e (ra_node a) p" by (auto simp: job_ok_def)
    with asg show ?thesis by (intro exI [of _ p]) (simp add: f_def)
  qed simp
  ultimately show ?thesis by (elim exE) (intro exI conjI)
qed

subsection \<open>Properties\<close>

text \<open>C33: FitsWhenIdle is exact. On a cluster whose node totals were read, an idle cluster holds a job
  exactly when its installed total covers the job at one of the types it accepts and every node of the
  job can be given a host of the cluster with room for it, hosts of its own when the job spreads, all
  in one place of the job's nearness level. The matching SpreadHostsWhenIdle builds by augmenting paths
  finds such hosts whenever there are any.\<close>

theorem FitsWhenIdle_exact:
  assumes "wf_map nt" and "NodeShapes Q e \<noteq> []" and "nt \<noteq> []"
  shows "FitsWhenIdle Q totalFP nt L e \<longleftrightarrow> fitsInstalled Q totalFP e \<and>
     (\<exists>f p. (RequiresDistinctHosts e \<longrightarrow> inj_on f {..<length (NodeShapes Q e)})
        \<and> (\<forall>r < length (NodeShapes Q e). f r \<in> set (keys nt)
             \<and> NodeHasRoom (map_of nt (f r)) (ns_Resources (NodeShapes Q e ! r))
             \<and> (NodesWithin (EffectiveJob e) \<noteq> [] \<longrightarrow> at_place L e (f r) p)))"
  using FitsWhenIdle_iff [OF assms(1,2), of totalFP L] assms(3) unfolding hosted_def by blast

text \<open>the idle check never refuses a job that fits now. When the search places a job on the free
  capacity of a cluster and its footprint fits the cluster's free total, then FitsWhenIdle holds for
  every installed capacity at least the free one, so a job the queue is told never fits is one no
  tick could have placed.\<close>

theorem placeable_fits_idle:
  assumes "planPlacement Q byNode nodeRes L [e] False = Some plan" and "wf_caps nodeRes"
    and "Fits avail (exp_Footprint Q e)" and "ex_AcceleratorType e \<in> set (judged_types e)"
    and "\<And>k. geti avail k \<le> geti totalFP k"
    and "wf_map nt" and "set (keys byNode) \<union> set (keys nodeRes) \<subseteq> set (keys nt)"
    and "\<And>node k. geti (mget [] nodeRes node) k \<le> geti (mget [] nt node) k"
    and "NodeShapes Q e \<noteq> []"
  shows "FitsWhenIdle Q totalFP nt L e"
proof -
  have "Fits totalFP (exp_Footprint Q (e\<lparr>ex_AcceleratorType := ex_AcceleratorType e\<rparr>))"
    using Fits_mono [OF assms(3,5)] by simp
  then have "fitsInstalled Q totalFP e"
    unfolding fitsInstalled_def list_ex_iff by (rule bexI [OF _ assms(4)])
  moreover have "\<exists>f p. hosted Q nt e f \<and>
     (NodesWithin (EffectiveJob e) \<noteq> [] \<longrightarrow> (\<forall>r < length (NodeShapes Q e). at_place L e (f r) p))"
    by (rule plan_hosted [OF assms(1,2,7,8)])
  ultimately show ?thesis unfolding FitsWhenIdle_iff [OF assms(6,9)] by blast
qed


definition sample_total :: Footprint where
  "sample_total = [(ResourceKey ResourceKindCPU [], 12000), (ResourceKey ResourceKindMemory [], 24),
     (ResourceKey ResourceKindStorage [], 6), (ResourceKey ResourceKindAccelerator ''nvidia.com/gpu.product=A100'', 3)]"

theorem FitsWhenIdle_exact_witness:
  "FitsWhenIdle sample_Q sample_total sample_nodeRes [] sample_two
   \<and> (\<exists>f. inj_on f {..<length (NodeShapes sample_Q sample_two)}
        \<and> (\<forall>r < length (NodeShapes sample_Q sample_two). f r \<in> set (keys sample_nodeRes)
             \<and> NodeHasRoom (map_of sample_nodeRes (f r)) (ns_Resources (NodeShapes sample_Q sample_two ! r))))"
proof -
  have f: "FitsWhenIdle sample_Q sample_total sample_nodeRes [] sample_two" by code_simp
  have "wf_map sample_nodeRes" "NodeShapes sample_Q sample_two \<noteq> []" "sample_nodeRes \<noteq> []" by code_simp+
  note * = FitsWhenIdle_exact [OF this, of sample_total "[]"]
  have "RequiresDistinctHosts sample_two" by code_simp
  with * f show ?thesis by (elim iffE) blast
qed

theorem placeable_fits_idle_witness: "FitsWhenIdle sample_Q sample_total sample_nodeRes [] sample_two"
proof -
  have "planPlacement sample_Q sample_byNode sample_nodeRes [] [sample_two] False \<noteq> None" by code_simp
  then obtain plan where p: "planPlacement sample_Q sample_byNode sample_nodeRes [] [sample_two] False = Some plan"
    by (elim not_None_eq [THEN iffD1, THEN exE])
  show ?thesis
    by (rule placeable_fits_idle [OF p, where avail = sample_total])
      (rule order_refl | code_simp)+
qed

text \<open>the shortfall of a footprint is exactly what is missing. It is need less have in every
  dimension that lacks some and zero elsewhere; with it added the footprint fits; and whatever added
  capacity makes the footprint fit holds at least the shortfall in every dimension the job asks for.\<close>

theorem Shortfall_exact:
  assumes "wf_map fp"
  shows "(\<forall>k. geti (Shortfall avail fp) k = (if k \<in> set (keys fp) then max 0 (geti fp k - geti avail k) else 0))
     \<and> Fits (AddFootprint avail (Shortfall avail fp)) fp
     \<and> (\<forall>extra k. wf_map extra \<and> Fits (AddFootprint avail extra) fp \<and> 0 < geti fp k \<longrightarrow>
          geti fp k - geti avail k \<le> geti extra k)"
proof (intro conjI allI impI)
  show "geti (Shortfall avail fp) k = (if k \<in> set (keys fp) then max 0 (geti fp k - geti avail k) else 0)" for k
    by (rule geti_Shortfall [OF assms])
  show "Fits (AddFootprint avail (Shortfall avail fp)) fp"
    unfolding Fits_iff [OF assms]
    by (auto simp: geti_AddFootprint geti_Shortfall [OF assms] mget_absent)
  fix extra k
  assume a: "wf_map extra \<and> Fits (AddFootprint avail extra) fp \<and> 0 < geti fp k"
  then have "geti fp k \<le> geti (AddFootprint avail extra) k"
    using Fits_iff [OF assms, of "AddFootprint avail extra"] by simp
  with a show "geti fp k - geti avail k \<le> geti extra k" by (simp add: geti_AddFootprint)
qed

theorem Shortfall_exact_witness:
  "Fits (AddFootprint sample_total (Shortfall sample_total (exp_Footprint sample_Q sample_two)))
     (exp_Footprint sample_Q sample_two)"
  using Shortfall_exact [of "exp_Footprint sample_Q sample_two" sample_total] by simp

text \<open>roomFor is how many jobs of a footprint fit. For free capacity that is nowhere negative and a
  footprint that asks for something, n copies of the footprint fit exactly when n is at most roomFor.\<close>

theorem roomFor_exact:
  assumes "\<And>k. 0 \<le> geti free k" and "\<exists>(k, need) \<in> set fp. 0 < need" and "0 \<le> n"
  shows "Fits free (Scale fp n) \<longleftrightarrow> n \<le> roomFor free fp"
proof -
  have "n \<le> roomFor free fp \<longleftrightarrow> (\<forall>(k, need) \<in> set fp. 0 < need \<longrightarrow> n * need \<le> geti free k)"
    using roomFor_fold [OF assms(1), of n fp "-1"] assms(2) unfolding roomFor_def by simp
  moreover have "need * n \<le> 0 \<or> need * n \<le> geti free k \<longleftrightarrow> (0 < need \<longrightarrow> n * need \<le> geti free k)" for k need
    using assms(1) [of k] assms(3) by (auto simp: mult.commute mult_le_0_iff)
  ultimately show ?thesis by (simp add: Fits_def Scale_def list_all_iff case_prod_beta)
qed

theorem roomFor_exact_witness:
  "Fits sample_total (Scale (exp_Footprint sample_Q sample_exp) 3) \<and> 3 \<le> roomFor sample_total (exp_Footprint sample_Q sample_exp)"
proof -
  have "Fits sample_total (Scale (exp_Footprint sample_Q sample_exp) 3)" by code_simp
  moreover have "0 \<le> geti sample_total k" for k
    by (simp add: sample_total_def mget_Cons)
  moreover have "\<exists>(k, need) \<in> set (exp_Footprint sample_Q sample_exp). 0 < need" by code_simp
  ultimately show ?thesis using roomFor_exact [of sample_total "exp_Footprint sample_Q sample_exp" 3] by simp
qed

end
