(* ===== verification/Shortfalls.thy ===== *)
theory Shortfalls
  imports Footprints
begin

text \<open>
  What a job that does not fit is told it lacks, and where it waits for nodes an autoscaler
  adds: lemmas and properties of PreemptionShortfall, ScaleUpPlace and CandidateTypes
  (placement/footprint.go).
\<close>

subsection \<open>The walk over the nodes for one rank\<close>

definition could_take :: "labelmap \<Rightarrow> Experiment \<Rightarrow> NodeShape \<Rightarrow> capmap \<Rightarrow> string list \<Rightarrow> string \<Rightarrow> bool" where
  "could_take L e shape accelerators occupied node \<longleftrightarrow>
     RunsOn (mget [] L node) e
     \<and> \<not> (RequiresDistinctHosts e \<and> node \<in> set occupied)
     \<and> (0 < ns_AcceleratorCount shape \<longrightarrow>
          ns_AcceleratorCount shape \<le> geti (mget [] accelerators node) (AcceleratorKey (ex_AcceleratorType e)))"

lemma node_deficit_pos: "(r, short) \<in> set (node_deficit free shape) \<Longrightarrow> 0 < short \<and> r \<in> set (keys (ns_Resources shape))"
  by (auto simp: node_deficit_def List.map_filter_def Let_def keys_def split: if_splits) force

lemma node_deficit_sum: "sum_list (map snd (node_deficit free shape)) = 0 \<longleftrightarrow> node_deficit free shape = []"
proof -
  have "0 < sum_list (map snd xs)" if "xs \<noteq> []" "\<forall>x \<in> set xs. 0 < (snd x :: int)" for xs :: amounts
    using that by (induction xs rule: list_nonempty_induct) (auto intro: add_pos_pos)
  moreover have "\<forall>x \<in> set (node_deficit free shape). 0 < snd x"
    using node_deficit_pos by fastforce
  ultimately show ?thesis by fastforce
qed

lemma node_deficit_room:
  assumes "good_shape shape"
  shows "node_deficit (mget [] m node) shape = [] \<longleftrightarrow> NodeHasRoom (map_of m node) (ns_Resources shape)"
proof -
  have "node_deficit (mget [] m node) shape = [] \<longleftrightarrow>
      (\<forall>(k, v) \<in> set (ns_Resources shape). v \<le> geti (mget [] m node) k)"
    by (auto simp: node_deficit_def List.map_filter_def Let_def filter_empty_conv split: if_splits)
  also have "\<dots> \<longleftrightarrow> (\<forall>k. 0 < geti (ns_Resources shape) k \<longrightarrow>
      geti (ns_Resources shape) k \<le> geti (mget [] m node) k)"
  proof safe
    fix k assume "\<forall>(k, v) \<in> set (ns_Resources shape). v \<le> geti (mget [] m node) k"
      "0 < geti (ns_Resources shape) k"
    with good_shapeD(3) [OF assms, of k] show "geti (ns_Resources shape) k \<le> geti (mget [] m node) k" by auto
  next
    fix k v assume r: "\<forall>k. 0 < geti (ns_Resources shape) k \<longrightarrow>
      geti (ns_Resources shape) k \<le> geti (mget [] m node) k" and kv: "(k, v) \<in> set (ns_Resources shape)"
    have "geti (ns_Resources shape) k = v" using assms kv by (auto simp: good_shape_def mget_in)
    moreover have "0 < v" using assms kv by (auto simp: good_shape_def)
    ultimately show "v \<le> geti (mget [] m node) k" using r by auto
  qed
  finally show ?thesis by (simp add: NodeHasRoom_iff [OF assms])
qed

definition closer :: "amounts \<Rightarrow> (amounts \<times> int) option \<Rightarrow> (amounts \<times> int) option" where
  "closer d best = (case best of None \<Rightarrow> Some (d, sum_list (map snd d))
     | Some (_, t) \<Rightarrow> if sum_list (map snd d) < t then Some (d, sum_list (map snd d)) else best)"

lemma scan_skip:
  "\<not> could_take L e shape acc occ node \<Longrightarrow>
     shortfall_scan L e shape acc res occ best (node # nodes) = shortfall_scan L e shape acc res occ best nodes"
  by (auto simp: could_take_def)

lemma scan_hit:
  "could_take L e shape acc occ node \<Longrightarrow> node_deficit (mget [] res node) shape = [] \<Longrightarrow>
     fst (shortfall_scan L e shape acc res occ best (node # nodes)) = node"
  by (auto simp: could_take_def)

lemma scan_next:
  assumes "could_take L e shape acc occ node" and "node_deficit (mget [] res node) shape \<noteq> []"
  shows "shortfall_scan L e shape acc res occ best (node # nodes) =
     shortfall_scan L e shape acc res occ (closer (node_deficit (mget [] res node) shape) best) nodes"
  using assms node_deficit_sum [of "mget [] res node" shape]
  by (auto simp: could_take_def Let_def closer_def)

declare shortfall_scan.simps(2) [simp del]

definition takes_now :: "labelmap \<Rightarrow> Experiment \<Rightarrow> NodeShape \<Rightarrow> capmap \<Rightarrow> capmap \<Rightarrow> string list \<Rightarrow> string \<Rightarrow> bool" where
  "takes_now L e shape acc res occ node \<longleftrightarrow>
     could_take L e shape acc occ node \<and> NodeHasRoom (map_of res node) (ns_Resources shape)"

lemma scan_placed:
  assumes good: "good_shape shape" and "\<exists>n \<in> set nodes. takes_now L e shape acc res occ n"
  shows "takes_now L e shape acc res occ (fst (shortfall_scan L e shape acc res occ best nodes))
     \<and> fst (shortfall_scan L e shape acc res occ best nodes) \<in> set nodes"
  using assms(2)
proof (induction nodes arbitrary: best)
  case (Cons node nodes)
  show ?case
  proof (cases "takes_now L e shape acc res occ node")
    case True
    then have "fst (shortfall_scan L e shape acc res occ best (node # nodes)) = node"
      by (intro scan_hit) (simp_all add: takes_now_def node_deficit_room [OF good])
    with True show ?thesis by simp
  next
    case False
    with Cons.prems have ex: "\<exists>n \<in> set nodes. takes_now L e shape acc res occ n" by auto
    show ?thesis
    proof (cases "could_take L e shape acc occ node")
      case c: False
      with Cons.IH [OF ex] show ?thesis by (simp add: scan_skip)
    next
      case c: True
      with False have "node_deficit (mget [] res node) shape \<noteq> []"
        by (simp add: takes_now_def node_deficit_room [OF good])
      with c Cons.IH [OF ex] show ?thesis by (simp add: scan_next)
    qed
  qed
qed simp

text \<open>A deficit that says something: positive amounts of dimensions the shape asks for.\<close>

definition telling :: "NodeShape \<Rightarrow> amounts \<Rightarrow> bool" where
  "telling shape d \<longleftrightarrow> d \<noteq> [] \<and> (\<forall>(r, short) \<in> set d. 0 < short \<and> r \<in> set (keys (ns_Resources shape)))"

lemma scan_none:
  assumes good: "good_shape shape" and "\<not> (\<exists>n \<in> set nodes. takes_now L e shape acc res occ n)"
    and "\<And>d t. best = Some (d, t) \<Longrightarrow> telling shape d"
  shows "fst (shortfall_scan L e shape acc res occ best nodes) = []"
    and "best \<noteq> None \<or> (\<exists>n \<in> set nodes. could_take L e shape acc occ n) \<Longrightarrow>
      telling shape (snd (shortfall_scan L e shape acc res occ best nodes))"
proof -
  have "fst (shortfall_scan L e shape acc res occ best nodes) = []
    \<and> (best \<noteq> None \<or> (\<exists>n \<in> set nodes. could_take L e shape acc occ n) \<longrightarrow>
      telling shape (snd (shortfall_scan L e shape acc res occ best nodes)))"
    using assms(2,3)
  proof (induction nodes arbitrary: best)
    case Nil
    then show ?case by (auto split: option.splits)
  next
    case (Cons node nodes)
    from Cons.prems(1) have no: "\<not> (\<exists>n \<in> set nodes. takes_now L e shape acc res occ n)" by auto
    show ?case
    proof (cases "could_take L e shape acc occ node")
      case False
      with Cons.IH [OF no Cons.prems(2)] show ?thesis by (auto simp: scan_skip)
    next
      case True
      let ?d = "node_deficit (mget [] res node) shape"
      have d: "?d \<noteq> []"
        using Cons.prems(1) True by (auto simp: takes_now_def node_deficit_room [OF good])
      then have "telling shape ?d" using node_deficit_pos by (fastforce simp: telling_def)
      with Cons.prems(2) have "telling shape x" if "closer ?d best = Some (x, t)" for x t
        using that by (auto simp: closer_def split: option.splits if_splits)
      moreover have "closer ?d best \<noteq> None" by (auto simp: closer_def split: option.splits)
      ultimately show ?thesis
        using Cons.IH [OF no, of "closer ?d best"] by (simp add: scan_next [OF True d])
    qed
  qed
  then show "fst (shortfall_scan L e shape acc res occ best nodes) = []"
    and "best \<noteq> None \<or> (\<exists>n \<in> set nodes. could_take L e shape acc occ n) \<Longrightarrow>
      telling shape (snd (shortfall_scan L e shape acc res occ best nodes))"
    by blast+
qed

subsection \<open>Raising a shortfall\<close>

lemma raise_to_empty: "0 < short \<Longrightarrow> raise_to k short out \<noteq> []"
  by (cases out) (auto simp: raise_to_def mput_def)

lemma raise_to_keeps: "out \<noteq> [] \<Longrightarrow> raise_to k short out \<noteq> []"
  by (cases out) (auto simp: raise_to_def mput_def)

lemma NodeResourceKind_dimension: "r \<in> node_dimensions \<Longrightarrow> NodeResourceKind r \<noteq> None"
  by (auto simp: node_dimensions_def NodeResourceKind_def)

lemma NodeShapes_keys: "s \<in> set (NodeShapes Q e) \<Longrightarrow> set (keys (ns_Resources s)) \<subseteq> node_dimensions"
proof -
  have k: "set (keys (nodeResources Q g)) \<subseteq> node_dimensions" for g
    using nodeResources_key by (fastforce simp: keys_def node_dimensions_def)
  show "s \<in> set (NodeShapes Q e) \<Longrightarrow> ?thesis"
    by (auto simp: NodeShapes_def NodeShapes_of_def intro: subsetD [OF k])
qed

lemma report_deficit:
  assumes "telling shape d" and "set (keys (ns_Resources shape)) \<subseteq> node_dimensions"
  shows "fold (\<lambda>(r, short) out. case NodeResourceKind r of None \<Rightarrow> out
      | Some kind \<Rightarrow> raise_to (ResourceKey kind []) short out) d out \<noteq> []"
proof -
  let ?f = "\<lambda>(r, short) out. case NodeResourceKind r of None \<Rightarrow> out
      | Some kind \<Rightarrow> raise_to (ResourceKey kind []) short out"
  have keep: "fold ?f xs out \<noteq> []" if "out \<noteq> []" for xs out
    using that
  proof (induction xs arbitrary: out)
    case (Cons x xs)
    then have "?f x out \<noteq> []" by (cases x) (simp add: raise_to_keeps split: option.split)
    then have "fold ?f xs (?f x out) \<noteq> []" by (rule Cons.IH)
    then show ?case by simp
  qed simp
  obtain r short xs where d: "d = (r, short) # xs" using assms(1) by (cases d) (auto simp: telling_def)
  with assms have "0 < short" "r \<in> node_dimensions" by (auto simp: telling_def)
  then obtain kind where "NodeResourceKind r = Some kind" using NodeResourceKind_dimension by blast
  with keep [OF raise_to_empty [OF \<open>0 < short\<close>]] show ?thesis by (simp add: d)
qed

text \<open>The accelerators one rank lacks of the roomiest node.\<close>

lemma stacked_missing_one:
  assumes "0 < need"
  shows "stacked_missing caps [need] \<ge> 0"
    and "stacked_missing caps [need] = 0 \<longleftrightarrow> (\<exists>c \<in> set caps. need \<le> c)"
proof -
  have eq: "set (rev (sort caps)) = set caps" by simp
  have top: "x \<le> c" if "rev (sort caps) = c # cs" "x \<in> set caps" for c cs x
  proof -
    have "sorted (rev (c # cs))" using that(1) by (metis rev_rev_ident sorted_sort)
    then have "\<forall>y \<in> set cs. y \<le> c" by (simp add: sorted_append)
    with that eq show ?thesis by (metis order_refl set_ConsD)
  qed
  show "stacked_missing caps [need] \<ge> 0"
    using assms by (auto split: list.split)
  show "stacked_missing caps [need] = 0 \<longleftrightarrow> (\<exists>c \<in> set caps. need \<le> c)"
  proof (cases "rev (sort caps)")
    case Nil
    with eq assms show ?thesis by auto
  next
    case (Cons c cs)
    with eq have "c \<in> set caps" by (metis list.set_intros(1))
    then have "(\<exists>x \<in> set caps. need \<le> x) \<longleftrightarrow> need \<le> c" using top [OF Cons] by (meson order_trans)
    with Cons show ?thesis by auto
  qed
qed

subsection \<open>A job on one node\<close>

lemma one_rank_walk:
  assumes shape: "NodeShapes Q e = [s]" and names: "[] \<notin> set (keys nodeRes)"
    and some: "\<exists>n \<in> set (keys nodeRes). could_take L e s byNode [] n"
  shows "addNodeResourceShortfall Q out byNode nodeRes L e = [] \<longleftrightarrow>
     out = [] \<and> (\<exists>n \<in> set (keys nodeRes). takes_now L e s byNode nodeRes [] n)"
proof -
  have good: "good_shape s" using good_NodeShapes [of s Q e] shape by simp
  have dims: "set (keys (ns_Resources s)) \<subseteq> node_dimensions" using NodeShapes_keys [of s Q e] shape by simp
  let ?nodes = "sort (keys nodeRes)"
  obtain placed d where scan: "shortfall_scan L e s byNode nodeRes [] None ?nodes = (placed, d)" by force
  show ?thesis
  proof (cases "\<exists>n \<in> set (keys nodeRes). takes_now L e s byNode nodeRes [] n")
    case True
    then have "placed \<in> set (keys nodeRes)"
      using scan_placed [OF good, of ?nodes L e byNode nodeRes "[]" None] scan by auto
    with names have "placed \<noteq> []" by auto
    with scan True show ?thesis by (simp add: addNodeResourceShortfall_def shape)
  next
    case False
    then have no: "\<not> (\<exists>n \<in> set ?nodes. takes_now L e s byNode nodeRes [] n)" by simp
    have "placed = []" "telling s d"
      using scan_none [OF good no, of None] scan some by auto
    with scan report_deficit [OF _ dims] False show ?thesis
      by (simp add: addNodeResourceShortfall_def shape)
  qed
qed

lemma one_rank_capacity:
  assumes wf: "wf_map byNode" and "0 < ns_AcceleratorCount s"
  shows "(\<exists>c \<in> set (map (\<lambda>(_, capacity). geti capacity (AcceleratorKey (ex_AcceleratorType e)))
        (filter (\<lambda>(node, _). RunsOn (mget [] L node) e) byNode)). ns_AcceleratorCount s \<le> c)
     \<longleftrightarrow> (\<exists>n \<in> set (keys byNode). RunsOn (mget [] L n) e
        \<and> ns_AcceleratorCount s \<le> geti (mget [] byNode n) (AcceleratorKey (ex_AcceleratorType e)))"
    (is "?l \<longleftrightarrow> ?r")
proof -
  have "?l \<longleftrightarrow> (\<exists>(n, c) \<in> set byNode. RunsOn (mget [] L n) e
      \<and> ns_AcceleratorCount s \<le> geti c (AcceleratorKey (ex_AcceleratorType e)))"
    by (auto simp: Bex_def)
  then show ?thesis by (simp only: ex_entry [OF wf, where d = "[]"])
qed

subsection \<open>Properties\<close>

text \<open>a job on one node that reports no shortage can be placed, and only such a job. For a job of
  one rank, PreemptionShortfall is empty exactly when the cluster total covers the footprint and some
  node that runs the job has the rank's accelerators and its cpu, memory and storage free together:
  dimensions that are plentiful cluster-wide but never on one node are reported. Nodes with
  accelerators must report resources too, node names are not empty, and some node must run the job.\<close>

theorem PreemptionShortfall_one_node:
  assumes shape: "NodeShapes Q e = [s]" and one: "\<not> RequiresDistinctHosts e"
    and acc: "0 < TotalAccelerators (ex_Job e) \<longleftrightarrow> 0 < ns_AcceleratorCount s"
    and wf: "wf_map byNode" and rep: "set (keys byNode) \<subseteq> set (keys nodeRes)" and names: "[] \<notin> set (keys nodeRes)"
    and runs: "\<exists>n \<in> set (keys nodeRes). RunsOn (mget [] L n) e"
  shows "PreemptionShortfall Q avail byNode nodeRes L e fp = [] \<longleftrightarrow>
     Shortfall avail fp = [] \<and>
     (\<exists>n \<in> set (keys nodeRes). RunsOn (mget [] L n) e
        \<and> (0 < ns_AcceleratorCount s \<longrightarrow>
             ns_AcceleratorCount s \<le> geti (mget [] byNode n) (AcceleratorKey (ex_AcceleratorType e)))
        \<and> NodeHasRoom (map_of nodeRes n) (ns_Resources s))"
proof -
  let ?key = "AcceleratorKey (ex_AcceleratorType e)"
  let ?out = "addNodeResourceShortfall Q (Shortfall avail fp) byNode nodeRes L e"
  let ?caps = "map (\<lambda>(_, capacity). geti capacity ?key) (filter (\<lambda>(node, _). RunsOn (mget [] L node) e) byNode)"
  have ct: "could_take L e s byNode [] n \<longleftrightarrow> RunsOn (mget [] L n) e \<and> (0 < ns_AcceleratorCount s \<longrightarrow>
      ns_AcceleratorCount s \<le> geti (mget [] byNode n) ?key)" for n
    by (simp add: could_take_def)
  show ?thesis
  proof (cases "0 < ns_AcceleratorCount s")
    case False
    then have "PreemptionShortfall Q avail byNode nodeRes L e fp = ?out"
      using acc by (simp add: PreemptionShortfall_def Let_def)
    with one_rank_walk [OF shape names, of L byNode] runs False show ?thesis
      by (simp add: ct takes_now_def)
  next
    case True
    let ?miss = "stacked_missing (rev (sort ?caps)) [ns_AcceleratorCount s]"
    have eq: "PreemptionShortfall Q avail byNode nodeRes L e fp =
        raise_to (ResourceKey ResourceKindAccelerator ?key) ?miss ?out"
      using acc True one by (simp add: PreemptionShortfall_def Let_def shape)
    note miss = stacked_missing_one [OF True, of "rev (sort ?caps)"]
    have zero: "?miss = 0 \<longleftrightarrow> (\<exists>n \<in> set (keys byNode). could_take L e s byNode [] n)"
      unfolding miss(2) ct using True one_rank_capacity [OF wf True, where L = L and e = e]
      by (simp only: set_rev set_sort simp_thms)
    show ?thesis
    proof (cases "?miss = 0")
      case False
      with miss(1) have "PreemptionShortfall Q avail byNode nodeRes L e fp \<noteq> []"
        unfolding eq by (intro raise_to_empty) simp
      moreover have "\<not> could_take L e s byNode [] n" for n
      proof
        assume c: "could_take L e s byNode [] n"
        with True have "geti (mget [] byNode n) ?key \<noteq> 0" by (auto simp: ct)
        then have "n \<in> set (keys byNode)" by (metis mget_Nil mget_absent)
        with c zero False show False by blast
      qed
      ultimately show ?thesis unfolding ct by blast
    next
      case z: True
      then have "\<exists>n \<in> set (keys nodeRes). could_take L e s byNode [] n" using zero rep by blast
      note walk = one_rank_walk [OF shape names this]
      have "raise_to k 0 out = [] \<longleftrightarrow> out = []" for k out
        by (cases out) (auto simp: raise_to_def mput_def)
      with eq z walk show ?thesis by (simp add: takes_now_def ct)
    qed
  qed
qed

theorem PreemptionShortfall_one_node_witness:
  "PreemptionShortfall sample_Q sample_total sample_byNode sample_nodeRes [] sample_exp
       (exp_Footprint sample_Q sample_exp) = []
   \<and> (\<exists>n \<in> set (keys sample_nodeRes). NodeHasRoom (map_of sample_nodeRes n)
        (ns_Resources (hd (NodeShapes sample_Q sample_exp))))"
proof -
  let ?s = "hd (NodeShapes sample_Q sample_exp)"
  have p: "PreemptionShortfall sample_Q sample_total sample_byNode sample_nodeRes [] sample_exp
       (exp_Footprint sample_Q sample_exp) = []" by code_simp
  have "NodeShapes sample_Q sample_exp = [?s]" "\<not> RequiresDistinctHosts sample_exp"
    "(0 < TotalAccelerators (ex_Job sample_exp)) = (0 < ns_AcceleratorCount ?s)"
    "wf_map sample_byNode" "set (keys sample_byNode) \<subseteq> set (keys sample_nodeRes)" "[] \<notin> set (keys sample_nodeRes)"
    "\<exists>n \<in> set (keys sample_nodeRes). RunsOn (mget [] [] n) sample_exp" by code_simp+
  from PreemptionShortfall_one_node [OF this, of sample_total "exp_Footprint sample_Q sample_exp"] p
  show ?thesis by auto
qed

text \<open>the accelerator types admission tries are all different, start with the requested type, and
  are exactly the requested type and the acceptable ones; a job that has run is tried on the type it
  ran on only, and a job that names no type on none.\<close>

theorem CandidateTypes_exact:
  "distinct (CandidateTypes e)
   \<and> (js_AcceleratorType (ex_Job e) = [] \<longrightarrow> CandidateTypes e = [])
   \<and> (js_AcceleratorType (ex_Job e) \<noteq> [] \<and> ex_RanOnAcceleratorType e \<noteq> [] \<longrightarrow>
        CandidateTypes e = [ex_RanOnAcceleratorType e])
   \<and> (js_AcceleratorType (ex_Job e) \<noteq> [] \<and> ex_RanOnAcceleratorType e = [] \<longrightarrow>
        hd (CandidateTypes e) = js_AcceleratorType (ex_Job e)
        \<and> set (CandidateTypes e) = insert (js_AcceleratorType (ex_Job e)) (set (js_AcceptableAcceleratorTypes (ex_Job e))))"
proof -
  have "distinct (distinct_types seen ts) \<and> set (distinct_types seen ts) = set ts - set seen" for seen ts
    by (induction ts arbitrary: seen) auto
  then show ?thesis by (auto simp: CandidateTypes_def)
qed

theorem CandidateTypes_exact_witness:
  "CandidateTypes (sample_exp\<lparr>ex_RanOnAcceleratorType := ''t''\<rparr>) = [''t'']"
proof -
  have "js_AcceleratorType (ex_Job (sample_exp\<lparr>ex_RanOnAcceleratorType := ''t''\<rparr>)) \<noteq> []
      \<and> ex_RanOnAcceleratorType (sample_exp\<lparr>ex_RanOnAcceleratorType := ''t''\<rparr>) \<noteq> []" by code_simp
  with CandidateTypes_exact [of "sample_exp\<lparr>ex_RanOnAcceleratorType := ''t''\<rparr>"]
  have "CandidateTypes (sample_exp\<lparr>ex_RanOnAcceleratorType := ''t''\<rparr>) =
      [ex_RanOnAcceleratorType (sample_exp\<lparr>ex_RanOnAcceleratorType := ''t''\<rparr>)]" by blast
  then show ?thesis by simp
qed

end
