(* ===== verification/Slots.thy ===== *)
theory Slots
  imports Shortfalls
begin

text \<open>
  Slots, the nodes that hold one job each (placement/slots.go, placement/quantity.go and
  contract/clusterapi/slot.go): which slots a job is to hold, and the job sized to them.

  A reason Go formats as text is a value of \<open>slot_misfit\<close>, with what the text names.
  float64 is used here to carry an int64 into QuantityString; it is \<open>rat\<close>, exact, where Go's
  is exact up to 2 ^ 53.
\<close>

subsection \<open>Quantities\<close>

definition QuantityValue :: "quantity_lib \<Rightarrow> string \<Rightarrow> string \<Rightarrow> quantity_error + rat" where
  "QuantityValue Q key qty =
     (case ParseQuantity Q qty of
        Inl err \<Rightarrow> Inl err
      | Inr q \<Rightarrow> if key = NodeResourceCPUMillicores then Inr (of_int (MilliValue q)) else Inr (of_int (Value q)))"

definition int64_of :: "rat \<Rightarrow> int" where
  "int64_of x = (if x < 0 then \<lceil>x\<rceil> else \<lfloor>x\<rfloor>)"

definition QuantityString :: "quantity_lib \<Rightarrow> string \<Rightarrow> rat \<Rightarrow> string" where
  "QuantityString Q key val =
     (if key = NodeResourceCPUMillicores then lib_milli_string Q (int64_of val)
      else lib_binary_string Q (int64_of val))"

subsection \<open>Which slots take a node of a group\<close>

definition SlotDevices :: "AcceleratorType \<Rightarrow> JobGroup \<Rightarrow> int" where
  "SlotDevices acceleratorType grp =
     (if acc_Kind acceleratorType = TypeKindCPU then 0 else jg_AcceleratorCount grp)"

definition quantity_within :: "quantity_lib \<Rightarrow> amounts \<Rightarrow> string \<times> string \<Rightarrow> bool" where
  "quantity_within Q sz kq =
     (case kq of (key, qty) \<Rightarrow>
        case ParseQuantity Q qty of
          Inl _ \<Rightarrow> False
        | Inr parsed \<Rightarrow>
            geti sz key > 0
            \<and> (if key = NodeResourceCPUMillicores then MilliValue parsed else Value parsed) \<le> geti sz key)"

definition SlotTakes :: "quantity_lib \<Rightarrow> AcceleratorType \<Rightarrow> JobGroup \<Rightarrow> int \<Rightarrow> labels \<Rightarrow> amounts \<Rightarrow> bool" where
  "SlotTakes Q acceleratorType grp devices lab sz =
     (let want = SlotDevices acceleratorType grp
      in if devices \<noteq> want \<or> (want > 0 \<and> \<not> MatchesLabels acceleratorType lab) then False
         else list_all (quantity_within Q sz)
           [(NodeResourceCPUMillicores, jg_CPU grp), (NodeResourceMemoryBytes, jg_Memory grp),
            (NodeResourceStorageBytes, jg_Storage grp)])"

definition onCores :: "Experiment \<Rightarrow> bool" where
  "onCores e \<longleftrightarrow> acc_Kind (ex_AcceleratorType e) = TypeKindCPU"

definition takes :: "quantity_lib \<Rightarrow> Experiment \<Rightarrow> JobGroup \<Rightarrow> labels \<Rightarrow> amounts \<Rightarrow> bool" where
  "takes Q e grp lab sz \<longleftrightarrow>
     isSlot lab \<and> RunsOn lab e \<and> SlotTakes Q (ex_AcceleratorType e) grp (SlotAccelerators lab) lab sz"

definition TakesSlot :: "quantity_lib \<Rightarrow> Experiment \<Rightarrow> labels \<Rightarrow> amounts \<Rightarrow> bool" where
  "TakesSlot Q e lab sz = list_ex (\<lambda>grp. takes Q e grp lab sz) (NodeGroups (ex_Job e))"

definition shapeOf :: "labels \<Rightarrow> amounts \<Rightarrow> string" where
  "shapeOf lab sz =
     show_int (SlotAccelerators lab) @ ''/'' @ show_int (geti sz NodeResourceCPUMillicores) @ ''/'' @
     show_int (geti sz NodeResourceMemoryBytes) @ ''/'' @ show_int (geti sz NodeResourceStorageBytes)"

definition describeShape :: "quantity_lib \<Rightarrow> Experiment \<Rightarrow> labels \<Rightarrow> amounts \<Rightarrow> string" where
  "describeShape Q e lab sz =
     (let described =
        QuantityString Q NodeResourceCPUMillicores (of_int (geti sz NodeResourceCPUMillicores)) @ '' cpu, '' @
        QuantityString Q NodeResourceMemoryBytes (of_int (geti sz NodeResourceMemoryBytes)) @ '' memory, '' @
        QuantityString Q NodeResourceStorageBytes (of_int (geti sz NodeResourceStorageBytes)) @ '' storage'';
        devices = SlotAccelerators lab
      in if devices > 0 then show_int devices @ '' of '' @ ex_AcceleratorType e @ '', '' @ described
         else described)"

subsection \<open>Why the slots of a cluster cannot take a job\<close>

datatype slot_misfit =
    NoPrivateNetwork string
  | NetworkTooFar string NodesLevel NodesLevel
  | NoShapeTakesAll string "(string \<times> string list) list"
  | NoShapeTakes string int AcceleratorType
  | TooFewSlots string int string
  | IndexPanic

fun tooFar_walk :: "string \<Rightarrow> NodesLevel \<Rightarrow> NodesLevel \<Rightarrow> labelmap \<Rightarrow> slot_misfit option" where
  "tooFar_walk cluster level near [] =
     Some (if near = [] then NoPrivateNetwork cluster else NetworkTooFar cluster near level)"
| "tooFar_walk cluster level near ((_, lab) # rest) =
     (if \<not> isSlot lab then tooFar_walk cluster level near rest
      else
        let l = slotWithin lab
        in if AsNearAs l level then None
           else tooFar_walk cluster level
             (if l \<noteq> [] \<and> (near = [] \<or> AsNearAs l near) then l else near) rest)"

definition tooFar :: "Experiment \<Rightarrow> string \<Rightarrow> labelmap \<Rightarrow> slot_misfit option" where
  "tooFar e cluster labelsByNode =
     (let level = NodesWithin (ex_Job e)
      in if level = [] then None else tooFar_walk cluster level [] labelsByNode)"

text \<open>The shapes whose slots take a group, each with its words.\<close>

definition taking_shapes :: "quantity_lib \<Rightarrow> Experiment \<Rightarrow> capmap \<Rightarrow> labelmap \<Rightarrow> JobGroup \<Rightarrow> (string, string) gomap" where
  "taking_shapes Q e sizes labelsByNode grp =
     fold (\<lambda>(node, lab) m.
        if takes Q e grp lab (mget [] sizes node)
        then mput (shapeOf lab (mget [] sizes node)) (describeShape Q e lab (mget [] sizes node)) m else m)
      labelsByNode []"

definition oneShape :: "quantity_lib \<Rightarrow> Experiment \<Rightarrow> string \<Rightarrow> capmap \<Rightarrow> labelmap \<Rightarrow> slot_misfit + string list option" where
  "oneShape Q e cluster sizes labelsByNode =
     (let groups = NodeGroups (ex_Job e)
      in if Nodes (ex_Job e) \<le> 1 \<or> length groups \<le> 1 then Inr None
         else
           let taking = map (taking_shapes Q e sizes labelsByNode) groups
           in if list_ex (\<lambda>t. t = []) taking then Inr None
              else
                let one = filter (\<lambda>shape. list_all (\<lambda>t. shape \<in> set (keys t)) (tl taking)) (keys (hd taking))
                in if one \<noteq> [] then Inr (Some one)
                   else Inl (NoShapeTakesAll cluster
                     (map (\<lambda>(grp, t). (jg_Name grp, sort (map snd t))) (zip groups taking))))"

subsection \<open>The choice of slots\<close>

record slot =
  sl_node :: string
  sl_free :: bool

record slot_option =
  so_shape :: string
  so_size :: amounts
  so_slots :: "slot list"
  so_free :: bool

definition slot_before :: "slot \<Rightarrow> slot \<Rightarrow> bool" where
  "slot_before a b = (if sl_free a \<noteq> sl_free b then sl_free a else sl_node a < sl_node b)"

definition option_before :: "slot_option \<Rightarrow> slot_option \<Rightarrow> bool" where
  "option_before a b =
     (if so_free a \<noteq> so_free b then so_free a
      else if geti (so_size a) NodeResourceCPUMillicores \<noteq> geti (so_size b) NodeResourceCPUMillicores
        then geti (so_size a) NodeResourceCPUMillicores < geti (so_size b) NodeResourceCPUMillicores
      else if geti (so_size a) NodeResourceMemoryBytes \<noteq> geti (so_size b) NodeResourceMemoryBytes
        then geti (so_size a) NodeResourceMemoryBytes < geti (so_size b) NodeResourceMemoryBytes
      else if geti (so_size a) NodeResourceStorageBytes \<noteq> geti (so_size b) NodeResourceStorageBytes
        then geti (so_size a) NodeResourceStorageBytes < geti (so_size b) NodeResourceStorageBytes
      else so_shape a < so_shape b)"

interpretation slot_order: strict_weak_order slot_before
  unfolding slot_before_def [abs_def] by (intro swo_flag_then swo_key)

interpretation option_order: strict_weak_order option_before
  unfolding option_before_def [abs_def] by (intro swo_flag_then swo_key_then swo_key)

text \<open>What slotsFor keeps between the groups of a job.\<close>

record slots_state =
  sf_chosen :: "string list"
  sf_onShape :: "(string, int) gomap"
  sf_nodes :: "string list"

text \<open>The loop over the nodes for one group: the slots that take it, by shape.\<close>

definition by_shape :: "quantity_lib \<Rightarrow> Experiment \<Rightarrow> capmap \<Rightarrow> capmap \<Rightarrow> labelmap \<Rightarrow> bool \<Rightarrow> string list option
    \<Rightarrow> slots_state \<Rightarrow> JobGroup \<Rightarrow> (string, slot_option) gomap" where
  "by_shape Q e sizes free labelsByNode networked one st grp =
     fold (\<lambda>(node, lab) m.
        let sz = mget [] sizes node; shape = shapeOf lab sz
        in if node \<in> set (sf_chosen st) \<or> \<not> takes Q e grp lab sz then m
           else if (case one of None \<Rightarrow> False | Some shapes \<Rightarrow> shape \<notin> set shapes) then m
           else
             let opt = (case map_of m shape of Some opt \<Rightarrow> opt
                        | None \<Rightarrow> \<lparr>so_shape = shape, so_size = sz, so_slots = [], so_free = False\<rparr>);
                 s = \<lparr>sl_node = node,
                      sl_free = (NodeHasRoom (map_of free node) sz
                        \<and> (\<not> networked \<or> SlotNetwork lab \<ge> geti (sf_onShape st) shape + jg_Replicas grp))\<rparr>
             in mput shape (opt\<lparr>so_slots := so_slots opt @ [s]\<rparr>) m)
      labelsByNode []"

text \<open>
  One group.  Go reads the slot at index Replicas - 1, out of range for a group of no
  replicas, which validation refuses (domain.ValidateGroups).
\<close>

definition choose_group :: "quantity_lib \<Rightarrow> Experiment \<Rightarrow> string \<Rightarrow> capmap \<Rightarrow> capmap \<Rightarrow> labelmap \<Rightarrow> bool \<Rightarrow> string list option
    \<Rightarrow> JobGroup \<Rightarrow> slots_state \<Rightarrow> slot_misfit + slots_state" where
  "choose_group Q e cluster sizes free labelsByNode networked one grp st =
     (let shapes = by_shape Q e sizes free labelsByNode networked one st grp
      in if shapes = [] then Inl (NoShapeTakes cluster (SlotDevices (ex_AcceleratorType e) grp) (ex_AcceleratorType e))
         else if jg_Replicas grp < 1 then Inl IndexPanic
         else
           let n = nat (jg_Replicas grp);
               options = map (\<lambda>opt. let slots = sort_slice slot_before (so_slots opt)
                                     in opt\<lparr>so_slots := slots, so_free := sl_free (slots ! (n - 1))\<rparr>)
                 (filter (\<lambda>opt. \<not> length (so_slots opt) < n) (map snd shapes))
           in case sort_slice option_before options of
                [] \<Rightarrow> Inl (TooFewSlots cluster (jg_Replicas grp) (jg_Name grp))
              | best # _ \<Rightarrow>
                  let nodes = map sl_node (take n (so_slots best))
                  in Inr \<lparr>sf_chosen = nodes @ sf_chosen st,
                          sf_onShape = madd (so_shape best) (jg_Replicas grp) (sf_onShape st),
                          sf_nodes = sf_nodes st @ nodes\<rparr>)"

fun choose_groups :: "quantity_lib \<Rightarrow> Experiment \<Rightarrow> string \<Rightarrow> capmap \<Rightarrow> capmap \<Rightarrow> labelmap \<Rightarrow> bool \<Rightarrow> string list option
    \<Rightarrow> JobGroup list \<Rightarrow> slots_state \<Rightarrow> slot_misfit + slots_state" where
  "choose_groups Q e cluster sizes free labelsByNode networked one [] st = Inr st"
| "choose_groups Q e cluster sizes free labelsByNode networked one (grp # grps) st =
     (case choose_group Q e cluster sizes free labelsByNode networked one grp st of
        Inl misfit \<Rightarrow> Inl misfit
      | Inr st' \<Rightarrow> choose_groups Q e cluster sizes free labelsByNode networked one grps st')"

definition slotsFor :: "quantity_lib \<Rightarrow> Experiment \<Rightarrow> string \<Rightarrow> capmap \<Rightarrow> capmap \<Rightarrow> labelmap \<Rightarrow> bool
    \<Rightarrow> slot_misfit + string list \<times> bool" where
  "slotsFor Q e cluster sizes free labelsByNode networked =
     (case tooFar e cluster labelsByNode of
        Some misfit \<Rightarrow> Inl misfit
      | None \<Rightarrow>
          case oneShape Q e cluster sizes labelsByNode of
            Inl misfit \<Rightarrow> Inl misfit
          | Inr one \<Rightarrow>
              case choose_groups Q e cluster sizes free labelsByNode networked one (NodeGroups (ex_Job e))
                     \<lparr>sf_chosen = [], sf_onShape = [], sf_nodes = []\<rparr> of
                Inl misfit \<Rightarrow> Inl misfit
              | Inr st \<Rightarrow>
                  Inr (sf_nodes st,
                    list_all (\<lambda>node.
                        let lab = mget [] labelsByNode node; sz = mget [] sizes node
                        in NodeHasRoom (map_of free node) sz
                           \<and> \<not> (networked \<and> SlotNetwork lab < geti (sf_onShape st) (shapeOf lab sz)))
                      (sf_nodes st)))"

definition SlotsFor :: "quantity_lib \<Rightarrow> Experiment \<Rightarrow> string \<Rightarrow> capmap \<Rightarrow> capmap \<Rightarrow> labelmap
    \<Rightarrow> slot_misfit + string list \<times> bool" where
  "SlotsFor Q e cluster sizes free labelsByNode =
     slotsFor Q e cluster sizes free labelsByNode (Nodes (ex_Job e) > 1)"

subsection \<open>A job sized to its slots\<close>

definition sizedTo :: "quantity_lib \<Rightarrow> Experiment \<Rightarrow> amounts \<Rightarrow> int \<Rightarrow> string \<times> string \<times> string \<times> int" where
  "sizedTo Q e sz units =
     (QuantityString Q NodeResourceCPUMillicores (of_int (geti sz NodeResourceCPUMillicores)),
      QuantityString Q NodeResourceMemoryBytes (of_int (geti sz NodeResourceMemoryBytes)),
      QuantityString Q NodeResourceStorageBytes (of_int (geti sz NodeResourceStorageBytes)),
      if onCores e then go_div (geti sz NodeResourceCPUMillicores) 1000 else units)"

fun size_groups :: "quantity_lib \<Rightarrow> Experiment \<Rightarrow> capmap \<Rightarrow> string list \<Rightarrow> nat \<Rightarrow> JobGroup list \<Rightarrow> JobGroup list" where
  "size_groups Q e sizes nodes rank [] = []"
| "size_groups Q e sizes nodes rank (g # gs) =
     (case sizedTo Q e (mget [] sizes (nodes ! rank)) (jg_AcceleratorCount g) of
        (cpu, memory, storage, units) \<Rightarrow>
          g\<lparr>jg_CPU := cpu, jg_Memory := memory, jg_Storage := storage, jg_AcceleratorCount := units\<rparr>
          # size_groups Q e sizes nodes (rank + nat (jg_Replicas g)) gs)"

definition ResolveOntoSlots :: "quantity_lib \<Rightarrow> Experiment \<Rightarrow> string \<Rightarrow> capmap \<Rightarrow> capmap \<Rightarrow> labelmap
    \<Rightarrow> slot_misfit + JobSpec" where
  "ResolveOntoSlots Q e cluster sizes free labelsByNode =
     (case SlotsFor Q e cluster sizes free labelsByNode of
        Inl misfit \<Rightarrow> Inl misfit
      | Inr (nodes, _) \<Rightarrow>
          let out = ex_Job e
          in if js_Groups (ex_Job e) = [] then
               (case sizedTo Q e (mget [] sizes (nodes ! 0)) (js_AcceleratorCount out) of
                  (cpu, memory, storage, units) \<Rightarrow>
                    Inr (out\<lparr>js_CPU := cpu, js_Memory := memory, js_Storage := storage,
                             js_AcceleratorCount := units\<rparr>))
             else Inr (out\<lparr>js_Groups := size_groups Q e sizes nodes 0 (js_Groups (ex_Job e))\<rparr>))"

definition OnSlots :: "quantity_lib \<Rightarrow> Experiment \<Rightarrow> string \<Rightarrow> capmap \<Rightarrow> labelmap \<Rightarrow> Experiment option" where
  "OnSlots Q e cluster free labelsByNode =
     (if \<not> HasSlots labelsByNode then Some e
      else case ResolveOntoSlots Q e cluster free free labelsByNode of
          Inl _ \<Rightarrow> None
        | Inr resolved \<Rightarrow> Some (e\<lparr>ex_ResolvedJob := Some resolved\<rparr>))"

subsection \<open>Waiting for a network, and slots being vacated\<close>

fun network_wait_walk :: "quantity_lib \<Rightarrow> Experiment \<Rightarrow> capmap \<Rightarrow> labelmap \<Rightarrow> (string, int) gomap \<Rightarrow> string list
    \<Rightarrow> (int \<times> string \<times> string list) option" where
  "network_wait_walk Q e sizes labelsByNode onShape [] = None"
| "network_wait_walk Q e sizes labelsByNode onShape (node # nodes) =
     (let lab = mget [] labelsByNode node; key = shapeOf lab (mget [] sizes node)
      in if SlotNetwork lab \<ge> geti onShape key then network_wait_walk Q e sizes labelsByNode onShape nodes
         else Some (geti onShape key, describeShape Q e lab (mget [] sizes node),
           sort (remdups (map (\<lambda>(_, l). gets l NodeSlotNoNetworkLabel)
             (filter (\<lambda>(other, l). gets l NodeSlotNoNetworkLabel \<noteq> [] \<and> shapeOf l (mget [] sizes other) = key)
               labelsByNode)))))"

definition NetworkWait :: "quantity_lib \<Rightarrow> Experiment \<Rightarrow> string \<Rightarrow> capmap \<Rightarrow> capmap \<Rightarrow> labelmap
    \<Rightarrow> (int \<times> string \<times> string list) option" where
  "NetworkWait Q e cluster sizes free labelsByNode =
     (if Nodes (ex_Job e) \<le> 1 then None
      else case slotsFor Q e cluster sizes free labelsByNode True of
          Inl _ \<Rightarrow> None
        | Inr (_, isFree) \<Rightarrow>
            if isFree then None
            else (case slotsFor Q e cluster sizes free labelsByNode False of
                Inl _ \<Rightarrow> None
              | Inr (nodes, isFree) \<Rightarrow>
                  if \<not> isFree then None
                  else network_wait_walk Q e sizes labelsByNode
                    (fold (\<lambda>node. madd (shapeOf (mget [] labelsByNode node) (mget [] sizes node)) 1) nodes [])
                    nodes))"

definition VacatingSlots :: "string \<Rightarrow> capmap \<Rightarrow> capmap \<Rightarrow> labelmap \<Rightarrow> Experiment list \<Rightarrow> capmap" where
  "VacatingSlots cluster sizes freeAtTickStart labelsByNode claimed =
     (let held = concat (map (\<lambda>x. js_Slots (EffectiveJob x)) (filter (\<lambda>x. ex_ClusterName x = cluster) claimed))
      in fold (\<lambda>(node, lab) vacating.
           if \<not> isSlot lab \<or> gets lab NodeSlotNoOfferLabel \<noteq> [] \<or> gets lab NodeSlotLabel \<in> set held
              \<or> NodeHasRoom (map_of freeAtTickStart node) (mget [] sizes node)
           then vacating else mput node (mget [] sizes node) vacating)
         labelsByNode [])"

subsection \<open>Shapes\<close>

lemma shapeOf_inj:
  "shapeOf lab sz = shapeOf lab' sz' \<longleftrightarrow> SlotAccelerators lab = SlotAccelerators lab'
     \<and> (\<forall>k \<in> node_dimensions. geti sz k = geti sz' k)"
  by (simp add: shapeOf_def append_sep_inj show_int_no_sep show_int_inj node_dimensions_def)

subsection \<open>The slots a group is given\<close>

definition offered :: "quantity_lib \<Rightarrow> Experiment \<Rightarrow> capmap \<Rightarrow> string list option \<Rightarrow> slots_state \<Rightarrow> JobGroup
    \<Rightarrow> string \<times> labels \<Rightarrow> bool" where
  "offered Q e sizes one st grp nl \<longleftrightarrow>
     fst nl \<notin> set (sf_chosen st) \<and> takes Q e grp (snd nl) (mget [] sizes (fst nl))
     \<and> (\<forall>shapes. one = Some shapes \<longrightarrow> shapeOf (snd nl) (mget [] sizes (fst nl)) \<in> set shapes)"

definition slots_of :: "(string, slot_option) gomap \<Rightarrow> string \<Rightarrow> slot list" where
  "slots_of m shape = (case map_of m shape of None \<Rightarrow> [] | Some opt \<Rightarrow> so_slots opt)"

definition shape_step :: "quantity_lib \<Rightarrow> Experiment \<Rightarrow> capmap \<Rightarrow> capmap \<Rightarrow> bool \<Rightarrow> string list option
    \<Rightarrow> slots_state \<Rightarrow> JobGroup \<Rightarrow> string \<times> labels \<Rightarrow> (string, slot_option) gomap \<Rightarrow> (string, slot_option) gomap" where
  "shape_step Q e sizes free networked one st grp nl m =
     (if offered Q e sizes one st grp nl then
        let sz = mget [] sizes (fst nl); shape = shapeOf (snd nl) sz;
            opt = (case map_of m shape of Some opt \<Rightarrow> opt
                   | None \<Rightarrow> \<lparr>so_shape = shape, so_size = sz, so_slots = [], so_free = False\<rparr>);
            s = \<lparr>sl_node = fst nl, sl_free = (NodeHasRoom (map_of free (fst nl)) sz
                 \<and> (\<not> networked \<or> SlotNetwork (snd nl) \<ge> geti (sf_onShape st) shape + jg_Replicas grp))\<rparr>
        in mput shape (opt\<lparr>so_slots := so_slots opt @ [s]\<rparr>) m
      else m)"

lemma by_shape_step:
  "by_shape Q e sizes free L networked one st grp = fold (shape_step Q e sizes free networked one st grp) L []"
proof -
  have "(\<lambda>(node, lab) m.
        let sz = mget [] sizes node; shape = shapeOf lab sz
        in if node \<in> set (sf_chosen st) \<or> \<not> takes Q e grp lab sz then m
           else if (case one of None \<Rightarrow> False | Some shapes \<Rightarrow> shape \<notin> set shapes) then m
           else
             let opt = (case map_of m shape of Some opt \<Rightarrow> opt
                        | None \<Rightarrow> \<lparr>so_shape = shape, so_size = sz, so_slots = [], so_free = False\<rparr>);
                 s = \<lparr>sl_node = node,
                      sl_free = (NodeHasRoom (map_of free node) sz
                        \<and> (\<not> networked \<or> SlotNetwork lab \<ge> geti (sf_onShape st) shape + jg_Replicas grp))\<rparr>
             in mput shape (opt\<lparr>so_slots := so_slots opt @ [s]\<rparr>) m)
      = shape_step Q e sizes free networked one st grp"
    by (intro ext) (auto simp: shape_step_def offered_def Let_def split: option.splits)
  then show ?thesis by (simp only: by_shape_def)
qed

text \<open>What every shape of the map holds: slots that take the group, of that shape, none twice.\<close>

definition shape_ok :: "quantity_lib \<Rightarrow> Experiment \<Rightarrow> capmap \<Rightarrow> string list option \<Rightarrow> slots_state \<Rightarrow> JobGroup
    \<Rightarrow> labelmap \<Rightarrow> string \<Rightarrow> slot_option \<Rightarrow> bool" where
  "shape_ok Q e sizes one st grp L shape opt \<longleftrightarrow>
     so_shape opt = shape \<and> distinct (map sl_node (so_slots opt))
     \<and> (\<forall>s \<in> set (so_slots opt). \<exists>lab. (sl_node s, lab) \<in> set L
          \<and> offered Q e sizes one st grp (sl_node s, lab) \<and> shapeOf lab (mget [] sizes (sl_node s)) = shape)"

definition shapes_ok :: "quantity_lib \<Rightarrow> Experiment \<Rightarrow> capmap \<Rightarrow> string list option \<Rightarrow> slots_state \<Rightarrow> JobGroup
    \<Rightarrow> labelmap \<Rightarrow> (string, slot_option) gomap \<Rightarrow> bool" where
  "shapes_ok Q e sizes one st grp L m \<longleftrightarrow> (\<forall>(shape, opt) \<in> set m. shape_ok Q e sizes one st grp L shape opt)"

lemma shape_ok_mono:
  "shape_ok Q e sizes one st grp L shape opt \<Longrightarrow> set L \<subseteq> set L' \<Longrightarrow> shape_ok Q e sizes one st grp L' shape opt"
  unfolding shape_ok_def by blast

lemma shapes_okD: "shapes_ok Q e sizes one st grp L m \<Longrightarrow> (shape, opt) \<in> set m \<Longrightarrow> shape_ok Q e sizes one st grp L shape opt"
  by (auto simp: shapes_ok_def)

lemma shapes_ok_mono: "shapes_ok Q e sizes one st grp L m \<Longrightarrow> set L \<subseteq> set L' \<Longrightarrow> shapes_ok Q e sizes one st grp L' m"
  by (auto simp: shapes_ok_def intro: shape_ok_mono)

lemma shapes_ok_mput:
  assumes "shapes_ok Q e sizes one st grp L m" and "shape_ok Q e sizes one st grp L shape opt"
  shows "shapes_ok Q e sizes one st grp L (mput shape opt m)"
  using assms set_mput [of shape opt m] by (auto simp: shapes_ok_def)

lemma shapes_ok_step:
  assumes ok: "shapes_ok Q e sizes one st grp L m" and new: "fst nl \<notin> set (keys L)"
  shows "shapes_ok Q e sizes one st grp (nl # L) (shape_step Q e sizes free networked one st grp nl m)"
proof (cases "offered Q e sizes one st grp nl")
  case False
  then have "shape_step Q e sizes free networked one st grp nl m = m" by (simp add: shape_step_def)
  with ok show ?thesis by (auto intro: shapes_ok_mono)
next
  case True
  let ?sz = "mget [] sizes (fst nl)"
  let ?shape = "shapeOf (snd nl) ?sz"
  define old where "old = (case map_of m ?shape of Some opt \<Rightarrow> opt
     | None \<Rightarrow> \<lparr>so_shape = ?shape, so_size = ?sz, so_slots = [], so_free = False\<rparr>)"
  define s where "s = \<lparr>sl_node = fst nl, sl_free = (NodeHasRoom (map_of free (fst nl)) ?sz
                 \<and> (\<not> networked \<or> SlotNetwork (snd nl) \<ge> geti (sf_onShape st) ?shape + jg_Replicas grp))\<rparr>"
  have "shape_ok Q e sizes one st grp L ?shape old"
  proof (cases "map_of m ?shape")
    case None
    then show ?thesis by (simp add: old_def shape_ok_def)
  next
    case (Some opt)
    then show ?thesis using shapes_okD [OF ok map_of_SomeD [OF Some]] by (simp add: old_def)
  qed
  note old = this [unfolded shape_ok_def]
  have fresh: "fst nl \<notin> sl_node ` set (so_slots old)"
  proof
    assume "fst nl \<in> sl_node ` set (so_slots old)"
    then obtain x where "x \<in> set (so_slots old)" "sl_node x = fst nl" by auto
    with old obtain lab where "(fst nl, lab) \<in> set L" by force
    with new show False by (auto dest: in_keysI)
  qed
  let ?new = "old\<lparr>so_slots := so_slots old @ [s]\<rparr>"
  have step: "shape_step Q e sizes free networked one st grp nl m = mput ?shape ?new m"
    using True by (simp add: shape_step_def Let_def old_def s_def)
  have new_ok: "shape_ok Q e sizes one st grp (nl # L) ?shape ?new"
    unfolding shape_ok_def
  proof (intro conjI ballI)
    fix x assume "x \<in> set (so_slots ?new)"
    then consider "x = s" | "x \<in> set (so_slots old)" by auto
    then show "\<exists>lab. (sl_node x, lab) \<in> set (nl # L)
             \<and> offered Q e sizes one st grp (sl_node x, lab) \<and> shapeOf lab (mget [] sizes (sl_node x)) = ?shape"
    proof cases
      case 1
      with True show ?thesis by (intro exI [of _ "snd nl"]) (simp add: s_def)
    next
      case 2
      with old obtain lab where "(sl_node x, lab) \<in> set L" "offered Q e sizes one st grp (sl_node x, lab)"
        "shapeOf lab (mget [] sizes (sl_node x)) = ?shape" by blast
      then show ?thesis by (intro exI [of _ lab]) simp
    qed
  qed (use old fresh in \<open>simp_all add: s_def\<close>)
  show ?thesis unfolding step
    by (rule shapes_ok_mput [OF shapes_ok_mono [OF ok] new_ok]) auto
qed

lemma shapes_ok_by_shape:
  assumes "wf_map L"
  shows "shapes_ok Q e sizes one st grp L (by_shape Q e sizes free L networked one st grp)"
proof -
  let ?f = "shape_step Q e sizes free networked one st grp"
  have "shapes_ok Q e sizes one st grp (rev xs @ ys) (fold ?f xs m)"
    if "shapes_ok Q e sizes one st grp ys m" "distinct (map fst (rev xs @ ys))" for xs ys m
    using that
  proof (induction xs arbitrary: ys m)
    case (Cons x xs)
    then have "shapes_ok Q e sizes one st grp (x # ys) (?f x m)"
      by (intro shapes_ok_step) (auto simp: keys_def)
    with Cons.IH [of "x # ys" "?f x m"] Cons.prems(2) show ?case by simp
  qed simp
  from this [of "[]" "[]" L] assms have "shapes_ok Q e sizes one st grp (rev L) (fold ?f L [])"
    by (simp add: shapes_ok_def wf_map_def rev_map [symmetric])
  then show ?thesis unfolding by_shape_step by (rule shapes_ok_mono) simp
qed

text \<open>What one group of a job is given.\<close>

definition group_slots :: "quantity_lib \<Rightarrow> Experiment \<Rightarrow> capmap \<Rightarrow> labelmap \<Rightarrow> JobGroup \<Rightarrow> string list \<Rightarrow> bool" where
  "group_slots Q e sizes L grp seg \<longleftrightarrow>
     int (length seg) = jg_Replicas grp \<and> distinct seg
     \<and> (\<exists>shape. \<forall>node \<in> set seg. takes Q e grp (mget [] L node) (mget [] sizes node)
          \<and> shapeOf (mget [] L node) (mget [] sizes node) = shape)"

lemma group_slots_length: "group_slots Q e sizes L grp seg \<Longrightarrow> nat (jg_Replicas grp) = length seg"
  by (auto simp: group_slots_def)

lemma distinct_take_slots: "distinct (map f xs) \<Longrightarrow> distinct (map f (take n (sort_slice lt xs)))"
  by (metis distinct_sort_slice distinct_take distinct_map set_sort_slice take_map)

lemma choose_group_Inr:
  assumes "choose_group Q e cluster sizes free L networked one grp st = Inr st'" and wf: "wf_map L"
  obtains seg where "sf_nodes st' = sf_nodes st @ seg" and "sf_chosen st' = seg @ sf_chosen st"
    and "group_slots Q e sizes L grp seg" and "set seg \<inter> set (sf_chosen st) = {}" and "seg \<noteq> []"
proof -
  let ?m = "by_shape Q e sizes free L networked one st grp"
  let ?n = "nat (jg_Replicas grp)"
  let ?opts = "map (\<lambda>opt. let slots = sort_slice slot_before (so_slots opt)
                                     in opt\<lparr>so_slots := slots, so_free := sl_free (slots ! (?n - 1))\<rparr>)
                 (filter (\<lambda>opt. \<not> length (so_slots opt) < ?n) (map snd ?m))"
  have pos: "\<not> jg_Replicas grp < 1" using assms(1) by (auto simp: choose_group_def Let_def split: if_splits)
  obtain best rest where best: "sort_slice option_before ?opts = best # rest"
    using assms(1) by (auto simp: choose_group_def Let_def split: if_splits list.splits)
  define seg where "seg = map sl_node (take ?n (so_slots best))"
  have st': "st' = \<lparr>sf_chosen = seg @ sf_chosen st,
      sf_onShape = madd (so_shape best) (jg_Replicas grp) (sf_onShape st), sf_nodes = sf_nodes st @ seg\<rparr>"
    using assms(1) best by (auto simp: choose_group_def Let_def seg_def split: if_splits)
  have "best \<in> set (sort_slice option_before ?opts)" unfolding best by simp
  then have "best \<in> set ?opts" by (simp only: set_sort_slice)
  then obtain shape opt where o: "(shape, opt) \<in> set ?m" "\<not> length (so_slots opt) < ?n"
    "so_slots best = sort_slice slot_before (so_slots opt)"
    by (auto simp: Let_def)
  have ok: "distinct (map sl_node (so_slots opt))"
    "\<And>s. s \<in> set (so_slots opt) \<Longrightarrow> \<exists>lab. (sl_node s, lab) \<in> set L
      \<and> offered Q e sizes one st grp (sl_node s, lab) \<and> shapeOf lab (mget [] sizes (sl_node s)) = shape"
    using shapes_okD [OF shapes_ok_by_shape [OF wf] o(1)] unfolding shape_ok_def by blast+
  have each: "offered Q e sizes one st grp (node, mget [] L node)
      \<and> shapeOf (mget [] L node) (mget [] sizes node) = shape" if "node \<in> set seg" for node
  proof -
    from that obtain s where "s \<in> set (so_slots opt)" "node = sl_node s"
      by (auto simp: seg_def o(3) dest!: in_set_takeD)
    with ok(2) obtain lab where lab: "(node, lab) \<in> set L" "offered Q e sizes one st grp (node, lab)"
      "shapeOf lab (mget [] sizes node) = shape" by blast
    with mget_in [OF wf lab(1), of "[]"] show ?thesis by simp
  qed
  have len: "length seg = ?n" using o(2) by (simp add: seg_def o(3))
  have "distinct seg" unfolding seg_def o(3) by (rule distinct_take_slots [OF ok(1)])
  with len pos each have "group_slots Q e sizes L grp seg"
    by (auto simp: group_slots_def offered_def)
  moreover have "set seg \<inter> set (sf_chosen st) = {}" using each by (auto simp: offered_def)
  moreover have "seg \<noteq> []" using len pos by auto
  ultimately show ?thesis using that [of seg] st' by simp
qed

lemma choose_groups_Inr:
  "choose_groups Q e cluster sizes free L networked one grps st = Inr st' \<Longrightarrow> wf_map L \<Longrightarrow>
     \<exists>segs. list_all2 (group_slots Q e sizes L) grps segs \<and> sf_nodes st' = sf_nodes st @ concat segs
       \<and> distinct (concat segs) \<and> set (concat segs) \<inter> set (sf_chosen st) = {} \<and> [] \<notin> set segs"
proof (induction grps arbitrary: st)
  case Nil
  then show ?case by (intro exI [of _ "[]"]) simp
next
  case (Cons grp grps)
  then obtain st1 where g: "choose_group Q e cluster sizes free L networked one grp st = Inr st1"
    and rest: "choose_groups Q e cluster sizes free L networked one grps st1 = Inr st'"
    by (auto split: sum.splits)
  obtain seg where seg: "sf_nodes st1 = sf_nodes st @ seg" "sf_chosen st1 = seg @ sf_chosen st"
    "group_slots Q e sizes L grp seg" "set seg \<inter> set (sf_chosen st) = {}" "seg \<noteq> []"
    by (rule choose_group_Inr [OF g Cons.prems(2)])
  from Cons.IH [OF rest Cons.prems(2)] obtain segs where segs: "list_all2 (group_slots Q e sizes L) grps segs"
    "sf_nodes st' = sf_nodes st1 @ concat segs" "distinct (concat segs)"
    "set (concat segs) \<inter> set (sf_chosen st1) = {}" "[] \<notin> set segs" by (elim exE conjE)
  have "distinct seg" using seg(3) by (simp add: group_slots_def)
  with seg segs show ?case by (intro exI [of _ "seg # segs"]) auto
qed

lemma slotsFor_Inr:
  assumes "slotsFor Q e cluster sizes free L networked = Inr (nodes, isFree)" and "wf_map L"
  shows "\<exists>segs. list_all2 (group_slots Q e sizes L) (NodeGroups (ex_Job e)) segs \<and> nodes = concat segs
     \<and> distinct nodes \<and> [] \<notin> set segs"
    and "isFree \<Longrightarrow> \<forall>node \<in> set nodes. NodeHasRoom (map_of free node) (mget [] sizes node)"
proof -
  let ?st0 = "\<lparr>sf_chosen = [], sf_onShape = [], sf_nodes = []\<rparr>"
  obtain one st where c: "choose_groups Q e cluster sizes free L networked one (NodeGroups (ex_Job e)) ?st0 = Inr st"
    and n: "nodes = sf_nodes st" and f: "isFree = list_all (\<lambda>node.
                        let lab = mget [] L node; sz = mget [] sizes node
                        in NodeHasRoom (map_of free node) sz
                           \<and> \<not> (networked \<and> SlotNetwork lab < geti (sf_onShape st) (shapeOf lab sz))) (sf_nodes st)"
    using assms(1) by (auto simp: slotsFor_def split: option.splits sum.splits)
  from choose_groups_Inr [OF c assms(2)] show "\<exists>segs. list_all2 (group_slots Q e sizes L) (NodeGroups (ex_Job e)) segs
     \<and> nodes = concat segs \<and> distinct nodes \<and> [] \<notin> set segs"
    by (auto simp: n)
  show "isFree \<Longrightarrow> \<forall>node \<in> set nodes. NodeHasRoom (map_of free node) (mget [] sizes node)"
    by (simp add: f n list_all_iff Let_def)
qed

subsection \<open>A job sized to its slots fills them\<close>

text \<open>What the resource package documents of the text it writes: it reads back.\<close>

definition quantity_roundtrip :: "quantity_lib \<Rightarrow> bool" where
  "quantity_roundtrip Q \<longleftrightarrow>
     (\<forall>v > 0. \<exists>q. ParseQuantity Q (lib_milli_string Q v) = Inr q \<and> MilliValue q = v)
     \<and> (\<forall>v > 0. \<exists>q. ParseQuantity Q (lib_binary_string Q v) = Inr q \<and> Value q = v)"

lemma int64_of_int [simp]: "int64_of (of_int v) = v"
  by (simp add: int64_of_def)

lemma sized_resource:
  assumes "quantity_roundtrip Q" and "0 < v"
  shows "node_resource Q key (QuantityString Q key (of_int v)) = [(key, v)]"
  using assms by (auto simp: quantity_roundtrip_def node_resource_def QuantityString_def)

lemma sized_node:
  assumes Q: "quantity_roundtrip Q" and pos: "\<And>k. k \<in> node_dimensions \<Longrightarrow> 0 < geti sz k"
    and "sizedTo Q e sz n = (cpu, memory, storage, n')"
    and "jg_CPU g = cpu" and "jg_Memory g = memory" and "jg_Storage g = storage"
  shows "k \<in> node_dimensions \<Longrightarrow> geti (nodeResources Q g) k = geti sz k"
proof -
  have r: "node_resource Q key (QuantityString Q key (of_int (geti sz key))) = [(key, geti sz key)]"
    if "key \<in> node_dimensions" for key
    using sized_resource [OF Q pos [OF that]] .
  have "nodeResources Q g = map (\<lambda>key. (key, geti sz key))
      [NodeResourceCPUMillicores, NodeResourceMemoryBytes, NodeResourceStorageBytes]"
    using assms(3-6) r by (simp add: nodeResources_def sizedTo_def node_dimensions_def) force
  then show "k \<in> node_dimensions \<Longrightarrow> ?thesis" by (auto simp: node_dimensions_def mget_Cons)
qed

lemma takes_size: "takes Q e grp lab sz \<Longrightarrow> k \<in> node_dimensions \<Longrightarrow> 0 < geti sz k"
  by (auto simp: takes_def SlotTakes_def Let_def quantity_within_def node_dimensions_def
      split: if_splits sum.splits)

text \<open>The node shapes of a group, and of groups sized to the slots of their segments.\<close>

definition group_shapes :: "quantity_lib \<Rightarrow> JobGroup \<Rightarrow> NodeShape list" where
  "group_shapes Q g = replicate (nat (jg_Replicas g))
     \<lparr>ns_Group = jg_Name g, ns_AcceleratorCount = jg_AcceleratorCount g, ns_Resources = nodeResources Q g\<rparr>"

lemma NodeShapes_of_groups: "NodeShapes_of Q j = concat (map (group_shapes Q) (NodeGroups j))"
  unfolding NodeShapes_of_def group_shapes_def by simp

text \<open>A shape asks for everything a slot of this size has.\<close>

definition fills :: "capmap \<Rightarrow> NodeShape \<Rightarrow> string \<Rightarrow> bool" where
  "fills sizes s node \<longleftrightarrow> (\<forall>k \<in> node_dimensions. geti (ns_Resources s) k = geti (mget [] sizes node) k)"

lemma size_group_fills:
  assumes Q: "quantity_roundtrip Q" and seg: "group_slots Q e sizes L grp seg" "seg \<noteq> []"
    and sized: "sizedTo Q e (mget [] sizes (hd seg)) n = (cpu, memory, storage, n')"
    and g: "jg_CPU g = cpu" "jg_Memory g = memory" "jg_Storage g = storage" "jg_Replicas g = jg_Replicas grp"
  shows "list_all2 (fills sizes) (group_shapes Q g) seg"
proof -
  from seg obtain shape where sh: "\<forall>node \<in> set seg. takes Q e grp (mget [] L node) (mget [] sizes node)
      \<and> shapeOf (mget [] L node) (mget [] sizes node) = shape"
    by (auto simp: group_slots_def)
  have hd: "hd seg \<in> set seg" using seg(2) by simp
  have "geti (nodeResources Q g) k = geti (mget [] sizes node) k" if "node \<in> set seg" "k \<in> node_dimensions" for node k
  proof -
    have "takes Q e grp (mget [] L (hd seg)) (mget [] sizes (hd seg))" using sh hd by blast
    from sized_node [OF Q takes_size [OF this] sized g(1-3) that(2)]
    have "geti (nodeResources Q g) k = geti (mget [] sizes (hd seg)) k" by simp
    moreover have "shapeOf (mget [] L (hd seg)) (mget [] sizes (hd seg)) =
        shapeOf (mget [] L node) (mget [] sizes node)" using sh hd that(1) by simp
    ultimately show ?thesis using that(2) by (simp add: shapeOf_inj)
  qed
  moreover have "length seg = nat (jg_Replicas g)" using group_slots_length [OF seg(1)] g(4) by simp
  ultimately show ?thesis
    by (auto simp: list_all2_conv_all_nth group_shapes_def fills_def)
qed

lemma size_groups_fill:
  assumes Q: "quantity_roundtrip Q"
  shows "list_all2 (group_slots Q e sizes L) grps segs \<Longrightarrow> [] \<notin> set segs \<Longrightarrow>
     list_all2 (fills sizes) (concat (map (group_shapes Q)
       (size_groups Q e sizes (pre @ concat segs) (length pre) grps))) (concat segs)"
proof (induction grps segs arbitrary: pre rule: list_all2_induct)
  case Nil
  then show ?case by simp
next
  case (Cons grp grps seg segs)
  obtain cpu memory storage n where sized: "sizedTo Q e (mget [] sizes (hd seg)) (jg_AcceleratorCount grp) =
      (cpu, memory, storage, n)" by (metis prod_cases4)
  let ?g = "grp\<lparr>jg_CPU := cpu, jg_Memory := memory, jg_Storage := storage, jg_AcceleratorCount := n\<rparr>"
  have ne: "seg \<noteq> []" using Cons.prems by auto
  then have at: "(pre @ concat (seg # segs)) ! length pre = hd seg" by (cases seg) (simp_all add: nth_append)
  have len: "length pre + nat (jg_Replicas grp) = length (pre @ seg)"
    using group_slots_length [OF Cons.hyps(1)] by simp
  have "size_groups Q e sizes (pre @ concat (seg # segs)) (length pre) (grp # grps) =
      ?g # size_groups Q e sizes ((pre @ seg) @ concat segs) (length (pre @ seg)) grps"
    using at sized len by simp
  moreover have "list_all2 (fills sizes) (group_shapes Q ?g) seg"
    by (rule size_group_fills [OF Q Cons.hyps(1) ne sized]) simp_all
  moreover have "list_all2 (fills sizes) (concat (map (group_shapes Q)
       (size_groups Q e sizes ((pre @ seg) @ concat segs) (length (pre @ seg)) grps))) (concat segs)"
    by (rule Cons.IH) (use Cons.prems in simp)
  ultimately show ?case by (simp add: list_all2_appendI)
qed

end
