(* ===== verification/Clusters.thy ===== *)
theory Clusters
  imports Slots "HOL-Library.Product_Lexorder"
begin

text \<open>
  The choice of a cluster (placement/clusters.go): the clusters of an org in tiers of rank, and
  the cluster and accelerator type a job that holds none is tried on.  The registered cluster
  is domain.Cluster (controlplane/domain/tenancy.go), in the fields placement reads.

  ClusterAndFootprint says its choice of type by writing it into the experiment, so it returns
  the experiment too.
\<close>

subsection \<open>Registered clusters\<close>

record Cluster =
  cl_Name :: string
  cl_OrgID :: string
  cl_Priority :: int
  cl_ReportedID :: string
  cl_DisabledOrgs :: "string list"

definition PlatformOrgID :: string where
  "PlatformOrgID = ''default''"

definition OfPlatform :: "Cluster \<Rightarrow> bool" where
  "OfPlatform c \<longleftrightarrow> cl_OrgID c = PlatformOrgID"

definition OpenTo :: "Cluster \<Rightarrow> string \<Rightarrow> bool" where
  "OpenTo c orgID \<longleftrightarrow> OfPlatform c \<or> cl_OrgID c = orgID"

definition EnabledFor :: "Cluster \<Rightarrow> string \<Rightarrow> bool" where
  "EnabledFor c orgID \<longleftrightarrow> orgID \<notin> set (cl_DisabledOrgs c)"

definition Hosts :: "Cluster \<Rightarrow> string \<Rightarrow> bool" where
  "Hosts c orgID \<longleftrightarrow> OpenTo c orgID \<and> EnabledFor c orgID"

definition Rank :: "Cluster \<Rightarrow> string \<Rightarrow> int" where
  "Rank c orgID = (if cl_OrgID c = orgID then cl_Priority c else 0)"

text \<open>Go's zero value, which a name nobody registered reads as.\<close>

definition no_cluster :: Cluster where
  "no_cluster = \<lparr>cl_Name = [], cl_OrgID = [], cl_Priority = 0, cl_ReportedID = [], cl_DisabledOrgs = []\<rparr>"

type_synonym registry = "(string, Cluster) gomap"

definition rank_in :: "registry \<Rightarrow> string \<Rightarrow> string \<Rightarrow> int" where
  "rank_in registered orgID name = Rank (mget no_cluster registered name) orgID"

subsection \<open>Tiers\<close>

definition tier_before :: "registry \<Rightarrow> string \<Rightarrow> string \<Rightarrow> string \<Rightarrow> bool" where
  "tier_before registered orgID a b =
     (if rank_in registered orgID a \<noteq> rank_in registered orgID b
      then rank_in registered orgID a > rank_in registered orgID b else a < b)"

interpretation tier_order: strict_weak_order "tier_before registered orgID" for registered orgID
  unfolding tier_before_def [abs_def] by (intro swo_desc_then swo_key)

text \<open>A new tier where the rank differs from the name before.\<close>

fun split_tiers :: "(string \<Rightarrow> int) \<Rightarrow> string list \<Rightarrow> string list list" where
  "split_tiers rk [] = []"
| "split_tiers rk [x] = [[x]]"
| "split_tiers rk (x # y # ys) =
     (if rk x \<noteq> rk y then [x] # split_tiers rk (y # ys)
      else case split_tiers rk (y # ys) of [] \<Rightarrow> [[x]] | t # ts \<Rightarrow> (x # t) # ts)"

definition Tiers :: "(string, Footprint) gomap \<Rightarrow> registry \<Rightarrow> string \<Rightarrow> string list list" where
  "Tiers avail registered orgID =
     split_tiers (rank_in registered orgID) (sort_slice (tier_before registered orgID) (keys avail))"

definition within_tier :: "(string, Footprint) gomap \<Rightarrow> string list \<Rightarrow> (string, Footprint) gomap" where
  "within_tier avail tier = fold (\<lambda>name out. mput name (mget [] avail name) out) tier []"

subsection \<open>The cluster for a job\<close>

text \<open>The walk over one tier: the best so far and its room, "" for none.\<close>

fun tier_best :: "(string \<Rightarrow> int option) \<Rightarrow> string \<Rightarrow> int \<Rightarrow> string list \<Rightarrow> string" where
  "tier_best room best bestRoom [] = best"
| "tier_best room best bestRoom (c # cs) =
     (case room c of
        None \<Rightarrow> tier_best room best bestRoom cs
      | Some r \<Rightarrow> if best = [] \<or> r > bestRoom then tier_best room c r cs else tier_best room best bestRoom cs)"

text \<open>The room of a candidate for jobs like \<open>e\<close>, none where the job does not fit now.\<close>

definition candidate_room :: "quantity_lib \<Rightarrow> (string, Footprint) gomap \<Rightarrow> (string, capmap) gomap \<Rightarrow> (string, capmap) gomap
    \<Rightarrow> (string, labelmap) gomap \<Rightarrow> Experiment \<Rightarrow> string \<Rightarrow> int option" where
  "candidate_room Q avail nodeAvail nodeRes nodeLabels e c =
     (case OnSlots Q e c (mget [] nodeRes c) (mget [] nodeLabels c) of
        None \<Rightarrow> None
      | Some probe \<Rightarrow>
          let fp = exp_Footprint Q probe
          in if \<not> Fits (mget [] avail c) fp
                \<or> \<not> TopologyFits Q (mget [] nodeAvail c) (mget [] nodeRes c) (mget [] nodeLabels c) probe
             then None else Some (roomFor (mget [] avail c) fp))"

fun first_tier :: "(string \<Rightarrow> int option) \<Rightarrow> string list list \<Rightarrow> string option" where
  "first_tier room [] = None"
| "first_tier room (t # ts) =
     (let best = tier_best room [] 0 t in if best \<noteq> [] then Some best else first_tier room ts)"

definition AtAcceleratorType :: "quantity_lib \<Rightarrow> (string, Footprint) gomap \<Rightarrow> registry \<Rightarrow> (string, capmap) gomap
    \<Rightarrow> (string, capmap) gomap \<Rightarrow> (string, labelmap) gomap \<Rightarrow> Experiment \<Rightarrow> string option" where
  "AtAcceleratorType Q avail registered nodeAvail nodeRes nodeLabels e =
     first_tier (candidate_room Q avail nodeAvail nodeRes nodeLabels e) (Tiers avail registered (ex_OrgID e))"

text \<open>BestFit: the first cluster that fits, then the least short of those that could.\<close>

definition shortage :: "Footprint \<Rightarrow> Footprint \<Rightarrow> int" where
  "shortage avail footprint = sum_list (map snd (Shortfall avail footprint))"

fun least_short :: "(string, Footprint) gomap \<Rightarrow> Footprint \<Rightarrow> string \<Rightarrow> int \<Rightarrow> string list \<Rightarrow> string" where
  "least_short avail footprint best bestShortage [] = best"
| "least_short avail footprint best bestShortage (c # cs) =
     (if \<not> ReportsEveryDimension (mget [] avail c) footprint
      then least_short avail footprint best bestShortage cs
      else
        let s = shortage (mget [] avail c) footprint
        in if bestShortage < 0 \<or> s < bestShortage
           then least_short avail footprint c s cs else least_short avail footprint best bestShortage cs)"

fun first_short_tier :: "(string, Footprint) gomap \<Rightarrow> Footprint \<Rightarrow> string list list \<Rightarrow> string" where
  "first_short_tier avail footprint [] = []"
| "first_short_tier avail footprint (t # ts) =
     (let best = least_short avail footprint [] (-1) t
      in if best \<noteq> [] then best else first_short_tier avail footprint ts)"

definition BestFit :: "(string, Footprint) gomap \<Rightarrow> registry \<Rightarrow> string \<Rightarrow> Footprint \<Rightarrow> string" where
  "BestFit avail registered orgID footprint =
     (let tiers = Tiers avail registered orgID
      in case find (\<lambda>c. Fits (mget [] avail c) footprint) (concat tiers) of
           Some c \<Rightarrow> c
         | None \<Rightarrow> first_short_tier avail footprint tiers)"

text \<open>The walk over the tiers, and within one over the accelerator types.\<close>

fun try_types :: "quantity_lib \<Rightarrow> (string, Footprint) gomap \<Rightarrow> registry \<Rightarrow> (string, capmap) gomap \<Rightarrow> (string, capmap) gomap
    \<Rightarrow> (string, labelmap) gomap \<Rightarrow> Experiment \<Rightarrow> AcceleratorType list \<Rightarrow> (string \<times> AcceleratorType) option" where
  "try_types Q avail registered nodeAvail nodeRes nodeLabels e [] = None"
| "try_types Q avail registered nodeAvail nodeRes nodeLabels e (t # ts) =
     (case AtAcceleratorType Q avail registered nodeAvail nodeRes nodeLabels (e\<lparr>ex_AcceleratorType := t\<rparr>) of
        Some cluster \<Rightarrow> Some (cluster, t)
      | None \<Rightarrow> try_types Q avail registered nodeAvail nodeRes nodeLabels e ts)"

fun try_tiers :: "quantity_lib \<Rightarrow> (string, Footprint) gomap \<Rightarrow> registry \<Rightarrow> (string, capmap) gomap \<Rightarrow> (string, capmap) gomap
    \<Rightarrow> (string, labelmap) gomap \<Rightarrow> Experiment \<Rightarrow> AcceleratorType list \<Rightarrow> string list list
    \<Rightarrow> (string \<times> AcceleratorType) option" where
  "try_tiers Q avail registered nodeAvail nodeRes nodeLabels e types [] = None"
| "try_tiers Q avail registered nodeAvail nodeRes nodeLabels e types (tier # tiers) =
     (case try_types Q (within_tier avail tier) registered nodeAvail nodeRes nodeLabels e types of
        Some choice \<Rightarrow> Some choice
      | None \<Rightarrow> try_tiers Q avail registered nodeAvail nodeRes nodeLabels e types tiers)"

definition ClusterAndFootprint :: "quantity_lib \<Rightarrow> (string, Footprint) gomap \<Rightarrow> registry \<Rightarrow> (string, capmap) gomap
    \<Rightarrow> (string, capmap) gomap \<Rightarrow> (string, labelmap) gomap \<Rightarrow> Experiment \<Rightarrow> string \<times> Footprint \<times> Experiment" where
  "ClusterAndFootprint Q avail registered nodeAvail nodeRes nodeLabels e =
     (let types = (if TotalAccelerators (ex_Job e) \<le> 0 then [ex_AcceleratorType e] else CandidateTypes e)
      in case types of
           [] \<Rightarrow> ([], [], e)
         | preferred # _ \<Rightarrow>
             (case try_tiers Q avail registered nodeAvail nodeRes nodeLabels e types
                     (Tiers avail registered (ex_OrgID e)) of
                Some (cluster, t) \<Rightarrow>
                  (cluster, exp_Footprint Q (e\<lparr>ex_AcceleratorType := t\<rparr>), e\<lparr>ex_AcceleratorType := t\<rparr>)
              | None \<Rightarrow>
                  let fallback = exp_Footprint Q (e\<lparr>ex_AcceleratorType := preferred\<rparr>)
                  in (BestFit avail registered (ex_OrgID e) fallback, fallback, e)))"

subsection \<open>What an order of tiers promises\<close>

text \<open>
  The contract of Tiers, as its callers use it: every name once, names of one rank together,
  higher ranks first, names ascending within a tier.
\<close>

locale ranked_tiers =
  fixes rk :: "string \<Rightarrow> int" and names :: "string list" and tiers :: "string list list"
  assumes tiers_names: "set (concat tiers) = set names"
    and tier_level: "t \<in> set tiers \<Longrightarrow> x \<in> set t \<Longrightarrow> y \<in> set t \<Longrightarrow> rk x = rk y"
    and tiers_fall: "sorted_wrt (\<lambda>s t. \<forall>x \<in> set s. \<forall>y \<in> set t. rk x > rk y) tiers"
    and tier_names: "t \<in> set tiers \<Longrightarrow> sorted_wrt (<) t"
begin

text \<open>A walk that stops at the first tier holding a usable name stops at the highest rank that has one.\<close>

lemma first_usable_rank:
  assumes split: "tiers = pre @ t # post" and none: "\<forall>s \<in> set pre. \<forall>x \<in> set s. \<not> usable x"
    and c: "c \<in> set t" and d: "d \<in> set names" "usable d"
  shows "rk d \<le> rk c \<and> (rk d = rk c \<longrightarrow> d \<in> set t)"
proof -
  from d(1) tiers_names obtain s where s: "s \<in> set tiers" "d \<in> set s" by auto
  with none d(2) split consider "s = t" | "s \<in> set post" by auto
  then show ?thesis
  proof cases
    case 1
    with s c tier_level [of t d c] split show ?thesis by auto
  next
    case 2
    with tiers_fall split s c have "rk d < rk c" by (auto simp: sorted_wrt_append)
    then show ?thesis by simp
  qed
qed

text \<open>Read one after the other, the tiers are the names by rank and then by name.\<close>

lemma concat_sorted: "sorted_wrt (\<lambda>a b. rk b < rk a \<or> rk b = rk a \<and> a < b) (concat tiers)"
proof -
  have "sorted_wrt (\<lambda>a b. rk b < rk a \<or> rk b = rk a \<and> a < b) (concat ts)"
    if "set ts \<subseteq> set tiers" "sorted_wrt (\<lambda>s t. \<forall>x \<in> set s. \<forall>y \<in> set t. rk x > rk y) ts" for ts
    using that
  proof (induction ts)
    case (Cons t ts)
    have "sorted_wrt (\<lambda>a b. rk b < rk a \<or> rk b = rk a \<and> a < b) t"
    proof (rule sorted_wrt_mono_rel)
      show "sorted_wrt (<) t" using Cons.prems(1) tier_names by simp
      show "rk b < rk a \<or> rk b = rk a \<and> a < b" if "a \<in> set t" "b \<in> set t" "a < b" for a b
        using that tier_level [of t b a] Cons.prems(1) by simp
    qed
    with Cons show ?case by (auto simp: sorted_wrt_append)
  qed simp
  with tiers_fall show ?thesis by blast
qed

end

subsection \<open>Tiers keeps the promise\<close>

lemma concat_split_tiers [simp]: "concat (split_tiers rk xs) = xs"
  by (induction rk xs rule: split_tiers.induct) (auto split: list.splits)

lemma split_tiers_Cons: "\<exists>t ts. split_tiers rk (x # xs) = (x # t) # ts"
  by (cases xs) (auto split: list.splits)

definition level :: "(string \<Rightarrow> int) \<Rightarrow> string list \<Rightarrow> bool" where
  "level rk t \<longleftrightarrow> (\<exists>r. \<forall>x \<in> set t. rk x = r)"

lemma level_single: "level rk [x]"
  by (simp add: level_def)

lemma level_Cons: "rk x = rk y \<Longrightarrow> level rk (y # t) \<Longrightarrow> level rk (x # y # t)"
  unfolding level_def by (rule exI [of _ "rk y"]) auto

lemma split_tiers_levels: "\<forall>t \<in> set (split_tiers rk xs). level rk t"
proof (induction rk xs rule: split_tiers.induct)
  case (3 rk a b ys)
  obtain u us where "split_tiers rk (b # ys) = (b # u) # us" using split_tiers_Cons by blast
  with 3 show ?case by (simp add: level_single level_Cons)
qed (simp_all add: level_single)

lemma split_tiers_level:
  assumes "t \<in> set (split_tiers rk xs)" and "x \<in> set t" and "y \<in> set t"
  shows "rk x = rk y"
proof -
  from assms(1) obtain r where "\<forall>x \<in> set t. rk x = r" using split_tiers_levels unfolding level_def by blast
  with assms show ?thesis by simp
qed

lemma split_tiers_fall:
  "sorted_wrt (\<lambda>a b. rk a \<ge> rk b) xs
   \<Longrightarrow> sorted_wrt (\<lambda>s t. \<forall>x \<in> set s. \<forall>y \<in> set t. rk x > rk y) (split_tiers rk xs)"
proof (induction rk xs rule: split_tiers.induct)
  case (3 rk a b ys)
  obtain u us where u: "split_tiers rk (b # ys) = (b # u) # us" using split_tiers_Cons by blast
  have all: "set (concat (split_tiers rk (b # ys))) = set (b # ys)" by simp
  show ?case
  proof (cases "rk a = rk b")
    case True
    with 3 u show ?thesis by auto
  next
    case False
    with 3(3) have "rk a > rk y" if "y \<in> set (b # ys)" for y using that by force
    with 3 u False all show ?thesis by auto
  qed
qed auto

lemma split_tiers_sorted:
  assumes "sorted_wrt R xs" and "t \<in> set (split_tiers rk xs)"
  shows "sorted_wrt R t"
proof -
  obtain pre post where "split_tiers rk xs = pre @ t # post" using assms(2) by (auto dest: split_list)
  then have "xs = concat pre @ t @ concat post" using concat_split_tiers [of rk xs] by simp
  with assms(1) show ?thesis by (simp add: sorted_wrt_append)
qed

lemma tier_before_iff: "\<not> tier_before registered orgID b a \<longleftrightarrow>
   rank_in registered orgID a > rank_in registered orgID b
   \<or> rank_in registered orgID a = rank_in registered orgID b \<and> a \<le> b"
  by (auto simp: tier_before_def)

lemma Tiers_ranked:
  assumes "wf_map avail"
  shows "ranked_tiers (rank_in registered orgID) (keys avail) (Tiers avail registered orgID)"
proof -
  let ?rk = "rank_in registered orgID"
  let ?xs = "sort_slice (tier_before registered orgID) (keys avail)"
  have nb: "sorted_wrt (\<lambda>a b. \<not> tier_before registered orgID b a) ?xs" by (rule tier_order.sorted_sort_slice)
  then have ge: "sorted_wrt (\<lambda>a b. ?rk a \<ge> ?rk b) ?xs"
    by (rule sorted_wrt_mono_rel [rotated]) (auto simp: tier_before_iff)
  have d: "distinct ?xs" using assms by (simp add: wf_map_def keys_def)
  show ?thesis
  proof
    show "set (concat (Tiers avail registered orgID)) = set (keys avail)" by (simp add: Tiers_def)
    show "?rk x = ?rk y" if "t \<in> set (Tiers avail registered orgID)" "x \<in> set t" "y \<in> set t" for t x y
      using that split_tiers_level by (simp add: Tiers_def)
    show "sorted_wrt (\<lambda>s t. \<forall>x\<in>set s. \<forall>y\<in>set t. ?rk y < ?rk x) (Tiers avail registered orgID)"
      unfolding Tiers_def by (rule split_tiers_fall [OF ge])
    show "sorted_wrt (<) t" if t: "t \<in> set (Tiers avail registered orgID)" for t
    proof -
      have "sorted_wrt (\<lambda>a b. \<not> tier_before registered orgID b a \<and> a \<noteq> b) ?xs"
        using nb d by (simp add: sorted_wrt_iff_nth_less distinct_conv_nth)
      then have st: "sorted_wrt (\<lambda>a b. \<not> tier_before registered orgID b a \<and> a \<noteq> b) t"
        by (rule split_tiers_sorted) (use t in \<open>simp add: Tiers_def\<close>)
      have lv: "?rk a = ?rk b" if "a \<in> set t" "b \<in> set t" for a b
        using t that split_tiers_level by (simp add: Tiers_def)
      show ?thesis
      proof (rule sorted_wrt_mono_rel [OF _ st])
        fix a b
        assume "a \<in> set t" "b \<in> set t" "\<not> tier_before registered orgID b a \<and> a \<noteq> b"
        with lv [of a b] show "a < b" by (simp add: tier_before_iff order_less_le)
      qed
    qed
  qed
qed

subsection \<open>The walks over the tiers\<close>

text \<open>The best of one tier: most room, and of equal rooms the first name.\<close>

definition better :: "(string \<Rightarrow> int option) \<Rightarrow> string \<Rightarrow> string \<Rightarrow> bool" where
  "better room a b \<longleftrightarrow> (\<forall>r. room b = Some r \<longrightarrow>
     (\<exists>q. room a = Some q \<and> (r < q \<or> r = q \<and> a \<le> b)))"

lemma better_refl: "better room a a"
  by (simp add: better_def)

lemma better_trans: "better room a b \<Longrightarrow> room b \<noteq> None \<Longrightarrow> better room b c \<Longrightarrow> better room a c"
  by (fastforce simp: better_def)

lemma better_None: "room b = None \<Longrightarrow> better room a b"
  by (simp add: better_def)

lemma tier_best_keeps:
  assumes "sorted_wrt (<) (best # cs)" and "[] \<notin> set cs" and "best \<noteq> []" and "room best = Some r"
  shows "tier_best room best r cs \<in> set (best # cs) \<and> tier_best room best r cs \<noteq> []
       \<and> room (tier_best room best r cs) \<noteq> None \<and> (\<forall>c \<in> set (best # cs). better room (tier_best room best r cs) c)"
  using assms
proof (induction cs arbitrary: best r)
  case Nil
  then show ?case by (simp add: better_refl)
next
  case (Cons c cs)
  show ?case
  proof (cases "\<exists>q. room c = Some q \<and> q > r")
    case True
    then obtain q where q: "room c = Some q" "q > r" by blast
    have eq: "tier_best room best r (c # cs) = tier_best room c q cs" using q by simp
    have ih: "tier_best room c q cs \<in> set (c # cs) \<and> tier_best room c q cs \<noteq> []
       \<and> room (tier_best room c q cs) \<noteq> None \<and> (\<forall>d \<in> set (c # cs). better room (tier_best room c q cs) d)"
      by (rule Cons.IH) (use Cons.prems q in auto)
    have "better room c best" using q Cons.prems(4) by (simp add: better_def)
    moreover have "better room (tier_best room c q cs) c" using ih by simp
    ultimately have "better room (tier_best room c q cs) best" using q better_trans by blast
    with ih show ?thesis unfolding eq by simp
  next
    case False
    have eq: "tier_best room best r (c # cs) = tier_best room best r cs"
      using False Cons.prems(3) by (auto split: option.splits)
    have ih: "tier_best room best r cs \<in> set (best # cs) \<and> tier_best room best r cs \<noteq> []
       \<and> room (tier_best room best r cs) \<noteq> None \<and> (\<forall>d \<in> set (best # cs). better room (tier_best room best r cs) d)"
      by (rule Cons.IH) (use Cons.prems in auto)
    have "better room best c" using False Cons.prems(1,4) by (auto simp: better_def not_less)
    then have "better room (tier_best room best r cs) c"
      using ih Cons.prems(4) better_trans [of room "tier_best room best r cs" best c] by simp
    with ih show ?thesis unfolding eq by auto
  qed
qed

lemma tier_best_none:
  assumes "[] \<notin> set cs" and "\<forall>c \<in> set cs. room c = None"
  shows "tier_best room best r cs = best"
  using assms by (induction cs) auto

lemma tier_best_some:
  assumes "sorted_wrt (<) cs" and "[] \<notin> set cs" and "\<exists>c \<in> set cs. room c \<noteq> None"
  shows "tier_best room [] 0 cs \<in> set cs \<and> tier_best room [] 0 cs \<noteq> []
       \<and> room (tier_best room [] 0 cs) \<noteq> None \<and> (\<forall>c \<in> set cs. better room (tier_best room [] 0 cs) c)"
  using assms
proof (induction cs)
  case (Cons c cs)
  show ?case
  proof (cases "room c")
    case None
    with Cons show ?thesis by (simp add: better_None)
  next
    case (Some r)
    have "c \<noteq> []" using Cons.prems(2) by auto
    with Some Cons.prems tier_best_keeps [of c cs room r] show ?thesis by simp
  qed
qed simp

lemma first_tier_Some:
  assumes "first_tier room tiers = Some c" and "\<forall>t \<in> set tiers. sorted_wrt (<) t \<and> [] \<notin> set t"
  shows "\<exists>pre t post. tiers = pre @ t # post \<and> (\<forall>s \<in> set pre. \<forall>x \<in> set s. room x = None)
    \<and> c \<in> set t \<and> room c \<noteq> None \<and> (\<forall>d \<in> set t. better room c d)"
  using assms
proof (induction tiers)
  case (Cons t ts)
  show ?case
  proof (cases "\<exists>x \<in> set t. room x \<noteq> None")
    case True
    with Cons.prems tier_best_some [of t room] have "c = tier_best room [] 0 t" by simp
    with True Cons.prems tier_best_some [of t room] show ?thesis
      by (intro exI [of _ "[]"] exI [of _ t] exI [of _ ts]) simp
  next
    case False
    then have "first_tier room ts = Some c" using Cons.prems tier_best_none [of t room "[]" 0] by simp
    with Cons obtain pre u post where "ts = pre @ u # post" "\<forall>s \<in> set pre. \<forall>x \<in> set s. room x = None"
      "c \<in> set u \<and> room c \<noteq> None \<and> (\<forall>d \<in> set u. better room c d)" by auto
    with False show ?thesis by (intro exI [of _ "t # pre"] exI [of _ u] exI [of _ post]) simp
  qed
qed simp

lemma first_tier_None:
  assumes "\<forall>t \<in> set tiers. sorted_wrt (<) t \<and> [] \<notin> set t"
  shows "first_tier room tiers = None \<longleftrightarrow> (\<forall>x \<in> set (concat tiers). room x = None)"
  using assms
proof (induction tiers)
  case (Cons t ts)
  show ?case
  proof (cases "\<exists>x \<in> set t. room x \<noteq> None")
    case True
    with Cons.prems tier_best_some [of t room] show ?thesis by (auto simp: Let_def)
  next
    case False
    then have "tier_best room [] 0 t = []" using Cons.prems tier_best_none [of t room "[]" 0] by simp
    with False Cons show ?thesis by auto
  qed
qed simp

context ranked_tiers
begin

lemma tiers_ok: "[] \<notin> set names \<Longrightarrow> \<forall>t \<in> set tiers. sorted_wrt (<) t \<and> [] \<notin> set t"
  using tier_names tiers_names by auto

text \<open>The pick is usable, of the highest rank that has a usable name, and best in its rank.\<close>

lemma first_tier_pick:
  assumes "first_tier room tiers = Some c" and "[] \<notin> set names"
  shows "c \<in> set names" and "room c \<noteq> None"
    and "\<And>d. d \<in> set names \<Longrightarrow> room d \<noteq> None \<Longrightarrow> rk d \<le> rk c \<and> (rk d = rk c \<longrightarrow> better room c d)"
proof -
  obtain pre t post where t: "tiers = pre @ t # post" "\<forall>s \<in> set pre. \<forall>x \<in> set s. room x = None"
    "c \<in> set t" "room c \<noteq> None" "\<forall>d \<in> set t. better room c d"
    using first_tier_Some [OF assms(1) tiers_ok [OF assms(2)]] by blast
  show "c \<in> set names" using t(1,3) tiers_names by auto
  show "room c \<noteq> None" by (rule t(4))
  show "rk d \<le> rk c \<and> (rk d = rk c \<longrightarrow> better room c d)" if "d \<in> set names" "room d \<noteq> None" for d
    using first_usable_rank [of pre t post "\<lambda>x. room x \<noteq> None" c d] t that by simp
qed

lemma first_tier_none:
  assumes "[] \<notin> set names"
  shows "first_tier room tiers = None \<longleftrightarrow> (\<forall>d \<in> set names. room d = None)"
  by (simp only: first_tier_None [OF tiers_ok [OF assms]] tiers_names)

end

end
