(* ===== verification/Resolve.thy ===== *)
theory Resolve
  imports Slots
begin

text \<open>
  The check of a job's cpu, memory and storage against its share of a cluster's nodes
  (scheduler/loop_resolve.go).  The tick's cache keeps the claimed experiments and the node of each
  once asked; the stores it asks are arguments, \<open>None\<close> where they return an error.  A
  misfit is the value the code renders as a not_admitted_reason.
\<close>

record resolve_env =
  re_ListCapacityClaimed :: "Experiment list option"
  re_LatestNode :: "string \<Rightarrow> string option option"

record resolutionCache =
  ca_claimed :: "Experiment list option"
  ca_nodeOf :: "(string, string) gomap"
  ca_recentlyTried :: "string list option"
  ca_speculativeCaps :: "(string, int option) gomap"

definition newResolutionCache :: resolutionCache where
  "newResolutionCache = \<lparr>ca_claimed = None, ca_nodeOf = [], ca_recentlyTried = None, ca_speculativeCaps = []\<rparr>"

datatype resolve_error =
    ListClaimedFailed
  | NodeAttributionFailed string
  | FairShareFailed string share_error
  | QuantityFailed string string quantity_error

datatype misfit =
    SlotMisfit slot_misfit
  | ShareMisfit string string int int bool string \<comment> \<open>dimension, requested, share, accelerators, on cores, cluster\<close>

definition loadClaimed :: "resolve_env \<Rightarrow> resolutionCache \<Rightarrow> Experiment list option \<times> resolutionCache" where
  "loadClaimed env ca =
     (case ca_claimed ca of
        Some claimed \<Rightarrow> (Some claimed, ca)
      | None \<Rightarrow>
          (case re_ListCapacityClaimed env of
             None \<Rightarrow> (None, ca)
           | Some claimed \<Rightarrow> (Some claimed, ca\<lparr>ca_claimed := Some claimed\<rparr>)))"

subsection \<open>What is installed on each node\<close>

definition installedCoresByNode :: "capmap \<Rightarrow> capmap \<Rightarrow> amounts" where
  "installedCoresByNode nodeAvail nodeResTotal =
     fold (\<lambda>(node, byType) installed.
        fold (\<lambda>(t, free) inst.
            if \<not> acc_Is CPUType t then inst
            else
              let units = go_div (geti (mget [] nodeResTotal node) NodeResourceCPUMillicores) 1000
              in mput node (if units > 0 then units else free) inst)
          byType installed)
       nodeAvail []"

text \<open>The walk over the claimed jobs: each adds its accelerators to the one node it is known on.\<close>

fun attribute_claimed :: "resolve_env \<Rightarrow> string \<Rightarrow> AcceleratorType \<Rightarrow> Experiment list \<Rightarrow> amounts \<Rightarrow> resolutionCache
    \<Rightarrow> (resolve_error + amounts) \<times> resolutionCache" where
  "attribute_claimed env cluster t [] installed ca = (Inr installed, ca)"
| "attribute_claimed env cluster t (r # rs) installed ca =
     (if ex_ClusterName r \<noteq> cluster \<or> ex_AcceleratorCount r \<le> 0 \<or> \<not> acc_Is (ex_AcceleratorType r) t \<or> Nodes (ex_Job r) > 1
      then attribute_claimed env cluster t rs installed ca
      else
        let charge = (\<lambda>node ca'. attribute_claimed env cluster t rs
                        (if node = [] then installed else madd node (ex_AcceleratorCount r) installed) ca')
        in case map_of (ca_nodeOf ca) (ex_ID r) of
             Some node \<Rightarrow> charge node ca
           | None \<Rightarrow>
               (case re_LatestNode env (ex_ID r) of
                  None \<Rightarrow> (Inl (NodeAttributionFailed (ex_ID r)), ca)
                | Some None \<Rightarrow> attribute_claimed env cluster t rs installed ca
                | Some (Some node) \<Rightarrow> charge node (ca\<lparr>ca_nodeOf := mput (ex_ID r) node (ca_nodeOf ca)\<rparr>)))"

definition installedAcceleratorsByNode :: "resolve_env \<Rightarrow> resolutionCache \<Rightarrow> string \<Rightarrow> AcceleratorType \<Rightarrow> capmap \<Rightarrow> capmap
    \<Rightarrow> (resolve_error + amounts) \<times> resolutionCache" where
  "installedAcceleratorsByNode env ca cluster t nodeAvail nodeResTotal =
     (if acc_Kind t = TypeKindCPU then (Inr (installedCoresByNode nodeAvail nodeResTotal), ca)
      else
        let installed = fold (\<lambda>(node, byType). mput node (geti byType (AcceleratorKey t))) nodeAvail []
        in case loadClaimed env ca of
             (None, ca') \<Rightarrow> (Inl ListClaimedFailed, ca')
           | (Some claimed, ca') \<Rightarrow> attribute_claimed env cluster t claimed installed ca')"

subsection \<open>The share of a group\<close>

text \<open>The least share over the nodes that could hold the group, \<open>None\<close> where no node bounds it.\<close>

fun least_share :: "labelmap \<Rightarrow> Experiment \<Rightarrow> amounts \<Rightarrow> string \<Rightarrow> int \<Rightarrow> int option \<Rightarrow> (string \<times> amounts) list
    \<Rightarrow> share_error + int option" where
  "least_share nodeLabels e installed key units share [] = Inr share"
| "least_share nodeLabels e installed key units share ((node, amount) # ns) =
     (if \<not> RunsOn (mget [] nodeLabels node) e \<or> geti installed node \<le> 0
      then least_share nodeLabels e installed key units share ns
      else case FairShare (geti amount key) units (geti installed node) of
          Inl err \<Rightarrow> Inl err
        | Inr ofNode \<Rightarrow>
            least_share nodeLabels e installed key units
              (case share of None \<Rightarrow> Some ofNode | Some s \<Rightarrow> if ofNode < s then Some ofNode else Some s) ns)"

definition dimensions :: "JobGroup \<Rightarrow> (string \<times> string \<times> string) list" where
  "dimensions grp =
     [(''cpu'', NodeResourceCPUMillicores, jg_CPU grp), (''memory'', NodeResourceMemoryBytes, jg_Memory grp),
      (''storage'', NodeResourceStorageBytes, jg_Storage grp)]"

text \<open>The checks of a group's dimensions in order: an error, a misfit, or nothing to say.\<close>

fun check_dimensions :: "quantity_lib \<Rightarrow> labelmap \<Rightarrow> Experiment \<Rightarrow> string \<Rightarrow> amounts \<Rightarrow> capmap \<Rightarrow> int
    \<Rightarrow> (string \<times> string \<times> string) list \<Rightarrow> resolve_error + misfit option" where
  "check_dimensions Q nodeLabels e cluster installed nodeResTotal units [] = Inr None"
| "check_dimensions Q nodeLabels e cluster installed nodeResTotal units ((name, key, requested) # ds) =
     (case least_share nodeLabels e installed key units None nodeResTotal of
        Inl err \<Rightarrow> Inl (FairShareFailed name err)
      | Inr None \<Rightarrow> check_dimensions Q nodeLabels e cluster installed nodeResTotal units ds
      | Inr (Some share) \<Rightarrow>
          (case QuantityValue Q key requested of
             Inl err \<Rightarrow> Inl (QuantityFailed name requested err)
           | Inr val \<Rightarrow>
               if val > of_int share
               then Inr (Some (ShareMisfit name requested share units (acc_Kind (ex_AcceleratorType e) = TypeKindCPU) cluster))
               else check_dimensions Q nodeLabels e cluster installed nodeResTotal units ds))"

fun check_groups :: "quantity_lib \<Rightarrow> labelmap \<Rightarrow> Experiment \<Rightarrow> string \<Rightarrow> amounts \<Rightarrow> capmap \<Rightarrow> JobGroup list
    \<Rightarrow> resolve_error + misfit option" where
  "check_groups Q nodeLabels e cluster installed nodeResTotal [] = Inr None"
| "check_groups Q nodeLabels e cluster installed nodeResTotal (grp # gs) =
     (if jg_AcceleratorCount grp \<le> 0 then check_groups Q nodeLabels e cluster installed nodeResTotal gs
      else case check_dimensions Q nodeLabels e cluster installed nodeResTotal (jg_AcceleratorCount grp) (dimensions grp) of
          Inl err \<Rightarrow> Inl err
        | Inr (Some m) \<Rightarrow> Inr (Some m)
        | Inr None \<Rightarrow> check_groups Q nodeLabels e cluster installed nodeResTotal gs)"

text \<open>The job as it runs on the cluster, a misfit, or an error; and the cache after.\<close>

definition resolveClusterLocalResources :: "quantity_lib \<Rightarrow> resolve_env \<Rightarrow> resolutionCache \<Rightarrow> Experiment \<Rightarrow> string
    \<Rightarrow> capmap \<Rightarrow> capmap \<Rightarrow> capmap \<Rightarrow> labelmap \<Rightarrow> (resolve_error + (misfit + JobSpec)) \<times> resolutionCache" where
  "resolveClusterLocalResources Q env ca e cluster nodeResTotal nodeAvail nodeRes nodeLabels =
     (if HasSlots nodeLabels then
        (case ResolveOntoSlots Q e cluster nodeResTotal nodeRes nodeLabels of
           Inl m \<Rightarrow> (Inr (Inl (SlotMisfit m)), ca)
         | Inr job \<Rightarrow> (Inr (Inr job), ca))
      else if \<not> list_ex (\<lambda>grp. jg_AcceleratorCount grp > 0) (NodeGroups (ex_Job e)) then (Inr (Inr (ex_Job e)), ca)
      else case installedAcceleratorsByNode env ca cluster (ex_AcceleratorType e) nodeAvail nodeResTotal of
          (Inl err, ca') \<Rightarrow> (Inl err, ca')
        | (Inr installed, ca') \<Rightarrow>
            (case check_groups Q nodeLabels e cluster installed nodeResTotal (NodeGroups (ex_Job e)) of
               Inl err \<Rightarrow> (Inl err, ca')
             | Inr (Some m) \<Rightarrow> (Inr (Inl m), ca')
             | Inr None \<Rightarrow> (Inr (Inr (ex_Job e)), ca')))"

subsection \<open>A share as text\<close>

text \<open>
  \<open>strconv.FormatFloat(n / 10, 'f', -1, 64)\<close> of a number of tenths.
\<close>

definition show_tenths :: "int \<Rightarrow> string" where
  "show_tenths n = show_int (n div 10) @ (if n mod 10 = 0 then [] else ''.'' @ show_int (n mod 10))"

definition shareQuantityString :: "quantity_lib \<Rightarrow> string \<Rightarrow> int \<Rightarrow> string" where
  "shareQuantityString Q key val =
     (if key = NodeResourceCPUMillicores \<or> val < 2 ^ 20 then QuantityString Q key (of_int val)
      else if val \<ge> 2 ^ 30 then show_tenths (val * 10 div 2 ^ 30) @ ''Gi''
      else show_int (val div 2 ^ 20) @ ''Mi'')"

end
