(* ===== verification/QueueOrder.thy ===== *)
theory QueueOrder
  imports Samples
begin

text \<open>
  The order in which a tick considers the queue (scheduler/loop_sort.go) and the agent quota it
  reads (controlplane/domain/quota.go): the comparisons of sortGuaranteed and sortBurst,
  and the round robin over agents of interleaveByAgent.

  Hours, fractions and scores are Go float64 values that are sums and quotients of finite
  measurements; they are rationals here, so rounding is not modelled.  A time is the number of
  nanoseconds since Go's zero time.  \<open>sort.SliceStable\<close> is \<open>sort_slice\<close>.
\<close>

subsection \<open>Agent quota\<close>

record AgentQuota =
  aq_AgentID :: string
  aq_PlatformExperimentID :: string
  aq_GuaranteedAcceleratorHours :: rat
  aq_BurstAcceleratorHours :: rat
  aq_UsedGuaranteedAccH :: rat
  aq_UsedBurstAccH :: rat

definition Share :: "AgentQuota \<Rightarrow> rat" where
  "Share q = (if aq_GuaranteedAcceleratorHours q > 0 then aq_GuaranteedAcceleratorHours q
     else aq_BurstAcceleratorHours q)"

definition Used :: "AgentQuota \<Rightarrow> rat" where
  "Used q = aq_UsedGuaranteedAccH q + aq_UsedBurstAccH q"

definition Remaining :: "AgentQuota \<Rightarrow> CapacityTier \<Rightarrow> rat" where
  "Remaining q tier =
     (let (limit, used) =
        (if tier = CapacityGuaranteed then (aq_GuaranteedAcceleratorHours q, aq_UsedGuaranteedAccH q)
         else (aq_BurstAcceleratorHours q, aq_UsedBurstAccH q))
      in max 0 (min (limit - used) (Share q - Used q)))"

definition aq_DominantUtilization :: "AgentQuota \<Rightarrow> Experiment \<Rightarrow> rat" where
  "aq_DominantUtilization q e =
     (if aq_GuaranteedAcceleratorHours q \<le> 0 \<or> ex_EstimatedCostAccH e \<le> 0 then 0
      else aq_UsedGuaranteedAccH q / aq_GuaranteedAcceleratorHours q)"

definition aq_DominantCostFraction :: "AgentQuota \<Rightarrow> Experiment \<Rightarrow> rat" where
  "aq_DominantCostFraction q e =
     (if aq_GuaranteedAcceleratorHours q \<le> 0 \<or> ex_EstimatedCostAccH e \<le> 0 then 0
      else ex_EstimatedCostAccH e / aq_GuaranteedAcceleratorHours q)"

type_synonym quota_map = "(string, AgentQuota) gomap"

definition quotaKey :: "string \<Rightarrow> string \<Rightarrow> string" where
  "quotaKey agentID platformExpID = agentID @ ''/'' @ platformExpID"

subsection \<open>The comparisons\<close>

text \<open>\<open>math.Round\<close>: to the nearest integer, halves away from zero.\<close>

definition go_round :: "rat \<Rightarrow> int" where
  "go_round x = (if x < 0 then - \<lfloor>1 / 2 - x\<rfloor> else \<lfloor>x + 1 / 2\<rfloor>)"

definition completionBucket :: "rat \<Rightarrow> rat" where
  "completionBucket f = of_int (go_round (f * 100)) / 100"

definition filterTier :: "Experiment list \<Rightarrow> CapacityTier \<Rightarrow> Experiment list" where
  "filterTier exps tier = filter (\<lambda>e. ex_CapacityTier e = tier) exps"

definition filterTierCluster :: "Experiment list \<Rightarrow> CapacityTier \<Rightarrow> string \<Rightarrow> Experiment list" where
  "filterTierCluster exps tier clusterName =
     filter (\<lambda>e. ex_CapacityTier e = tier \<and> ex_ClusterName e = clusterName) exps"

definition dominantUtilization :: "quota_map \<Rightarrow> Experiment \<Rightarrow> rat" where
  "dominantUtilization quotaMap e =
     (case map_of quotaMap (quotaKey (ex_AgentID e) (ex_PlatformExperimentID e)) of
        None \<Rightarrow> 0 | Some aq \<Rightarrow> aq_DominantUtilization aq e)"

definition dominantCostFraction :: "quota_map \<Rightarrow> Experiment \<Rightarrow> rat" where
  "dominantCostFraction quotaMap e =
     (case map_of quotaMap (quotaKey (ex_AgentID e) (ex_PlatformExperimentID e)) of
        None \<Rightarrow> 0 | Some aq \<Rightarrow> aq_DominantCostFraction aq e)"

text \<open>\<open>Time.Truncate\<close>: down to a multiple of the duration since the zero time.\<close>

definition go_truncate :: "int \<Rightarrow> int \<Rightarrow> int" where
  "go_truncate t d = t - t mod d"

text \<open>The tie-breaks both queues share after age and utilization.\<close>

definition progress_of :: "(string, rat) gomap \<Rightarrow> Experiment \<Rightarrow> rat" where
  "progress_of completion e = completionBucket (mget 0 completion (ex_ID e))"

definition guaranteed_tie :: "quota_map \<Rightarrow> (string, rat) gomap \<Rightarrow> Experiment \<Rightarrow> Experiment \<Rightarrow> bool" where
  "guaranteed_tie quotaMap completion ei ej =
     (if progress_of completion ei \<noteq> progress_of completion ej
      then progress_of completion ei > progress_of completion ej
      else if dominantCostFraction quotaMap ei \<noteq> dominantCostFraction quotaMap ej
      then dominantCostFraction quotaMap ei < dominantCostFraction quotaMap ej
      else ex_PriorityScore ei > ex_PriorityScore ej)"

definition guaranteed_before :: "quota_map \<Rightarrow> (string, rat) gomap \<Rightarrow> int \<Rightarrow> Experiment \<Rightarrow> Experiment \<Rightarrow> bool" where
  "guaranteed_before quotaMap completion fairnessWindow ei ej =
     (if (ex_QueuedAt ei = None) \<noteq> (ex_QueuedAt ej = None) then ex_QueuedAt ej = None
      else case (ex_QueuedAt ei, ex_QueuedAt ej) of
        (Some ti, Some tj) \<Rightarrow>
          if fairnessWindow > 0 then
            (let bi = go_truncate ti fairnessWindow; bj = go_truncate tj fairnessWindow
             in if bi \<noteq> bj then bi < bj
                else let ri = dominantUtilization quotaMap ei; rj = dominantUtilization quotaMap ej
                     in if ri \<noteq> rj then ri < rj else guaranteed_tie quotaMap completion ei ej)
          else if ti \<noteq> tj then ti < tj
          else guaranteed_tie quotaMap completion ei ej
      | _ \<Rightarrow> guaranteed_tie quotaMap completion ei ej)"

definition sortGuaranteed :: "Experiment list \<Rightarrow> quota_map \<Rightarrow> (string, rat) gomap \<Rightarrow> int \<Rightarrow> Experiment list" where
  "sortGuaranteed exps quotaMap completion fairnessWindow =
     sort_slice (guaranteed_before quotaMap completion fairnessWindow) exps"

definition burst_before :: "quota_map \<Rightarrow> (string, rat) gomap \<Rightarrow> Experiment \<Rightarrow> Experiment \<Rightarrow> bool" where
  "burst_before quotaMap completion ei ej =
     (if dominantUtilization quotaMap ei \<noteq> dominantUtilization quotaMap ej
      then dominantUtilization quotaMap ei < dominantUtilization quotaMap ej
      else if progress_of completion ei \<noteq> progress_of completion ej
      then progress_of completion ei > progress_of completion ej
      else if dominantCostFraction quotaMap ei \<noteq> dominantCostFraction quotaMap ej
      then dominantCostFraction quotaMap ei < dominantCostFraction quotaMap ej
      else if ex_PriorityScore ei \<noteq> ex_PriorityScore ej then ex_PriorityScore ei > ex_PriorityScore ej
      else if (ex_QueuedAt ei = None) \<noteq> (ex_QueuedAt ej = None) then ex_QueuedAt ej = None
      else case (ex_QueuedAt ei, ex_QueuedAt ej) of (Some ti, Some tj) \<Rightarrow> ti < tj | _ \<Rightarrow> False)"

definition sortBurst :: "Experiment list \<Rightarrow> quota_map \<Rightarrow> (string, rat) gomap \<Rightarrow> Experiment list" where
  "sortBurst exps quotaMap completion = sort_slice (burst_before quotaMap completion) exps"

subsection \<open>Round robin over agents\<close>

text \<open>The jobs of each agent, and the agents in the order they first appear.\<close>

definition by_agent :: "Experiment list \<Rightarrow> (string, Experiment list) gomap \<times> string list" where
  "by_agent exps =
     fold (\<lambda>e (byAgent, agentOrder).
        (mput (ex_AgentID e) (mget [] byAgent (ex_AgentID e) @ [e]) byAgent,
         if ex_AgentID e \<in> set (keys byAgent) then agentOrder else agentOrder @ [ex_AgentID e]))
       exps ([], [])"

text \<open>One round: a job of every agent still in the rotation, \<open>None\<close> where Go's index panics.\<close>

fun agent_round :: "(string, Experiment list) gomap \<Rightarrow> nat \<Rightarrow> string list \<Rightarrow> (Experiment list \<times> string list) option" where
  "agent_round byAgent n [] = Some ([], [])"
| "agent_round byAgent n (a # as) =
     (let jobs = mget [] byAgent a
      in if n < length jobs then
           (case agent_round byAgent n as of
              None \<Rightarrow> None
            | Some (out, remaining) \<Rightarrow> Some (jobs ! n # out, if n + 1 < length jobs then a # remaining else remaining))
         else None)"

text \<open>
  The loop over the rounds.  It ends when every job is out; the fuel is what bounds it
  here, and \<open>None\<close> is a panic or a loop that has not ended.
\<close>

fun rounds :: "nat \<Rightarrow> (string, Experiment list) gomap \<Rightarrow> nat \<Rightarrow> nat \<Rightarrow> string list \<Rightarrow> Experiment list \<Rightarrow> Experiment list option" where
  "rounds 0 byAgent goal n agentOrder out = None"
| "rounds (Suc fuel) byAgent goal n agentOrder out =
     (if length out < goal then
        (case agent_round byAgent n agentOrder of
           None \<Rightarrow> None
         | Some (jobs, remaining) \<Rightarrow> rounds fuel byAgent goal (n + 1) remaining (out @ jobs))
      else Some out)"

definition interleaveByAgent :: "Experiment list \<Rightarrow> Experiment list option" where
  "interleaveByAgent exps =
     (if exps = [] then Some exps
      else case by_agent exps of (byAgent, agentOrder) \<Rightarrow>
        rounds (length exps + 1) byAgent (length exps) 0 agentOrder [])"

subsection \<open>The comparisons are strict weak orders\<close>

interpretation guaranteed_tie_order: strict_weak_order "guaranteed_tie quotaMap completion" for quotaMap completion
  unfolding guaranteed_tie_def [abs_def] by (intro swo_key_then swo_desc_then swo_desc)

text \<open>The age key: the bucket, or the time itself without a window.\<close>

definition age_key :: "int \<Rightarrow> Experiment \<Rightarrow> int" where
  "age_key w e = (case ex_QueuedAt e of None \<Rightarrow> 0 | Some t \<Rightarrow> if w > 0 then go_truncate t w else t)"

definition share_key :: "quota_map \<Rightarrow> int \<Rightarrow> Experiment \<Rightarrow> rat" where
  "share_key quotaMap w e = (if w > 0 \<and> ex_QueuedAt e \<noteq> None then dominantUtilization quotaMap e else 0)"

lemma guaranteed_before_lex:
  "guaranteed_before quotaMap completion w = (\<lambda>ei ej.
     if (ex_QueuedAt ei \<noteq> None) \<noteq> (ex_QueuedAt ej \<noteq> None) then ex_QueuedAt ei \<noteq> None
     else if age_key w ei \<noteq> age_key w ej then age_key w ei < age_key w ej
     else if share_key quotaMap w ei \<noteq> share_key quotaMap w ej then share_key quotaMap w ei < share_key quotaMap w ej
     else guaranteed_tie quotaMap completion ei ej)"
proof (intro ext)
  fix ei ej
  show "guaranteed_before quotaMap completion w ei ej =
    (if (ex_QueuedAt ei \<noteq> None) \<noteq> (ex_QueuedAt ej \<noteq> None) then ex_QueuedAt ei \<noteq> None
     else if age_key w ei \<noteq> age_key w ej then age_key w ei < age_key w ej
     else if share_key quotaMap w ei \<noteq> share_key quotaMap w ej then share_key quotaMap w ei < share_key quotaMap w ej
     else guaranteed_tie quotaMap completion ei ej)"
    by (cases "ex_QueuedAt ei"; cases "ex_QueuedAt ej") (simp_all add: guaranteed_before_def age_key_def share_key_def Let_def)
qed

interpretation guaranteed_order: strict_weak_order "guaranteed_before quotaMap completion w" for quotaMap completion w
  unfolding guaranteed_before_lex
  by (intro swo_flag_then swo_key_then guaranteed_tie_order.strict_weak_order_axioms)

lemma burst_before_lex:
  "burst_before quotaMap completion = (\<lambda>ei ej.
     if dominantUtilization quotaMap ei \<noteq> dominantUtilization quotaMap ej
     then dominantUtilization quotaMap ei < dominantUtilization quotaMap ej
     else if progress_of completion ei \<noteq> progress_of completion ej
     then progress_of completion ei > progress_of completion ej
     else if dominantCostFraction quotaMap ei \<noteq> dominantCostFraction quotaMap ej
     then dominantCostFraction quotaMap ei < dominantCostFraction quotaMap ej
     else if ex_PriorityScore ei \<noteq> ex_PriorityScore ej then ex_PriorityScore ei > ex_PriorityScore ej
     else if (ex_QueuedAt ei \<noteq> None) \<noteq> (ex_QueuedAt ej \<noteq> None) then ex_QueuedAt ei \<noteq> None
     else age_key 0 ei < age_key 0 ej)"
proof -
  have "(if (ex_QueuedAt ei = None) \<noteq> (ex_QueuedAt ej = None) then ex_QueuedAt ej = None
      else case (ex_QueuedAt ei, ex_QueuedAt ej) of (Some ti, Some tj) \<Rightarrow> ti < tj | _ \<Rightarrow> False) =
    (if (ex_QueuedAt ei \<noteq> None) \<noteq> (ex_QueuedAt ej \<noteq> None) then ex_QueuedAt ei \<noteq> None
     else age_key 0 ei < age_key 0 ej)" for ei ej
    by (cases "ex_QueuedAt ei"; cases "ex_QueuedAt ej") (simp_all add: age_key_def)
  then show ?thesis unfolding burst_before_def [abs_def] by presburger
qed

interpretation burst_order: strict_weak_order "burst_before quotaMap completion" for quotaMap completion
  unfolding burst_before_lex
  by (intro swo_flag_then swo_key_then swo_desc_then swo_key)

end
