(* ===== verification/Place.thy ===== *)
theory Place
  imports Clusters Resolve QueueOrder
begin

text \<open>
  Where a queued job is tried in one pass of a tick (scheduler/loop_place.go): the clusters that may
  run it, the ones left after failures and after what is installed is held against it, the loop that places it and
  checks its share until a cluster takes it, and the verdict that no wait admits it.

  A refusal is the value the code renders as a not_admitted_reason.  A \<open>map[string]bool\<close> is the
  list of its true keys.  The rate table is an argument, as in EstimateHeld.
\<close>

subsection \<open>Clusters above the chosen one\<close>

definition hostsJob :: "registry \<Rightarrow> string \<Rightarrow> Experiment \<Rightarrow> bool" where
  "hostsJob registered cluster e = (case map_of registered cluster of None \<Rightarrow> False | Some c \<Rightarrow> Hosts c (ex_OrgID e))"

definition scalesAbove :: "string \<Rightarrow> Experiment \<Rightarrow> string list \<Rightarrow> string list \<Rightarrow> registry \<Rightarrow> bool" where
  "scalesAbove chosen e autoscalerEnabled conn registered =
     list_ex (\<lambda>cluster. cluster \<in> set conn \<and> hostsJob registered cluster e
        \<and> rank_in registered (ex_OrgID e) cluster > rank_in registered (ex_OrgID e) chosen) autoscalerEnabled"

definition above :: "string list \<Rightarrow> string \<Rightarrow> registry \<Rightarrow> string \<Rightarrow> string list" where
  "above clusters chosen registered orgID =
     filter (\<lambda>cluster. rank_in registered orgID cluster > rank_in registered orgID chosen) clusters"

subsection \<open>Clusters a job failed on\<close>

definition triedRecently :: "TriedCluster list \<Rightarrow> string \<Rightarrow> int \<Rightarrow> int \<Rightarrow> bool" where
  "triedRecently tried clusterID ttl now = list_ex (\<lambda>t. tc_ClusterID t = clusterID \<and> now - tc_At t < ttl) tried"

definition couldHost :: "quantity_lib \<Rightarrow> Footprint \<Rightarrow> Experiment \<Rightarrow> bool" where
  "couldHost Q capacity e =
     (let types = (if CandidateTypes e = [] then [ex_AcceleratorType e] else CandidateTypes e)
      in list_ex (\<lambda>t. ReportsEveryDimension capacity (exp_Footprint Q (e\<lparr>ex_AcceleratorType := t\<rparr>))) types)"

definition failed_on :: "(string, string) gomap \<Rightarrow> Experiment \<Rightarrow> int \<Rightarrow> int \<Rightarrow> string \<Rightarrow> bool" where
  "failed_on clusterIDs e ttl now cluster \<longleftrightarrow>
     gets clusterIDs cluster \<noteq> [] \<and> triedRecently (ex_TriedClusters e) (gets clusterIDs cluster) ttl now"

definition withoutFailed :: "quantity_lib \<Rightarrow> (string, Footprint) gomap \<Rightarrow> (string, string) gomap \<Rightarrow> Experiment \<Rightarrow> int \<Rightarrow> int
    \<Rightarrow> (string, Footprint) gomap" where
  "withoutFailed Q cands clusterIDs e ttl now =
     (if ttl \<le> 0 \<or> ex_TriedClusters e = [] then cands
      else
        let kept = filter (\<lambda>(cluster, _). \<not> failed_on clusterIDs e ttl now cluster) cands
        in if list_ex (\<lambda>(_, fp). couldHost Q fp e) kept then kept else cands)"

subsection \<open>Clusters that may run a job\<close>

datatype refusal =
    NoClusterForOrg
  | ClustersDisabled
  | NoMultiNodeCluster int
  | RanOnTypeUncovered AcceleratorType

definition orgHasCluster :: "registry \<Rightarrow> string \<Rightarrow> (Cluster \<Rightarrow> string \<Rightarrow> bool) \<Rightarrow> bool" where
  "orgHasCluster registered orgID is = list_ex (\<lambda>(_, cluster). is cluster orgID) registered"

definition hostingClusters :: "registry \<Rightarrow> Experiment \<Rightarrow> Cluster list" where
  "hostingClusters registered e =
     sort_slice (\<lambda>a b. cl_Name a < cl_Name b) (filter (\<lambda>c. Hosts c (ex_OrgID e)) (map snd registered))"

definition eligibleClusters :: "(string, Footprint) gomap \<Rightarrow> string list \<Rightarrow> registry \<Rightarrow> Experiment
    \<Rightarrow> refusal + (string, Footprint) gomap" where
  "eligibleClusters avail multiNodeCapable registered e =
     (let hosting = filter (\<lambda>(cluster, _). hostsJob registered cluster e) avail;
          pinnedElsewhere = (ex_ClusterName e \<noteq> [] \<and> \<not> hostsJob registered (ex_ClusterName e) e)
      in if pinnedElsewhere \<or> \<not> orgHasCluster registered (ex_OrgID e) OpenTo then Inl NoClusterForOrg
         else if \<not> orgHasCluster registered (ex_OrgID e) Hosts then Inl ClustersDisabled
         else if Nodes (ex_Job e) \<le> 1 then Inr hosting
         else
           let out = filter (\<lambda>(cluster, _). cluster \<in> set multiNodeCapable) hosting
           in if out = [] then Inl (NoMultiNodeCluster (Nodes (ex_Job e))) else Inr out)"

definition quotaCanCoverAcceleratorType :: "(string, rat) gomap \<Rightarrow> AgentQuota option \<Rightarrow> Experiment \<Rightarrow> bool" where
  "quotaCanCoverAcceleratorType rates quota e =
     (case quota of
        None \<Rightarrow> False
      | Some q \<Rightarrow>
          if ex_AcceleratorCount e \<le> 0 then False
          else case EstimateHeld rates e of
              None \<Rightarrow> False
            | Some newCost \<Rightarrow>
                let (used, limit) = (if ex_CapacityTier e = CapacityGuaranteed
                       then (aq_UsedGuaranteedAccH q, aq_GuaranteedAcceleratorHours q)
                       else (aq_UsedBurstAccH q, aq_BurstAcceleratorHours q))
                in used - ex_EstimatedCostAccH e + newCost \<le> limit \<and> Used q - ex_EstimatedCostAccH e + newCost \<le> Share q)"

subsection \<open>What is installed\<close>

record ComputeLimit =
  lim_Org :: rat
  lim_Project :: rat

record installed =
  in_registered :: registry
  in_totals :: "(string, Footprint) gomap"
  in_nodeTotals :: "(string, capmap) gomap"
  in_scalesUp :: "string list"
  in_multiNode :: "string list"
  in_nodeLabels :: "(string, labelmap) gomap"
  in_limits :: "(string, ComputeLimit) gomap"

definition couldHold :: "quantity_lib \<Rightarrow> installed \<Rightarrow> (string, Footprint) gomap \<Rightarrow> Experiment \<Rightarrow> (string, Footprint) gomap" where
  "couldHold Q inst cands e =
     (let kept = filter (\<lambda>(cluster, free).
            case map_of (in_totals inst) cluster of
              None \<Rightarrow> True
            | Some installed_total \<Rightarrow>
                FitsWhenIdle Q installed_total (mget [] (in_nodeTotals inst) cluster) (mget [] (in_nodeLabels inst) cluster) e) cands
      in if kept = [] then cands else kept)"

text \<open>The architectures the nodes of a cluster name, sorted.\<close>

definition NodeArchitectures :: "labelmap \<Rightarrow> string list" where
  "NodeArchitectures labelsByNode =
     sort (remdups (filter (\<lambda>a. a \<noteq> []) (map (\<lambda>(_, lab). gets lab NodeArchitectureLabel) labelsByNode)))"

definition AccHPerHour :: "(string, rat) gomap \<Rightarrow> rat \<Rightarrow> AcceleratorType \<Rightarrow> int \<Rightarrow> rat option" where
  "AccHPerHour rates cpuCoreSharedRate t n =
     (if acc_Is t CPUType then Some (cpuCoreSharedRate * of_int n)
      else map_option (\<lambda>rate. rate * of_int n) (map_of rates t))"

definition ExceedsLimit :: "rat \<Rightarrow> rat \<Rightarrow> bool" where
  "ExceedsLimit reserved limit \<longleftrightarrow> reserved > limit * (1 + 1 / 10 ^ 9)"

definition namesPlacementGroups :: "labelmap \<Rightarrow> bool" where
  "namesPlacementGroups labelsByNode = list_ex (\<lambda>(_, lab). gets lab NodePlacementGroupKeyLabel \<noteq> []) labelsByNode"

definition tooFewHosts :: "quantity_lib \<Rightarrow> capmap \<Rightarrow> Experiment \<Rightarrow> int \<times> bool" where
  "tooFewHosts Q nodeTotals e =
     (if nodeTotals = [] \<or> \<not> RequiresDistinctHosts e then (0, False)
      else let held = SpreadHostsWhenIdle Q nodeTotals e in (held, held < Nodes (ex_Job e)))"

subsection \<open>A job no wait admits\<close>

text \<open>What a cluster that takes the job is found to be, in the order of the code's cases.\<close>

datatype verdict =
    IsPlatforms
  | ReportsNothing
  | OneNodeOnly
  | MayRun
  | OtherArchitectures "string list"
  | Apart bool \<comment> \<open>names no placement groups\<close>
  | Lacks bool \<comment> \<open>too few hosts\<close>

definition judge :: "quantity_lib \<Rightarrow> installed \<Rightarrow> bool \<Rightarrow> Experiment \<Rightarrow> Cluster \<Rightarrow> verdict" where
  "judge Q inst limited e c =
     (let name = cl_Name c; labs = mget [] (in_nodeLabels inst) name; has = NodeArchitectures labs;
          nodeTotals = mget [] (in_nodeTotals inst) name; within_group = (NodesWithin (EffectiveJob e) = NodesWithinPlacementGroup)
      in if limited \<and> OfPlatform c then IsPlatforms
         else case map_of (in_totals inst) name of
             None \<Rightarrow> ReportsNothing
           | Some reported \<Rightarrow>
               if Nodes (ex_Job e) > 1 \<and> name \<notin> set (in_multiNode inst) then OneNodeOnly
               else if name \<in> set (in_scalesUp inst) \<and> \<not> within_group then MayRun
               else if ex_ImageArchitecture e \<noteq> [] \<and> has \<noteq> [] \<and> ex_ImageArchitecture e \<notin> set has then OtherArchitectures has
               else if FitsWhenIdle Q reported nodeTotals labs e then MayRun
               else if FitsWhenIdleOnlyApart Q reported nodeTotals labs e
                 then Apart (within_group \<and> \<not> namesPlacementGroups labs)
               else Lacks (snd (tooFewHosts Q nodeTotals e)))"

text \<open>The reason, or none; \<open>ExceedsClusterCapacity\<close> carries whether its advice is about hosts or about places.\<close>

datatype never_fits =
    NoClusterForArchitecture "string list"
  | ExceedsProjectComputeLimit
  | ExceedsClusterCapacity bool bool

definition is_limited :: "(string, rat) gomap \<Rightarrow> rat \<Rightarrow> installed \<Rightarrow> Experiment \<Rightarrow> bool" where
  "is_limited rates cpuCoreSharedRate inst e =
     (case map_of (in_limits inst) (ex_OrgID e) of
        None \<Rightarrow> False
      | Some limit \<Rightarrow>
          (case AccHPerHour rates cpuCoreSharedRate (ex_AcceleratorType e) (ex_AcceleratorCount e) of
             None \<Rightarrow> False
           | Some rate \<Rightarrow> ExceedsLimit rate (lim_Project limit)))"

definition is_lacking :: "verdict \<Rightarrow> bool" where
  "is_lacking v = (case v of Apart _ \<Rightarrow> True | Lacks _ \<Rightarrow> True | _ \<Rightarrow> False)"

definition neverFitsReason :: "quantity_lib \<Rightarrow> (string, rat) gomap \<Rightarrow> rat \<Rightarrow> installed \<Rightarrow> Experiment \<Rightarrow> never_fits option" where
  "neverFitsReason Q rates cpuCoreSharedRate inst e =
     (let vs = map (judge Q inst (is_limited rates cpuCoreSharedRate inst e) e) (hostingClusters (in_registered inst) e);
          lacking = filter is_lacking vs;
          others = concat (map (\<lambda>v. case v of OtherArchitectures has \<Rightarrow> has | _ \<Rightarrow> []) vs);
          overLimit = length (filter (\<lambda>v. v = IsPlatforms) vs);
          judged = length (filter (\<lambda>v. v \<noteq> OneNodeOnly) vs)
      in if MayRun \<in> set vs then None
         else if lacking = [] \<and> others \<noteq> [] then Some (NoClusterForArchitecture (sort (remdups others)))
         else if lacking = [] \<and> overLimit > 0 \<and> judged = overLimit then Some ExceedsProjectComputeLimit
         else if lacking = [] then None
         else Some (ExceedsClusterCapacity (Lacks True \<in> set vs) (\<exists>v \<in> set vs. case v of Apart _ \<Rightarrow> True | _ \<Rightarrow> False)))"

subsection \<open>Placing a queued job\<close>

record tickClusters =
  tk_start :: int
  tk_registered :: registry
  tk_multiNode :: "string list"
  tk_clusterIDs :: "(string, string) gomap"
  tk_nodeLabels :: "(string, labelmap) gomap"
  tk_whenIdle :: installed
  tk_nodeAvail :: "(string, capmap) gomap"
  tk_nodeRes :: "(string, capmap) gomap"
  tk_nodeResTotal :: "(string, capmap) gomap"
  tk_nodeAvailAtTickStart :: "(string, capmap) gomap"

record queuedPlacement =
  qp_cluster :: string
  qp_fp :: Footprint
  qp_betAcceleratorType :: AcceleratorType
  qp_misfit :: "misfit list" \<comment> \<open>the misfits joined into one reason, none for the empty one\<close>

datatype place_outcome =
    Refused refusal
  | ResolveFailed resolve_error
  | PlacedAt queuedPlacement

text \<open>The picks of one round: the search of an unpinned job, and the return to the type asked for where the quota does not cover the other.\<close>

definition pick_cluster :: "quantity_lib \<Rightarrow> tickClusters \<Rightarrow> bool \<Rightarrow> AcceleratorType \<Rightarrow> (string, Footprint) gomap \<Rightarrow> queuedPlacement \<Rightarrow> Experiment
    \<Rightarrow> queuedPlacement \<times> Experiment" where
  "pick_cluster Q c pinned queuedAt cands placed e =
     (if pinned then (placed, e)
      else case ClusterAndFootprint Q cands (tk_registered c) (tk_nodeAvail c) (tk_nodeRes c) (tk_nodeLabels c) (e\<lparr>ex_AcceleratorType := queuedAt\<rparr>) of
          (cluster, fp, e') \<Rightarrow> (placed\<lparr>qp_betAcceleratorType := queuedAt, qp_cluster := cluster, qp_fp := fp\<rparr>, e'))"

definition cover_type :: "quantity_lib \<Rightarrow> (string, rat) gomap \<Rightarrow> tickClusters \<Rightarrow> AgentQuota option \<Rightarrow> (string, Footprint) gomap \<Rightarrow> queuedPlacement \<Rightarrow> Experiment
    \<Rightarrow> refusal + queuedPlacement \<times> Experiment" where
  "cover_type Q rates c quota cands placed e =
     (let asked = js_AcceleratorType (ex_Job e)
      in if asked \<noteq> [] \<and> ex_AcceleratorType e \<noteq> asked \<and> \<not> quotaCanCoverAcceleratorType rates quota e then
           (if asked \<notin> set (CandidateTypes e) then Inl (RanOnTypeUncovered (ex_RanOnAcceleratorType e))
            else
              let e' = e\<lparr>ex_AcceleratorType := asked\<rparr>; fp = exp_Footprint Q e';
                  cluster = (case AtAcceleratorType Q cands (tk_registered c) (tk_nodeAvail c) (tk_nodeRes c) (tk_nodeLabels c) e' of
                     Some cl \<Rightarrow> cl | None \<Rightarrow> BestFit cands (tk_registered c) (ex_OrgID e') fp)
              in Inr (placed\<lparr>qp_betAcceleratorType := asked, qp_fp := fp, qp_cluster := cluster\<rparr>, e'))
         else Inr (placed, e))"

text \<open>
  The loop over the candidates.  Go's loop has no bound of its own; the fuel bounds it here, and
  \<open>None\<close> is a loop that has not ended.
\<close>

fun place_loop :: "nat \<Rightarrow> quantity_lib \<Rightarrow> (string, rat) gomap \<Rightarrow> resolve_env \<Rightarrow> tickClusters \<Rightarrow> AgentQuota option \<Rightarrow> bool \<Rightarrow> AcceleratorType
    \<Rightarrow> (string, Footprint) gomap \<Rightarrow> misfit list \<Rightarrow> queuedPlacement \<Rightarrow> Experiment \<Rightarrow> resolutionCache
    \<Rightarrow> (place_outcome \<times> Experiment \<times> resolutionCache) option" where
  "place_loop 0 Q rates env c quota pinned queuedAt cands misfits placed e ca = None"
| "place_loop (Suc fuel) Q rates env c quota pinned queuedAt cands misfits placed e ca =
     (let (placed1, e1) = pick_cluster Q c pinned queuedAt cands placed e
      in case cover_type Q rates c quota cands placed1 e1 of
           Inl r \<Rightarrow> Some (Refused r, e1, ca)
         | Inr (placed2, e2) \<Rightarrow>
             let cluster = qp_cluster placed2
             in if cluster = [] then Some (PlacedAt (placed2\<lparr>qp_misfit := misfits\<rparr>), e2, ca)
                else
                  case resolveClusterLocalResources Q env ca e2 cluster (mget [] (tk_nodeResTotal c) cluster)
                         (mget [] (tk_nodeAvailAtTickStart c) cluster) (mget [] (tk_nodeRes c) cluster) (mget [] (tk_nodeLabels c) cluster) of
                    (Inl err, ca') \<Rightarrow> Some (ResolveFailed err, e2, ca')
                  | (Inr (Inr job), ca') \<Rightarrow>
                      let e3 = e2\<lparr>ex_ResolvedJob := Some job\<rparr>
                      in Some (PlacedAt (placed2\<lparr>qp_fp := exp_Footprint Q e3\<rparr>), e3, ca')
                  | (Inr (Inl m), ca') \<Rightarrow>
                      let placed3 = placed2\<lparr>qp_cluster := []\<rparr>
                      in if pinned then Some (PlacedAt (placed3\<lparr>qp_misfit := misfits @ [m]\<rparr>), e2, ca')
                         else place_loop fuel Q rates env c quota pinned queuedAt (mdel cluster cands) (misfits @ [m]) placed3 e2 ca')"

definition placeQueued :: "nat \<Rightarrow> quantity_lib \<Rightarrow> (string, rat) gomap \<Rightarrow> resolve_env \<Rightarrow> int \<Rightarrow> tickClusters \<Rightarrow> AgentQuota option
    \<Rightarrow> (string, Footprint) gomap \<Rightarrow> Experiment \<Rightarrow> resolutionCache \<Rightarrow> (place_outcome \<times> Experiment \<times> resolutionCache) option" where
  "placeQueued fuel Q rates env triedClusterTTL c quota avail e ca =
     (case eligibleClusters avail (tk_multiNode c) (tk_registered c) e of
        Inl r \<Rightarrow> Some (Refused r, e, ca)
      | Inr eligible \<Rightarrow>
          let cands = couldHold Q (tk_whenIdle c) (withoutFailed Q eligible (tk_clusterIDs c) e triedClusterTTL (tk_start c)) e;
              pinned = (ex_ClusterName e \<noteq> []);
              placed = \<lparr>qp_cluster = ex_ClusterName e, qp_fp = (if pinned then exp_Footprint Q e else []),
                        qp_betAcceleratorType = ex_AcceleratorType e, qp_misfit = []\<rparr>
          in place_loop fuel Q rates env c quota pinned (ex_AcceleratorType e) cands [] placed e ca)"

subsection \<open>Room held for a job that waited long\<close>

definition holdRoom :: "quantity_lib \<Rightarrow> int \<Rightarrow> Experiment \<Rightarrow> string \<Rightarrow> Footprint \<Rightarrow> tickClusters \<Rightarrow> string list \<Rightarrow> (string, Footprint) gomap list
    \<Rightarrow> string list \<times> (string, Footprint) gomap list" where
  "holdRoom Q heldJobNotice e cluster fp c held views =
     (case ex_QueuedAt e of
        None \<Rightarrow> (held, views)
      | Some queuedAt \<Rightarrow>
          let waited = tk_start c - queuedAt
          in if heldJobNotice \<le> 0 \<or> cluster \<in> set held \<or> HasSlots (mget [] (tk_nodeLabels c) cluster) then (held, views)
             else if waited < heldJobNotice \<or> of_int waited / (3600 * 10 ^ 9) < ex_EstimatedDurationHours e then (held, views)
             else
               case map_of (in_totals (tk_whenIdle c)) cluster of
                 None \<Rightarrow> (held, views)
               | Some installed_total \<Rightarrow>
                   if \<not> FitsWhenIdle Q installed_total (mget [] (in_nodeTotals (tk_whenIdle c)) cluster)
                            (mget [] (in_nodeLabels (tk_whenIdle c)) cluster) e
                   then (held, views)
                   else (cluster # held,
                         map (\<lambda>view. case SubtractFootprint (map_of view cluster) fp of None \<Rightarrow> view | Some f \<Rightarrow> mput cluster f view) views))"

end
