(* ===== verification/JobRows.thy ===== *)
theory JobRows
  imports Reasons Place
begin

text \<open>
  The rows of the experiments table and the statements that write them
  (storage/db/experiments_store_lifecycle.go, eviction.go, statuses.go, experiments_changes.go, data_keys.go,
  the insert of experiments_store.go, the first report of an end in experiments_store_queries.go and the withdrawal of
  clusters_store.go).

  A statement \<open>UPDATE experiments SET ... WHERE id = $1 AND guard\<close> is \<open>write_job\<close> with the guard and the new
  row: PostgreSQL runs it atomically, so it is one step.  A nullable column is an option.  Columns no
  statement here reads or writes are left out, and so is the text of errors.  The statements that fail
  for want of the database are modelled where they are called (theory Watcher).
\<close>

record job_row =
  jr_job :: Experiment
  jr_Status :: ExperimentStatus
  jr_EvictionReason :: "string option"
  jr_NotAdmittedReason :: "string option"
  jr_HeldReason :: "string option"
  jr_UnderperformingMetric :: "string option"
  jr_SubmittedAt :: "int option"
  jr_EndedAt :: "int option"
  jr_QuotaSettledAt :: "int option"
  jr_UpdatedAt :: int
  jr_LastCluster :: string
  jr_InfraRequeueReason :: string
  jr_AccHPerHour :: rat
  jr_DataAccessKeyID :: string
  jr_DataSecretAccessKey :: string
  jr_RunReportedAt :: "int option"
  jr_HypothesisID :: string
  jr_CodeRef :: string
  jr_SameHypothesis :: "string option"
  jr_SubmissionKey :: string

text \<open>What a write announces (\<open>domain.Change\<close>).\<close>

record Change =
  ch_Kind :: string
  ch_Subject :: string
  ch_Value :: string
  ch_Detail :: string
  ch_PlatformExperimentID :: string
  ch_AgentID :: string

record job_db =
  db_rows :: "(string, job_row) gomap"
  db_clusters :: registry
  db_projects :: "(string, string) gomap" \<comment> \<open>the project of each platform experiment\<close>
  db_limits :: "(string, ComputeLimit) gomap" \<comment> \<open>by org\<close>
  db_quotas :: "(string \<times> string, AgentQuota) gomap" \<comment> \<open>what an agent is allotted in a platform experiment\<close>
  db_cuts :: "(string \<times> string) list" \<comment> \<open>agents cut from a platform experiment at a stage boundary\<close>
  db_finished :: "(string \<times> string) list" \<comment> \<open>agents that finished in a platform experiment\<close>
  db_maxConcurrent :: "(string, int option) gomap" \<comment> \<open>each platform experiment and the cap it sets\<close>
  db_changes :: "Change list"

subsection \<open>Announcements\<close>

definition status_name :: "ExperimentStatus \<Rightarrow> string" where
  "status_name s =
     (case s of StatusSubmitted \<Rightarrow> ''SUBMITTED'' | StatusQueued \<Rightarrow> ''QUEUED'' | StatusRunning \<Rightarrow> ''RUNNING''
      | StatusCompleted \<Rightarrow> ''COMPLETED'' | StatusFailed \<Rightarrow> ''FAILED'' | StatusEvicted \<Rightarrow> ''EVICTED''
      | StatusRejected \<Rightarrow> ''REJECTED'' | StatusCancelled \<Rightarrow> ''CANCELLED'')"

definition coalesce :: "string option \<Rightarrow> string" where
  "coalesce v = (case v of None \<Rightarrow> [] | Some s \<Rightarrow> s)"

definition nullif :: "string \<Rightarrow> string option" where
  "nullif s = (if s = [] then None else Some s)"

definition row_change :: "job_row \<Rightarrow> string \<Rightarrow> string \<Rightarrow> string \<Rightarrow> Change" where
  "row_change r kind value detail =
     \<lparr>ch_Kind = kind, ch_Subject = ex_ID (jr_job r), ch_Value = value, ch_Detail = detail,
      ch_PlatformExperimentID = ex_PlatformExperimentID (jr_job r), ch_AgentID = ex_AgentID (jr_job r)\<rparr>"

definition jobQueueReason :: "job_row \<Rightarrow> Change list" where
  "jobQueueReason r =
     (let (reason, message) = SplitQueueReason (coalesce (jr_NotAdmittedReason r))
      in if reason = [] \<or> reason = NotAdmittedAwaitingAdmission then []
         else [row_change r ''experiment.blocked'' reason message])"

definition jobStatus :: "job_row \<Rightarrow> Change list" where
  "jobStatus r =
     (let reason = coalesce (jr_EvictionReason r)
      in row_change r ''experiment.status'' (status_name (AnsweredStatus (jr_Status r) reason)) reason # jobQueueReason r)"

definition jobHeld :: "job_row \<Rightarrow> Change list" where
  "jobHeld r =
     (let (reason, message) = SplitQueueReason (coalesce (jr_HeldReason r))
      in [row_change r ''job.held'' reason message])"

definition write_job :: "(job_row \<Rightarrow> Change list) \<Rightarrow> (job_row \<Rightarrow> bool) \<Rightarrow> (job_row \<Rightarrow> job_row) \<Rightarrow> string \<Rightarrow> job_db
    \<Rightarrow> bool \<times> job_db" where
  "write_job announce guard upd i db =
     (case map_of (db_rows db) i of
        None \<Rightarrow> (False, db)
      | Some r \<Rightarrow>
          if guard r
          then (True, db\<lparr>db_rows := mput i (upd r) (db_rows db), db_changes := db_changes db @ announce (upd r)\<rparr>)
          else (False, db))"

subsection \<open>Ending a job\<close>

definition finish_row :: "int \<Rightarrow> ExperimentStatus \<Rightarrow> string option \<Rightarrow> job_row \<Rightarrow> job_row" where
  "finish_row now to reason r =
     r\<lparr>jr_Status := to, jr_EvictionReason := reason, jr_NotAdmittedReason := None, jr_UpdatedAt := now, jr_EndedAt := Some now\<rparr>"

text \<open>\<open>None\<close> is the error of a caller that asks for QUEUED.\<close>

definition TransitionStatus :: "int \<Rightarrow> string \<Rightarrow> ExperimentStatus \<Rightarrow> ExperimentStatus \<Rightarrow> string \<Rightarrow> job_db \<Rightarrow> bool option \<times> job_db" where
  "TransitionStatus now i from to reason db =
     (if to = StatusQueued then (None, db)
      else let (moved, db') = write_job jobStatus (\<lambda>r. jr_Status r = from) (finish_row now to (nullif reason)) i db
           in (Some moved, db'))"

definition EndQueuedSettled :: "int \<Rightarrow> string \<Rightarrow> ExperimentStatus \<Rightarrow> string \<Rightarrow> job_db \<Rightarrow> bool \<times> job_db" where
  "EndQueuedSettled now i to reason =
     write_job jobStatus (\<lambda>r. jr_Status r = StatusQueued)
       (\<lambda>r. (finish_row now to (Some reason) r)\<lparr>jr_QuotaSettledAt := Some now\<rparr>) i"

subsection \<open>Starting and requeueing\<close>

definition start_row :: "int \<Rightarrow> job_row \<Rightarrow> job_row" where
  "start_row now r =
     r\<lparr>jr_Status := StatusRunning, jr_job := (jr_job r)\<lparr>ex_RanOnAcceleratorType := ex_AcceleratorType (jr_job r)\<rparr>,
       jr_UpdatedAt := now\<rparr>"

definition MarkStarted :: "int \<Rightarrow> string \<Rightarrow> job_db \<Rightarrow> bool \<times> job_db" where
  "MarkStarted now i = write_job jobStatus (\<lambda>r. jr_Status r = StatusSubmitted) (start_row now) i"

text \<open>What every requeue clears.\<close>

definition unplace_row :: "int \<Rightarrow> job_row \<Rightarrow> job_row" where
  "unplace_row now r =
     r\<lparr>jr_Status := StatusQueued, jr_SubmittedAt := None,
       jr_job := (jr_job r)\<lparr>ex_ClusterName := [], ex_ResolvedJob := None\<rparr>,
       jr_NotAdmittedReason := Some QueueReasonAwaitingAdmission, jr_UpdatedAt := now\<rparr>"

definition preempt_row :: "int \<Rightarrow> rat \<Rightarrow> rat \<Rightarrow> job_row \<Rightarrow> job_row" where
  "preempt_row now hours cost r =
     (let r' = unplace_row now r
      in r'\<lparr>jr_EvictionReason := Some EvictionPreemptedForGuaranteed,
            jr_job := (jr_job r')\<lparr>ex_EstimatedDurationHours := hours, ex_EstimatedCostAccH := cost\<rparr>\<rparr>)"

definition store_RequeuePreempted :: "int \<Rightarrow> string \<Rightarrow> rat \<Rightarrow> rat \<Rightarrow> job_db \<Rightarrow> bool \<times> job_db" where
  "store_RequeuePreempted now i hours cost =
     write_job jobStatus (\<lambda>r. jr_Status r = StatusRunning) (preempt_row now hours cost) i"

definition retry_row :: "int \<Rightarrow> job_row \<Rightarrow> job_row" where
  "retry_row now r =
     (let r' = unplace_row now r in r'\<lparr>jr_job := (jr_job r')\<lparr>ex_AttemptCount := ex_AttemptCount (jr_job r) + 1\<rparr>\<rparr>)"

definition RequeueForRetry :: "int \<Rightarrow> string \<Rightarrow> int \<Rightarrow> job_db \<Rightarrow> bool \<times> job_db" where
  "RequeueForRetry now i maxAttemptsBefore =
     write_job jobStatus
       (\<lambda>r. jr_Status r \<in> set PlacedStatuses \<and> RetriesUsed (jr_job r) < maxAttemptsBefore) (retry_row now) i"

text \<open>The entry of the tried list, for a cluster that reported an identity.\<close>

definition tried_entry :: "registry \<Rightarrow> int \<Rightarrow> string \<Rightarrow> string \<Rightarrow> TriedCluster list" where
  "tried_entry clusters now reason cluster =
     (case map_of clusters cluster of
        None \<Rightarrow> []
      | Some c \<Rightarrow>
          if FailedByItsCluster reason \<and> cl_ReportedID c \<noteq> []
          then [\<lparr>tc_ClusterID = cl_ReportedID c, tc_At = now, tc_Reason = Code reason\<rparr>] else [])"

definition infra_row :: "registry \<Rightarrow> int \<Rightarrow> string \<Rightarrow> job_row \<Rightarrow> job_row" where
  "infra_row clusters now reason r =
     (let r' = unplace_row now r; e = jr_job r
      in r'\<lparr>jr_EvictionReason := Some reason, jr_InfraRequeueReason := reason,
            jr_QuotaSettledAt := None, jr_EndedAt := None,
            jr_job := (jr_job r')\<lparr>ex_AttemptCount := ex_AttemptCount e + 1,
                ex_InfraRequeueCount := ex_InfraRequeueCount e + 1,
                ex_QueuedAt := Some (case ex_QueuedAt e of None \<Rightarrow> now | Some t \<Rightarrow> t),
                ex_TriedClusters := ex_TriedClusters e @ tried_entry clusters now reason (ex_ClusterName e)\<rparr>\<rparr>)"

definition RequeueInfrastructureFault :: "int \<Rightarrow> string \<Rightarrow> ExperimentStatus \<Rightarrow> string \<Rightarrow> int \<Rightarrow> job_db \<Rightarrow> bool \<times> job_db" where
  "RequeueInfrastructureFault now i from reason maxInfraRequeues db =
     write_job jobStatus (\<lambda>r. jr_Status r = from \<and> ex_InfraRequeueCount (jr_job r) < maxInfraRequeues)
       (infra_row (db_clusters db) now reason) i db"

text \<open>\<open>domain.Termination\<close>.\<close>

datatype Termination = TerminationSkipped | TerminationWritten | TerminationRequeued

definition ResolveTermination :: "int \<Rightarrow> int \<Rightarrow> string \<Rightarrow> ExperimentStatus \<Rightarrow> ExperimentStatus \<Rightarrow> string \<Rightarrow> job_db
    \<Rightarrow> Termination \<times> job_db" where
  "ResolveTermination maxInfraRequeues now i from to reason db =
     (let (requeued, db1) = (if IsInfrastructureFault reason
                             then RequeueInfrastructureFault now i from reason maxInfraRequeues db else (False, db))
      in if requeued then (TerminationRequeued, db1)
         else let (moved, db2) = write_job jobStatus (\<lambda>r. jr_Status r = from) (finish_row now to (Some reason)) i db1
              in (if moved then TerminationWritten else TerminationSkipped, db2))"

text \<open>\<open>False\<close> is the error of an id no row has.\<close>

definition MarkQuotaSettled :: "int \<Rightarrow> string \<Rightarrow> job_db \<Rightarrow> bool \<times> job_db" where
  "MarkQuotaSettled now i = write_job (\<lambda>_. []) (\<lambda>_. True) (\<lambda>r. r\<lparr>jr_QuotaSettledAt := Some now\<rparr>) i"

definition withdraw_row :: "int \<Rightarrow> job_row \<Rightarrow> job_row" where
  "withdraw_row now r =
     (let r' = unplace_row now r; e = jr_job r
      in r'\<lparr>jr_EvictionReason := Some EvictionClusterWithdrawn, jr_InfraRequeueReason := EvictionClusterWithdrawn,
            jr_QuotaSettledAt := None,
            jr_job := (jr_job r')\<lparr>ex_AttemptCount := ex_AttemptCount e + 1,
                ex_InfraRequeueCount := ex_InfraRequeueCount e + 1,
                ex_QueuedAt := Some (case ex_QueuedAt e of None \<Rightarrow> now | Some t \<Rightarrow> t)\<rparr>\<rparr>)"

definition on_cluster :: "string \<Rightarrow> job_row \<Rightarrow> bool" where
  "on_cluster cluster r \<longleftrightarrow> ex_ClusterName (jr_job r) = cluster \<and> jr_Status r \<in> set PlacedStatuses"

definition update_where :: "(job_row \<Rightarrow> Change list) \<Rightarrow> (job_row \<Rightarrow> bool) \<Rightarrow> (job_row \<Rightarrow> job_row) \<Rightarrow> job_db \<Rightarrow> job_db" where
  "update_where announce guard upd db =
     db\<lparr>db_rows := map (\<lambda>(i, r). (i, if guard r then upd r else r)) (db_rows db),
        db_changes := db_changes db @ concat (map (\<lambda>(i, r). if guard r then announce (upd r) else []) (db_rows db))\<rparr>"

definition requeueWithdrawn :: "int \<Rightarrow> string \<Rightarrow> job_db \<Rightarrow> job_db" where
  "requeueWithdrawn now cluster = update_where jobStatus (on_cluster cluster) (withdraw_row now)"

subsection \<open>Notes on a job that waits or runs\<close>

definition MarkUnderperforming :: "string \<Rightarrow> string \<Rightarrow> job_db \<Rightarrow> bool \<times> job_db" where
  "MarkUnderperforming i metricName =
     write_job (\<lambda>r. [row_change r ''job.underperforming'' (coalesce (jr_UnderperformingMetric r)) []])
       (\<lambda>r. jr_UnderperformingMetric r = None \<and> \<not> Ended (jr_Status r)) (\<lambda>r. r\<lparr>jr_UnderperformingMetric := Some metricName\<rparr>) i"

definition hour :: rat where
  "hour = 3600 * 10 ^ 9"

definition is_held :: "int \<Rightarrow> int \<Rightarrow> job_row \<Rightarrow> bool" where
  "is_held now minimum r \<longleftrightarrow>
     jr_Status r = StatusQueued \<and> jr_HeldReason r = None
     \<and> (case jr_NotAdmittedReason r of None \<Rightarrow> False | Some s \<Rightarrow> fst (SplitQueueReason s) \<noteq> NotAdmittedAwaitingAdmission)
     \<and> (case ex_QueuedAt (jr_job r) of None \<Rightarrow> False
        | Some q \<Rightarrow> of_int (now - q) > max (of_int minimum) (ex_EstimatedDurationHours (jr_job r) * hour))"

definition MarkHeldJobs :: "int \<Rightarrow> int \<Rightarrow> job_db \<Rightarrow> job_db" where
  "MarkHeldJobs now minimum =
     update_where jobHeld (is_held now minimum) (\<lambda>r. r\<lparr>jr_HeldReason := jr_NotAdmittedReason r\<rparr>)"

definition HeldBaselineLate :: string where
  "HeldBaselineLate = ''baseline_late''"

text \<open>\<open>None\<close> is the error of a reason that is a bare code.\<close>

definition MarkBaselineLate :: "string \<Rightarrow> string \<Rightarrow> job_db \<Rightarrow> bool option \<times> job_db" where
  "MarkBaselineLate i reason db =
     (if \<not> sentenced reason then (None, db)
      else let (w, db') = write_job jobHeld
             (\<lambda>r. jr_Status r \<in> set UnstartedStatuses \<and> fst (SplitQueueReason (coalesce (jr_HeldReason r))) \<noteq> HeldBaselineLate)
             (\<lambda>r. r\<lparr>jr_HeldReason := Some reason\<rparr>) i db
           in (Some w, db'))"

definition UpdateNotAdmittedReason :: "string \<Rightarrow> string \<Rightarrow> job_db \<Rightarrow> bool option \<times> job_db" where
  "UpdateNotAdmittedReason i reason db =
     (if \<not> sentenced reason then (None, db)
      else let (w, db') = write_job jobQueueReason
             (\<lambda>r. jr_Status r = StatusQueued \<and> jr_NotAdmittedReason r \<noteq> Some reason) (\<lambda>r. r\<lparr>jr_NotAdmittedReason := Some reason\<rparr>) i db
           in (Some w, db'))"

definition UpdateExperimentPriority :: "string \<Rightarrow> rat \<Rightarrow> job_db \<Rightarrow> bool \<times> job_db" where
  "UpdateExperimentPriority i score =
     write_job (\<lambda>_. []) (\<lambda>r. ex_PriorityScore (jr_job r) \<noteq> score)
       (\<lambda>r. r\<lparr>jr_job := (jr_job r)\<lparr>ex_PriorityScore := score\<rparr>\<rparr>) i"

text \<open>The write of \<open>ReserveAdmittedAcceleratorTypeTx\<close> (storage/db/admission.go).\<close>

definition write_admitted_type :: "string \<Rightarrow> AcceleratorType \<Rightarrow> rat \<Rightarrow> job_db \<Rightarrow> bool \<times> job_db" where
  "write_admitted_type i t cost =
     write_job (\<lambda>_. []) (\<lambda>_. True)
       (\<lambda>r. r\<lparr>jr_job := (jr_job r)\<lparr>ex_AcceleratorType := t, ex_EstimatedCostAccH := cost\<rparr>\<rparr>) i"

subsection \<open>Writes beside a job's life\<close>

text \<open>\<open>endedJobKeySQL\<close>; times and the grace are nanoseconds.\<close>

definition endedJobKey :: "int \<Rightarrow> int \<Rightarrow> job_row \<Rightarrow> bool" where
  "endedJobKey now grace r \<longleftrightarrow>
     jr_DataAccessKeyID r \<noteq> [] \<and> Ended (jr_Status r) \<and> jr_Status r \<noteq> StatusCancelled
     \<and> (case jr_EndedAt r of None \<Rightarrow> jr_UpdatedAt r | Some t \<Rightarrow> t) \<le> now - grace"

definition EndedDataKeys :: "int \<Rightarrow> int \<Rightarrow> job_db \<Rightarrow> (string \<times> string) list \<times> job_db" where
  "EndedDataKeys now grace db = ([(i, jr_DataAccessKeyID r). (i, r) \<leftarrow> db_rows db, endedJobKey now grace r], db)"

text \<open>
  \<open>deleteKey\<close> says whether the object store deletes a key; it is called while the row is locked.  \<open>False\<close> is an error, which rolls the
  transaction back.
\<close>

definition DropDataKey :: "int \<Rightarrow> int \<Rightarrow> (string \<Rightarrow> bool) \<Rightarrow> string \<times> string \<Rightarrow> job_db \<Rightarrow> bool \<times> job_db" where
  "DropDataKey now grace deleteKey key db =
     (case map_of (db_rows db) (fst key) of
        None \<Rightarrow> (True, db)
      | Some r \<Rightarrow>
          if \<not> endedJobKey now grace r \<or> jr_DataAccessKeyID r \<noteq> snd key then (True, db)
          else if \<not> deleteKey (snd key) then (False, db)
          else (True, snd (write_job (\<lambda>_. []) (\<lambda>_. True) (\<lambda>r. r\<lparr>jr_DataAccessKeyID := [], jr_DataSecretAccessKey := []\<rparr>) (fst key) db)))"

text \<open>A run that ended was not reported under the current admission of its job.\<close>

definition unreported :: "string list \<Rightarrow> job_row \<Rightarrow> bool" where
  "unreported ids r \<longleftrightarrow>
     ex_ID (jr_job r) \<in> set ids
     \<and> (case jr_SubmittedAt r of None \<Rightarrow> False | Some s \<Rightarrow> (case jr_RunReportedAt r of None \<Rightarrow> True | Some t \<Rightarrow> t < s))"

definition RunFirstReportedAt :: "int \<Rightarrow> string list \<Rightarrow> job_db \<Rightarrow> (string, int) gomap \<times> job_db" where
  "RunFirstReportedAt now ids db =
     (if ids = [] then ([], db)
      else let db = update_where (\<lambda>_. []) (unreported ids) (\<lambda>r. r\<lparr>jr_RunReportedAt := Some now\<rparr>) db
           in (List.map_filter (\<lambda>(i, r). case (jr_SubmittedAt r, jr_RunReportedAt r) of
                   (Some s, Some t) \<Rightarrow> if i \<in> set ids \<and> t \<ge> s then Some (i, t) else None
                 | _ \<Rightarrow> None) (db_rows db), db))"

subsection \<open>Placing a job\<close>

definition hosts_row :: "job_db \<Rightarrow> string \<Rightarrow> job_row \<Rightarrow> bool" where
  "hosts_row db cluster r =
     (case map_of (db_clusters db) cluster of None \<Rightarrow> False | Some c \<Rightarrow> Hosts c (ex_OrgID (jr_job r)))"

definition of_platform :: "job_db \<Rightarrow> string \<Rightarrow> bool" where
  "of_platform db cluster = (case map_of (db_clusters db) cluster of None \<Rightarrow> False | Some c \<Rightarrow> OfPlatform c)"

text \<open>\<open>heldOnPlatformSQL\<close>: the rows of an org that hold platform compute, leaving out one job.\<close>

definition holds_platform :: "job_db \<Rightarrow> string \<Rightarrow> string \<Rightarrow> string \<Rightarrow> job_row \<Rightarrow> bool" where
  "holds_platform db org i j r \<longleftrightarrow>
     j \<noteq> i \<and> ex_OrgID (jr_job r) = org \<and> jr_Status r \<in> set PlacedStatuses \<and> of_platform db (ex_ClusterName (jr_job r))"

definition project_of :: "job_db \<Rightarrow> job_row \<Rightarrow> string" where
  "project_of db r = gets (db_projects db) (ex_PlatformExperimentID (jr_job r))"

definition org_held :: "job_db \<Rightarrow> string \<Rightarrow> string \<Rightarrow> rat" where
  "org_held db org i = sum_list [jr_AccHPerHour r. (j, r) \<leftarrow> db_rows db, holds_platform db org i j r]"

definition project_held :: "job_db \<Rightarrow> string \<Rightarrow> string \<Rightarrow> string \<Rightarrow> rat" where
  "project_held db org project i =
     sum_list [jr_AccHPerHour r. (j, r) \<leftarrow> db_rows db, holds_platform db org i j r \<and> project_of db r = project]"

text \<open>\<open>domain.ClaimRefusal\<close>, without the name of the org or project.\<close>

record ClaimRefusal =
  cr_Code :: string
  cr_Held :: rat
  cr_Limit :: rat
  cr_Needs :: rat

text \<open>\<open>None\<close> is an error: no such job, no such org, or no rate for the job's accelerator type.\<close>

definition withinComputeLimit :: "(string, rat) gomap \<Rightarrow> rat \<Rightarrow> string \<Rightarrow> string \<Rightarrow> job_db \<Rightarrow> (rat \<times> ClaimRefusal option) option" where
  "withinComputeLimit rates cpuCoreSharedRate i cluster db =
     (case map_of (db_rows db) i of
        None \<Rightarrow> None
      | Some r \<Rightarrow>
          let e = jr_job r; org = ex_OrgID e
          in case (map_of (db_limits db) org, AccHPerHour rates cpuCoreSharedRate (ex_AcceleratorType e) (ex_AcceleratorCount e)) of
               (Some limit, Some rate) \<Rightarrow>
                 if \<not> of_platform db cluster then Some (rate, None)
                 else
                   let orgHeld = org_held db org i; projectHeld = project_held db org (project_of db r) i
                   in if ExceedsLimit (projectHeld + rate) (lim_Project limit)
                      then Some (rate, Some \<lparr>cr_Code = ''project_compute_limit'', cr_Held = projectHeld, cr_Limit = lim_Project limit, cr_Needs = rate\<rparr>)
                      else if ExceedsLimit (orgHeld + rate) (lim_Org limit)
                      then Some (rate, Some \<lparr>cr_Code = ''org_compute_limit'', cr_Held = orgHeld, cr_Limit = lim_Org limit, cr_Needs = rate\<rparr>)
                      else Some (rate, None)
             | _ \<Rightarrow> None)"

definition claim_row :: "int \<Rightarrow> string \<Rightarrow> JobSpec \<Rightarrow> rat \<Rightarrow> job_row \<Rightarrow> job_row" where
  "claim_row now cluster resolved rate r =
     r\<lparr>jr_Status := StatusSubmitted, jr_SubmittedAt := Some now,
       jr_job := (jr_job r)\<lparr>ex_ClusterName := cluster, ex_ResolvedJob := Some resolved\<rparr>, jr_LastCluster := cluster,
       jr_EvictionReason := None, jr_NotAdmittedReason := None, jr_UpdatedAt := now, jr_AccHPerHour := rate\<rparr>"

definition desired_before :: "job_row \<Rightarrow> job_row \<Rightarrow> bool" where
  "desired_before a b =
     (case (jr_SubmittedAt a, jr_SubmittedAt b) of
        (Some s, Some t) \<Rightarrow> if s \<noteq> t then s < t else ex_ID (jr_job a) < ex_ID (jr_job b)
      | (Some _, None) \<Rightarrow> True
      | (None, Some _) \<Rightarrow> False
      | (None, None) \<Rightarrow> ex_ID (jr_job a) < ex_ID (jr_job b))"

definition desired_on :: "job_db \<Rightarrow> string \<Rightarrow> job_row list" where
  "desired_on db cluster =
     sort_slice desired_before
       (filter (\<lambda>r. ex_ClusterName (jr_job r) = cluster \<and> jr_Status r = StatusSubmitted) (map snd (db_rows db)))"

text \<open>A claim that succeeds has written the resolved job it carries.\<close>

datatype claim_result = ClaimFailed | ClaimRefused ClaimRefusal | Claimed JobSpec

definition capacity_refusal :: ClaimRefusal where
  "capacity_refusal = \<lparr>cr_Code = NotAdmittedCapacityUnavailable, cr_Held = 0, cr_Limit = 0, cr_Needs = 0\<rparr>"

text \<open>
  The transaction holds the cluster's admission lock and, for a platform cluster, the org's, which every
  other claim takes too, so no other claim runs between its reads and its write.  The check of capacity is given a pointer to
  the resolved job and may write to it (placement.DesiredFits does), so it returns it, \<open>None\<close> where it fails.  The caller
  passes a resolved job, and its encoding as JSON does not fail.
\<close>

definition ClaimSubmitted :: "(string, rat) gomap \<Rightarrow> rat \<Rightarrow> int \<Rightarrow> string \<Rightarrow> string \<Rightarrow> JobSpec
    \<Rightarrow> (job_row list \<Rightarrow> JobSpec \<Rightarrow> (bool \<times> JobSpec) option) option \<Rightarrow> job_db \<Rightarrow> claim_result \<times> job_db" where
  "ClaimSubmitted rates cpuCoreSharedRate now i cluster resolved capacityAvailable db =
     (case (case capacityAvailable of None \<Rightarrow> Some (True, resolved) | Some f \<Rightarrow> f (desired_on db cluster) resolved) of
        None \<Rightarrow> (ClaimFailed, db)
      | Some (False, _) \<Rightarrow> (ClaimRefused capacity_refusal, db)
      | Some (True, resolved) \<Rightarrow>
          (case withinComputeLimit rates cpuCoreSharedRate i cluster db of
             None \<Rightarrow> (ClaimFailed, db)
           | Some (_, Some limited) \<Rightarrow> (ClaimRefused limited, db)
           | Some (rate, None) \<Rightarrow>
               let (placed, db') = write_job jobStatus (\<lambda>r. jr_Status r = StatusQueued \<and> hosts_row db cluster r)
                                     (claim_row now cluster resolved rate) i db
               in (if placed then Claimed resolved else ClaimRefused capacity_refusal, db')))"

subsection \<open>Inserting a job\<close>

text \<open>
  What a submitted job carries beside what its row reads back as.  A tier that is not named reads as
  burst.  The stored spec leaves out the accelerator count, which a read of the row puts back.
\<close>

record submission =
  sub_exp :: Experiment
  sub_TierNamed :: bool
  sub_Status :: ExperimentStatus
  sub_NotAdmittedReason :: string
  sub_ActorKind :: string
  sub_SpecHasSecretEnv :: bool \<comment> \<open>the spec's SecretEnv is not nil\<close>
  sub_DataAccessKeyID :: string
  sub_DataSecretAccessKey :: string
  sub_HypothesisID :: string
  sub_CodeRef :: string
  sub_SameHypothesis :: string
  sub_SubmissionKey :: string
  sub_UpdatedAt :: int
  sub_MaxEstimateHours :: rat

definition new_row :: "submission \<Rightarrow> job_row" where
  "new_row s =
     \<lparr>jr_job = (sub_exp s)\<lparr>ex_ResolvedJob := None, ex_QueuedAt := Some (ex_CreatedAt (sub_exp s)), ex_AttemptCount := 0,
        ex_InfraRequeueCount := 0, ex_TriedClusters := [], ex_RanOnAcceleratorType := []\<rparr>,
      jr_Status = sub_Status s, jr_EvictionReason = None, jr_NotAdmittedReason = nullif (sub_NotAdmittedReason s),
      jr_HeldReason = None, jr_UnderperformingMetric = None, jr_SubmittedAt = None, jr_EndedAt = None, jr_QuotaSettledAt = None,
      jr_UpdatedAt = sub_UpdatedAt s, jr_LastCluster = [], jr_InfraRequeueReason = [], jr_AccHPerHour = 0,
      jr_DataAccessKeyID = sub_DataAccessKeyID s, jr_DataSecretAccessKey = sub_DataSecretAccessKey s, jr_RunReportedAt = None,
      jr_HypothesisID = sub_HypothesisID s, jr_CodeRef = sub_CodeRef s,
      jr_SameHypothesis = nullif (sub_SameHypothesis s), jr_SubmissionKey = sub_SubmissionKey s\<rparr>"

text \<open>The queue reason a queued job is inserted with.\<close>

definition with_queue_reason :: "submission \<Rightarrow> submission" where
  "with_queue_reason s =
     (if sub_Status s = StatusQueued \<and> sub_NotAdmittedReason s = [] then s\<lparr>sub_NotAdmittedReason := QueueReasonAwaitingAdmission\<rparr> else s)"

datatype create_error = NoCapacityTier | NoActor | SpecHasSecretEnv | DuplicateExperiment

definition announce_insert :: "job_row \<Rightarrow> Change list" where
  "announce_insert r =
     jobStatus r @ (if coalesce (jr_SameHypothesis r) = [] then []
                    else [row_change r ''job.duplicate'' (jr_HypothesisID r) (coalesce (jr_SameHypothesis r))])"

text \<open>The unique index of the submission keys (storage/db/schema.sql, idx_experiments_submission_key).\<close>

definition key_taken :: "submission \<Rightarrow> job_db \<Rightarrow> bool" where
  "key_taken s db \<longleftrightarrow>
     sub_SubmissionKey s \<noteq> []
     \<and> list_ex (\<lambda>(i, r). ex_AgentID (jr_job r) = ex_AgentID (sub_exp s) \<and> ex_PlatformExperimentID (jr_job r) = ex_PlatformExperimentID (sub_exp s)
          \<and> jr_SubmissionKey r = sub_SubmissionKey s) (db_rows db)"

text \<open>A violation of either unique constraint is ErrDuplicateExperiment.\<close>

definition createExperiment :: "submission \<Rightarrow> job_db \<Rightarrow> create_error option \<times> submission \<times> job_db" where
  "createExperiment s db =
     (if \<not> sub_TierNamed s then (Some NoCapacityTier, s, db)
      else let s = with_queue_reason s; i = ex_ID (sub_exp s); r = new_row s
           in if sub_ActorKind s = [] then (Some NoActor, s, db)
              else if sub_SpecHasSecretEnv s then (Some SpecHasSecretEnv, s, db)
              else if map_of (db_rows db) i \<noteq> None \<or> key_taken s db then (Some DuplicateExperiment, s, db)
              else (None, s, db\<lparr>db_rows := mput i r (db_rows db), db_changes := db_changes db @ announce_insert r\<rparr>))"

end
