(* ===== verification/Admission.thy ===== *)
theory Admission
  imports JobRows
begin

text \<open>
  Quota admission (storage/db/admission.go): the transaction that inserts a submitted job within what its agent
  has left, the estimate it gives a job that states none, and the one that reserves the accelerator type a queued job
  was placed at.  Each runs under the lock of the agent in the platform experiment, which every other admission of that agent takes
  too.  What the metrics store observed the agent to have used is a parameter, \<open>None\<close> where the observation fails.
\<close>

datatype AdmitDecision = AdmitInserted | AdmitAlreadyQueued | AdmitRepeated

text \<open>
  Why nothing was written (AdmitRejected): a refusal with its reason, an id that is taken, or a failure of
  the platform's.  The sentence of a refusal is left out.
\<close>

datatype admit_error = AdmitRefusal string | TakenID | AdmitFailure

definition RefusedRateLimited :: string where "RefusedRateLimited = ''rate_limited''"
definition RefusedAgentCut :: string where "RefusedAgentCut = ''stage_cut''"
definition RefusedAgentFinished :: string where "RefusedAgentFinished = ''agent_finished''"
definition RefusedNoQuota :: string where "RefusedNoQuota = ''no_quota''"
definition RefusedInsufficientQuota :: string where "RefusedInsufficientQuota = ''insufficient_quota''"

record SubmissionRateLimit =
  rl_MaxPerHour :: int
  rl_Window :: int

subsection \<open>What the table says of an agent\<close>

definition of_agent :: "string \<Rightarrow> string \<Rightarrow> job_row \<Rightarrow> bool" where
  "of_agent agent pe r \<longleftrightarrow> ex_AgentID (jr_job r) = agent \<and> ex_PlatformExperimentID (jr_job r) = pe"

text \<open>\<open>recentSubmissions\<close>: the distinct pairs of hypothesis and commit of the agent's rows since a time.\<close>

definition recent_rows :: "string \<Rightarrow> string \<Rightarrow> int \<Rightarrow> job_db \<Rightarrow> job_row list" where
  "recent_rows agent pe since db = filter (\<lambda>r. of_agent agent pe r \<and> ex_CreatedAt (jr_job r) \<ge> since) (map snd (db_rows db))"

definition submission_of :: "job_row \<Rightarrow> string \<times> string" where
  "submission_of r = (jr_HypothesisID r, jr_CodeRef r)"

definition RecentSubmissions :: "int \<Rightarrow> string \<Rightarrow> string \<Rightarrow> int \<Rightarrow> job_db \<Rightarrow> int" where
  "RecentSubmissions now agent pe window db = int (length (remdups (map submission_of (recent_rows agent pe (now - window) db))))"

text \<open>\<open>reservedSQL\<close>.\<close>

definition reserves :: "job_row \<Rightarrow> bool" where
  "reserves r \<longleftrightarrow> \<not> Ended (jr_Status r) \<or> Ended (jr_Status r) \<and> jr_Status r \<noteq> StatusCancelled \<and> jr_QuotaSettledAt r = None"

definition reserved_where :: "(job_row \<Rightarrow> bool) \<Rightarrow> string \<Rightarrow> string \<Rightarrow> job_db \<Rightarrow> rat" where
  "reserved_where P agent pe db =
     sum_list [ex_EstimatedCostAccH (jr_job r). (j, r) \<leftarrow> db_rows db, of_agent agent pe r \<and> reserves r \<and> P r]"

definition of_tier :: "CapacityTier \<Rightarrow> job_row \<Rightarrow> bool" where
  "of_tier tier r \<longleftrightarrow> ex_CapacityTier (jr_job r) = tier"

text \<open>The allotment with what is used: observed, and reserved by the rows.\<close>

definition with_used :: "AgentQuota \<Rightarrow> AgentQuota \<Rightarrow> string \<Rightarrow> string \<Rightarrow> job_db \<Rightarrow> AgentQuota" where
  "with_used allocation observed agent pe db =
     allocation\<lparr>aq_UsedGuaranteedAccH := aq_UsedGuaranteedAccH observed + reserved_where (of_tier CapacityGuaranteed) agent pe db,
                aq_UsedBurstAccH := aq_UsedBurstAccH observed + reserved_where (of_tier CapacityBurst) agent pe db\<rparr>"

subsection \<open>The largest estimate\<close>

definition fitSteps :: rat where "fitSteps = 10 ^ 4"

text \<open>What a job costs an hour is positive: its rate is (config/load.go) and so is its count.\<close>

definition fitHours :: "rat \<Rightarrow> rat \<Rightarrow> rat" where
  "fitHours remaining perHour = of_int \<lfloor>remaining / perHour * fitSteps\<rfloor> / fitSteps"

text \<open>The experiment with its estimate, or why there is none; the experiment is written either way.\<close>

definition takeLargestEstimate :: "(string, rat) gomap \<Rightarrow> rat \<Rightarrow> rat \<Rightarrow> Experiment \<Rightarrow> admit_error option \<times> Experiment" where
  "takeLargestEstimate rates maxHours remaining e =
     (let e = e\<lparr>ex_EstimatedDurationHours := 1\<rparr>
      in case EstimateHeld rates e of
           None \<Rightarrow> (Some AdmitFailure, e)
         | Some perHour \<Rightarrow>
             let hours = fitHours remaining perHour; hours = (if maxHours > 0 then min hours maxHours else hours)
             in if hours \<le> 0 then (Some (AdmitRefusal RefusedInsufficientQuota), e\<lparr>ex_EstimatedDurationHours := 0\<rparr>)
                else (None, e\<lparr>ex_EstimatedDurationHours := hours, ex_EstimatedCostAccH := perHour * hours\<rparr>))"

subsection \<open>Admitting a submission\<close>

definition stored_for :: "submission \<Rightarrow> job_row \<Rightarrow> bool" where
  "stored_for s r \<longleftrightarrow> of_agent (ex_AgentID (sub_exp s)) (ex_PlatformExperimentID (sub_exp s)) r
     \<and> jr_SubmissionKey r = sub_SubmissionKey s"

text \<open>The check of the rate limit; \<open>True\<close> where the submission is refused.\<close>

definition over_rate :: "int \<Rightarrow> SubmissionRateLimit \<Rightarrow> submission \<Rightarrow> job_db \<Rightarrow> bool" where
  "over_rate now limit s db \<longleftrightarrow>
     rl_MaxPerHour limit > 0
     \<and> (let agent = ex_AgentID (sub_exp s); pe = ex_PlatformExperimentID (sub_exp s);
            recent = RecentSubmissions now agent pe (rl_Window limit) db;
            counted = list_ex (\<lambda>r. jr_HypothesisID r = sub_HypothesisID s \<and> jr_CodeRef r = sub_CodeRef s)
                        (recent_rows agent pe (now - rl_Window limit) db)
        in \<not> counted \<and> recent \<ge> rl_MaxPerHour limit)"

text \<open>The estimate the job is admitted with, or why it is not.\<close>

definition admit_estimate :: "(string, rat) gomap \<Rightarrow> rat \<Rightarrow> submission \<Rightarrow> admit_error option \<times> submission" where
  "admit_estimate rates remaining s =
     (let e = sub_exp s
      in if ex_EstimatedDurationHours e = 0
         then (case takeLargestEstimate rates (sub_MaxEstimateHours s) remaining e of (err, e) \<Rightarrow> (err, s\<lparr>sub_exp := e\<rparr>))
         else if ex_EstimatedCostAccH e > remaining then (Some (AdmitRefusal RefusedInsufficientQuota), s)
         else (None, s))"

text \<open>The insert; \<open>inserted\<close> is the caller's last check, whose failure rolls the transaction back.\<close>

definition admit_insert :: "(job_db \<Rightarrow> bool) \<Rightarrow> submission \<Rightarrow> job_db \<Rightarrow> (admit_error + AdmitDecision) \<times> submission \<times> job_db" where
  "admit_insert inserted s db =
     (case createExperiment s db of
        (Some DuplicateExperiment, s, _) \<Rightarrow> (Inl TakenID, s, db)
      | (Some _, s, _) \<Rightarrow> (Inl AdmitFailure, s, db)
      | (None, s, db') \<Rightarrow> if inserted db' then (Inr AdmitInserted, s, db') else (Inl AdmitFailure, s, db))"

text \<open>The decision about an id that is free.\<close>

definition admit_new :: "(string, rat) gomap \<Rightarrow> int \<Rightarrow> AgentQuota option \<Rightarrow> SubmissionRateLimit \<Rightarrow> (job_db \<Rightarrow> bool) \<Rightarrow> submission \<Rightarrow> job_db
    \<Rightarrow> (admit_error + AdmitDecision) \<times> submission \<times> job_db" where
  "admit_new rates now observe limit inserted s db =
     (let agent = ex_AgentID (sub_exp s); pe = ex_PlatformExperimentID (sub_exp s)
      in case observe of
           None \<Rightarrow> (Inl AdmitFailure, s, db)
         | Some observed \<Rightarrow>
             if over_rate now limit s db then (Inl (AdmitRefusal RefusedRateLimited), s, db)
             else if (pe, agent) \<in> set (db_cuts db) then (Inl (AdmitRefusal RefusedAgentCut), s, db)
             else if (pe, agent) \<in> set (db_finished db) then (Inl (AdmitRefusal RefusedAgentFinished), s, db)
             else (case map_of (db_quotas db) (agent, pe) of
                     None \<Rightarrow> (Inl (AdmitRefusal RefusedNoQuota), s, db)
                   | Some allocation \<Rightarrow>
                       (case admit_estimate rates (Remaining (with_used allocation observed agent pe db) (ex_CapacityTier (sub_exp s))) s of
                          (Some err, s) \<Rightarrow> (Inl err, s, db)
                        | (None, s) \<Rightarrow> admit_insert inserted s db)))"

definition AdmitExperimentTx :: "(string, rat) gomap \<Rightarrow> int \<Rightarrow> AgentQuota option \<Rightarrow> SubmissionRateLimit \<Rightarrow> (job_db \<Rightarrow> bool) \<Rightarrow> submission \<Rightarrow> job_db
    \<Rightarrow> (admit_error + AdmitDecision) \<times> submission \<times> job_db" where
  "AdmitExperimentTx rates now observe limit inserted s db =
     (case (if sub_SubmissionKey s = [] then None else find (\<lambda>(i, r). stored_for s r) (db_rows db)) of
        Some (i, r) \<Rightarrow> (Inr AdmitRepeated, s\<lparr>sub_exp := (sub_exp s)\<lparr>ex_ID := i\<rparr>\<rparr>, db)
      | None \<Rightarrow>
          (case map_of (db_rows db) (ex_ID (sub_exp s)) of
             Some r \<Rightarrow>
               if \<not> of_agent (ex_AgentID (sub_exp s)) (ex_PlatformExperimentID (sub_exp s)) r then (Inl TakenID, s, db)
               else if jr_Status r = StatusQueued then (Inr AdmitAlreadyQueued, s, db)
               else (Inl TakenID, s, db)
           | None \<Rightarrow> admit_new rates now observe limit inserted s db))"

subsection \<open>Reserving the type a job is placed at\<close>

text \<open>The accelerators the other placed jobs of a platform experiment hold.\<close>

definition in_flight :: "string \<Rightarrow> string \<Rightarrow> job_db \<Rightarrow> int" where
  "in_flight pe i db =
     sum_list [ex_AcceleratorCount (jr_job r). (j, r) \<leftarrow> db_rows db,
       ex_PlatformExperimentID (jr_job r) = pe \<and> j \<noteq> i \<and> jr_Status r \<in> set PlacedStatuses]"

text \<open>The refusal for want of quota and the one for the cap (NotAdmittedConcurrencyCap).\<close>

datatype reserve_result = ReserveFailed | QuotaRefused | ConcurrencyCapRefused | Reserved

text \<open>The cap of a platform experiment; \<open>None\<close> where there is no such row.\<close>

definition concurrency_cap :: "string \<Rightarrow> int \<Rightarrow> job_db \<Rightarrow> int option" where
  "concurrency_cap pe defaultMaxConcurrent db =
     map_option (\<lambda>own. case own of None \<Rightarrow> defaultMaxConcurrent | Some c \<Rightarrow> c) (map_of (db_maxConcurrent db) pe)"

definition ReserveAdmittedAcceleratorTypeTx :: "string \<Rightarrow> AcceleratorType \<Rightarrow> rat \<Rightarrow> int \<Rightarrow> int \<Rightarrow> AgentQuota option \<Rightarrow> job_db
    \<Rightarrow> reserve_result \<times> job_db" where
  "ReserveAdmittedAcceleratorTypeTx i acceleratorType estimatedCost acceleratorCount defaultMaxConcurrent observe db =
     (case (map_of (db_rows db) i, observe) of
        (Some r, Some observed) \<Rightarrow>
          let agent = ex_AgentID (jr_job r); pe = ex_PlatformExperimentID (jr_job r); tier = ex_CapacityTier (jr_job r);
              oldCost = ex_EstimatedCostAccH (jr_job r)
          in (case (map_of (db_quotas db) (agent, pe), concurrency_cap pe defaultMaxConcurrent db) of
                (Some allocation, Some cap) \<Rightarrow>
                  let desired = reserved_where (of_tier tier) agent pe db; desiredAll = reserved_where (\<lambda>_. True) agent pe db;
                      (used, limit) = (if tier = CapacityGuaranteed
                         then (aq_UsedGuaranteedAccH observed, aq_GuaranteedAcceleratorHours allocation)
                         else (aq_UsedBurstAccH observed, aq_BurstAcceleratorHours allocation))
                  in if used + desired - oldCost + estimatedCost > limit then (QuotaRefused, db)
                     else if Used observed + desiredAll - oldCost + estimatedCost > Share allocation
                     then (QuotaRefused, db)
                     else if acceleratorCount > 0 \<and> cap > 0 \<and> in_flight pe i db + acceleratorCount > cap
                     then (ConcurrencyCapRefused, db)
                     else (Reserved, snd (write_admitted_type i acceleratorType estimatedCost db))
              | _ \<Rightarrow> (ReserveFailed, db))
      | _ \<Rightarrow> (ReserveFailed, db))"

end
