(* ===== verification/EventText.thy ===== *)
theory EventText
  imports Reasons
begin

text \<open>
  The text an event carries (controlplane/domain/event_detail.go) and the last output a failed
  job is stored with (withLastOutput of service/scheduler/job_watcher_scan.go).
\<close>

definition MaxEventDetailJSONBytes :: nat where
  "MaxEventDetailJSONBytes = 4096"

definition ellipsis :: string where
  "ellipsis = [char_of (226 :: nat), char_of (128 :: nat), char_of (166 :: nat)]"

definition eventDetailTruncated :: string where
  "eventDetailTruncated = ellipsis @ '' [truncated]''"

text \<open>\<open>unicode.IsControl\<close>: U+0000 to U+001F and U+007F to U+009F.\<close>

definition is_control :: "string \<Rightarrow> bool" where
  "is_control c =
     (case c of
        [a] \<Rightarrow> of_char a < (32 :: nat) \<or> of_char a = (127 :: nat)
      | [a, b] \<Rightarrow> of_char a = (194 :: nat) \<and> byte_in 128 159 b
      | _ \<Rightarrow> False)"

definition newline :: string where "newline = [CHR 0x0A]"

definition tab :: string where "tab = [CHR 0x09]"

definition jsonRuneBytes :: "string \<Rightarrow> nat" where
  "jsonRuneBytes c =
     (if c \<in> {[CHR 0x22], [CHR 0x5C], newline, tab} then 2
      else if c \<in> {[char_of (226 :: nat), char_of (128 :: nat), char_of (168 :: nat)],
                  [char_of (226 :: nat), char_of (128 :: nat), char_of (169 :: nat)]} then 6
      else length c)"

definition kept_rune :: "string \<Rightarrow> bool" where
  "kept_rune c \<longleftrightarrow> \<not> is_control c \<or> c = newline \<or> c = tab"

definition json_bytes :: "string list \<Rightarrow> nat" where
  "json_bytes cs = sum_list (map jsonRuneBytes cs)"

text \<open>The runes written until the budget is spent.\<close>

fun within_bytes :: "int \<Rightarrow> string list \<Rightarrow> string list" where
  "within_bytes budget [] = []"
| "within_bytes budget (c # cs) =
     (let left = budget - int (jsonRuneBytes c) in if left < 0 then [] else c # within_bytes left cs)"

definition EventDetail :: "string \<Rightarrow> string" where
  "EventDetail s =
     (let kept = filter kept_rune (runes s)
      in if json_bytes kept \<le> MaxEventDetailJSONBytes then concat kept
         else concat (within_bytes (int MaxEventDetailJSONBytes - int (length eventDetailTruncated)) kept) @ eventDetailTruncated)"

subsection \<open>The last output of a failed job\<close>

definition failureOutputBytes :: nat where "failureOutputBytes = 2048"

definition failureOutputLineBytes :: nat where "failureOutputLineBytes = 256"

text \<open>\<open>unicode.IsSpace\<close>.\<close>

definition is_space :: "string \<Rightarrow> bool" where
  "is_space c =
     (case map of_char c :: nat list of
        [a] \<Rightarrow> 9 \<le> a \<and> a \<le> 13 \<or> a = 32
      | [a, b] \<Rightarrow> a = 194 \<and> (b = 133 \<or> b = 160)
      | [a, b, d] \<Rightarrow> (a, b, d) = (225, 154, 128) \<or> a = 226 \<and> b = 128 \<and> (128 \<le> d \<and> d \<le> 138 \<or> d = 168 \<or> d = 169 \<or> d = 175)
          \<or> (a, b, d) = (226, 129, 159) \<or> (a, b, d) = (227, 128, 128)
      | _ \<Rightarrow> False)"

definition trim_right :: "string \<Rightarrow> string" where
  "trim_right s = concat (rev (dropWhile is_space (rev (runes s))))"

fun rune_start :: "string \<Rightarrow> nat \<Rightarrow> nat" where
  "rune_start line 0 = 0"
| "rune_start line (Suc n) = (if tail_byte (line ! Suc n) then rune_start line n else Suc n)"

definition cut_line :: "string \<Rightarrow> string" where
  "cut_line line =
     (if length line > failureOutputLineBytes
      then take (rune_start line (failureOutputLineBytes - length ellipsis)) line @ ellipsis else line)"

text \<open>The lines kept, the most recent first; the tail is given the same way round.\<close>

fun last_lines :: "nat \<Rightarrow> string list \<Rightarrow> string list" where
  "last_lines n [] = []"
| "last_lines n (t # ts) =
     (let line = trim_right (EventDetail t)
      in if list_all is_space (runes line) then last_lines n ts
         else let line = cut_line line
              in if n + length line + 1 > failureOutputBytes then []
                 else line # last_lines (n + length line + 1) ts)"

definition join_lines :: "string list \<Rightarrow> string" where
  "join_lines ls = (case ls of [] \<Rightarrow> [] | l # ls \<Rightarrow> l @ concat (map (\<lambda>x. newline @ x) ls))"

definition withLastOutput :: "string \<Rightarrow> string list \<Rightarrow> string" where
  "withLastOutput cause tail =
     (let kept = last_lines 0 (rev tail)
      in if kept = [] then EventDetail cause
         else EventDetail (cause @ newline @ ''last output:'' @ newline @ join_lines (rev kept)))"

subsection \<open>Runes of a text\<close>

definition valid_rune :: "string \<Rightarrow> bool" where
  "valid_rune c \<longleftrightarrow> rune_width c = Some (length c)"

lemma rune_width_le: "rune_width s = Some w \<Longrightarrow> 1 \<le> w \<and> w \<le> length s"
  by (cases s) (auto split: if_splits option.splits list.splits)

lemma rune_width_take: "rune_width s = Some w \<Longrightarrow> valid_rune (take w s)"
  by (cases s) (auto simp: valid_rune_def split: if_splits option.splits list.splits)

lemma rune_width_append:
  assumes "valid_rune c"
  shows "rune_width (c @ rest) = Some (length c)"
proof (cases c)
  case Nil
  with assms show ?thesis by (simp add: valid_rune_def)
next
  case (Cons a cs)
  then show ?thesis using assms by (cases cs) (auto simp: valid_rune_def split: if_splits option.splits)
qed

declare rune_width.simps(2) [simp del]

lemma valid_RuneError: "valid_rune RuneError"
  by code_simp

lemma runes_valid: "c \<in> set (runes s) \<Longrightarrow> valid_rune c"
proof (induction s rule: runes.induct)
  case (2 a s)
  then show ?case by (auto simp: valid_RuneError dest: rune_width_take split: option.splits)
qed simp

lemma runes_append: "valid_rune c \<Longrightarrow> runes (c @ rest) = c # runes rest"
proof -
  assume v: "valid_rune c"
  then obtain a cs where c: "c = a # cs" by (cases c) (auto simp: valid_rune_def)
  have "rune_width (a # cs @ rest) = Some (length c)" using rune_width_append [OF v, of rest] c by simp
  with c show ?thesis by simp
qed

lemma runes_concat: "\<forall>c \<in> set cs. valid_rune c \<Longrightarrow> runes (concat cs) = cs"
  by (induction cs) (auto simp: runes_append)

lemma set_within_bytes: "set (within_bytes b cs) \<subseteq> set cs"
  by (induction b cs rule: within_bytes.induct) (auto simp: Let_def)

lemma json_within_bytes: "0 \<le> b \<Longrightarrow> int (json_bytes (within_bytes b cs)) \<le> b"
  by (induction b cs rule: within_bytes.induct) (auto simp: Let_def json_bytes_def)

lemma json_append: "json_bytes (a @ b) = json_bytes a + json_bytes b"
  by (simp add: json_bytes_def)

lemma truncated_runes:
  "runes eventDetailTruncated = ellipsis # map (\<lambda>a. [a]) '' [truncated]''"
  "\<forall>c \<in> set (runes eventDetailTruncated). kept_rune c" "json_bytes (runes eventDetailTruncated) = length eventDetailTruncated"
proof -
  show r: "runes eventDetailTruncated = ellipsis # map (\<lambda>a. [a]) '' [truncated]''" by code_simp
  show "\<forall>c \<in> set (runes eventDetailTruncated). kept_rune c" unfolding r by code_simp
  show "json_bytes (runes eventDetailTruncated) = length eventDetailTruncated"
    unfolding r by (simp add: json_bytes_def jsonRuneBytes_def newline_def tab_def ellipsis_def eventDetailTruncated_def)
qed

text \<open>What an event's detail is made of.\<close>

lemma detail_of:
  assumes "EventDetail s = concat cs" and "\<And>c. c \<in> set cs \<Longrightarrow> valid_rune c \<and> kept_rune c" and "json_bytes cs \<le> MaxEventDetailJSONBytes"
  shows "json_bytes (runes (EventDetail s)) \<le> MaxEventDetailJSONBytes
    \<and> list_all (\<lambda>c. valid_rune c \<and> kept_rune c) (runes (EventDetail s)) \<and> concat (runes (EventDetail s)) = EventDetail s"
proof -
  have "runes (EventDetail s) = cs" unfolding assms(1) by (rule runes_concat) (use assms(2) in blast)
  then show ?thesis using assms by (simp add: list_all_iff)
qed

lemma EventDetail_runes:
  "json_bytes (runes (EventDetail s)) \<le> MaxEventDetailJSONBytes
    \<and> list_all (\<lambda>c. valid_rune c \<and> kept_rune c) (runes (EventDetail s)) \<and> concat (runes (EventDetail s)) = EventDetail s"
proof -
  define kept where "kept = filter kept_rune (runes s)"
  have all: "valid_rune c \<and> kept_rune c" if "c \<in> set kept" for c using that unfolding kept_def by (auto simp: runes_valid)
  show ?thesis
  proof (cases "json_bytes kept \<le> MaxEventDetailJSONBytes")
    case True
    then have "EventDetail s = concat kept" unfolding EventDetail_def Let_def kept_def [symmetric] by (rule if_P)
    then show ?thesis using all True by (rule detail_of)
  next
    case False
    let ?b = "int MaxEventDetailJSONBytes - int (length eventDetailTruncated)"
    let ?cs = "within_bytes ?b kept @ runes eventDetailTruncated"
    have t: "concat (runes eventDetailTruncated) = eventDetailTruncated" by code_simp
    have "EventDetail s = concat (within_bytes ?b kept) @ eventDetailTruncated"
      unfolding EventDetail_def Let_def kept_def [symmetric] by (rule if_not_P [OF False])
    then have e: "EventDetail s = concat ?cs" by (simp add: t)
    have "valid_rune c \<and> kept_rune c" if "c \<in> set ?cs" for c
      using that all set_within_bytes [of ?b kept] truncated_runes(2) runes_valid by auto
    moreover have "0 \<le> ?b" by code_simp
    from json_within_bytes [OF this, of kept] have "json_bytes ?cs \<le> MaxEventDetailJSONBytes"
      by (simp add: json_append truncated_runes(3))
    ultimately show ?thesis by (intro detail_of [OF e])
  qed
qed

lemma EventDetail_idempotent: "EventDetail (EventDetail s) = EventDetail s"
proof -
  have "filter kept_rune (runes (EventDetail s)) = runes (EventDetail s)"
    using EventDetail_runes [of s] by (auto simp: list_all_iff)
  then show ?thesis using EventDetail_runes [of s] by (simp add: EventDetail_def [of "EventDetail s"] Let_def)
qed

text \<open>an event's detail takes at most 4096 bytes as JSON whatever the text it is made of, holds no control character but
  newline and tab and no invalid UTF-8, and is left alone when it is taken as a detail again.\<close>

theorem EventDetail_bounded:
  "json_bytes (runes (EventDetail s)) \<le> 4096
   \<and> list_all (\<lambda>c. valid_rune c \<and> kept_rune c) (runes (EventDetail s))
   \<and> concat (runes (EventDetail s)) = EventDetail s
   \<and> EventDetail (EventDetail s) = EventDetail s"
  using EventDetail_runes [of s] EventDetail_idempotent [of s]
  by (simp add: MaxEventDetailJSONBytes_def)

end
