(* ===== verification/Watcher.thy ===== *)
theory Watcher
  imports JobRows EventText
begin

text \<open>
  The job watcher (service/scheduler/job_watcher_lifecycle.go and job_watcher_scan.go): what it does with what a runtime
  reports of a placed job, and the pass over all of them.

  The watcher acts on a job it read before, while other processes write the same rows.  The world it acts on is the
  database, a schedule of what happens at each of its store calls, and the effects outside the database: the
  calls of the settler and of the wake-up.  At a store call the schedule may run the statements of others first,
  make the call fail without effect, or lose its answer after it committed.  An exhausted schedule is a quiet database.
  What the reports and the cluster settings answer is given: each is read at most once for a job, and \<open>None\<close> is a
  read that fails.  The clock is read once for a job.  Log lines are left out.
\<close>

datatype disturbance = Others "job_db \<Rightarrow> job_db" | Fails | AnswerLost

record world =
  w_db :: job_db
  w_schedule :: "disturbance list"
  w_settles :: "(string \<times> ExperimentStatus \<times> string option) list" \<comment> \<open>each call of the settler: job, status and reason as it is given them\<close>
  w_wakes :: nat

text \<open>A store call; \<open>None\<close> is its error.\<close>

definition store_call :: "(job_db \<Rightarrow> 'a \<times> job_db) \<Rightarrow> world \<Rightarrow> 'a option \<times> world" where
  "store_call f w =
     (case w_schedule w of
        [] \<Rightarrow> let (x, db) = f (w_db w) in (Some x, w\<lparr>w_db := db\<rparr>)
      | Others g # ds \<Rightarrow> let (x, db) = f (g (w_db w)) in (Some x, w\<lparr>w_db := db, w_schedule := ds\<rparr>)
      | Fails # ds \<Rightarrow> (None, w\<lparr>w_schedule := ds\<rparr>)
      | AnswerLost # ds \<Rightarrow> (None, w\<lparr>w_db := snd (f (w_db w)), w_schedule := ds\<rparr>))"

record ClusterSettings =
  cs_ScaleUpTimeoutSeconds :: "int option"
  cs_MaxSpeculativeAccelerators :: "int option"
  cs_StuckPendingTimeoutSeconds :: "int option"

text \<open>The watcher's settings and what it calls: durations are nanoseconds.\<close>

record JobWatcher =
  jw_stuckPendingTimeout :: int
  jw_startTimeout :: int
  jw_scaleUpTimeout :: int
  jw_maxInfraRequeues :: int
  jw_GetClusterSettings :: "string \<Rightarrow> ClusterSettings option option"
  jw_Settle :: "string \<Rightarrow> bool"

text \<open>What the runtime reports of one job.\<close>

record job_report =
  rp_LatestPhaseDetail :: "(string \<times> string \<times> int \<times> bool) option" \<comment> \<open>reason, message, scheduled nodes, found\<close>
  rp_PhaseReportedSince :: "string \<Rightarrow> int option option"
  rp_LatestJobPhase :: "(JobPhase \<times> bool) option"
  rp_GetAdmittedAcceleratorType :: "(AcceleratorType \<times> bool) option"
  rp_LogTail :: "string list option"

datatype watch_error =
  PhaseDetailUnread | NoSubmissionTime | FirstReportUnread | SettingsUnread | PhaseUnread | LogTailUnread | StoreFailed

definition second :: int where
  "second = 10 ^ 9"

subsection \<open>Deadlines\<close>

definition startOverdue :: "int \<Rightarrow> job_row \<Rightarrow> int \<Rightarrow> int" where
  "startOverdue now x submitted =
     now - submitted - (case js_CheckpointGraceSeconds (EffectiveJob (jr_job x)) of None \<Rightarrow> 0 | Some grace \<Rightarrow> grace) * second"

definition stuckPendingOverdue :: "int \<Rightarrow> job_report \<Rightarrow> job_row \<Rightarrow> int \<Rightarrow> PhaseDetail \<Rightarrow> int \<Rightarrow> watch_error + int" where
  "stuckPendingOverdue now rp x submitted waiting timeout =
     (let overdue = startOverdue now x submitted - timeout
      in if overdue \<le> 0 \<or> pd_Reason waiting = [] then Inr overdue
         else case rp_PhaseReportedSince rp (pd_Reason waiting) of
                None \<Rightarrow> Inl FirstReportUnread
              | Some None \<Rightarrow> Inr overdue
              | Some (Some since) \<Rightarrow> Inr (min overdue (now - since - timeout)))"

text \<open>The text of a duration is Go's, a parameter.\<close>

definition notRunningInTime :: "(int \<Rightarrow> string) \<Rightarrow> int \<Rightarrow> PhaseDetail \<Rightarrow> string" where
  "notRunningInTime duration timeout waiting =
     (let said = Said waiting
      in if said = [] then ''admitted and not running within '' @ duration timeout
         else ''admitted and not running within '' @ duration timeout @ '', its runtime reporting '' @ said)"

text \<open>\<open>Inr None\<close> is errClusterNotReporting: the decision is not made this pass.\<close>

definition stuckPendingTimeoutFor :: "JobWatcher \<Rightarrow> job_row \<Rightarrow> (string, string) gomap \<Rightarrow> watch_error + int option" where
  "stuckPendingTimeoutFor jw x clusterIDs =
     (let clusterID = gets clusterIDs (ex_ClusterName (jr_job x))
      in if clusterID = [] then Inr None
         else case jw_GetClusterSettings jw clusterID of
                None \<Rightarrow> Inl SettingsUnread
              | Some cs \<Rightarrow>
                  Inr (Some (case Option.bind cs cs_StuckPendingTimeoutSeconds of
                               None \<Rightarrow> jw_stuckPendingTimeout jw | Some s \<Rightarrow> s * second)))"

subsection \<open>Ending and requeueing\<close>

definition wakeAdmission :: "world \<Rightarrow> world" where
  "wakeAdmission w = w\<lparr>w_wakes := w_wakes w + 1\<rparr>"

definition call_settler :: "JobWatcher \<Rightarrow> job_row \<Rightarrow> world \<Rightarrow> bool \<times> world" where
  "call_settler jw x w =
     (jw_Settle jw (ex_ID (jr_job x)),
      w\<lparr>w_settles := w_settles w @ [(ex_ID (jr_job x), jr_Status x, jr_EvictionReason x)]\<rparr>)"

definition settleQuota :: "JobWatcher \<Rightarrow> int \<Rightarrow> job_row \<Rightarrow> world \<Rightarrow> world" where
  "settleQuota jw now x w =
     (let (ok, w) = call_settler jw x w
      in if ok then snd (store_call (MarkQuotaSettled now (ex_ID (jr_job x))) w) else w)"

definition evictNotYetRunning :: "JobWatcher \<Rightarrow> int \<Rightarrow> job_row \<Rightarrow> string \<Rightarrow> world \<Rightarrow> world" where
  "evictNotYetRunning jw now x reason w =
     (case store_call (ResolveTermination (jw_maxInfraRequeues jw) now (ex_ID (jr_job x)) (jr_Status x) StatusEvicted reason) w of
        (None, w) \<Rightarrow> w
      | (Some TerminationSkipped, w) \<Rightarrow> w
      | (Some TerminationRequeued, w) \<Rightarrow>
          snd (call_settler jw (x\<lparr>jr_EvictionReason := Some reason, jr_Status := StatusQueued\<rparr>) (wakeAdmission w))
      | (Some TerminationWritten, w) \<Rightarrow>
          settleQuota jw now (x\<lparr>jr_EvictionReason := Some reason, jr_Status := StatusEvicted\<rparr>) (wakeAdmission w))"

definition evictIfPastDeadline :: "(int \<Rightarrow> string) \<Rightarrow> JobWatcher \<Rightarrow> int \<Rightarrow> job_report \<Rightarrow> job_row \<Rightarrow> PhaseDetail \<Rightarrow> int \<Rightarrow> string \<Rightarrow> world
    \<Rightarrow> watch_error option \<times> world" where
  "evictIfPastDeadline duration jw now rp x waiting timeout reason w =
     (if timeout \<le> 0 then (None, w)
      else case jr_SubmittedAt x of
        None \<Rightarrow> (Some NoSubmissionTime, w)
      | Some submitted \<Rightarrow>
          (case stuckPendingOverdue now rp x submitted waiting timeout of
             Inl err \<Rightarrow> (Some err, w)
           | Inr overdue \<Rightarrow>
               if overdue \<le> 0 then (None, w)
               else (None, evictNotYetRunning jw now x (WithDetail reason (notRunningInTime duration timeout waiting)) w)))"

definition evictIfStuckPending :: "(int \<Rightarrow> string) \<Rightarrow> JobWatcher \<Rightarrow> int \<Rightarrow> job_report \<Rightarrow> job_row \<Rightarrow> PhaseDetail \<Rightarrow> (string, string) gomap
    \<Rightarrow> string \<Rightarrow> world \<Rightarrow> watch_error option \<times> world" where
  "evictIfStuckPending duration jw now rp x waiting clusterIDs reason w =
     (case stuckPendingTimeoutFor jw x clusterIDs of
        Inl err \<Rightarrow> (Some err, w)
      | Inr None \<Rightarrow> (None, w)
      | Inr (Some timeout) \<Rightarrow> evictIfPastDeadline duration jw now rp x waiting timeout reason w)"

text \<open>Whether the deadline of a job that is not fully bound evicted it.\<close>

definition checkScaleUpDeadline :: "(int \<Rightarrow> string) \<Rightarrow> JobWatcher \<Rightarrow> int \<Rightarrow> job_report \<Rightarrow> job_row \<Rightarrow> PhaseDetail \<Rightarrow> string list
    \<Rightarrow> (string, string) gomap \<Rightarrow> world \<Rightarrow> (watch_error + bool) \<times> world" where
  "checkScaleUpDeadline duration jw now rp x waiting autoscalerEnabled clusterIDs w =
     (case jr_SubmittedAt x of
        None \<Rightarrow> (Inl NoSubmissionTime, w)
      | Some submitted \<Rightarrow>
          let cluster = ex_ClusterName (jr_job x); clusterID = gets clusterIDs cluster;
              past = (\<lambda>timeout overdue reason w.
                 if timeout \<le> 0 \<or> overdue \<le> 0 then (Inr False, w)
                 else (Inr True, evictNotYetRunning jw now x (WithDetail reason (notRunningInTime duration timeout waiting)) w))
          in if cluster \<in> set autoscalerEnabled \<and> clusterID \<noteq> []
             then (case jw_GetClusterSettings jw clusterID of
                     None \<Rightarrow> (Inl SettingsUnread, w)
                   | Some cs \<Rightarrow>
                       let timeout = (case Option.bind cs cs_ScaleUpTimeoutSeconds of None \<Rightarrow> jw_scaleUpTimeout jw | Some s \<Rightarrow> s * second)
                       in if pd_Reason waiting = PhaseReasonScaleUpRefused
                          then (Inr True, evictNotYetRunning jw now x
                                  (WithDetail EvictionScaleUpTimeout (''the autoscaler refused to scale up: '' @ pd_Message waiting)) w)
                          else past timeout (startOverdue now x submitted - timeout) EvictionScaleUpTimeout w)
             else (case stuckPendingTimeoutFor jw x clusterIDs of
                     Inl _ \<Rightarrow> (Inr False, w)
                   | Inr None \<Rightarrow> (Inr False, w)
                   | Inr (Some timeout) \<Rightarrow>
                       if timeout \<le> 0 then (Inr False, w)
                       else (case stuckPendingOverdue now rp x submitted waiting timeout of
                               Inl _ \<Rightarrow> (Inr False, w)
                             | Inr overdue \<Rightarrow> past timeout overdue EvictionStuckPending w)))"

subsection \<open>Starting and finishing\<close>

datatype runningOutcome = RunningMarked | RunningLeftState | RunningTypeUnobservable | RunningTypeMismatch

definition onRunning :: "int \<Rightarrow> job_report \<Rightarrow> job_row \<Rightarrow> world \<Rightarrow> runningOutcome \<times> world" where
  "onRunning now rp x w =
     (let mark = (case store_call (MarkStarted now (ex_ID (jr_job x))) w of
                    (None, w) \<Rightarrow> (RunningTypeUnobservable, w)
                  | (Some False, w) \<Rightarrow> (RunningLeftState, w)
                  | (Some True, w) \<Rightarrow> (RunningMarked, w))
      in if ex_AcceleratorCount (jr_job x) > 0
         then (case rp_GetAdmittedAcceleratorType rp of
                 None \<Rightarrow> (RunningTypeUnobservable, w)
               | Some (_, False) \<Rightarrow> (RunningTypeUnobservable, w)
               | Some (admittedType, True) \<Rightarrow>
                   if \<not> acc_Is admittedType (ex_AcceleratorType (jr_job x)) then (RunningTypeMismatch, w) else mark)
         else mark)"

text \<open>Whether the failed job was requeued for another attempt.\<close>

definition retry :: "JobWatcher \<Rightarrow> int \<Rightarrow> job_row \<Rightarrow> world \<Rightarrow> bool \<times> world" where
  "retry jw now x w =
     (case js_MaxRetries (ex_Job (jr_job x)) of
        None \<Rightarrow> (False, w)
      | Some m \<Rightarrow>
          if m < 1 then (False, w)
          else (case store_call (RequeueForRetry now (ex_ID (jr_job x)) m) (snd (call_settler jw x w)) of
                  (Some True, w) \<Rightarrow> (True, wakeAdmission w)
                | (_, w) \<Rightarrow> (False, w)))"

definition read_status :: "string \<Rightarrow> job_db \<Rightarrow> ExperimentStatus option \<times> job_db" where
  "read_status i db = (map_option jr_Status (map_of (db_rows db) i), db)"

text \<open>The end of a job that is RUNNING.\<close>

definition finish :: "JobWatcher \<Rightarrow> int \<Rightarrow> job_row \<Rightarrow> ExperimentStatus \<Rightarrow> string \<Rightarrow> world \<Rightarrow> watch_error option \<times> world" where
  "finish jw now x to reason w =
     (let (retried, w) = (if to = StatusFailed then retry jw now x w else (False, w))
      in if retried then (None, w)
         else case store_call (TransitionStatus now (ex_ID (jr_job x)) StatusRunning to reason) w of
                (None, w) \<Rightarrow> (Some StoreFailed, w)
              | (Some None, w) \<Rightarrow> (Some StoreFailed, w)
              | (Some (Some False), w) \<Rightarrow> (None, w)
              | (Some (Some True), w) \<Rightarrow> (None, settleQuota jw now x (wakeAdmission w)))"

definition onFinished :: "JobWatcher \<Rightarrow> int \<Rightarrow> job_row \<Rightarrow> ExperimentStatus \<Rightarrow> string \<Rightarrow> world \<Rightarrow> watch_error option \<times> world" where
  "onFinished jw now x to reason w =
     (if jr_Status x = StatusRunning then finish jw now x to reason w
      else case store_call (MarkStarted now (ex_ID (jr_job x))) w of
             (None, w) \<Rightarrow> (Some StoreFailed, w)
           | (Some True, w) \<Rightarrow> finish jw now (x\<lparr>jr_Status := StatusRunning\<rparr>) to reason w
           | (Some False, w) \<Rightarrow>
               (case store_call (read_status (ex_ID (jr_job x))) w of
                  (None, w) \<Rightarrow> (Some StoreFailed, w)
                | (Some current, w) \<Rightarrow>
                    if current = Some StatusRunning then finish jw now (x\<lparr>jr_Status := StatusRunning\<rparr>) to reason w
                    else (None, w)))"

subsection \<open>One job\<close>

definition no_detail :: PhaseDetail where
  "no_detail = \<lparr>pd_Reason = [], pd_Message = []\<rparr>"

text \<open>What the phase the runtime reports does to the job.\<close>

definition on_phase :: "(int \<Rightarrow> string) \<Rightarrow> JobWatcher \<Rightarrow> int \<Rightarrow> job_report \<Rightarrow> job_row \<Rightarrow> PhaseDetail \<Rightarrow> bool \<Rightarrow> int \<Rightarrow> bool
    \<Rightarrow> (string, string) gomap \<Rightarrow> JobPhase \<Rightarrow> world \<Rightarrow> watch_error option \<times> world" where
  "on_phase duration jw now rp x said found scheduledNodes bound clusterIDs phase w =
     (let waiting = (if bound then no_detail else said)
      in case phase of
           JobPhaseSucceeded \<Rightarrow> onFinished jw now x StatusCompleted [] w
         | JobPhaseFailed \<Rightarrow>
             (case EvictionOfFailure said of
                Some eviction \<Rightarrow> (None, evictNotYetRunning jw now x eviction w)
              | None \<Rightarrow>
                  (case rp_LogTail rp of
                     None \<Rightarrow> (Some LogTailUnread, w)
                   | Some tail \<Rightarrow> onFinished jw now x StatusFailed (withLastOutput (FailureCause said) tail) w))
         | JobPhaseRunning \<Rightarrow>
             if jr_Status x = StatusRunning then (None, w)
             else if found \<and> scheduledNodes < Nodes (ex_Job (jr_job x)) then (None, w)
             else (case onRunning now rp x w of
                     (RunningMarked, w) \<Rightarrow> (None, w)
                   | (RunningLeftState, w) \<Rightarrow> (None, w)
                   | (RunningTypeMismatch, w) \<Rightarrow> (None, evictNotYetRunning jw now x EvictionAcceleratorTypeMismatch w)
                   | (RunningTypeUnobservable, w) \<Rightarrow>
                       evictIfStuckPending duration jw now rp x waiting clusterIDs EvictionAcceleratorTypeUnobservable w)
         | JobPhaseGone \<Rightarrow>
             if jr_Status x = StatusRunning then (None, w)
             else evictIfStuckPending duration jw now rp x waiting clusterIDs EvictionStuckPending w
         | JobPhasePending \<Rightarrow>
             if jr_Status x \<noteq> StatusRunning \<and> bound
             then evictIfPastDeadline duration jw now rp x waiting (jw_startTimeout jw) EvictionStuckPending w
             else (None, w))"

definition after_deadline :: "(int \<Rightarrow> string) \<Rightarrow> JobWatcher \<Rightarrow> int \<Rightarrow> job_report \<Rightarrow> job_row \<Rightarrow> PhaseDetail \<Rightarrow> bool \<Rightarrow> int \<Rightarrow> bool
    \<Rightarrow> (string, string) gomap \<Rightarrow> world \<Rightarrow> watch_error option \<times> world" where
  "after_deadline duration jw now rp x said found scheduledNodes bound clusterIDs w =
     (let waiting = (if bound then no_detail else said);
          silent = (\<lambda>err. if jr_Status x \<noteq> StatusRunning \<and> bound
             then (case evictIfStuckPending duration jw now rp x waiting clusterIDs EvictionStuckPending w of
                     (Some e, w) \<Rightarrow> (Some e, w)
                   | (None, w) \<Rightarrow> (err, w))
             else (err, w))
      in case rp_LatestJobPhase rp of
           None \<Rightarrow> silent (Some PhaseUnread)
         | Some (_, False) \<Rightarrow> silent None
         | Some (phase, True) \<Rightarrow> on_phase duration jw now rp x said found scheduledNodes bound clusterIDs phase w)"

definition reconcileOne :: "(int \<Rightarrow> string) \<Rightarrow> JobWatcher \<Rightarrow> int \<Rightarrow> job_report \<Rightarrow> string list \<Rightarrow> (string, string) gomap \<Rightarrow> job_row \<Rightarrow> world
    \<Rightarrow> watch_error option \<times> world" where
  "reconcileOne duration jw now rp autoscalerEnabled clusterIDs x w =
     (case rp_LatestPhaseDetail rp of
        None \<Rightarrow> (Some PhaseDetailUnread, w)
      | Some (reason, message, scheduledNodes, found) \<Rightarrow>
          let said = \<lparr>pd_Reason = reason, pd_Message = message\<rparr>; bound = (found \<and> scheduledNodes \<ge> Nodes (ex_Job (jr_job x)))
          in if found \<and> reason \<in> set NeverSelfHealsPhaseReasons
             then (None, evictNotYetRunning jw now x (EvictionOfNeverStarting said) w)
             else if jr_Status x \<noteq> StatusRunning \<and> \<not> bound
             then (case checkScaleUpDeadline duration jw now rp x said autoscalerEnabled clusterIDs w of
                     (Inl err, w) \<Rightarrow> (Some err, w)
                   | (Inr True, w) \<Rightarrow> (None, w)
                   | (Inr False, w) \<Rightarrow> after_deadline duration jw now rp x said found scheduledNodes bound clusterIDs w)
             else after_deadline duration jw now rp x said found scheduledNodes bound clusterIDs w)"

subsection \<open>A pass\<close>

definition list_with_status :: "ExperimentStatus \<Rightarrow> job_db \<Rightarrow> job_row list \<times> job_db" where
  "list_with_status s db = (filter (\<lambda>r. jr_Status r = s) (map snd (db_rows db)), db)"

definition reconcile_all :: "(int \<Rightarrow> string) \<Rightarrow> JobWatcher \<Rightarrow> int \<Rightarrow> (job_row \<Rightarrow> job_report) \<Rightarrow> string list \<Rightarrow> (string, string) gomap
    \<Rightarrow> job_row list \<Rightarrow> world \<Rightarrow> world" where
  "reconcile_all duration jw now reports autoscalerEnabled clusterIDs xs w =
     fold (\<lambda>x w. snd (reconcileOne duration jw now (reports x) autoscalerEnabled clusterIDs x w)) xs w"

text \<open>The pass over the given statuses; the flag says whether it came to its end.\<close>

fun scan_statuses :: "(int \<Rightarrow> string) \<Rightarrow> JobWatcher \<Rightarrow> int \<Rightarrow> (job_row \<Rightarrow> job_report) \<Rightarrow> string list \<Rightarrow> (string, string) gomap
    \<Rightarrow> ExperimentStatus list \<Rightarrow> world \<Rightarrow> bool \<times> world" where
  "scan_statuses duration jw now reports autoscalerEnabled clusterIDs [] w = (True, w)"
| "scan_statuses duration jw now reports autoscalerEnabled clusterIDs (s # ss) w =
     (case store_call (list_with_status s) w of
        (None, w) \<Rightarrow> (False, w)
      | (Some xs, w) \<Rightarrow>
          scan_statuses duration jw now reports autoscalerEnabled clusterIDs ss
            (reconcile_all duration jw now reports autoscalerEnabled clusterIDs xs w))"

definition scanAndWatch :: "(int \<Rightarrow> string) \<Rightarrow> JobWatcher \<Rightarrow> int \<Rightarrow> (job_row \<Rightarrow> job_report) \<Rightarrow> (string, string) gomap option
    \<Rightarrow> string list option \<Rightarrow> world \<Rightarrow> bool \<times> world" where
  "scanAndWatch duration jw now reports clusterIDs autoscalers w =
     (case (clusterIDs, autoscalers) of
        (Some ids, Some enabled) \<Rightarrow> scan_statuses duration jw now reports enabled ids PlacedStatuses w
      | _ \<Rightarrow> (False, w))"

end
