(* ===== verification/Submit.thy ===== *)
theory Submit
  imports Admission Watcher Place
begin

text \<open>
  Submitting a placed job (scheduler/loop_submit.go): the reservation of the accelerator type it was placed at, the job the
  runtime is handed, and the claim of the cluster with its last check of capacity.  The store is the \<open>world\<close> of
  theory Watcher.  What the clusters, the metrics store and the cluster settings answer during the submit is the
  record \<open>submit_view\<close>, \<open>None\<close> where a read fails.  The quantity library, the rate table and the
  settings of the loop are the record \<open>Loop\<close>.
\<close>

subsection \<open>Grace\<close>

record GraceLimits =
  gl_DefaultShutdownSeconds :: int
  gl_MaxShutdownSeconds :: int
  gl_MaxCheckpointSeconds :: int

definition grace_Resolve :: "GraceLimits \<Rightarrow> JobSpec \<Rightarrow> JobSpec option" where
  "grace_Resolve g job =
     (if gl_DefaultShutdownSeconds g \<le> 0 \<or> gl_MaxShutdownSeconds g \<le> 0 \<or> gl_MaxCheckpointSeconds g \<le> 0 then None
      else
        let shutdown = (case js_TerminationGracePeriodSeconds job of None \<Rightarrow> gl_DefaultShutdownSeconds g | Some s \<Rightarrow> s);
            shutdown = min shutdown (gl_MaxShutdownSeconds g)
        in Some (job\<lparr>js_TerminationGracePeriodSeconds := Some shutdown,
                     js_CheckpointGraceSeconds := map_option (\<lambda>c. min c (gl_MaxCheckpointSeconds g)) (js_CheckpointGraceSeconds job)\<rparr>))"

subsection \<open>The loop and what it is answered\<close>

record Loop =
  lp_Q :: quantity_lib
  lp_rates :: "(string, rat) gomap"
  lp_cpuCoreSharedRate :: rat
  lp_defaultMaxConcurrent :: int
  lp_grace :: GraceLimits
  lp_guaranteedFairnessWindow :: int
  lp_heldJobNotice :: int
  lp_disbalanceTolerance :: rat
  lp_evictionTTL :: int
  lp_triedClusterTTL :: int
  lp_maxInfraRequeues :: int

record submit_view =
  sv_observed :: "AgentQuota option" \<comment> \<open>the agent's observed usage\<close>
  sv_available :: "(string, Footprint) gomap option"
  sv_nodeAvail :: "(string, capmap) gomap option"
  sv_nodeRes :: "(string, capmap) gomap option"
  sv_nodeLabels :: "(string, labelmap) gomap option"
  sv_GetClusterSettings :: "string \<Rightarrow> ClusterSettings option option"
  sv_RecordAdmission :: bool

datatype submit_error =
    NoRate
  | ReserveError
  | InsufficientQuota
  | ConcurrencyCapExceeded
  | BadGrace
  | AdmissionUnrecorded
  | ClaimError
  | AdmissionCapacityChanged
  | ComputeLimitReached ClaimRefusal

definition clusterSpeculativeCap :: "(string \<Rightarrow> ClusterSettings option option) \<Rightarrow> string \<Rightarrow> int option option" where
  "clusterSpeculativeCap settings clusterID =
     (case settings clusterID of
        None \<Rightarrow> None
      | Some None \<Rightarrow> Some None
      | Some (Some cs) \<Rightarrow> Some (cs_MaxSpeculativeAccelerators cs))"

subsection \<open>The last check of capacity\<close>

text \<open>A speculative submit: the accelerators of the cluster's SUBMITTED jobs and this one's against the cap.\<close>

definition speculative_room :: "submit_view \<Rightarrow> Experiment \<Rightarrow> string \<Rightarrow> bool \<Rightarrow> job_row list \<Rightarrow> bool option" where
  "speculative_room v e clusterID provenFit desired =
     (if clusterID = [] then Some True
      else case clusterSpeculativeCap (sv_GetClusterSettings v) clusterID of
             None \<Rightarrow> None
           | Some cap \<Rightarrow>
               (case (if cap = None \<and> \<not> provenFit then Some (ex_AcceleratorCount e) else cap) of
                  None \<Rightarrow> Some True
                | Some c \<Rightarrow> Some (ex_AcceleratorCount e + sum_list (map (\<lambda>d. ex_AcceleratorCount (jr_job d)) desired) \<le> c)))"

text \<open>A live submit: the free total, then the placement beside every job desired there, which pins the resolved job.\<close>

definition live_room :: "Loop \<Rightarrow> submit_view \<Rightarrow> Experiment \<Rightarrow> Footprint \<Rightarrow> string \<Rightarrow> job_row list \<Rightarrow> JobSpec \<Rightarrow> (bool \<times> JobSpec) option" where
  "live_room l v e fp cluster desired resolved =
     (case sv_available v of
        None \<Rightarrow> None
      | Some available \<Rightarrow>
          if \<not> Fits (mget [] available cluster) fp then Some (False, resolved)
          else (case (sv_nodeAvail v, sv_nodeRes v, sv_nodeLabels v) of
                  (Some nodeAvail, Some nodeRes, Some nodeLabels) \<Rightarrow>
                    Some (DesiredFits (lp_Q l) (mget [] nodeAvail cluster) (mget [] nodeRes cluster) (mget [] nodeLabels cluster)
                            (map jr_job desired) (e\<lparr>ex_ResolvedJob := Some resolved\<rparr>) resolved)
                | _ \<Rightarrow> None))"

definition capacityAvailable :: "Loop \<Rightarrow> submit_view \<Rightarrow> Experiment \<Rightarrow> Footprint \<Rightarrow> string \<Rightarrow> string \<Rightarrow> bool \<Rightarrow> bool
    \<Rightarrow> job_row list \<Rightarrow> JobSpec \<Rightarrow> (bool \<times> JobSpec) option" where
  "capacityAvailable l v e fp cluster clusterID speculative provenFit desired resolved =
     (if speculative then map_option (\<lambda>b. (b, resolved)) (speculative_room v e clusterID provenFit desired)
      else live_room l v e fp cluster desired resolved)"

subsection \<open>The submit\<close>

text \<open>The job's node selector names the architecture of its image, where that is known.\<close>

definition on_architecture :: "Experiment \<Rightarrow> JobSpec \<Rightarrow> JobSpec" where
  "on_architecture e job =
     (if ex_ImageArchitecture e = [] then job
      else job\<lparr>js_NodeSelector := mput NodeArchitectureLabel (ex_ImageArchitecture e) (js_NodeSelector job)\<rparr>)"

text \<open>ReserveAdmittedAcceleratorType of service/platformexperiments/quota.go; \<open>None\<close> where it reserved.\<close>

definition ReserveAdmittedAcceleratorType :: "Loop \<Rightarrow> submit_view \<Rightarrow> string \<Rightarrow> AcceleratorType \<Rightarrow> rat \<Rightarrow> int \<Rightarrow> world
    \<Rightarrow> submit_error option \<times> world" where
  "ReserveAdmittedAcceleratorType l v i t cost n w =
     (case store_call (ReserveAdmittedAcceleratorTypeTx i t cost n (lp_defaultMaxConcurrent l) (sv_observed v)) w of
        (None, w) \<Rightarrow> (Some ReserveError, w)
      | (Some ReserveFailed, w) \<Rightarrow> (Some ReserveError, w)
      | (Some ConcurrencyCapRefused, w) \<Rightarrow> (Some ConcurrencyCapExceeded, w)
      | (Some QuotaRefused, w) \<Rightarrow> (Some InsufficientQuota, w)
      | (Some Reserved, w) \<Rightarrow> (None, w))"

text \<open>The type and the cost that are reserved: the row's, unless the placement chose another type.\<close>

definition reserved_at :: "Loop \<Rightarrow> Experiment \<Rightarrow> AcceleratorType \<Rightarrow> (AcceleratorType \<times> rat) option" where
  "reserved_at l e persisted =
     (if ex_AcceleratorType e \<noteq> persisted then map_option (\<lambda>held. (ex_AcceleratorType e, held)) (EstimateHeld (lp_rates l) e)
      else Some (persisted, ex_EstimatedCostAccH e))"

text \<open>
  The steps after the reservation.  The job that is claimed is the one the check of capacity returns.  What an
  experiment is left with by a submit that failed is not read again.
\<close>

definition claim_placed :: "Loop \<Rightarrow> submit_view \<Rightarrow> int \<Rightarrow> Experiment \<Rightarrow> string \<Rightarrow> string \<Rightarrow> bool \<Rightarrow> bool \<Rightarrow> world
    \<Rightarrow> submit_error option \<times> Experiment \<times> world" where
  "claim_placed l v now e cluster clusterID speculative provenFit w =
     (let fp = exp_Footprint (lp_Q l) e
      in case grace_Resolve (lp_grace l) (EffectiveJob e) of
           None \<Rightarrow> (Some BadGrace, e, w)
         | Some job \<Rightarrow>
             let resolved = on_architecture e job; e = e\<lparr>ex_ResolvedJob := Some resolved\<rparr>
             in if \<not> sv_RecordAdmission v then (Some AdmissionUnrecorded, e, w)
                else (case store_call (ClaimSubmitted (lp_rates l) (lp_cpuCoreSharedRate l) now (ex_ID e) cluster resolved
                             (Some (capacityAvailable l v e fp cluster clusterID speculative provenFit))) w of
                        (None, w) \<Rightarrow> (Some ClaimError, e, w)
                      | (Some ClaimFailed, w) \<Rightarrow> (Some ClaimError, e, w)
                      | (Some (ClaimRefused refused), w) \<Rightarrow>
                          (Some (if cr_Code refused = NotAdmittedCapacityUnavailable then AdmissionCapacityChanged
                                 else ComputeLimitReached refused), e, w)
                      | (Some (Claimed job), w) \<Rightarrow> (None, e\<lparr>ex_ResolvedJob := Some job, ex_ClusterName := cluster\<rparr>, w)))"

definition submitJobTo :: "Loop \<Rightarrow> submit_view \<Rightarrow> int \<Rightarrow> Experiment \<Rightarrow> string \<Rightarrow> string \<Rightarrow> AcceleratorType \<Rightarrow> bool \<Rightarrow> bool \<Rightarrow> world
    \<Rightarrow> submit_error option \<times> Experiment \<times> world" where
  "submitJobTo l v now e cluster clusterID persistedAcceleratorType speculative provenFit w =
     (case reserved_at l e persistedAcceleratorType of
        None \<Rightarrow> (Some NoRate, e, w)
      | Some (t, newEstCost) \<Rightarrow>
          (case ReserveAdmittedAcceleratorType l v (ex_ID e) t newEstCost (ex_AcceleratorCount e) w of
             (Some err, w) \<Rightarrow> (Some err, e, w)
           | (None, w) \<Rightarrow>
               claim_placed l v now (e\<lparr>ex_EstimatedCostAccH := newEstCost\<rparr>) cluster clusterID speculative provenFit w))"

definition submitJob :: "Loop \<Rightarrow> submit_view \<Rightarrow> int \<Rightarrow> Experiment \<Rightarrow> string \<Rightarrow> AcceleratorType \<Rightarrow> world \<Rightarrow> submit_error option \<times> Experiment \<times> world" where
  "submitJob l v now e cluster persistedAcceleratorType = submitJobTo l v now e cluster [] persistedAcceleratorType False False"

end
