(* ===== verification/Speculate.thy ===== *)
theory Speculate
  imports Submit
begin

text \<open>
  Speculative placement (scheduler/loop_speculate.go): the clusters that scale up on which a guaranteed job that fits nowhere now may
  be bet, and the order of preference among them.  What the tick's cache asks of the store is an argument, \<open>None\<close> where
  the read fails; a \<open>map[string]bool\<close> is the list of its true keys.
\<close>

subsection \<open>What the cache keeps of the store\<close>

record speculation_env =
  se_RecentlyTriedClusters :: "string list option"
  se_GetClusterSettings :: "string \<Rightarrow> ClusterSettings option option"

definition recentlyTriedClusters :: "speculation_env \<Rightarrow> resolutionCache \<Rightarrow> string list option \<times> resolutionCache" where
  "recentlyTriedClusters env ca =
     (case ca_recentlyTried ca of
        Some tried \<Rightarrow> (Some tried, ca)
      | None \<Rightarrow>
          (case se_RecentlyTriedClusters env of
             None \<Rightarrow> (None, ca)
           | Some tried \<Rightarrow> (Some tried, ca\<lparr>ca_recentlyTried := Some tried\<rparr>)))"

definition speculativeCap :: "speculation_env \<Rightarrow> string \<Rightarrow> resolutionCache \<Rightarrow> int option option \<times> resolutionCache" where
  "speculativeCap env clusterID ca =
     (case map_of (ca_speculativeCaps ca) clusterID of
        Some cap \<Rightarrow> (Some cap, ca)
      | None \<Rightarrow>
          (case clusterSpeculativeCap (se_GetClusterSettings env) clusterID of
             None \<Rightarrow> (None, ca)
           | Some cap \<Rightarrow> (Some cap, ca\<lparr>ca_speculativeCaps := mput clusterID cap (ca_speculativeCaps ca)\<rparr>)))"

text \<open>A cluster ID any job failed over from since a time, whatever became of that job (RecentlyTriedClusters).\<close>

definition recently_tried :: "int \<Rightarrow> int \<Rightarrow> job_db \<Rightarrow> string list" where
  "recently_tried now ttl db =
     remdups [tc_ClusterID t. (i, r) \<leftarrow> db_rows db, jr_UpdatedAt r > now - ttl, t \<leftarrow> ex_TriedClusters (jr_job r),
       tc_At t > now - ttl \<and> tc_Reason t \<in> {[], EvictionScaleUpTimeout, EvictionAcceleratorTypeMismatch}]"

subsection \<open>Signals\<close>

definition negativeInDimension :: "Footprint \<Rightarrow> AcceleratorType \<Rightarrow> bool" where
  "negativeInDimension avail t =
     (case map_of avail (ResourceKey ResourceKindAccelerator t) of None \<Rightarrow> False | Some v \<Rightarrow> v < 0)"

text \<open>Every shape has a live node that runs the job and holds it; a job of no shape proves nothing.\<close>

definition fitsLargestNode :: "quantity_lib \<Rightarrow> Experiment \<Rightarrow> capmap \<Rightarrow> capmap \<Rightarrow> labelmap \<Rightarrow> bool" where
  "fitsLargestNode Q e accelByNode resourcesByNode labelsByNode \<longleftrightarrow>
     resourcesByNode \<noteq> [] \<and> NodeShapes Q e \<noteq> []
     \<and> list_all (\<lambda>shape. list_ex (\<lambda>(node, resources).
            RunsOn (mget [] labelsByNode node) e
            \<and> ns_AcceleratorCount shape \<le> geti (mget [] accelByNode node) (ex_AcceleratorType e)
            \<and> NodeHasRoom (Some resources) (ns_Resources shape)) resourcesByNode) (NodeShapes Q e)"

definition allSpeculativeCandidatesTried :: "Experiment \<Rightarrow> string list \<Rightarrow> string list \<Rightarrow> (string, string) gomap \<Rightarrow> registry \<Rightarrow> int \<Rightarrow> int \<Rightarrow> bool" where
  "allSpeculativeCandidatesTried e autoscalerEnabled conn clusterIDs registered ttl now =
     (let scaling = filter (\<lambda>(cluster, clusterID). clusterID \<noteq> [] \<and> cluster \<in> set autoscalerEnabled \<and> cluster \<in> set conn
                       \<and> hostsJob registered cluster e) clusterIDs
      in 0 < ttl \<and> scaling \<noteq> [] \<and> list_all (\<lambda>(_, clusterID). triedRecently (ex_TriedClusters e) clusterID ttl now) scaling)"

subsection \<open>The candidates\<close>

record spec_candidate =
  sc_cluster :: string
  sc_clusterID :: string
  sc_provenFit :: bool

datatype spec_error = RecentlyTriedUnread | InstalledUnread resolve_error | CapUnread

text \<open>What the search is given beside the job: the tick's clusters and its views.\<close>

record speculation =
  sp_autoscalerEnabled :: "string list"
  sp_connected :: "string list"
  sp_clusters :: tickClusters
  sp_footprint :: "(string, int) gomap" \<comment> \<open>speculativeFootprintByCluster\<close>
  sp_desiredFree :: "(string, Footprint) gomap" \<comment> \<open>desiredFreeByCluster\<close>

text \<open>The checks before the job is measured against the cluster's nodes.\<close>

definition may_scale_for :: "int \<Rightarrow> speculation \<Rightarrow> string list \<Rightarrow> int \<Rightarrow> Experiment \<Rightarrow> string \<Rightarrow> string \<Rightarrow> bool" where
  "may_scale_for ttl sp recentlyTried now e cluster clusterID \<longleftrightarrow>
     (let c = sp_clusters sp; gang = (RequiresDistinctHosts e \<or> js_Groups (ex_Job e) \<noteq> [] \<or> Nodes (ex_Job e) > 1)
      in clusterID \<noteq> [] \<and> cluster \<in> set (sp_autoscalerEnabled sp) \<and> cluster \<in> set (sp_connected sp)
         \<and> hostsJob (tk_registered c) cluster e
         \<and> (gang \<longrightarrow> cluster \<in> set (tk_multiNode c))
         \<and> ScaleUpPlace (mget [] (tk_nodeLabels c) cluster) e \<noteq> None
         \<and> \<not> triedRecently (ex_TriedClusters e) clusterID ttl now
         \<and> clusterID \<notin> set recentlyTried
         \<and> \<not> negativeInDimension (mget [] (sp_desiredFree sp) cluster) (ex_AcceleratorType e))"

text \<open>The accelerators of each node at most: installed where the totals are known, free where they are not.\<close>

definition accel_ceiling :: "resolve_env \<Rightarrow> tickClusters \<Rightarrow> Experiment \<Rightarrow> string \<Rightarrow> resolutionCache \<Rightarrow> (resolve_error + capmap) \<times> resolutionCache" where
  "accel_ceiling env c e cluster ca =
     (let nodeAvail = mget [] (tk_nodeAvailAtTickStart c) cluster; totals = mget [] (tk_nodeResTotal c) cluster
      in if totals = [] then (Inr nodeAvail, ca)
         else case installedAcceleratorsByNode env ca cluster (ex_AcceleratorType e) nodeAvail totals of
                (Inl err, ca) \<Rightarrow> (Inl err, ca)
              | (Inr installed, ca) \<Rightarrow> (Inr (map (\<lambda>(node, n). (node, [(ex_AcceleratorType e, n)])) installed), ca))"

definition within_cap :: "int option \<Rightarrow> bool \<Rightarrow> int \<Rightarrow> int \<Rightarrow> bool" where
  "within_cap cap provenFit outstanding n =
     (case (if cap = None \<and> \<not> provenFit then Some n else cap) of None \<Rightarrow> True | Some c \<Rightarrow> \<not> outstanding + n > c)"

fun candidate_walk :: "quantity_lib \<Rightarrow> resolve_env \<Rightarrow> speculation_env \<Rightarrow> int \<Rightarrow> speculation \<Rightarrow> string list \<Rightarrow> int \<Rightarrow> Experiment
    \<Rightarrow> (string \<times> string) list \<Rightarrow> resolutionCache \<Rightarrow> (spec_error + spec_candidate list) \<times> resolutionCache" where
  "candidate_walk Q env senv ttl sp recentlyTried now e [] ca = (Inr [], ca)"
| "candidate_walk Q env senv ttl sp recentlyTried now e ((cluster, clusterID) # rest) ca =
     (if \<not> may_scale_for ttl sp recentlyTried now e cluster clusterID
      then candidate_walk Q env senv ttl sp recentlyTried now e rest ca
      else case accel_ceiling env (sp_clusters sp) e cluster ca of
             (Inl err, ca) \<Rightarrow> (Inl (InstalledUnread err), ca)
           | (Inr most, ca) \<Rightarrow>
               let c = sp_clusters sp;
                   proven = fitsLargestNode Q e most (mget [] (tk_nodeResTotal c) cluster) (mget [] (tk_nodeLabels c) cluster)
               in case speculativeCap senv clusterID ca of
                    (None, ca) \<Rightarrow> (Inl CapUnread, ca)
                  | (Some cap, ca) \<Rightarrow>
                      (case candidate_walk Q env senv ttl sp recentlyTried now e rest ca of
                         (Inl err, ca) \<Rightarrow> (Inl err, ca)
                       | (Inr cands, ca) \<Rightarrow>
                           (Inr ((if within_cap cap proven (geti (sp_footprint sp) cluster) (ex_AcceleratorCount e)
                                  then [\<lparr>sc_cluster = cluster, sc_clusterID = clusterID, sc_provenFit = proven\<rparr>] else []) @ cands), ca)))"

definition spec_before :: "registry \<Rightarrow> string \<Rightarrow> (string, int) gomap \<Rightarrow> spec_candidate \<Rightarrow> spec_candidate \<Rightarrow> bool" where
  "spec_before registered orgID footprint a b =
     (if rank_in registered orgID (sc_cluster a) \<noteq> rank_in registered orgID (sc_cluster b)
        then rank_in registered orgID (sc_cluster a) > rank_in registered orgID (sc_cluster b)
      else if sc_provenFit a \<noteq> sc_provenFit b then sc_provenFit a
      else if geti footprint (sc_cluster a) \<noteq> geti footprint (sc_cluster b) then geti footprint (sc_cluster a) < geti footprint (sc_cluster b)
      else sc_clusterID a < sc_clusterID b)"

interpretation spec_order: strict_weak_order "spec_before registered orgID footprint" for registered orgID footprint
  unfolding spec_before_def [abs_def] by (intro swo_desc_then swo_flag_then swo_key_then swo_key)

text \<open>The clusters in the order they are tried, and which of them are proven to fit.\<close>

definition speculativeCandidates :: "quantity_lib \<Rightarrow> resolve_env \<Rightarrow> speculation_env \<Rightarrow> int \<Rightarrow> speculation \<Rightarrow> int \<Rightarrow> Experiment \<Rightarrow> resolutionCache
    \<Rightarrow> (spec_error + string list \<times> (string, bool) gomap) \<times> resolutionCache" where
  "speculativeCandidates Q env senv ttl sp now e ca =
     (case recentlyTriedClusters senv ca of
        (None, ca) \<Rightarrow> (Inl RecentlyTriedUnread, ca)
      | (Some recentlyTried, ca) \<Rightarrow>
          (case candidate_walk Q env senv ttl sp recentlyTried now e (tk_clusterIDs (sp_clusters sp)) ca of
             (Inl err, ca) \<Rightarrow> (Inl err, ca)
           | (Inr cands, ca) \<Rightarrow>
               let sorted_cands = sort_slice (spec_before (tk_registered (sp_clusters sp)) (ex_OrgID e) (sp_footprint sp)) cands
               in (Inr (map sc_cluster sorted_cands, map (\<lambda>c. (sc_cluster c, sc_provenFit c)) sorted_cands), ca)))"

end
