(* ===== verification/Waits.thy ===== *)
theory Waits
  imports Speculate
begin

text \<open>
  Why a queued job waits (scheduler/queue_reason.go, loop_slot.go, and the reasons of loop_submit.go).  A reason is a value here; the row stores
  its code and a sentence, and the words of the sentence are a parameter, \<open>say\<close>.
\<close>

subsection \<open>Reasons\<close>

text \<open>The jobs that hold what a queued one is short of: of its own platform experiment, and others.\<close>

record holders =
  ho_own :: int
  ho_others :: int

text \<open>A job that does not fit, and what it is short of, in the order of the code's cases.\<close>

datatype no_fit =
    NoClusterHasRoom Footprint \<comment> \<open>no cluster could be picked\<close>
  | NoNodeHolds string Footprint \<comment> \<open>the cluster's total has room\<close>
  | NoRoomNow string
  | AwaitsReport string Footprint \<comment> \<open>what is missing was freed and is not reported yet\<close>
  | HeldThere string Footprint holders

datatype wait_reason =
    JobTooLong rat rat
  | StageCutWait
  | WaitingForScaleUp string
  | NoScalableCapacity
  | Ineligible refusal
  | QuotaShort
  | ConcurrencyCap
  | CapacityTaken
  | OverComputeLimit ClaimRefusal
  | WorkloadCreation
  | Misfits "misfit list" \<comment> \<open>one for each cluster tried\<close>
  | NeverFits never_fits
  | NoNetwork string int string "string list"
  | NoOffer string "string list"
  | WaitingForSlots string "string list"
  | NoNodeOfArchitecture string "string list"
  | ApartOnly string NodesLevel int
  | Outranked
  | NotFitting no_fit

fun refusal_code :: "refusal \<Rightarrow> string" where
  "refusal_code NoClusterForOrg = NotAdmittedNoClusterForOrg"
| "refusal_code ClustersDisabled = NotAdmittedClustersDisabled"
| "refusal_code (NoMultiNodeCluster n) = NotAdmittedNoMultiNodeCluster"
| "refusal_code (RanOnTypeUncovered t) = NotAdmittedInsufficientQuota"

fun misfit_code :: "misfit \<Rightarrow> string" where
  "misfit_code (SlotMisfit m) = NotAdmittedCapacityUnavailable"
| "misfit_code (ShareMisfit dimension requested share units cores cluster) = NotAdmittedExceedsAcceleratorShare"

fun never_fits_code :: "never_fits \<Rightarrow> string" where
  "never_fits_code (NoClusterForArchitecture has) = NotAdmittedNoClusterForArchitecture"
| "never_fits_code ExceedsProjectComputeLimit = NotAdmittedExceedsProjectComputeLimit"
| "never_fits_code (ExceedsClusterCapacity hosts places) = NotAdmittedExceedsClusterCapacity"

text \<open>Several misfits are one reason, under the code of the first (joinMisfits).\<close>

fun reason_code :: "wait_reason \<Rightarrow> string" where
  "reason_code (JobTooLong estimated limit) = NotAdmittedJobTooLong"
| "reason_code StageCutWait = NotAdmittedStageCut"
| "reason_code (WaitingForScaleUp cluster) = NotAdmittedWaitingForScaleUp"
| "reason_code NoScalableCapacity = NotAdmittedNoScalableCapacity"
| "reason_code (Ineligible r) = refusal_code r"
| "reason_code QuotaShort = NotAdmittedInsufficientQuota"
| "reason_code ConcurrencyCap = NotAdmittedConcurrencyCap"
| "reason_code CapacityTaken = NotAdmittedCapacityUnavailable"
| "reason_code (OverComputeLimit r) = cr_Code r"
| "reason_code WorkloadCreation = NotAdmittedWorkloadCreation"
| "reason_code (Misfits ms) = (case ms of [] \<Rightarrow> [] | m # _ \<Rightarrow> misfit_code m)"
| "reason_code (NeverFits r) = never_fits_code r"
| "reason_code (NoNetwork cluster ranks shape why) = NotAdmittedCapacityUnavailable"
| "reason_code (NoOffer cluster why) = NotAdmittedCapacityUnavailable"
| "reason_code (WaitingForSlots cluster slots) = NotAdmittedCapacityUnavailable"
| "reason_code (NoNodeOfArchitecture cluster has) = NotAdmittedCapacityUnavailable"
| "reason_code (ApartOnly cluster near nodes) = NotAdmittedCapacityUnavailable"
| "reason_code Outranked = NotAdmittedOutranked"
| "reason_code (NotFitting why) = NotAdmittedCapacityUnavailable"

definition reason_text :: "(wait_reason \<Rightarrow> string) \<Rightarrow> wait_reason \<Rightarrow> string" where
  "reason_text say r = reason_code r @ '': '' @ say r"

subsection \<open>A submit that failed\<close>

fun notAdmittedReasonForSubmitError :: "submit_error \<Rightarrow> wait_reason" where
  "notAdmittedReasonForSubmitError ConcurrencyCapExceeded = ConcurrencyCap"
| "notAdmittedReasonForSubmitError InsufficientQuota = QuotaShort"
| "notAdmittedReasonForSubmitError AdmissionCapacityChanged = CapacityTaken"
| "notAdmittedReasonForSubmitError (ComputeLimitReached refused) = OverComputeLimit refused"
| "notAdmittedReasonForSubmitError _ = WorkloadCreation"

subsection \<open>Waiting for slots\<close>

definition noNetworkReason :: "quantity_lib \<Rightarrow> Experiment \<Rightarrow> string \<Rightarrow> capmap \<Rightarrow> capmap \<Rightarrow> labelmap \<Rightarrow> wait_reason option" where
  "noNetworkReason Q e cluster sizes free labelsByNode =
     map_option (\<lambda>(ranks, shape, why). NoNetwork cluster ranks shape why) (NetworkWait Q e cluster sizes free labelsByNode)"

definition noOfferReason :: "quantity_lib \<Rightarrow> Experiment \<Rightarrow> string \<Rightarrow> capmap \<Rightarrow> capmap \<Rightarrow> labelmap \<Rightarrow> wait_reason option" where
  "noOfferReason Q e cluster sizes free labelsByNode =
     (case SlotsFor Q e cluster sizes free labelsByNode of
        Inl _ \<Rightarrow> None
      | Inr (_, isFree) \<Rightarrow>
          if isFree then None
          else
            let why = sort (remdups [gets lab NodeSlotNoOfferLabel. (node, lab) \<leftarrow> labelsByNode,
                        gets lab NodeSlotNoOfferLabel \<noteq> [] \<and> TakesSlot Q e lab (mget [] sizes node)])
            in if why = [] then None else Some (NoOffer cluster why))"

definition slotWaitReason :: "quantity_lib \<Rightarrow> Experiment \<Rightarrow> string \<Rightarrow> capmap \<Rightarrow> capmap \<Rightarrow> labelmap \<Rightarrow> wait_reason option" where
  "slotWaitReason Q e cluster sizes free labelsByNode =
     (case noNetworkReason Q e cluster sizes free labelsByNode of
        Some r \<Rightarrow> Some r
      | None \<Rightarrow> noOfferReason Q e cluster sizes free labelsByNode)"

subsection \<open>Waiting for capacity\<close>

definition noNodeOfArchitectureReason :: "Experiment \<Rightarrow> string \<Rightarrow> labelmap \<Rightarrow> wait_reason option" where
  "noNodeOfArchitectureReason e cluster labelsByNode =
     (if ex_ImageArchitecture e = [] \<or> cluster = [] then None
      else if list_ex (\<lambda>(_, lab). OnImageArchitecture e lab) labelsByNode then None
      else Some (NoNodeOfArchitecture cluster (NodeArchitectures labelsByNode)))"

definition apartReason :: "quantity_lib \<Rightarrow> Experiment \<Rightarrow> string \<Rightarrow> capmap \<Rightarrow> capmap \<Rightarrow> labelmap \<Rightarrow> wait_reason option" where
  "apartReason Q e cluster byNode nodeRes labelsByNode =
     (if cluster = [] \<or> \<not> FitsOnlyApart Q byNode nodeRes labelsByNode e then None
      else Some (ApartOnly cluster (NodesWithin (EffectiveJob e)) (Nodes (ex_Job e))))"

definition shortOfADevice :: "Footprint \<Rightarrow> bool" where
  "shortOfADevice missing =
     list_ex (\<lambda>(key, short). short > 0 \<and> Kind key = ResourceKindAccelerator \<and> \<not> acc_Is CPUType (Name key)) missing"

definition holdersOf :: "quantity_lib \<Rightarrow> Experiment list \<Rightarrow> string \<Rightarrow> Footprint \<Rightarrow> Experiment \<Rightarrow> holders" where
  "holdersOf Q claimed cluster missing e =
     (let there = filter (\<lambda>other. ex_ClusterName other = cluster \<and> ex_ID other \<noteq> ex_ID e
                    \<and> list_ex (\<lambda>(key, short). short > 0 \<and> geti (exp_Footprint Q other) key > 0) missing) claimed;
          own = filter (\<lambda>other. ex_PlatformExperimentID other = ex_PlatformExperimentID e) there
      in \<lparr>ho_own = int (length own), ho_others = int (length there - length own)\<rparr>)"

text \<open>A missing is said as "" exactly when it names no dimension: describeFootprint says every kind there is.\<close>

definition notAdmittedReasonFor :: "bool \<Rightarrow> bool \<Rightarrow> bool \<Rightarrow> Footprint \<Rightarrow> string \<Rightarrow> holders \<Rightarrow> wait_reason" where
  "notAdmittedReasonFor fitAtTickStart scalarFits freedInDesiredState missing cluster held =
     (if fitAtTickStart then Outranked
      else NotFitting
        (if cluster = [] then NoClusterHasRoom missing
         else if scalarFits then NoNodeHolds cluster missing
         else if missing = [] then NoRoomNow cluster
         else if freedInDesiredState \<and> \<not> shortOfADevice missing then AwaitsReport cluster missing
         else HeldThere cluster missing held))"

text \<open>
  A reason is written where the row, as it was read, does not say it yet; \<open>False\<close> is an error.  Go keeps what it wrote on the
  experiment too, which nothing reads again: a tick writes at most one reason for a job.
\<close>

definition markNotAdmitted :: "(wait_reason \<Rightarrow> string) \<Rightarrow> string \<Rightarrow> string option \<Rightarrow> wait_reason \<Rightarrow> world \<Rightarrow> bool \<times> world" where
  "markNotAdmitted say i stored r w =
     (if SplitQueueReason (reason_text say r) = SplitQueueReason (coalesce stored) then (True, w)
      else case store_call (UpdateNotAdmittedReason i (reason_text say r)) w of
             (None, w) \<Rightarrow> (False, w)
           | (Some None, w) \<Rightarrow> (False, w)
           | (Some (Some _), w) \<Rightarrow> (True, w))"

end
