(* ===== verification/EvictionPlan.thy ===== *)
theory EvictionPlan
  imports Prelude "HOL-Library.Sublist"
begin

text \<open>
  The choice of victims preempt (loop_preempt.go) and selectDisbalanceVictims
  (loop_disbalance.go) share: take candidates in order until what they free is enough, give up
  when all of them are not, and then walk backwards and reprieve every victim the rest is
  enough without.
\<close>

fun take_until :: "('a list \<Rightarrow> bool) \<Rightarrow> 'a list \<Rightarrow> 'a list \<Rightarrow> 'a list" where
  "take_until enough selected [] = selected"
| "take_until enough selected (v # vs) =
     (if enough selected then selected else take_until enough (selected @ [v]) vs)"

text \<open>The index runs down; \<open>Suc i\<close> looks at position \<open>i\<close>.\<close>

fun fill_back :: "('a list \<Rightarrow> bool) \<Rightarrow> nat \<Rightarrow> 'a list \<Rightarrow> 'a list" where
  "fill_back enough 0 selected = selected"
| "fill_back enough (Suc i) selected =
     (let trial = take i selected @ drop (i + 1) selected
      in fill_back enough i (if enough trial then trial else selected))"

definition choose_victims :: "('a list \<Rightarrow> bool) \<Rightarrow> 'a list \<Rightarrow> 'a list option" where
  "choose_victims enough cands =
     (let selected = take_until enough [] cands
      in if selected = [] \<or> \<not> enough selected then None
         else Some (fill_back enough (length selected) selected))"

lemma take_until_prefix: "prefix (take_until enough sel cs) (sel @ cs) \<and> prefix sel (take_until enough sel cs)"
proof (induction cs arbitrary: sel)
  case (Cons v vs)
  show ?case
  proof (cases "enough sel")
    case False
    with Cons [of "sel @ [v]"] show ?thesis by (auto dest: append_prefixD)
  qed simp
qed simp

lemma take_until_enough: "enough (take_until enough sel cs) \<or> take_until enough sel cs = sel @ cs"
proof (induction cs arbitrary: sel)
  case (Cons v vs)
  show ?case using Cons [of "sel @ [v]"] by simp
qed simp

lemma take_until_minimal:
  "prefix p (take_until enough sel cs) \<Longrightarrow> prefix sel p \<Longrightarrow> p \<noteq> take_until enough sel cs \<Longrightarrow> \<not> enough p"
proof (induction cs arbitrary: sel)
  case Nil
  then show ?case by (metis prefix_order.antisym take_until.simps(1))
next
  case (Cons v vs)
  show ?case
  proof (cases "enough sel")
    case True
    with Cons.prems show ?thesis by (metis prefix_order.antisym take_until.simps(2))
  next
    case False
    then have eq: "take_until enough sel (v # vs) = take_until enough (sel @ [v]) vs" by simp
    show ?thesis
    proof (cases "p = sel")
      case True
      with False show ?thesis by simp
    next
      case pn: False
      have "prefix (sel @ [v]) (take_until enough (sel @ [v]) vs)" using take_until_prefix by blast
      with Cons.prems pn eq have "prefix (sel @ [v]) p"
        by (auto simp: prefix_def append_eq_append_conv2 Cons_eq_append_conv)
      with Cons.IH [of "sel @ [v]"] Cons.prems eq show ?thesis by simp
    qed
  qed
qed

lemma subseq_set: "subseq xs ys \<Longrightarrow> x \<in> set xs \<Longrightarrow> x \<in> set ys"
  by (auto dest: list_emb_set)

definition drop_at :: "nat \<Rightarrow> 'a list \<Rightarrow> 'a list" where
  "drop_at i xs = take i xs @ drop (Suc i) xs"

lemma subseq_tl: "subseq (tl xs) xs"
  by (cases xs) auto

lemma subseq_drop_at: "subseq (drop_at i xs) xs"
proof -
  have "subseq (drop (Suc i) xs) (drop i xs)" using subseq_tl [of "drop i xs"] by (simp add: drop_Suc tl_drop)
  then have "subseq (take i xs @ drop (Suc i) xs) (take i xs @ drop i xs)" by (intro list_emb_append_mono) simp_all
  then show ?thesis by (simp add: drop_at_def)
qed

lemma length_drop_at: "i < length xs \<Longrightarrow> length (drop_at i xs) = length xs - 1"
  by (simp add: drop_at_def)

lemma drop_at_twice:
  assumes "i \<le> j" and "i < length xs"
  shows "subseq (drop_at j (drop_at i xs)) (drop_at (Suc j) xs)"
proof -
  have d: "drop i xs = xs ! i # drop (Suc i) xs" using assms(2) by (rule Cons_nth_drop_Suc [symmetric])
  have "take j (drop_at i xs) = take i xs @ take (j - i) (drop (Suc i) xs)"
    using assms by (simp add: drop_at_def min_def)
  moreover have "take (Suc j) xs = take i xs @ xs ! i # take (j - i) (drop (Suc i) xs)"
  proof -
    have "take (Suc j) xs = take i xs @ take (Suc j - i) (drop i xs)"
      using assms(1) take_add [of i "Suc j - i" xs] by simp
    also have "take (Suc j - i) (drop i xs) = xs ! i # take (j - i) (drop (Suc i) xs)"
      unfolding d using assms(1) by (simp add: Suc_diff_le)
    finally show ?thesis .
  qed
  moreover have "drop (Suc j) (drop_at i xs) = drop (Suc (Suc j)) xs"
    using assms by (simp add: drop_at_def)
  ultimately show ?thesis
    unfolding drop_at_def [of j] drop_at_def [of "Suc j"]
    by (simp only: append_assoc append_Cons) (intro list_emb_append_mono subseq_order.order_refl list_emb_Cons)
qed

subsection \<open>What a plan promises\<close>

locale eviction_plan =
  fixes enough :: "'a list \<Rightarrow> bool"
begin

lemma fill_back_enough: "enough selected \<Longrightarrow> enough (fill_back enough n selected)"
  by (induction n arbitrary: selected) (simp_all add: Let_def)

lemma fill_back_subseq: "subseq (fill_back enough n selected) selected"
proof (induction n arbitrary: selected)
  case (Suc i)
  let ?trial = "take i selected @ drop (i + 1) selected"
  have "subseq ?trial selected" using subseq_drop_at [of i selected] by (simp add: drop_at_def)
  moreover have "subseq (fill_back enough i ?trial) ?trial" "subseq (fill_back enough i selected) selected"
    by (rule Suc)+
  ultimately show ?case by (simp add: Let_def) (metis subseq_order.order_trans)
qed simp

text \<open>A plan is enough, takes candidates only and in their order, and is there only where nothing was enough already.\<close>

lemma plan_sound:
  assumes "choose_victims enough cands = Some vs"
  shows "enough vs" and "subseq vs cands" and "\<not> enough []"
proof -
  define selected where "selected = take_until enough [] cands"
  from assms have s: "selected \<noteq> []" "enough selected" "vs = fill_back enough (length selected) selected"
    by (auto simp: choose_victims_def selected_def Let_def split: if_splits)
  show "enough vs" unfolding s(3) by (rule fill_back_enough [OF s(2)])
  have "prefix selected cands" using take_until_prefix [of enough "[]" cands] by (simp add: selected_def)
  then have "subseq selected cands" by (rule prefix_imp_subseq)
  moreover have "subseq vs selected" unfolding s(3) by (rule fill_back_subseq)
  ultimately show "subseq vs cands" by (rule subseq_order.order_trans [rotated])
  show "\<not> enough []"
    using take_until_minimal [of "[]" enough "[]" cands] s(1) by (simp add: selected_def)
qed

text \<open>Never a partial plan: none is made only where nothing is needed or every candidate together is not enough.\<close>

lemma plan_none:
  assumes "choose_victims enough cands = None"
  shows "enough [] \<or> \<not> enough cands"
proof (rule ccontr)
  assume neg: "\<not> (enough [] \<or> \<not> enough cands)"
  define selected where "selected = take_until enough [] cands"
  have "selected \<noteq> []"
  proof
    assume "selected = []"
    with take_until_enough [of enough "[]" cands] neg show False by (auto simp: selected_def)
  qed
  moreover have "enough selected" using take_until_enough [of enough "[]" cands] neg by (auto simp: selected_def)
  ultimately show False using assms by (simp add: choose_victims_def selected_def Let_def)
qed

end

text \<open>Where freeing more never undoes what was enough, a plan holds no victim it could spare.\<close>

locale monotone_plan = eviction_plan enough for enough :: "'a list \<Rightarrow> bool" +
  fixes sound :: "'a \<Rightarrow> bool"
  assumes enough_mono: "subseq xs ys \<Longrightarrow> \<forall>y \<in> set ys. sound y \<Longrightarrow> enough xs \<Longrightarrow> enough ys"
begin

lemma fill_back_irredundant:
  assumes "n \<le> length selected" and "\<forall>v \<in> set selected. sound v"
    and "\<forall>j. n \<le> j \<and> j < length selected \<longrightarrow> \<not> enough (drop_at j selected)"
    and "j < length (fill_back enough n selected)"
  shows "\<not> enough (drop_at j (fill_back enough n selected))"
  using assms
proof (induction n arbitrary: selected j)
  case (Suc i)
  let ?trial = "drop_at i selected"
  have i: "i < length selected" using Suc.prems(1) by simp
  have step: "fill_back enough (Suc i) selected = fill_back enough i (if enough ?trial then ?trial else selected)"
    by (simp add: Let_def drop_at_def)
  show ?case
  proof (cases "enough ?trial")
    case True
    have sub: "set ?trial \<subseteq> set selected" by (auto simp: drop_at_def dest: in_set_takeD in_set_dropD)
    have "\<not> enough (drop_at k ?trial)" if k: "i \<le> k" "k < length ?trial" for k
    proof
      assume "enough (drop_at k ?trial)"
      moreover have "subseq (drop_at k ?trial) (drop_at (Suc k) selected)" by (rule drop_at_twice [OF k(1) i])
      moreover have "\<forall>v \<in> set (drop_at (Suc k) selected). sound v"
        using Suc.prems(2) by (auto simp: drop_at_def dest: in_set_takeD in_set_dropD)
      ultimately have "enough (drop_at (Suc k) selected)" by (blast intro: enough_mono)
      then show False using Suc.prems(3) k i by (simp add: length_drop_at)
    qed
    then have "\<forall>k. i \<le> k \<and> k < length ?trial \<longrightarrow> \<not> enough (drop_at k ?trial)" by blast
    moreover have "i \<le> length ?trial" using i by (simp add: length_drop_at)
    moreover have "\<forall>v \<in> set ?trial. sound v" using sub Suc.prems(2) by blast
    ultimately have "\<not> enough (drop_at j (fill_back enough i ?trial))"
      using Suc.prems(4) True step by (intro Suc.IH) simp_all
    with True step show ?thesis by simp
  next
    case False
    with Suc.prems(3) have "\<forall>k. i \<le> k \<and> k < length selected \<longrightarrow> \<not> enough (drop_at k selected)"
      by (metis Suc_leI order_le_less)
    with Suc.IH [of selected j] Suc.prems False step show ?thesis by simp
  qed
qed simp

lemma plan_irredundant:
  assumes "choose_victims enough cands = Some vs" and "\<forall>v \<in> set cands. sound v" and "j < length vs"
  shows "\<not> enough (drop_at j vs)"
proof -
  define selected where "selected = take_until enough [] cands"
  from assms(1) have vs: "vs = fill_back enough (length selected) selected"
    by (auto simp: choose_victims_def selected_def Let_def split: if_splits)
  have "set selected \<subseteq> set cands"
    using take_until_prefix [of enough "[]" cands] set_mono_prefix by (simp add: selected_def) blast
  with assms(2,3) show ?thesis unfolding vs by (intro fill_back_irredundant) auto
qed

lemma plan_exists:
  assumes "\<forall>v \<in> set cands. sound v"
  shows "choose_victims enough cands \<noteq> None \<longleftrightarrow> \<not> enough [] \<and> enough cands"
proof
  assume "choose_victims enough cands \<noteq> None"
  then obtain vs where vs: "choose_victims enough cands = Some vs" by blast
  show "\<not> enough [] \<and> enough cands"
    using plan_sound [OF vs] enough_mono [of vs cands] assms by blast
qed (use plan_none in blast)

end

end
