(* ===== verification/Preempt.thy ===== *)
theory Preempt
  imports EvictionPlan QueueOrder Slots
begin

text \<open>
  Preemption of burst jobs for a guaranteed one (scheduler/loop_preempt.go).  What the pass asks
  of the metrics store and of the experiment store through Loop.observed and Loop.store is
  the record \<open>preempt_env\<close>: the answer to each question, \<open>None\<close> where the call
  returns an error.  The pass returns what it committed or its error, and the writes it made: the
  requeues with the estimate they wrote, and the stints it settled.  Log lines are left out, and so is
  what Settle returns, which the code logs only.
\<close>

record preempt_env =
  ObservedElapsedHours :: "string \<Rightarrow> rat option"
  LatestExperimentNode :: "string \<Rightarrow> string option option"
  ObservedStintElapsedHours :: "string \<Rightarrow> rat option"
  RequeuePreempted :: "string \<Rightarrow> rat \<Rightarrow> rat \<Rightarrow> bool option"

definition MinRemainingHours :: rat where
  "MinRemainingHours = 1 / 4"

subsection \<open>Candidates\<close>

text \<open>The candidates that can be ranked and attributed to a node, with both facts kept under their ID.\<close>

record ranked =
  rc_elapsed :: "(string, rat) gomap"
  rc_nodeOf :: "(string, string) gomap"
  rc_candidates :: "Experiment list"

definition ranking_step :: "preempt_env \<Rightarrow> Experiment \<Rightarrow> ranked \<Rightarrow> ranked" where
  "ranking_step env e rc =
     (case ObservedElapsedHours env (ex_ID e) of
          None \<Rightarrow> rc
        | Some hours \<Rightarrow>
            (case LatestExperimentNode env (ex_ID e) of
               None \<Rightarrow> rc
             | Some None \<Rightarrow> rc
             | Some (Some node) \<Rightarrow>
                 rc\<lparr>rc_elapsed := mput (ex_ID e) hours (rc_elapsed rc),
                    rc_nodeOf := mput (ex_ID e) node (rc_nodeOf rc),
                    rc_candidates := rc_candidates rc @ [e]\<rparr>))"

definition rank_candidates :: "preempt_env \<Rightarrow> Experiment list \<Rightarrow> ranked" where
  "rank_candidates env burstRunning =
     fold (ranking_step env) burstRunning \<lparr>rc_elapsed = [], rc_nodeOf = [], rc_candidates = []\<rparr>"

text \<open>What evicting a job frees on its node: one rank, the least of them in every dimension.\<close>

definition least_rank :: "NodeShape \<Rightarrow> NodeShape list \<Rightarrow> int \<times> amounts" where
  "least_rank shape shapes =
     fold (\<lambda>s (n, least). (min n (ns_AcceleratorCount s),
             map (\<lambda>(name, amount). (name, min amount (geti (ns_Resources s) name))) least))
       shapes (ns_AcceleratorCount shape, ns_Resources shape)"

definition creditNode :: "quantity_lib \<Rightarrow> amounts option \<Rightarrow> amounts option \<Rightarrow> Experiment \<Rightarrow> amounts option \<times> amounts option" where
  "creditNode Q accelerators resources e =
     (case NodeShapes Q e of
        [] \<Rightarrow> (accelerators, resources)
      | shape # shapes \<Rightarrow>
          let (n, least) = least_rank shape shapes
          in (map_option (\<lambda>a. if n > 0 then madd (AcceleratorKey (ex_AcceleratorType e)) n a else a) accelerators,
              map_option (\<lambda>r. AddNodeResources r least) resources))"

text \<open>Go updates the node's map in place; a node that is not reported stays so.\<close>

definition put_node :: "capmap \<Rightarrow> string \<Rightarrow> amounts option \<Rightarrow> capmap" where
  "put_node m node new = (case new of None \<Rightarrow> m | Some a \<Rightarrow> mput node a m)"

definition footprintSize :: "quantity_lib \<Rightarrow> Experiment \<Rightarrow> int" where
  "footprintSize Q e = sum_list (map snd (exp_Footprint Q e))"

definition victim_before :: "quantity_lib \<Rightarrow> (string, rat) gomap \<Rightarrow> Experiment \<Rightarrow> Experiment \<Rightarrow> bool" where
  "victim_before Q elapsed a b =
     (if mget 0 elapsed (ex_ID a) \<noteq> mget 0 elapsed (ex_ID b) then mget 0 elapsed (ex_ID a) < mget 0 elapsed (ex_ID b)
      else footprintSize Q a > footprintSize Q b)"

interpretation victim_order: strict_weak_order "victim_before Q elapsed" for Q elapsed
  unfolding victim_before_def [abs_def] by (intro swo_key_then swo_desc)

subsection \<open>The plan\<close>

definition placeableWithout :: "quantity_lib \<Rightarrow> Footprint \<Rightarrow> capmap \<Rightarrow> capmap \<Rightarrow> labelmap \<Rightarrow> (string, string) gomap
    \<Rightarrow> Experiment \<Rightarrow> Experiment list \<Rightarrow> bool" where
  "placeableWithout Q avail nodeAvail nodeRes nodeLabels nodeOf preemptor victims =
     (let (free, accelerators, resources) =
        fold (\<lambda>victim (free, accelerators, resources).
            let node = gets nodeOf (ex_ID victim);
                (a, r) = creditNode Q (map_of accelerators node) (map_of resources node) victim
            in (AddFootprint free (exp_Footprint Q victim), put_node accelerators node a, put_node resources node r))
          victims (AddFootprint NewFootprint avail, CloneNodes nodeAvail, CloneNodes nodeRes)
      in Fits free (exp_Footprint Q preemptor) \<and> TopologyFits Q accelerators resources nodeLabels preemptor)"

text \<open>On a cluster of slots the preemptor is sized against what is free once every candidate is gone.\<close>

definition size_preemptor :: "quantity_lib \<Rightarrow> string \<Rightarrow> capmap \<Rightarrow> capmap \<Rightarrow> labelmap \<Rightarrow> (string, string) gomap \<Rightarrow> Experiment list
    \<Rightarrow> Experiment \<Rightarrow> Experiment option" where
  "size_preemptor Q cluster nodeRes nodeResTotal nodeLabels nodeOf cands preemptor =
     (if \<not> HasSlots nodeLabels then Some preemptor
      else
        let freeable = fold (\<lambda>victim f. put_node f (gets nodeOf (ex_ID victim))
                         (snd (creditNode Q None (map_of f (gets nodeOf (ex_ID victim))) victim)))
                       cands (CloneNodes nodeRes)
        in case ResolveOntoSlots Q preemptor cluster nodeResTotal freeable nodeLabels of
             Inl _ \<Rightarrow> None
           | Inr resolved \<Rightarrow> Some (preemptor\<lparr>ex_ResolvedJob := Some resolved\<rparr>))"

text \<open>The remaining estimate a preempted job is requeued with, and its cost at the same rate.\<close>

definition rescale :: "Experiment \<Rightarrow> rat \<Rightarrow> rat \<times> rat" where
  "rescale victim stintElapsed =
     (let d = ex_EstimatedDurationHours victim;
          remaining = (if d - stintElapsed \<le> 0 then min MinRemainingHours d else d - stintElapsed);
          ratio = (if d > 0 then remaining / d else 0)
      in (remaining, ex_EstimatedCostAccH victim * ratio))"

datatype preempt_result = NotCommitted | Committed | Partly int int

record preempt_effects =
  pe_requeued :: "(string \<times> rat \<times> rat) list"
  pe_settled :: "string list"

definition requeue_one :: "preempt_env \<Rightarrow> Experiment \<Rightarrow> preempt_effects \<Rightarrow> preempt_effects" where
  "requeue_one env victim eff =
     (case ObservedStintElapsedHours env (ex_ID victim) of
          None \<Rightarrow> eff
        | Some stint \<Rightarrow>
            let (remaining, cost) = rescale victim stint
            in case RequeuePreempted env (ex_ID victim) remaining cost of
                 None \<Rightarrow> eff
               | Some False \<Rightarrow> eff
               | Some True \<Rightarrow>
                   eff\<lparr>pe_requeued := pe_requeued eff @ [(ex_ID victim, remaining, cost)],
                       pe_settled := pe_settled eff @ [ex_ID victim]\<rparr>)"

definition requeue_victims :: "preempt_env \<Rightarrow> Experiment list \<Rightarrow> preempt_effects" where
  "requeue_victims env selected = fold (requeue_one env) selected \<lparr>pe_requeued = [], pe_settled = []\<rparr>"

definition no_effects :: preempt_effects where
  "no_effects = \<lparr>pe_requeued = [], pe_settled = []\<rparr>"

text \<open>The victims of the plan, none where there is no plan.\<close>

definition preempt_plan :: "quantity_lib \<Rightarrow> preempt_env \<Rightarrow> string \<Rightarrow> Footprint \<Rightarrow> capmap \<Rightarrow> capmap \<Rightarrow> capmap \<Rightarrow> labelmap
    \<Rightarrow> Experiment list \<Rightarrow> Experiment \<Rightarrow> Experiment list option" where
  "preempt_plan Q env cluster avail nodeAvail nodeRes nodeResTotal nodeLabels burstRunning preemptor =
     (let rc = rank_candidates env burstRunning
      in if rc_candidates rc = [] then None
         else case size_preemptor Q cluster nodeRes nodeResTotal nodeLabels (rc_nodeOf rc) (rc_candidates rc) preemptor of
           None \<Rightarrow> None
         | Some sized \<Rightarrow>
             let cands = sort_slice (victim_before Q (rc_elapsed rc)) (rc_candidates rc)
             in choose_victims (placeableWithout Q avail nodeAvail nodeRes nodeLabels (rc_nodeOf rc) sized) cands)"

definition preempt_outcome :: "nat \<Rightarrow> Experiment list \<Rightarrow> preempt_result" where
  "preempt_outcome requeued selected =
     (if requeued = length selected then Committed else Partly (int requeued) (int (length selected)))"

definition preempt :: "quantity_lib \<Rightarrow> preempt_env \<Rightarrow> string \<Rightarrow> Footprint \<Rightarrow> capmap \<Rightarrow> capmap \<Rightarrow> capmap \<Rightarrow> labelmap
    \<Rightarrow> Experiment list \<Rightarrow> Experiment \<Rightarrow> preempt_result \<times> preempt_effects" where
  "preempt Q env cluster avail nodeAvail nodeRes nodeResTotal nodeLabels burstRunning preemptor =
     (case preempt_plan Q env cluster avail nodeAvail nodeRes nodeResTotal nodeLabels burstRunning preemptor of
        None \<Rightarrow> (NotCommitted, no_effects)
      | Some selected \<Rightarrow>
          let eff = requeue_victims env selected in (preempt_outcome (length (pe_requeued eff)) selected, eff))"

subsection \<open>Progress of the queued jobs\<close>

definition completionFractions :: "preempt_env \<Rightarrow> Experiment list \<Rightarrow> (string, rat) gomap" where
  "completionFractions env exps =
     fold (\<lambda>e out.
        if ex_EstimatedDurationHours e \<le> 0 \<or> ex_RanOnAcceleratorType e = [] then out
        else case ObservedElapsedHours env (ex_ID e) of
            None \<Rightarrow> out
          | Some hours \<Rightarrow>
              let fraction = hours / ex_EstimatedDurationHours e
              in mput (ex_ID e) (if fraction < 0 then 0 else if fraction > 1 then 1 else fraction) out)
       exps []"

end
