(* ===== verification/Disbalance.thy ===== *)
theory Disbalance
  imports EvictionPlan Shortfalls Resolve
begin

text \<open>
  The eviction of jobs whose shape strands accelerators (scheduler/loop_disbalance.go): the
  premises, the choice of victims, the eviction pass, and the credit of evictions whose capacity the
  clusters have not reported back yet.  What the pass asks of the stores and of the evictor is the record
  \<open>evict_env\<close>, \<open>None\<close> or \<open>False\<close> where a call fails.  Ratios are rationals where
  Go has float64.
\<close>

subsection \<open>Dimensions\<close>

definition nodeResourceName :: "ResourceKind \<Rightarrow> string option" where
  "nodeResourceName kind =
     (case kind of
        ResourceKindCPU \<Rightarrow> Some NodeResourceCPUMillicores
      | ResourceKindMemory \<Rightarrow> Some NodeResourceMemoryBytes
      | ResourceKindStorage \<Rightarrow> Some NodeResourceStorageBytes
      | _ \<Rightarrow> None)"

definition isDisbalanceDimension :: "ResourceKind \<Rightarrow> bool" where
  "isDisbalanceDimension kind =
     (case kind of ResourceKindCPU \<Rightarrow> True | ResourceKindMemory \<Rightarrow> True | ResourceKindStorage \<Rightarrow> True | _ \<Rightarrow> False)"

record placedExperiment =
  px_experiment :: Experiment
  px_node :: string

record pendingEviction =
  pv_cluster :: string
  pv_node :: string
  pv_footprint :: Footprint
  pv_acceleratorType :: string
  pv_acceleratorCount :: int
  pv_evictedAt :: int
  pv_nodeFreeAtEviction :: int

subsection \<open>Evictions whose capacity is still to come\<close>

text \<open>The capacity a tick reads: the free footprints of both passes and the free nodes, by cluster.\<close>

record tick_capacity =
  tc_gAvail :: "(string, Footprint) gomap"
  tc_bAvail :: "(string, Footprint) gomap"
  tc_nodeAvail :: "(string, capmap) gomap"
  tc_nodeRes :: "(string, capmap) gomap"

definition add_to :: "string \<Rightarrow> Footprint \<Rightarrow> (string, Footprint) gomap \<Rightarrow> (string, Footprint) gomap" where
  "add_to cluster fp m = (case map_of m cluster of None \<Rightarrow> m | Some f \<Rightarrow> mput cluster (AddFootprint f fp) m)"

definition node_of_cluster :: "(string, capmap) gomap \<Rightarrow> string \<Rightarrow> string \<Rightarrow> amounts option" where
  "node_of_cluster m cluster node = (case map_of m cluster of None \<Rightarrow> None | Some byNode \<Rightarrow> map_of byNode node)"

definition put_at :: "string \<Rightarrow> string \<Rightarrow> amounts \<Rightarrow> (string, capmap) gomap \<Rightarrow> (string, capmap) gomap" where
  "put_at cluster node a m = mput cluster (mput node a (mget [] m cluster)) m"

text \<open>One entry: pruned for age, pruned because its node reports more than when it was condemned, or credited.\<close>

definition reported_back :: "tick_capacity \<Rightarrow> pendingEviction \<Rightarrow> bool" where
  "reported_back cap pe \<longleftrightarrow> pv_acceleratorCount pe > 0 \<and> pv_acceleratorType pe \<noteq> []
     \<and> (case node_of_cluster (tc_nodeAvail cap) (pv_cluster pe) (pv_node pe) of
          None \<Rightarrow> False
        | Some capacity \<Rightarrow> geti capacity (pv_acceleratorType pe) > pv_nodeFreeAtEviction pe)"

definition credit_devices :: "pendingEviction \<Rightarrow> (string, capmap) gomap \<Rightarrow> (string, capmap) gomap" where
  "credit_devices pe m =
     (if pv_acceleratorCount pe > 0 \<and> pv_acceleratorType pe \<noteq> [] then
        (case node_of_cluster m (pv_cluster pe) (pv_node pe) of
           None \<Rightarrow> m
         | Some capacity \<Rightarrow> put_at (pv_cluster pe) (pv_node pe) (madd (pv_acceleratorType pe) (pv_acceleratorCount pe) capacity) m)
      else m)"

definition credit_resources :: "pendingEviction \<Rightarrow> (string, capmap) gomap \<Rightarrow> (string, capmap) gomap" where
  "credit_resources pe m =
     (case node_of_cluster m (pv_cluster pe) (pv_node pe) of
        None \<Rightarrow> m
      | Some free \<Rightarrow> put_at (pv_cluster pe) (pv_node pe)
          (fold (\<lambda>(key, amount) f. case nodeResourceName (Kind key) of None \<Rightarrow> f | Some name \<Rightarrow> madd name amount f)
             (pv_footprint pe) free) m)"

definition apply_pending :: "int \<Rightarrow> int \<Rightarrow> string \<times> pendingEviction \<Rightarrow> (string, pendingEviction) gomap \<times> tick_capacity
    \<Rightarrow> (string, pendingEviction) gomap \<times> tick_capacity" where
  "apply_pending now ttl entry st =
     (case (entry, st) of ((i, pe), (pending, cap)) \<Rightarrow>
        if now - pv_evictedAt pe > ttl then (mdel i pending, cap)
        else if reported_back cap pe then (mdel i pending, cap)
        else (pending,
              \<lparr>tc_gAvail = add_to (pv_cluster pe) (pv_footprint pe) (tc_gAvail cap),
               tc_bAvail = add_to (pv_cluster pe) (pv_footprint pe) (tc_bAvail cap),
               tc_nodeAvail = credit_devices pe (tc_nodeAvail cap),
               tc_nodeRes = credit_resources pe (tc_nodeRes cap)\<rparr>))"

definition applyPendingEvictions :: "int \<Rightarrow> int \<Rightarrow> (string, pendingEviction) gomap \<Rightarrow> tick_capacity
    \<Rightarrow> (string, pendingEviction) gomap \<times> tick_capacity" where
  "applyPendingEvictions now ttl pending cap = fold (apply_pending now ttl) pending (pending, cap)"

definition isPendingEviction :: "int \<Rightarrow> (string, pendingEviction) gomap \<Rightarrow> string \<Rightarrow> int \<Rightarrow> bool" where
  "isPendingEviction ttl pending i now =
     (case map_of pending i of None \<Rightarrow> False | Some pe \<Rightarrow> now - pv_evictedAt pe \<le> ttl)"

subsection \<open>The premises\<close>

definition disbalancePremises :: "quantity_lib \<Rightarrow> Experiment \<Rightarrow> Footprint \<Rightarrow> Footprint \<Rightarrow> capmap \<Rightarrow> capmap \<Rightarrow> labelmap
    \<Rightarrow> (Footprint \<times> amounts) option" where
  "disbalancePremises Q blocked blockedFP clusterAvail nodeAvail nodeRes nodeLabels =
     (if TotalAccelerators (ex_Job blocked) \<le> 0 then None
      else if acc_Kind (ex_AcceleratorType blocked) = TypeKindCPU then None
      else
        let short = PreemptionShortfall Q clusterAvail nodeAvail nodeRes nodeLabels blocked blockedFP
        in if short = [] then None
           else if \<not> list_all (\<lambda>(key, _). isDisbalanceDimension (Kind key)) short then None
           else
             let t = AcceleratorKey (ex_AcceleratorType blocked);
                 perRank = ns_AcceleratorCount (HardestNodeShape Q blocked);
                 stranded = fold (\<lambda>(node, capacity) out.
                     if \<not> RunsOn (mget [] nodeLabels node) blocked then out
                     else if geti capacity t \<ge> perRank then mput node (geti capacity t) out else out)
                   nodeAvail []
             in if stranded = [] then None else Some (short, stranded))"

definition disbalancePremisesHold :: "quantity_lib \<Rightarrow> Experiment \<Rightarrow> Footprint \<Rightarrow> Footprint \<Rightarrow> capmap \<Rightarrow> capmap \<Rightarrow> labelmap \<Rightarrow> bool" where
  "disbalancePremisesHold Q blocked blockedFP clusterAvail nodeAvail nodeRes nodeLabels \<longleftrightarrow>
     disbalancePremises Q blocked blockedFP clusterAvail nodeAvail nodeRes nodeLabels \<noteq> None"

subsection \<open>The candidates\<close>

record disbalanceVictim =
  dv_experiment :: Experiment
  dv_node :: string
  dv_dimension :: "ResourceKind option"
  dv_requested :: int
  dv_share :: rat
  dv_idleAccelerators :: int

definition installedOf :: "capmap \<Rightarrow> amounts \<Rightarrow> placedExperiment list \<Rightarrow> string \<Rightarrow> AcceleratorType \<Rightarrow> int" where
  "installedOf nodeAvail cores placed node t =
     (if acc_Kind t = TypeKindCPU then geti cores node
      else fold (\<lambda>p installed.
          if px_node p = node \<and> acc_Is (ex_AcceleratorType (px_experiment p)) t
          then installed + ex_AcceleratorCount (px_experiment p) else installed)
        placed (geti (mget [] nodeAvail node) (AcceleratorKey t)))"

text \<open>How far past its share a job reaches, over the short dimensions, with the evidence of the worst.\<close>

fun worst_ratio :: "amounts \<Rightarrow> int \<Rightarrow> int \<Rightarrow> Footprint \<Rightarrow> ResourceKey list \<Rightarrow> rat \<times> disbalanceVictim \<Rightarrow> rat \<times> disbalanceVictim" where
  "worst_ratio nodeTotal held units fp [] st = st"
| "worst_ratio nodeTotal held units fp (key # ks) (worst, ev) =
     worst_ratio nodeTotal held units fp ks
       (case nodeResourceName (Kind key) of
          None \<Rightarrow> (worst, ev)
        | Some name \<Rightarrow>
            if geti nodeTotal name \<le> 0 then (worst, ev)
            else case FairShare (geti nodeTotal name) held units of
                Inl _ \<Rightarrow> (worst, ev)
              | Inr share \<Rightarrow>
                  if share \<le> 0 then (worst, ev)
                  else
                    let ratio = of_int (geti fp key) / of_int share
                    in if ratio \<le> worst then (worst, ev)
                       else (ratio, ev\<lparr>dv_dimension := Some (Kind key), dv_requested := geti fp key, dv_share := of_int share\<rparr>))"

text \<open>One placed job: \<open>None\<close> where it is no candidate.\<close>

definition score :: "quantity_lib \<Rightarrow> Footprint \<Rightarrow> amounts \<Rightarrow> capmap \<Rightarrow> capmap \<Rightarrow> amounts \<Rightarrow> placedExperiment list \<Rightarrow> rat
    \<Rightarrow> placedExperiment \<Rightarrow> (disbalanceVictim \<times> rat) option" where
  "score Q short stranded nodeResTotal nodeAvail cores placed tolerance p =
     (let e = px_experiment p; node = px_node p
      in if geti stranded node \<le> 0 \<or> ex_AcceleratorCount e \<le> 0 then None
         else
           let units = installedOf nodeAvail cores placed node (ex_AcceleratorType e)
           in if units \<le> 0 \<or> mget [] nodeResTotal node = [] then None
              else
                case worst_ratio (mget [] nodeResTotal node) (ex_AcceleratorCount e) units (exp_Footprint Q e) (keys short)
                       (0, \<lparr>dv_experiment = e, dv_node = node, dv_dimension = None, dv_requested = 0, dv_share = 0,
                            dv_idleAccelerators = geti stranded node\<rparr>) of
                  (worst, ev) \<Rightarrow> if worst > tolerance then Some (ev, worst) else None)"

definition by_node :: "(placedExperiment \<Rightarrow> (disbalanceVictim \<times> rat) option) \<Rightarrow> placedExperiment list
    \<Rightarrow> (string, (disbalanceVictim \<times> rat) list) gomap" where
  "by_node sc placed =
     fold (\<lambda>p m. case sc p of None \<Rightarrow> m | Some v \<Rightarrow> mput (px_node p) (mget [] m (px_node p) @ [v]) m) placed []"

definition scored_before :: "disbalanceVictim \<times> rat \<Rightarrow> disbalanceVictim \<times> rat \<Rightarrow> bool" where
  "scored_before a b =
     (if snd a \<noteq> snd b then snd a > snd b else ex_ID (dv_experiment (fst a)) < ex_ID (dv_experiment (fst b)))"

interpretation scored_order: strict_weak_order scored_before
  unfolding scored_before_def [abs_def] by (intro swo_desc_then swo_key)

subsection \<open>The plan of a node\<close>

text \<open>What the accumulating walk keeps: the victims taken, what they free, and what each contributes.\<close>

fun accumulate :: "quantity_lib \<Rightarrow> Footprint \<Rightarrow> disbalanceVictim list \<Rightarrow> Footprint \<Rightarrow> (string, Footprint) gomap \<Rightarrow> disbalanceVictim list
    \<Rightarrow> disbalanceVictim list \<times> Footprint \<times> (string, Footprint) gomap" where
  "accumulate Q short selected freed contrib [] = (selected, freed, contrib)"
| "accumulate Q short selected freed contrib (c # cs) =
     (if Fits freed short then (selected, freed, contrib)
      else
        let fp = exp_Footprint Q (dv_experiment c)
        in accumulate Q short (selected @ [c]) (AddFootprint freed fp) (mput (ex_ID (dv_experiment c)) fp contrib) cs)"

fun reprieve :: "Footprint \<Rightarrow> (string, Footprint) gomap \<Rightarrow> nat \<Rightarrow> disbalanceVictim list \<Rightarrow> Footprint \<Rightarrow> disbalanceVictim list" where
  "reprieve short contrib 0 selected freed = selected"
| "reprieve short contrib (Suc i) selected freed =
     (let trial = fp_Sub freed (mget [] contrib (ex_ID (dv_experiment (selected ! i))))
      in if Fits trial short then reprieve short contrib i (take i selected @ drop (i + 1) selected) trial
         else reprieve short contrib i selected freed)"

definition node_plan :: "quantity_lib \<Rightarrow> Footprint \<Rightarrow> disbalanceVictim list \<Rightarrow> disbalanceVictim list option" where
  "node_plan Q short cands =
     (case accumulate Q short [] NewFootprint [] cands of (selected, freed, contrib) \<Rightarrow>
        if \<not> Fits freed short then None
        else Some (reprieve short contrib (length selected) selected freed))"

text \<open>The smallest plan over the nodes in order, \<open>[]\<close> for Go's nil.\<close>

fun smallest_plan :: "(string \<Rightarrow> disbalanceVictim list option) \<Rightarrow> disbalanceVictim list \<Rightarrow> string list \<Rightarrow> disbalanceVictim list" where
  "smallest_plan plan best [] = best"
| "smallest_plan plan best (node # nodes) =
     smallest_plan plan
       (case plan node of
          None \<Rightarrow> best
        | Some selected \<Rightarrow> if best = [] \<or> length selected < length best then selected else best) nodes"

definition selectDisbalanceVictims :: "quantity_lib \<Rightarrow> Experiment \<Rightarrow> Footprint \<Rightarrow> Footprint \<Rightarrow> Footprint \<Rightarrow> capmap \<Rightarrow> capmap \<Rightarrow> capmap
    \<Rightarrow> labelmap \<Rightarrow> placedExperiment list \<Rightarrow> rat \<Rightarrow> disbalanceVictim list" where
  "selectDisbalanceVictims Q blocked blockedFP clusterAvail clusterTotal nodeResTotal nodeAvail nodeRes nodeLabels placed tolerance =
     (if TotalAccelerators (ex_Job blocked) \<le> 0 \<or> clusterTotal = [] \<or> nodeResTotal = [] then []
      else case disbalancePremises Q blocked blockedFP clusterAvail nodeAvail nodeRes nodeLabels of
          None \<Rightarrow> []
        | Some (short, stranded) \<Rightarrow>
            let cores = installedCoresByNode nodeAvail nodeResTotal;
                byNode = by_node (score Q short stranded nodeResTotal nodeAvail cores placed tolerance) placed
            in if byNode = [] then []
               else smallest_plan (\<lambda>node. node_plan Q short (map fst (sort_slice scored_before (mget [] byNode node)))) []
                      (sort_slice (<) (keys byNode)))"

subsection \<open>The pass\<close>

record evict_env =
  ev_ListRunning :: "Experiment list option"
  ev_LatestNode :: "string \<Rightarrow> string option option"
  ev_Evict :: "string \<Rightarrow> bool"

datatype evict_error = ListRunningFailed | AttributionFailed string

definition may_evict :: "int \<Rightarrow> (string, pendingEviction) gomap \<Rightarrow> int \<Rightarrow> Experiment \<Rightarrow> string \<Rightarrow> Experiment \<Rightarrow> bool" where
  "may_evict ttl pending now blocked cluster e \<longleftrightarrow>
     ex_ClusterName e = cluster \<and> ex_ID e \<noteq> ex_ID blocked \<and> \<not> isPendingEviction ttl pending (ex_ID e) now
     \<and> \<not> (ex_CapacityTier blocked = CapacityBurst \<and> ex_CapacityTier e \<noteq> CapacityBurst)"

fun place_running :: "evict_env \<Rightarrow> (Experiment \<Rightarrow> bool) \<Rightarrow> Experiment list \<Rightarrow> evict_error + placedExperiment list" where
  "place_running env may [] = Inr []"
| "place_running env may (e # es) =
     (if \<not> may e then place_running env may es
      else case ev_LatestNode env (ex_ID e) of
          None \<Rightarrow> Inl (AttributionFailed (ex_ID e))
        | Some None \<Rightarrow> place_running env may es
        | Some (Some node) \<Rightarrow>
            (case place_running env may es of
               Inl err \<Rightarrow> Inl err
             | Inr ps \<Rightarrow> Inr (\<lparr>px_experiment = e, px_node = node\<rparr> # ps)))"

text \<open>The victims the evictor took, and the pending evictions after them.\<close>

definition evict_one :: "quantity_lib \<Rightarrow> evict_env \<Rightarrow> string \<Rightarrow> capmap \<Rightarrow> int \<Rightarrow> disbalanceVictim
    \<Rightarrow> string list \<times> (string, pendingEviction) gomap \<Rightarrow> string list \<times> (string, pendingEviction) gomap" where
  "evict_one Q env cluster nodeAvail now victim st =
     (case st of (evicted, pending) \<Rightarrow>
        let e = dv_experiment victim
        in if \<not> ev_Evict env (ex_ID e) then st
           else
             let t = AcceleratorKey (ex_AcceleratorType e)
             in (evicted @ [ex_ID e],
                 mput (ex_ID e)
                   \<lparr>pv_cluster = cluster, pv_node = dv_node victim, pv_footprint = exp_Footprint Q e, pv_acceleratorType = t,
                    pv_acceleratorCount = ex_AcceleratorCount e, pv_evictedAt = now,
                    pv_nodeFreeAtEviction = geti (mget [] nodeAvail (dv_node victim)) t\<rparr> pending))"

text \<open>The running jobs that are evicted for the blocked one.\<close>

definition disbalance_victims :: "quantity_lib \<Rightarrow> evict_env \<Rightarrow> int \<Rightarrow> rat \<Rightarrow> int \<Rightarrow> (string, pendingEviction) gomap \<Rightarrow> Experiment \<Rightarrow> string
    \<Rightarrow> Footprint \<Rightarrow> Footprint \<Rightarrow> capmap \<Rightarrow> capmap \<Rightarrow> capmap \<Rightarrow> labelmap \<Rightarrow> Footprint \<Rightarrow> evict_error + disbalanceVictim list" where
  "disbalance_victims Q env ttl tolerance now pending blocked cluster avail clusterTotal nodeResTotal nodeAvail nodeRes nodeLabels blockedFP =
     (if clusterTotal = [] \<or> nodeResTotal = [] then Inr []
      else if \<not> disbalancePremisesHold Q blocked blockedFP avail nodeAvail nodeRes nodeLabels then Inr []
      else case ev_ListRunning env of
          None \<Rightarrow> Inl ListRunningFailed
        | Some running \<Rightarrow>
            (case place_running env (may_evict ttl pending now blocked cluster) running of
               Inl err \<Rightarrow> Inl err
             | Inr placed \<Rightarrow>
                 Inr (selectDisbalanceVictims Q blocked blockedFP avail clusterTotal nodeResTotal nodeAvail nodeRes nodeLabels placed tolerance)))"

definition evictDisbalanced :: "quantity_lib \<Rightarrow> evict_env \<Rightarrow> int \<Rightarrow> rat \<Rightarrow> int \<Rightarrow> (string, pendingEviction) gomap \<Rightarrow> Experiment \<Rightarrow> string
    \<Rightarrow> Footprint \<Rightarrow> Footprint \<Rightarrow> capmap \<Rightarrow> capmap \<Rightarrow> capmap \<Rightarrow> labelmap \<Rightarrow> Footprint
    \<Rightarrow> evict_error option \<times> string list \<times> (string, pendingEviction) gomap" where
  "evictDisbalanced Q env ttl tolerance now pending blocked cluster avail clusterTotal nodeResTotal nodeAvail nodeRes nodeLabels blockedFP =
     (case disbalance_victims Q env ttl tolerance now pending blocked cluster avail clusterTotal nodeResTotal nodeAvail nodeRes nodeLabels blockedFP of
        Inl err \<Rightarrow> (Some err, [], pending)
      | Inr victims \<Rightarrow> (None, fold (evict_one Q env cluster nodeAvail now) victims ([], pending)))"

end
