(* ===== verification/Endings.thy ===== *)
theory Endings
  imports Watcher
begin

text \<open>
  Ending a job from outside and paying for it: CancelExperiment and EvictExperiment
  (service/scheduler/service_cancel.go), what a settlement writes, and the reconciler that settles what no other path did
  (service/settlement/settlement.go).  The store is the \<open>world\<close> of theory Watcher.  The metrics store, which is no part of a
  transaction, is the map of the accelerator hours written for each job, an observation of the hours a job ran and
  whether a write succeeds.
\<close>

subsection \<open>Settlement\<close>

type_synonym usage = "(string, rat) gomap"

record metrics_env =
  me_ObservedElapsedHours :: "string \<Rightarrow> rat option"
  me_writes :: "string \<Rightarrow> bool"

definition endedInInfrastructureFault :: "job_row \<Rightarrow> bool" where
  "endedInInfrastructureFault x \<longleftrightarrow> jr_Status x = StatusEvicted \<and> IsInfrastructureFault (coalesce (jr_EvictionReason x))"

text \<open>The hours a job is billed for; \<open>None\<close> where the observation fails.\<close>

definition billed_hours :: "metrics_env \<Rightarrow> job_row \<Rightarrow> rat option" where
  "billed_hours env x =
     (if ex_EstimatedDurationHours (jr_job x) > 0 \<and> \<not> endedInInfrastructureFault x
      then me_ObservedElapsedHours env (ex_ID (jr_job x)) else Some 0)"

text \<open>\<open>False\<close> is an error.  The one dimension is accelerator hours; where nothing was reserved on it, nothing is written.\<close>

definition Settle :: "metrics_env \<Rightarrow> job_row \<Rightarrow> usage \<Rightarrow> bool \<times> usage" where
  "Settle env x u =
     (if ex_PlatformExperimentID (jr_job x) = [] then (True, u)
      else case billed_hours env x of
             None \<Rightarrow> (False, u)
           | Some hours \<Rightarrow>
               if \<not> me_writes env (ex_ID (jr_job x)) then (False, u)
               else (True, if ex_EstimatedCostAccH (jr_job x) \<le> 0 then u
                           else mput (ex_ID (jr_job x)) (RatedCost (jr_job x) (ex_EstimatedCostAccH (jr_job x)) hours) u))"

text \<open>The settlement of a job this process ended: the mark follows only a settlement that succeeded.\<close>

definition settle :: "metrics_env \<Rightarrow> int \<Rightarrow> job_row \<Rightarrow> usage \<times> world \<Rightarrow> usage \<times> world" where
  "settle env now x = (\<lambda>(u, w).
     case Settle env x u of
       (False, u) \<Rightarrow> (u, w)
     | (True, u) \<Rightarrow> (u, snd (store_call (MarkQuotaSettled now (ex_ID (jr_job x))) w)))"

subsection \<open>The reconciler\<close>

definition unsettled :: "job_row \<Rightarrow> bool" where
  "unsettled r \<longleftrightarrow> Ended (jr_Status r) \<and> jr_Status r \<noteq> StatusCancelled \<and> jr_QuotaSettledAt r = None"

definition ListUnsettledTerminalExperiments :: "job_db \<Rightarrow> job_row list \<times> job_db" where
  "ListUnsettledTerminalExperiments db =
     (sort_slice (\<lambda>a b. jr_UpdatedAt a < jr_UpdatedAt b) (filter unsettled (map snd (db_rows db))), db)"

definition reconcileOnce :: "metrics_env \<Rightarrow> int \<Rightarrow> usage \<times> world \<Rightarrow> usage \<times> world" where
  "reconcileOnce env now = (\<lambda>(u, w).
     case store_call ListUnsettledTerminalExperiments w of
       (None, w) \<Rightarrow> (u, w)
     | (Some xs, w) \<Rightarrow> fold (settle env now) xs (u, w))"

subsection \<open>Cancelling\<close>

definition GetExperiment :: "string \<Rightarrow> job_db \<Rightarrow> job_row option \<times> job_db" where
  "GetExperiment i db = (map_of (db_rows db) i, db)"

datatype cancel_result = Cancelled | NotFound | InvalidTransition ExperimentStatus | CancelFailed | StatusKeptChanging

definition cancelMaxAttempts :: nat where "cancelMaxAttempts = 5"

text \<open>The attempts left; \<open>maxInfra\<close> is the store's allowance of free requeues.  Trigger wakes the loop.\<close>

fun cancel_attempts :: "nat \<Rightarrow> int \<Rightarrow> metrics_env \<Rightarrow> int \<Rightarrow> string \<Rightarrow> usage \<times> world \<Rightarrow> cancel_result \<times> usage \<times> world" where
  "cancel_attempts 0 maxInfra env now i (u, w) = (StatusKeptChanging, u, w)"
| "cancel_attempts (Suc n) maxInfra env now i (u, w) =
     (case store_call (GetExperiment i) w of
        (None, w) \<Rightarrow> (CancelFailed, u, w)
      | (Some None, w) \<Rightarrow> (NotFound, u, w)
      | (Some (Some x), w) \<Rightarrow>
          if \<not> cancels (jr_Status x)
          then (InvalidTransition (AnsweredStatus (jr_Status x) (coalesce (jr_EvictionReason x))), u, w)
          else
            let ran = (jr_Status x = StatusRunning); ended = (if ran then StatusEvicted else StatusRejected)
            in (case store_call (ResolveTermination maxInfra now i (jr_Status x) ended EvictionCancelled) w of
                  (None, w) \<Rightarrow> (CancelFailed, u, w)
                | (Some TerminationWritten, w) \<Rightarrow>
                    (Cancelled, settle env now (x\<lparr>jr_Status := ended\<rparr>) (u, if ran then wakeAdmission w else w))
                | (Some _, w) \<Rightarrow> cancel_attempts n maxInfra env now i (u, w)))"

definition CancelExperiment :: "int \<Rightarrow> metrics_env \<Rightarrow> int \<Rightarrow> string \<Rightarrow> usage \<times> world \<Rightarrow> cancel_result \<times> usage \<times> world" where
  "CancelExperiment = cancel_attempts cancelMaxAttempts"

datatype evict_result = EvictDone | EvictNotFound | EvictFailed

definition EvictExperiment :: "int \<Rightarrow> metrics_env \<Rightarrow> int \<Rightarrow> string \<Rightarrow> string \<Rightarrow> usage \<times> world \<Rightarrow> evict_result \<times> usage \<times> world" where
  "EvictExperiment maxInfra env now i reason = (\<lambda>(u, w).
     case store_call (GetExperiment i) w of
       (None, w) \<Rightarrow> (EvictFailed, u, w)
     | (Some None, w) \<Rightarrow> (EvictNotFound, u, w)
     | (Some (Some x), w) \<Rightarrow>
         if jr_Status x \<noteq> StatusRunning then (EvictDone, u, w)
         else (case store_call (ResolveTermination maxInfra now i (jr_Status x) StatusEvicted reason) w of
                 (None, w) \<Rightarrow> (EvictFailed, u, w)
               | (Some TerminationWritten, w) \<Rightarrow>
                   (EvictDone, settle env now (x\<lparr>jr_Status := StatusEvicted, jr_EvictionReason := Some reason\<rparr>) (u, w))
               | (Some _, w) \<Rightarrow> (EvictDone, u, w)))"

end
