(* ===== verification/Priority.thy ===== *)
theory Priority
  imports Endings
begin

text \<open>
  The priority of queued jobs (scheduler/service_priority.go): a job whose hypothesis nothing else tests and that costs little of its agent's
  budget goes first among equals.  The store is the \<open>world\<close> of theory Watcher, and the quota service an argument, \<open>None\<close> where
  it fails.  Scores are rationals where Go has float64.
\<close>

record SchedulingWeights =
  W1Novelty :: rat
  W3CostEfficiency :: rat

definition excludeExperiment :: "job_row list \<Rightarrow> string \<Rightarrow> job_row list" where
  "excludeExperiment exps i = filter (\<lambda>x. ex_ID (jr_job x) \<noteq> i) exps"

definition novelty :: "string \<Rightarrow> job_row list \<Rightarrow> rat" where
  "novelty hypothesisID active = 1 / (1 + of_nat (length (filter (\<lambda>x. jr_HypothesisID x = hypothesisID) active)))"

definition priority :: "SchedulingWeights \<Rightarrow> Experiment \<Rightarrow> rat \<Rightarrow> AgentQuota option \<Rightarrow> rat" where
  "priority weights e nov aq =
     (let costFraction = (case aq of None \<Rightarrow> 0 | Some q \<Rightarrow> aq_DominantCostFraction q e)
      in W1Novelty weights * nov + W3CostEfficiency weights * (1 / (1 + costFraction)))"

type_synonym quota_service = "string \<Rightarrow> string \<Rightarrow> AgentQuota option option"

definition agentQuota :: "quota_service \<Rightarrow> Experiment \<Rightarrow> AgentQuota option option" where
  "agentQuota get e = (if ex_PlatformExperimentID e = [] then Some None else get (ex_AgentID e) (ex_PlatformExperimentID e))"

definition computePriority :: "SchedulingWeights \<Rightarrow> quota_service \<Rightarrow> Experiment \<Rightarrow> rat \<Rightarrow> rat option" where
  "computePriority weights get e nov = map_option (priority weights e nov) (agentQuota get e)"

definition GetRunningAndQueued :: "string \<Rightarrow> job_db \<Rightarrow> job_row list \<times> job_db" where
  "GetRunningAndQueued p db =
     (filter (\<lambda>r. ex_PlatformExperimentID (jr_job r) = p \<and> \<not> Ended (jr_Status r)) (map snd (db_rows db)), db)"

text \<open>The active jobs of a platform experiment and the quota of an agent are read once in a pass; \<open>None\<close> is a read that failed.\<close>

definition read_active :: "string \<Rightarrow> (string, job_row list) gomap \<Rightarrow> world \<Rightarrow> job_row list option \<times> (string, job_row list) gomap \<times> world" where
  "read_active p active w =
     (case map_of active p of
        Some exps \<Rightarrow> (Some exps, active, w)
      | None \<Rightarrow>
          (case store_call (GetRunningAndQueued p) w of
             (None, w) \<Rightarrow> (None, active, w)
           | (Some exps, w) \<Rightarrow> (Some exps, mput p exps active, w)))"

definition read_quota :: "quota_service \<Rightarrow> Experiment \<Rightarrow> (string, AgentQuota option) gomap
    \<Rightarrow> AgentQuota option option \<times> (string, AgentQuota option) gomap" where
  "read_quota get e quotas =
     (let key = quotaKey (ex_AgentID e) (ex_PlatformExperimentID e)
      in case map_of quotas key of
           Some aq \<Rightarrow> (Some aq, quotas)
         | None \<Rightarrow> (case agentQuota get e of None \<Rightarrow> (None, quotas) | Some aq \<Rightarrow> (Some aq, mput key aq quotas)))"

definition store_score :: "string \<Rightarrow> rat \<Rightarrow> rat \<Rightarrow> world \<Rightarrow> world" where
  "store_score i old score w = (if score = old then w else snd (store_call (UpdateExperimentPriority i score) w))"

fun reprioritize_all :: "SchedulingWeights \<Rightarrow> quota_service \<Rightarrow> (string, job_row list) gomap \<Rightarrow> (string, AgentQuota option) gomap
    \<Rightarrow> job_row list \<Rightarrow> world \<Rightarrow> world" where
  "reprioritize_all weights get active quotas [] w = w"
| "reprioritize_all weights get active quotas (x # xs) w =
     (let e = jr_job x
      in case read_active (ex_PlatformExperimentID e) active w of
           (None, active, w) \<Rightarrow> reprioritize_all weights get active quotas xs w
         | (Some exps, active, w) \<Rightarrow>
             let nov = novelty (jr_HypothesisID x) (excludeExperiment exps (ex_ID e))
             in (case read_quota get e quotas of
                   (None, quotas) \<Rightarrow> reprioritize_all weights get active quotas xs w
                 | (Some aq, quotas) \<Rightarrow>
                     reprioritize_all weights get active quotas xs
                       (store_score (ex_ID e) (ex_PriorityScore e) (priority weights e nov aq) w)))"

text \<open>\<open>False\<close> is the error of a queue that could not be read; a job that fails keeps the priority it has.\<close>

definition RePrioritize :: "SchedulingWeights \<Rightarrow> quota_service \<Rightarrow> world \<Rightarrow> bool \<times> world" where
  "RePrioritize weights get w =
     (case store_call (list_with_status StatusQueued) w of
        (None, w) \<Rightarrow> (False, w)
      | (Some queued, w) \<Rightarrow> (True, reprioritize_all weights get [] [] queued w))"

end
