(* ===== verification/Tick.thy ===== *)
theory Tick
  imports Waits Preempt Disbalance Priority
begin

text \<open>
  One tick of the scheduler's loop (scheduler/loop_tick.go, loop_tick_guaranteed.go, loop_tick_burst.go): what it reads, the jobs it may place,
  the guaranteed pass with its bets and preemptions, the burst pass, and the notices at its end.  The state of the tick is
  the record \<open>tickState\<close>; with it stand the loop's pending evictions, the usage written to the metrics store and the
  \<open>world\<close> of theory Watcher, in which other processes write between any two store calls.  What the cluster reports, the metrics
  store and the other services answer is the record \<open>tick_env\<close>, \<open>None\<close> where a read fails; an answer that a tick asks
  for again for another job may be another.  \<open>ts_history\<close> records what was decided for each job; nothing reads it.
\<close>

subsection \<open>State\<close>

datatype job_error =
    StageUnread
  | StageMissing
  | CutUnread
  | MarkFailed
  | QuotaUnread
  | Unresolved resolve_error
  | SpeculationUnread spec_error
  | RunningUnread
  | ClaimedUnread
  | PreemptPartly int int
  | DisbalanceFailed evict_error

datatype tick_error = JobError string job_error | HeldUnmarked | TickUnread | QueuedUnread | ReprioritizeFailed

datatype tick_event =
    Admitted CapacityTier string string Footprint \<comment> \<open>the pass, the job, the cluster and the footprint claimed there\<close>
  | Bet string string int
  | Marked string wait_reason
  | Requeued string string "string list" \<comment> \<open>for which job, on which cluster, the victims of the plan\<close>
  | Balanced string string
  | Kept string Footprint \<comment> \<open>what is kept free on a cluster from the jobs after a waiting one\<close>

record tickState =
  ts_clusters :: tickClusters
  ts_cache :: resolutionCache
  ts_gAvail :: "(string, Footprint) gomap"
  ts_bAvail :: "(string, Footprint) gomap"
  ts_desiredFree :: "(string, Footprint) gomap"
  ts_gAvailInitial :: "(string, Footprint) gomap"
  ts_bAvailInitial :: "(string, Footprint) gomap"
  ts_nodeResAtTickStart :: "(string, capmap) gomap"
  ts_totalCapacity :: "(string, Footprint) gomap"
  ts_autoscalerEnabled :: "string list"
  ts_connected :: "string list"
  ts_speculativeFootprint :: "(string, int) gomap"
  ts_completion :: "(string, rat) gomap"
  ts_disbalanceRan :: "string list"
  ts_held :: "string list"
  ts_errs :: "tick_error list"
  ts_said :: "(string, string) gomap" \<comment> \<open>the not_admitted_reason each queued row was read with\<close>
  ts_pending :: "(string, pendingEviction) gomap"
  ts_usage :: usage
  ts_world :: world
  ts_history :: "tick_event list"

record tick_env =
  te_start :: int
  te_clock :: "string \<Rightarrow> int" \<comment> \<open>the time at which the tick acts on a job\<close>
  te_say :: "wait_reason \<Rightarrow> string"
  te_explain :: "disbalanceVictim \<Rightarrow> string"
  te_capacity :: "((string, Footprint) gomap \<times> (string, Footprint) gomap) option"
  te_nodeAvail :: "(string, capmap) gomap option"
  te_nodeRes :: "(string, capmap) gomap option"
  te_nodeLabels :: "(string, labelmap) gomap option"
  te_multiNode :: "string list option"
  te_autoscaler :: "string list option"
  te_clusterIDs :: "(string, string) gomap option"
  te_totalCapacity :: "(string, Footprint) gomap option"
  te_nodeTotals :: "(string, capmap) gomap option"
  te_resolve :: resolve_env
  te_speculation :: speculation_env
  te_observed :: "string \<Rightarrow> preempt_env" \<comment> \<open>the metrics store as it answers for a preempting job\<close>
  te_LatestNode :: "string \<Rightarrow> string \<Rightarrow> string option option" \<comment> \<open>for a blocked job, the node of a running one\<close>
  te_metrics :: "string \<Rightarrow> metrics_env"
  te_submit :: "string \<Rightarrow> submit_view"
  te_GetAgentQuota :: "CapacityTier \<Rightarrow> string \<Rightarrow> string \<Rightarrow> AgentQuota option option"
  te_CurrentMaxJobHours :: "string \<Rightarrow> rat option option" \<comment> \<open>of the stage of a platform experiment\<close>

definition skipExperiment :: "string \<Rightarrow> job_error \<Rightarrow> tickState \<Rightarrow> tickState" where
  "skipExperiment i err t = t\<lparr>ts_errs := ts_errs t @ [JobError i err]\<rparr>"

definition note_event :: "tick_event \<Rightarrow> tickState \<Rightarrow> tickState" where
  "note_event ev t = t\<lparr>ts_history := ts_history t @ [ev]\<rparr>"

text \<open>The reason is written, or the failure to write it recorded: the same four lines wherever a job is turned away.\<close>

definition mark :: "tick_env \<Rightarrow> string \<Rightarrow> wait_reason \<Rightarrow> tickState \<Rightarrow> tickState" where
  "mark env i r t =
     (case markNotAdmitted (te_say env) i (map_of (ts_said t) i) r (ts_world t) of
        (ok, w) \<Rightarrow>
          let t = t\<lparr>ts_world := w\<rparr> in if ok then note_event (Marked i r) t else skipExperiment i MarkFailed t)"

text \<open>A call of the store on the world of the tick.\<close>

definition ask :: "(job_db \<Rightarrow> 'a \<times> job_db) \<Rightarrow> tickState \<Rightarrow> 'a option \<times> tickState" where
  "ask f t = (case store_call f (ts_world t) of (v, w) \<Rightarrow> (v, t\<lparr>ts_world := w\<rparr>))"

subsection \<open>Reading\<close>

definition or_empty :: "'a list option \<Rightarrow> 'a list" where
  "or_empty x = (case x of None \<Rightarrow> [] | Some xs \<Rightarrow> xs)"

text \<open>The rows of a table are in the order they were created.\<close>

definition ListQueuedExperiments :: "job_db \<Rightarrow> job_row list \<times> job_db" where
  "ListQueuedExperiments db =
     (sort_slice (\<lambda>a b. case (ex_QueuedAt (jr_job a), ex_QueuedAt (jr_job b)) of
          (Some s, Some t) \<Rightarrow> s < t | (Some _, None) \<Rightarrow> True | _ \<Rightarrow> False)
        (filter (\<lambda>r. jr_Status r = StatusQueued) (map snd (db_rows db))), db)"

text \<open>The accelerators of the SUBMITTED jobs of each cluster that scales up.\<close>

definition speculative_footprint :: "string list \<Rightarrow> job_row list \<Rightarrow> (string, int) gomap" where
  "speculative_footprint autoscalerEnabled submitted =
     fold (\<lambda>s m. if ex_ClusterName (jr_job s) \<in> set autoscalerEnabled
                  then madd (ex_ClusterName (jr_job s)) (ex_AcceleratorCount (jr_job s)) m else m) submitted []"

definition readSpeculation :: "tick_env \<Rightarrow> world \<Rightarrow> (string list \<times> (string, string) gomap \<times> (string, int) gomap) option \<times> world" where
  "readSpeculation env w =
     (case (te_autoscaler env, te_clusterIDs env) of
        (Some autoscalerEnabled, Some clusterIDs) \<Rightarrow>
          (case store_call (list_with_status StatusSubmitted) w of
             (None, w) \<Rightarrow> (None, w)
           | (Some submitted, w) \<Rightarrow> (Some (autoscalerEnabled, clusterIDs, speculative_footprint autoscalerEnabled submitted), w))
      | _ \<Rightarrow> (None, w))"

text \<open>Installed capacity is evidence for evictions alone: a read of it that fails leaves it unknown.\<close>

definition readTickState :: "tick_env \<Rightarrow> (string, pendingEviction) gomap \<Rightarrow> usage \<Rightarrow> world \<Rightarrow> tickState option \<times> world" where
  "readTickState env pending u w =
     (case (te_capacity env, te_nodeAvail env, te_nodeRes env, te_nodeLabels env, te_multiNode env) of
        (Some (gAvail, desiredFree), Some nodeAvail, Some nodeRes, Some nodeLabels, Some multiNode) \<Rightarrow>
          (case store_call (\<lambda>db. (db_clusters db, db)) w of
             (None, w) \<Rightarrow> (None, w)
           | (Some registered, w) \<Rightarrow>
               (case store_call (\<lambda>db. (db_limits db, db)) w of
                  (None, w) \<Rightarrow> (None, w)
                | (Some limits, w) \<Rightarrow>
                    (case readSpeculation env w of
                       (None, w) \<Rightarrow> (None, w)
                     | (Some (autoscalerEnabled, clusterIDs, footprint), w) \<Rightarrow>
                         let totals = or_empty (te_totalCapacity env); nodeTotals = or_empty (te_nodeTotals env)
                         in (Some \<lparr>ts_clusters = \<lparr>tk_start = te_start env, tk_registered = registered, tk_multiNode = multiNode,
                                tk_clusterIDs = clusterIDs, tk_nodeLabels = nodeLabels,
                                tk_whenIdle = \<lparr>in_registered = registered, in_totals = totals, in_nodeTotals = nodeTotals,
                                   in_scalesUp = autoscalerEnabled, in_multiNode = multiNode, in_nodeLabels = nodeLabels, in_limits = limits\<rparr>,
                                tk_nodeAvail = nodeAvail, tk_nodeRes = nodeRes, tk_nodeResTotal = nodeTotals, tk_nodeAvailAtTickStart = []\<rparr>,
                              ts_cache = newResolutionCache, ts_gAvail = gAvail, ts_bAvail = CloneAvail gAvail, ts_desiredFree = desiredFree,
                              ts_gAvailInitial = [], ts_bAvailInitial = [], ts_nodeResAtTickStart = [], ts_totalCapacity = totals,
                              ts_autoscalerEnabled = autoscalerEnabled, ts_connected = keys gAvail, ts_speculativeFootprint = footprint,
                              ts_completion = [], ts_disbalanceRan = [], ts_held = [], ts_errs = [], ts_said = [], ts_pending = pending,
                              ts_usage = u, ts_world = w, ts_history = []\<rparr>, w))))
      | _ \<Rightarrow> (None, w))"

text \<open>The credit of evictions that are not reported back yet, into every view of the tick.\<close>

definition credit_pending :: "Loop \<Rightarrow> tickState \<Rightarrow> tickState" where
  "credit_pending l t =
     (let c = ts_clusters t
      in case applyPendingEvictions (tk_start c) (lp_evictionTTL l) (ts_pending t)
                \<lparr>tc_gAvail = ts_gAvail t, tc_bAvail = ts_bAvail t, tc_nodeAvail = tk_nodeAvail c, tc_nodeRes = tk_nodeRes c\<rparr> of
           (pending, cap) \<Rightarrow>
             t\<lparr>ts_pending := pending, ts_gAvail := tc_gAvail cap, ts_bAvail := tc_bAvail cap,
               ts_clusters := c\<lparr>tk_nodeAvail := tc_nodeAvail cap, tk_nodeRes := tc_nodeRes cap\<rparr>\<rparr>)"

definition snapshotTickStart :: "tickState \<Rightarrow> tickState" where
  "snapshotTickStart t =
     t\<lparr>ts_clusters := (ts_clusters t)\<lparr>tk_nodeAvailAtTickStart := tk_nodeAvail (ts_clusters t)\<rparr>,
       ts_nodeResAtTickStart := tk_nodeRes (ts_clusters t),
       ts_gAvailInitial := CloneAvail (ts_gAvail t), ts_bAvailInitial := CloneAvail (ts_bAvail t)\<rparr>"

subsection \<open>The jobs a tick may place\<close>

text \<open>A read that is made once for each key and kept.\<close>

definition job_hours_limit :: "tick_env \<Rightarrow> string \<Rightarrow> (string, rat) gomap \<Rightarrow> job_error + rat \<times> (string, rat) gomap" where
  "job_hours_limit env p seen =
     (case map_of seen p of
        Some limit \<Rightarrow> Inr (limit, seen)
      | None \<Rightarrow>
          (case te_CurrentMaxJobHours env p of
             None \<Rightarrow> Inl StageUnread
           | Some None \<Rightarrow> Inl StageMissing
           | Some (Some limit) \<Rightarrow> Inr (limit, mput p limit seen)))"

definition agent_cut :: "Experiment \<Rightarrow> (string, bool) gomap \<Rightarrow> tickState \<Rightarrow> bool option \<times> (string, bool) gomap \<times> tickState" where
  "agent_cut e cuts t =
     (let key = quotaKey (ex_AgentID e) (ex_PlatformExperimentID e)
      in case map_of cuts key of
           Some is_cut \<Rightarrow> (Some is_cut, cuts, t)
         | None \<Rightarrow>
             (case ask (\<lambda>db. ((ex_PlatformExperimentID e, ex_AgentID e) \<in> set (db_cuts db), db)) t of
                (None, t) \<Rightarrow> (None, cuts, t)
              | (Some is_cut, t) \<Rightarrow> (Some is_cut, mput key is_cut cuts, t)))"

fun admissible :: "tick_env \<Rightarrow> (string, rat) gomap \<Rightarrow> (string, bool) gomap \<Rightarrow> Experiment list \<Rightarrow> tickState \<Rightarrow> Experiment list \<times> tickState" where
  "admissible env seen cuts [] t = ([], t)"
| "admissible env seen cuts (e # es) t =
     (if ex_PlatformExperimentID e = [] then
        (case admissible env seen cuts es t of (kept, t) \<Rightarrow> (e # kept, t))
      else case job_hours_limit env (ex_PlatformExperimentID e) seen of
        Inl err \<Rightarrow> admissible env seen cuts es (skipExperiment (ex_ID e) err t)
      | Inr (limit, seen) \<Rightarrow>
          if limit > 0 \<and> ex_EstimatedDurationHours e > limit
          then admissible env seen cuts es (mark env (ex_ID e) (JobTooLong (ex_EstimatedDurationHours e) limit) t)
          else (case agent_cut e cuts t of
                  (None, cuts, t) \<Rightarrow> admissible env seen cuts es (skipExperiment (ex_ID e) CutUnread t)
                | (Some True, cuts, t) \<Rightarrow> admissible env seen cuts es (mark env (ex_ID e) StageCutWait t)
                | (Some False, cuts, t) \<Rightarrow> (case admissible env seen cuts es t of (kept, t) \<Rightarrow> (e # kept, t))))"

text \<open>The quotas of a pass, by agent and platform experiment; a job whose quota cannot be read or is not found is skipped.\<close>

fun fetchQuotaMap :: "(string \<Rightarrow> string \<Rightarrow> AgentQuota option option) \<Rightarrow> quota_map \<Rightarrow> string list \<Rightarrow> Experiment list \<Rightarrow> tickState
    \<Rightarrow> Experiment list \<times> quota_map \<times> tickState" where
  "fetchQuotaMap get result failed [] t = ([], result, t)"
| "fetchQuotaMap get result failed (e # es) t =
     (if ex_PlatformExperimentID e = [] then
        (case fetchQuotaMap get result failed es t of (kept, quotas, t) \<Rightarrow> (e # kept, quotas, t))
      else
        let key = quotaKey (ex_AgentID e) (ex_PlatformExperimentID e);
            (result, failed) =
              (if map_of result key \<noteq> None \<or> key \<in> set failed then (result, failed)
               else case get (ex_AgentID e) (ex_PlatformExperimentID e) of
                      Some (Some aq) \<Rightarrow> (mput key aq result, failed)
                    | _ \<Rightarrow> (result, key # failed))
        in if key \<in> set failed then fetchQuotaMap get result failed es (skipExperiment (ex_ID e) QuotaUnread t)
           else (case fetchQuotaMap get result failed es t of (kept, quotas, t) \<Rightarrow> (e # kept, quotas, t)))"

definition quota_of :: "quota_map \<Rightarrow> Experiment \<Rightarrow> AgentQuota option" where
  "quota_of quotas e = map_of quotas (quotaKey (ex_AgentID e) (ex_PlatformExperimentID e))"

subsection \<open>Placing and admitting\<close>

text \<open>The fuel is one more than the clusters, which \<open>place_loop\<close> never uses up; \<open>None\<close> is a job that is out of this tick.\<close>

definition place_queued :: "Loop \<Rightarrow> tick_env \<Rightarrow> (string, Footprint) gomap \<Rightarrow> AgentQuota option \<Rightarrow> Experiment \<Rightarrow> tickState
    \<Rightarrow> (queuedPlacement \<times> Experiment) option \<times> tickState" where
  "place_queued l env avail quota e t =
     (case placeQueued (length avail + 1) (lp_Q l) (lp_rates l) (te_resolve env) (lp_triedClusterTTL l) (ts_clusters t) quota avail e (ts_cache t) of
        None \<Rightarrow> (None, t)
      | Some (Refused r, _, ca) \<Rightarrow> (None, mark env (ex_ID e) (Ineligible r) (t\<lparr>ts_cache := ca\<rparr>))
      | Some (ResolveFailed err, _, ca) \<Rightarrow> (None, skipExperiment (ex_ID e) (Unresolved err) (t\<lparr>ts_cache := ca\<rparr>))
      | Some (PlacedAt placed, e', ca) \<Rightarrow> (Some (placed, e'), t\<lparr>ts_cache := ca\<rparr>))"

definition sub_view :: "string \<Rightarrow> Footprint \<Rightarrow> (string, Footprint) gomap \<Rightarrow> (string, Footprint) gomap" where
  "sub_view cluster fp view = (case SubtractFootprint (map_of view cluster) fp of None \<Rightarrow> view | Some f \<Rightarrow> mput cluster f view)"

text \<open>The views of free capacity an admission claims from: the guaranteed pass all three, the burst pass its own.\<close>

definition claim_views :: "CapacityTier \<Rightarrow> string \<Rightarrow> Footprint \<Rightarrow> tickState \<Rightarrow> tickState" where
  "claim_views tier cluster fp t =
     (if tier = CapacityGuaranteed
      then t\<lparr>ts_gAvail := sub_view cluster fp (ts_gAvail t), ts_bAvail := sub_view cluster fp (ts_bAvail t),
             ts_desiredFree := sub_view cluster fp (ts_desiredFree t)\<rparr>
      else t\<lparr>ts_bAvail := sub_view cluster fp (ts_bAvail t)\<rparr>)"

definition put_cluster :: "string \<Rightarrow> capmap \<Rightarrow> (string, capmap) gomap \<Rightarrow> (string, capmap) gomap" where
  "put_cluster cluster caps m = (if map_of m cluster = None then m else mput cluster caps m)"

definition claim_nodes :: "Loop \<Rightarrow> string \<Rightarrow> Experiment \<Rightarrow> tickState \<Rightarrow> tickState" where
  "claim_nodes l cluster e t =
     (let c = ts_clusters t
      in case Reserve (lp_Q l) (mget [] (tk_nodeAvail c) cluster) (mget [] (tk_nodeRes c) cluster) (mget [] (tk_nodeLabels c) cluster) e of
           (_, nodeAvail, nodeRes) \<Rightarrow>
             t\<lparr>ts_clusters := c\<lparr>tk_nodeAvail := put_cluster cluster nodeAvail (tk_nodeAvail c),
                                tk_nodeRes := put_cluster cluster nodeRes (tk_nodeRes c)\<rparr>\<rparr>)"

definition submit_to :: "Loop \<Rightarrow> tick_env \<Rightarrow> Experiment \<Rightarrow> string \<Rightarrow> string \<Rightarrow> AcceleratorType \<Rightarrow> bool \<Rightarrow> bool \<Rightarrow> tickState
    \<Rightarrow> submit_error option \<times> Experiment \<times> tickState" where
  "submit_to l env e cluster clusterID persisted speculative provenFit t =
     (case submitJobTo l (te_submit env (ex_ID e)) (te_clock env (ex_ID e)) e cluster clusterID persisted speculative provenFit (ts_world t) of
        (err, e, w) \<Rightarrow> (err, e, t\<lparr>ts_world := w\<rparr>))"

definition admit :: "Loop \<Rightarrow> tick_env \<Rightarrow> CapacityTier \<Rightarrow> Experiment \<Rightarrow> string \<Rightarrow> AcceleratorType \<Rightarrow> Footprint \<Rightarrow> tickState \<Rightarrow> tickState" where
  "admit l env tier e cluster persisted fp t =
     (case submit_to l env e cluster [] persisted False False t of
        (Some err, _, t) \<Rightarrow> mark env (ex_ID e) (notAdmittedReasonForSubmitError err) t
      | (None, e', t) \<Rightarrow> note_event (Admitted tier (ex_ID e) cluster fp) (claim_nodes l cluster e' (claim_views tier cluster fp t)))"

subsection \<open>Bets\<close>

text \<open>The clusters a guaranteed job may be bet on, and the job at the type the bet is made at.\<close>

definition bets_for :: "Loop \<Rightarrow> tick_env \<Rightarrow> queuedPlacement \<Rightarrow> bool \<Rightarrow> Experiment \<Rightarrow> tickState
    \<Rightarrow> (string list \<times> (string, bool) gomap \<times> Experiment) option \<times> tickState" where
  "bets_for l env placed liveFits e t =
     (let c = ts_clusters t; cluster = qp_cluster placed
      in if liveFits \<and> \<not> scalesAbove cluster e (ts_autoscalerEnabled t) (ts_connected t) (tk_registered c) then (Some ([], [], e), t)
         else
           let bet = (if liveFits then e\<lparr>ex_AcceleratorType := qp_betAcceleratorType placed\<rparr> else e)
           in case speculativeCandidates (lp_Q l) (te_resolve env) (te_speculation env) (lp_triedClusterTTL l)
                     \<lparr>sp_autoscalerEnabled = ts_autoscalerEnabled t, sp_connected = ts_connected t, sp_clusters = c,
                      sp_footprint = ts_speculativeFootprint t, sp_desiredFree = ts_gAvail t\<rparr>
                     (te_clock env (ex_ID e)) bet (ts_cache t) of
                (Inl err, ca) \<Rightarrow> (None, skipExperiment (ex_ID e) (SpeculationUnread err) (t\<lparr>ts_cache := ca\<rparr>))
              | (Inr (bets, proven), ca) \<Rightarrow>
                  let bets = (if liveFits then above bets cluster (tk_registered c) (ex_OrgID e) else bets)
                  in (Some (bets, proven, if liveFits \<and> bets = [] then e else bet), t\<lparr>ts_cache := ca\<rparr>))"

text \<open>The job as the target of the bet takes it, held to the place its scale-up goes to.\<close>

definition resolve_bet :: "Loop \<Rightarrow> tick_env \<Rightarrow> string \<Rightarrow> string \<Rightarrow> Experiment \<Rightarrow> tickState \<Rightarrow> Experiment option \<times> tickState" where
  "resolve_bet l env cluster specCluster e t =
     (let c = ts_clusters t
      in if specCluster = cluster then (Some e, t)
         else case resolveClusterLocalResources (lp_Q l) (te_resolve env) (ts_cache t) e specCluster (mget [] (tk_nodeResTotal c) specCluster)
                     (mget [] (tk_nodeAvailAtTickStart c) specCluster) (mget [] (tk_nodeRes c) specCluster) (mget [] (tk_nodeLabels c) specCluster) of
                (Inl err, ca) \<Rightarrow> (None, skipExperiment (ex_ID e) (Unresolved err) (t\<lparr>ts_cache := ca\<rparr>))
              | (Inr (Inl m), ca) \<Rightarrow> (None, mark env (ex_ID e) (Misfits [m]) (t\<lparr>ts_cache := ca\<rparr>))
              | (Inr (Inr job), ca) \<Rightarrow> (Some (e\<lparr>ex_ResolvedJob := Some job\<rparr>), t\<lparr>ts_cache := ca\<rparr>))"

definition hold_to_place :: "labelmap \<Rightarrow> Experiment \<Rightarrow> Experiment" where
  "hold_to_place labelsByNode e =
     (case ScaleUpPlace labelsByNode e of
        None \<Rightarrow> e
      | Some place \<Rightarrow>
          if place = [] then e
          else let job = EffectiveJob e
               in e\<lparr>ex_ResolvedJob := Some (job\<lparr>js_NodeSelector := fold (\<lambda>(k, v). mput k v) place (js_NodeSelector job)\<rparr>)\<rparr>)"

definition submitSpeculative :: "Loop \<Rightarrow> tick_env \<Rightarrow> Experiment \<Rightarrow> string \<Rightarrow> string \<Rightarrow> AcceleratorType \<Rightarrow> bool \<Rightarrow> tickState \<Rightarrow> tickState" where
  "submitSpeculative l env e cluster specCluster persisted provenFit t =
     (case resolve_bet l env cluster specCluster e t of
        (None, t) \<Rightarrow> t
      | (Some e, t) \<Rightarrow>
          let c = ts_clusters t; e = hold_to_place (mget [] (tk_nodeLabels c) specCluster) e
          in (case submit_to l env e specCluster (gets (tk_clusterIDs c) specCluster) persisted True provenFit t of
                (Some err, _, t) \<Rightarrow> mark env (ex_ID e) (notAdmittedReasonForSubmitError err) t
              | (None, _, t) \<Rightarrow>
                  note_event (Bet (ex_ID e) specCluster (ex_AcceleratorCount e))
                    (t\<lparr>ts_speculativeFootprint := madd specCluster (ex_AcceleratorCount e) (ts_speculativeFootprint t)\<rparr>)))"

subsection \<open>Making room\<close>

text \<open>The running jobs are read once and again after a preemption; \<open>ps_vacating\<close> has, by cluster, the slots being left that no job was promised.\<close>

record preemptionState =
  ps_running :: "job_row list option"
  ps_vacating :: "(string, capmap) gomap"

definition load_running :: "string \<Rightarrow> preemptionState \<Rightarrow> tickState \<Rightarrow> job_row list option \<times> preemptionState \<times> tickState" where
  "load_running i p t =
     (case ps_running p of
        Some running \<Rightarrow> (Some running, p, t)
      | None \<Rightarrow>
          (case ask (list_with_status StatusRunning) t of
             (None, t) \<Rightarrow> (None, p, skipExperiment i RunningUnread t)
           | (Some running, t) \<Rightarrow> (Some running, p\<lparr>ps_running := Some running\<rparr>, t)))"

definition load_claimed :: "tick_env \<Rightarrow> string \<Rightarrow> tickState \<Rightarrow> Experiment list option \<times> tickState" where
  "load_claimed env i t =
     (case loadClaimed (te_resolve env) (ts_cache t) of
        (None, ca) \<Rightarrow> (None, skipExperiment i ClaimedUnread (t\<lparr>ts_cache := ca\<rparr>))
      | (Some claimed, ca) \<Rightarrow> (Some claimed, t\<lparr>ts_cache := ca\<rparr>))"

text \<open>Whether the slots being left take the job, and which they are: they are promised to it.\<close>

definition promise_slots :: "Loop \<Rightarrow> tick_env \<Rightarrow> string \<Rightarrow> Experiment \<Rightarrow> preemptionState \<Rightarrow> tickState
    \<Rightarrow> (bool \<times> string list) option \<times> preemptionState \<times> tickState" where
  "promise_slots l env cluster e p t =
     (let c = ts_clusters t; sizes = mget [] (tk_nodeResTotal c) cluster; labelsByNode = mget [] (tk_nodeLabels c) cluster;
          promise = (\<lambda>vacating t.
            case SlotsFor (lp_Q l) e cluster sizes vacating labelsByNode of
              Inr (nodes, True) \<Rightarrow>
                (Some (True, map (\<lambda>node. gets (mget [] labelsByNode node) NodeSlotLabel) nodes),
                 p\<lparr>ps_vacating := mput cluster (fold mdel nodes vacating) (ps_vacating p)\<rparr>, t)
            | _ \<Rightarrow> (Some (False, []), p\<lparr>ps_vacating := mput cluster vacating (ps_vacating p)\<rparr>, t))
      in if \<not> HasSlots labelsByNode then (Some (False, []), p, t)
         else case map_of (ps_vacating p) cluster of
                Some vacating \<Rightarrow> promise vacating t
              | None \<Rightarrow>
                  (case load_claimed env (ex_ID e) t of
                     (None, t) \<Rightarrow> (None, p, t)
                   | (Some claimed, t) \<Rightarrow>
                       promise (VacatingSlots cluster sizes (mget [] (ts_nodeResAtTickStart t) cluster) labelsByNode claimed) t))"

text \<open>The requeue of a victim: its stint is settled once its row is queued again.\<close>

definition requeue_victim :: "tick_env \<Rightarrow> string \<Rightarrow> job_row list \<Rightarrow> Experiment \<Rightarrow> nat \<times> tickState \<Rightarrow> nat \<times> tickState" where
  "requeue_victim env i running victim = (\<lambda>(n, t).
     case (ObservedStintElapsedHours (te_observed env i) (ex_ID victim), find (\<lambda>x. jr_job x = victim) running) of
       (Some stint, Some x) \<Rightarrow>
         (case rescale victim stint of
            (remaining, cost) \<Rightarrow>
              (case ask (store_RequeuePreempted (te_clock env i) (ex_ID victim) remaining cost) t of
                 (Some True, t) \<Rightarrow> (n + 1, t\<lparr>ts_usage := snd (Settle (te_metrics env i) x (ts_usage t))\<rparr>)
               | (_, t) \<Rightarrow> (n, t)))
     | _ \<Rightarrow> (n, t))"

definition preempt_on :: "Loop \<Rightarrow> tick_env \<Rightarrow> string \<Rightarrow> job_row list \<Rightarrow> Experiment \<Rightarrow> tickState \<Rightarrow> preempt_result \<times> tickState" where
  "preempt_on l env cluster running e t =
     (let c = ts_clusters t
      in case preempt_plan (lp_Q l) (te_observed env (ex_ID e)) cluster (mget [] (ts_gAvail t) cluster) (mget [] (tk_nodeAvail c) cluster)
                (mget [] (tk_nodeRes c) cluster) (mget [] (tk_nodeResTotal c) cluster) (mget [] (tk_nodeLabels c) cluster)
                (filterTierCluster (map jr_job running) CapacityBurst cluster) e of
           None \<Rightarrow> (NotCommitted, t)
         | Some selected \<Rightarrow>
             (case fold (requeue_victim env (ex_ID e) running) selected (0, t) of
                (n, t) \<Rightarrow> (preempt_outcome n selected, note_event (Requeued (ex_ID e) cluster (map ex_ID selected)) t)))"

text \<open>The eviction of a victim through the one path that ends a running job; a victim that was evicted is pending.\<close>

definition evict_victim :: "Loop \<Rightarrow> tick_env \<Rightarrow> string \<Rightarrow> string \<Rightarrow> capmap \<Rightarrow> disbalanceVictim \<Rightarrow> tickState \<Rightarrow> tickState" where
  "evict_victim l env i cluster nodeAvail victim t =
     (case EvictExperiment (lp_maxInfraRequeues l) (te_metrics env i) (te_clock env i) (ex_ID (dv_experiment victim))
             (WithDetail EvictionResourceDisbalance (te_explain env victim)) (ts_usage t, ts_world t) of
        (res, u, w) \<Rightarrow>
          t\<lparr>ts_usage := u, ts_world := w,
            ts_pending := snd (evict_one (lp_Q l) \<lparr>ev_ListRunning = None, ev_LatestNode = (\<lambda>_. None), ev_Evict = (\<lambda>_. res = EvictDone)\<rparr>
                                 cluster nodeAvail (te_clock env i) victim ([], ts_pending t))\<rparr>)"

definition disbalance_on :: "Loop \<Rightarrow> tick_env \<Rightarrow> string \<Rightarrow> (string, Footprint) gomap \<Rightarrow> Footprint \<Rightarrow> Experiment \<Rightarrow> tickState
    \<Rightarrow> evict_error option \<times> tickState" where
  "disbalance_on l env cluster views fp e t =
     (let c = ts_clusters t; avail = mget [] views cluster; total = mget [] (ts_totalCapacity t) cluster;
          nodeAvail = mget [] (tk_nodeAvail c) cluster; nodeRes = mget [] (tk_nodeRes c) cluster;
          nodeTotals = mget [] (tk_nodeResTotal c) cluster; labelsByNode = mget [] (tk_nodeLabels c) cluster
      in if total = [] \<or> nodeTotals = [] \<or> \<not> disbalancePremisesHold (lp_Q l) e fp avail nodeAvail nodeRes labelsByNode then (None, t)
         else case ask (list_with_status StatusRunning) t of
                (None, t) \<Rightarrow> (Some ListRunningFailed, t)
              | (Some running, t) \<Rightarrow>
                  (case disbalance_victims (lp_Q l)
                          \<lparr>ev_ListRunning = Some (map jr_job running), ev_LatestNode = te_LatestNode env (ex_ID e), ev_Evict = (\<lambda>_. False)\<rparr>
                          (lp_evictionTTL l) (lp_disbalanceTolerance l) (te_clock env (ex_ID e)) (ts_pending t) e cluster avail total nodeTotals
                          nodeAvail nodeRes labelsByNode fp of
                     Inl err \<Rightarrow> (Some err, t)
                   | Inr victims \<Rightarrow> (None, fold (evict_victim l env (ex_ID e) cluster nodeAvail) victims t)))"

text \<open>The pass runs at most once for a cluster in a tick.\<close>

definition disbalance_once :: "Loop \<Rightarrow> tick_env \<Rightarrow> string \<Rightarrow> (string, Footprint) gomap \<Rightarrow> Footprint \<Rightarrow> Experiment \<Rightarrow> tickState \<Rightarrow> tickState" where
  "disbalance_once l env cluster views fp e t =
     (if cluster \<in> set (ts_disbalanceRan t) then t
      else case disbalance_on l env cluster views fp e
                  (note_event (Balanced (ex_ID e) cluster) (t\<lparr>ts_disbalanceRan := cluster # ts_disbalanceRan t\<rparr>)) of
             (None, t) \<Rightarrow> t
           | (Some err, t) \<Rightarrow> skipExperiment (ex_ID e) (DisbalanceFailed err) t)"

text \<open>Room kept for the job from the jobs after it, in the views of its pass.\<close>

definition hold_room :: "Loop \<Rightarrow> CapacityTier \<Rightarrow> string \<Rightarrow> Footprint \<Rightarrow> Experiment \<Rightarrow> tickState \<Rightarrow> tickState" where
  "hold_room l tier cluster fp e t =
     (case holdRoom (lp_Q l) (lp_heldJobNotice l) e cluster fp (ts_clusters t) (ts_held t)
             (if tier = CapacityGuaranteed then [ts_gAvail t, ts_bAvail t] else [ts_bAvail t]) of
        (held, views) \<Rightarrow>
          if held = ts_held t then t
          else note_event (Kept cluster fp)
                 (case views of [g, b] \<Rightarrow> t\<lparr>ts_held := held, ts_gAvail := g, ts_bAvail := b\<rparr>
                  | [b] \<Rightarrow> t\<lparr>ts_held := held, ts_bAvail := b\<rparr> | _ \<Rightarrow> t))"

text \<open>The reasons that hold before a shortage is looked at, in the order of the code.\<close>

definition standing_reason :: "Loop \<Rightarrow> string \<Rightarrow> misfit list \<Rightarrow> Experiment \<Rightarrow> tickState \<Rightarrow> wait_reason option" where
  "standing_reason l cluster misfits e t =
     (let c = ts_clusters t; labelsByNode = mget [] (tk_nodeLabels c) cluster
      in if misfits \<noteq> [] then Some (Misfits misfits)
         else case neverFitsReason (lp_Q l) (lp_rates l) (lp_cpuCoreSharedRate l) (tk_whenIdle c) e of
                Some r \<Rightarrow> Some (NeverFits r)
              | None \<Rightarrow>
                  (case slotWaitReason (lp_Q l) e cluster (mget [] (tk_nodeResTotal c) cluster) (mget [] (ts_nodeResAtTickStart t) cluster) labelsByNode of
                     Some r \<Rightarrow> Some r
                   | None \<Rightarrow>
                       (case noNodeOfArchitectureReason e cluster labelsByNode of
                          Some r \<Rightarrow> Some r
                        | None \<Rightarrow> apartReason (lp_Q l) e cluster (mget [] (tk_nodeAvail c) cluster) (mget [] (tk_nodeRes c) cluster) labelsByNode)))"

definition fit_at_start :: "Loop \<Rightarrow> (string, Footprint) gomap \<Rightarrow> string \<Rightarrow> Footprint \<Rightarrow> Experiment \<Rightarrow> tickState \<Rightarrow> bool" where
  "fit_at_start l start cluster fp e t \<longleftrightarrow>
     Fits (mget [] start cluster) fp
     \<and> TopologyFits (lp_Q l) (mget [] (tk_nodeAvailAtTickStart (ts_clusters t)) cluster) (mget [] (ts_nodeResAtTickStart t) cluster)
         (mget [] (tk_nodeLabels (ts_clusters t)) cluster) e"

text \<open>A job that waits for a shortage alone: the reason, and the room held for it.\<close>

definition wait_short :: "Loop \<Rightarrow> tick_env \<Rightarrow> CapacityTier \<Rightarrow> bool \<Rightarrow> bool \<Rightarrow> bool \<Rightarrow> Footprint \<Rightarrow> string \<Rightarrow> Footprint \<Rightarrow> Experiment \<Rightarrow> tickState \<Rightarrow> tickState" where
  "wait_short l env tier fitAtStart covers freed missing cluster fp e t =
     (case load_claimed env (ex_ID e) t of
        (None, t) \<Rightarrow> t
      | (Some claimed, t) \<Rightarrow>
          mark env (ex_ID e)
            (notAdmittedReasonFor fitAtStart covers freed missing cluster (holdersOf (lp_Q l) claimed cluster missing e))
            (hold_room l tier cluster fp e t))"

definition keep_from_burst :: "string \<Rightarrow> Footprint \<Rightarrow> tickState \<Rightarrow> tickState" where
  "keep_from_burst cluster fp t = note_event (Kept cluster fp) (t\<lparr>ts_bAvail := sub_view cluster fp (ts_bAvail t)\<rparr>)"

text \<open>What follows the decision about the shortage: the capacity that is promised is kept, the other eviction is tried, and the job waits.\<close>

definition after_preempt :: "Loop \<Rightarrow> tick_env \<Rightarrow> string \<Rightarrow> Footprint \<Rightarrow> Experiment \<Rightarrow> bool \<Rightarrow> bool \<Rightarrow> preempt_result \<Rightarrow> tickState \<Rightarrow> tickState" where
  "after_preempt l env cluster fp e slots promised result t =
     (let t = (case result of Partly n planned \<Rightarrow> skipExperiment (ex_ID e) (PreemptPartly n planned) t | _ \<Rightarrow> t);
          t = (if \<not> slots \<and> (promised \<or> result = Committed) then keep_from_burst cluster fp t else t);
          t = (if promised then t\<lparr>ts_desiredFree := sub_view cluster fp (ts_desiredFree t)\<rparr> else t)
      in if result = NotCommitted \<and> \<not> promised then disbalance_once l env cluster (ts_gAvail t) fp e t else t)"

definition guaranteed_wait :: "Loop \<Rightarrow> tick_env \<Rightarrow> queuedPlacement \<Rightarrow> Experiment \<Rightarrow> string list \<Rightarrow> bool \<Rightarrow> bool \<Rightarrow> bool \<Rightarrow> Footprint \<Rightarrow> tickState \<Rightarrow> tickState" where
  "guaranteed_wait l env placed e leaving waitingForScaleUp covers promised missing t =
     (let c = ts_clusters t; cluster = qp_cluster placed
      in if leaving \<noteq> [] then mark env (ex_ID e) (WaitingForSlots cluster leaving) t
         else if waitingForScaleUp then mark env (ex_ID e) (WaitingForScaleUp cluster) t
         else if allSpeculativeCandidatesTried e (ts_autoscalerEnabled t) (ts_connected t) (tk_clusterIDs c) (tk_registered c)
                   (lp_triedClusterTTL l) (te_clock env (ex_ID e))
         then mark env (ex_ID e) NoScalableCapacity t
         else case standing_reason l cluster (qp_misfit placed) e t of
                Some r \<Rightarrow> mark env (ex_ID e) r t
              | None \<Rightarrow>
                  wait_short l env CapacityGuaranteed (fit_at_start l (ts_gAvailInitial t) cluster (qp_fp placed) e t) covers promised missing
                    cluster (qp_fp placed) e t)"

definition makeRoom :: "Loop \<Rightarrow> tick_env \<Rightarrow> Experiment \<Rightarrow> queuedPlacement \<Rightarrow> bool \<Rightarrow> preemptionState \<times> tickState \<Rightarrow> preemptionState \<times> tickState" where
  "makeRoom l env e placed scalarFits = (\<lambda>(p, t).
     let cluster = qp_cluster placed; fp = qp_fp placed; c = ts_clusters t;
         waitingForScaleUp = (cluster \<in> set (ts_autoscalerEnabled t) \<and> negativeInDimension (mget [] (ts_gAvail t) cluster) (ex_AcceleratorType e))
     in case load_running (ex_ID e) p t of
          (None, p, t) \<Rightarrow> (p, t)
        | (Some running, p, t) \<Rightarrow>
            let missing = PreemptionShortfall (lp_Q l) (mget [] (ts_gAvail t) cluster) (mget [] (tk_nodeAvail c) cluster)
                  (mget [] (tk_nodeRes c) cluster) (mget [] (tk_nodeLabels c) cluster) e fp;
                slots = HasSlots (mget [] (tk_nodeLabels c) cluster); covers = (scalarFits \<and> \<not> slots)
            in (case promise_slots l env cluster e p t of
                  (None, p, t) \<Rightarrow> (p, t)
                | (Some (slotsPromised, leaving), p, t) \<Rightarrow>
                    let promised = (slotsPromised \<or> \<not> slots \<and> \<not> scalarFits \<and> Fits (mget [] (ts_desiredFree t) cluster) fp)
                    in (case (if covers \<or> waitingForScaleUp \<or> promised then (NotCommitted, t) else preempt_on l env cluster running e t) of
                          (result, t) \<Rightarrow>
                            (if result = Committed then p\<lparr>ps_running := None\<rparr> else p,
                             guaranteed_wait l env placed e leaving waitingForScaleUp covers promised missing
                               (after_preempt l env cluster fp e slots promised result t)))))"

subsection \<open>The guaranteed pass\<close>

definition admitGuaranteed :: "Loop \<Rightarrow> tick_env \<Rightarrow> quota_map \<Rightarrow> Experiment \<Rightarrow> preemptionState \<times> tickState \<Rightarrow> preemptionState \<times> tickState" where
  "admitGuaranteed l env quotas e = (\<lambda>(p, t).
     case place_queued l env (ts_gAvail t) (quota_of quotas e) e t of
       (None, t) \<Rightarrow> (p, t)
     | (Some (placed, e'), t) \<Rightarrow>
         let c = ts_clusters t; cluster = qp_cluster placed; persisted = ex_AcceleratorType e;
             scalarFits = Fits (mget [] (ts_gAvail t) cluster) (qp_fp placed);
             liveFits = (scalarFits \<and> TopologyFits (lp_Q l) (mget [] (tk_nodeAvail c) cluster) (mget [] (tk_nodeRes c) cluster)
                           (mget [] (tk_nodeLabels c) cluster) e')
         in (case bets_for l env placed liveFits e' t of
               (None, t) \<Rightarrow> (p, t)
             | (Some (bets, proven, e'), t) \<Rightarrow>
                 (case bets of
                    bet # _ \<Rightarrow> (p, submitSpeculative l env e' cluster bet persisted (mget False proven bet) t)
                  | [] \<Rightarrow>
                      if \<not> liveFits then makeRoom l env e' placed scalarFits (p, t)
                      else (p, admit l env CapacityGuaranteed e' cluster persisted (qp_fp placed) t))))"

text \<open>\<open>interleaveByAgent\<close> always returns.\<close>

definition in_turn :: "Experiment list \<Rightarrow> Experiment list" where
  "in_turn exps = or_empty (interleaveByAgent exps)"

definition guaranteedPass :: "Loop \<Rightarrow> tick_env \<Rightarrow> Experiment list \<Rightarrow> tickState \<Rightarrow> tickState" where
  "guaranteedPass l env queued t =
     (case fetchQuotaMap (te_GetAgentQuota env CapacityGuaranteed) [] [] (filterTier queued CapacityGuaranteed) t of
        (guaranteed, quotas, t) \<Rightarrow>
          snd (fold (admitGuaranteed l env quotas)
                 (in_turn (sortGuaranteed guaranteed quotas (ts_completion t) (lp_guaranteedFairnessWindow l)))
                 (\<lparr>ps_running = None, ps_vacating = []\<rparr>, t)))"

subsection \<open>The burst pass\<close>

definition burstWait :: "Loop \<Rightarrow> tick_env \<Rightarrow> Experiment \<Rightarrow> queuedPlacement \<Rightarrow> tickState \<Rightarrow> tickState" where
  "burstWait l env e placed t =
     (let cluster = qp_cluster placed; fp = qp_fp placed; c = ts_clusters t;
          missing = PreemptionShortfall (lp_Q l) (mget [] (ts_bAvail t) cluster) (mget [] (tk_nodeAvail c) cluster)
            (mget [] (tk_nodeRes c) cluster) (mget [] (tk_nodeLabels c) cluster) e fp;
          fitAtStart = fit_at_start l (ts_bAvailInitial t) cluster fp e t;
          t = (if fitAtStart then t else disbalance_once l env cluster (ts_bAvail t) fp e t)
      in case standing_reason l cluster (qp_misfit placed) e t of
           Some r \<Rightarrow> mark env (ex_ID e) r t
         | None \<Rightarrow>
             let scalarFits = Fits (mget [] (ts_bAvail t) cluster) fp;
                 freed = (\<not> scalarFits \<and> \<not> HasSlots (mget [] (tk_nodeLabels c) cluster) \<and> Fits (mget [] (ts_desiredFree t) cluster) fp)
             in wait_short l env CapacityBurst fitAtStart scalarFits freed missing cluster fp e t)"

definition admitBurst :: "Loop \<Rightarrow> tick_env \<Rightarrow> quota_map \<Rightarrow> Experiment \<Rightarrow> tickState \<Rightarrow> tickState" where
  "admitBurst l env quotas e t =
     (case place_queued l env (ts_bAvail t) (quota_of quotas e) e t of
        (None, t) \<Rightarrow> t
      | (Some (placed, e'), t) \<Rightarrow>
          let c = ts_clusters t; cluster = qp_cluster placed
          in if Fits (mget [] (ts_bAvail t) cluster) (qp_fp placed)
                \<and> TopologyFits (lp_Q l) (mget [] (tk_nodeAvail c) cluster) (mget [] (tk_nodeRes c) cluster) (mget [] (tk_nodeLabels c) cluster) e'
             then admit l env CapacityBurst e' cluster (ex_AcceleratorType e) (qp_fp placed) t
             else burstWait l env e' placed t)"

definition burstPass :: "Loop \<Rightarrow> tick_env \<Rightarrow> Experiment list \<Rightarrow> tickState \<Rightarrow> tickState" where
  "burstPass l env queued t =
     (case fetchQuotaMap (te_GetAgentQuota env CapacityBurst) [] [] (filterTier queued CapacityBurst) t of
        (burst, quotas, t) \<Rightarrow> fold (admitBurst l env quotas) (in_turn (sortBurst burst quotas (ts_completion t))) t)"

subsection \<open>The tick\<close>

definition finishTick :: "Loop \<Rightarrow> tick_env \<Rightarrow> tickState \<Rightarrow> tickState" where
  "finishTick l env t =
     (case ask (\<lambda>db. ((), MarkHeldJobs (te_clock env []) (lp_heldJobNotice l) db)) t of
        (Some _, t) \<Rightarrow> t
      | (None, t) \<Rightarrow> t\<lparr>ts_errs := ts_errs t @ [HeldUnmarked]\<rparr>)"

text \<open>The two passes over the jobs that were read.\<close>

definition run_passes :: "Loop \<Rightarrow> tick_env \<Rightarrow> job_row list \<Rightarrow> tickState \<Rightarrow> tickState" where
  "run_passes l env rows t =
     (let queued = map jr_job rows;
          t = t\<lparr>ts_said := map (\<lambda>x. (ex_ID (jr_job x), coalesce (jr_NotAdmittedReason x))) rows,
                ts_completion := completionFractions (te_observed env []) queued\<rparr>
      in case admissible env [] [] queued t of
           (queued, t) \<Rightarrow> finishTick l env (burstPass l env queued (guaranteedPass l env queued t)))"

text \<open>
  The tick before its priorities are recomputed: \<open>Inl\<close> where what all jobs share could not be read.  What outlives it
  is the loop's pending evictions, the usage and the world.
\<close>

type_synonym loop_state = "(string, pendingEviction) gomap \<times> usage \<times> world"

definition tick_passes :: "Loop \<Rightarrow> tick_env \<Rightarrow> loop_state \<Rightarrow> tick_error \<times> loop_state + tickState" where
  "tick_passes l env = (\<lambda>(pending, u, w).
     case readTickState env pending u w of
       (None, w) \<Rightarrow> Inl (TickUnread, pending, u, w)
     | (Some t, w) \<Rightarrow>
         let t = snapshotTickStart (credit_pending l t)
         in (case ask ListQueuedExperiments t of
               (None, t) \<Rightarrow> Inl (QueuedUnread, ts_pending t, u, ts_world t)
             | (Some rows, t) \<Rightarrow> Inr (run_passes l env rows t)))"

definition tick :: "Loop \<Rightarrow> SchedulingWeights \<Rightarrow> quota_service \<Rightarrow> tick_env \<Rightarrow> loop_state \<Rightarrow> tick_error list \<times> loop_state" where
  "tick l weights get env st =
     (let (errs, pending, u, w) =
            (case tick_passes l env st of
               Inl (err, pending, u, w) \<Rightarrow> ([err], pending, u, w)
             | Inr t \<Rightarrow> (ts_errs t, ts_pending t, ts_usage t, ts_world t));
          (ok, w) = RePrioritize weights get w
      in (errs @ (if ok then [] else [ReprioritizeFailed]), pending, u, w))"

end
