(* ===== verification/Queue_Properties.thy ===== *)
theory Queue_Properties
  imports QueueOrder "HOL-Library.Sublist"
begin

text \<open>
  What the order of the queue promises: the sorts are stable permutations in the stated
  lexicographic order, and the round robin gives every agent its turn before anyone's next.
\<close>

subsection \<open>The agents and their jobs\<close>

abbreviation jobs_of :: "Experiment list \<Rightarrow> string \<Rightarrow> Experiment list" where
  "jobs_of exps a \<equiv> filter (\<lambda>e. ex_AgentID e = a) exps"

lemma by_agent_snoc:
  "by_agent (xs @ [e]) = (case by_agent xs of (byAgent, agentOrder) \<Rightarrow>
     (mput (ex_AgentID e) (mget [] byAgent (ex_AgentID e) @ [e]) byAgent,
      if ex_AgentID e \<in> set (keys byAgent) then agentOrder else agentOrder @ [ex_AgentID e]))"
  by (simp add: by_agent_def split: prod.splits)

lemma by_agent_keys: "set (keys (fst (by_agent xs))) = ex_AgentID ` set xs"
proof (induction xs rule: rev_induct)
  case Nil
  then show ?case by (simp add: by_agent_def)
next
  case (snoc e xs)
  then show ?case by (simp add: by_agent_snoc case_prod_beta)
qed

lemma by_agent_jobs: "mget [] (fst (by_agent xs)) a = jobs_of xs a"
proof (induction xs rule: rev_induct)
  case Nil
  then show ?case by (simp add: by_agent_def)
next
  case (snoc e xs)
  then show ?case by (auto simp: by_agent_snoc case_prod_beta)
qed

lemma by_agent_order: "distinct (snd (by_agent xs)) \<and> set (snd (by_agent xs)) = ex_AgentID ` set xs"
proof (induction xs rule: rev_induct)
  case Nil
  then show ?case by (simp add: by_agent_def)
next
  case (snoc e xs)
  then show ?case using by_agent_keys [of xs] by (auto simp: by_agent_snoc case_prod_beta)
qed

subsection \<open>The rounds\<close>

definition rotation :: "Experiment list \<Rightarrow> string list \<Rightarrow> nat \<Rightarrow> Experiment list" where
  "rotation exps agents n = map (\<lambda>a. jobs_of exps a ! n) (filter (\<lambda>a. n < length (jobs_of exps a)) agents)"

lemma agent_round_all:
  assumes "\<And>a. mget [] byAgent a = jobs_of exps a"
  shows "agent_round byAgent n (filter (\<lambda>a. n < length (jobs_of exps a)) as) =
    Some (rotation exps as n, filter (\<lambda>a. Suc n < length (jobs_of exps a)) as)"
  by (induction as) (auto simp: assms rotation_def Let_def)

lemma filter_rotation:
  assumes "distinct agents" and "a \<in> set agents"
  shows "filter (\<lambda>e. ex_AgentID e = a) (rotation exps agents n) =
    (if n < length (jobs_of exps a) then [jobs_of exps a ! n] else [])"
proof -
  have id: "ex_AgentID (jobs_of exps b ! n) = b" if "n < length (jobs_of exps b)" for b
    using nth_mem [OF that] by simp
  have "filter (\<lambda>e. ex_AgentID e = a) (rotation exps as n) =
    (if a \<in> set as \<and> n < length (jobs_of exps a) then [jobs_of exps a ! n] else [])" if "distinct as" for as
    using that
  proof (induction as)
    case (Cons b as)
    show ?case
    proof (cases "n < length (jobs_of exps b)")
      case True
      then have "rotation exps (b # as) n = jobs_of exps b ! n # rotation exps as n" by (simp add: rotation_def)
      with Cons True id [OF True] show ?thesis by (cases "b = a") simp_all
    next
      case False
      then have "rotation exps (b # as) n = rotation exps as n" by (simp add: rotation_def)
      with Cons False show ?thesis by (cases "b = a") simp_all
    qed
  qed (simp add: rotation_def)
  with assms show ?thesis by simp
qed

lemma filter_rotations:
  assumes "distinct agents" and "a \<in> set agents"
  shows "filter (\<lambda>e. ex_AgentID e = a) (concat (map (rotation exps agents) [0..<m])) = take m (jobs_of exps a)"
proof (induction m)
  case (Suc m)
  then show ?case
    by (simp add: filter_rotation [OF assms] take_Suc_conv_app_nth)
qed simp

lemma length_by_class:
  assumes "finite A" and "f ` set xs \<subseteq> A"
  shows "length xs = (\<Sum>a \<in> A. length (filter (\<lambda>x. f x = a) xs))"
  using assms(2)
proof (induction xs)
  case (Cons x xs)
  have "(\<Sum>a \<in> A. length (filter (\<lambda>x. f x = a) (x # xs))) =
      (\<Sum>a \<in> A. (if a = f x then 1 else 0) + length (filter (\<lambda>x. f x = a) xs))"
    by (rule sum.cong) auto
  also have "\<dots> = 1 + (\<Sum>a \<in> A. length (filter (\<lambda>x. f x = a) xs))"
    using Cons.prems assms(1) by (simp add: sum.distrib)
  finally show ?case using Cons by simp
qed simp

lemma rotation_agents: "ex_AgentID ` set (rotation exps agents n) \<subseteq> set agents"
proof
  fix x
  assume "x \<in> ex_AgentID ` set (rotation exps agents n)"
  then obtain a where a: "a \<in> set agents" "n < length (jobs_of exps a)" "x = ex_AgentID (jobs_of exps a ! n)"
    by (auto simp: rotation_def)
  then show "x \<in> set agents" using nth_mem [OF a(2)] by simp
qed

text \<open>As long as a job is missing from the rounds so far, some agent has one for this round.\<close>

lemma rounds_left:
  assumes "distinct agents" and "set agents = ex_AgentID ` set exps"
    and "\<forall>a \<in> set agents. length (jobs_of exps a) \<le> n"
  shows "length (concat (map (rotation exps agents) [0..<n])) = length exps"
proof -
  let ?out = "concat (map (rotation exps agents) [0..<n])"
  have "ex_AgentID ` set ?out \<subseteq> set agents" using rotation_agents by fastforce
  then have "length ?out = (\<Sum>a \<in> set agents. length (jobs_of ?out a))" by (intro length_by_class) simp_all
  also have "\<dots> = (\<Sum>a \<in> set agents. length (jobs_of exps a))"
    by (rule sum.cong) (simp_all add: filter_rotations [OF assms(1)] assms(3) [rule_format])
  also have "\<dots> = length exps" by (rule length_by_class [symmetric]) (simp_all add: assms(2))
  finally show ?thesis .
qed

lemma rounds_short:
  assumes "distinct agents" and "set agents = ex_AgentID ` set exps"
    and "length (concat (map (rotation exps agents) [0..<n])) \<ge> length exps" and "a \<in> set agents"
  shows "length (jobs_of exps a) \<le> n"
proof (rule ccontr)
  assume long: "\<not> length (jobs_of exps a) \<le> n"
  let ?out = "concat (map (rotation exps agents) [0..<n])"
  have "ex_AgentID ` set ?out \<subseteq> set agents" using rotation_agents by fastforce
  then have "length ?out = (\<Sum>b \<in> set agents. length (jobs_of ?out b))" by (intro length_by_class) simp_all
  also have "\<dots> < (\<Sum>b \<in> set agents. length (jobs_of exps b))"
    using assms(1,4) long
    by (intro sum_strict_mono_ex1) (auto simp: filter_rotations intro!: bexI [of _ a])
  also have "\<dots> = length exps" by (rule length_by_class [symmetric]) (simp_all add: assms(2))
  finally show False using assms(3) by simp
qed

lemma rounds_run:
  assumes "\<And>a. mget [] byAgent a = jobs_of exps a" and "distinct agents" and "set agents = ex_AgentID ` set exps"
  shows "n \<le> length (concat (map (rotation exps agents) [0..<n])) \<Longrightarrow> n \<le> length exps \<Longrightarrow>
    fuel = length exps + 1 - n \<Longrightarrow>
    \<exists>m. rounds fuel byAgent (length exps) n (filter (\<lambda>a. n < length (jobs_of exps a)) agents)
          (concat (map (rotation exps agents) [0..<n])) = Some (concat (map (rotation exps agents) [0..<m]))
        \<and> (\<forall>a \<in> set agents. length (jobs_of exps a) \<le> m)"
proof (induction fuel arbitrary: n)
  case (Suc fuel)
  let ?out = "\<lambda>n. concat (map (rotation exps agents) [0..<n])"
  show ?case
  proof (cases "length (?out n) < length exps")
    case False
    have "\<forall>a \<in> set agents. length (jobs_of exps a) \<le> n"
      using rounds_short [OF assms(2,3), of n] False by (simp only: not_less) blast
    with False show ?thesis by (intro exI [of _ n]) simp
  next
    case True
    then obtain a where a: "a \<in> set agents" "n < length (jobs_of exps a)"
      using rounds_left [OF assms(2,3), of n] by (metis less_irrefl not_less)
    then have "rotation exps agents n \<noteq> []" by (auto simp: rotation_def filter_empty_conv)
    then have len: "Suc n \<le> length (?out (Suc n))" using Suc.prems(1) by (cases "rotation exps agents n") simp_all
    have "\<exists>m. rounds fuel byAgent (length exps) (Suc n) (filter (\<lambda>a. Suc n < length (jobs_of exps a)) agents) (?out (Suc n))
          = Some (?out m) \<and> (\<forall>a \<in> set agents. length (jobs_of exps a) \<le> m)"
      using Suc.prems True by (intro Suc.IH len) simp_all
    with True show ?thesis by (simp add: agent_round_all [OF assms(1)])
  qed
qed simp

lemma interleaveByAgent_rotations:
  "\<exists>m. interleaveByAgent exps = Some (concat (map (rotation exps (snd (by_agent exps))) [0..<m]))
     \<and> (\<forall>a \<in> set (snd (by_agent exps)). length (jobs_of exps a) \<le> m)"
proof (cases "exps = []")
  case True
  then show ?thesis by (intro exI [of _ 0]) (simp add: interleaveByAgent_def by_agent_def)
next
  case False
  have ord: "distinct (snd (by_agent exps))" "set (snd (by_agent exps)) = ex_AgentID ` set exps"
    using by_agent_order by simp_all
  have "0 < length (jobs_of exps a)" if "a \<in> set (snd (by_agent exps))" for a
    using that ord(2) by (auto simp: filter_empty_conv)
  then have all: "filter (\<lambda>a. 0 < length (jobs_of exps a)) (snd (by_agent exps)) = snd (by_agent exps)"
    by (intro filter_True) simp
  show ?thesis
    using rounds_run [OF by_agent_jobs ord, of 0 "length exps + 1"] False all
    by (simp add: interleaveByAgent_def case_prod_beta)
qed

subsection \<open>Turns\<close>

lemma prefix_of_rounds:
  assumes "prefix p (concat (map f [0..<m]))"
  shows "p = concat (map f [0..<m]) \<or> (\<exists>r < m. \<exists>q. prefix q (f r) \<and> p = concat (map f [0..<r]) @ q)"
  using assms
proof (induction m)
  case (Suc m)
  then have "prefix p (concat (map f [0..<m]) @ f m)" by simp
  then consider "prefix p (concat (map f [0..<m]))" | q where "p = concat (map f [0..<m]) @ q" "prefix q (f m)"
    by (auto simp: prefix_append)
  then show ?case
  proof cases
    case 1
    from Suc.IH [OF this] show ?thesis
    proof
      assume "p = concat (map f [0..<m])"
      then show ?thesis by (intro disjI2 exI [of _ m]) simp
    next
      assume "\<exists>r < m. \<exists>q. prefix q (f r) \<and> p = concat (map f [0..<r]) @ q"
      then show ?thesis using less_SucI by blast
    qed
  next
    case 2
    then show ?thesis by blast
  qed
qed simp

lemma length_filter_prefix: "prefix q xs \<Longrightarrow> length (filter P q) \<le> length (filter P xs)"
  by (auto simp: prefix_def)

lemma rounds_fair:
  assumes "distinct agents" and "a \<in> set agents" and "b \<in> set agents"
    and "prefix p (concat (map (rotation exps agents) [0..<m]))" and "length (jobs_of exps b) \<le> m"
  shows "length (jobs_of p a) \<le> length (jobs_of p b) + 1 \<or> jobs_of p b = jobs_of exps b"
  using prefix_of_rounds [OF assms(4)]
proof
  assume "p = concat (map (rotation exps agents) [0..<m])"
  then show ?thesis using filter_rotations [OF assms(1,3), of exps m] assms(5) by simp
next
  assume "\<exists>r < m. \<exists>q. prefix q (rotation exps agents r) \<and> p = concat (map (rotation exps agents) [0..<r]) @ q"
  then obtain r q where q: "prefix q (rotation exps agents r)" "p = concat (map (rotation exps agents) [0..<r]) @ q" by blast
  have "length (jobs_of q a) \<le> 1"
    using length_filter_prefix [OF q(1), of "\<lambda>e. ex_AgentID e = a"] filter_rotation [OF assms(1,2), of exps r] by (simp split: if_splits)
  then have la: "length (jobs_of p a) \<le> r + 1" by (simp add: q(2) filter_rotations [OF assms(1,2)])
  show ?thesis
  proof (cases "r \<le> length (jobs_of exps b)")
    case True
    with la show ?thesis by (simp add: q(2) filter_rotations [OF assms(1,3)])
  next
    case False
    then have "jobs_of (rotation exps agents r) b = []" by (simp add: filter_rotation [OF assms(1,3)])
    then have "jobs_of q b = []" using length_filter_prefix [OF q(1), of "\<lambda>e. ex_AgentID e = b"] by simp
    with False show ?thesis by (simp add: q(2) filter_rotations [OF assms(1,3)])
  qed
qed

lemma mset_by_class:
  assumes "\<And>a. filter (\<lambda>x. f x = a) xs = filter (\<lambda>x. f x = a) ys"
  shows "mset xs = mset ys"
proof (rule multiset_eqI)
  fix x
  have "count (mset zs) x = count (mset (filter (\<lambda>y. f y = f x) zs)) x" for zs
    by simp
  then show "count (mset xs) x = count (mset ys) x" using assms [of "f x"] by metis
qed

subsection \<open>The properties\<close>

lemma interleaveByAgent_whole:
  "\<exists>out. interleaveByAgent exps = Some out \<and> mset out = mset exps
     \<and> (\<forall>a. jobs_of out a = jobs_of exps a)
     \<and> (\<forall>n a b. length (jobs_of (take n out) a) \<le> length (jobs_of (take n out) b) + 1
          \<or> jobs_of (take n out) b = jobs_of exps b)"
proof -
  let ?agents = "snd (by_agent exps)"
  obtain m where m: "interleaveByAgent exps = Some (concat (map (rotation exps ?agents) [0..<m]))"
    "\<forall>a \<in> set ?agents. length (jobs_of exps a) \<le> m"
    using interleaveByAgent_rotations by blast
  define out where "out = concat (map (rotation exps ?agents) [0..<m])"
  have ord: "distinct ?agents" "set ?agents = ex_AgentID ` set exps" using by_agent_order by simp_all
  have none: "jobs_of exps a = []" if "a \<notin> set ?agents" for a using that ord(2) by (auto simp: filter_empty_conv)
  have outa: "ex_AgentID ` set out \<subseteq> set ?agents" unfolding out_def using rotation_agents by fastforce
  have noneo: "jobs_of out a = []" if "a \<notin> set ?agents" for a using that outa by (auto simp: filter_empty_conv)
  have same: "jobs_of out a = jobs_of exps a" for a
  proof (cases "a \<in> set ?agents")
    case True
    then show ?thesis using m(2) by (simp add: out_def filter_rotations [OF ord(1)])
  next
    case False
    then show ?thesis by (simp add: none noneo)
  qed
  have fair: "length (jobs_of p a) \<le> length (jobs_of p b) + 1 \<or> jobs_of p b = jobs_of exps b" if p: "prefix p out" for p a b
  proof (cases "a \<in> set ?agents \<and> b \<in> set ?agents")
    case True
    then show ?thesis using rounds_fair [OF ord(1), of a b p exps m] p m(2) by (simp add: out_def)
  next
    case False
    have "jobs_of p c = []" if "c \<notin> set ?agents" for c
      using length_filter_prefix [OF p, of "\<lambda>e. ex_AgentID e = c"] noneo [OF that] by simp
    with False none show ?thesis by (cases "a \<in> set ?agents") auto
  qed
  show ?thesis
    using m(1) mset_by_class [OF same] same fair [OF take_is_prefix] unfolding out_def by blast
qed

text \<open>C32: interleaveByAgent always returns, with every job once, each agent's jobs in the order they came,
  and no agent more than one job ahead of another that still has jobs waiting: in every prefix of the result an
  agent has at most one job more than any other agent whose jobs are not all in the prefix already.\<close>

theorem interleaveByAgent_fair:
  "\<exists>out. interleaveByAgent exps = Some out \<and> mset out = mset exps
     \<and> (\<forall>a. jobs_of out a = jobs_of exps a)
     \<and> (\<forall>n a b. length (jobs_of (take n out) a) \<le> length (jobs_of (take n out) b) + 1
          \<or> jobs_of (take n out) b = jobs_of exps b)"
  by (rule interleaveByAgent_whole)

text \<open>sortGuaranteed gives the jobs it was given, each once, in the order of its five keys: jobs queued at a
  known time before the others, then by age bucket, then by how much of its guaranteed hours the agent has used, then
  closest to completion, then the smallest share of the agent's budget, then the highest score; jobs that
  tie on all of them keep the order they came in.\<close>

theorem sortGuaranteed_stable:
  "mset (sortGuaranteed exps quotaMap completion w) = mset exps
   \<and> sorted_wrt (\<lambda>a b. \<not> guaranteed_before quotaMap completion w b a) (sortGuaranteed exps quotaMap completion w)
   \<and> (\<forall>e. filter (\<lambda>x. \<not> guaranteed_before quotaMap completion w x e \<and> \<not> guaranteed_before quotaMap completion w e x)
            (sortGuaranteed exps quotaMap completion w)
        = filter (\<lambda>x. \<not> guaranteed_before quotaMap completion w x e \<and> \<not> guaranteed_before quotaMap completion w e x) exps)"
  unfolding sortGuaranteed_def
proof (intro conjI allI)
  show "sorted_wrt (\<lambda>a b. \<not> guaranteed_before quotaMap completion w b a) (sort_slice (guaranteed_before quotaMap completion w) exps)"
    by (rule guaranteed_order.sorted_sort_slice)
  show "filter (\<lambda>x. \<not> guaranteed_before quotaMap completion w x e \<and> \<not> guaranteed_before quotaMap completion w e x)
       (sort_slice (guaranteed_before quotaMap completion w) exps)
      = filter (\<lambda>x. \<not> guaranteed_before quotaMap completion w x e \<and> \<not> guaranteed_before quotaMap completion w e x) exps" for e
    by (rule guaranteed_order.sort_slice_stable) (blast dest: guaranteed_order.swo_incomp)
qed simp

text \<open>sortBurst is decided by the queue and not by the order the store returned it in: given the same jobs
  in two orders it gives the same result, provided no two of the jobs tie on every key.\<close>

theorem sortBurst_order_free:
  assumes "mset exps = mset exps'"
    and "\<And>a b. a \<in> set exps \<Longrightarrow> b \<in> set exps \<Longrightarrow> a \<noteq> b \<Longrightarrow>
      burst_before quotaMap completion a b \<or> burst_before quotaMap completion b a"
  shows "sortBurst exps quotaMap completion = sortBurst exps' quotaMap completion"
  unfolding sortBurst_def
  by (rule burst_order.sort_slice_unique [OF _ assms(1)]) (use assms(2) in blast)

theorem sortBurst_order_free_witness:
  "sortBurst [sample_exp, sample_exp\<lparr>ex_QueuedAt := None\<rparr>] [] [] = sortBurst [sample_exp\<lparr>ex_QueuedAt := None\<rparr>, sample_exp] [] []"
proof -
  have lt: "burst_before [] [] sample_exp (sample_exp\<lparr>ex_QueuedAt := None\<rparr>)" by code_simp
  show ?thesis by (rule sortBurst_order_free) (use lt in auto)
qed

text \<open>Remaining is never negative and never lets an agent reserve past its share or its tier: what it
  returns, added to what is used, stays within the tier's hours and within the share, as long as what was used
  did not pass them already.\<close>

theorem Remaining_within_budget:
  "0 \<le> Remaining q tier
   \<and> (Used q \<le> Share q \<and> aq_UsedGuaranteedAccH q \<le> aq_GuaranteedAcceleratorHours q \<and> aq_UsedBurstAccH q \<le> aq_BurstAcceleratorHours q
      \<longrightarrow> Used q + Remaining q tier \<le> Share q
        \<and> (tier = CapacityGuaranteed \<longrightarrow> aq_UsedGuaranteedAccH q + Remaining q tier \<le> aq_GuaranteedAcceleratorHours q)
        \<and> (tier \<noteq> CapacityGuaranteed \<longrightarrow> aq_UsedBurstAccH q + Remaining q tier \<le> aq_BurstAcceleratorHours q)
        \<and> (0 < Remaining q tier \<longrightarrow> Remaining q tier = Share q - Used q
            \<or> Remaining q tier = (if tier = CapacityGuaranteed then aq_GuaranteedAcceleratorHours q - aq_UsedGuaranteedAccH q
                 else aq_BurstAcceleratorHours q - aq_UsedBurstAccH q)))"
  by (auto simp: Remaining_def max_def min_def)

definition sample_quota :: AgentQuota where
  "sample_quota = \<lparr>aq_AgentID = ''a1'', aq_PlatformExperimentID = ''p1'', aq_GuaranteedAcceleratorHours = 10,
     aq_BurstAcceleratorHours = 20, aq_UsedGuaranteedAccH = 4, aq_UsedBurstAccH = 3\<rparr>"

theorem Remaining_within_budget_witness:
  "Remaining sample_quota CapacityGuaranteed = 3 \<and> Used sample_quota + Remaining sample_quota CapacityGuaranteed \<le> Share sample_quota"
proof -
  have "Used sample_quota \<le> Share sample_quota \<and> aq_UsedGuaranteedAccH sample_quota \<le> aq_GuaranteedAcceleratorHours sample_quota
      \<and> aq_UsedBurstAccH sample_quota \<le> aq_BurstAcceleratorHours sample_quota"
    by (simp add: sample_quota_def Used_def Share_def)
  with Remaining_within_budget [of sample_quota CapacityGuaranteed] show ?thesis
    by (simp add: Remaining_def Used_def Share_def sample_quota_def)
qed

end
