(* ===== verification/Slot_Properties.thy ===== *)
theory Slot_Properties
  imports Slots
begin

text \<open>
  What the choice of slots promises (placement/slots.go), and where it falls short of its
  own documentation.
\<close>

subsection \<open>Sample data\<close>

text \<open>Slots of one A100 with 4 cores, 8 of memory and 2 of storage each, or 8 cores for a large one.\<close>

definition sample_slot :: "string \<Rightarrow> labels" where
  "sample_slot name = [(NodeSlotLabel, name), (NodeSlotAcceleratorsLabel, ''1''), (''nvidia.com/gpu.product'', ''A100''),
     (NodeSlotNetworkLabel, ''8''), (NodeSlotNetworkWithinLabel, NodesWithinZone)]"

definition small_slot :: amounts where
  "small_slot = [(NodeResourceCPUMillicores, 4000), (NodeResourceMemoryBytes, 8), (NodeResourceStorageBytes, 2)]"

definition large_slot :: amounts where
  "large_slot = [(NodeResourceCPUMillicores, 8000), (NodeResourceMemoryBytes, 8), (NodeResourceStorageBytes, 2)]"

definition slot_labels :: labelmap where
  "slot_labels = [(''n1'', sample_slot ''s1''), (''n2'', sample_slot ''s2''), (''n3'', sample_slot ''s3'')]"

text \<open>One small slot and two large ones.\<close>

definition mixed_sizes :: capmap where
  "mixed_sizes = [(''n1'', small_slot), (''n2'', large_slot), (''n3'', large_slot)]"



lemma sample_roundtrip: "quantity_roundtrip sample_Q"
proof -
  have ne: "show_nat n \<noteq> []" for n by (subst show_nat.simps) simp
  have digits: "list_all is_digit (show_nat n)" for n by (simp add: list_all_iff show_nat_digits)
  have last: "last (show_nat n) \<noteq> CHR ''m''" for n
    using show_nat_digits [of "last (show_nat n)" n] ne [of n] by (auto simp: is_digit_def)
  have sign: "show_nat n \<noteq> ''-''" "show_nat n \<noteq> ''+''" for n
    using show_nat_digits [of _ n] by (auto simp: is_digit_def)
  have "\<exists>q. ParseQuantity sample_Q (show_nat (nat v) @ ''m'') = Inr q \<and> MilliValue q = v" if "0 < v" for v
    using that digits ne by (simp add: ParseQuantity_def sample_Q_def sample_parse_def Let_def digits_value_show_nat)
  moreover have "\<exists>q. ParseQuantity sample_Q (show_nat (nat v)) = Inr q \<and> Value q = v" if "0 < v" for v
    using that digits ne last sign
    by (simp add: ParseQuantity_def sample_Q_def sample_parse_def Let_def digits_value_show_nat)
  ultimately show ?thesis
    by (simp add: quantity_roundtrip_def sample_Q_def show_int_def)
qed

subsection \<open>The sample evaluated\<close>

lemma slot_facts:
  "SlotNetwork (sample_slot s) = 8" "SlotAccelerators (sample_slot s) = 1"
  unfolding sample_slot_def by code_simp+

lemma slot_shapes:
  "shapeOf (sample_slot s) small_slot = ''1/4000/8/2''" "shapeOf (sample_slot s) large_slot = ''1/8000/8/2''"
  unfolding shapeOf_def slot_facts by code_simp+

lemma slot_room:
  "NodeHasRoom (Some small_slot) small_slot" "NodeHasRoom (Some large_slot) large_slot"
  "geti small_slot NodeResourceCPUMillicores = 4000" "geti large_slot NodeResourceCPUMillicores = 8000"
  by code_simp+

lemma mixed_lookups:
  "mget [] mixed_sizes ''n1'' = small_slot" "mget [] mixed_sizes ''n2'' = large_slot" "mget [] mixed_sizes ''n3'' = large_slot"
  "map_of mixed_sizes ''n1'' = Some small_slot" "map_of mixed_sizes ''n2'' = Some large_slot" "map_of mixed_sizes ''n3'' = Some large_slot"
  "mget [] slot_labels ''n1'' = sample_slot ''s1''" "mget [] slot_labels ''n2'' = sample_slot ''s2''"
  "mget [] slot_labels ''n3'' = sample_slot ''s3''" "''n2'' < ''n3''"
  by (simp_all add: mget_def mixed_sizes_def slot_labels_def)

lemmas mixed_slots = slot_facts slot_shapes slot_room mixed_lookups

text \<open>What a group that both shapes take finds among the mixed slots.\<close>

definition takes_mixed :: "Experiment \<Rightarrow> JobGroup \<Rightarrow> bool" where
  "takes_mixed e grp = list_all (\<lambda>s. takes sample_Q e grp (sample_slot s) small_slot \<and> takes sample_Q e grp (sample_slot s) large_slot)
     [''s1'', ''s2'', ''s3'']"

lemma mixed_by_shape:
  assumes "takes_mixed e grp" and "one = None \<or> one = Some [''1/4000/8/2'', ''1/8000/8/2'']"
    and "geti (sf_onShape st) ''1/4000/8/2'' + jg_Replicas grp \<le> 8" and "geti (sf_onShape st) ''1/8000/8/2'' + jg_Replicas grp \<le> 8"
    and "set (sf_chosen st) \<subseteq> {''n1''}"
  shows "by_shape sample_Q e mixed_sizes mixed_sizes slot_labels networked one st grp =
    (if ''n1'' \<in> set (sf_chosen st) then []
     else [(''1/4000/8/2'', \<lparr>so_shape = ''1/4000/8/2'', so_size = small_slot, so_slots = [\<lparr>sl_node = ''n1'', sl_free = True\<rparr>], so_free = False\<rparr>)]) @
    [(''1/8000/8/2'', \<lparr>so_shape = ''1/8000/8/2'', so_size = large_slot,
        so_slots = [\<lparr>sl_node = ''n2'', sl_free = True\<rparr>, \<lparr>sl_node = ''n3'', sl_free = True\<rparr>], so_free = False\<rparr>)]"
proof -
  have "''n2'' \<notin> set (sf_chosen st)" "''n3'' \<notin> set (sf_chosen st)" using assms(5) by auto
  with assms(1-4) show ?thesis
    by (elim disjE; simp add: takes_mixed_def by_shape_def slot_labels_def mixed_slots mput_def Let_def)
qed


lemma two_takes: "list_all (takes_mixed sample_two) (NodeGroups (ex_Job sample_two))"
  by code_simp

lemma two_slots: "SlotsFor sample_Q sample_two ''c'' mixed_sizes mixed_sizes slot_labels = Inr ([''n2'', ''n3''], True)"
proof -
  let ?st = "\<lparr>sf_chosen = [], sf_onShape = [], sf_nodes = []\<rparr>"
  obtain grp where grp: "NodeGroups (ex_Job sample_two) = [grp]" "jg_Replicas grp = 2" "Nodes (ex_Job sample_two) = 2"
    by (simp add: NodeGroups_def Nodes_def sample_two_def sample_job_def)
  have "takes_mixed sample_two grp" using two_takes grp(1) by simp
  then have "choose_group sample_Q sample_two ''c'' mixed_sizes mixed_sizes slot_labels True None grp ?st
     = Inr \<lparr>sf_chosen = [''n2'', ''n3''], sf_onShape = [(''1/8000/8/2'', 2)], sf_nodes = [''n2'', ''n3'']\<rparr>"
    using grp(2) unfolding choose_group_def
    by (subst mixed_by_shape) (simp_all add: Let_def slot_before_def madd_def mput_def mget_def mixed_slots)
  moreover have "tooFar sample_two ''c'' slot_labels = None" by code_simp
  moreover have "geti [(''1/8000/8/2'', 2)] ''1/8000/8/2'' = 2" by (simp add: mget_def)
  ultimately show ?thesis by (simp add: SlotsFor_def slotsFor_def oneShape_def grp mixed_slots)
qed




subsection \<open>Properties\<close>

text \<open>the slots SlotsFor chooses are real ones. Each node of the job gets a slot of its own; the
  slots of one group all take a node of the group, carry its selector and architecture, and are of one
  shape; there are as many as the group has replicas; and when SlotsFor says they are free, every one
  of them has its whole size free.\<close>

theorem SlotsFor_sound:
  assumes "SlotsFor Q e cluster sizes free L = Inr (nodes, isFree)" and "wf_map L"
  shows "distinct nodes
     \<and> (\<exists>segs. nodes = concat segs \<and> list_all2 (group_slots Q e sizes L) (NodeGroups (ex_Job e)) segs)
     \<and> (isFree \<longrightarrow> (\<forall>node \<in> set nodes. NodeHasRoom (map_of free node) (mget [] sizes node)))"
proof -
  have s: "slotsFor Q e cluster sizes free L (Nodes (ex_Job e) > 1) = Inr (nodes, isFree)"
    using assms(1) by (simp add: SlotsFor_def)
  from slotsFor_Inr(1) [OF s assms(2)] obtain segs where
    "list_all2 (group_slots Q e sizes L) (NodeGroups (ex_Job e)) segs" "nodes = concat segs" "distinct nodes"
    by (elim exE conjE)
  with slotsFor_Inr(2) [OF s assms(2)] show ?thesis by (intro conjI exI [of _ segs] impI) auto
qed

theorem SlotsFor_sound_witness:
  "SlotsFor sample_Q sample_two ''c'' mixed_sizes mixed_sizes slot_labels = Inr ([''n2'', ''n3''], True)
   \<and> distinct [''n2'', ''n3'']"
proof -
  have "wf_map slot_labels" by code_simp
  from SlotsFor_sound [OF two_slots this] two_slots show ?thesis by (elim conjE) (intro conjI)
qed

text \<open>a job resolved onto slots fills them. With the resource package's text reading back as
  written, the job ResolveOntoSlots returns has as many nodes as slots were chosen, and node by node it
  asks for exactly the cpu, memory and storage of its slot, so a free slot is taken whole and a job
  never asks for more than its slot has.\<close>

theorem ResolveOntoSlots_fills:
  assumes "ResolveOntoSlots Q e cluster sizes free L = Inr job" and "quantity_roundtrip Q" and "wf_map L"
  shows "\<exists>nodes isFree. SlotsFor Q e cluster sizes free L = Inr (nodes, isFree)
     \<and> list_all2 (fills sizes) (NodeShapes_of Q job) nodes"
proof -
  obtain nodes isFree where s: "SlotsFor Q e cluster sizes free L = Inr (nodes, isFree)"
    using assms(1) by (auto simp: ResolveOntoSlots_def split: sum.splits)
  then have s': "slotsFor Q e cluster sizes free L (Nodes (ex_Job e) > 1) = Inr (nodes, isFree)"
    by (simp add: SlotsFor_def)
  from slotsFor_Inr(1) [OF s' assms(3)] obtain segs where
    segs: "list_all2 (group_slots Q e sizes L) (NodeGroups (ex_Job e)) segs" "nodes = concat segs" "[] \<notin> set segs"
    by (elim exE conjE)
  have "list_all2 (fills sizes) (NodeShapes_of Q job) nodes"
  proof (cases "js_Groups (ex_Job e) = []")
    case False
    then have "job = (ex_Job e)\<lparr>js_Groups := size_groups Q e sizes nodes 0 (js_Groups (ex_Job e))\<rparr>"
      using assms(1) s by (simp add: ResolveOntoSlots_def Let_def)
    moreover have "size_groups Q e sizes nodes 0 (js_Groups (ex_Job e)) \<noteq> []"
      using False by (cases "js_Groups (ex_Job e)") (auto split: prod.split)
    ultimately have "NodeGroups job = size_groups Q e sizes nodes 0 (NodeGroups (ex_Job e))"
      using False by (simp add: NodeGroups_def)
    with size_groups_fill [OF assms(2) segs(1,3), of "[]"] segs(2) show ?thesis
      by (simp add: NodeShapes_of_groups)
  next
    case True
    let ?j = "ex_Job e"
    obtain cpu memory storage n where sized: "sizedTo Q e (mget [] sizes (nodes ! 0)) (js_AcceleratorCount ?j) =
        (cpu, memory, storage, n)" by (metis prod_cases4)
    have job: "job = ?j\<lparr>js_CPU := cpu, js_Memory := memory, js_Storage := storage, js_AcceleratorCount := n\<rparr>"
      using assms(1) s True sized by (simp add: ResolveOntoSlots_def Let_def)
    obtain grp where grp: "NodeGroups ?j = [grp]" "jg_Replicas grp = Nodes ?j" using True by (simp add: NodeGroups_def)
    then obtain seg where seg: "segs = [seg]" "group_slots Q e sizes L grp seg"
      using segs(1) by (auto simp: list_all2_Cons1)
    have ne: "seg \<noteq> []" "hd seg = nodes ! 0" using segs seg by (auto simp: hd_conv_nth)
    obtain g where g: "NodeGroups job = [g]" "jg_CPU g = cpu" "jg_Memory g = memory" "jg_Storage g = storage"
      "jg_Replicas g = Nodes ?j"
      using True by (simp add: NodeGroups_def job Nodes_def)
    have "list_all2 (fills sizes) (group_shapes Q g) seg"
      by (rule size_group_fills [OF assms(2) seg(2) ne(1)]) (use sized ne g grp in auto)
    with segs(2) seg(1) g(1) show ?thesis by (simp add: NodeShapes_of_groups)
  qed
  with s show ?thesis by (intro exI conjI)
qed

theorem ResolveOntoSlots_fills_witness:
  "\<exists>job. ResolveOntoSlots sample_Q sample_two ''c'' mixed_sizes mixed_sizes slot_labels = Inr job
     \<and> list_all2 (fills mixed_sizes) (NodeShapes_of sample_Q job) [''n2'', ''n3'']"
proof -
  have "js_Groups (ex_Job sample_two) = []" by (simp add: sample_two_def sample_job_def)
  then obtain job where r: "ResolveOntoSlots sample_Q sample_two ''c'' mixed_sizes mixed_sizes slot_labels = Inr job"
    by (cases "sizedTo sample_Q sample_two large_slot (js_AcceleratorCount (ex_Job sample_two))")
      (simp add: ResolveOntoSlots_def two_slots mixed_slots)
  have "wf_map slot_labels" by code_simp
  from ResolveOntoSlots_fills [OF r sample_roundtrip this] two_slots r show ?thesis by auto
qed


text \<open>VacatingSlots is exactly the slots that are on their way to being free: slots that were taken
  when the tick began, that the runtime offers, and that no claimed job of the cluster holds, each with
  its whole size.\<close>

theorem VacatingSlots_exact:
  assumes "wf_map L"
  shows "map_of (VacatingSlots cluster sizes freeAtTickStart L claimed) node =
     (if isSlot (mget [] L node) \<and> gets (mget [] L node) NodeSlotNoOfferLabel = []
        \<and> (\<forall>x \<in> set claimed. ex_ClusterName x = cluster \<longrightarrow> slot_of L node \<notin> set (js_Slots (EffectiveJob x)))
        \<and> \<not> NodeHasRoom (map_of freeAtTickStart node) (mget [] sizes node)
      then Some (mget [] sizes node) else None)"
proof -
  define held where "held = concat (map (\<lambda>x. js_Slots (EffectiveJob x)) (filter (\<lambda>x. ex_ClusterName x = cluster) claimed))"
  define leaves where "leaves n lab \<longleftrightarrow> \<not> (\<not> isSlot lab \<or> gets lab NodeSlotNoOfferLabel \<noteq> [] \<or> gets lab NodeSlotLabel \<in> set held
              \<or> NodeHasRoom (map_of freeAtTickStart n) (mget [] sizes n))" for n lab
  have "map_of (fold (\<lambda>(n, lab) v. if \<not> leaves n lab then v else mput n (mget [] sizes n) v) xs v) node =
      (if \<exists>lab. (node, lab) \<in> set xs \<and> leaves node lab then Some (mget [] sizes node) else map_of v node)" for xs v
    by (induction xs arbitrary: v) auto
  moreover have "VacatingSlots cluster sizes freeAtTickStart L claimed =
      fold (\<lambda>(n, lab) v. if \<not> leaves n lab then v else mput n (mget [] sizes n) v) L []"
    by (simp only: VacatingSlots_def Let_def held_def [symmetric] leaves_def not_not)
  ultimately have eq: "map_of (VacatingSlots cluster sizes freeAtTickStart L claimed) node =
      (if \<exists>lab. (node, lab) \<in> set L \<and> leaves node lab then Some (mget [] sizes node) else None)"
    by simp
  have "(\<exists>lab. (node, lab) \<in> set L \<and> leaves node lab) \<longleftrightarrow> leaves node (mget [] L node)"
    using mget_in [OF assms, of node _ "[]"] slot_entry [of L node] by (auto simp: leaves_def)
  then show ?thesis unfolding eq by (auto simp: leaves_def held_def)
qed

theorem VacatingSlots_exact_witness:
  "map_of (VacatingSlots ''c'' mixed_sizes [] slot_labels [sample_pinned\<lparr>ex_ClusterName := ''c''\<rparr>]) ''n1'' = None
   \<and> map_of (VacatingSlots ''c'' mixed_sizes [] slot_labels [sample_pinned\<lparr>ex_ClusterName := ''c''\<rparr>]) ''n2'' = Some large_slot"
proof -
  have wf: "wf_map slot_labels" by code_simp
  show ?thesis
    unfolding VacatingSlots_exact [OF wf] by code_simp
qed

end
