(* ===== verification/Cluster_Properties.thy ===== *)
theory Cluster_Properties
  imports Clusters Slot_Properties
begin

text \<open>
  What the choice of a cluster promises: the order of Tiers whatever order the map of
  clusters is read in, the pick of AtAcceleratorType and of BestFit, and the search of
  ClusterAndFootprint over tiers, accelerator types and clusters.
\<close>

subsection \<open>The order of the clusters\<close>

lemma Tiers_order_free:
  assumes "mset (keys avail) = mset (keys avail')" and "wf_map avail"
  shows "Tiers avail registered orgID = Tiers avail' registered orgID"
proof -
  have "sort_slice (tier_before registered orgID) (keys avail) = sort_slice (tier_before registered orgID) (keys avail')"
    by (rule tier_order.sort_slice_unique [OF _ assms(1)]) (auto simp: tier_before_def split: if_splits)
  then show ?thesis by (simp add: Tiers_def)
qed

text \<open>The shortage walk of BestFit is the room walk with the shortage as negative room.\<close>

definition short_room :: "(string, Footprint) gomap \<Rightarrow> Footprint \<Rightarrow> string \<Rightarrow> int option" where
  "short_room avail footprint c =
     (if ReportsEveryDimension (mget [] avail c) footprint then Some (- shortage (mget [] avail c) footprint) else None)"

lemma sum_list_nonneg: "\<forall>x \<in> set xs. 0 \<le> x \<Longrightarrow> 0 \<le> sum_list (xs :: int list)"
  by (induction xs) auto

lemma shortage_nonneg:
  assumes "wf_map footprint"
  shows "0 \<le> shortage avail footprint"
  unfolding shortage_def
proof (rule sum_list_nonneg, rule ballI)
  fix v
  assume "v \<in> set (map snd (Shortfall avail footprint))"
  then obtain k where "(k, v) \<in> set (Shortfall avail footprint)" by auto
  then have "geti (Shortfall avail footprint) k = v" by (rule mget_in [OF wf_Shortfall])
  then show "0 \<le> v" using geti_Shortfall [OF assms, of avail k] by (auto split: if_splits)
qed

lemma tier_best_start: "[] \<notin> set cs \<Longrightarrow> tier_best room [] r cs = tier_best room [] 0 cs"
  by (induction cs) (auto split: option.splits)

lemma least_short_is_best:
  assumes "wf_map footprint" and "[] \<notin> set cs" and "best \<noteq> []" and "0 \<le> s"
  shows "least_short avail footprint best s cs = tier_best (short_room avail footprint) best (- s) cs"
  using assms
proof (induction cs arbitrary: best s)
  case (Cons c cs)
  have "0 \<le> shortage (mget [] avail c) footprint" by (rule shortage_nonneg [OF assms(1)])
  with Cons show ?case by (auto simp: short_room_def Let_def)
qed simp

lemma least_short_start:
  assumes "wf_map footprint" and "[] \<notin> set cs"
  shows "least_short avail footprint [] (-1) cs = tier_best (short_room avail footprint) [] 0 cs"
  using assms(2)
proof (induction cs)
  case (Cons c cs)
  have "0 \<le> shortage (mget [] avail c) footprint" by (rule shortage_nonneg [OF assms(1)])
  with Cons least_short_is_best [OF assms(1), of cs c] show ?case by (auto simp: short_room_def [of _ _ c] Let_def)
qed simp

lemma first_short_tier_is_first_tier:
  assumes "wf_map footprint" and "\<forall>t \<in> set tiers. [] \<notin> set t"
  shows "first_short_tier avail footprint tiers = (case first_tier (short_room avail footprint) tiers of None \<Rightarrow> [] | Some c \<Rightarrow> c)"
  using assms(2) by (induction tiers) (simp_all add: least_short_start [OF assms(1)] Let_def)

subsection \<open>The first of a list that qualifies\<close>

lemma find_in_tiers:
  assumes "ranked_tiers rk names tiers" and "find P (concat tiers) = Some c"
  shows "c \<in> set names \<and> P c \<and> (\<forall>d \<in> set names. P d \<longrightarrow> rk d < rk c \<or> rk d = rk c \<and> c \<le> d)"
proof -
  obtain i where i: "i < length (concat tiers)" "concat tiers ! i = c" "P c" "\<forall>j < i. \<not> P (concat tiers ! j)"
    using assms(2) unfolding find_Some_iff by auto
  have "c \<in> set names" using ranked_tiers.tiers_names [OF assms(1)] i(1,2) nth_mem by metis
  moreover have "rk d < rk c \<or> rk d = rk c \<and> c \<le> d" if d: "d \<in> set names" "P d" for d
  proof -
    from d(1) ranked_tiers.tiers_names [OF assms(1)] obtain j where j: "j < length (concat tiers)" "concat tiers ! j = d"
      by (metis in_set_conv_nth)
    with i(4) d(2) have "i \<le> j" by (meson not_le_imp_less)
    moreover have "rk d < rk c \<or> rk d = rk c \<and> c < d" if "i < j"
      using sorted_wrt_nth_less [OF ranked_tiers.concat_sorted [OF assms(1)] that j(1)] i(2) j(2) by simp
    ultimately show ?thesis using i(2) j(2) by (cases "i = j") auto
  qed
  ultimately show ?thesis using i(3) by blast
qed

subsection \<open>The search over tiers, types and clusters\<close>

lemma mget_within_tier:
  "mget [] (within_tier avail tier) c = (if c \<in> set tier then mget [] avail c else [])"
proof -
  have "mget [] (fold (\<lambda>name out. mput name (mget [] avail name) out) xs out) c =
      (if c \<in> set xs then mget [] avail c else mget [] out c)" for xs out
    by (induction xs arbitrary: out) auto
  then show ?thesis by (simp add: within_tier_def)
qed

lemma keys_within_tier: "set (keys (within_tier avail tier)) = set tier"
proof -
  have "set (keys (fold (\<lambda>name out. mput name (mget [] avail name) out) xs out)) = set xs \<union> set (keys out)" for xs out
    by (induction xs arbitrary: out) auto
  then show ?thesis by (simp add: within_tier_def)
qed

lemma wf_within_tier: "wf_map (within_tier avail tier)"
proof -
  have "wf_map out \<Longrightarrow> wf_map (fold (\<lambda>name out. mput name (mget [] avail name) out) xs out)" for xs out
    by (induction xs arbitrary: out) auto
  then show ?thesis by (simp add: within_tier_def)
qed

lemma candidate_room_within:
  "c \<in> set tier \<Longrightarrow> candidate_room Q (within_tier avail tier) nodeAvail nodeRes nodeLabels e c =
     candidate_room Q avail nodeAvail nodeRes nodeLabels e c"
  by (simp add: candidate_room_def mget_within_tier Let_def split: option.split)

lemma better_cong: "room a = room' a \<Longrightarrow> room b = room' b \<Longrightarrow> better room a b = better room' a b"
  by (simp add: better_def)

text \<open>AtAcceleratorType on one tier.\<close>

lemma AtAcceleratorType_tier:
  fixes Q avail nodeAvail nodeRes nodeLabels e
  assumes "[] \<notin> set tier"
  defines "room \<equiv> candidate_room Q avail nodeAvail nodeRes nodeLabels e"
  shows "AtAcceleratorType Q (within_tier avail tier) registered nodeAvail nodeRes nodeLabels e = None
           \<longleftrightarrow> (\<forall>c \<in> set tier. room c = None)"
    and "AtAcceleratorType Q (within_tier avail tier) registered nodeAvail nodeRes nodeLabels e = Some c
           \<Longrightarrow> c \<in> set tier \<and> room c \<noteq> None
             \<and> (\<forall>d \<in> set tier. rank_in registered (ex_OrgID e) d = rank_in registered (ex_OrgID e) c \<longrightarrow> better room c d)"
proof -
  let ?A = "within_tier avail tier"
  let ?room = "candidate_room Q ?A nodeAvail nodeRes nodeLabels e"
  let ?rk = "rank_in registered (ex_OrgID e)"
  have rt: "ranked_tiers ?rk (keys ?A) (Tiers ?A registered (ex_OrgID e))" by (rule Tiers_ranked [OF wf_within_tier])
  have ne: "[] \<notin> set (keys ?A)" using assms(1) by (simp add: keys_within_tier)
  have same: "?room c = room c" if "c \<in> set tier" for c using that by (simp add: room_def candidate_room_within)
  show "AtAcceleratorType Q ?A registered nodeAvail nodeRes nodeLabels e = None \<longleftrightarrow> (\<forall>c \<in> set tier. room c = None)"
    unfolding AtAcceleratorType_def ranked_tiers.first_tier_none [OF rt ne] keys_within_tier using same by simp
  assume "AtAcceleratorType Q ?A registered nodeAvail nodeRes nodeLabels e = Some c"
  then have c: "first_tier ?room (Tiers ?A registered (ex_OrgID e)) = Some c" by (simp add: AtAcceleratorType_def)
  have mem: "c \<in> set tier" using ranked_tiers.first_tier_pick(1) [OF rt c ne] by (simp add: keys_within_tier)
  have some: "?room c \<noteq> None" by (rule ranked_tiers.first_tier_pick(2) [OF rt c ne])
  have "better room c d" if d: "d \<in> set tier" "?rk d = ?rk c" for d
  proof (cases "?room d = None")
    case True
    with same d show ?thesis by (simp add: better_None)
  next
    case False
    with ranked_tiers.first_tier_pick(3) [OF rt c ne, of d] d have "better ?room c d" by (simp add: keys_within_tier)
    with better_cong [of ?room c room d] same mem d show ?thesis by simp
  qed
  with mem some same [OF mem] show "c \<in> set tier \<and> room c \<noteq> None \<and> (\<forall>d \<in> set tier. ?rk d = ?rk c \<longrightarrow> better room c d)"
    by simp
qed

text \<open>The room a cluster has for the job at one accelerator type.\<close>

abbreviation room_at :: "quantity_lib \<Rightarrow> (string, Footprint) gomap \<Rightarrow> (string, capmap) gomap \<Rightarrow> (string, capmap) gomap
    \<Rightarrow> (string, labelmap) gomap \<Rightarrow> Experiment \<Rightarrow> AcceleratorType \<Rightarrow> string \<Rightarrow> int option" where
  "room_at Q avail nodeAvail nodeRes nodeLabels e t \<equiv>
     candidate_room Q avail nodeAvail nodeRes nodeLabels (e\<lparr>ex_AcceleratorType := t\<rparr>)"

lemma try_types_None:
  assumes "[] \<notin> set tier"
  shows "try_types Q (within_tier avail tier) registered nodeAvail nodeRes nodeLabels e types = None
    \<longleftrightarrow> (\<forall>t \<in> set types. \<forall>c \<in> set tier. room_at Q avail nodeAvail nodeRes nodeLabels e t c = None)"
proof (induction types)
  case (Cons t ts)
  note at = AtAcceleratorType_tier(1) [OF assms, of Q avail registered nodeAvail nodeRes nodeLabels "e\<lparr>ex_AcceleratorType := t\<rparr>"]
  show ?case
  proof (cases "AtAcceleratorType Q (within_tier avail tier) registered nodeAvail nodeRes nodeLabels (e\<lparr>ex_AcceleratorType := t\<rparr>)")
    case None
    with at Cons show ?thesis by simp
  next
    case (Some c)
    with at show ?thesis by simp
  qed
qed simp

lemma try_types_Some:
  assumes "[] \<notin> set tier"
    and "try_types Q (within_tier avail tier) registered nodeAvail nodeRes nodeLabels e types = Some (c, t)"
  shows "c \<in> set tier \<and> room_at Q avail nodeAvail nodeRes nodeLabels e t c \<noteq> None
    \<and> (\<forall>d \<in> set tier. rank_in registered (ex_OrgID e) d = rank_in registered (ex_OrgID e) c
          \<longrightarrow> better (room_at Q avail nodeAvail nodeRes nodeLabels e t) c d)
    \<and> (\<exists>us vs. types = us @ t # vs \<and> (\<forall>u \<in> set us. \<forall>d \<in> set tier. room_at Q avail nodeAvail nodeRes nodeLabels e u d = None))"
  using assms(2)
proof (induction types)
  case (Cons u ts)
  let ?at = "AtAcceleratorType Q (within_tier avail tier) registered nodeAvail nodeRes nodeLabels (e\<lparr>ex_AcceleratorType := u\<rparr>)"
  note at = AtAcceleratorType_tier [OF assms(1), of Q avail registered nodeAvail nodeRes nodeLabels "e\<lparr>ex_AcceleratorType := u\<rparr>"]
  show ?case
  proof (cases ?at)
    case None
    then have none: "\<forall>d \<in> set tier. room_at Q avail nodeAvail nodeRes nodeLabels e u d = None" using at(1) by simp
    from None Cons.prems Cons.IH obtain us vs where ih: "ts = us @ t # vs"
      "\<forall>u \<in> set us. \<forall>d \<in> set tier. room_at Q avail nodeAvail nodeRes nodeLabels e u d = None" by auto
    have "\<exists>ws vs. u # ts = ws @ t # vs \<and> (\<forall>u \<in> set ws. \<forall>d \<in> set tier. room_at Q avail nodeAvail nodeRes nodeLabels e u d = None)"
      by (rule exI [of _ "u # us"], rule exI [of _ vs]) (simp add: ih none)
    with None Cons show ?thesis by simp
  next
    case (Some d)
    with Cons.prems have "d = c" "u = t" by simp_all
    with Some at(2) [of c]
    have "c \<in> set tier \<and> room_at Q avail nodeAvail nodeRes nodeLabels e t c \<noteq> None
      \<and> (\<forall>d \<in> set tier. rank_in registered (ex_OrgID e) d = rank_in registered (ex_OrgID e) c
          \<longrightarrow> better (room_at Q avail nodeAvail nodeRes nodeLabels e t) c d)" by simp
    moreover have "\<exists>us vs. u # ts = us @ t # vs \<and> (\<forall>u \<in> set us. \<forall>d \<in> set tier. room_at Q avail nodeAvail nodeRes nodeLabels e u d = None)"
      using \<open>u = t\<close> by (intro exI [of _ "[]"] exI [of _ ts]) simp
    ultimately show ?thesis by blast
  qed
qed simp

lemma try_tiers_None:
  assumes "\<forall>t \<in> set tiers. [] \<notin> set t"
  shows "try_tiers Q avail registered nodeAvail nodeRes nodeLabels e types tiers = None
    \<longleftrightarrow> (\<forall>c \<in> set (concat tiers). \<forall>t \<in> set types. room_at Q avail nodeAvail nodeRes nodeLabels e t c = None)"
  using assms
proof (induction tiers)
  case (Cons tier tiers)
  note tt = try_types_None [of tier Q avail registered nodeAvail nodeRes nodeLabels e types]
  show ?case
  proof (cases "try_types Q (within_tier avail tier) registered nodeAvail nodeRes nodeLabels e types")
    case None
    then have "\<forall>c \<in> set tier. \<forall>t \<in> set types. room_at Q avail nodeAvail nodeRes nodeLabels e t c = None"
      using tt Cons.prems by simp
    with None Cons show ?thesis by (simp add: ball_Un)
  next
    case (Some ct)
    then have "\<not> (\<forall>c \<in> set tier. \<forall>t \<in> set types. room_at Q avail nodeAvail nodeRes nodeLabels e t c = None)"
      using tt Cons.prems by auto
    with Some show ?thesis by (auto simp: ball_Un)
  qed
qed simp

lemma try_tiers_Some:
  assumes "\<forall>t \<in> set tiers. [] \<notin> set t"
    and "try_tiers Q avail registered nodeAvail nodeRes nodeLabels e types tiers = Some (c, t)"
  shows "\<exists>pre tier post. tiers = pre @ tier # post
    \<and> (\<forall>s \<in> set pre. \<forall>d \<in> set s. \<forall>u \<in> set types. room_at Q avail nodeAvail nodeRes nodeLabels e u d = None)
    \<and> try_types Q (within_tier avail tier) registered nodeAvail nodeRes nodeLabels e types = Some (c, t)"
  using assms
proof (induction tiers)
  case (Cons tier tiers)
  show ?case
  proof (cases "try_types Q (within_tier avail tier) registered nodeAvail nodeRes nodeLabels e types")
    case None
    then have none: "\<forall>d \<in> set tier. \<forall>u \<in> set types. room_at Q avail nodeAvail nodeRes nodeLabels e u d = None"
      using try_types_None [of tier] Cons.prems(1) by simp
    from None Cons obtain pre s post where "tiers = pre @ s # post"
      "\<forall>s \<in> set pre. \<forall>d \<in> set s. \<forall>u \<in> set types. room_at Q avail nodeAvail nodeRes nodeLabels e u d = None"
      "try_types Q (within_tier avail s) registered nodeAvail nodeRes nodeLabels e types = Some (c, t)" by auto
    with none show ?thesis by (intro exI [of _ "tier # pre"] exI [of _ s] exI [of _ post]) simp
  next
    case (Some ct)
    with Cons.prems(2) show ?thesis by (intro exI [of _ "[]"] exI [of _ tier] exI [of _ tiers]) simp
  qed
qed simp

subsection \<open>The properties\<close>

definition sample_registry :: registry where
  "sample_registry =
     [(''near'', \<lparr>cl_Name = ''near'', cl_OrgID = ''o1'', cl_Priority = 5, cl_ReportedID = ''near'', cl_DisabledOrgs = []\<rparr>),
      (''far'', \<lparr>cl_Name = ''far'', cl_OrgID = ''default'', cl_Priority = 9, cl_ReportedID = ''far'', cl_DisabledOrgs = []\<rparr>)]"

definition sample_avail :: "(string, Footprint) gomap" where
  "sample_avail = [(''far'', sample_total), (''near'', sample_total)]"

definition sample_free :: "(string, capmap) gomap" where
  "sample_free = [(''far'', sample_byNode), (''near'', sample_byNode)]"

definition sample_size :: "(string, capmap) gomap" where
  "sample_size = [(''far'', sample_nodeRes), (''near'', sample_nodeRes)]"

definition sample_lab :: "(string, labelmap) gomap" where
  "sample_lab = [(''far'', [(''n1'', []), (''n2'', [])]), (''near'', [(''n1'', []), (''n2'', [])])]"

text \<open>AtAcceleratorType names no cluster exactly when no cluster has room for the job at its type now,
  and otherwise one that has, of the highest rank for the job's org among all that have, and in that rank
  the one with room for the most such jobs, the first name among equals.\<close>

theorem AtAcceleratorType_best:
  fixes Q avail nodeAvail nodeRes nodeLabels e
  assumes "wf_map avail" and "[] \<notin> set (keys avail)"
  defines "room \<equiv> candidate_room Q avail nodeAvail nodeRes nodeLabels e"
  shows "case AtAcceleratorType Q avail registered nodeAvail nodeRes nodeLabels e of
       None \<Rightarrow> \<forall>c \<in> set (keys avail). room c = None
     | Some c \<Rightarrow> c \<in> set (keys avail) \<and> room c \<noteq> None
         \<and> (\<forall>d \<in> set (keys avail). \<forall>r. room d = Some r \<longrightarrow>
              rank_in registered (ex_OrgID e) d < rank_in registered (ex_OrgID e) c
              \<or> rank_in registered (ex_OrgID e) d = rank_in registered (ex_OrgID e) c
                \<and> (r < the (room c) \<or> r = the (room c) \<and> c \<le> d))"
proof -
  let ?T = "Tiers avail registered (ex_OrgID e)"
  have rt: "ranked_tiers (rank_in registered (ex_OrgID e)) (keys avail) ?T" by (rule Tiers_ranked [OF assms(1)])
  show ?thesis
  proof (cases "first_tier room ?T")
    case None
    then show ?thesis
      using ranked_tiers.first_tier_none [OF rt assms(2), of room]
      by (simp add: AtAcceleratorType_def room_def [symmetric])
  next
    case (Some c)
    note pick = ranked_tiers.first_tier_pick [OF rt Some assms(2)]
    have "rank_in registered (ex_OrgID e) d < rank_in registered (ex_OrgID e) c
        \<or> rank_in registered (ex_OrgID e) d = rank_in registered (ex_OrgID e) c
          \<and> (r < the (room c) \<or> r = the (room c) \<and> c \<le> d)"
      if d: "d \<in> set (keys avail)" "room d = Some r" for d r
      using pick(3) [OF d(1)] d(2) by (auto simp: better_def order_le_less)
    with Some pick(1,2) show ?thesis by (simp add: AtAcceleratorType_def room_def [symmetric])
  qed
qed

theorem AtAcceleratorType_best_witness:
  "AtAcceleratorType sample_Q sample_avail sample_registry sample_free sample_size sample_lab sample_exp = Some ''near''
   \<and> candidate_room sample_Q sample_avail sample_free sample_size sample_lab sample_exp ''near'' \<noteq> None"
proof -
  have a: "wf_map sample_avail" "[] \<notin> set (keys sample_avail)" by code_simp+
  have e: "AtAcceleratorType sample_Q sample_avail sample_registry sample_free sample_size sample_lab sample_exp = Some ''near''"
    by code_simp
  show ?thesis
    using AtAcceleratorType_best [OF a, of sample_Q sample_free sample_size sample_lab sample_exp sample_registry] e by simp
qed

text \<open>BestFit. Where the footprint fits some cluster now, the answer is a cluster it fits, of the highest
  rank among those, the first name of that rank. Where it fits none, the answer is a cluster that reports
  every dimension asked for, of the highest rank among those, least short in that rank; and it is the empty
  name exactly when no cluster fits and none reports the request.\<close>

theorem BestFit_best:
  fixes avail :: "(string, Footprint) gomap" and registered :: registry and orgID :: string
  assumes "wf_map avail" and "[] \<notin> set (keys avail)" and "wf_map footprint"
  defines "c \<equiv> BestFit avail registered orgID footprint"
  defines "rk \<equiv> rank_in registered orgID"
  defines "fits \<equiv> \<lambda>c. Fits (mget [] avail c) footprint"
  defines "reports \<equiv> \<lambda>c. ReportsEveryDimension (mget [] avail c) footprint"
  shows "if \<exists>d \<in> set (keys avail). fits d
    then c \<in> set (keys avail) \<and> fits c \<and> (\<forall>d \<in> set (keys avail). fits d \<longrightarrow> rk d < rk c \<or> rk d = rk c \<and> c \<le> d)
    else if \<exists>d \<in> set (keys avail). reports d
    then c \<in> set (keys avail) \<and> reports c
      \<and> (\<forall>d \<in> set (keys avail). reports d \<longrightarrow> rk d < rk c \<or> rk d = rk c
            \<and> shortage (mget [] avail c) footprint \<le> shortage (mget [] avail d) footprint)
    else c = []"
proof -
  let ?T = "Tiers avail registered orgID"
  have rt: "ranked_tiers rk (keys avail) ?T" unfolding rk_def by (rule Tiers_ranked [OF assms(1)])
  have names: "set (concat ?T) = set (keys avail)" by (rule ranked_tiers.tiers_names [OF rt])
  show ?thesis
  proof (cases "find fits (concat ?T)")
    case (Some d)
    then have "c = d" by (simp add: c_def BestFit_def fits_def)
    moreover have "\<exists>d \<in> set (keys avail). fits d" using find_in_tiers [OF rt Some] by blast
    ultimately show ?thesis using find_in_tiers [OF rt Some] by simp
  next
    case None
    then have nofit: "\<not> (\<exists>d \<in> set (keys avail). fits d)" using names by (metis find_None_iff)
    have ne: "\<forall>t \<in> set ?T. [] \<notin> set t" using assms(2) names by auto
    have c: "c = (case first_tier (short_room avail footprint) ?T of None \<Rightarrow> [] | Some c \<Rightarrow> c)"
      using None by (simp add: c_def BestFit_def fits_def first_short_tier_is_first_tier [OF assms(3) ne])
    show ?thesis
    proof (cases "first_tier (short_room avail footprint) ?T")
      case None
      then have "\<forall>d \<in> set (keys avail). \<not> reports d"
        using ranked_tiers.first_tier_none [OF rt assms(2)] by (simp add: short_room_def reports_def split: if_splits)
      with nofit c None show ?thesis by simp
    next
      case (Some d)
      note pick = ranked_tiers.first_tier_pick [OF rt Some assms(2)]
      have rc: "reports d" using pick(2) by (simp add: short_room_def reports_def split: if_splits)
      have "rk x < rk d \<or> rk x = rk d \<and> shortage (mget [] avail d) footprint \<le> shortage (mget [] avail x) footprint"
        if x: "x \<in> set (keys avail)" "reports x" for x
        using pick(3) [OF x(1)] x(2) rc by (auto simp: short_room_def reports_def better_def order_le_less)
      with nofit c Some rc pick(1) show ?thesis by auto
    qed
  qed
qed

theorem BestFit_best_witness:
  "BestFit sample_avail sample_registry ''o1'' (Scale sample_total 2) = ''near''
   \<and> ReportsEveryDimension (mget [] sample_avail ''near'') (Scale sample_total 2)"
proof -
  have a: "wf_map sample_avail" "[] \<notin> set (keys sample_avail)" "wf_map (Scale sample_total 2)" by code_simp+
  have e: "BestFit sample_avail sample_registry ''o1'' (Scale sample_total 2) = ''near''"
    "\<not> (\<exists>d \<in> set (keys sample_avail). Fits (mget [] sample_avail d) (Scale sample_total 2))"
    "\<exists>d \<in> set (keys sample_avail). ReportsEveryDimension (mget [] sample_avail d) (Scale sample_total 2)" by code_simp+
  show ?thesis using BestFit_best [OF a, of sample_registry "''o1''"] e by simp
qed

text \<open>C35: ClusterAndFootprint. When some cluster has room for the job at some type it accepts, the job is
  given a cluster c and a type t such that c has room at t, no cluster of a higher rank has room at any
  accepted type, no cluster of the same rank has room at a type the job prefers to t, and c has the most room at t
  in its rank; the job then carries t and the footprint is the one at t. When no cluster has room at any type, the
  job keeps its type and is sent to the best fit for the type it prefers.\<close>

theorem ClusterAndFootprint_search:
  fixes Q avail nodeAvail nodeRes nodeLabels e registered
  assumes "wf_map avail" and "[] \<notin> set (keys avail)"
    and types: "types = (if TotalAccelerators (ex_Job e) \<le> 0 then [ex_AcceleratorType e] else CandidateTypes e)"
    and "types \<noteq> []"
  defines "room \<equiv> room_at Q avail nodeAvail nodeRes nodeLabels e"
  defines "rk \<equiv> rank_in registered (ex_OrgID e)"
  defines "fp \<equiv> \<lambda>t. exp_Footprint Q (e\<lparr>ex_AcceleratorType := t\<rparr>)"
  shows "if \<exists>c \<in> set (keys avail). \<exists>t \<in> set types. room t c \<noteq> None
    then \<exists>c t us vs. ClusterAndFootprint Q avail registered nodeAvail nodeRes nodeLabels e = (c, fp t, e\<lparr>ex_AcceleratorType := t\<rparr>)
      \<and> c \<in> set (keys avail) \<and> types = us @ t # vs \<and> room t c \<noteq> None
      \<and> (\<forall>d \<in> set (keys avail). \<forall>u \<in> set types. room u d \<noteq> None \<longrightarrow> rk d \<le> rk c)
      \<and> (\<forall>d \<in> set (keys avail). \<forall>u \<in> set us. rk d = rk c \<longrightarrow> room u d = None)
      \<and> (\<forall>d \<in> set (keys avail). \<forall>r. room t d = Some r \<and> rk d = rk c \<longrightarrow> r \<le> the (room t c))
    else ClusterAndFootprint Q avail registered nodeAvail nodeRes nodeLabels e
       = (BestFit avail registered (ex_OrgID e) (fp (hd types)), fp (hd types), e)"
proof -
  let ?T = "Tiers avail registered (ex_OrgID e)"
  let ?examine = "try_tiers Q avail registered nodeAvail nodeRes nodeLabels e types ?T"
  have rt: "ranked_tiers rk (keys avail) ?T" unfolding rk_def by (rule Tiers_ranked [OF assms(1)])
  have names: "set (concat ?T) = set (keys avail)" by (rule ranked_tiers.tiers_names [OF rt])
  have ne: "\<forall>t \<in> set ?T. [] \<notin> set t" using assms(2) names by auto
  obtain t0 ts where t0: "types = t0 # ts" using assms(4) by (cases types) auto
  have none: "?examine = None \<longleftrightarrow> (\<forall>c \<in> set (keys avail). \<forall>t \<in> set types. room t c = None)"
    unfolding try_tiers_None [OF ne] names room_def ..
  show ?thesis
  proof (cases ?examine)
    case None
    then have "ClusterAndFootprint Q avail registered nodeAvail nodeRes nodeLabels e
       = (BestFit avail registered (ex_OrgID e) (fp (hd types)), fp (hd types), e)"
      unfolding ClusterAndFootprint_def types [symmetric] fp_def by (simp add: t0 Let_def)
    moreover have "\<not> (\<exists>c \<in> set (keys avail). \<exists>t \<in> set types. room t c \<noteq> None)" using None none by simp
    ultimately show ?thesis by simp
  next
    case (Some ct)
    obtain c t where ct: "ct = (c, t)" by force
    obtain pre tier post where tier: "?T = pre @ tier # post"
      "\<forall>s \<in> set pre. \<forall>d \<in> set s. \<forall>u \<in> set types. room u d = None"
      "try_types Q (within_tier avail tier) registered nodeAvail nodeRes nodeLabels e types = Some (c, t)"
      using try_tiers_Some [OF ne Some [unfolded ct]] unfolding room_def by blast
    have net: "[] \<notin> set tier" using ne tier(1) by simp
    have pick: "c \<in> set tier \<and> room t c \<noteq> None \<and> (\<forall>d \<in> set tier. rk d = rk c \<longrightarrow> better (room t) c d)
      \<and> (\<exists>us vs. types = us @ t # vs \<and> (\<forall>u \<in> set us. \<forall>d \<in> set tier. room u d = None))"
      unfolding room_def rk_def by (rule try_types_Some [OF net tier(3)])
    obtain us vs where us: "types = us @ t # vs" "\<forall>u \<in> set us. \<forall>d \<in> set tier. room u d = None"
      using pick [THEN conjunct2, THEN conjunct2, THEN conjunct2] by (elim exE conjE)
    have first: "rk d \<le> rk c \<and> (rk d = rk c \<longrightarrow> d \<in> set tier)"
      if "d \<in> set (keys avail)" "u \<in> set types" "room u d \<noteq> None" for d u
    proof (rule ranked_tiers.first_usable_rank [OF rt tier(1), where usable = "\<lambda>d. \<exists>u \<in> set types. room u d \<noteq> None"])
      show "\<forall>s \<in> set pre. \<forall>x \<in> set s. \<not> (\<exists>u \<in> set types. room u x \<noteq> None)" using tier(2) by simp
      show "c \<in> set tier" using pick by simp
      show "d \<in> set (keys avail)" by (rule that(1))
      show "\<exists>u \<in> set types. room u d \<noteq> None" by (rule bexI [of _ u]) (rule that)+
    qed
    have res: "ClusterAndFootprint Q avail registered nodeAvail nodeRes nodeLabels e = (c, fp t, e\<lparr>ex_AcceleratorType := t\<rparr>)"
      using Some unfolding ClusterAndFootprint_def types [symmetric] fp_def by (simp add: t0 ct Let_def)
    have c: "c \<in> set (keys avail)" using pick names tier(1) by auto
    have tin: "t \<in> set types" using us(1) by simp
    have earlier: "room u d = None" if "d \<in> set (keys avail)" "u \<in> set us" "rk d = rk c" for u d
    proof (rule ccontr)
      assume "room u d \<noteq> None"
      with first [of d u] that us have "d \<in> set tier" by simp
      with us(2) that(2) \<open>room u d \<noteq> None\<close> show False by simp
    qed
    have most: "r \<le> the (room t c)" if "d \<in> set (keys avail)" "room t d = Some r" "rk d = rk c" for d r
    proof -
      have "d \<in> set tier" using first [of d t] tin that by simp
      then have "better (room t) c d" using pick that(3) by simp
      with that(2) show ?thesis by (auto simp: better_def)
    qed
    have ex: "\<exists>c \<in> set (keys avail). \<exists>t \<in> set types. room t c \<noteq> None" using c tin pick by blast
    have up: "\<forall>d \<in> set (keys avail). \<forall>u \<in> set types. room u d \<noteq> None \<longrightarrow> rk d \<le> rk c" using first by blast
    show ?thesis
      unfolding if_P [OF ex]
      by (rule exI [of _ c], rule exI [of _ t], rule exI [of _ us], rule exI [of _ vs])
        (use res c us(1) pick earlier most up in simp)
  qed
qed

theorem ClusterAndFootprint_search_witness:
  "fst (ClusterAndFootprint sample_Q sample_avail sample_registry sample_free sample_size sample_lab sample_exp) = ''near''
   \<and> (\<exists>t \<in> set (CandidateTypes sample_exp).
         room_at sample_Q sample_avail sample_free sample_size sample_lab sample_exp t ''near'' \<noteq> None)"
proof -
  have a: "wf_map sample_avail" "[] \<notin> set (keys sample_avail)" by code_simp+
  have ty: "CandidateTypes sample_exp = (if TotalAccelerators (ex_Job sample_exp) \<le> 0 then [ex_AcceleratorType sample_exp] else CandidateTypes sample_exp)"
    "CandidateTypes sample_exp \<noteq> []" by code_simp+
  have ex: "\<exists>c \<in> set (keys sample_avail). \<exists>t \<in> set (CandidateTypes sample_exp). room_at sample_Q sample_avail sample_free sample_size sample_lab sample_exp t c \<noteq> None"
    by code_simp
  have e: "fst (ClusterAndFootprint sample_Q sample_avail sample_registry sample_free sample_size sample_lab sample_exp) = ''near''"
    by code_simp
  obtain c t us vs where ct:
    "ClusterAndFootprint sample_Q sample_avail sample_registry sample_free sample_size sample_lab sample_exp
       = (c, exp_Footprint sample_Q (sample_exp\<lparr>ex_AcceleratorType := t\<rparr>), sample_exp\<lparr>ex_AcceleratorType := t\<rparr>)"
    "CandidateTypes sample_exp = us @ t # vs"
    "room_at sample_Q sample_avail sample_free sample_size sample_lab sample_exp t c \<noteq> None"
    using ClusterAndFootprint_search [OF a ty, of sample_Q sample_free sample_size sample_lab sample_registry]
    unfolding if_P [OF ex] by (elim exE conjE)
  show ?thesis using e ct by auto
qed

end
