(* ===== verification/Resolve_Properties.thy ===== *)
theory Resolve_Properties
  imports Resolve Slot_Properties
begin

text \<open>
  What the share check promises: a resolved job asks each node for no more than its share there, a
  misfit is a node where it would, the division by nothing installed cannot happen, and the tick's
  cache changes no answer.
\<close>

subsection \<open>The cache\<close>

definition cache_ok :: "resolve_env \<Rightarrow> resolutionCache \<Rightarrow> bool" where
  "cache_ok env ca \<longleftrightarrow>
     (\<forall>id node. map_of (ca_nodeOf ca) id = Some node \<longrightarrow> re_LatestNode env id = Some (Some node))
     \<and> (\<forall>claimed. ca_claimed ca = Some claimed \<longrightarrow> re_ListCapacityClaimed env = Some claimed)"

lemma cache_ok_new: "cache_ok env newResolutionCache"
  by (simp add: cache_ok_def newResolutionCache_def)

lemma cache_ok_put:
  "cache_ok env ca \<Longrightarrow> re_LatestNode env i = Some (Some node) \<Longrightarrow> cache_ok env (ca\<lparr>ca_nodeOf := mput i node (ca_nodeOf ca)\<rparr>)"
  by (simp add: cache_ok_def)

lemma cache_ok_node: "cache_ok env ca \<Longrightarrow> map_of (ca_nodeOf ca) i = Some node \<Longrightarrow> re_LatestNode env i = Some (Some node)"
  by (simp add: cache_ok_def)

text \<open>The walk over the claimed jobs without a cache.\<close>

definition counts_there :: "string \<Rightarrow> AcceleratorType \<Rightarrow> Experiment \<Rightarrow> bool" where
  "counts_there cluster t r \<longleftrightarrow> ex_ClusterName r = cluster \<and> ex_AcceleratorCount r > 0
     \<and> ex_AcceleratorType r = t \<and> Nodes (ex_Job r) \<le> 1"

fun attributed :: "resolve_env \<Rightarrow> string \<Rightarrow> AcceleratorType \<Rightarrow> Experiment list \<Rightarrow> amounts \<Rightarrow> resolve_error + amounts" where
  "attributed env cluster t [] installed = Inr installed"
| "attributed env cluster t (r # rs) installed =
     (if \<not> counts_there cluster t r then attributed env cluster t rs installed
      else case re_LatestNode env (ex_ID r) of
          None \<Rightarrow> Inl (NodeAttributionFailed (ex_ID r))
        | Some None \<Rightarrow> attributed env cluster t rs installed
        | Some (Some node) \<Rightarrow> attributed env cluster t rs
            (if node = [] then installed else madd node (ex_AcceleratorCount r) installed))"

lemma attribute_claimed_cached:
  assumes "cache_ok env ca"
  shows "fst (attribute_claimed env cluster t rs installed ca) = attributed env cluster t rs installed
    \<and> cache_ok env (snd (attribute_claimed env cluster t rs installed ca))"
  using assms
proof (induction rs arbitrary: installed ca)
  case (Cons r rs)
  show ?case
  proof (cases "counts_there cluster t r")
    case False
    then have "attribute_claimed env cluster t (r # rs) installed ca = attribute_claimed env cluster t rs installed ca"
      by (auto simp: counts_there_def acc_Is_def)
    with Cons False show ?thesis by simp
  next
    case True
    then have guard: "\<not> (ex_ClusterName r \<noteq> cluster \<or> ex_AcceleratorCount r \<le> 0 \<or> \<not> acc_Is (ex_AcceleratorType r) t \<or> Nodes (ex_Job r) > 1)"
      by (auto simp: counts_there_def acc_Is_def)
    show ?thesis
    proof (cases "map_of (ca_nodeOf ca) (ex_ID r)")
      case (Some node)
      with Cons.prems have "re_LatestNode env (ex_ID r) = Some (Some node)" by (rule cache_ok_node)
      with Cons True guard Some show ?thesis by (simp add: Let_def)
    next
      case None
      show ?thesis
      proof (cases "\<exists>node. re_LatestNode env (ex_ID r) = Some (Some node)")
        case found: True
        then obtain node where "re_LatestNode env (ex_ID r) = Some (Some node)" by blast
        with Cons True guard None cache_ok_put show ?thesis by (simp add: Let_def)
      next
        case False
        with Cons True guard None show ?thesis by (auto simp: Let_def split: option.splits)
      qed
    qed
  qed
qed simp

definition installed_spec :: "resolve_env \<Rightarrow> string \<Rightarrow> AcceleratorType \<Rightarrow> capmap \<Rightarrow> capmap \<Rightarrow> resolve_error + amounts" where
  "installed_spec env cluster t nodeAvail nodeResTotal =
     (if acc_Kind t = TypeKindCPU then Inr (installedCoresByNode nodeAvail nodeResTotal)
      else case re_ListCapacityClaimed env of
          None \<Rightarrow> Inl ListClaimedFailed
        | Some claimed \<Rightarrow> attributed env cluster t claimed
            (fold (\<lambda>(node, byType). mput node (geti byType (AcceleratorKey t))) nodeAvail []))"

lemma installed_cached:
  assumes "cache_ok env ca"
  shows "fst (installedAcceleratorsByNode env ca cluster t nodeAvail nodeResTotal) = installed_spec env cluster t nodeAvail nodeResTotal
    \<and> cache_ok env (snd (installedAcceleratorsByNode env ca cluster t nodeAvail nodeResTotal))"
proof (cases "acc_Kind t = TypeKindCPU")
  case True
  with assms show ?thesis by (simp add: installedAcceleratorsByNode_def installed_spec_def)
next
  case False
  let ?free = "fold (\<lambda>(node, byType). mput node (geti byType (AcceleratorKey t))) nodeAvail []"
  show ?thesis
  proof (cases "loadClaimed env ca")
    case (Pair cl ca')
    have ok: "cache_ok env ca'" "cl = re_ListCapacityClaimed env"
      using Pair assms by (auto simp: loadClaimed_def cache_ok_def split: option.splits)
    with attribute_claimed_cached [OF ok(1), of cluster t _ ?free] False Pair show ?thesis
      by (simp add: installedAcceleratorsByNode_def installed_spec_def Let_def split: option.splits)
  qed
qed

subsection \<open>The share\<close>

abbreviation bounds_node :: "labelmap \<Rightarrow> Experiment \<Rightarrow> amounts \<Rightarrow> string \<Rightarrow> bool" where
  "bounds_node nodeLabels e installed node \<equiv> RunsOn (mget [] nodeLabels node) e \<and> geti installed node > 0"

lemma FairShare_ok: "0 < inst \<Longrightarrow> \<exists>s. FairShare amount n inst = Inr s"
  by (simp add: FairShare_def)

definition node_share :: "labelmap \<Rightarrow> Experiment \<Rightarrow> amounts \<Rightarrow> string \<Rightarrow> int \<Rightarrow> (string \<times> amounts) list \<Rightarrow> int \<Rightarrow> bool" where
  "node_share nodeLabels e installed key units ns s \<longleftrightarrow> (\<exists>node amount. (node, amount) \<in> set ns
     \<and> bounds_node nodeLabels e installed node \<and> FairShare (geti amount key) units (geti installed node) = Inr s)"

lemma node_share_Cons:
  "node_share nodeLabels e installed key units ((node, amount) # ns) s \<longleftrightarrow>
     bounds_node nodeLabels e installed node \<and> FairShare (geti amount key) units (geti installed node) = Inr s
     \<or> node_share nodeLabels e installed key units ns s"
  by (auto simp: node_share_def)

lemma node_share_ex:
  assumes "(node, amount) \<in> set ns" and "bounds_node nodeLabels e installed node"
  shows "\<exists>s. FairShare (geti amount key) units (geti installed node) = Inr s \<and> node_share nodeLabels e installed key units ns s"
proof -
  obtain s where s: "FairShare (geti amount key) units (geti installed node) = Inr s" using FairShare_ok assms(2) by blast
  with assms have "node_share nodeLabels e installed key units ns s" unfolding node_share_def by blast
  with s show ?thesis by blast
qed

text \<open>The least of a start value and the shares of the nodes.\<close>

definition least_of :: "(int \<Rightarrow> bool) \<Rightarrow> int option \<Rightarrow> int option \<Rightarrow> bool" where
  "least_of P share out \<longleftrightarrow>
     (case out of None \<Rightarrow> share = None \<and> (\<forall>s. \<not> P s)
      | Some s \<Rightarrow> (share = Some s \<or> P s) \<and> (\<forall>s'. share = Some s' \<longrightarrow> s \<le> s') \<and> (\<forall>s'. P s' \<longrightarrow> s \<le> s'))"

lemma least_of_step:
  assumes "least_of P (case share of None \<Rightarrow> Some f | Some s \<Rightarrow> if f < s then Some f else Some s) out"
  shows "least_of (\<lambda>s. s = f \<or> P s) share out"
  using assms by (cases share; cases out; cases "f < the share") (auto simp: least_of_def)

lemma least_share_spec:
  "\<exists>out. least_share nodeLabels e installed key units share ns = Inr out
     \<and> least_of (node_share nodeLabels e installed key units ns) share out"
proof (induction ns arbitrary: share)
  case Nil
  have "\<not> node_share nodeLabels e installed key units [] s" for s by (simp add: node_share_def)
  then show ?case by (cases share) (simp_all add: least_of_def)
next
  case (Cons n ns)
  obtain node amount where n: "n = (node, amount)" by force
  show ?case
  proof (cases "bounds_node nodeLabels e installed node")
    case False
    then have "least_share nodeLabels e installed key units share (n # ns) = least_share nodeLabels e installed key units share ns"
      "node_share nodeLabels e installed key units (n # ns) = node_share nodeLabels e installed key units ns"
      by (auto simp: n node_share_Cons)
    with Cons show ?thesis by metis
  next
    case True
    then obtain f where f: "FairShare (geti amount key) units (geti installed node) = Inr f" using FairShare_ok by blast
    let ?share = "case share of None \<Rightarrow> Some f | Some s \<Rightarrow> if f < s then Some f else Some s"
    have eq: "least_share nodeLabels e installed key units share (n # ns) = least_share nodeLabels e installed key units ?share ns"
      using True f by (simp add: n)
    have P: "node_share nodeLabels e installed key units (n # ns) = (\<lambda>s. s = f \<or> node_share nodeLabels e installed key units ns s)"
      using True f by (auto simp: n node_share_Cons)
    show ?thesis unfolding eq P using Cons [of ?share] least_of_step by blast
  qed
qed

text \<open>A request within its share of a node, and above it.\<close>

definition within_share :: "quantity_lib \<Rightarrow> amounts \<Rightarrow> string \<Rightarrow> amounts \<Rightarrow> int \<Rightarrow> string \<Rightarrow> string \<Rightarrow> bool" where
  "within_share Q installed node amount units key requested \<longleftrightarrow>
     (\<exists>v s. QuantityValue Q key requested = Inr v \<and> FairShare (geti amount key) units (geti installed node) = Inr s \<and> v \<le> of_int s)"

definition above_share :: "quantity_lib \<Rightarrow> amounts \<Rightarrow> string \<Rightarrow> amounts \<Rightarrow> int \<Rightarrow> string \<Rightarrow> string \<Rightarrow> int \<Rightarrow> bool" where
  "above_share Q installed node amount units key requested s \<longleftrightarrow>
     FairShare (geti amount key) units (geti installed node) = Inr s
     \<and> (\<exists>v. QuantityValue Q key requested = Inr v \<and> of_int s < v)"

lemma check_dimensions_ok:
  assumes "check_dimensions Q nodeLabels e cluster installed nodeResTotal units ds = Inr None"
  shows "\<forall>(name, key, requested) \<in> set ds. \<forall>(node, amount) \<in> set nodeResTotal.
    bounds_node nodeLabels e installed node \<longrightarrow> within_share Q installed node amount units key requested"
  using assms
proof (induction ds)
  case (Cons d ds)
  obtain name key requested where d: "d = (name, key, requested)" by (cases d) auto
  obtain out where out: "least_share nodeLabels e installed key units None nodeResTotal = Inr out"
    "least_of (node_share nodeLabels e installed key units nodeResTotal) None out"
    using least_share_spec by blast
  show ?case
  proof (cases out)
    case None
    have "\<not> bounds_node nodeLabels e installed node" if "(node, amount) \<in> set nodeResTotal" for node amount
      using node_share_ex [OF that, of nodeLabels e installed key units] out(2) None by (auto simp: least_of_def)
    with Cons out(1) None d show ?thesis by auto
  next
    case (Some s)
    obtain v where v: "QuantityValue Q key requested = Inr v" "v \<le> of_int s"
      "check_dimensions Q nodeLabels e cluster installed nodeResTotal units ds = Inr None"
      using Cons.prems out(1) Some by (auto simp: d split: sum.splits if_splits)
    have "within_share Q installed node amount units key requested"
      if na: "(node, amount) \<in> set nodeResTotal" "bounds_node nodeLabels e installed node" for node amount
    proof -
      obtain s' where s': "FairShare (geti amount key) units (geti installed node) = Inr s'"
        "node_share nodeLabels e installed key units nodeResTotal s'" using node_share_ex [OF na] by blast
      with out(2) Some have "s \<le> s'" by (simp add: least_of_def)
      then have "v \<le> of_int s'" using v(2) by (meson of_int_le_iff order_trans)
      with s' v(1) show ?thesis by (auto simp: within_share_def)
    qed
    with Cons.IH [OF v(3)] d show ?thesis by auto
  qed
qed simp

lemma check_dimensions_misfit:
  assumes "check_dimensions Q nodeLabels e cluster installed nodeResTotal units ds = Inr (Some m)"
  shows "\<exists>(name, key, requested) \<in> set ds. \<exists>(node, amount) \<in> set nodeResTotal. \<exists>s.
    bounds_node nodeLabels e installed node \<and> above_share Q installed node amount units key requested s
    \<and> m = ShareMisfit name requested s units (acc_Kind (ex_AcceleratorType e) = TypeKindCPU) cluster"
  using assms
proof (induction ds)
  case (Cons d ds)
  obtain name key requested where d: "d = (name, key, requested)" by (cases d) auto
  obtain out where out: "least_share nodeLabels e installed key units None nodeResTotal = Inr out"
    "least_of (node_share nodeLabels e installed key units nodeResTotal) None out"
    using least_share_spec by blast
  show ?case
  proof (cases "check_dimensions Q nodeLabels e cluster installed nodeResTotal units ds = Inr (Some m)")
    case True
    with Cons.IH show ?thesis unfolding d by (auto intro: bexI)
  next
    case False
    then obtain s v where sv: "out = Some s" "QuantityValue Q key requested = Inr v" "of_int s < v"
      "m = ShareMisfit name requested s units (acc_Kind (ex_AcceleratorType e) = TypeKindCPU) cluster"
      using Cons.prems out(1) by (auto simp: d split: sum.splits if_splits option.splits)
    then obtain node amount where na: "(node, amount) \<in> set nodeResTotal" "bounds_node nodeLabels e installed node"
      "FairShare (geti amount key) units (geti installed node) = Inr s"
      using out(2) by (auto simp: least_of_def node_share_def)
    with sv have "above_share Q installed node amount units key requested s" by (auto simp: above_share_def)
    with na sv(4) d show ?thesis by auto
  qed
qed simp

lemma check_dimensions_no_share_error:
  "check_dimensions Q nodeLabels e cluster installed nodeResTotal units ds \<noteq> Inl (FairShareFailed name err)"
proof (induction ds)
  case (Cons d ds)
  obtain nm key requested where d: "d = (nm, key, requested)" by (cases d) auto
  obtain out where "least_share nodeLabels e installed key units None nodeResTotal = Inr out"
    using least_share_spec by blast
  with Cons show ?case by (auto simp: d split: sum.splits option.splits)
qed simp

lemma check_groups_ok:
  assumes "check_groups Q nodeLabels e cluster installed nodeResTotal gs = Inr None"
    and "grp \<in> set gs" and "0 < jg_AcceleratorCount grp"
  shows "check_dimensions Q nodeLabels e cluster installed nodeResTotal (jg_AcceleratorCount grp) (dimensions grp) = Inr None"
  using assms by (induction gs) (auto split: sum.splits option.splits if_splits)

lemma check_groups_misfit:
  assumes "check_groups Q nodeLabels e cluster installed nodeResTotal gs = Inr (Some m)"
  shows "\<exists>grp \<in> set gs. 0 < jg_AcceleratorCount grp
    \<and> check_dimensions Q nodeLabels e cluster installed nodeResTotal (jg_AcceleratorCount grp) (dimensions grp) = Inr (Some m)"
  using assms by (induction gs) (auto split: sum.splits option.splits if_splits)

lemma check_groups_no_share_error:
  "check_groups Q nodeLabels e cluster installed nodeResTotal gs \<noteq> Inl (FairShareFailed name err)"
  by (induction gs) (auto simp: check_dimensions_no_share_error split: sum.splits option.splits)

subsection \<open>Resolution without a cache\<close>

lemma resolve_cached:
  assumes "cache_ok env ca"
  shows "fst (resolveClusterLocalResources Q env ca e cluster nodeResTotal nodeAvail nodeRes nodeLabels) =
    (if HasSlots nodeLabels then
        (case ResolveOntoSlots Q e cluster nodeResTotal nodeRes nodeLabels of Inl m \<Rightarrow> Inr (Inl (SlotMisfit m)) | Inr job \<Rightarrow> Inr (Inr job))
      else if \<not> list_ex (\<lambda>grp. jg_AcceleratorCount grp > 0) (NodeGroups (ex_Job e)) then Inr (Inr (ex_Job e))
      else case installed_spec env cluster (ex_AcceleratorType e) nodeAvail nodeResTotal of
          Inl err \<Rightarrow> Inl err
        | Inr installed \<Rightarrow>
            (case check_groups Q nodeLabels e cluster installed nodeResTotal (NodeGroups (ex_Job e)) of
               Inl err \<Rightarrow> Inl err | Inr (Some m) \<Rightarrow> Inr (Inl m) | Inr None \<Rightarrow> Inr (Inr (ex_Job e))))
    \<and> cache_ok env (snd (resolveClusterLocalResources Q env ca e cluster nodeResTotal nodeAvail nodeRes nodeLabels))"
proof (cases "installedAcceleratorsByNode env ca cluster (ex_AcceleratorType e) nodeAvail nodeResTotal")
  case (Pair inst ca')
  with installed_cached [OF assms, of cluster "ex_AcceleratorType e" nodeAvail nodeResTotal]
  have "inst = installed_spec env cluster (ex_AcceleratorType e) nodeAvail nodeResTotal" "cache_ok env ca'" by simp_all
  with Pair assms show ?thesis
    unfolding resolveClusterLocalResources_def by (auto split: sum.splits option.splits)
qed

lemma attributed_exact:
  assumes "attributed env cluster t rs installed = Inr out" and "node \<noteq> []"
  shows "geti out node = geti installed node
    + sum_list (map ex_AcceleratorCount (filter (\<lambda>r. counts_there cluster t r \<and> re_LatestNode env (ex_ID r) = Some (Some node)) rs))"
  using assms(1)
proof (induction rs arbitrary: installed)
  case (Cons r rs)
  show ?case
  proof (cases "counts_there cluster t r")
    case False
    with Cons show ?thesis by simp
  next
    case True
    with Cons.prems obtain ans where ans: "re_LatestNode env (ex_ID r) = Some ans" by (auto split: option.splits)
    show ?thesis
    proof (cases ans)
      case None
      with Cons True ans show ?thesis by simp
    next
      case (Some n)
      with Cons.prems True ans have "attributed env cluster t rs (if n = [] then installed else madd n (ex_AcceleratorCount r) installed) = Inr out"
        by simp
      from Cons.IH [OF this] True ans Some assms(2) show ?thesis by auto
    qed
  qed
qed simp

lemma geti_free:
  assumes "wf_map nodeAvail"
  shows "geti (fold (\<lambda>(node, byType). mput node (geti byType key)) nodeAvail []) node = geti (mget [] nodeAvail node) key"
proof -
  have "geti (fold (\<lambda>(node, byType). mput node (geti byType key)) xs out) node =
      (if node \<in> set (keys xs) then geti (mget [] xs node) key else geti out node)" if "wf_map xs" for xs out
    using that
  proof (induction xs arbitrary: out)
    case (Cons x xs)
    obtain k v where x: "x = (k, v)" by force
    with Cons show ?case by (auto simp: wf_map_Cons keys_Cons mget_Cons)
  qed simp
  with assms show ?thesis by (simp add: mget_absent)
qed

subsection \<open>The properties\<close>

text \<open>on a cluster of nodes, a job is resolved as submitted, and then every group that holds accelerators asks, in
  cpu, memory and storage, for at most the fair share of every node it could land on that has its accelerator type installed; and a
  misfit names a group, a dimension and a node of the cluster where the request is above the share. What
  is installed on a node is what is free there plus what the claimed one-node jobs of that type known to be there
  hold.\<close>

theorem resolve_within_share:
  assumes "\<not> HasSlots nodeLabels" and "cache_ok env ca"
    and "resolveClusterLocalResources Q env ca e cluster nodeResTotal nodeAvail nodeRes nodeLabels = (Inr out, ca')"
  shows "case out of
      Inr job \<Rightarrow> job = ex_Job e \<and> (\<forall>grp \<in> set (NodeGroups (ex_Job e)). 0 < jg_AcceleratorCount grp \<longrightarrow>
         (\<exists>installed. installed_spec env cluster (ex_AcceleratorType e) nodeAvail nodeResTotal = Inr installed
            \<and> (\<forall>(name, key, requested) \<in> set (dimensions grp). \<forall>(node, amount) \<in> set nodeResTotal.
                 RunsOn (mget [] nodeLabels node) e \<and> 0 < geti installed node \<longrightarrow>
                 within_share Q installed node amount (jg_AcceleratorCount grp) key requested)))
    | Inl m \<Rightarrow> \<exists>installed. installed_spec env cluster (ex_AcceleratorType e) nodeAvail nodeResTotal = Inr installed
        \<and> (\<exists>grp \<in> set (NodeGroups (ex_Job e)). \<exists>(name, key, requested) \<in> set (dimensions grp). \<exists>(node, amount) \<in> set nodeResTotal. \<exists>s.
             (RunsOn (mget [] nodeLabels node) e \<and> 0 < geti installed node)
             \<and> above_share Q installed node amount (jg_AcceleratorCount grp) key requested s
             \<and> m = ShareMisfit name requested s (jg_AcceleratorCount grp) (acc_Kind (ex_AcceleratorType e) = TypeKindCPU) cluster)"
proof (cases "list_ex (\<lambda>grp. jg_AcceleratorCount grp > 0) (NodeGroups (ex_Job e))")
  case False
  then have "out = Inr (ex_Job e)"
    using resolve_cached [OF assms(2), of Q e cluster nodeResTotal nodeAvail nodeRes nodeLabels] assms(1,3) by simp
  with False show ?thesis by (auto simp: list_ex_iff)
next
  case True
  let ?cg = "\<lambda>installed. check_groups Q nodeLabels e cluster installed nodeResTotal (NodeGroups (ex_Job e))"
  have "Inr out = (case installed_spec env cluster (ex_AcceleratorType e) nodeAvail nodeResTotal of Inl err \<Rightarrow> Inl err
      | Inr installed \<Rightarrow> (case ?cg installed of Inl err \<Rightarrow> Inl err | Inr (Some m) \<Rightarrow> Inr (Inl m) | Inr None \<Rightarrow> Inr (Inr (ex_Job e))))"
    using resolve_cached [OF assms(2), of Q e cluster nodeResTotal nodeAvail nodeRes nodeLabels] assms(1,3) True by simp
  then obtain installed where inst: "installed_spec env cluster (ex_AcceleratorType e) nodeAvail nodeResTotal = Inr installed"
    and o: "?cg installed = Inr None \<and> out = Inr (ex_Job e) \<or> (\<exists>m. ?cg installed = Inr (Some m) \<and> out = Inl m)"
    by (auto split: sum.splits option.splits)
  from o show ?thesis
  proof
    assume ok: "?cg installed = Inr None \<and> out = Inr (ex_Job e)"
    have "\<forall>(name, key, requested) \<in> set (dimensions grp). \<forall>(node, amount) \<in> set nodeResTotal.
        bounds_node nodeLabels e installed node \<longrightarrow> within_share Q installed node amount (jg_AcceleratorCount grp) key requested"
      if "grp \<in> set (NodeGroups (ex_Job e))" "0 < jg_AcceleratorCount grp" for grp
      by (rule check_dimensions_ok [OF check_groups_ok [OF conjunct1 [OF ok] that]])
    with ok inst show ?thesis by simp
  next
    assume "\<exists>m. ?cg installed = Inr (Some m) \<and> out = Inl m"
    then obtain m where m: "?cg installed = Inr (Some m)" "out = Inl m" by blast
    from check_groups_misfit [OF m(1)] obtain grp where grp: "grp \<in> set (NodeGroups (ex_Job e))"
      "check_dimensions Q nodeLabels e cluster installed nodeResTotal (jg_AcceleratorCount grp) (dimensions grp) = Inr (Some m)" by blast
    show ?thesis unfolding m(2) sum.case using inst
      by (intro exI [of _ installed] conjI bexI [OF _ grp(1)] check_dimensions_misfit [OF grp(2)])
  qed
qed

theorem resolve_within_share_witness:
  "\<exists>ca'. resolveClusterLocalResources sample_Q \<lparr>re_ListCapacityClaimed = Some [], re_LatestNode = (\<lambda>i. None)\<rparr> newResolutionCache
     sample_exp ''c'' sample_nodeRes sample_byNode sample_nodeRes [] = (Inr (Inr (ex_Job sample_exp)), ca')
   \<and> (\<exists>installed. installed_spec \<lparr>re_ListCapacityClaimed = Some [], re_LatestNode = (\<lambda>i. None)\<rparr> ''c''
          (ex_AcceleratorType sample_exp) sample_byNode sample_nodeRes = Inr installed)"
proof -
  let ?env = "\<lparr>re_ListCapacityClaimed = Some [], re_LatestNode = (\<lambda>i. None)\<rparr>"
  have n: "\<not> HasSlots []" by code_simp
  have e: "fst (resolveClusterLocalResources sample_Q ?env newResolutionCache
     sample_exp ''c'' sample_nodeRes sample_byNode sample_nodeRes []) = Inr (Inr (ex_Job sample_exp))" by code_simp
  obtain ca' where ca: "resolveClusterLocalResources sample_Q ?env newResolutionCache
     sample_exp ''c'' sample_nodeRes sample_byNode sample_nodeRes [] = (Inr (Inr (ex_Job sample_exp)), ca')"
    using e by (metis prod.collapse)
  have g: "\<exists>grp \<in> set (NodeGroups (ex_Job sample_exp)). 0 < jg_AcceleratorCount grp" by code_simp
  have "\<exists>installed. installed_spec ?env ''c'' (ex_AcceleratorType sample_exp) sample_byNode sample_nodeRes = Inr installed"
    using resolve_within_share [OF n cache_ok_new ca] g by auto
  with ca show ?thesis by blast
qed

text \<open>the tick's cache is an invariant of the resolution. A cache whose entries are what the stores answer stays so
  through any resolution, and a resolution answers with it what it answers with an empty one.\<close>

theorem resolve_cache_transparent:
  assumes "cache_ok env ca"
  shows "cache_ok env (snd (resolveClusterLocalResources Q env ca e cluster nodeResTotal nodeAvail nodeRes nodeLabels))
    \<and> fst (resolveClusterLocalResources Q env ca e cluster nodeResTotal nodeAvail nodeRes nodeLabels)
      = fst (resolveClusterLocalResources Q env newResolutionCache e cluster nodeResTotal nodeAvail nodeRes nodeLabels)"
  using resolve_cached [OF assms, of Q e cluster nodeResTotal nodeAvail nodeRes nodeLabels]
    resolve_cached [OF cache_ok_new, of Q env e cluster nodeResTotal nodeAvail nodeRes nodeLabels] by simp

theorem resolve_cache_transparent_witness:
  "fst (resolveClusterLocalResources sample_Q \<lparr>re_ListCapacityClaimed = Some [sample_exp], re_LatestNode = (\<lambda>i. Some (Some ''n1''))\<rparr>
       \<lparr>ca_claimed = Some [sample_exp], ca_nodeOf = [(''e1'', ''n1'')], ca_recentlyTried = None, ca_speculativeCaps = []\<rparr> sample_exp ''c'' sample_nodeRes sample_byNode sample_nodeRes [])
   = fst (resolveClusterLocalResources sample_Q \<lparr>re_ListCapacityClaimed = Some [sample_exp], re_LatestNode = (\<lambda>i. Some (Some ''n1''))\<rparr>
       newResolutionCache sample_exp ''c'' sample_nodeRes sample_byNode sample_nodeRes [])"
proof -
  have "cache_ok \<lparr>re_ListCapacityClaimed = Some [sample_exp], re_LatestNode = (\<lambda>i. Some (Some ''n1''))\<rparr>
      \<lparr>ca_claimed = Some [sample_exp], ca_nodeOf = [(''e1'', ''n1'')], ca_recentlyTried = None, ca_speculativeCaps = []\<rparr>" by (simp add: cache_ok_def)
  from resolve_cache_transparent [OF this] show ?thesis by (rule conjunct2)
qed

text \<open>the error of FairShare is unreachable in the share check: no resolution fails because a node has nothing
  of the accelerator type installed, whatever the claimed jobs and the cache are.\<close>

theorem resolve_never_divides_by_nothing:
  "fst (resolveClusterLocalResources Q env ca e cluster nodeResTotal nodeAvail nodeRes nodeLabels) \<noteq> Inl (FairShareFailed name err)"
proof -
  have att: "fst (attribute_claimed env cluster t rs installed ca) \<noteq> Inl (FairShareFailed name err)" for t rs installed ca
    by (induction rs arbitrary: installed ca) (auto simp: Let_def split: option.splits)
  have "fst (installedAcceleratorsByNode env ca cluster t nodeAvail nodeResTotal) \<noteq> Inl (FairShareFailed name err)" for t
    using att by (auto simp: installedAcceleratorsByNode_def Let_def split: prod.splits option.splits)
  then have "installedAcceleratorsByNode env ca cluster t nodeAvail nodeResTotal \<noteq> (Inl (FairShareFailed name err), ca')" for t ca'
    by (metis fst_conv)
  then show ?thesis
    unfolding resolveClusterLocalResources_def
    by (auto simp: check_groups_no_share_error split: prod.splits sum.splits option.splits)
qed

text \<open>the accelerators of a type installed on a named node are the ones free there plus the ones held by the claimed
  one-node jobs of that type on the cluster that the metrics store places there; jobs over several nodes, and jobs
  whose node is not known, are not counted.\<close>

theorem installedAcceleratorsByNode_exact:
  assumes "cache_ok env ca" and "wf_map nodeAvail" and "acc_Kind t \<noteq> TypeKindCPU" and "node \<noteq> []"
    and "re_ListCapacityClaimed env = Some claimed"
    and "installedAcceleratorsByNode env ca cluster t nodeAvail nodeResTotal = (Inr installed, ca')"
  shows "geti installed node = geti (mget [] nodeAvail node) (AcceleratorKey t)
    + sum_list (map ex_AcceleratorCount (filter (\<lambda>r. ex_ClusterName r = cluster \<and> ex_AcceleratorCount r > 0 \<and> ex_AcceleratorType r = t
        \<and> Nodes (ex_Job r) \<le> 1 \<and> re_LatestNode env (ex_ID r) = Some (Some node)) claimed))"
proof -
  have "Inr installed = installed_spec env cluster t nodeAvail nodeResTotal"
    using installed_cached [OF assms(1), of cluster t nodeAvail nodeResTotal] assms(6) by simp
  then have "attributed env cluster t claimed (fold (\<lambda>(node, byType). mput node (geti byType (AcceleratorKey t))) nodeAvail []) = Inr installed"
    using assms(3,5) by (simp add: installed_spec_def)
  from attributed_exact [OF this assms(4)] show ?thesis
    by (simp add: geti_free [OF assms(2)] counts_there_def conj_assoc)
qed

theorem installedAcceleratorsByNode_exact_witness:
  "\<exists>installed. fst (installedAcceleratorsByNode \<lparr>re_ListCapacityClaimed = Some [sample_exp], re_LatestNode = (\<lambda>i. Some (Some ''n1''))\<rparr>
       newResolutionCache [] (ex_AcceleratorType sample_exp) sample_byNode sample_nodeRes) = Inr installed \<and> geti installed ''n1'' = 3"
proof -
  let ?env = "\<lparr>re_ListCapacityClaimed = Some [sample_exp], re_LatestNode = (\<lambda>i. Some (Some ''n1''))\<rparr>"
  have e: "\<not> isl (fst (installedAcceleratorsByNode ?env newResolutionCache [] (ex_AcceleratorType sample_exp) sample_byNode sample_nodeRes))"
    by code_simp
  then obtain installed ca' where i:
    "installedAcceleratorsByNode ?env newResolutionCache [] (ex_AcceleratorType sample_exp) sample_byNode sample_nodeRes = (Inr installed, ca')"
    by (cases "installedAcceleratorsByNode ?env newResolutionCache [] (ex_AcceleratorType sample_exp) sample_byNode sample_nodeRes")
      (metis fst_conv sum.collapse(2))
  have w: "wf_map sample_byNode" "acc_Kind (ex_AcceleratorType sample_exp) \<noteq> TypeKindCPU" "''n1'' \<noteq> []"
    "re_ListCapacityClaimed ?env = Some [sample_exp]" by code_simp+
  have v: "geti (mget [] sample_byNode ''n1'') (AcceleratorKey (ex_AcceleratorType sample_exp))
    + sum_list (map ex_AcceleratorCount (filter (\<lambda>r. ex_ClusterName r = [] \<and> ex_AcceleratorCount r > 0 \<and> ex_AcceleratorType r = ex_AcceleratorType sample_exp
        \<and> Nodes (ex_Job r) \<le> 1 \<and> re_LatestNode ?env (ex_ID r) = Some (Some ''n1'')) [sample_exp])) = 3" by code_simp
  show ?thesis
    using installedAcceleratorsByNode_exact [OF cache_ok_new w i] i unfolding v by simp
qed

end
