(* ===== verification/Place_Properties.thy ===== *)
theory Place_Properties
  imports Place Cluster_Properties Resolve_Properties
begin

text \<open>
  What placing a queued job promises: the loop ends, the cluster it names may run the job and takes its
  request, failed clusters are left out only while another could run the job, and a job is told that it never
  fits only where no cluster that may run it holds it when idle.
\<close>

subsection \<open>Every pick is a candidate\<close>

lemma tier_best_in: "tier_best room best r cs = best \<or> tier_best room best r cs \<in> set cs"
proof (induction cs arbitrary: best r)
  case (Cons c cs)
  show ?case
  proof (cases "room c")
    case None
    with Cons [of best r] show ?thesis by auto
  next
    case (Some q)
    with Cons [of best r] Cons [of c q] show ?thesis by auto
  qed
qed simp

lemma first_tier_in: "first_tier room tiers = Some c \<Longrightarrow> c \<noteq> [] \<and> c \<in> set (concat tiers)"
proof (induction tiers)
  case (Cons t ts)
  with tier_best_in [of room "[]" 0 t] show ?case by (auto simp: Let_def split: if_splits)
qed simp

lemma least_short_in: "least_short avail fp best b cs = best \<or> least_short avail fp best b cs \<in> set cs"
proof (induction cs arbitrary: best b)
  case (Cons c cs)
  show ?case using Cons [of best b] Cons [of c "shortage (mget [] avail c) fp"] by (auto simp: Let_def)
qed simp

lemma first_short_tier_in: "first_short_tier avail fp tiers = [] \<or> first_short_tier avail fp tiers \<in> set (concat tiers)"
proof (induction tiers)
  case (Cons t ts)
  with least_short_in [of avail fp "[]" "-1" t] show ?case by (auto simp: Let_def)
qed simp

lemma concat_Tiers: "set (concat (Tiers avail registered orgID)) = set (keys avail)"
  by (simp add: Tiers_def)

lemma AtAcceleratorType_in:
  "AtAcceleratorType Q avail registered nodeAvail nodeRes nodeLabels e = Some c \<Longrightarrow> c \<in> set (keys avail)"
  unfolding AtAcceleratorType_def by (drule first_tier_in) (simp only: concat_Tiers)

lemma BestFit_in: "BestFit avail registered orgID fp = [] \<or> BestFit avail registered orgID fp \<in> set (keys avail)"
proof (cases "find (\<lambda>c. Fits (mget [] avail c) fp) (concat (Tiers avail registered orgID))")
  case None
  then show ?thesis
    using first_short_tier_in [of avail fp "Tiers avail registered orgID"] unfolding concat_Tiers by (simp add: BestFit_def)
next
  case (Some c)
  then have "c \<in> set (concat (Tiers avail registered orgID))" unfolding find_Some_iff using nth_mem by metis
  with Some show ?thesis unfolding concat_Tiers by (simp add: BestFit_def)
qed

lemma try_types_in:
  "try_types Q avail registered nodeAvail nodeRes nodeLabels e types = Some (c, t) \<Longrightarrow> c \<in> set (keys avail)"
  by (induction types) (auto dest: AtAcceleratorType_in split: option.splits)

lemma try_tiers_in:
  "try_tiers Q avail registered nodeAvail nodeRes nodeLabels e types tiers = Some (c, t) \<Longrightarrow> c \<in> set (concat tiers)"
proof (induction tiers)
  case (Cons tier tiers)
  show ?case
  proof (cases "try_types Q (within_tier avail tier) registered nodeAvail nodeRes nodeLabels e types")
    case None
    with Cons show ?thesis by simp
  next
    case (Some ct)
    with Cons.prems try_types_in [of Q "within_tier avail tier" registered nodeAvail nodeRes nodeLabels e types c t]
    show ?thesis by (simp add: keys_within_tier)
  qed
qed simp

lemma ClusterAndFootprint_in:
  assumes "ClusterAndFootprint Q avail registered nodeAvail nodeRes nodeLabels e = (c, fp, e')"
  shows "c = [] \<or> c \<in> set (keys avail)"
proof -
  let ?types = "if TotalAccelerators (ex_Job e) \<le> 0 then [ex_AcceleratorType e] else CandidateTypes e"
  show ?thesis
  proof (cases ?types)
    case Nil
    with assms show ?thesis by (auto simp: ClusterAndFootprint_def Let_def)
  next
    case (Cons preferred ts)
    show ?thesis
    proof (cases "try_tiers Q avail registered nodeAvail nodeRes nodeLabels e ?types (Tiers avail registered (ex_OrgID e))")
      case None
      with Cons assms BestFit_in show ?thesis unfolding ClusterAndFootprint_def Let_def by auto
    next
      case (Some ct)
      obtain d t where ct: "ct = (d, t)" by force
      have "c = d" using assms Cons Some unfolding ClusterAndFootprint_def Let_def ct by simp
      with try_tiers_in [OF Some [unfolded ct]] show ?thesis unfolding concat_Tiers by simp
    qed
  qed
qed

lemma ClusterAndFootprint_keeps:
  assumes "ClusterAndFootprint Q avail registered nodeAvail nodeRes nodeLabels e = (c, fp, e')"
  shows "ex_Job e' = ex_Job e \<and> ex_OrgID e' = ex_OrgID e \<and> ex_ClusterName e' = ex_ClusterName e"
  using assms unfolding ClusterAndFootprint_def Let_def by (auto split: list.splits option.splits if_splits)

lemma pick_cluster_in:
  assumes "pick_cluster Q c False queuedAt cands placed e = (placed', e')"
  shows "(qp_cluster placed' = [] \<or> qp_cluster placed' \<in> set (keys cands)) \<and> ex_Job e' = ex_Job e \<and> ex_OrgID e' = ex_OrgID e"
  using assms unfolding pick_cluster_def
  by (auto split: prod.splits dest: ClusterAndFootprint_in ClusterAndFootprint_keeps)

lemma cover_type_in:
  assumes "cover_type Q rates c quota cands placed e = Inr (placed', e')"
    and "qp_cluster placed = [] \<or> qp_cluster placed \<in> set (keys cands)"
  shows "(qp_cluster placed' = [] \<or> qp_cluster placed' \<in> set (keys cands)) \<and> ex_Job e' = ex_Job e \<and> ex_OrgID e' = ex_OrgID e"
proof -
  let ?e = "e\<lparr>ex_AcceleratorType := js_AcceleratorType (ex_Job e)\<rparr>"
  let ?at = "AtAcceleratorType Q cands (tk_registered c) (tk_nodeAvail c) (tk_nodeRes c) (tk_nodeLabels c) ?e"
  have "(case ?at of Some cl \<Rightarrow> cl | None \<Rightarrow> BestFit cands (tk_registered c) (ex_OrgID ?e) (exp_Footprint Q ?e)) \<in> insert [] (set (keys cands))"
    using BestFit_in [of cands "tk_registered c" "ex_OrgID ?e" "exp_Footprint Q ?e"]
    by (cases ?at) (auto dest: AtAcceleratorType_in)
  with assms show ?thesis unfolding cover_type_def by (auto simp: Let_def split: if_splits)
qed

subsection \<open>The loop ends\<close>

lemma length_mdel: "k \<in> set (keys m) \<Longrightarrow> length (mdel k m) < length m"
proof -
  assume "k \<in> set (keys m)"
  then obtain x where "x \<in> set m" "fst x = k" by (auto simp: keys_def)
  then show ?thesis unfolding mdel_def by (intro length_filter_less) auto
qed

lemma place_loop_ends:
  "length cands < fuel \<Longrightarrow> place_loop fuel Q rates env c quota False queuedAt cands misfits placed e ca \<noteq> None"
proof (induction fuel arbitrary: cands misfits placed e ca)
  case (Suc fuel)
  obtain placed1 e1 where p1: "pick_cluster Q c False queuedAt cands placed e = (placed1, e1)" by force
  show ?case
  proof (cases "cover_type Q rates c quota cands placed1 e1")
    case (Inl r)
    with p1 show ?thesis by simp
  next
    case (Inr pe)
    obtain placed2 e2 where pe: "pe = (placed2, e2)" by force
    let ?cl = "qp_cluster placed2"
    have inn: "?cl = [] \<or> ?cl \<in> set (keys cands)"
      using cover_type_in [OF Inr [unfolded pe]] pick_cluster_in [OF p1] by blast
    show ?thesis
    proof (cases "?cl = []")
      case True
      with p1 Inr pe show ?thesis by simp
    next
      case False
      with inn have "length (mdel ?cl cands) < fuel" using length_mdel [of ?cl cands] Suc.prems by simp
      then have "place_loop fuel Q rates env c quota False queuedAt (mdel ?cl cands) m p e' ca' \<noteq> None" for m p e' ca'
        by (rule Suc.IH)
      with p1 Inr pe False show ?thesis by (auto simp: Let_def split: prod.splits sum.splits)
    qed
  qed
qed simp

lemma place_loop_pinned: "place_loop (Suc fuel) Q rates env c quota True queuedAt cands misfits placed e ca \<noteq> None"
  by (auto simp: Let_def split: prod.splits sum.splits)

lemma length_withoutFailed: "length (withoutFailed Q cands clusterIDs e ttl now) \<le> length cands"
  by (simp add: withoutFailed_def Let_def)

lemma length_couldHold: "length (couldHold Q inst cands e) \<le> length cands"
  by (simp add: couldHold_def Let_def)

lemma length_eligibleClusters: "eligibleClusters avail multi registered e = Inr out \<Longrightarrow> length out \<le> length avail"
  unfolding eligibleClusters_def Let_def
  by (auto split: if_splits intro: order_trans [OF length_filter_le length_filter_le])

lemma set_mdel_subset: "set (keys (mdel k m)) \<subseteq> set (keys m)"
  by (auto simp: mdel_def keys_def)

text \<open>A placement the loop gives an unpinned job is at a candidate that resolved the job.\<close>

lemma place_loop_placed:
  assumes "place_loop fuel Q rates env c quota False queuedAt cands misfits placed e ca = Some (PlacedAt qp, e', ca')"
    and "qp_cluster qp \<noteq> []"
  shows "qp_cluster qp \<in> set (keys cands) \<and> ex_Job e' = ex_Job e \<and> ex_OrgID e' = ex_OrgID e
    \<and> qp_fp qp = exp_Footprint Q e'
    \<and> (\<exists>e2 ca2 job. resolveClusterLocalResources Q env ca2 e2 (qp_cluster qp) (mget [] (tk_nodeResTotal c) (qp_cluster qp))
             (mget [] (tk_nodeAvailAtTickStart c) (qp_cluster qp)) (mget [] (tk_nodeRes c) (qp_cluster qp))
             (mget [] (tk_nodeLabels c) (qp_cluster qp)) = (Inr (Inr job), ca')
         \<and> e' = e2\<lparr>ex_ResolvedJob := Some job\<rparr>)"
  using assms
proof (induction fuel arbitrary: cands misfits placed e ca)
  case (Suc fuel)
  obtain placed1 e1 where p1: "pick_cluster Q c False queuedAt cands placed e = (placed1, e1)" by force
  from Suc.prems(1) p1 obtain placed2 e2 where p2: "cover_type Q rates c quota cands placed1 e1 = Inr (placed2, e2)"
    by (auto split: sum.splits)
  let ?cl = "qp_cluster placed2"
  have inn: "?cl = [] \<or> ?cl \<in> set (keys cands)" and same: "ex_Job e2 = ex_Job e" "ex_OrgID e2 = ex_OrgID e"
    using cover_type_in [OF p2] pick_cluster_in [OF p1] by simp_all
  have cl: "?cl \<noteq> []" using Suc.prems p1 p2 by auto
  let ?res = "resolveClusterLocalResources Q env ca e2 ?cl (mget [] (tk_nodeResTotal c) ?cl)
             (mget [] (tk_nodeAvailAtTickStart c) ?cl) (mget [] (tk_nodeRes c) ?cl) (mget [] (tk_nodeLabels c) ?cl)"
  obtain r ca2 where res: "?res = (r, ca2)" by force
  consider (err) err where "r = Inl err" | (ok) job where "r = Inr (Inr job)" | (misfit) m where "r = Inr (Inl m)"
    by (cases r) (auto split: sum.splits, metis sum.exhaust)
  then show ?case
  proof cases
    case err
    with Suc.prems(1) p1 p2 cl res show ?thesis by simp
  next
    case ok
    with Suc.prems(1) p1 p2 cl res have "qp = placed2\<lparr>qp_fp := exp_Footprint Q (e2\<lparr>ex_ResolvedJob := Some job\<rparr>)\<rparr>"
      "e' = e2\<lparr>ex_ResolvedJob := Some job\<rparr>" "ca' = ca2" by (auto simp: Let_def)
    with inn cl same res ok show ?thesis by auto
  next
    case misfit
    with Suc.prems(1) p1 p2 cl res
    have "place_loop fuel Q rates env c quota False queuedAt (mdel ?cl cands) (misfits @ [m]) (placed2\<lparr>qp_cluster := []\<rparr>) e2 ca2 = Some (PlacedAt qp, e', ca')"
      by (simp add: Let_def)
    from Suc.IH [OF this Suc.prems(2)] same set_mdel_subset [of ?cl cands] show ?thesis by auto
  qed
qed simp

lemma withoutFailed_subset: "set (withoutFailed Q cands clusterIDs e ttl now) \<subseteq> set cands"
  by (auto simp: withoutFailed_def Let_def)

lemma couldHold_subset: "set (couldHold Q inst cands e) \<subseteq> set cands"
  by (auto simp: couldHold_def Let_def)

lemma keys_subset: "set xs \<subseteq> set ys \<Longrightarrow> set (keys xs) \<subseteq> set (keys ys)"
  by (auto simp: keys_def)

lemma eligible_may_run:
  assumes "eligibleClusters avail multi registered e = Inr out" and "cl \<in> set (keys out)"
  shows "cl \<in> set (keys avail) \<and> hostsJob registered cl e \<and> (Nodes (ex_Job e) > 1 \<longrightarrow> cl \<in> set multi)"
  using assms unfolding eligibleClusters_def Let_def by (auto simp: keys_def split: if_splits)

subsection \<open>Termination\<close>

lemma placeQueued_ends:
  assumes "length avail < fuel"
  shows "\<exists>outcome e' ca'. placeQueued fuel Q rates env ttl c quota avail e ca = Some (outcome, e', ca')"
proof (cases "eligibleClusters avail (tk_multiNode c) (tk_registered c) e")
  case (Inl r)
  then show ?thesis by (simp add: placeQueued_def)
next
  case (Inr eligible)
  let ?cands = "couldHold Q (tk_whenIdle c) (withoutFailed Q eligible (tk_clusterIDs c) e ttl (tk_start c)) e"
  have "length ?cands \<le> length avail"
    using length_couldHold length_withoutFailed length_eligibleClusters [OF Inr] by (meson order_trans)
  then have "length ?cands < fuel" using assms by simp
  obtain fuel' where f: "fuel = Suc fuel'" using assms by (cases fuel) auto
  have "place_loop fuel Q rates env c quota pinned queuedAt ?cands [] placed e ca \<noteq> None" for pinned queuedAt placed
    using place_loop_ends [OF \<open>length ?cands < fuel\<close>] place_loop_pinned unfolding f by (cases pinned) auto
  then show ?thesis unfolding placeQueued_def by (simp add: Inr Let_def)
qed

text \<open>C31: placeQueued always returns. Each round of its loop that goes on has taken the cluster it tried out of the candidates, and
  the cluster it tries is always one of them, so one round more than there are clusters is enough.\<close>

theorem placeQueued_returns:
  assumes "length avail < fuel"
  shows "\<exists>outcome e' ca'. placeQueued fuel Q rates env ttl c quota avail e ca = Some (outcome, e', ca')"
  using assms by (rule placeQueued_ends)

theorem placeQueued_returns_witness:
  "\<exists>outcome e' ca'. placeQueued 3 sample_Q [] \<lparr>re_ListCapacityClaimed = None, re_LatestNode = (\<lambda>i. None)\<rparr> 0
     \<lparr>tk_start = 0, tk_registered = sample_registry, tk_multiNode = [], tk_clusterIDs = [], tk_nodeLabels = sample_lab,
      tk_whenIdle = \<lparr>in_registered = [], in_totals = [], in_nodeTotals = [], in_scalesUp = [], in_multiNode = [], in_nodeLabels = [], in_limits = []\<rparr>,
      tk_nodeAvail = sample_free, tk_nodeRes = sample_size, tk_nodeResTotal = sample_size, tk_nodeAvailAtTickStart = sample_free\<rparr>
     None sample_avail sample_exp newResolutionCache = Some (outcome, e', ca')"
  by (rule placeQueued_returns) (simp add: sample_avail_def)

subsection \<open>Where a job is placed\<close>

text \<open>a queued job that holds no cluster is placed only where it may run. A placement that names a cluster names one the pass has
  capacity for, registered and taking jobs of the job's org, and reporting multi-node execution when the job spans nodes; and
  the job has been resolved on that cluster, with no misfit, and its footprint is that of the job as resolved.\<close>

theorem placeQueued_may_run:
  assumes "placeQueued fuel Q rates env ttl c quota avail e ca = Some (PlacedAt qp, e', ca')"
    and "ex_ClusterName e = []" and "qp_cluster qp \<noteq> []"
  shows "qp_cluster qp \<in> set (keys avail)
    \<and> (\<exists>cl. map_of (tk_registered c) (qp_cluster qp) = Some cl \<and> Hosts cl (ex_OrgID e))
    \<and> (Nodes (ex_Job e) > 1 \<longrightarrow> qp_cluster qp \<in> set (tk_multiNode c))
    \<and> ex_Job e' = ex_Job e \<and> qp_fp qp = exp_Footprint Q e'
    \<and> (\<exists>e2 ca2 job. resolveClusterLocalResources Q env ca2 e2 (qp_cluster qp) (mget [] (tk_nodeResTotal c) (qp_cluster qp))
             (mget [] (tk_nodeAvailAtTickStart c) (qp_cluster qp)) (mget [] (tk_nodeRes c) (qp_cluster qp))
             (mget [] (tk_nodeLabels c) (qp_cluster qp)) = (Inr (Inr job), ca')
         \<and> e' = e2\<lparr>ex_ResolvedJob := Some job\<rparr>)"
proof (cases "eligibleClusters avail (tk_multiNode c) (tk_registered c) e")
  case (Inl r)
  with assms(1) show ?thesis by (simp add: placeQueued_def)
next
  case (Inr eligible)
  let ?cands = "couldHold Q (tk_whenIdle c) (withoutFailed Q eligible (tk_clusterIDs c) e ttl (tk_start c)) e"
  let ?placed = "\<lparr>qp_cluster = [], qp_fp = [], qp_betAcceleratorType = ex_AcceleratorType e, qp_misfit = []\<rparr>"
  have "place_loop fuel Q rates env c quota False (ex_AcceleratorType e) ?cands [] ?placed e ca = Some (PlacedAt qp, e', ca')"
    using assms(1,2) Inr by (simp add: placeQueued_def Let_def)
  note pl = place_loop_placed [OF this assms(3)]
  have "set (keys ?cands) \<subseteq> set (keys eligible)"
    by (rule keys_subset) (use couldHold_subset withoutFailed_subset in blast)
  with pl have "qp_cluster qp \<in> set (keys eligible)" by blast
  note may = eligible_may_run [OF Inr this]
  then have "\<exists>cl. map_of (tk_registered c) (qp_cluster qp) = Some cl \<and> Hosts cl (ex_OrgID e)"
    by (auto simp: hostsJob_def split: option.splits)
  with may pl show ?thesis by simp
qed

definition sample_tick :: tickClusters where
  "sample_tick = \<lparr>tk_start = 0, tk_registered = sample_registry, tk_multiNode = [], tk_clusterIDs = [(''near'', ''id-near'')], tk_nodeLabels = sample_lab,
      tk_whenIdle = \<lparr>in_registered = sample_registry, in_totals = sample_avail, in_nodeTotals = [], in_scalesUp = [], in_multiNode = [], in_nodeLabels = [], in_limits = []\<rparr>,
      tk_nodeAvail = sample_free, tk_nodeRes = sample_size, tk_nodeResTotal = sample_size, tk_nodeAvailAtTickStart = sample_free\<rparr>"

definition placed_sample :: "(place_outcome \<times> Experiment \<times> resolutionCache) option" where
  "placed_sample = placeQueued 3 sample_Q [] \<lparr>re_ListCapacityClaimed = Some [], re_LatestNode = (\<lambda>i. None)\<rparr> 0 sample_tick
     None sample_avail sample_exp newResolutionCache"

theorem placeQueued_may_run_witness:
  "\<exists>qp e' ca'. placed_sample = Some (PlacedAt qp, e', ca') \<and> qp_cluster qp = ''near'' \<and> qp_cluster qp \<in> set (keys sample_avail)"
proof -
  have "(case placed_sample of Some (PlacedAt qp, r) \<Rightarrow> qp_cluster qp = ''near'' | _ \<Rightarrow> False)" by code_simp
  then obtain qp e' ca' where p: "placed_sample = Some (PlacedAt qp, e', ca')" "qp_cluster qp = ''near''"
    by (auto split: option.splits place_outcome.splits)
  have n: "ex_ClusterName sample_exp = []" by code_simp
  have "qp_cluster qp \<in> set (keys sample_avail)"
    using placeQueued_may_run [OF p(1) [unfolded placed_sample_def] n] p(2) by simp
  with p show ?thesis by blast
qed

text \<open>withoutFailed leaves a cluster the environment failed the job on out, unless that would leave nothing that could run the job. The
  result is part of the candidates; a cluster that did not fail the job is never left out; while a cluster left could
  run the job no failed one is in the result; and where some candidate could run the job, some cluster of the result can.\<close>

theorem withoutFailed_spares_last:
  fixes Q :: quantity_lib and clusterIDs :: "(string, string) gomap" and cands e ttl now
  assumes "0 < ttl"
  defines "out \<equiv> withoutFailed Q cands clusterIDs e ttl now"
  shows "set out \<subseteq> set cands
    \<and> (\<forall>x \<in> set cands. \<not> failed_on clusterIDs e ttl now (fst x) \<longrightarrow> x \<in> set out)
    \<and> ((\<exists>x \<in> set cands. \<not> failed_on clusterIDs e ttl now (fst x) \<and> couldHost Q (snd x) e)
         \<longrightarrow> (\<forall>x \<in> set out. \<not> failed_on clusterIDs e ttl now (fst x)))
    \<and> ((\<exists>x \<in> set cands. couldHost Q (snd x) e) \<longrightarrow> (\<exists>x \<in> set out. couldHost Q (snd x) e))"
proof (cases "ex_TriedClusters e = []")
  case True
  then have "out = cands" "\<not> failed_on clusterIDs e ttl now cl" for cl
    by (auto simp: out_def withoutFailed_def failed_on_def triedRecently_def)
  then show ?thesis by auto
next
  case False
  let ?kept = "filter (\<lambda>x. \<not> failed_on clusterIDs e ttl now (fst x)) cands"
  have out: "out = (if list_ex (\<lambda>x. couldHost Q (snd x) e) ?kept then ?kept else cands)"
    using False assms(1) by (simp add: out_def withoutFailed_def Let_def case_prod_unfold)
  show ?thesis
  proof (cases "\<exists>x \<in> set ?kept. couldHost Q (snd x) e")
    case True
    then have "out = ?kept" unfolding out by (simp add: list_ex_iff)
    with True show ?thesis by simp
  next
    case False
    then have "\<not> list_ex (\<lambda>x. couldHost Q (snd x) e) ?kept" unfolding list_ex_iff .
    then have o: "out = cands" unfolding out by (rule if_not_P)
    have "\<not> (\<exists>x \<in> set cands. \<not> failed_on clusterIDs e ttl now (fst x) \<and> couldHost Q (snd x) e)"
    proof
      assume "\<exists>x \<in> set cands. \<not> failed_on clusterIDs e ttl now (fst x) \<and> couldHost Q (snd x) e"
      then obtain x where "x \<in> set ?kept" "couldHost Q (snd x) e" by auto
      with False show False by blast
    qed
    then show ?thesis unfolding o by (intro conjI subset_refl ballI impI) (assumption | erule (1) notE)+
  qed
qed

theorem withoutFailed_spares_last_witness:
  "set (withoutFailed sample_Q sample_avail [(''near'', ''id-near'')] (sample_exp\<lparr>ex_TriedClusters := [\<lparr>tc_ClusterID = ''id-near'', tc_At = 5, tc_Reason = []\<rparr>]\<rparr>) 60 10)
     \<subseteq> set sample_avail
   \<and> keys (withoutFailed sample_Q sample_avail [(''near'', ''id-near'')] (sample_exp\<lparr>ex_TriedClusters := [\<lparr>tc_ClusterID = ''id-near'', tc_At = 5, tc_Reason = []\<rparr>]\<rparr>) 60 10) = [''far'']"
proof -
  have "keys (withoutFailed sample_Q sample_avail [(''near'', ''id-near'')] (sample_exp\<lparr>ex_TriedClusters := [\<lparr>tc_ClusterID = ''id-near'', tc_At = 5, tc_Reason = []\<rparr>]\<rparr>) 60 10) = [''far'']"
    by code_simp
  then show ?thesis using withoutFailed_spares_last [of 60 sample_Q sample_avail] by simp
qed

subsection \<open>A job no wait admits\<close>

lemma set_hostingClusters: "set (hostingClusters registered e) = {c. (\<exists>n. (n, c) \<in> set registered) \<and> Hosts c (ex_OrgID e)}"
  by (force simp: hostingClusters_def)

text \<open>a job is told it fits no connected cluster only when that is so. Where neverFitsReason gives a reason, every registered cluster
  that takes the job, reports what it has, runs jobs over nodes if the job spans them, has the image's architecture and is not
  closed to it by the project's compute limit neither holds the job when idle nor may scale up for it; and where no cluster may
  run it and one of them lacks what it asks for, the reason is that it exceeds what the clusters have.\<close>

theorem neverFitsReason_exact:
  fixes Q :: quantity_lib and rates :: "(string, rat) gomap" and inst :: installed and e :: Experiment and cpuRate :: rat
  defines "limited \<equiv> is_limited rates cpuRate inst e"
  defines "reason \<equiv> neverFitsReason Q rates cpuRate inst e"
  shows "(reason \<noteq> None \<longrightarrow> (\<forall>n c reported. (n, c) \<in> set (in_registered inst) \<and> Hosts c (ex_OrgID e)
        \<and> map_of (in_totals inst) (cl_Name c) = Some reported \<and> \<not> (limited \<and> OfPlatform c)
        \<and> (Nodes (ex_Job e) > 1 \<longrightarrow> cl_Name c \<in> set (in_multiNode inst))
        \<and> (ex_ImageArchitecture e = [] \<or> ex_ImageArchitecture e \<in> set (NodeArchitectures (mget [] (in_nodeLabels inst) (cl_Name c))))
        \<longrightarrow> \<not> FitsWhenIdle Q reported (mget [] (in_nodeTotals inst) (cl_Name c)) (mget [] (in_nodeLabels inst) (cl_Name c)) e
          \<and> \<not> (cl_Name c \<in> set (in_scalesUp inst) \<and> NodesWithin (EffectiveJob e) \<noteq> NodesWithinPlacementGroup)))
    \<and> ((\<forall>n c. (n, c) \<in> set (in_registered inst) \<and> Hosts c (ex_OrgID e) \<longrightarrow> judge Q inst limited e c \<noteq> MayRun)
        \<and> (\<exists>n c. (n, c) \<in> set (in_registered inst) \<and> Hosts c (ex_OrgID e) \<and> is_lacking (judge Q inst limited e c))
        \<longrightarrow> (\<exists>hosts apart. reason = Some (ExceedsClusterCapacity hosts apart)))"
proof (intro conjI impI)
  let ?vs = "map (judge Q inst limited e) (hostingClusters (in_registered inst) e)"
  assume "reason \<noteq> None"
  then have no: "MayRun \<notin> set ?vs" by (auto simp: reason_def neverFitsReason_def limited_def Let_def)
  show "\<forall>n c reported. (n, c) \<in> set (in_registered inst) \<and> Hosts c (ex_OrgID e)
        \<and> map_of (in_totals inst) (cl_Name c) = Some reported \<and> \<not> (limited \<and> OfPlatform c)
        \<and> (Nodes (ex_Job e) > 1 \<longrightarrow> cl_Name c \<in> set (in_multiNode inst))
        \<and> (ex_ImageArchitecture e = [] \<or> ex_ImageArchitecture e \<in> set (NodeArchitectures (mget [] (in_nodeLabels inst) (cl_Name c))))
        \<longrightarrow> \<not> FitsWhenIdle Q reported (mget [] (in_nodeTotals inst) (cl_Name c)) (mget [] (in_nodeLabels inst) (cl_Name c)) e
          \<and> \<not> (cl_Name c \<in> set (in_scalesUp inst) \<and> NodesWithin (EffectiveJob e) \<noteq> NodesWithinPlacementGroup)"
  proof (intro allI impI)
    fix n c reported
    assume h: "(n, c) \<in> set (in_registered inst) \<and> Hosts c (ex_OrgID e)
        \<and> map_of (in_totals inst) (cl_Name c) = Some reported \<and> \<not> (limited \<and> OfPlatform c)
        \<and> (Nodes (ex_Job e) > 1 \<longrightarrow> cl_Name c \<in> set (in_multiNode inst))
        \<and> (ex_ImageArchitecture e = [] \<or> ex_ImageArchitecture e \<in> set (NodeArchitectures (mget [] (in_nodeLabels inst) (cl_Name c))))"
    then have "c \<in> set (hostingClusters (in_registered inst) e)" unfolding set_hostingClusters by blast
    with no have "judge Q inst limited e c \<noteq> MayRun" by (metis imageI set_map)
    with h show "\<not> FitsWhenIdle Q reported (mget [] (in_nodeTotals inst) (cl_Name c)) (mget [] (in_nodeLabels inst) (cl_Name c)) e
          \<and> \<not> (cl_Name c \<in> set (in_scalesUp inst) \<and> NodesWithin (EffectiveJob e) \<noteq> NodesWithinPlacementGroup)"
      unfolding judge_def Let_def by (auto split: if_splits)
  qed
next
  let ?vs = "map (judge Q inst limited e) (hostingClusters (in_registered inst) e)"
  assume h: "(\<forall>n c. (n, c) \<in> set (in_registered inst) \<and> Hosts c (ex_OrgID e) \<longrightarrow> judge Q inst limited e c \<noteq> MayRun)
        \<and> (\<exists>n c. (n, c) \<in> set (in_registered inst) \<and> Hosts c (ex_OrgID e) \<and> is_lacking (judge Q inst limited e c))"
  have no: "MayRun \<notin> set ?vs"
  proof
    assume "MayRun \<in> set ?vs"
    then obtain c where c: "c \<in> set (hostingClusters (in_registered inst) e)" "judge Q inst limited e c = MayRun" by auto
    then obtain n where "(n, c) \<in> set (in_registered inst)" "Hosts c (ex_OrgID e)" unfolding set_hostingClusters by blast
    with h c(2) show False by blast
  qed
  from h obtain n c where c: "(n, c) \<in> set (in_registered inst)" "Hosts c (ex_OrgID e)" "is_lacking (judge Q inst limited e c)" by blast
  then have "judge Q inst limited e c \<in> set ?vs" unfolding set_map set_hostingClusters by blast
  with c(3) have "filter is_lacking ?vs \<noteq> []" by (auto simp: filter_empty_conv)
  with no show "\<exists>hosts apart. reason = Some (ExceedsClusterCapacity hosts apart)"
    unfolding reason_def neverFitsReason_def Let_def limited_def by simp
qed

theorem neverFitsReason_exact_witness:
  "neverFitsReason sample_Q [] 0 (tk_whenIdle sample_tick) (sample_exp\<lparr>ex_Job := sample_job\<lparr>js_CPU := ''400''\<rparr>\<rparr>) \<noteq> None
   \<and> \<not> FitsWhenIdle sample_Q sample_total [] [] (sample_exp\<lparr>ex_Job := sample_job\<lparr>js_CPU := ''400''\<rparr>\<rparr>)"
proof -
  let ?e = "sample_exp\<lparr>ex_Job := sample_job\<lparr>js_CPU := ''400''\<rparr>\<rparr>"
  let ?near = "\<lparr>cl_Name = ''near'', cl_OrgID = ''o1'', cl_Priority = 5, cl_ReportedID = ''near'', cl_DisabledOrgs = []\<rparr>"
  have r: "neverFitsReason sample_Q [] 0 (tk_whenIdle sample_tick) ?e \<noteq> None" by code_simp
  have h: "(''near'', ?near) \<in> set (in_registered (tk_whenIdle sample_tick))" "Hosts ?near (ex_OrgID ?e)"
    "map_of (in_totals (tk_whenIdle sample_tick)) (cl_Name ?near) = Some sample_total"
    "\<not> (is_limited [] 0 (tk_whenIdle sample_tick) ?e \<and> OfPlatform ?near)" "\<not> Nodes (ex_Job ?e) > 1" "ex_ImageArchitecture ?e = []"
    "mget [] (in_nodeTotals (tk_whenIdle sample_tick)) (cl_Name ?near) = []" "mget [] (in_nodeLabels (tk_whenIdle sample_tick)) (cl_Name ?near) = []"
    by code_simp+
  show ?thesis
    using neverFitsReason_exact [of sample_Q "[]" 0 "tk_whenIdle sample_tick" ?e, THEN conjunct1, rule_format, OF r, of "''near''" ?near sample_total] h r by simp
qed

end
