(* ===== verification/Tick_Laws.thy ===== *)
theory Tick_Laws
  imports Tick Queue_Properties Place_Properties
begin

text \<open>
  Laws of a tick.  A relation between the states of a tick that is reflexive and transitive and that holds across each of the few
  things a pass does (\<open>guaranteed_law\<close>, \<open>burst_law\<close>) holds across the passes, whatever jobs there are and in whatever order they come.
\<close>

text \<open>A read leaves the world as others left it, whatever it reads.\<close>

lemma ask_read:
  assumes "\<And>db. snd (f db) = db"
  shows "snd (ask f t) = snd (ask (\<lambda>db. ((), db)) t)"
  using assms by (simp add: ask_def store_call_def case_prod_unfold Let_def split: list.split disturbance.split)

locale tick_law =
  fixes env :: tick_env and R :: "tickState \<Rightarrow> tickState \<Rightarrow> bool"
  assumes same [simp]: "R t t"
    and trans: "R a b \<Longrightarrow> R b c \<Longrightarrow> R a c"
    and cached [simp]: "R t (t\<lparr>ts_cache := ca\<rparr>)"
    and skipped [simp]: "R t (skipExperiment i err t)"
    and marked [simp]: "R t (mark env i r t)"
    and asked [simp]: "R t (snd (ask (\<lambda>db. ((), db)) t))"
begin

lemma after: "R a b \<Longrightarrow> (\<And>t. R t (f t)) \<Longrightarrow> R a (f b)"
  using trans by blast

lemma cached_then [simp]: "R t (skipExperiment i err (t\<lparr>ts_cache := ca\<rparr>))" "R t (mark env i r (t\<lparr>ts_cache := ca\<rparr>))"
  by (rule after [OF cached], simp)+

lemma place_queued_law: "R t (snd (place_queued l env avail quota e t))"
  by (simp add: place_queued_def split: option.split prod.split place_outcome.split)

lemma load_claimed_law: "R t (snd (load_claimed env i t))"
  by (simp add: load_claimed_def split: prod.split option.split)

lemma load_running_law: "R t (snd (snd (load_running i p t)))"
proof -
  have "R t (snd (ask (list_with_status StatusRunning) t))" 
    by (subst ask_read) (simp_all add: list_with_status_def)
  moreover from this have "R t (skipExperiment i RunningUnread (snd (ask (list_with_status StatusRunning) t)))" by (rule after) simp
  ultimately show ?thesis by (auto simp: load_running_def split: prod.split option.split)
qed

lemma fold_law:
  assumes "\<And>x t. x \<in> set xs \<Longrightarrow> R t (g x t)"
  shows "R t (fold g xs t)"
  using assms
proof (induction xs arbitrary: t)
  case (Cons x xs)
  from trans [OF Cons.prems [of x t] Cons.IH [of "g x t"]] Cons.prems show ?case by simp
qed simp

lemma fold_snd_law:
  assumes "\<And>x p t. x \<in> set xs \<Longrightarrow> R t (snd (g x (p, t)))"
  shows "R (snd pt) (snd (fold g xs pt))"
  using assms
proof (induction xs arbitrary: pt)
  case (Cons x xs)
  obtain p t where pt: "pt = (p, t)" by (cases pt)
  have "R (snd pt) (snd (g x pt))" unfolding pt using Cons.prems by simp
  from trans [OF this Cons.IH [of "g x pt"]] Cons.prems show ?case by simp
qed simp

lemma fetchQuotaMap_law: "R t (snd (snd (fetchQuotaMap get result failed es t)))"
proof (induction es arbitrary: result failed t)
  case (Cons e es)
  have "R t (snd (snd (fetchQuotaMap get result failed es (skipExperiment i err t))))" for result failed i err
    by (rule trans [OF skipped Cons.IH])
  with Cons.IH show ?case by (simp add: Let_def case_prod_unfold)
qed simp

lemma agent_cut_law: "R t (snd (snd (agent_cut e cuts t)))"
proof -
  have "R t (snd (ask (\<lambda>db. ((ex_PlatformExperimentID e, ex_AgentID e) \<in> set (db_cuts db), db)) t))"
    by (subst ask_read) simp_all
  then show ?thesis by (auto simp: agent_cut_def Let_def split: prod.split option.split)
qed

lemma admissible_law: "R t (snd (admissible env seen cuts es t))"
proof (induction es arbitrary: seen cuts t)
  case (Cons e es)
  have skip: "R t (snd (admissible env seen cuts es (skipExperiment i err t)))" for seen cuts i err t
    by (rule trans [OF skipped Cons.IH])
  have mark: "R t (snd (admissible env seen cuts es (mark env i r t)))" for seen cuts i r t
    by (rule trans [OF marked Cons.IH])
  obtain answer cuts' t' where cut: "agent_cut e cuts t = (answer, cuts', t')" by (metis prod_cases3)
  then have "R t t'" using agent_cut_law [of t e cuts] by simp
  then have later: "R t (snd (admissible env seen cuts' es (skipExperiment (ex_ID e) CutUnread t')))"
      "R t (snd (admissible env seen cuts' es (mark env (ex_ID e) StageCutWait t')))" "R t (snd (admissible env seen cuts' es t'))" for seen
    using trans skip mark Cons.IH by blast+
  show ?case
    using skip mark later Cons.IH
    by (simp add: cut case_prod_unfold split: sum.split option.split bool.split)
qed simp

end

subsection \<open>The jobs of a pass\<close>

text \<open>A pass orders and leaves out jobs, it makes none up.\<close>

lemma admissible_subset: "admissible env seen cuts es t = (kept, t') \<Longrightarrow> set kept \<subseteq> set es"
proof (induction es arbitrary: seen cuts t kept t')
  case (Cons e es)
  have tail: "set k \<subseteq> set (e # es)" if "admissible env s c es t0 = (k, t')" for s c t0 k using Cons.IH [OF that] by auto
  from Cons.prems show ?case
    by (auto split: if_splits sum.splits prod.splits option.splits bool.splits dest!: tail dest: subsetD)
qed simp

lemma fetchQuotaMap_subset: "fetchQuotaMap get result failed es t = (kept, quotas, t') \<Longrightarrow> set kept \<subseteq> set es"
proof (induction es arbitrary: result failed t kept quotas t')
  case (Cons e es)
  have tail: "set k \<subseteq> set (e # es)" if "fetchQuotaMap get r f es t0 = (k, q, t1)" for r f t0 k q t1 using Cons.IH [OF that] by auto
  from Cons.prems show ?case
    by (auto simp: Let_def split: if_splits prod.splits dest!: tail dest: subsetD)
qed simp

lemma in_turn_set: "set (in_turn xs) = set xs"
  using interleaveByAgent_whole [of xs] by (auto simp: in_turn_def or_empty_def dest: mset_eq_setD)

lemma set_sorted [simp]: "set (sortGuaranteed es quotas completion window) = set es" "set (sortBurst es quotas completion) = set es"
  by (simp_all add: sortGuaranteed_def sortBurst_def)

subsection \<open>Waiting\<close>

text \<open>
  What a pass asks for: \<open>fair\<close> holds of the jobs it is given and \<open>asks\<close> of the footprints they are placed with.
\<close>

locale waiting_law = tick_law env R for env and R +
  fixes l :: Loop and tier :: CapacityTier and fair :: "Experiment \<Rightarrow> bool" and asks :: "Footprint \<Rightarrow> bool"
  assumes placed_asks: "fair e \<Longrightarrow> place_queued l env avail quota e t = (Some (placed, e'), t') \<Longrightarrow> asks (qp_fp placed)"
    and held: "asks fp \<Longrightarrow> R t (hold_room l tier cluster fp e t)"
    and balanced [simp]: "R t (disbalance_once l env cluster views fp e t)"
begin

lemma wait_short_law: "asks fp \<Longrightarrow> R t (wait_short l env tier fitAtStart covers freed missing cluster fp e t)"
proof -
  assume fp: "asks fp"
  obtain claimed t' where c: "load_claimed env (ex_ID e) t = (claimed, t')" by force
  then have "R t t'" using load_claimed_law [of t "ex_ID e"] by simp
  moreover have "R t' (mark env i r (hold_room l tier cluster fp e t'))" for i r by (rule after [OF held [OF fp]]) simp
  ultimately show ?thesis using trans by (auto simp: wait_short_def c split: option.split)
qed

end

locale burst_law = waiting_law env R l CapacityBurst fair asks for env and R and l and fair and asks +
  assumes admitted: "asks fp \<Longrightarrow> Fits (mget [] (ts_bAvail t) cluster) fp \<Longrightarrow> R t (admit l env CapacityBurst e cluster persisted fp t)"
begin

lemma burstWait_law: "asks (qp_fp placed) \<Longrightarrow> R t (burstWait l env e placed t)"
proof -
  assume fp: "asks (qp_fp placed)"
  have "R t (mark env i r (disbalance_once l env cluster views fp e t))" for i r cluster views fp by (rule after [OF balanced]) simp
  moreover have "R t (wait_short l env CapacityBurst a b c d cluster (qp_fp placed) e (disbalance_once l env cluster' views fp' e t))" for a b c d cluster cluster' views fp'
    by (rule after [OF balanced wait_short_law [OF fp]])
  ultimately show ?thesis using wait_short_law [OF fp] by (simp add: burstWait_def Let_def split: option.split)
qed

lemma admitBurst_law: "fair e \<Longrightarrow> R t (admitBurst l env quotas e t)"
proof -
  assume e: "fair e"
  obtain res t' where p: "place_queued l env (ts_bAvail t) (quota_of quotas e) e t = (res, t')" by force
  then have "R t t'" using place_queued_law [of t l "ts_bAvail t" "quota_of quotas e" e] by simp
  show ?thesis
  proof (cases res)
    case None
    with \<open>R t t'\<close> p show ?thesis by (simp add: admitBurst_def)
  next
    case (Some pe)
    obtain placed e' where pe: "pe = (placed, e')" by force
    have fp: "asks (qp_fp placed)" using placed_asks [OF e p [unfolded Some pe]] .
    have "R t (burstWait l env e' placed t')" by (rule trans [OF \<open>R t t'\<close> burstWait_law [OF fp]])
    moreover have "Fits (mget [] (ts_bAvail t') cluster) (qp_fp placed) \<Longrightarrow> R t (admit l env CapacityBurst e' cluster persisted (qp_fp placed) t')" for cluster persisted
      by (rule trans [OF \<open>R t t'\<close> admitted [OF fp]])
    ultimately show ?thesis by (simp add: admitBurst_def p Some pe Let_def)
  qed
qed

lemma burstPass_law: "\<forall>e \<in> set queued. fair e \<Longrightarrow> R t (burstPass l env queued t)"
proof -
  assume queued: "\<forall>e \<in> set queued. fair e"
  obtain burst quotas t' where f: "fetchQuotaMap (te_GetAgentQuota env CapacityBurst) [] [] (filterTier queued CapacityBurst) t = (burst, quotas, t')"
    by (metis prod_cases3)
  then have "R t t'" using fetchQuotaMap_law by (metis snd_conv)
  moreover have "fair e" if "e \<in> set (in_turn (sortBurst burst quotas (ts_completion t')))" for e
    using that fetchQuotaMap_subset [OF f] queued by (auto simp: in_turn_set filterTier_def)
  then have "R t' (fold (admitBurst l env quotas) (in_turn (sortBurst burst quotas (ts_completion t'))) t')"
    by (intro fold_law admitBurst_law)
  ultimately show ?thesis using trans by (simp add: burstPass_def f)
qed

end

subsection \<open>The guaranteed pass\<close>

locale guaranteed_law = waiting_law env R l CapacityGuaranteed fair asks for env and R and l and fair and asks +
  assumes admitted: "asks fp \<Longrightarrow> Fits (mget [] (ts_gAvail t) cluster) fp \<Longrightarrow> R t (admit l env CapacityGuaranteed e cluster persisted fp t)"
    and submitted [simp]: "R t (snd (snd (submit_to l env e cluster clusterID persisted True provenFit t)))"
    and bet [simp]: "R t (note_event (Bet i cluster n) (t\<lparr>ts_speculativeFootprint := footprint\<rparr>))"
    and preempted [simp]: "R t (snd (preempt_on l env cluster running e t))"
    and kept: "asks fp \<Longrightarrow> R t (keep_from_burst cluster fp t)"
    and promised [simp]: "R t (t\<lparr>ts_desiredFree := free\<rparr>)"
begin

lemma bets_for_law: "R t (snd (bets_for l env placed liveFits e t))"
  by (simp add: bets_for_def Let_def case_prod_unfold split: sum.split)

lemma resolve_bet_law: "R t (snd (resolve_bet l env cluster specCluster e t))"
  by (simp add: resolve_bet_def Let_def case_prod_unfold split: sum.split)

lemma submitSpeculative_law: "R t (submitSpeculative l env e cluster specCluster persisted provenFit t)"
proof -
  obtain res t' where r: "resolve_bet l env cluster specCluster e t = (res, t')" by force
  then have start: "R t t'" using resolve_bet_law [of t cluster specCluster e] by simp
  have "R t' (mark env i r (snd (snd (submit_to l env e' specCluster clusterID persisted True provenFit t'))))" for i r e' clusterID
    by (rule after [OF submitted]) simp
  moreover have "R t' (note_event (Bet i c n) (t''\<lparr>ts_speculativeFootprint := footprint\<rparr>))"
    if "t'' = snd (snd (submit_to l env e' specCluster clusterID persisted True provenFit t'))" for i c n t'' e' clusterID footprint
    unfolding that by (rule trans [OF submitted bet])
  ultimately show ?thesis
    using start by (auto simp: submitSpeculative_def r Let_def case_prod_unfold split: option.split intro: trans [OF start])
qed

lemma promise_slots_law: "R t (snd (snd (promise_slots l env cluster e p t)))"
proof -
  obtain claimed t' where "load_claimed env (ex_ID e) t = (claimed, t')" by force
  moreover from this have "R t t'" using load_claimed_law [of t "ex_ID e"] by simp
  ultimately show ?thesis by (simp add: promise_slots_def Let_def split: option.split sum.split prod.split bool.split)
qed

lemma after_preempt_law: "asks fp \<Longrightarrow> R t (after_preempt l env cluster fp e slots promised' result t)"
proof -
  assume fp: "asks fp"
  let ?a = "case result of Partly n planned \<Rightarrow> skipExperiment (ex_ID e) (PreemptPartly n planned) t | _ \<Rightarrow> t"
  let ?b = "if \<not> slots \<and> (promised' \<or> result = Committed) then keep_from_burst cluster fp ?a else ?a"
  let ?c = "if promised' then ?b\<lparr>ts_desiredFree := sub_view cluster fp (ts_desiredFree ?b)\<rparr> else ?b"
  have a: "R t ?a" by (simp split: preempt_result.split)
  have b: "R ?a ?b" using kept [OF fp] by simp
  have c: "R ?b ?c" by simp
  have whole: "R t ?c" by (rule trans [OF a trans [OF b c]])
  then have "R t (disbalance_once l env cluster views fp e ?c)" for views by (rule trans) simp
  with whole show ?thesis unfolding after_preempt_def Let_def by presburger
qed

lemma guaranteed_wait_law: "asks (qp_fp placed) \<Longrightarrow> R t (guaranteed_wait l env placed e leaving scaling covers promised' missing t)"
  using wait_short_law by (simp add: guaranteed_wait_def Let_def split: option.split)

lemma makeRoom_law: "asks (qp_fp placed) \<Longrightarrow> R t (snd (makeRoom l env e placed scalarFits (p, t)))"
proof -
  assume fp: "asks (qp_fp placed)"
  obtain running p1 t1 where run: "load_running (ex_ID e) p t = (running, p1, t1)" by (metis prod_cases3)
  obtain slots p2 t2 where slots: "promise_slots l env (qp_cluster placed) e p1 t1 = (slots, p2, t2)" by (metis prod_cases3)
  have t1: "R t t1" using load_running_law [of t "ex_ID e" p] run by simp
  have t2: "R t t2" using trans [OF t1] promise_slots_law [of t1 "qp_cluster placed" e p1] slots by simp
  have t3: "R t (snd (preempt_on l env cluster running e t2))" for cluster running by (rule trans [OF t2 preempted])
  have "R t (guaranteed_wait l env placed e leaving scaling covers promised' missing (after_preempt l env cluster (qp_fp placed) e slots promised'' result t3))"
    if "R t t3" for leaving scaling covers promised' missing cluster slots promised'' result t3
    by (rule trans [OF that trans [OF after_preempt_law [OF fp] guaranteed_wait_law [OF fp]]])
  with t1 t2 t3 show ?thesis
    by (auto simp: makeRoom_def run slots Let_def case_prod_unfold split: option.split)
qed

lemma bets_for_avail: "ts_gAvail (snd (bets_for l env placed liveFits e t)) = ts_gAvail t"
  by (simp add: bets_for_def Let_def case_prod_unfold skipExperiment_def split: sum.split)

lemma admitGuaranteed_law: "fair e \<Longrightarrow> R t (snd (admitGuaranteed l env quotas e (p, t)))"
proof -
  assume e: "fair e"
  obtain res t1 where place: "place_queued l env (ts_gAvail t) (quota_of quotas e) e t = (res, t1)" by force
  then have t1: "R t t1" using place_queued_law [of t l "ts_gAvail t" "quota_of quotas e" e] by simp
  show ?thesis
  proof (cases res)
    case None
    with t1 place show ?thesis by (simp add: admitGuaranteed_def)
  next
    case (Some pe)
    obtain placed e' where pe: "pe = (placed, e')" by force
    let ?c = "ts_clusters t1" and ?cluster = "qp_cluster placed"
    let ?scalar = "Fits (mget [] (ts_gAvail t1) ?cluster) (qp_fp placed)"
    let ?live = "?scalar \<and> TopologyFits (lp_Q l) (mget [] (tk_nodeAvail ?c) ?cluster) (mget [] (tk_nodeRes ?c) ?cluster)
                           (mget [] (tk_nodeLabels ?c) ?cluster) e'"
    obtain bets t2 where bets: "bets_for l env placed ?live e' t1 = (bets, t2)" by force
    then have t2: "R t t2" using trans [OF t1] bets_for_law [of t1 placed ?live e'] by simp
    have avail: "ts_gAvail t2 = ts_gAvail t1" using bets_for_avail [of placed ?live e' t1] bets by simp
    have fp: "asks (qp_fp placed)" using placed_asks [OF e place [unfolded Some pe]] .
    have "R t (submitSpeculative l env b a c d f t2)" "R t (snd (makeRoom l env b placed g (p, t2)))" for a b c d f g
      by (rule trans [OF t2 submitSpeculative_law], rule trans [OF t2 makeRoom_law [OF fp]])
    moreover have "?live \<Longrightarrow> R t (admit l env CapacityGuaranteed b ?cluster d (qp_fp placed) t2)" for b d
      using trans [OF t2 admitted [OF fp]] avail by metis
    ultimately show ?thesis
      using t1 t2 by (simp add: admitGuaranteed_def place Some pe bets Let_def split: option.split prod.split list.split)
  qed
qed

lemma guaranteedPass_law: "\<forall>e \<in> set queued. fair e \<Longrightarrow> R t (guaranteedPass l env queued t)"
proof -
  assume queued: "\<forall>e \<in> set queued. fair e"
  obtain jobs quotas t' where f: "fetchQuotaMap (te_GetAgentQuota env CapacityGuaranteed) [] [] (filterTier queued CapacityGuaranteed) t = (jobs, quotas, t')"
    by (metis prod_cases3)
  then have "R t t'" using fetchQuotaMap_law by (metis snd_conv)
  moreover have fair: "fair e" if "e \<in> set (in_turn (sortGuaranteed jobs quotas (ts_completion t') (lp_guaranteedFairnessWindow l)))" for e
    using that fetchQuotaMap_subset [OF f] queued by (auto simp: in_turn_set filterTier_def)
  have "R t' (snd (fold (admitGuaranteed l env quotas)
      (in_turn (sortGuaranteed jobs quotas (ts_completion t') (lp_guaranteedFairnessWindow l))) (p, t')))" for p
    using fold_snd_law [of _ "admitGuaranteed l env quotas" "(p, t')", OF admitGuaranteed_law [OF fair]] by simp
  ultimately show ?thesis using trans by (simp add: guaranteedPass_def f)
qed

end

text \<open>A relation that both passes keep is kept by all a tick does between its reads and its end.\<close>

locale passes_law = guaranteed_law env R l fair asks + burst: burst_law env R l fair asks for env and R and l and fair and asks +
  assumes prepared [simp]: "R t (t\<lparr>ts_said := said, ts_completion := completion\<rparr>)"
    and finished [simp]: "R t (finishTick l env t)"
begin

lemma run_passes_law: "\<forall>x \<in> set rows. fair (jr_job x) \<Longrightarrow> R t (run_passes l env rows t)"
proof -
  assume rows: "\<forall>x \<in> set rows. fair (jr_job x)"
  let ?t = "t\<lparr>ts_said := map (\<lambda>x. (ex_ID (jr_job x), coalesce (jr_NotAdmittedReason x))) rows,
     ts_completion := completionFractions (te_observed env []) (map jr_job rows)\<rparr>"
  obtain queued t' where a: "admissible env [] [] (map jr_job rows) ?t = (queued, t')" by force
  have "R ?t t'" using admissible_law [of ?t "[]" "[]" "map jr_job rows"] a by simp
  then have "R t t'" by (rule trans [OF prepared])
  have "\<forall>e \<in> set queued. fair e" using admissible_subset [OF a] rows by auto
  from trans [OF \<open>R t t'\<close> trans [OF guaranteedPass_law [OF this] trans [OF burst.burstPass_law [OF this] finished]]]
  show ?thesis by (simp add: run_passes_def Let_def a)
qed

end

end
