(* ===== verification/Lifecycle.thy ===== *)
theory Lifecycle
  imports JobRows
begin

text \<open>
  The life of a job row as a state machine: one rule for each statement of theory JobRows under the
  condition its callers call it in, runs of them, and the laws every statement of the store keeps.
  A predicate on rows that every rule keeps (locale \<open>row_law\<close>) holds of every row the store can reach.
\<close>

datatype row_op =
  Claim | Start | Finish ExperimentStatus | Preempted | Retry | InfraRequeue | Terminate ExperimentStatus
| EndQueued ExperimentStatus | Withdraw | Settled | Note

text \<open>The retries a job asks for (\<open>job.max_retries\<close>).\<close>

definition retry_budget :: "job_row \<Rightarrow> int" where
  "retry_budget r = (case js_MaxRetries (ex_Job (jr_job r)) of None \<Rightarrow> 0 | Some m \<Rightarrow> m)"

text \<open>A note leaves status, placement, counters and the job's spec alone; it may give a queued job another queue reason.\<close>

definition same_life :: "job_row \<Rightarrow> job_row \<Rightarrow> bool" where
  "same_life r r' \<longleftrightarrow>
     jr_Status r' = jr_Status r \<and> jr_EvictionReason r' = jr_EvictionReason r \<and> jr_SubmittedAt r' = jr_SubmittedAt r
     \<and> jr_EndedAt r' = jr_EndedAt r \<and> jr_QuotaSettledAt r' = jr_QuotaSettledAt r
     \<and> (jr_NotAdmittedReason r' = jr_NotAdmittedReason r
          \<or> jr_Status r = StatusQueued \<and> jr_NotAdmittedReason r' \<noteq> None)
     \<and> ex_ClusterName (jr_job r') = ex_ClusterName (jr_job r) \<and> ex_ResolvedJob (jr_job r') = ex_ResolvedJob (jr_job r)
     \<and> ex_ID (jr_job r') = ex_ID (jr_job r) \<and> ex_Job (jr_job r') = ex_Job (jr_job r) \<and> ex_AttemptCount (jr_job r') = ex_AttemptCount (jr_job r)
     \<and> ex_InfraRequeueCount (jr_job r') = ex_InfraRequeueCount (jr_job r)
     \<and> ex_AgentID (jr_job r') = ex_AgentID (jr_job r) \<and> ex_PlatformExperimentID (jr_job r') = ex_PlatformExperimentID (jr_job r)
     \<and> jr_SubmissionKey r' = jr_SubmissionKey r"

inductive row_step :: "int \<Rightarrow> row_op \<Rightarrow> job_row \<Rightarrow> job_row \<Rightarrow> bool" for maxInfra :: int where
  claim: "row_step maxInfra Claim r (claim_row now cluster resolved rate r)"
    if "jr_Status r = StatusQueued" and "cluster \<noteq> []"
| start: "row_step maxInfra Start r (start_row now r)"
    if "jr_Status r = StatusSubmitted"
| finish: "row_step maxInfra (Finish to) r (finish_row now to reason r)"
    if "jr_Status r = StatusRunning" and "to = StatusCompleted \<and> reason = None \<or> to = StatusFailed"
| preempted: "row_step maxInfra Preempted r (preempt_row now hours cost r)"
    if "jr_Status r = StatusRunning"
| retry: "row_step maxInfra Retry r (retry_row now r)"
    if "jr_Status r \<in> set PlacedStatuses" and "RetriesUsed (jr_job r) < retry_budget r"
| infra: "row_step maxInfra InfraRequeue r (infra_row clusters now reason r)"
    if "\<not> Ended (jr_Status r)" and "ex_InfraRequeueCount (jr_job r) < maxInfra" and "IsInfrastructureFault reason"
| terminate: "row_step maxInfra (Terminate to) r (finish_row now to (Some reason) r)"
    if "\<not> Ended (jr_Status r)" and "to = StatusEvicted \<or> to = StatusRejected"
| end_queued: "row_step maxInfra (EndQueued to) r ((finish_row now to (Some reason) r)\<lparr>jr_QuotaSettledAt := Some now\<rparr>)"
    if "jr_Status r = StatusQueued" and "to = StatusEvicted \<or> to = StatusRejected"
| withdraw: "row_step maxInfra Withdraw r (withdraw_row now r)"
    if "jr_Status r \<in> set PlacedStatuses"
| settled: "row_step maxInfra Settled r (r\<lparr>jr_QuotaSettledAt := Some now\<rparr>)"
    if "Ended (jr_Status r)"
| noted: "row_step maxInfra Note r r'"
    if "same_life r r'"

inductive_cases row_stepE: "row_step maxInfra opn r r'"

inductive row_run :: "int \<Rightarrow> row_op list \<Rightarrow> job_row \<Rightarrow> job_row \<Rightarrow> bool" for maxInfra :: int where
  empty: "row_run maxInfra [] r r"
| step: "row_run maxInfra ops r r' \<Longrightarrow> row_step maxInfra opn r' r'' \<Longrightarrow> row_run maxInfra (ops @ [opn]) r r''"

lemmas row_writes = claim_row_def start_row_def finish_row_def preempt_row_def retry_row_def infra_row_def
  withdraw_row_def unplace_row_def

lemma placed_iff: "s \<in> set PlacedStatuses \<longleftrightarrow> s = StatusSubmitted \<or> s = StatusRunning"
  by (auto simp: PlacedStatuses_def)

lemma placed_not_ended: "s \<in> set PlacedStatuses \<Longrightarrow> \<not> Ended s"
  by (auto simp: placed_iff Ended_def)

lemmas row_facts = row_writes Let_def placed_iff Ended_def retry_budget_def RetriesUsed_def

subsection \<open>Laws of the row\<close>

locale row_law =
  fixes maxInfra :: int and law :: "job_row \<Rightarrow> bool"
  assumes law_step: "row_step maxInfra opn r r' \<Longrightarrow> law r \<Longrightarrow> law r'"
begin

lemma law_run: "row_run maxInfra ops r r' \<Longrightarrow> law r \<Longrightarrow> law r'"
  by (induction rule: row_run.induct) (auto intro: law_step)

end

text \<open>
  The constraints of the table (storage/db/schema.sql, experiments_status, experiments_queue_reason_consistent,
  experiments_reason_of_attempt), and what the columns say together: a placed job has its cluster, its submission time
  and the job the runtime runs, a queued one has neither of the last two, and only a job that ended has an end or is settled.
\<close>

definition row_ok :: "job_row \<Rightarrow> bool" where
  "row_ok r \<longleftrightarrow>
     jr_Status r \<noteq> StatusCancelled
     \<and> (jr_Status r = StatusQueued \<longleftrightarrow> jr_NotAdmittedReason r \<noteq> None)
     \<and> (jr_EvictionReason r = None \<or> jr_Status r \<notin> {StatusSubmitted, StatusRunning, StatusCompleted})
     \<and> (jr_Status r \<in> set PlacedStatuses \<longrightarrow>
          ex_ClusterName (jr_job r) \<noteq> [] \<and> jr_SubmittedAt r \<noteq> None \<and> ex_ResolvedJob (jr_job r) \<noteq> None)
     \<and> (jr_Status r = StatusQueued \<longrightarrow> jr_SubmittedAt r = None \<and> ex_ResolvedJob (jr_job r) = None)
     \<and> (jr_EndedAt r \<noteq> None \<longleftrightarrow> Ended (jr_Status r))
     \<and> (jr_QuotaSettledAt r \<noteq> None \<longrightarrow> Ended (jr_Status r))"

interpretation well_formed: row_law maxInfra row_ok for maxInfra
proof
  fix opn r r'
  assume "row_step maxInfra opn r r'" and "row_ok r"
  then show "row_ok r'"
    by (cases rule: row_step.cases; cases "jr_Status r"; force simp: row_ok_def same_life_def row_facts)
qed

text \<open>The counters: attempts the environment ended are attempts, and the job's own failures stay within its retries.\<close>

definition counters_ok :: "job_row \<Rightarrow> bool" where
  "counters_ok r \<longleftrightarrow>
     0 \<le> ex_InfraRequeueCount (jr_job r) \<and> 0 \<le> RetriesUsed (jr_job r)
     \<and> RetriesUsed (jr_job r) \<le> max 0 (retry_budget r)"

interpretation counters: row_law maxInfra counters_ok for maxInfra
proof
  fix opn r r'
  assume "row_step maxInfra opn r r'" and "counters_ok r"
  then show "counters_ok r'"
    by (cases rule: row_step.cases) (auto simp: counters_ok_def same_life_def row_facts)
qed

text \<open>The submitted spec and the id are never rewritten.\<close>

interpretation same_spec: row_law maxInfra "\<lambda>r. ex_Job (jr_job r) = spec" for maxInfra spec
proof
  fix opn r r'
  assume "row_step maxInfra opn r r'" and "ex_Job (jr_job r) = spec"
  then show "ex_Job (jr_job r') = spec" by (cases rule: row_step.cases) (auto simp: same_life_def row_facts)
qed

interpretation same_id: row_law maxInfra "\<lambda>r. ex_ID (jr_job r) = i" for maxInfra i
proof
  fix opn r r'
  assume "row_step maxInfra opn r r'" and "ex_ID (jr_job r) = i"
  then show "ex_ID (jr_job r') = i" by (cases rule: row_step.cases) (auto simp: same_life_def row_facts)
qed

text \<open>Whose job it is and the key it was submitted with.\<close>

definition origin :: "job_row \<Rightarrow> string \<times> string \<times> string" where
  "origin r = (ex_AgentID (jr_job r), ex_PlatformExperimentID (jr_job r), jr_SubmissionKey r)"

interpretation same_origin: row_law maxInfra "\<lambda>r. origin r = orig" for maxInfra orig
proof
  fix opn r r'
  assume "row_step maxInfra opn r r'" and "origin r = orig"
  then show "origin r' = orig" by (cases rule: row_step.cases) (auto simp: origin_def same_life_def row_facts)
qed

text \<open>A job that ended stays as it ended.\<close>

interpretation ended: row_law maxInfra "\<lambda>r. jr_Status r = s \<and> jr_EvictionReason r = reason \<and> Ended s" for maxInfra s reason
proof
  fix opn r r'
  assume "row_step maxInfra opn r r'" and "jr_Status r = s \<and> jr_EvictionReason r = reason \<and> Ended s"
  then show "jr_Status r' = s \<and> jr_EvictionReason r' = reason \<and> Ended s"
    by (cases rule: row_step.cases) (auto simp: same_life_def row_facts)
qed

subsection \<open>What a run spends\<close>

lemma step_counts:
  assumes "row_step maxInfra opn r r'"
  shows "ex_AttemptCount (jr_job r') = ex_AttemptCount (jr_job r) + (if opn \<in> {Retry, InfraRequeue, Withdraw} then 1 else 0)"
    and "ex_InfraRequeueCount (jr_job r') = ex_InfraRequeueCount (jr_job r) + (if opn \<in> {InfraRequeue, Withdraw} then 1 else 0)"
  using assms by (cases rule: row_step.cases; auto simp: same_life_def row_facts)+

lemma run_counts:
  assumes "row_run maxInfra ops r r'"
  shows "ex_AttemptCount (jr_job r') = ex_AttemptCount (jr_job r)
      + int (count_list ops Retry + count_list ops InfraRequeue + count_list ops Withdraw)
    \<and> ex_InfraRequeueCount (jr_job r') = ex_InfraRequeueCount (jr_job r)
      + int (count_list ops InfraRequeue + count_list ops Withdraw)"
  using assms
proof (induction rule: row_run.induct)
  case (step ops r r' opn r'')
  with step_counts [OF step.hyps(2)] show ?case by auto
qed simp

text \<open>The allowance of free requeues bounds them, whatever else happens to the job.\<close>

lemma run_infra_bound:
  assumes "row_run maxInfra ops r r'" and "0 \<le> ex_InfraRequeueCount (jr_job r)"
  shows "count_list ops InfraRequeue \<le> nat maxInfra"
  using assms
proof (induction rule: row_run.induct)
  case (step ops r r' opn r'')
  show ?case
  proof (cases "opn = InfraRequeue")
    case True
    with step.hyps(2) have "ex_InfraRequeueCount (jr_job r') < maxInfra" by (auto elim: row_step.cases)
    with run_counts [OF step.hyps(1)] step.prems have "int (count_list ops InfraRequeue) < maxInfra" by linarith
    with True show ?thesis by simp
  next
    case False
    with step show ?thesis by simp
  qed
qed simp

subsection \<open>Statements of the store are steps\<close>

text \<open>The rows are taken by operations that \<open>may\<close> allows, where each row stands, and none is added or removed.\<close>

definition rows_by :: "(row_op \<Rightarrow> job_row \<Rightarrow> bool) \<Rightarrow> int \<Rightarrow> job_db \<Rightarrow> job_db \<Rightarrow> bool" where
  "rows_by may maxInfra db db' \<longleftrightarrow>
     db_clusters db' = db_clusters db \<and> keys (db_rows db') = keys (db_rows db)
     \<and> (\<forall>i r r'. map_of (db_rows db) i = Some r \<longrightarrow> map_of (db_rows db') i = Some r' \<longrightarrow>
          r' = r \<or> (\<exists>opn. may opn r \<and> row_step maxInfra opn r r'))"

abbreviation any_op :: "row_op \<Rightarrow> job_row \<Rightarrow> bool" where
  "any_op \<equiv> \<lambda>_ _. True"

abbreviation rows_step :: "int \<Rightarrow> job_db \<Rightarrow> job_db \<Rightarrow> bool" where
  "rows_step \<equiv> rows_by any_op"

text \<open>The insert of a submitted job, under an id and a key no row has.\<close>

definition inserts :: "job_db \<Rightarrow> job_db \<Rightarrow> bool" where
  "inserts db db' \<longleftrightarrow>
     db_clusters db' = db_clusters db
     \<and> (\<exists>s. ex_ID (sub_exp s) \<notin> set (keys (db_rows db)) \<and> \<not> key_taken s db \<and> sub_Status s = StatusQueued \<and> sub_NotAdmittedReason s \<noteq> []
          \<and> db_rows db' = db_rows db @ [(ex_ID (sub_exp s), new_row s)])"

text \<open>A registration or a withdrawal of a cluster; a cluster has a name.\<close>

definition reclusters :: "job_db \<Rightarrow> job_db \<Rightarrow> bool" where
  "reclusters db db' \<longleftrightarrow> db_rows db' = db_rows db \<and> [] \<notin> set (keys (db_clusters db'))"

text \<open>What any process may do to the store.\<close>

definition store_step :: "int \<Rightarrow> job_db \<Rightarrow> job_db \<Rightarrow> bool" where
  "store_step maxInfra db db' \<longleftrightarrow> rows_step maxInfra db db' \<or> inserts db db' \<or> reclusters db db'"

lemma mput_fresh: "k \<notin> set (keys m) \<Longrightarrow> mput k v m = m @ [(k, v)]"
  by (induction m) (auto simp: mput_def keys_def)

lemma rows_by_refl [simp]: "rows_by may maxInfra db db"
  by (simp add: rows_by_def)

lemma rows_by_mono: "(\<And>opn r. may opn r \<Longrightarrow> may' opn r) \<Longrightarrow> rows_by may maxInfra \<le> rows_by may' maxInfra"
  by (auto simp: rows_by_def le_fun_def) blast

lemma rows_by_store: "rows_by may maxInfra \<le> store_step maxInfra"
  using rows_by_mono [of may any_op maxInfra] by (auto simp: store_step_def le_fun_def)

lemma write_job_by:
  assumes "\<And>r. map_of (db_rows db) i = Some r \<Longrightarrow> guard r \<Longrightarrow> \<exists>opn. may opn r \<and> row_step maxInfra opn r (upd r)"
  shows "rows_by may maxInfra db (snd (write_job announce guard upd i db))"
proof (cases "map_of (db_rows db) i")
  case (Some r)
  then have "keys (mput i (upd r) (db_rows db)) = keys (db_rows db)" by (intro keys_mput_present) (auto simp: set_keys)
  with Some assms show ?thesis by (auto simp: write_job_def rows_by_def)
qed (simp add: write_job_def)

lemma write_job_step:
  assumes "\<And>r. map_of (db_rows db) i = Some r \<Longrightarrow> guard r \<Longrightarrow> \<exists>opn. row_step maxInfra opn r (upd r)"
  shows "rows_step maxInfra db (snd (write_job announce guard upd i db))"
  using assms by (intro write_job_by) simp

text \<open>
  The database as every process of the control plane leaves it: any number of statements, by anyone.  A law of
  rows is a law of the table, and what stands in the table stays there.
\<close>

context row_law
begin

lemma law_rows:
  assumes "R\<^sup>*\<^sup>* db db'" and "R \<le> store_step maxInfra" and "map_of (db_rows db) i = Some r" and "law r"
  shows "\<exists>r'. map_of (db_rows db') i = Some r' \<and> law r'"
  using assms(1)
proof (induction rule: rtranclp_induct)
  case base
  with assms show ?case by blast
next
  case (step b c)
  then obtain r1 where r1: "map_of (db_rows b) i = Some r1" "law r1" by blast
  from step.hyps(2) assms(2) have "store_step maxInfra b c" by blast
  then consider "rows_step maxInfra b c" | "inserts b c" | "reclusters b c" by (auto simp: store_step_def)
  then show ?case
  proof cases
    case 1
    then obtain r2 where "map_of (db_rows c) i = Some r2"
      using r1(1) unfolding rows_by_def by (metis domD domI set_keys)
    with r1 1 law_step show ?thesis unfolding rows_by_def by metis
  next
    case 2
    with r1 show ?thesis by (auto simp: inserts_def map_add_Some_iff)
  next
    case 3
    with r1 show ?thesis by (simp add: reclusters_def)
  qed
qed

end

interpretation some_row: row_law maxInfra "\<lambda>_. True" for maxInfra
  by unfold_locales simp

lemma row_kept: "R\<^sup>*\<^sup>* db db' \<Longrightarrow> R \<le> store_step maxInfra \<Longrightarrow> map_of (db_rows db) i = Some r \<Longrightarrow> \<exists>r'. map_of (db_rows db') i = Some r'"
  using some_row.law_rows by blast

lemma store_clusters_named:
  assumes "R\<^sup>*\<^sup>* db db'" and "R \<le> store_step maxInfra" and "[] \<notin> set (keys (db_clusters db))"
  shows "[] \<notin> set (keys (db_clusters db'))"
  using assms(1)
proof (induction rule: rtranclp_induct)
  case base
  show ?case by (rule assms(3))
next
  case (step b c)
  from step.hyps(2) assms(2) have "store_step maxInfra b c" by blast
  with step.IH show ?case by (auto simp: store_step_def rows_by_def inserts_def reclusters_def)
qed

end
