(* ===== verification/Lifecycle_Properties.thy ===== *)
theory Lifecycle_Properties
  imports Lifecycle Cluster_Properties
begin

text \<open>
  Every statement of the store is a step of the row's state machine, and what that gives of every job: the
  table's constraints, bounded attempts, an end that lasts, and no end of a process that was never started.
\<close>

subsection \<open>The statements\<close>

text \<open>
  The statements that write a job row, with the arguments their callers give.  A caller ends a job that ran from RUNNING
  to COMPLETED without a reason or to FAILED, terminates one it read as unfinished, spends a retry
  against the budget of the job it read, marks settled only a job that has ended, and inserts a job that is queued.
\<close>

datatype statement =
  SMarkStarted int string
| STransitionStatus int string ExperimentStatus string
| SResolveTermination int string ExperimentStatus ExperimentStatus string
| SEndQueuedSettled int string ExperimentStatus string
| SRequeuePreempted int string rat rat
| SRequeueForRetry int string int
| SMarkQuotaSettled int string
| SRequeueWithdrawn int string
| SClaimSubmitted int string string JobSpec "(job_row list \<Rightarrow> JobSpec \<Rightarrow> (bool \<times> JobSpec) option) option"
| SMarkUnderperforming string string
| SMarkHeldJobs int int
| SMarkBaselineLate string string
| SUpdateNotAdmittedReason string string
| SUpdateExperimentPriority string rat
| SWriteAdmittedType string AcceleratorType rat
| SDropDataKey int int "string \<Rightarrow> bool" "string \<times> string"
| SRunFirstReportedAt int "string list"
| SCreateExperiment submission

fun exec :: "int \<Rightarrow> (string, rat) gomap \<Rightarrow> rat \<Rightarrow> statement \<Rightarrow> job_db \<Rightarrow> job_db" where
  "exec M rates cpu (SMarkStarted now i) db = snd (MarkStarted now i db)"
| "exec M rates cpu (STransitionStatus now i to reason) db = snd (TransitionStatus now i StatusRunning to reason db)"
| "exec M rates cpu (SResolveTermination now i from to reason) db = snd (ResolveTermination M now i from to reason db)"
| "exec M rates cpu (SEndQueuedSettled now i to reason) db = snd (EndQueuedSettled now i to reason db)"
| "exec M rates cpu (SRequeuePreempted now i hours cost) db = snd (store_RequeuePreempted now i hours cost db)"
| "exec M rates cpu (SRequeueForRetry now i m) db = snd (RequeueForRetry now i m db)"
| "exec M rates cpu (SMarkQuotaSettled now i) db = snd (MarkQuotaSettled now i db)"
| "exec M rates cpu (SRequeueWithdrawn now cluster) db = requeueWithdrawn now cluster db"
| "exec M rates cpu (SClaimSubmitted now i cluster resolved available) db =
     snd (ClaimSubmitted rates cpu now i cluster resolved available db)"
| "exec M rates cpu (SMarkUnderperforming i metric) db = snd (MarkUnderperforming i metric db)"
| "exec M rates cpu (SMarkHeldJobs now minimum) db = MarkHeldJobs now minimum db"
| "exec M rates cpu (SMarkBaselineLate i reason) db = snd (MarkBaselineLate i reason db)"
| "exec M rates cpu (SUpdateNotAdmittedReason i reason) db = snd (UpdateNotAdmittedReason i reason db)"
| "exec M rates cpu (SUpdateExperimentPriority i score) db = snd (UpdateExperimentPriority i score db)"
| "exec M rates cpu (SWriteAdmittedType i t cost) db = snd (write_admitted_type i t cost db)"
| "exec M rates cpu (SDropDataKey now grace deleteKey key) db = snd (DropDataKey now grace deleteKey key db)"
| "exec M rates cpu (SRunFirstReportedAt now ids) db = snd (RunFirstReportedAt now ids db)"
| "exec M rates cpu (SCreateExperiment s) db = snd (snd (createExperiment s db))"

fun proper :: "job_db \<Rightarrow> statement \<Rightarrow> bool" where
  "proper db (STransitionStatus now i to reason) \<longleftrightarrow> to = StatusCompleted \<and> reason = [] \<or> to = StatusFailed"
| "proper db (SResolveTermination now i from to reason) \<longleftrightarrow> \<not> Ended from \<and> (to = StatusEvicted \<or> to = StatusRejected)"
| "proper db (SEndQueuedSettled now i to reason) \<longleftrightarrow> to = StatusEvicted \<or> to = StatusRejected"
| "proper db (SRequeueForRetry now i m) \<longleftrightarrow> (case map_of (db_rows db) i of None \<Rightarrow> True | Some r \<Rightarrow> m \<le> retry_budget r)"
| "proper db (SMarkQuotaSettled now i) \<longleftrightarrow> (case map_of (db_rows db) i of None \<Rightarrow> True | Some r \<Rightarrow> Ended (jr_Status r))"
| "proper db (SClaimSubmitted now i cluster resolved available) \<longleftrightarrow> [] \<notin> set (keys (db_clusters db))"
| "proper db (SCreateExperiment s) \<longleftrightarrow> sub_Status s = StatusQueued"
| "proper db _ \<longleftrightarrow> True"

text \<open>Whether a statement adds a row.\<close>

fun is_insert :: "statement \<Rightarrow> bool" where
  "is_insert (SCreateExperiment s) \<longleftrightarrow> True"
| "is_insert _ \<longleftrightarrow> False"

subsection \<open>Each is a step\<close>

lemma MarkStarted_step: "rows_step M db (snd (MarkStarted now i db))"
  unfolding MarkStarted_def by (rule write_job_step) (auto intro: row_step.start)

lemma TransitionStatus_step:
  assumes "to = StatusCompleted \<and> reason = [] \<or> to = StatusFailed"
  shows "rows_step M db (snd (TransitionStatus now i StatusRunning to reason db))"
proof -
  have "rows_step M db (snd (write_job jobStatus (\<lambda>r. jr_Status r = StatusRunning) (finish_row now to (nullif reason)) i db))"
    using assms by (intro write_job_step) (auto simp: nullif_def intro!: exI [of _ "Finish to"] row_step.finish)
  then show ?thesis using assms by (auto simp: TransitionStatus_def split: prod.splits)
qed

lemma ResolveTermination_step:
  assumes "\<not> Ended from" and "to = StatusEvicted \<or> to = StatusRejected"
  shows "rows_step M db (snd (ResolveTermination M now i from to reason db))"
proof -
  have infra: "rows_step M db (snd (RequeueInfrastructureFault now i from reason M db))" if "IsInfrastructureFault reason"
    unfolding RequeueInfrastructureFault_def using assms(1) that by (intro write_job_step) (auto intro: row_step.infra)
  have terminated: "rows_step M db (snd (write_job jobStatus (\<lambda>r. jr_Status r = from) (finish_row now to (Some reason)) i db))"
    using assms by (intro write_job_step) (auto intro: row_step.terminate)
  have skip: "db' = db" if "RequeueInfrastructureFault now i from reason M db = (False, db')" for db'
    using that by (auto simp: RequeueInfrastructureFault_def write_job_def split: option.splits if_splits)
  show ?thesis
  proof (cases "IsInfrastructureFault reason \<and> fst (RequeueInfrastructureFault now i from reason M db)")
    case True
    with infra show ?thesis by (auto simp: ResolveTermination_def split: prod.splits)
  next
    case False
    with skip have "snd (ResolveTermination M now i from to reason db) =
        snd (write_job jobStatus (\<lambda>r. jr_Status r = from) (finish_row now to (Some reason)) i db)"
      by (auto simp: ResolveTermination_def Let_def split: prod.splits)
    with terminated show ?thesis by simp
  qed
qed

lemma RequeueForRetry_step:
  assumes "\<And>r. map_of (db_rows db) i = Some r \<Longrightarrow> m \<le> retry_budget r"
  shows "rows_step M db (snd (RequeueForRetry now i m db))"
  unfolding RequeueForRetry_def
proof (rule write_job_step)
  fix r
  assume "map_of (db_rows db) i = Some r" and "jr_Status r \<in> set PlacedStatuses \<and> RetriesUsed (jr_job r) < m"
  with assms [of r] show "\<exists>opn. row_step M opn r (retry_row now r)" by (auto intro!: exI [of _ Retry] row_step.retry)
qed

lemma MarkQuotaSettled_step:
  assumes "\<And>r. map_of (db_rows db) i = Some r \<Longrightarrow> Ended (jr_Status r)"
  shows "rows_step M db (snd (MarkQuotaSettled now i db))"
  unfolding MarkQuotaSettled_def using assms by (intro write_job_step) (auto intro: row_step.settled)

lemma update_where_by:
  assumes "\<And>r. guard r \<Longrightarrow> \<exists>opn. may opn r \<and> row_step M opn r (upd r)"
  shows "rows_by may M db (update_where announce guard upd db)"
proof -
  have *: "map_of (map (\<lambda>(i, r). (i, if guard r then upd r else r)) rows) i =
      map_option (\<lambda>r. if guard r then upd r else r) (map_of rows i)" for rows :: "(string \<times> job_row) list" and i
    by (induction rows) auto
  with assms show ?thesis by (auto simp: update_where_def rows_by_def keys_def comp_def case_prod_unfold *)
qed

lemma update_where_step:
  assumes "\<And>r. guard r \<Longrightarrow> \<exists>opn. row_step M opn r (upd r)"
  shows "rows_step M db (update_where announce guard upd db)"
  using assms by (intro update_where_by) simp

lemma ClaimSubmitted_by:
  assumes "[] \<notin> set (keys (db_clusters db))" and "\<And>r. jr_Status r = StatusQueued \<Longrightarrow> may Claim r"
  shows "rows_by may M db (snd (ClaimSubmitted rates cpu now i cluster resolved available db))"
proof -
  have "rows_by may M db (snd (write_job jobStatus (\<lambda>r. jr_Status r = StatusQueued \<and> hosts_row db cluster r)
      (claim_row now cluster job rate) i db))" for job rate
  proof (rule write_job_by)
    fix r
    assume "jr_Status r = StatusQueued \<and> hosts_row db cluster r"
    moreover from this have "cluster \<in> set (keys (db_clusters db))"
      by (auto simp: hosts_row_def set_keys split: option.splits)
    ultimately show "\<exists>opn. may opn r \<and> row_step M opn r (claim_row now cluster job rate r)"
      using assms by (intro exI [of _ Claim] conjI row_step.claim) auto
  qed
  then show ?thesis by (simp add: ClaimSubmitted_def Let_def case_prod_unfold split: option.split bool.split)
qed

lemmas ClaimSubmitted_step = ClaimSubmitted_by [where may = any_op, OF _ TrueI]

lemma note_write_by:
  assumes "\<And>r. guard r \<Longrightarrow> same_life r (upd r)" and "\<And>r. may Note r"
  shows "rows_by may M db (snd (write_job announce guard upd i db))"
  using assms by (intro write_job_by exI [of _ Note] conjI row_step.noted) auto

lemmas note_write_step = note_write_by [where may = any_op, OF _ TrueI]

lemma DropDataKey_step: "rows_step M db (snd (DropDataKey now grace deleteKey key db))"
proof -
  have "rows_step M db (snd (write_job (\<lambda>_. []) (\<lambda>_. True) (\<lambda>r. r\<lparr>jr_DataAccessKeyID := [], jr_DataSecretAccessKey := []\<rparr>) (fst key) db))"
    by (rule note_write_step) (simp add: same_life_def)
  then show ?thesis by (simp add: DropDataKey_def split: option.split)
qed

lemma RunFirstReportedAt_step: "rows_step M db (snd (RunFirstReportedAt now ids db))"
proof -
  have "rows_step M db (update_where (\<lambda>_. []) (unreported ids) (\<lambda>r. r\<lparr>jr_RunReportedAt := Some now\<rparr>) db)"
    by (rule update_where_step) (auto simp: same_life_def intro!: exI [of _ Note] row_step.noted)
  then show ?thesis by (simp add: RunFirstReportedAt_def Let_def)
qed

lemma createExperiment_inserts:
  assumes "sub_Status s = StatusQueued"
  shows "snd (snd (createExperiment s db)) = db \<or> inserts db (snd (snd (createExperiment s db)))"
proof (cases "snd (snd (createExperiment s db)) = db")
  case False
  let ?s = "with_queue_reason s" and ?db = "snd (snd (createExperiment s db))"
  from False have new: "map_of (db_rows db) (ex_ID (sub_exp ?s)) = None" "\<not> key_taken ?s db"
    and db: "?db = db\<lparr>db_rows := mput (ex_ID (sub_exp ?s)) (new_row ?s) (db_rows db), db_changes := db_changes db @ announce_insert (new_row ?s)\<rparr>"
    by (auto simp: createExperiment_def Let_def split: if_splits)
  from new(1) have i: "ex_ID (sub_exp ?s) \<notin> set (keys (db_rows db))" by (auto simp: set_keys)
  have "sub_Status ?s = StatusQueued" "sub_NotAdmittedReason ?s \<noteq> []"
    using assms by (simp_all add: with_queue_reason_def QueueReasonAwaitingAdmission_def)
  with i new(2) have "inserts db ?db" unfolding inserts_def db by (intro conjI exI [of _ ?s]) (simp_all add: mput_fresh)
  then show ?thesis ..
qed simp

lemma created_queued:
  assumes "createExperiment s db = (None, s', db')" and "sub_Status s = StatusQueued"
  shows "sub_Status s' = StatusQueued \<and> sub_NotAdmittedReason s' \<noteq> []"
  using assms
  by (auto simp: createExperiment_def with_queue_reason_def QueueReasonAwaitingAdmission_def Let_def split: if_splits)

subsection \<open>Where a running job comes from\<close>

text \<open>The operations since the last claim of the job.\<close>

definition this_attempt :: "row_op list \<Rightarrow> row_op list" where
  "this_attempt ops = rev (takeWhile (\<lambda>opn. opn \<noteq> Claim) (rev ops))"

lemma this_attempt_snoc: "this_attempt (ops @ [opn]) = (if opn = Claim then [] else this_attempt ops @ [opn])"
  by (simp add: this_attempt_def)

lemma running_started:
  assumes "row_run M ops r r'" and "jr_Status r = StatusQueued" and "jr_Status r' \<in> {StatusRunning, StatusCompleted, StatusFailed}"
  shows "Start \<in> set (this_attempt ops)"
  using assms
proof (induction rule: row_run.induct)
  case (step ops r r' opn r'')
  from step.hyps(2) step.prems(2)
  have "opn = Start \<or> opn \<noteq> Claim \<and> jr_Status r' \<in> {StatusRunning, StatusCompleted, StatusFailed}"
    by (cases rule: row_step.cases) (auto simp: same_life_def row_facts)
  with step.IH step.prems(1) show ?case by (auto simp: this_attempt_snoc)
qed simp

subsection \<open>Sample data\<close>

definition sample_submission :: submission where
  "sample_submission = \<lparr>sub_exp = sample_exp\<lparr>ex_Job := sample_job\<lparr>js_MaxRetries := Some 1\<rparr>\<rparr>, sub_TierNamed = True,
     sub_Status = StatusQueued, sub_NotAdmittedReason = [], sub_ActorKind = ''agent'', sub_SpecHasSecretEnv = False,
     sub_DataAccessKeyID = ''key'', sub_DataSecretAccessKey = ''secret'', sub_HypothesisID = ''h1'', sub_CodeRef = ''c1'', sub_SameHypothesis = [], sub_SubmissionKey = ''k1'',
     sub_UpdatedAt = 0, sub_MaxEstimateHours = 0\<rparr>"

definition sample_row :: job_row where
  "sample_row = new_row (with_queue_reason sample_submission)"

definition sample_db :: job_db where
  "sample_db = \<lparr>db_rows = [(''e1'', sample_row)], db_clusters = sample_registry, db_projects = [(''p1'', ''proj'')],
     db_limits = [(''o1'', \<lparr>lim_Org = 4, lim_Project = 2\<rparr>)],
     db_quotas = [((''a1'', ''p1''), \<lparr>aq_AgentID = ''a1'', aq_PlatformExperimentID = ''p1'', aq_GuaranteedAcceleratorHours = 10,
        aq_BurstAcceleratorHours = 5, aq_UsedGuaranteedAccH = 0, aq_UsedBurstAccH = 0\<rparr>)],
     db_cuts = [], db_finished = [], db_maxConcurrent = [(''p1'', Some 4)], db_changes = []\<rparr>"

lemmas row_eval = row_facts new_row_def with_queue_reason_def sample_submission_def sample_row_def sample_exp_def sample_job_def row_ok_def same_life_def

text \<open>The row on its way: claimed, started, and requeued after its process failed.\<close>

definition claimed_row :: job_row where
  "claimed_row = claim_row 1 ''near'' sample_job 1 sample_row"

definition running_row :: job_row where
  "running_row = start_row 2 claimed_row"

lemma run_snoc: "row_run M ops r r' \<Longrightarrow> row_step M opn r' r'' \<Longrightarrow> ops' = ops @ [opn] \<Longrightarrow> row_run M ops' r r''"
  by (simp add: row_run.step)

lemma sample_run: "row_run 2 [Claim, Start] sample_row running_row"
proof -
  have "row_step 2 Claim sample_row claimed_row"
    unfolding claimed_row_def by (rule row_step.claim) (simp_all add: row_eval)
  moreover have "row_step 2 Start claimed_row running_row"
    unfolding running_row_def by (rule row_step.start) (simp add: claimed_row_def claim_row_def)
  ultimately show ?thesis by (intro run_snoc [OF run_snoc [OF row_run.empty]]) simp_all
qed

lemma sample_finish: "row_run 2 [Claim, Start, Retry] sample_row (retry_row 3 running_row)"
    "row_run 2 [Claim, Start, Finish StatusFailed] sample_row (finish_row 3 StatusFailed (Some ''oom'') running_row)"
proof -
  have s: "jr_Status running_row = StatusRunning" "RetriesUsed (jr_job running_row) < retry_budget running_row"
    by (simp_all add: running_row_def claimed_row_def row_eval)
  have "row_step 2 Retry running_row (retry_row 3 running_row)" by (rule row_step.retry) (simp_all add: s placed_iff)
  then show "row_run 2 [Claim, Start, Retry] sample_row (retry_row 3 running_row)" by (rule run_snoc [OF sample_run]) simp
  have "row_step 2 (Finish StatusFailed) running_row (finish_row 3 StatusFailed (Some ''oom'') running_row)"
    by (rule row_step.finish) (simp_all add: s)
  then show "row_run 2 [Claim, Start, Finish StatusFailed] sample_row (finish_row 3 StatusFailed (Some ''oom'') running_row)"
    by (rule run_snoc [OF sample_run]) simp
qed

subsection \<open>The properties\<close>

text \<open>C3: every statement the control plane writes a job row with, called as its callers call it, is one of two things: the insert of a submitted
  job, which adds one queued row under an id and a submission key no row has and touches no other, or refuses and writes nothing;
  or it takes each row of the table by one step of the state machine or leaves it, and adds and removes no row and no cluster.\<close>

theorem statements_are_steps:
  assumes "proper db st"
  shows "if is_insert st then exec M rates cpu st db = db \<or> inserts db (exec M rates cpu st db) else rows_step M db (exec M rates cpu st db)"
proof (cases st)
  case (SEndQueuedSettled now i to reason)
  with assms show ?thesis by (auto simp: EndQueuedSettled_def intro!: write_job_step intro: row_step.end_queued)
next
  case (SRequeuePreempted now i hours cost)
  then show ?thesis by (auto simp: store_RequeuePreempted_def intro!: write_job_step intro: row_step.preempted)
next
  case (SRequeueForRetry now i m)
  with assms show ?thesis by (auto intro!: RequeueForRetry_step)
next
  case (SMarkQuotaSettled now i)
  with assms show ?thesis by (auto intro!: MarkQuotaSettled_step)
next
  case (SRequeueWithdrawn now cluster)
  have "rows_step M db (requeueWithdrawn now cluster db)"
    unfolding requeueWithdrawn_def
    by (rule update_where_step) (auto simp: on_cluster_def intro!: exI [of _ Withdraw] row_step.withdraw)
  with SRequeueWithdrawn show ?thesis by simp
next
  case (SMarkHeldJobs now minimum)
  then show ?thesis
    by (auto simp: MarkHeldJobs_def same_life_def intro!: update_where_step exI [of _ Note] row_step.noted)
next
  case (SMarkUnderperforming i metric)
  then show ?thesis by (auto simp: MarkUnderperforming_def same_life_def intro!: note_write_step)
next
  case (SMarkBaselineLate i reason)
  have "rows_step M db (snd (write_job jobHeld g (\<lambda>r. r\<lparr>jr_HeldReason := Some reason\<rparr>) i db))" for g
    by (rule note_write_step) (simp add: same_life_def)
  with SMarkBaselineLate show ?thesis by (simp add: MarkBaselineLate_def case_prod_unfold Let_def)
next
  case (SUpdateNotAdmittedReason i reason)
  have "rows_step M db (snd (write_job jobQueueReason (\<lambda>r. jr_Status r = StatusQueued \<and> jr_NotAdmittedReason r \<noteq> Some reason)
      (\<lambda>r. r\<lparr>jr_NotAdmittedReason := Some reason\<rparr>) i db))"
    by (rule note_write_step) (simp add: same_life_def)
  with SUpdateNotAdmittedReason show ?thesis by (simp add: UpdateNotAdmittedReason_def case_prod_unfold Let_def)
next
  case (SUpdateExperimentPriority i score)
  then show ?thesis by (auto simp: UpdateExperimentPriority_def same_life_def intro!: note_write_step)
next
  case (SWriteAdmittedType i t cost)
  then show ?thesis by (auto simp: write_admitted_type_def same_life_def intro!: note_write_step)
next
  case (SCreateExperiment s)
  with assms createExperiment_inserts [of s db] show ?thesis by simp
qed (use assms in \<open>simp_all add: MarkStarted_step TransitionStatus_step ResolveTermination_step ClaimSubmitted_step DropDataKey_step
      RunFirstReportedAt_step\<close>)

theorem statements_are_steps_witness:
  "rows_step 2 sample_db (exec 2 [(''nvidia.com/gpu.product=A100'', 1)] 1 (SClaimSubmitted 1 ''e1'' ''near'' sample_job None) sample_db)
   \<and> map_of (db_rows (exec 2 [(''nvidia.com/gpu.product=A100'', 1)] 1 (SClaimSubmitted 1 ''e1'' ''near'' sample_job None) sample_db)) ''e1''
     = Some claimed_row"
proof
  show "rows_step 2 sample_db (exec 2 [(''nvidia.com/gpu.product=A100'', 1)] 1 (SClaimSubmitted 1 ''e1'' ''near'' sample_job None) sample_db)"
  proof -
    have "proper sample_db (SClaimSubmitted 1 ''e1'' ''near'' sample_job None)" by code_simp
    from statements_are_steps [OF this] show ?thesis by simp
  qed
  have "map_of (db_rows sample_db) ''e1'' = Some sample_row" by (simp add: sample_db_def)
  moreover have "withinComputeLimit [(''nvidia.com/gpu.product=A100'', 1)] 1 ''e1'' ''near'' sample_db = Some (1, None)" by code_simp
  moreover have "jr_Status sample_row = StatusQueued" "hosts_row sample_db ''near'' sample_row" by code_simp+
  ultimately show "map_of (db_rows (exec 2 [(''nvidia.com/gpu.product=A100'', 1)] 1 (SClaimSubmitted 1 ''e1'' ''near'' sample_job None) sample_db)) ''e1''
     = Some claimed_row"
    by (simp add: ClaimSubmitted_def write_job_def claimed_row_def)
qed

text \<open>C5: whatever statements a submitted job goes through, in whatever order, its row satisfies the constraints of the table:
  a queue reason exactly while it is queued, no eviction reason while it is placed or completed, no status the table
  does not know. A placed job has its cluster, its submission time and its resolved spec, a queued one has no
  submission time and no resolved spec, it has an end exactly when it ended, and its quota is settled only then.\<close>

theorem job_row_constraints:
  assumes "createExperiment s db = (None, s', db')" and "sub_Status s = StatusQueued"
    and "row_run M ops (new_row s') r"
  shows "row_ok r"
proof (rule well_formed.law_run [OF assms(3)])
  show "row_ok (new_row s')" using created_queued [OF assms(1,2)] by (simp add: row_ok_def new_row_def nullif_def placed_iff Ended_def)
qed

theorem job_row_constraints_witness:
  "row_ok (retry_row 3 running_row) \<and> jr_Status (retry_row 3 running_row) = StatusQueued"
proof -
  let ?c = "createExperiment sample_submission (sample_db\<lparr>db_rows := []\<rparr>)"
  have "?c = (None, with_queue_reason sample_submission, snd (snd ?c))"
    by (simp add: createExperiment_def sample_submission_def with_queue_reason_def key_taken_def Let_def)
  moreover have "sub_Status sample_submission = StatusQueued" by (simp add: sample_submission_def)
  ultimately show ?thesis
    using job_row_constraints [OF _ _ sample_finish(1) [unfolded sample_row_def]]
    by (simp add: retry_row_def unplace_row_def Let_def)
qed

text \<open>C6: a job is attempted a bounded number of times: its failures are retried at most max_retries times and the
  environment's faults at most maxInfraRequeues times, whatever else happens to it, so apart from preemptions and
  withdrawals of its cluster it is requeued at most that often; and its two counters count exactly these.\<close>

theorem attempts_bounded:
  assumes "row_run M ops (new_row s) r"
  shows "count_list ops Retry \<le> nat (max 0 (retry_budget (new_row s)))
    \<and> count_list ops InfraRequeue \<le> nat M
    \<and> ex_AttemptCount (jr_job r) = int (count_list ops Retry + count_list ops InfraRequeue + count_list ops Withdraw)
    \<and> ex_InfraRequeueCount (jr_job r) = int (count_list ops InfraRequeue + count_list ops Withdraw)"
proof -
  have zero: "ex_AttemptCount (jr_job (new_row s)) = 0" "ex_InfraRequeueCount (jr_job (new_row s)) = 0"
    by (simp_all add: new_row_def)
  have counts: "ex_AttemptCount (jr_job r) = int (count_list ops Retry + count_list ops InfraRequeue + count_list ops Withdraw)"
    "ex_InfraRequeueCount (jr_job r) = int (count_list ops InfraRequeue + count_list ops Withdraw)"
    using run_counts [OF assms] zero by simp_all
  have "counters_ok r" by (rule counters.law_run [OF assms]) (simp add: counters_ok_def RetriesUsed_def zero)
  moreover have "retry_budget r = retry_budget (new_row s)"
    unfolding retry_budget_def using same_spec.law_run [OF assms, of "ex_Job (jr_job (new_row s))"] by simp
  ultimately have "int (count_list ops Retry) \<le> max 0 (retry_budget (new_row s))"
    using counts by (simp add: counters_ok_def RetriesUsed_def)
  moreover have "count_list ops InfraRequeue \<le> nat M" by (rule run_infra_bound [OF assms]) (simp add: zero)
  ultimately show ?thesis using counts by linarith
qed

theorem attempts_bounded_witness:
  "ex_AttemptCount (jr_job (retry_row 3 running_row)) = 1 \<and> RetriesUsed (jr_job (retry_row 3 running_row)) = 1"
  using attempts_bounded [OF sample_finish(1) [unfolded sample_row_def]] by (simp add: RetriesUsed_def)

text \<open>C9: a job that ended stays ended: no statement changes the status or the reason it ended with, and the only ones
  that still write it settle its quota or note something beside its life.\<close>

theorem ended_for_good:
  assumes "row_run M ops r r'" and "Ended (jr_Status r)"
  shows "jr_Status r' = jr_Status r \<and> jr_EvictionReason r' = jr_EvictionReason r \<and> set ops \<subseteq> {Settled, Note}"
proof -
  have "jr_Status r' = jr_Status r \<and> jr_EvictionReason r' = jr_EvictionReason r"
    using ended.law_run [OF assms(1), of "jr_Status r" "jr_EvictionReason r"] assms(2) by blast
  moreover from assms have "set ops \<subseteq> {Settled, Note}"
  proof (induction rule: row_run.induct)
    case (step ops r r' opn r'')
    have "Ended (jr_Status r')" using ended.law_run [OF step.hyps(1), of "jr_Status r" "jr_EvictionReason r"] step.prems by auto
    with step.hyps(2) have "opn \<in> {Settled, Note}" by (cases rule: row_step.cases) (auto simp: row_facts)
    with step show ?case by simp
  qed simp
  ultimately show ?thesis by simp
qed

theorem ended_for_good_witness:
  "jr_Status (finish_row 3 StatusFailed (Some ''oom'') running_row) = StatusFailed
   \<and> row_run 2 [Settled] (finish_row 3 StatusFailed (Some ''oom'') running_row)
       ((finish_row 3 StatusFailed (Some ''oom'') running_row)\<lparr>jr_QuotaSettledAt := Some 4\<rparr>)
   \<and> jr_EvictionReason ((finish_row 3 StatusFailed (Some ''oom'') running_row)\<lparr>jr_QuotaSettledAt := Some 4\<rparr>) = Some ''oom''"
proof -
  let ?r = "finish_row 3 StatusFailed (Some ''oom'') running_row"
  have e: "Ended (jr_Status ?r)" by (simp add: finish_row_def Ended_def)
  have run: "row_run 2 [Settled] ?r (?r\<lparr>jr_QuotaSettledAt := Some 4\<rparr>)"
    by (rule run_snoc [OF row_run.empty row_step.settled [OF e]]) simp
  show ?thesis using ended_for_good [OF run e] run by (simp add: finish_row_def)
qed

text \<open>no job is COMPLETED or FAILED, and none is RUNNING, that was not started in its current attempt: since the
  last time it was claimed for a cluster.\<close>

theorem ends_only_started_attempts:
  assumes "row_run M ops (new_row s) r" and "sub_Status s = StatusQueued" and "jr_Status r \<in> {StatusRunning, StatusCompleted, StatusFailed}"
  shows "Start \<in> set (this_attempt ops)"
  by (rule running_started [OF assms(1) _ assms(3)]) (use assms(2) in \<open>simp add: new_row_def\<close>)

theorem ends_only_started_attempts_witness:
  "Start \<in> set (this_attempt [Claim, Start, Finish StatusFailed])
   \<and> row_run 2 [Claim, Start, Finish StatusFailed] sample_row (finish_row 3 StatusFailed (Some ''oom'') running_row)"
proof -
  have "jr_Status (finish_row 3 StatusFailed (Some ''oom'') running_row) \<in> {StatusRunning, StatusCompleted, StatusFailed}"
    by (simp add: finish_row_def)
  from ends_only_started_attempts [OF sample_finish(2) [unfolded sample_row_def] _ this] sample_finish(2)
  show ?thesis by (simp add: with_queue_reason_def sample_submission_def)
qed

end
