(* ===== verification/Watcher_Properties.thy ===== *)
theory Watcher_Properties
  imports Watcher Lifecycle_Properties
begin

text \<open>
  What the watcher does to the jobs it reads, whatever other processes do to them at the same time: its writes are
  steps of the row's state machine, a job that does not start is released at its deadline and not before, and a
  report about an attempt that is over ends nothing.  And what it does not: the failure of one attempt can spend two
  retries.
\<close>

subsection \<open>Acting among others\<close>

text \<open>
  A process among others.  \<open>R\<close> relates the states of the store across one write of anybody: it holds the writes the process makes itself, which
  take rows by the operations it \<open>may\<close>, and it is within what any process of the control plane may do; and the others answer \<open>R\<close> by \<open>R\<close>.
\<close>

definition lawful :: "(row_op \<Rightarrow> job_row \<Rightarrow> bool) \<Rightarrow> int \<Rightarrow> (job_db \<Rightarrow> job_db \<Rightarrow> bool) \<Rightarrow> world \<Rightarrow> bool" where
  "lawful may M R w \<longleftrightarrow> rows_by may M \<le> R \<and> R \<le> store_step M
     \<and> (\<forall>g db. Others g \<in> set (w_schedule w) \<longrightarrow> R\<^sup>*\<^sup>* (w_db w) db \<longrightarrow> R\<^sup>*\<^sup>* db (g db))"

text \<open>What a theorem assumes of the other processes: what they write, wherever the process and they have taken the store, is \<open>others\<close>.\<close>

definition among :: "(job_db \<Rightarrow> job_db \<Rightarrow> bool) \<Rightarrow> (row_op \<Rightarrow> job_row \<Rightarrow> bool) \<Rightarrow> int \<Rightarrow> world \<Rightarrow> bool" where
  "among others may M w \<longleftrightarrow> others \<le> store_step M
     \<and> (\<forall>g db. Others g \<in> set (w_schedule w) \<longrightarrow> (sup others (rows_by may M))\<^sup>*\<^sup>* (w_db w) db \<longrightarrow> others\<^sup>*\<^sup>* db (g db))"

lemma among_lawful: "among others may M w \<Longrightarrow> lawful may M (sup others (rows_by may M)) w"
proof -
  assume a: "among others may M w"
  have "others\<^sup>*\<^sup>* \<le> (sup others (rows_by may M))\<^sup>*\<^sup>*" by (rule rtranclp_mono) simp
  with a show ?thesis using rows_by_store [of may M] by (auto simp: among_def lawful_def)
qed

lemma lawful_within: "lawful may M R w \<Longrightarrow> R \<le> store_step M"
  by (simp add: lawful_def)

lemma own_step: "lawful may M R w \<Longrightarrow> rows_by may M db db' \<Longrightarrow> R\<^sup>*\<^sup>* db db'"
  unfolding lawful_def by (meson predicate2D r_into_rtranclp)

text \<open>The job was read from the table: its row is there, with the spec it was submitted with.\<close>

definition known :: "job_row \<Rightarrow> job_db \<Rightarrow> bool" where
  "known x db \<longleftrightarrow> (\<exists>r. map_of (db_rows db) (ex_ID (jr_job x)) = Some r \<and> ex_Job (jr_job r) = ex_Job (jr_job x))"

definition has_ended :: "job_row \<Rightarrow> job_db \<Rightarrow> bool" where
  "has_ended x db \<longleftrightarrow> (\<exists>r. map_of (db_rows db) (ex_ID (jr_job x)) = Some r \<and> Ended (jr_Status r))"

definition moves :: "(job_db \<Rightarrow> job_db \<Rightarrow> bool) \<Rightarrow> world \<Rightarrow> world \<Rightarrow> bool" where
  "moves R w w' \<longleftrightarrow> R\<^sup>*\<^sup>* (w_db w) (w_db w') \<and> set (w_schedule w') \<subseteq> set (w_schedule w)"

lemma lawful_moves: "moves R w w' \<Longrightarrow> lawful may M R w \<Longrightarrow> lawful may M R w'"
  unfolding moves_def lawful_def by (meson rtranclp_trans subsetD)

lemma moves_refl [simp]: "moves R w w"
  by (simp add: moves_def)

lemma moves_trans [trans]: "moves R a b \<Longrightarrow> moves R b c \<Longrightarrow> moves R a c"
  unfolding moves_def by (blast intro: rtranclp_trans)

lemma known_steps: "lawful may M R w \<Longrightarrow> R\<^sup>*\<^sup>* db db' \<Longrightarrow> known x db \<Longrightarrow> known x db'"
  unfolding known_def lawful_def using same_spec.law_rows [where spec = "ex_Job (jr_job x)"] by blast

lemma known_moves: "lawful may M R w \<Longrightarrow> moves R w w' \<Longrightarrow> known x (w_db w) \<Longrightarrow> known x (w_db w')"
  unfolding moves_def using known_steps by blast

lemma has_ended_steps: "lawful may M R w \<Longrightarrow> R\<^sup>*\<^sup>* db db' \<Longrightarrow> has_ended x db \<Longrightarrow> has_ended x db'"
proof -
  assume l: "lawful may M R w" and steps: "R\<^sup>*\<^sup>* db db'" and "has_ended x db"
  then obtain r where r: "map_of (db_rows db) (ex_ID (jr_job x)) = Some r" "Ended (jr_Status r)" unfolding has_ended_def by blast
  from l have "R \<le> store_step M" by (simp add: lawful_def)
  from ended.law_rows [OF steps this r(1), of "jr_Status r" "jr_EvictionReason r"] r(2) show "has_ended x db'"
    unfolding has_ended_def by (metis (no_types, lifting))
qed

lemma moves_effects [simp]: "moves R w (wakeAdmission w)" "moves R w (snd (call_settler jw x w))"
  by (simp_all add: moves_def wakeAdmission_def call_settler_def)

text \<open>A store call is made on the database as others left it.\<close>

lemma store_call_moves:
  assumes "lawful may M R w"
    and "\<And>db. R\<^sup>*\<^sup>* (w_db w) db \<Longrightarrow> R\<^sup>*\<^sup>* db (snd (f db))"
    and "store_call f w = (v, w')"
  shows "moves R w w' \<and> (\<forall>a. v = Some a \<longrightarrow> (\<exists>db. R\<^sup>*\<^sup>* (w_db w) db \<and> f db = (a, w_db w')))"
proof (cases "w_schedule w")
  case Nil
  with assms(3) have w': "w_db w' = snd (f (w_db w))" "w_schedule w' = []" "v = Some (fst (f (w_db w)))"
    by (auto simp: store_call_def split: prod.splits)
  moreover have "f (w_db w) = (fst (f (w_db w)), w_db w')" using w'(1) by simp
  ultimately have "\<forall>a. v = Some a \<longrightarrow> (\<exists>db. R\<^sup>*\<^sup>* (w_db w) db \<and> f db = (a, w_db w'))"
    by (metis option.inject rtranclp.rtrancl_refl)
  then show ?thesis using assms(2) [OF rtranclp.rtrancl_refl] w' by (simp add: moves_def)
next
  case (Cons d ds)
  show ?thesis
  proof (cases d)
    case (Others g)
    then have g: "R\<^sup>*\<^sup>* (w_db w) (g (w_db w))" using assms(1) Cons by (auto simp: lawful_def)
    from assms(3) Cons Others have w': "w_db w' = snd (f (g (w_db w)))" "w_schedule w' = ds" "v = Some (fst (f (g (w_db w))))"
      by (auto simp: store_call_def split: prod.splits)
    have "R\<^sup>*\<^sup>* (w_db w) (w_db w')" unfolding w'(1) using rtranclp_trans [OF g assms(2) [OF g]] .
    moreover have "\<exists>db. R\<^sup>*\<^sup>* (w_db w) db \<and> f db = (fst (f (g (w_db w))), w_db w')" using g w'(1) by (metis prod.collapse)
    ultimately show ?thesis using w' Cons by (auto simp: moves_def)
  next
    case Fails
    with Cons assms show ?thesis by (auto simp: store_call_def moves_def)
  next
    case AnswerLost
    with Cons assms(2) [OF rtranclp.rtrancl_refl] assms(3) show ?thesis by (auto simp: store_call_def moves_def)
  qed
qed

text \<open>The calls of the watcher, one statement each.\<close>

lemma settleQuota_moves:
  assumes "lawful any_op M R w" and "has_ended x (w_db w)"
  shows "moves R w (settleQuota jw now x w)"
proof (cases "jw_Settle jw (ex_ID (jr_job x))")
  case True
  let ?w = "snd (call_settler jw x w)"
  let ?c = "store_call (MarkQuotaSettled now (ex_ID (jr_job x))) ?w"
  have "moves R ?w (snd ?c)"
  proof (rule store_call_moves [THEN conjunct1])
    show "lawful any_op M R ?w" by (rule lawful_moves [OF moves_effects(2) assms(1)])
    show "?c = (fst ?c, snd ?c)" by simp
    fix db
    assume "R\<^sup>*\<^sup>* (w_db ?w) db"
    then have "has_ended x db" using assms has_ended_steps by (simp add: call_settler_def)
    then show "R\<^sup>*\<^sup>* db (snd (MarkQuotaSettled now (ex_ID (jr_job x)) db))"
      by (intro own_step [OF assms(1)] MarkQuotaSettled_step) (auto simp: has_ended_def)
  qed
  then have "moves R w (snd ?c)" by (rule moves_trans [OF moves_effects(2)])
  with True show ?thesis by (simp add: settleQuota_def call_settler_def)
next
  case False
  then show ?thesis using moves_effects(2) [of R w jw x] by (simp add: settleQuota_def call_settler_def)
qed

lemma ResolveTermination_written:
  "ResolveTermination M now i from to reason db = (TerminationWritten, db') \<Longrightarrow> \<exists>r. map_of (db_rows db') i = Some r \<and> jr_Status r = to"
  by (auto simp: ResolveTermination_def Let_def write_job_def finish_row_def split: prod.splits option.splits if_splits)

lemma evictNotYetRunning_moves:
  assumes "lawful any_op M R w" and "\<not> Ended (jr_Status x)" and "jw_maxInfraRequeues jw = M"
  shows "moves R w (evictNotYetRunning jw now x reason w)"
proof -
  let ?f = "ResolveTermination M now (ex_ID (jr_job x)) (jr_Status x) StatusEvicted reason"
  obtain v w1 where c: "store_call ?f w = (v, w1)" by force
  have step: "R\<^sup>*\<^sup>* db (snd (?f db))" for db
    by (intro own_step [OF assms(1)] ResolveTermination_step) (use assms(2) in simp_all)
  have m: "moves R w w1" and e: "\<And>a. v = Some a \<Longrightarrow> \<exists>db. ?f db = (a, w_db w1)"
    using store_call_moves [OF assms(1) step c] by blast+
  have lawful1: "lawful any_op M R (wakeAdmission w1)" by (rule lawful_moves [OF moves_trans [OF m moves_effects(1)] assms(1)])
  show ?thesis
  proof (cases "v = Some TerminationWritten")
    case True
    let ?x = "x\<lparr>jr_EvictionReason := Some reason, jr_Status := StatusEvicted\<rparr>"
    from e [OF True] obtain db where "?f db = (TerminationWritten, w_db w1)" by blast
    from ResolveTermination_written [OF this] have "has_ended ?x (w_db (wakeAdmission w1))"
      by (auto simp: has_ended_def Ended_def wakeAdmission_def)
    from moves_trans [OF m moves_trans [OF moves_effects(1) settleQuota_moves [OF lawful1 this, of jw now]]]
    have "moves R w (settleQuota jw now ?x (wakeAdmission w1))" .
    with True c assms(3) show ?thesis by (simp add: evictNotYetRunning_def)
  next
    case False
    have "moves R w (snd (call_settler jw x' (wakeAdmission w1)))" for x'
      by (rule moves_trans [OF m moves_trans [OF moves_effects]])
    with False c assms(3) m show ?thesis
      by (auto simp: evictNotYetRunning_def split: option.split Termination.split)
  qed
qed

lemma evictIfPastDeadline_moves:
  assumes "lawful any_op M R w" and "\<not> Ended (jr_Status x)" and "jw_maxInfraRequeues jw = M"
  shows "moves R w (snd (evictIfPastDeadline duration jw now rp x waiting timeout reason w))"
  using evictNotYetRunning_moves [OF assms]
  by (auto simp: evictIfPastDeadline_def split: option.split sum.split)

lemma evictIfStuckPending_moves:
  assumes "lawful any_op M R w" and "\<not> Ended (jr_Status x)" and "jw_maxInfraRequeues jw = M"
  shows "moves R w (snd (evictIfStuckPending duration jw now rp x waiting clusterIDs reason w))"
  using evictIfPastDeadline_moves [OF assms]
  by (auto simp: evictIfStuckPending_def split: option.split sum.split)

lemma checkScaleUpDeadline_moves:
  assumes "lawful any_op M R w" and "\<not> Ended (jr_Status x)" and "jw_maxInfraRequeues jw = M"
  shows "moves R w (snd (checkScaleUpDeadline duration jw now rp x waiting autoscalerEnabled clusterIDs w))"
  using evictNotYetRunning_moves [OF assms]
  by (auto simp: checkScaleUpDeadline_def Let_def split: option.split sum.split)

lemma onRunning_moves:
  assumes "lawful any_op M R w"
  shows "moves R w (snd (onRunning now rp x w))"
proof -
  obtain v w1 where c: "store_call (MarkStarted now (ex_ID (jr_job x))) w = (v, w1)" by force
  have "moves R w w1" using store_call_moves [OF assms own_step [OF assms MarkStarted_step] c] by blast
  with c show ?thesis by (auto simp: onRunning_def Let_def split: option.split bool.split)
qed

lemma retry_moves:
  assumes "lawful any_op M R w" and "known x (w_db w)"
  shows "moves R w (snd (retry jw now x w))"
proof (cases "js_MaxRetries (ex_Job (jr_job x))")
  case (Some m)
  let ?w = "snd (call_settler jw x w)"
  obtain v w1 where c: "store_call (RequeueForRetry now (ex_ID (jr_job x)) m) ?w = (v, w1)" by force
  have "moves R ?w w1"
  proof (rule store_call_moves [THEN conjunct1, OF _ _ c])
    show "lawful any_op M R ?w" by (rule lawful_moves [OF moves_effects(2) assms(1)])
    fix db
    assume "R\<^sup>*\<^sup>* (w_db ?w) db"
    then have "known x db" using assms known_steps by (simp add: call_settler_def)
    then show "R\<^sup>*\<^sup>* db (snd (RequeueForRetry now (ex_ID (jr_job x)) m db))"
      using Some by (intro own_step [OF assms(1)] RequeueForRetry_step) (auto simp: known_def retry_budget_def)
  qed
  then have "moves R w w1" by (rule moves_trans [OF moves_effects(2)])
  moreover from this have "moves R w (wakeAdmission w1)" by (rule moves_trans) (rule moves_effects)
  ultimately have "moves R w w1" "moves R w (wakeAdmission w1)" .
  with Some c show ?thesis by (auto simp: retry_def split: option.split bool.split)
qed (simp add: retry_def)

lemma TransitionStatus_written:
  "TransitionStatus now i from to reason db = (Some True, db') \<Longrightarrow> \<exists>r. map_of (db_rows db') i = Some r \<and> jr_Status r = to"
  by (auto simp: TransitionStatus_def Let_def write_job_def finish_row_def split: prod.splits option.splits if_splits)

lemma finish_moves:
  assumes "lawful any_op M R w" and "known x (w_db w)"
    and "to = StatusCompleted \<and> reason = [] \<or> to = StatusFailed"
  shows "moves R w (snd (finish jw now x to reason w))"
proof -
  obtain b w0 where r: "(if to = StatusFailed then retry jw now x w else (False, w)) = (b, w0)" by force
  have m0: "moves R w w0" using retry_moves [OF assms(1,2), of jw now] r by (auto split: if_splits)
  let ?f = "TransitionStatus now (ex_ID (jr_job x)) StatusRunning to reason"
  obtain v w1 where c: "store_call ?f w0 = (v, w1)" by force
  have lawful0: "lawful any_op M R w0" by (rule lawful_moves [OF m0 assms(1)])
  have m1: "moves R w0 w1" and e: "\<And>a. v = Some a \<Longrightarrow> \<exists>db. ?f db = (a, w_db w1)"
    using store_call_moves [OF lawful0 own_step [OF assms(1) TransitionStatus_step [OF assms(3)]] c] by blast+
  have "moves R w (settleQuota jw now x (wakeAdmission w1))" if "v = Some (Some True)"
  proof -
    from e [OF that] obtain db where "?f db = (Some True, w_db w1)" by blast
    from TransitionStatus_written [OF this] assms(3) have "has_ended x (w_db (wakeAdmission w1))"
      by (auto simp: has_ended_def Ended_def wakeAdmission_def)
    moreover have "lawful any_op M R (wakeAdmission w1)" by (rule lawful_moves [OF moves_trans [OF m1 moves_effects(1)] lawful0])
    ultimately have "moves R (wakeAdmission w1) (settleQuota jw now x (wakeAdmission w1))" by (intro settleQuota_moves)
    from moves_trans [OF m0 moves_trans [OF m1 moves_trans [OF moves_effects(1) this]]] show ?thesis .
  qed
  moreover have "moves R w w1" using m0 m1 by (rule moves_trans)
  ultimately show ?thesis using r c m0 by (auto simp: finish_def Let_def split: option.split bool.split)
qed

lemma onFinished_moves:
  assumes "lawful any_op M R w" and "known x (w_db w)"
    and "to = StatusCompleted \<and> reason = [] \<or> to = StatusFailed"
  shows "moves R w (snd (onFinished jw now x to reason w))"
proof (cases "jr_Status x = StatusRunning")
  case True
  with finish_moves [OF assms] show ?thesis by (simp add: onFinished_def)
next
  case False
  let ?x = "x\<lparr>jr_Status := StatusRunning\<rparr>"
  obtain v w1 where c: "store_call (MarkStarted now (ex_ID (jr_job x))) w = (v, w1)" by force
  have m1: "moves R w w1" using store_call_moves [OF assms(1) own_step [OF assms(1) MarkStarted_step] c] by blast
  obtain u w2 where d: "store_call (read_status (ex_ID (jr_job x))) w1 = (u, w2)" by force
  have lawful1: "lawful any_op M R w1" by (rule lawful_moves [OF m1 assms(1)])
  have m2: "moves R w1 w2" using store_call_moves [OF lawful1 _ d] by (simp add: read_status_def)
  have fin: "moves R w (snd (finish jw now ?x to reason w'))" if "moves R w w'" for w'
  proof (rule moves_trans [OF that finish_moves [OF _ _ assms(3)]])
    show "lawful any_op M R w'" by (rule lawful_moves [OF that assms(1)])
    have "known x (w_db w')" by (rule known_moves [OF assms(1) that assms(2)])
    then show "known ?x (w_db w')" by (simp add: known_def)
  qed
  have "moves R w w2" using m1 m2 by (rule moves_trans)
  with False c d m1 fin show ?thesis by (auto simp: onFinished_def split: option.split bool.split)
qed

lemma on_phase_moves:
  assumes "lawful any_op M R w" and "known x (w_db w)" and "\<not> Ended (jr_Status x)" and "jw_maxInfraRequeues jw = M"
  shows "moves R w (snd (on_phase duration jw now rp x said found scheduledNodes bound clusterIDs phase w))"
proof (cases phase)
  case JobPhaseRunning
  obtain out w1 where r: "onRunning now rp x w = (out, w1)" by force
  have m: "moves R w w1" using onRunning_moves [OF assms(1), of now rp x] r by simp
  have lawful1: "lawful any_op M R w1" by (rule lawful_moves [OF m assms(1)])
  have "moves R w (evictNotYetRunning jw now x reason w1)"
    "moves R w (snd (evictIfStuckPending duration jw now rp x waiting clusterIDs reason w1))" for reason waiting
    using evictNotYetRunning_moves [OF lawful1 assms(3,4)] evictIfStuckPending_moves [OF lawful1 assms(3,4)] m moves_trans by blast+
  with m r JobPhaseRunning show ?thesis by (auto simp: on_phase_def Let_def split: runningOutcome.split)
qed (use onFinished_moves [OF assms(1,2)] evictNotYetRunning_moves [OF assms(1,3,4)] evictIfStuckPending_moves [OF assms(1,3,4)]
      evictIfPastDeadline_moves [OF assms(1,3,4)] in \<open>auto simp: on_phase_def Let_def split: option.split\<close>)

lemma after_deadline_moves:
  assumes "lawful any_op M R w" and "known x (w_db w)" and "\<not> Ended (jr_Status x)" and "jw_maxInfraRequeues jw = M"
  shows "moves R w (snd (after_deadline duration jw now rp x said found scheduledNodes bound clusterIDs w))"
proof -
  obtain v w1 where c: "evictIfStuckPending duration jw now rp x (if bound then no_detail else said) clusterIDs EvictionStuckPending w = (v, w1)"
    by force
  have "moves R w w1" using evictIfStuckPending_moves [OF assms(1,3,4)] c by (metis snd_conv)
  with c on_phase_moves [OF assms] show ?thesis
    by (auto simp: after_deadline_def Let_def split: option.split bool.split)
qed

lemma reconcileOne_moves:
  assumes "lawful any_op M R w" and "known x (w_db w)" and "\<not> Ended (jr_Status x)" and "jw_maxInfraRequeues jw = M"
  shows "moves R w (snd (reconcileOne duration jw now rp autoscalerEnabled clusterIDs x w))"
proof (cases "rp_LatestPhaseDetail rp")
  case (Some d)
  obtain reason message scheduledNodes found where d: "d = (reason, message, scheduledNodes, found)" by (metis prod.exhaust)
  let ?said = "\<lparr>pd_Reason = reason, pd_Message = message\<rparr>"
  obtain v w1 where c: "checkScaleUpDeadline duration jw now rp x ?said autoscalerEnabled clusterIDs w = (v, w1)" by force
  have m: "moves R w w1" using checkScaleUpDeadline_moves [OF assms(1,3,4)] c by (metis snd_conv)
  have "lawful any_op M R w1" "known x (w_db w1)" using lawful_moves [OF m assms(1)] known_moves [OF assms(1) m assms(2)] by blast+
  from after_deadline_moves [OF this assms(3,4)] m
  have "moves R w (snd (after_deadline duration jw now rp x ?said found scheduledNodes bound clusterIDs w1))" for bound
    using moves_trans by blast
  with Some d c m evictNotYetRunning_moves [OF assms(1,3,4)] after_deadline_moves [OF assms] show ?thesis
    by (simp add: reconcileOne_def Let_def split: sum.split bool.split)
qed (simp add: reconcileOne_def)

subsection \<open>A pass\<close>

text \<open>Rows are stored under their id.\<close>

definition table_ok :: "job_db \<Rightarrow> bool" where
  "table_ok db \<longleftrightarrow> wf_map (db_rows db) \<and> (\<forall>i r. map_of (db_rows db) i = Some r \<longrightarrow> ex_ID (jr_job r) = i)"

lemma table_ok_step:
  assumes "store_step M db db'" and "table_ok db"
  shows "table_ok db'"
proof -
  from assms(1) consider (rows) "rows_step M db db'" | (insert) "inserts db db'" | (clusters) "reclusters db db'" by (auto simp: store_step_def)
  then show ?thesis
  proof cases
    case rows
    then have k: "keys (db_rows db') = keys (db_rows db)" by (simp add: rows_by_def)
    have "ex_ID (jr_job r') = i" if r': "map_of (db_rows db') i = Some r'" for i r'
    proof -
      have "i \<in> set (keys (db_rows db))" unfolding k [symmetric] using r' by (auto simp: set_keys)
      then obtain r where r: "map_of (db_rows db) i = Some r" by (auto simp: set_keys)
      with assms(2) have "ex_ID (jr_job r) = i" by (simp add: table_ok_def)
      moreover from rows r r' have "r' = r \<or> (\<exists>opn. row_step M opn r r')" unfolding rows_by_def by blast
      ultimately show ?thesis using same_id.law_step by blast
    qed
    moreover have "wf_map (db_rows db')" using assms(2) k by (simp add: table_ok_def wf_map_def keys_def)
    ultimately show ?thesis by (simp add: table_ok_def)
  next
    case insert
    then obtain s where s: "ex_ID (sub_exp s) \<notin> set (keys (db_rows db))" "db_rows db' = db_rows db @ [(ex_ID (sub_exp s), new_row s)]"
      by (auto simp: inserts_def)
    have "ex_ID (jr_job (new_row s)) = ex_ID (sub_exp s)" by (simp add: new_row_def)
    with s assms(2) show ?thesis by (auto simp: table_ok_def wf_map_def keys_def map_add_Some_iff)
  next
    case clusters
    with assms(2) show ?thesis by (simp add: reclusters_def table_ok_def)
  qed
qed

lemma table_ok_steps:
  assumes "lawful may M R w" and "R\<^sup>*\<^sup>* db db'" and "table_ok db"
  shows "table_ok db'"
  using assms(2)
proof (induction rule: rtranclp_induct)
  case base
  show ?case by (rule assms(3))
next
  case (step b c)
  from step.hyps(2) assms(1) have "store_step M b c" unfolding lawful_def by blast
  with step.IH show ?case by (rule table_ok_step [rotated])
qed

lemma listed_known:
  assumes "table_ok db" and "x \<in> set (fst (list_with_status s db))"
  shows "known x db \<and> jr_Status x = s"
proof -
  obtain i where "(i, x) \<in> set (db_rows db)" "jr_Status x = s" using assms(2) by (auto simp: list_with_status_def)
  moreover from this have "map_of (db_rows db) i = Some x" using assms(1) by (auto simp: table_ok_def wf_map_def)
  moreover from this have "ex_ID (jr_job x) = i" using assms(1) by (simp add: table_ok_def)
  ultimately show ?thesis by (auto simp: known_def)
qed

lemma reconcile_all_moves:
  assumes "lawful any_op M R w" and "\<And>x. x \<in> set xs \<Longrightarrow> known x (w_db w) \<and> \<not> Ended (jr_Status x)"
    and "jw_maxInfraRequeues jw = M"
  shows "moves R w (reconcile_all duration jw now reports autoscalerEnabled clusterIDs xs w)"
  using assms
proof (induction xs arbitrary: w)
  case (Cons x xs)
  let ?w = "snd (reconcileOne duration jw now (reports x) autoscalerEnabled clusterIDs x w)"
  have m: "moves R w ?w" using Cons.prems by (intro reconcileOne_moves) auto
  then have "lawful any_op M R ?w" using Cons.prems(1) by (rule lawful_moves)
  moreover have "known y (w_db ?w) \<and> \<not> Ended (jr_Status y)" if "y \<in> set xs" for y
    using known_moves [OF Cons.prems(1) m] Cons.prems(2) [of y] that by auto
  ultimately have "moves R ?w (reconcile_all duration jw now reports autoscalerEnabled clusterIDs xs ?w)"
    using Cons.prems(3) by (intro Cons.IH) auto
  with m show ?case unfolding reconcile_all_def by (simp add: moves_trans)
qed (simp add: reconcile_all_def)

lemma scan_statuses_moves:
  assumes "lawful any_op M R w" and "table_ok (w_db w)" and "\<forall>s \<in> set ss. \<not> Ended s" and "jw_maxInfraRequeues jw = M"
  shows "moves R w (snd (scan_statuses duration jw now reports autoscalerEnabled clusterIDs ss w))"
  using assms
proof (induction ss arbitrary: w)
  case (Cons s ss)
  obtain v w1 where c: "store_call (list_with_status s) w = (v, w1)" by force
  have id: "R\<^sup>*\<^sup>* db (snd (list_with_status s db))" for db by (simp add: list_with_status_def)
  have m: "moves R w w1" and e: "\<And>xs. v = Some xs \<Longrightarrow> \<exists>db. list_with_status s db = (xs, w_db w1)"
    using store_call_moves [OF Cons.prems(1) id c] by blast+
  have l1: "lawful any_op M R w1" and t1: "table_ok (w_db w1)"
    using lawful_moves [OF m Cons.prems(1)] m Cons.prems(2) table_ok_steps [OF Cons.prems(1)] unfolding moves_def by blast+
  show ?case
  proof (cases v)
    case None
    with c m show ?thesis by simp
  next
    case (Some xs)
    from e [OF Some] have xs: "xs = fst (list_with_status s (w_db w1))" by (auto simp: list_with_status_def)
    let ?w = "reconcile_all duration jw now reports autoscalerEnabled clusterIDs xs w1"
    have m2: "moves R w1 ?w"
      using listed_known [OF t1] xs Cons.prems(3,4) by (intro reconcile_all_moves [OF l1]) auto
    have "moves R ?w (snd (scan_statuses duration jw now reports autoscalerEnabled clusterIDs ss ?w))"
    proof (rule Cons.IH)
      show "lawful any_op M R ?w" by (rule lawful_moves [OF m2 l1])
      show "table_ok (w_db ?w)" using m2 t1 table_ok_steps [OF l1] unfolding moves_def by blast
    qed (use Cons.prems in auto)
    with moves_trans [OF m m2] have "moves R w (snd (scan_statuses duration jw now reports autoscalerEnabled clusterIDs ss ?w))"
      by (rule moves_trans)
    with Some c show ?thesis by simp
  qed
qed simp

subsection \<open>Placement deadlines\<close>

text \<open>The deadline of a job that is not bound: the scale-up timeout where its cluster scales up, else the stuck-pending one.\<close>

definition placement_timeout :: "JobWatcher \<Rightarrow> ClusterSettings option \<Rightarrow> bool \<Rightarrow> int" where
  "placement_timeout jw cs scales =
     (if scales then (case Option.bind cs cs_ScaleUpTimeoutSeconds of None \<Rightarrow> jw_scaleUpTimeout jw | Some s \<Rightarrow> s * second)
      else (case Option.bind cs cs_StuckPendingTimeoutSeconds of None \<Rightarrow> jw_stuckPendingTimeout jw | Some s \<Rightarrow> s * second))"

text \<open>When the wait that is judged began: at the submission, or where that is later and the cluster does not scale up, when
  the runtime first reported what the job waits for.\<close>

definition placement_overdue :: "int \<Rightarrow> job_report \<Rightarrow> job_row \<Rightarrow> int \<Rightarrow> string \<Rightarrow> int \<Rightarrow> bool \<Rightarrow> bool" where
  "placement_overdue now rp x submitted reason timeout scales \<longleftrightarrow>
     timeout > 0 \<and> startOverdue now x submitted > timeout
     \<and> (scales \<or> reason = [] \<or> (case rp_PhaseReportedSince rp reason of
            None \<Rightarrow> False | Some None \<Rightarrow> True | Some (Some since) \<Rightarrow> now - since > timeout))"

lemma deadline_kept:
  fixes x :: job_row and jw :: JobWatcher and cs :: "ClusterSettings option" and autoscalerEnabled :: "string list"
  assumes "jr_SubmittedAt x = Some submitted" and "gets clusterIDs (ex_ClusterName (jr_job x)) \<noteq> []"
    and "jw_GetClusterSettings jw (gets clusterIDs (ex_ClusterName (jr_job x))) = Some cs"
    and "pd_Reason waiting \<noteq> PhaseReasonScaleUpRefused"
  defines "scales \<equiv> ex_ClusterName (jr_job x) \<in> set autoscalerEnabled"
  defines "timeout \<equiv> placement_timeout jw cs scales"
  shows "checkScaleUpDeadline duration jw now rp x waiting autoscalerEnabled clusterIDs w =
    (if placement_overdue now rp x submitted (pd_Reason waiting) timeout scales
     then (Inr True, evictNotYetRunning jw now x
            (WithDetail (if scales then EvictionScaleUpTimeout else EvictionStuckPending) (notRunningInTime duration timeout waiting)) w)
     else (Inr False, w))"
proof (cases scales)
  case True
  then show ?thesis
    using assms(1-4) unfolding checkScaleUpDeadline_def placement_overdue_def timeout_def placement_timeout_def scales_def
    by (auto simp: Let_def split: option.splits)
next
  case False
  have "stuckPendingTimeoutFor jw x clusterIDs = Inr (Some timeout)"
    using assms(2,3) False by (auto simp: stuckPendingTimeoutFor_def timeout_def placement_timeout_def Let_def split: option.splits)
  then show ?thesis
    using assms(1,2) False unfolding checkScaleUpDeadline_def placement_overdue_def scales_def stuckPendingOverdue_def
    by (auto simp: Let_def split: option.splits)
qed

text \<open>What the eviction of a job that is not running does on a quiet database.\<close>

lemma evict_quiet:
  fixes jw :: JobWatcher and now :: int and x r :: job_row and reason :: string and w :: world
  assumes "w_schedule w = []" and "map_of (db_rows (w_db w)) (ex_ID (jr_job x)) = Some r" and "jr_Status r = jr_Status x"
    and "IsInfrastructureFault reason"
  defines "w' \<equiv> evictNotYetRunning jw now x reason w"
  shows "\<exists>r'. map_of (db_rows (w_db w')) (ex_ID (jr_job x)) = Some r' \<and> w_wakes w' = w_wakes w + 1 \<and> jr_EvictionReason r' = Some reason
    \<and> (if ex_InfraRequeueCount (jr_job r) < jw_maxInfraRequeues jw
       then jr_Status r' = StatusQueued \<and> ex_ClusterName (jr_job r') = [] \<and> RetriesUsed (jr_job r') = RetriesUsed (jr_job r)
            \<and> jr_QuotaSettledAt r' = None
       else jr_Status r' = StatusEvicted \<and> (jw_Settle jw (ex_ID (jr_job x)) \<longrightarrow> jr_QuotaSettledAt r' \<noteq> None))"
proof (cases "ex_InfraRequeueCount (jr_job r) < jw_maxInfraRequeues jw")
  case True
  then show ?thesis
    using assms(1-4) unfolding w'_def evictNotYetRunning_def ResolveTermination_def RequeueInfrastructureFault_def
    by (simp add: store_call_def write_job_def call_settler_def wakeAdmission_def infra_row_def unplace_row_def RetriesUsed_def Let_def)
next
  case False
  then show ?thesis
    using assms(1-4) unfolding w'_def evictNotYetRunning_def ResolveTermination_def RequeueInfrastructureFault_def settleQuota_def
    by (simp add: store_call_def write_job_def call_settler_def wakeAdmission_def finish_row_def MarkQuotaSettled_def Let_def)
qed

subsection \<open>Sample data\<close>

definition sample_watcher :: JobWatcher where
  "sample_watcher = \<lparr>jw_stuckPendingTimeout = 5 * second, jw_startTimeout = 5 * second, jw_scaleUpTimeout = 9 * second,
     jw_maxInfraRequeues = 2, jw_GetClusterSettings = (\<lambda>_. Some None), jw_Settle = (\<lambda>_. True)\<rparr>"

definition sample_world :: "job_row \<Rightarrow> disturbance list \<Rightarrow> world" where
  "sample_world r ds = \<lparr>w_db = sample_db\<lparr>db_rows := [(''e1'', r)]\<rparr>, w_schedule = ds, w_settles = [], w_wakes = 0\<rparr>"

definition silent_report :: job_report where
  "silent_report = \<lparr>rp_LatestPhaseDetail = Some ([], [], 0, False), rp_PhaseReportedSince = (\<lambda>_. Some None),
     rp_LatestJobPhase = Some (JobPhasePending, False), rp_GetAdmittedAcceleratorType = None, rp_LogTail = Some []\<rparr>"

definition failed_report :: job_report where
  "failed_report = silent_report\<lparr>rp_LatestPhaseDetail := Some ([], [], 1, True), rp_LatestJobPhase := Some (JobPhaseFailed, True)\<rparr>"

definition sample_rates :: "(string, rat) gomap" where
  "sample_rates = [(''nvidia.com/gpu.product=A100'', 1)]"

text \<open>A running job that may be retried twice.\<close>

definition retrying_row :: job_row where
  "retrying_row = running_row\<lparr>jr_job := (jr_job running_row)\<lparr>ex_Job := sample_job\<lparr>js_MaxRetries := Some 2\<rparr>\<rparr>\<rparr>"

text \<open>Another watcher handles the same failure, and the scheduler places the job again.\<close>

definition retried_and_claimed :: "job_db \<Rightarrow> job_db" where
  "retried_and_claimed db =
     snd (ClaimSubmitted sample_rates 1 5 ''e1'' ''near'' sample_job None (snd (RequeueForRetry 4 ''e1'' 2 db)))"

lemma retried_and_claimed_steps:
  assumes steps: "R\<^sup>*\<^sup>* db0 db" and R: "R \<le> store_step M" and "map_of (db_rows db0) ''e1'' = Some r0" "retry_budget r0 = 2"
    and "[] \<notin> set (keys (db_clusters db0))"
  shows "(rows_step M)\<^sup>*\<^sup>* db (retried_and_claimed db)"
proof -
  let ?db = "snd (RequeueForRetry 4 ''e1'' 2 db)"
  have "2 \<le> retry_budget r" if "map_of (db_rows db) ''e1'' = Some r" for r
    using same_spec.law_rows [OF steps R assms(3) refl] that assms(4) by (simp add: retry_budget_def)
  then have retried: "rows_step M db ?db" by (intro RequeueForRetry_step) auto
  from store_clusters_named [OF steps R assms(5)] have "[] \<notin> set (keys (db_clusters ?db))"
    using retried by (simp add: rows_by_def)
  then have "rows_step M ?db (retried_and_claimed db)"
    unfolding retried_and_claimed_def by (rule ClaimSubmitted_step)
  with retried show ?thesis by (meson r_into_rtranclp rtranclp.rtrancl_into_rtrancl)
qed

subsection \<open>The properties\<close>

text \<open>C4: a pass of the watcher over every placed job, with other processes writing before any of its store calls and with any of them failing or
  losing its answer, only takes rows through steps of the job's state machine: whatever of the store's writes the others make,
  the store moves by theirs and by such steps alone, so no row appears but one they insert and none disappears, and every row that satisfied
  the table's constraints still does.\<close>

theorem scanAndWatch_lawful:
  fixes M now :: int and w :: world and jw :: JobWatcher and duration :: "int \<Rightarrow> string" and reports :: "job_row \<Rightarrow> job_report"
    and clusterIDs :: "(string, string) gomap option" and autoscalers :: "string list option" and others :: "job_db \<Rightarrow> job_db \<Rightarrow> bool"
  assumes "among others any_op M w" and "table_ok (w_db w)" and "jw_maxInfraRequeues jw = M"
  defines "w' \<equiv> snd (scanAndWatch duration jw now reports clusterIDs autoscalers w)"
  shows "(sup others (rows_step M))\<^sup>*\<^sup>* (w_db w) (w_db w')
    \<and> (\<forall>i r. map_of (db_rows (w_db w)) i = Some r \<and> row_ok r \<longrightarrow> (\<exists>r'. map_of (db_rows (w_db w')) i = Some r' \<and> row_ok r'))"
proof -
  let ?R = "sup others (rows_step M)"
  note lawful = among_lawful [OF assms(1)]
  have "moves ?R w w'"
    using scan_statuses_moves [OF lawful assms(2) _ assms(3), of PlacedStatuses] unfolding w'_def scanAndWatch_def
    by (auto simp: PlacedStatuses_def Ended_def split: option.split)
  then have steps: "?R\<^sup>*\<^sup>* (w_db w) (w_db w')" by (simp add: moves_def)
  have "?R \<le> store_step M" using lawful by (simp add: lawful_def)
  with well_formed.law_rows [OF steps this] steps show ?thesis by blast
qed

theorem scanAndWatch_lawful_witness:
  "(rows_step 2)\<^sup>*\<^sup>* (w_db (sample_world retrying_row [Others retried_and_claimed, AnswerLost]))
     (w_db (snd (scanAndWatch (\<lambda>_. []) sample_watcher 6 (\<lambda>_. failed_report) (Some [(''near'', ''k8s'')]) (Some [])
        (sample_world retrying_row [Others retried_and_claimed, AnswerLost]))))"
proof -
  let ?w = "sample_world retrying_row [Others retried_and_claimed, AnswerLost]"
  have row: "map_of (db_rows (w_db ?w)) ''e1'' = Some retrying_row" "retry_budget retrying_row = 2"
      "[] \<notin> set (keys (db_clusters (w_db ?w)))"
    by code_simp+
  have "among (rows_step 2) any_op 2 ?w"
    using retried_and_claimed_steps [OF _ rows_by_store row] by (simp add: among_def rows_by_store sample_world_def)
  moreover have "table_ok (w_db ?w)"
    by (simp add: table_ok_def sample_world_def wf_map_def keys_def retrying_row_def running_row_def claimed_row_def row_eval)
  ultimately show ?thesis using scanAndWatch_lawful [of "rows_step 2" 2 ?w sample_watcher] by (simp add: sample_watcher_def)
qed

text \<open>C7: a submitted job whose runtime has not bound it, and has said nothing else that decides it, is released by the
  first pass after its deadline and by none before it: back to the queue, with its retries untouched, while the
  allowance for faults of the environment lasts, and evicted after that. The deadline is the cluster's scale-up timeout where
  the cluster scales up and otherwise its stuck-pending timeout, counted from when the runtime first reported what the job waits for.\<close>

theorem placement_deadline_exact:
  fixes x :: job_row and jw :: JobWatcher and cs :: "ClusterSettings option" and autoscalerEnabled :: "string list"
    and duration :: "int \<Rightarrow> string" and now :: int and rp :: job_report and clusterIDs :: "(string, string) gomap" and w :: world
  assumes quiet: "w_schedule w = []" "map_of (db_rows (w_db w)) (ex_ID (jr_job x)) = Some x" "jr_Status x = StatusSubmitted"
      "jr_SubmittedAt x = Some submitted"
    and cluster: "gets clusterIDs (ex_ClusterName (jr_job x)) \<noteq> []"
      "jw_GetClusterSettings jw (gets clusterIDs (ex_ClusterName (jr_job x))) = Some cs"
    and report: "rp_LatestPhaseDetail rp = Some (reason, message, scheduledNodes, found)" "rp_LatestJobPhase rp = Some (JobPhasePending, heard)"
      "\<not> (found \<and> scheduledNodes \<ge> Nodes (ex_Job (jr_job x)))" "reason \<notin> set NeverSelfHealsPhaseReasons" "reason \<noteq> PhaseReasonScaleUpRefused"
  defines "scales \<equiv> ex_ClusterName (jr_job x) \<in> set autoscalerEnabled"
  defines "w' \<equiv> snd (reconcileOne duration jw now rp autoscalerEnabled clusterIDs x w)"
  shows "if placement_overdue now rp x submitted reason (placement_timeout jw cs scales) scales
    then \<exists>x'. map_of (db_rows (w_db w')) (ex_ID (jr_job x)) = Some x' \<and> w_wakes w' = w_wakes w + 1
      \<and> (if ex_InfraRequeueCount (jr_job x) < jw_maxInfraRequeues jw
         then jr_Status x' = StatusQueued \<and> ex_ClusterName (jr_job x') = [] \<and> RetriesUsed (jr_job x') = RetriesUsed (jr_job x)
         else jr_Status x' = StatusEvicted)
    else w' = w"
proof -
  let ?why = "WithDetail (if scales then EvictionScaleUpTimeout else EvictionStuckPending)
      (notRunningInTime duration (placement_timeout jw cs scales) \<lparr>pd_Reason = reason, pd_Message = message\<rparr>)"
  have d: "checkScaleUpDeadline duration jw now rp x \<lparr>pd_Reason = reason, pd_Message = message\<rparr> autoscalerEnabled clusterIDs w =
    (if placement_overdue now rp x submitted reason (placement_timeout jw cs scales) scales
     then (Inr True, evictNotYetRunning jw now x ?why w) else (Inr False, w))"
    using deadline_kept [OF quiet(4) cluster, of "\<lparr>pd_Reason = reason, pd_Message = message\<rparr>"] report(5) unfolding scales_def by simp
  have fault: "IsInfrastructureFault ?why" by simp
  show ?thesis
  proof (cases "placement_overdue now rp x submitted reason (placement_timeout jw cs scales) scales")
    case True
    then have "w' = evictNotYetRunning jw now x ?why w"
      using d quiet(3) report unfolding w'_def reconcileOne_def by (auto simp: Let_def)
    with evict_quiet [OF quiet(1,2) refl fault, of jw now] True show ?thesis by (auto split: if_splits)
  next
    case False
    then have "w' = w"
      using d quiet(3) report unfolding w'_def reconcileOne_def after_deadline_def on_phase_def
      by (cases heard) (auto simp: Let_def)
    with False show ?thesis by simp
  qed
qed

theorem placement_deadline_exact_witness:
  "(\<exists>x'. map_of (db_rows (w_db (snd (reconcileOne (\<lambda>_. []) sample_watcher (6 * second) silent_report [] [(''near'', ''k8s'')]
       claimed_row (sample_world claimed_row []))))) ''e1'' = Some x' \<and> jr_Status x' = StatusQueued)
   \<and> snd (reconcileOne (\<lambda>_. []) sample_watcher (4 * second) silent_report [] [(''near'', ''k8s'')] claimed_row (sample_world claimed_row []))
       = sample_world claimed_row []"
proof -
  let ?w = "sample_world claimed_row []"
  have facts: "w_schedule ?w = []" "map_of (db_rows (w_db ?w)) (ex_ID (jr_job claimed_row)) = Some claimed_row"
      "jr_Status claimed_row = StatusSubmitted" "jr_SubmittedAt claimed_row = Some 1"
      "gets [(''near'', ''k8s'')] (ex_ClusterName (jr_job claimed_row)) \<noteq> []"
      "jw_GetClusterSettings sample_watcher (gets [(''near'', ''k8s'')] (ex_ClusterName (jr_job claimed_row))) = Some None"
      "rp_LatestPhaseDetail silent_report = Some ([], [], 0, False)" "rp_LatestJobPhase silent_report = Some (JobPhasePending, False)"
      "\<not> (False \<and> 0 \<ge> Nodes (ex_Job (jr_job claimed_row)))" "[] \<notin> set NeverSelfHealsPhaseReasons" "[] \<noteq> PhaseReasonScaleUpRefused"
    by (simp add: sample_world_def) (simp add: sample_world_def claimed_row_def row_eval, code_simp+)
  note exact = placement_deadline_exact [OF facts, where duration = "\<lambda>_. []" and autoscalerEnabled = "[]"]
  have late: "placement_overdue (6 * second) silent_report claimed_row 1 [] (placement_timeout sample_watcher None False) False"
    and soon: "\<not> placement_overdue (4 * second) silent_report claimed_row 1 [] (placement_timeout sample_watcher None False) False"
    by code_simp+
  have "ex_ID (jr_job claimed_row) = ''e1''" "ex_InfraRequeueCount (jr_job claimed_row) < jw_maxInfraRequeues sample_watcher" by code_simp+
  with exact [where now = "6 * second"] exact [where now = "4 * second"] late soon show ?thesis by auto
qed

text \<open>what a runtime reports of an attempt that is over ends nothing: the end of a job the watcher read as submitted, whose row
  has since been requeued, withdrawn or ended, changes no row, settles nothing and wakes nothing.\<close>

theorem stale_end_ignored:
  assumes "w_schedule w = [Others g]" and "jr_Status x = StatusSubmitted" and "map_of (db_rows (g (w_db w))) (ex_ID (jr_job x)) = Some r"
    and "jr_Status r \<notin> set PlacedStatuses"
  shows "onFinished jw now x to reason w = (None, w\<lparr>w_db := g (w_db w), w_schedule := []\<rparr>)"
  using assms
  by (simp add: onFinished_def store_call_def MarkStarted_def write_job_def read_status_def PlacedStatuses_def)

theorem stale_end_ignored_witness:
  "onFinished sample_watcher 6 claimed_row StatusCompleted [] (sample_world claimed_row [Others (\<lambda>db. requeueWithdrawn 5 ''near'' db)])
   = (None, (sample_world claimed_row [])\<lparr>w_db := requeueWithdrawn 5 ''near'' (w_db (sample_world claimed_row []))\<rparr>)
   \<and> map_option jr_Status (map_of (db_rows (requeueWithdrawn 5 ''near'' (w_db (sample_world claimed_row [])))) ''e1'') = Some StatusQueued"
proof -
  let ?g = "\<lambda>db. requeueWithdrawn 5 ''near'' db"
  let ?w = "sample_world claimed_row [Others ?g]"
  have row: "map_of (db_rows (?g (w_db ?w))) (ex_ID (jr_job claimed_row)) = Some (withdraw_row 5 claimed_row)"
    by (simp add: sample_world_def requeueWithdrawn_def update_where_def on_cluster_def claimed_row_def row_eval PlacedStatuses_def)
  have "onFinished sample_watcher 6 claimed_row StatusCompleted [] ?w = (None, ?w\<lparr>w_db := ?g (w_db ?w), w_schedule := []\<rparr>)"
    by (rule stale_end_ignored [where g = ?g, OF _ _ row])
      (simp_all add: sample_world_def claimed_row_def claim_row_def withdraw_row_def unplace_row_def PlacedStatuses_def Let_def)
  moreover have "ex_ID (jr_job claimed_row) = ''e1''" by code_simp
  ultimately show ?thesis
    using row by (simp add: sample_world_def withdraw_row_def unplace_row_def Let_def)
qed

text \<open>C38: one failure can spend two of a job's retries.  A watcher reads a job RUNNING and its runtime's report that it failed; another watcher
  spends the retry of that failure, and the scheduler places the job again, before the first asks for its own.  As long as the budget is
  above one, the first requeues the new attempt, whose runtime has reported nothing, and the job has spent two retries on one
  failure: in every such interleaving, whatever became of the new attempt while it holds its place.\<close>

theorem retry_spent_twice:
  fixes x r :: job_row and jw :: JobWatcher and g :: "job_db \<Rightarrow> job_db" and rp :: job_report and w :: world and autoscalerEnabled :: "string list"
    and clusterIDs :: "(string, string) gomap" and duration :: "int \<Rightarrow> string" and now :: int
  assumes read: "jr_Status x = StatusRunning" "js_MaxRetries (ex_Job (jr_job x)) = Some m"
    and report: "rp_LatestPhaseDetail rp = Some (reason, message, scheduledNodes, found)" "rp_LatestJobPhase rp = Some (JobPhaseFailed, True)"
      "rp_LogTail rp = Some tail" "reason \<notin> set NeverSelfHealsPhaseReasons" "EvictionOfFailure \<lparr>pd_Reason = reason, pd_Message = message\<rparr> = None"
    and meanwhile: "w_schedule w = [Others g]" "map_of (db_rows (g (w_db w))) (ex_ID (jr_job x)) = Some r"
      "jr_Status r \<in> set PlacedStatuses" "RetriesUsed (jr_job r) = RetriesUsed (jr_job x) + 1" "RetriesUsed (jr_job x) + 1 < m"
      "0 \<le> RetriesUsed (jr_job x)"
  defines "w' \<equiv> snd (reconcileOne duration jw now rp autoscalerEnabled clusterIDs x w)"
  shows "map_of (db_rows (w_db w')) (ex_ID (jr_job x)) = Some (retry_row now r)
    \<and> jr_Status (retry_row now r) = StatusQueued \<and> ex_ClusterName (jr_job (retry_row now r)) = []
    \<and> RetriesUsed (jr_job (retry_row now r)) = RetriesUsed (jr_job x) + 2"
proof -
  let ?said = "\<lparr>pd_Reason = reason, pd_Message = message\<rparr>"
  have retried: "retry jw now x w = (True, wakeAdmission (snd (store_call (RequeueForRetry now (ex_ID (jr_job x)) m) (snd (call_settler jw x w)))))"
    and row: "map_of (db_rows (w_db (snd (retry jw now x w)))) (ex_ID (jr_job x)) = Some (retry_row now r)"
    using read(2) meanwhile
    by (simp_all add: retry_def store_call_def call_settler_def RequeueForRetry_def write_job_def wakeAdmission_def)
  have "w' = snd (onFinished jw now x StatusFailed (withLastOutput (FailureCause ?said) tail) w)"
    using read(1) report unfolding w'_def by (simp add: reconcileOne_def after_deadline_def on_phase_def Let_def)
  also have "\<dots> = snd (retry jw now x w)"
    using read(1) retried by (simp add: onFinished_def finish_def)
  finally have "map_of (db_rows (w_db w')) (ex_ID (jr_job x)) = Some (retry_row now r)" using row by simp
  moreover have "RetriesUsed (jr_job (retry_row now r)) = RetriesUsed (jr_job r) + 1"
    by (simp add: retry_row_def unplace_row_def RetriesUsed_def Let_def)
  ultimately show ?thesis using meanwhile(4) by (simp add: retry_row_def unplace_row_def Let_def)
qed

text \<open>A budget of two: one failure, and it is gone before the second attempt has started.\<close>

theorem retry_spent_twice_witness:
  "map_option (\<lambda>r. (jr_Status r, RetriesUsed (jr_job r))) (map_of (db_rows (retried_and_claimed (w_db (sample_world retrying_row [])))) ''e1'')
     = Some (StatusSubmitted, 1)
   \<and> map_option (\<lambda>r. (jr_Status r, RetriesUsed (jr_job r))) (map_of (db_rows (w_db (snd (reconcileOne (\<lambda>_. []) sample_watcher 6 failed_report []
       [(''near'', ''k8s'')] retrying_row (sample_world retrying_row [Others retried_and_claimed]))))) ''e1'')
     = Some (StatusQueued, 2)"
proof -
  let ?w = "sample_world retrying_row [Others retried_and_claimed]"
  let ?r = "the (map_of (db_rows (retried_and_claimed (w_db ?w))) ''e1'')"
  have id: "ex_ID (jr_job retrying_row) = ''e1''" by code_simp
  have facts: "jr_Status retrying_row = StatusRunning" "js_MaxRetries (ex_Job (jr_job retrying_row)) = Some 2"
    "rp_LatestPhaseDetail failed_report = Some ([], [], 1, True)" "rp_LatestJobPhase failed_report = Some (JobPhaseFailed, True)"
    "rp_LogTail failed_report = Some []" "[] \<notin> set NeverSelfHealsPhaseReasons" "EvictionOfFailure \<lparr>pd_Reason = [], pd_Message = []\<rparr> = None"
    by code_simp+
  have sched: "w_schedule ?w = [Others retried_and_claimed]" by (simp add: sample_world_def)
  have "map_option (\<lambda>r. (jr_Status r, RetriesUsed (jr_job r))) (map_of (db_rows (retried_and_claimed (w_db ?w))) ''e1'') = Some (StatusSubmitted, 1)"
    by code_simp
  then obtain r where r: "map_of (db_rows (retried_and_claimed (w_db ?w))) (ex_ID (jr_job retrying_row)) = Some r" "jr_Status r = StatusSubmitted"
    "RetriesUsed (jr_job r) = 1" unfolding id by auto
  have used: "RetriesUsed (jr_job retrying_row) = 0" by code_simp
  have placed: "jr_Status r \<in> set PlacedStatuses" "RetriesUsed (jr_job r) = RetriesUsed (jr_job retrying_row) + 1"
    "RetriesUsed (jr_job retrying_row) + 1 < (2 :: int)" "0 \<le> RetriesUsed (jr_job retrying_row)"
    using r(2,3) used by (simp_all add: PlacedStatuses_def)
  have "w_db (sample_world retrying_row []) = w_db ?w" by (simp add: sample_world_def)
  with retry_spent_twice [OF facts sched r(1) placed, of "\<lambda>_. []" sample_watcher 6 "[]" "[(''near'', ''k8s'')]"] r used id
  show ?thesis by auto
qed

end
