(* ===== verification/Endings_Properties.thy ===== *)
theory Endings_Properties
  imports Endings Watcher_Properties
begin

text \<open>
  What cancelling and settling promise: a cancel racing the scheduler ends the job within its attempts, and a pass of
  the reconciler settles every ended job whose usage could be written, with what it owes, and no other.
\<close>

subsection \<open>Settling is a step\<close>

lemma MarkQuotaSettled_by:
  assumes "\<And>r. map_of (db_rows db) i = Some r \<Longrightarrow> Ended (jr_Status r)" and "\<And>r. Ended (jr_Status r) \<Longrightarrow> may Settled r"
  shows "rows_by may M db (snd (MarkQuotaSettled now i db))"
  unfolding MarkQuotaSettled_def using assms by (intro write_job_by) (auto intro: row_step.settled)

lemma settle_moves:
  assumes "lawful may M R w" and "has_ended x (w_db w)" and "\<And>r. Ended (jr_Status r) \<Longrightarrow> may Settled r"
  shows "moves R w (snd (settle env now x (u, w)))"
proof -
  obtain v w1 where c: "store_call (MarkQuotaSettled now (ex_ID (jr_job x))) w = (v, w1)" by force
  have "moves R w w1"
  proof (rule store_call_moves [THEN conjunct1, OF assms(1) _ c])
    fix db
    assume "R\<^sup>*\<^sup>* (w_db w) db"
    then have "has_ended x db" using assms(1,2) has_ended_steps by blast
    then show "R\<^sup>*\<^sup>* db (snd (MarkQuotaSettled now (ex_ID (jr_job x)) db))"
      by (intro own_step [OF assms(1)] MarkQuotaSettled_by assms(3)) (auto simp: has_ended_def)
  qed
  with c show ?thesis by (auto simp: settle_def split: prod.split bool.split)
qed

subsection \<open>Cancelling\<close>

text \<open>The other processes write, and no call fails.\<close>

definition answered :: "world \<Rightarrow> bool" where
  "answered w \<longleftrightarrow> (\<forall>d \<in> set (w_schedule w). \<exists>g. d = Others g)"

definition disturbed :: "world \<Rightarrow> job_db" where
  "disturbed w = (case w_schedule w of Others g # _ \<Rightarrow> g (w_db w) | _ \<Rightarrow> w_db w)"

lemma store_call_answered:
  assumes "answered w"
  shows "store_call f w = (Some (fst (f (disturbed w))), w\<lparr>w_db := snd (f (disturbed w)), w_schedule := tl (w_schedule w)\<rparr>)"
  using assms by (cases w; cases "w_schedule w") (auto simp: store_call_def answered_def disturbed_def case_prod_unfold Let_def)

lemma disturbed_steps: "lawful any_op M R w \<Longrightarrow> R\<^sup>*\<^sup>* (w_db w) (disturbed w)"
  by (cases "w_schedule w") (auto simp: disturbed_def lawful_def split: disturbance.split)

lemma answered_tl: "answered w \<Longrightarrow> answered (w\<lparr>w_db := db, w_schedule := tl (w_schedule w)\<rparr>)"
  by (cases "w_schedule w") (auto simp: answered_def)

lemma lawful_tl:
  assumes "lawful any_op M R w" and "R\<^sup>*\<^sup>* (disturbed w) db"
  shows "lawful any_op M R (w\<lparr>w_db := db, w_schedule := tl (w_schedule w)\<rparr>)"
proof (rule lawful_moves [OF _ assms(1)])
  have "set (tl (w_schedule w)) \<subseteq> set (w_schedule w)" by (cases "w_schedule w") auto
  with rtranclp_trans [OF disturbed_steps [OF assms(1)] assms(2)]
  show "moves R w (w\<lparr>w_db := db, w_schedule := tl (w_schedule w)\<rparr>)" by (simp add: moves_def)
qed

lemma cancel_write:
  "ResolveTermination M now i from to EvictionCancelled db =
     (case write_job jobStatus (\<lambda>r. jr_Status r = from) (finish_row now to (Some EvictionCancelled)) i db of
        (moved, db') \<Rightarrow> (if moved then TerminationWritten else TerminationSkipped, db'))"
  by (simp add: ResolveTermination_def Let_def)

lemma Code_cancelled [simp]: "Code EvictionCancelled = EvictionCancelled"
  by code_simp

text \<open>What a cancel that came to its end says of the row it leaves.\<close>

definition cancel_done :: "string \<Rightarrow> cancel_result \<times> usage \<times> world \<Rightarrow> bool" where
  "cancel_done i out \<longleftrightarrow>
     (\<exists>r. map_of (db_rows (w_db (snd (snd out)))) i = Some r \<and> Ended (jr_Status r)
        \<and> fst out \<in> {Cancelled, InvalidTransition (AnsweredStatus (jr_Status r) (coalesce (jr_EvictionReason r)))}
        \<and> (fst out = Cancelled \<longrightarrow> AnsweredStatus (jr_Status r) (coalesce (jr_EvictionReason r)) = StatusCancelled))"

lemma cancel_settled:
  assumes "lawful any_op M R w" and "map_of (db_rows (w_db w)) (ex_ID (jr_job x)) = Some r" and "Ended (jr_Status r)"
    and "jr_EvictionReason r = Some EvictionCancelled"
  shows "cancel_done (ex_ID (jr_job x)) (Cancelled, settle env now x (u, w))"
proof -
  have "has_ended x (w_db w)" using assms(2,3) by (auto simp: has_ended_def)
  then have "R\<^sup>*\<^sup>* (w_db w) (w_db (snd (settle env now x (u, w))))" using settle_moves [OF assms(1) _ TrueI] by (simp add: moves_def)
  from ended.law_rows [OF this lawful_within [OF assms(1)] assms(2), of "jr_Status r" "jr_EvictionReason r"] assms(3,4) show ?thesis
    by (auto simp: cancel_done_def AnsweredStatus_def coalesce_def)
qed

lemma cancel_attempt:
  assumes "store_call (GetExperiment i) w = (Some (Some x), w1)" and "\<not> Ended (jr_Status x)"
    and "store_call (ResolveTermination M now i (jr_Status x) (if jr_Status x = StatusRunning then StatusEvicted else StatusRejected) EvictionCancelled) w1
      = (Some t, w2)"
  shows "cancel_attempts (Suc n) M env now i (u, w) =
    (if t = TerminationWritten
     then (Cancelled, settle env now (x\<lparr>jr_Status := if jr_Status x = StatusRunning then StatusEvicted else StatusRejected\<rparr>)
             (u, if jr_Status x = StatusRunning then wakeAdmission w2 else w2))
     else cancel_attempts n M env now i (u, w2))"
  using assms by (cases t) (simp_all add: cancels_def Let_def)

lemma cancel_attempts_done:
  assumes "lawful any_op M R w" and "answered w" and "length (w_schedule w) < 2 * n" and "table_ok (w_db w)" and "map_of (db_rows (w_db w)) i = Some r"
  shows "cancel_done i (cancel_attempts n M env now i (u, w))"
  using assms
proof (induction n arbitrary: w r)
  case (Suc n)
  let ?db1 = "disturbed w" and ?w1 = "w\<lparr>w_db := disturbed w, w_schedule := tl (w_schedule w)\<rparr>"
  note steps1 = disturbed_steps [OF Suc.prems(1)]
  obtain x where x: "map_of (db_rows ?db1) i = Some x" using row_kept [OF steps1 lawful_within [OF Suc.prems(1)] Suc.prems(5)] by blast
  have id: "ex_ID (jr_job x) = i" using table_ok_steps [OF Suc.prems(1) steps1 Suc.prems(4)] x by (simp add: table_ok_def)
  have get: "store_call (GetExperiment i) w = (Some (Some x), ?w1)"
    using store_call_answered [OF Suc.prems(2), of "GetExperiment i"] x by (simp add: GetExperiment_def)
  have lawful1: "lawful any_op M R ?w1" by (rule lawful_tl [OF Suc.prems(1)]) simp
  have answered1: "answered ?w1" by (rule answered_tl [OF Suc.prems(2)])
  show ?case
  proof (cases "Ended (jr_Status x)")
    case True
    with get x show ?thesis by (simp add: cancels_def cancel_done_def)
  next
    case False
    let ?to = "if jr_Status x = StatusRunning then StatusEvicted else StatusRejected"
    let ?f = "ResolveTermination M now i (jr_Status x) ?to EvictionCancelled"
    let ?db2 = "disturbed ?w1" and ?w2 = "?w1\<lparr>w_db := snd (?f (disturbed ?w1)), w_schedule := tl (w_schedule ?w1)\<rparr>"
    note steps2 = disturbed_steps [OF lawful1]
    obtain r2 where r2: "map_of (db_rows ?db2) i = Some r2" using row_kept [OF steps2 lawful_within [OF lawful1], of i x] x by auto
    have call: "store_call ?f ?w1 = (Some (fst (?f ?db2)), ?w2)" by (rule store_call_answered [OF answered1])
    have steps: "R\<^sup>*\<^sup>* ?db2 (snd (?f ?db2))"
      using False by (intro own_step [OF lawful1] ResolveTermination_step) (auto split: if_splits)
    have lawful2: "lawful any_op M R ?w2" by (rule lawful_tl [OF lawful1 steps])
    show ?thesis
    proof (cases "jr_Status r2 = jr_Status x")
      case True
      then have written: "fst (?f ?db2) = TerminationWritten" "map_of (db_rows (w_db ?w2)) i = Some (finish_row now ?to (Some EvictionCancelled) r2)"
        using r2 by (simp_all add: cancel_write write_job_def)
      let ?x = "x\<lparr>jr_Status := ?to\<rparr>" and ?w3 = "if jr_Status x = StatusRunning then wakeAdmission ?w2 else ?w2"
      have "cancel_done i (Cancelled, settle env now ?x (u, ?w3))"
        using cancel_settled [of M R ?w3 ?x "finish_row now ?to (Some EvictionCancelled) r2" env now u] id written(2)
          lawful2 lawful_moves [OF moves_effects(1) lawful2]
        by (auto simp: wakeAdmission_def finish_row_def Ended_def)
      then show ?thesis unfolding cancel_attempt [OF get False call] using written(1) by simp
    next
      case moved: False
      then have skipped: "fst (?f ?db2) = TerminationSkipped" using r2 by (simp add: cancel_write write_job_def)
      have "w_schedule ?w1 \<noteq> []" using moved r2 x by (auto simp: disturbed_def)
      then have "length (w_schedule ?w2) < 2 * n" using Suc.prems(3) by (cases "w_schedule w"; cases "tl (w_schedule w)") auto
      moreover have "answered ?w2" by (rule answered_tl [OF answered1])
      moreover have all: "R\<^sup>*\<^sup>* (w_db w) (w_db ?w2)"
        using rtranclp_trans [OF steps1 rtranclp_trans [OF _ steps]] steps2 by simp
      moreover obtain r3 where "map_of (db_rows (w_db ?w2)) i = Some r3" using row_kept [OF all lawful_within [OF Suc.prems(1)] Suc.prems(5)] by blast
      ultimately have "cancel_done i (cancel_attempts n M env now i (u, ?w2))"
        using Suc.IH [OF lawful2] table_ok_steps [OF Suc.prems(1) all Suc.prems(4)] by blast
      then show ?thesis unfolding cancel_attempt [OF get False call] using skipped by simp
    qed
  qed
qed simp

subsection \<open>A pass of the reconciler\<close>

text \<open>Whether a job's usage can be written now, and what it owes.\<close>

definition settles :: "metrics_env \<Rightarrow> job_row \<Rightarrow> bool" where
  "settles env x \<longleftrightarrow> ex_PlatformExperimentID (jr_job x) = [] \<or> billed_hours env x \<noteq> None \<and> me_writes env (ex_ID (jr_job x))"

definition owed :: "metrics_env \<Rightarrow> job_row \<Rightarrow> rat" where
  "owed env x =
     (if endedInInfrastructureFault x then 0
      else RatedCost (jr_job x) (ex_EstimatedCostAccH (jr_job x)) (the (me_ObservedElapsedHours env (ex_ID (jr_job x)))))"

definition charged :: "metrics_env \<Rightarrow> job_row \<Rightarrow> bool" where
  "charged env x \<longleftrightarrow> settles env x \<and> ex_PlatformExperimentID (jr_job x) \<noteq> [] \<and> ex_EstimatedCostAccH (jr_job x) > 0"

lemma Settle_result: "Settle env x u = (settles env x, if charged env x then mput (ex_ID (jr_job x)) (owed env x) u else u)"
proof -
  have "RatedCost (jr_job x) (ex_EstimatedCostAccH (jr_job x)) hours = owed env x" if "billed_hours env x = Some hours" for hours
    using that by (auto simp: billed_hours_def owed_def RatedCost_def split: if_splits)
  then show ?thesis by (auto simp: Settle_def settles_def charged_def split: option.split)
qed

abbreviation mark_settled :: "int \<Rightarrow> job_row \<Rightarrow> job_row" where
  "mark_settled now r \<equiv> r\<lparr>jr_QuotaSettledAt := Some now\<rparr>"

lemma settle_quiet:
  assumes "w_schedule w = []" and "map_of (db_rows (w_db w)) (ex_ID (jr_job x)) = Some r"
  shows "settle env now x (u, w) =
    (if charged env x then mput (ex_ID (jr_job x)) (owed env x) u else u,
     if settles env x then w\<lparr>w_db := (w_db w)\<lparr>db_rows := mput (ex_ID (jr_job x)) (mark_settled now r) (db_rows (w_db w))\<rparr>\<rparr> else w)"
  using assms by (simp add: settle_def Settle_result store_call_def MarkQuotaSettled_def write_job_def)

text \<open>Settling a list of jobs, each of a row of its own.\<close>

lemma settle_all_quiet:
  fixes w :: world and xs :: "job_row list" and env :: metrics_env and now :: int and u :: usage
  assumes "w_schedule w = []" and "distinct (map (\<lambda>x. ex_ID (jr_job x)) xs)"
    and "\<And>x. x \<in> set xs \<Longrightarrow> map_of (db_rows (w_db w)) (ex_ID (jr_job x)) = Some x"
  defines "out \<equiv> fold (settle env now) xs (u, w)"
  shows "map_of (db_rows (w_db (snd out))) i =
      (case find (\<lambda>x. ex_ID (jr_job x) = i \<and> settles env x) xs of Some x \<Rightarrow> Some (mark_settled now x) | None \<Rightarrow> map_of (db_rows (w_db w)) i)
    \<and> map_of (fst out) i =
      (case find (\<lambda>x. ex_ID (jr_job x) = i \<and> charged env x) xs of Some x \<Rightarrow> Some (owed env x) | None \<Rightarrow> map_of u i)"
  using assms(1-3) unfolding out_def
proof (induction xs arbitrary: u w)
  case (Cons x xs)
  let ?i = "ex_ID (jr_job x)"
  obtain u1 w1 where s: "settle env now x (u, w) = (u1, w1)" by force
  have row: "map_of (db_rows (w_db w)) ?i = Some x" by (rule Cons.prems(3)) simp
  note result = settle_quiet [OF Cons.prems(1) row, of env now u, unfolded s]
  have rows: "map_of (db_rows (w_db w1)) j = (if j = ?i \<and> settles env x then Some (mark_settled now x) else map_of (db_rows (w_db w)) j)"
    and used: "map_of u1 j = (if j = ?i \<and> charged env x then Some (owed env x) else map_of u j)" and quiet: "w_schedule w1 = []" for j
    using result Cons.prems(1) by auto
  have rest: "map_of (db_rows (w_db w1)) (ex_ID (jr_job y)) = Some y" if "y \<in> set xs" for y
  proof -
    have "ex_ID (jr_job y) \<noteq> ?i" using Cons.prems(2) that by (auto simp: image_iff)
    then show ?thesis using Cons.prems(3) [of y] that rows by simp
  qed
  have new: "find (\<lambda>y. ex_ID (jr_job y) = ?i \<and> P y) xs = None" for P
    using Cons.prems(2) by (auto simp: find_None_iff image_iff)
  have IH: "map_of (db_rows (w_db (snd (fold (settle env now) xs (u1, w1))))) i =
      (case find (\<lambda>x. ex_ID (jr_job x) = i \<and> settles env x) xs of Some x \<Rightarrow> Some (mark_settled now x) | None \<Rightarrow> map_of (db_rows (w_db w1)) i)
    \<and> map_of (fst (fold (settle env now) xs (u1, w1))) i =
      (case find (\<lambda>x. ex_ID (jr_job x) = i \<and> charged env x) xs of Some x \<Rightarrow> Some (owed env x) | None \<Rightarrow> map_of u1 i)"
    by (rule Cons.IH) (use Cons.prems(2) quiet rest in auto)
  show ?case
  proof (cases "i = ?i")
    case True
    then show ?thesis using IH new [of "settles env"] new [of "charged env"] by (simp add: s rows used)
  next
    case False
    then show ?thesis using IH by (simp add: s rows used cong: option.case_cong)
  qed
qed simp

text \<open>What the reconciler lists.\<close>

lemma listed_unsettled:
  assumes "table_ok db"
  shows "x \<in> set (fst (ListUnsettledTerminalExperiments db)) \<longleftrightarrow> map_of (db_rows db) (ex_ID (jr_job x)) = Some x \<and> unsettled x"
    and "distinct (map (\<lambda>x. ex_ID (jr_job x)) (fst (ListUnsettledTerminalExperiments db)))"
proof -
  have wf: "distinct (map fst (db_rows db))" using assms by (simp add: table_ok_def wf_map_def keys_def)
  have ids: "(i, r) \<in> set (db_rows db) \<longleftrightarrow> map_of (db_rows db) i = Some r" for i r using wf by simp
  have id: "ex_ID (jr_job r) = i" if "(i, r) \<in> set (db_rows db)" for i r
    using assms that ids by (simp add: table_ok_def)
  show "x \<in> set (fst (ListUnsettledTerminalExperiments db)) \<longleftrightarrow> map_of (db_rows db) (ex_ID (jr_job x)) = Some x \<and> unsettled x"
  proof
    assume "x \<in> set (fst (ListUnsettledTerminalExperiments db))"
    then obtain i where "(i, x) \<in> set (db_rows db)" "unsettled x" by (auto simp: ListUnsettledTerminalExperiments_def)
    with id ids show "map_of (db_rows db) (ex_ID (jr_job x)) = Some x \<and> unsettled x" by metis
  next
    assume "map_of (db_rows db) (ex_ID (jr_job x)) = Some x \<and> unsettled x"
    then have "x \<in> snd ` set (db_rows db)" "unsettled x" using ids by force+
    then show "x \<in> set (fst (ListUnsettledTerminalExperiments db))" by (simp add: ListUnsettledTerminalExperiments_def)
  qed
  have "map (\<lambda>x. ex_ID (jr_job x)) (map snd (db_rows db)) = map fst (db_rows db)" using id by auto
  with wf have "distinct (map (\<lambda>x. ex_ID (jr_job x)) (filter unsettled (map snd (db_rows db))))" by (metis distinct_map_filter)
  moreover have "mset (map (\<lambda>x. ex_ID (jr_job x)) (fst (ListUnsettledTerminalExperiments db)))
      = mset (map (\<lambda>x. ex_ID (jr_job x)) (filter unsettled (map snd (db_rows db))))"
    by (simp add: ListUnsettledTerminalExperiments_def)
  ultimately show "distinct (map (\<lambda>x. ex_ID (jr_job x)) (fst (ListUnsettledTerminalExperiments db)))"
    by (metis mset_eq_imp_distinct_iff)
qed

lemma find_unsettled:
  assumes "table_ok db" and "map_of (db_rows db) i = Some r"
  shows "find (\<lambda>x. ex_ID (jr_job x) = i \<and> P x) (fst (ListUnsettledTerminalExperiments db)) = (if unsettled r \<and> P r then Some r else None)"
proof -
  let ?xs = "fst (ListUnsettledTerminalExperiments db)"
  have only: "x = r \<and> unsettled r" if "x \<in> set ?xs" "ex_ID (jr_job x) = i" for x
    using listed_unsettled(1) [OF assms(1), of x] that assms(2) by auto
  have r: "r \<in> set ?xs \<and> ex_ID (jr_job r) = i" if "unsettled r"
    using listed_unsettled(1) [OF assms(1), of r] that assms by (auto simp: table_ok_def)
  show ?thesis
  proof (cases "find (\<lambda>x. ex_ID (jr_job x) = i \<and> P x) ?xs")
    case None
    with r show ?thesis by (auto simp: find_None_iff)
  next
    case (Some x)
    then have "x \<in> set ?xs" "ex_ID (jr_job x) = i" "P x" by (auto simp: find_Some_iff)
    with only Some show ?thesis by auto
  qed
qed

subsection \<open>Sample data\<close>

definition sample_metrics :: metrics_env where
  "sample_metrics = \<lparr>me_ObservedElapsedHours = (\<lambda>_. Some 3), me_writes = (\<lambda>_. True)\<rparr>"

text \<open>The runtime reports the job running meanwhile.\<close>

definition started :: "job_db \<Rightarrow> job_db" where
  "started db = snd (MarkStarted 5 ''e1'' db)"

definition ended_row :: job_row where
  "ended_row = finish_row 6 StatusFailed (Some ''oom'') running_row"

subsection \<open>The properties\<close>

text \<open>C14: cancelling a job ends it, however the scheduler moves it meanwhile: while at most nine writes of other processes, whichever they are of
  the store's, come between the ten store calls of its five attempts, a cancel of a job that exists comes to a decision, and the job has
  ended when it answers: cancelled, or refused in the status it had ended with before.\<close>

theorem cancel_converges:
  fixes M :: int and w :: world
  assumes "among others any_op M w" and "answered w" and "length (w_schedule w) < 10" and "table_ok (w_db w)" and "map_of (db_rows (w_db w)) i = Some r"
  shows "cancel_done i (CancelExperiment M env now i (u, w))"
  unfolding CancelExperiment_def
  by (rule cancel_attempts_done [OF among_lawful [OF assms(1)] assms(2) _ assms(4,5)]) (use assms(3) in \<open>simp add: cancelMaxAttempts_def\<close>)

theorem cancel_converges_witness:
  "cancel_done ''e1'' (CancelExperiment 2 sample_metrics 6 ''e1'' ([], sample_world claimed_row [Others id, Others started]))
   \<and> fst (CancelExperiment 2 sample_metrics 6 ''e1'' ([], sample_world claimed_row [Others id, Others started])) = Cancelled
   \<and> map_option jr_Status (map_of (db_rows (w_db (snd (snd (CancelExperiment 2 sample_metrics 6 ''e1'' ([], sample_world claimed_row [Others id, Others started])))))) ''e1'')
       = Some StatusEvicted"
proof -
  let ?w = "sample_world claimed_row [Others id, Others started]"
  have "among (rows_step 2) any_op 2 ?w"
    by (auto simp: among_def rows_by_store sample_world_def started_def intro: MarkStarted_step)
  moreover have "answered ?w" "length (w_schedule ?w) < 10" by (simp_all add: answered_def sample_world_def)
  moreover have "table_ok (w_db ?w)"
    by (simp add: table_ok_def sample_world_def wf_map_def keys_def claimed_row_def row_eval)
  moreover have "map_of (db_rows (w_db ?w)) ''e1'' = Some claimed_row" by (simp add: sample_world_def)
  ultimately have "cancel_done ''e1'' (CancelExperiment 2 sample_metrics 6 ''e1'' ([], ?w))" by (rule cancel_converges)
  moreover have "fst (CancelExperiment 2 sample_metrics 6 ''e1'' ([], ?w)) = Cancelled" by code_simp
  moreover have "map_option jr_Status (map_of (db_rows (w_db (snd (snd (CancelExperiment 2 sample_metrics 6 ''e1'' ([], ?w)))))) ''e1'') = Some StatusEvicted"
    by code_simp
  ultimately show ?thesis by blast
qed

text \<open>C15: a pass of the reconciler on a quiet database settles exactly the ended, unsettled jobs whose usage it could write, leaves every other
  row as it is, and writes for each such job that reserved anything what it owes: nothing where the environment ended it for
  good, and else its admission-time rate times the hours it was observed to run, whatever was written before.\<close>

theorem reconcile_settles:
  fixes w :: world and env :: metrics_env and now :: int and u :: usage
  assumes "w_schedule w = []" and "table_ok (w_db w)" and "map_of (db_rows (w_db w)) i = Some r"
  defines "out \<equiv> reconcileOnce env now (u, w)"
  shows "map_of (db_rows (w_db (snd out))) i = Some (if unsettled r \<and> settles env r then mark_settled now r else r)
    \<and> map_of (fst out) i = (if unsettled r \<and> charged env r then Some (owed env r) else map_of u i)"
proof -
  let ?xs = "fst (ListUnsettledTerminalExperiments (w_db w))"
  have out: "out = fold (settle env now) ?xs (u, w)"
    unfolding out_def reconcileOnce_def using assms(1)
    by (cases w) (simp add: store_call_def ListUnsettledTerminalExperiments_def)
  note listed = listed_unsettled [OF assms(2)]
  have "map_of (db_rows (w_db w)) (ex_ID (jr_job x)) = Some x" if "x \<in> set ?xs" for x using listed(1) that by blast
  from settle_all_quiet [OF assms(1) listed(2) this, of env now u i]
  have *: "map_of (db_rows (w_db (snd out))) i =
      (case find (\<lambda>x. ex_ID (jr_job x) = i \<and> settles env x) ?xs of Some x \<Rightarrow> Some (mark_settled now x) | None \<Rightarrow> map_of (db_rows (w_db w)) i)
    \<and> map_of (fst out) i =
      (case find (\<lambda>x. ex_ID (jr_job x) = i \<and> charged env x) ?xs of Some x \<Rightarrow> Some (owed env x) | None \<Rightarrow> map_of u i)"
    unfolding out by blast
  have find: "find (\<lambda>x. ex_ID (jr_job x) = i \<and> P x) ?xs = (if unsettled r \<and> P r then Some r else None)" for P
    by (rule find_unsettled [OF assms(2,3)])
  show ?thesis using * assms(3) by (simp add: find)
qed

theorem reconcile_settles_witness:
  "map_of (db_rows (w_db (snd (reconcileOnce sample_metrics 9 ([], sample_world ended_row []))))) ''e1'' = Some (mark_settled 9 ended_row)
   \<and> map_of (fst (reconcileOnce sample_metrics 9 ([], sample_world ended_row []))) ''e1'' = Some 3"
proof -
  let ?w = "sample_world ended_row []"
  have row: "map_of (db_rows (w_db ?w)) ''e1'' = Some ended_row" and quiet: "w_schedule ?w = []" by (simp_all add: sample_world_def)
  have ok: "table_ok (w_db ?w)"
    by (simp add: table_ok_def sample_world_def wf_map_def keys_def ended_row_def running_row_def claimed_row_def row_eval)
  have facts: "unsettled ended_row" "settles sample_metrics ended_row" "charged sample_metrics ended_row" "owed sample_metrics ended_row = 3"
    by code_simp+
  show ?thesis using reconcile_settles [OF quiet ok row, of sample_metrics 9 "[]"] facts by simp
qed

end
