(* ===== verification/Claims.thy ===== *)
theory Claims
  imports Lifecycle_Properties
begin

text \<open>
  The compute limits a claim keeps (storage/db/compute_limits.go): what an org's placed jobs reserve of the
  platform's clusters, the change of a limit, and that no claim takes an org or a project past its limit.
\<close>

text \<open>\<open>None\<close> is ErrOrgNotFound.  The empty id leaves out no job.\<close>

definition PlatformComputeHeld :: "string \<Rightarrow> string \<Rightarrow> job_db \<Rightarrow> (ComputeLimit \<times> rat \<times> rat) option" where
  "PlatformComputeHeld org project db =
     (case map_of (db_limits db) org of
        None \<Rightarrow> None
      | Some limit \<Rightarrow> Some (limit, org_held db org [], project_held db org project []))"

definition limit_Validate :: "ComputeLimit \<Rightarrow> bool" where
  "limit_Validate l \<longleftrightarrow> \<not> (\<not> lim_Project l > 0 \<or> lim_Project l > lim_Org l)"

text \<open>\<open>False\<close> is an error: the limit is not valid, or there is no such org.\<close>

definition SetOrgComputeLimit :: "string \<Rightarrow> ComputeLimit \<Rightarrow> job_db \<Rightarrow> bool \<times> job_db" where
  "SetOrgComputeLimit org limit db =
     (if \<not> limit_Validate limit then (False, db)
      else case map_of (db_limits db) org of
             None \<Rightarrow> (False, db)
           | Some _ \<Rightarrow> (True, db\<lparr>db_limits := mput org limit (db_limits db)\<rparr>))"

subsection \<open>What is held after a claim\<close>

text \<open>A sum over the rows of a map, of which one row is replaced.\<close>

lemma sum_rows_mput:
  fixes g :: "'v \<Rightarrow> 'b :: comm_monoid_add"
  assumes "wf_map rows" and "k \<in> set (keys rows)"
  shows "sum_list [g v. (j, v) \<leftarrow> mput k v' rows, P j v] =
    sum_list [g v. (j, v) \<leftarrow> rows, j \<noteq> k \<and> P j v] + (if P k v' then g v' else 0)"
  using assms
proof (induction rows)
  case (Cons row rows)
  obtain j v where row: "row = (j, v)" by force
  have wf: "wf_map rows" using Cons.prems(1) by (simp add: wf_map_def keys_def)
  show ?case
  proof (cases "j = k")
    case True
    with Cons.prems(1) row have "k \<notin> fst ` set rows" by (auto simp: wf_map_def keys_def)
    then have "[g v. (j, v) \<leftarrow> rows, j \<noteq> k \<and> P j v] = [g v. (j, v) \<leftarrow> rows, P j v]"
      by (induction rows) (auto simp: case_prod_unfold)
    with True row show ?thesis by (simp add: mput_def ac_simps)
  next
    case False
    with Cons.prems(2) row have "k \<in> set (keys rows)" by (simp add: keys_def)
    from Cons.IH [OF wf this] False row show ?thesis by (simp add: mput_def ac_simps)
  qed
qed (simp add: keys_def)

lemma held_after_write:
  assumes "wf_map (db_rows db)" and "map_of (db_rows db) i = Some r" and "[] \<notin> set (keys (db_rows db))"
    and "db' = db\<lparr>db_rows := mput i r' (db_rows db), db_changes := cs\<rparr>"
  shows "org_held db' org [] = org_held db org i + (if holds_platform db org [] i r' then jr_AccHPerHour r' else 0)"
    and "project_held db' org project [] =
      project_held db org project i + (if holds_platform db org [] i r' \<and> project_of db r' = project then jr_AccHPerHour r' else 0)"
proof -
  have k: "i \<in> set (keys (db_rows db))" using assms(2) by (auto simp: set_keys)
  have h: "holds_platform db' = holds_platform db" "project_of db' = project_of db"
    unfolding assms(4) by (auto simp: holds_platform_def of_platform_def project_of_def fun_eq_iff)
  have nonempty: "[] \<notin> fst ` set (db_rows db)" using assms(3) by (simp add: keys_def)
  have same: "[jr_AccHPerHour r. (j, r) \<leftarrow> rows, j \<noteq> i \<and> holds_platform db org [] j r \<and> Q r]
      = [jr_AccHPerHour r. (j, r) \<leftarrow> rows, holds_platform db org i j r \<and> Q r]"
    if "[] \<notin> fst ` set rows" for rows :: "(string \<times> job_row) list" and Q
    using that by (induction rows) (auto simp: holds_platform_def)
  note rows = sum_rows_mput [where g = jr_AccHPerHour and v' = r', OF assms(1) k]
  show "org_held db' org [] = org_held db org i + (if holds_platform db org [] i r' then jr_AccHPerHour r' else 0)"
    using rows [where P = "holds_platform db org []"] same [OF nonempty, of "\<lambda>_. True"]
    by (simp add: org_held_def h [unfolded assms(4)] assms(4))
  show "project_held db' org project [] =
      project_held db org project i + (if holds_platform db org [] i r' \<and> project_of db r' = project then jr_AccHPerHour r' else 0)"
    using rows [where P = "\<lambda>j r. holds_platform db org [] j r \<and> project_of db r = project"]
      same [OF nonempty, of "\<lambda>r. project_of db r = project"]
    by (simp add: project_held_def h [unfolded assms(4)] assms(4))
qed

text \<open>The claim that succeeded.\<close>

lemma ClaimSubmitted_claimed:
  assumes "ClaimSubmitted rates cpu now i cluster resolved available db = (Claimed job, db')"
  obtains r rate where "map_of (db_rows db) i = Some r" and "jr_Status r = StatusQueued" and "hosts_row db cluster r"
    and "withinComputeLimit rates cpu i cluster db = Some (rate, None)"
    and "db' = db\<lparr>db_rows := mput i (claim_row now cluster job rate r) (db_rows db),
                  db_changes := db_changes db @ jobStatus (claim_row now cluster job rate r)\<rparr>"
proof -
  obtain rate where within: "withinComputeLimit rates cpu i cluster db = Some (rate, None)"
    and wrote: "write_job jobStatus (\<lambda>r. jr_Status r = StatusQueued \<and> hosts_row db cluster r) (claim_row now cluster job rate) i db = (True, db')"
    using assms unfolding ClaimSubmitted_def Let_def
    by (simp split: option.splits bool.splits prod.splits if_splits)
  then show thesis
    using that [OF _ _ _ within] unfolding write_job_def by (simp split: option.splits if_splits)
qed

lemma withinComputeLimit_room:
  assumes "withinComputeLimit rates cpu i cluster db = Some (rate, None)" and "map_of (db_rows db) i = Some r" and "of_platform db cluster"
  obtains limit where "map_of (db_limits db) (ex_OrgID (jr_job r)) = Some limit"
    and "\<not> ExceedsLimit (project_held db (ex_OrgID (jr_job r)) (project_of db r) i + rate) (lim_Project limit)"
    and "\<not> ExceedsLimit (org_held db (ex_OrgID (jr_job r)) i + rate) (lim_Org limit)"
  using assms by (auto simp: withinComputeLimit_def Let_def split: option.splits prod.splits if_splits)

subsection \<open>The properties\<close>

text \<open>C8: a claim never takes an org or a project past its limit: after a job was claimed for a platform cluster, what
  the placed jobs of its org reserve on the platform's clusters is within the org's limit and what those of its
  project reserve is within the project's, whatever they held before.\<close>

theorem claim_within_limits:
  assumes "ClaimSubmitted rates cpu now i cluster resolved available db = (Claimed job, db')" and "of_platform db cluster"
    and "wf_map (db_rows db)" and "[] \<notin> set (keys (db_rows db))" and "map_of (db_rows db) i = Some r"
  shows "\<exists>limit orgHeld projectHeld.
    PlatformComputeHeld (ex_OrgID (jr_job r)) (project_of db r) db' = Some (limit, orgHeld, projectHeld)
    \<and> \<not> ExceedsLimit orgHeld (lim_Org limit) \<and> \<not> ExceedsLimit projectHeld (lim_Project limit)"
proof -
  obtain rate where within: "withinComputeLimit rates cpu i cluster db = Some (rate, None)"
    and db': "db' = db\<lparr>db_rows := mput i (claim_row now cluster job rate r) (db_rows db),
                db_changes := db_changes db @ jobStatus (claim_row now cluster job rate r)\<rparr>"
    using ClaimSubmitted_claimed [OF assms(1)] assms(5) by auto
  from withinComputeLimit_room [OF within assms(5,2)] obtain limit where limit: "map_of (db_limits db) (ex_OrgID (jr_job r)) = Some limit"
      "\<not> ExceedsLimit (project_held db (ex_OrgID (jr_job r)) (project_of db r) i + rate) (lim_Project limit)"
      "\<not> ExceedsLimit (org_held db (ex_OrgID (jr_job r)) i + rate) (lim_Org limit)" .
  have "i \<noteq> []" using assms(4,5) by (auto simp: set_keys)
  then have holds: "holds_platform db (ex_OrgID (jr_job r)) [] i (claim_row now cluster job rate r)"
      "project_of db (claim_row now cluster job rate r) = project_of db r"
      "jr_AccHPerHour (claim_row now cluster job rate r) = rate"
    using assms(2) by (simp_all add: holds_platform_def claim_row_def PlacedStatuses_def project_of_def)
  from held_after_write [OF assms(3,5,4) db', of "ex_OrgID (jr_job r)"] holds
  have "org_held db' (ex_OrgID (jr_job r)) [] = org_held db (ex_OrgID (jr_job r)) i + rate"
    "project_held db' (ex_OrgID (jr_job r)) (project_of db r) [] = project_held db (ex_OrgID (jr_job r)) (project_of db r) i + rate"
    by simp_all
  with limit show ?thesis by (simp add: PlatformComputeHeld_def db')
qed

theorem claim_within_limits_witness:
  "\<exists>limit orgHeld projectHeld.
    PlatformComputeHeld ''o1'' ''proj'' (snd (ClaimSubmitted [(''nvidia.com/gpu.product=A100'', 1)] 1 1 ''e1'' ''far'' sample_job None sample_db))
      = Some (limit, orgHeld, projectHeld)
    \<and> \<not> ExceedsLimit orgHeld (lim_Org limit) \<and> \<not> ExceedsLimit projectHeld (lim_Project limit)"
proof -
  let ?c = "ClaimSubmitted [(''nvidia.com/gpu.product=A100'', 1)] 1 1 ''e1'' ''far'' sample_job None sample_db"
  have claimed: "?c = (Claimed sample_job, snd ?c)"
  proof -
    have "fst ?c = Claimed sample_job" by code_simp
    then show ?thesis by (metis prod.collapse)
  qed
  have row: "map_of (db_rows sample_db) ''e1'' = Some sample_row" by (simp add: sample_db_def)
  have facts: "of_platform sample_db ''far''" "wf_map (db_rows sample_db)" "[] \<notin> set (keys (db_rows sample_db))"
      "ex_OrgID (jr_job sample_row) = ''o1''" "project_of sample_db sample_row = ''proj''"
    by code_simp+
  show ?thesis using claim_within_limits [OF claimed facts(1-3) row] facts(4,5) by simp
qed

end
