(* ===== verification/Admission_Properties.thy ===== *)
theory Admission_Properties
  imports Admission Claims
begin

text \<open>
  What quota admission promises: an agent's jobs never reserve more than its share and its tier's hours, the
  accelerators of a platform experiment stay under its cap, and a submit that is repeated with its key names the job
  the first one made.
\<close>

subsection \<open>What is reserved after an insert\<close>

lemma mput_same: "map_of m k = Some v \<Longrightarrow> mput k v m = m"
  by (induction m) (auto simp: mput_def)

lemma reserved_insert:
  assumes "map_of (db_rows db) i = None"
  shows "reserved_where P agent pe (db\<lparr>db_rows := mput i r (db_rows db), db_changes := cs\<rparr>) =
    reserved_where P agent pe db + (if of_agent agent pe r \<and> reserves r \<and> P r then ex_EstimatedCostAccH (jr_job r) else 0)"
proof -
  have "i \<notin> set (keys (db_rows db))" using assms by (auto simp: set_keys)
  then show ?thesis by (simp add: reserved_where_def mput_fresh)
qed

lemma reserved_update:
  assumes "wf_map (db_rows db)" and "map_of (db_rows db) i = Some r" and "of_agent agent pe r \<and> reserves r"
    and "of_agent agent pe r' \<and> reserves r'" and "P r' = P r"
  shows "reserved_where P agent pe (db\<lparr>db_rows := mput i r' (db_rows db), db_changes := cs\<rparr>) =
    reserved_where P agent pe db + (if P r then ex_EstimatedCostAccH (jr_job r') - ex_EstimatedCostAccH (jr_job r) else 0)"
proof -
  have k: "i \<in> set (keys (db_rows db))" using assms(2) by (auto simp: set_keys)
  have same: "mput i r (db_rows db) = db_rows db" by (rule mput_same [OF assms(2)])
  note rows = sum_rows_mput [where g = "\<lambda>r. ex_EstimatedCostAccH (jr_job r)" and P = "\<lambda>_ r. of_agent agent pe r \<and> reserves r \<and> P r", OF assms(1) k]
  from rows [of r'] rows [of r] same assms(3-5) show ?thesis
    by (simp add: reserved_where_def split: if_splits)
qed

lemma reserved_tiers:
  "reserved_where (\<lambda>_. True) agent pe db =
     reserved_where (of_tier CapacityGuaranteed) agent pe db + reserved_where (of_tier CapacityBurst) agent pe db"
proof -
  have "sum_list [ex_EstimatedCostAccH (jr_job r). (j, r) \<leftarrow> rows, of_agent agent pe r \<and> reserves r] =
      sum_list [ex_EstimatedCostAccH (jr_job r). (j, r) \<leftarrow> rows, of_agent agent pe r \<and> reserves r \<and> of_tier CapacityGuaranteed r]
      + sum_list [ex_EstimatedCostAccH (jr_job r). (j, r) \<leftarrow> rows, of_agent agent pe r \<and> reserves r \<and> of_tier CapacityBurst r]"
    for rows :: "(string \<times> job_row) list"
    by (induction rows) (auto simp: of_tier_def intro: CapacityTier.exhaust)
  then show ?thesis by (simp add: reserved_where_def)
qed

lemma in_flight_elsewhere: "in_flight pe i (db\<lparr>db_rows := mput i r (db_rows db), db_changes := cs\<rparr>) = in_flight pe i db"
proof -
  have "[ex_AcceleratorCount (jr_job r). (j, r) \<leftarrow> mput i r rows, ex_PlatformExperimentID (jr_job r) = pe \<and> j \<noteq> i \<and> jr_Status r \<in> set PlacedStatuses]
      = [ex_AcceleratorCount (jr_job r). (j, r) \<leftarrow> rows, ex_PlatformExperimentID (jr_job r) = pe \<and> j \<noteq> i \<and> jr_Status r \<in> set PlacedStatuses]"
    for rows
    by (induction rows) (auto simp: mput_def)
  then show ?thesis by (simp add: in_flight_def)
qed

subsection \<open>A submission that is admitted\<close>

lemma createExperiment_inserted:
  assumes "createExperiment s db = (None, s', db')"
  shows "sub_exp s' = sub_exp s \<and> sub_SubmissionKey s' = sub_SubmissionKey s \<and> map_of (db_rows db) (ex_ID (sub_exp s)) = None
    \<and> db' = db\<lparr>db_rows := mput (ex_ID (sub_exp s)) (new_row s') (db_rows db), db_changes := db_changes db @ announce_insert (new_row s')\<rparr>"
  using assms unfolding createExperiment_def Let_def
  by (simp add: with_queue_reason_def split: if_splits) auto

lemma created_submission:
  "createExperiment s db = (None, s', db') \<Longrightarrow> sub_HypothesisID s' = sub_HypothesisID s \<and> sub_CodeRef s' = sub_CodeRef s"
  unfolding createExperiment_def Let_def by (simp add: with_queue_reason_def split: if_splits) auto

lemma admit_insert_inserted:
  assumes "admit_insert inserted s db = (Inr d, s', db')"
  shows "createExperiment s db = (None, s', db') \<and> d = AdmitInserted"
  using assms unfolding admit_insert_def by (simp split: prod.splits option.splits create_error.splits if_splits)

lemma admit_new_inserted:
  assumes "admit_new rates now observe limit inserted s db = (Inr d, s', db')"
  obtains observed allocation s0 where "observe = Some observed"
    and "map_of (db_quotas db) (ex_AgentID (sub_exp s), ex_PlatformExperimentID (sub_exp s)) = Some allocation"
    and "admit_estimate rates (Remaining (with_used allocation observed (ex_AgentID (sub_exp s)) (ex_PlatformExperimentID (sub_exp s)) db)
           (ex_CapacityTier (sub_exp s))) s = (None, s0)"
    and "createExperiment s0 db = (None, s', db')" and "\<not> over_rate now limit s db"
proof -
  obtain observed allocation s0 where facts: "observe = Some observed" "\<not> over_rate now limit s db"
      "map_of (db_quotas db) (ex_AgentID (sub_exp s), ex_PlatformExperimentID (sub_exp s)) = Some allocation"
      "admit_estimate rates (Remaining (with_used allocation observed (ex_AgentID (sub_exp s)) (ex_PlatformExperimentID (sub_exp s)) db)
           (ex_CapacityTier (sub_exp s))) s = (None, s0)"
      "admit_insert inserted s0 db = (Inr d, s', db')"
    using assms unfolding admit_new_def Let_def by (simp split: option.splits if_splits prod.splits)
  with admit_insert_inserted [OF facts(5)] show thesis using that by blast
qed

lemma AdmitExperimentTx_inserted:
  assumes "AdmitExperimentTx rates now observe limit inserted s db = (Inr AdmitInserted, s', db')"
  shows "admit_new rates now observe limit inserted s db = (Inr AdmitInserted, s', db')
    \<and> (sub_SubmissionKey s \<noteq> [] \<longrightarrow> find (\<lambda>(i, r). stored_for s r) (db_rows db) = None)"
  using assms unfolding AdmitExperimentTx_def by (simp split: option.splits if_splits prod.splits)

text \<open>The estimate a job is admitted with is within what its agent has left.\<close>

lemma fitHours_within:
  assumes "0 < perHour"
  shows "perHour * fitHours remaining perHour \<le> remaining"
proof -
  have "of_int \<lfloor>remaining / perHour * fitSteps\<rfloor> \<le> remaining / perHour * fitSteps" by simp
  then have "fitHours remaining perHour \<le> remaining / perHour"
    by (simp add: fitHours_def fitSteps_def divide_le_eq)
  with assms show ?thesis by (simp add: pos_le_divide_eq mult.commute)
qed

lemma takeLargestEstimate_within:
  assumes "takeLargestEstimate rates maxHours remaining e = (None, e')"
    and "\<And>rate. map_of rates (ex_AcceleratorType e) = Some rate \<Longrightarrow> 0 < rate" and "0 < ex_AcceleratorCount e"
  shows "0 < ex_EstimatedDurationHours e' \<and> ex_EstimatedCostAccH e' \<le> remaining
    \<and> EstimateHeld rates e' = Some (ex_EstimatedCostAccH e')
    \<and> e' = e\<lparr>ex_EstimatedDurationHours := ex_EstimatedDurationHours e', ex_EstimatedCostAccH := ex_EstimatedCostAccH e'\<rparr>"
proof -
  obtain perHour where held: "EstimateHeld rates (e\<lparr>ex_EstimatedDurationHours := 1\<rparr>) = Some perHour"
    using assms(1) by (auto simp: takeLargestEstimate_def Let_def split: option.splits)
  then obtain rate where rate: "map_of rates (ex_AcceleratorType e) = Some rate" "perHour = rate * of_int (ex_AcceleratorCount e)"
    by (auto simp: EstimateHeld_def split: option.splits)
  then have pos: "0 < perHour" using assms(2,3) by simp
  define hours where "hours = (if maxHours > 0 then min (fitHours remaining perHour) maxHours else fitHours remaining perHour)"
  have h: "0 < hours" and e': "e' = e\<lparr>ex_EstimatedDurationHours := hours, ex_EstimatedCostAccH := perHour * hours\<rparr>"
    using assms(1) held by (auto simp: takeLargestEstimate_def Let_def hours_def split: if_splits)
  have "perHour * hours \<le> perHour * fitHours remaining perHour" using pos by (simp add: hours_def)
  also have "\<dots> \<le> remaining" by (rule fitHours_within [OF pos])
  finally show ?thesis using h e' rate by (simp add: EstimateHeld_def)
qed

lemma admit_estimate_within:
  assumes "admit_estimate rates remaining s = (None, s0)"
    and "\<And>rate. map_of rates (ex_AcceleratorType (sub_exp s)) = Some rate \<Longrightarrow> 0 < rate" and "0 < ex_AcceleratorCount (sub_exp s)"
  shows "ex_EstimatedCostAccH (sub_exp s0) \<le> remaining
    \<and> s0 = s\<lparr>sub_exp := (sub_exp s)\<lparr>ex_EstimatedDurationHours := ex_EstimatedDurationHours (sub_exp s0),
          ex_EstimatedCostAccH := ex_EstimatedCostAccH (sub_exp s0)\<rparr>\<rparr>"
proof (cases "ex_EstimatedDurationHours (sub_exp s) = 0")
  case True
  then obtain e' where e': "takeLargestEstimate rates (sub_MaxEstimateHours s) remaining (sub_exp s) = (None, e')" "s0 = s\<lparr>sub_exp := e'\<rparr>"
    using assms(1) by (auto simp: admit_estimate_def Let_def split: prod.splits)
  with takeLargestEstimate_within [OF e'(1) assms(2,3)] show ?thesis by simp
next
  case False
  with assms(1) have "s0 = s" "ex_EstimatedCostAccH (sub_exp s) \<le> remaining"
    by (auto simp: admit_estimate_def Let_def split: if_splits)
  then show ?thesis by simp
qed

lemma admit_estimate_origin:
  assumes "admit_estimate rates remaining s = (None, s0)"
  shows "ex_AgentID (sub_exp s0) = ex_AgentID (sub_exp s) \<and> ex_PlatformExperimentID (sub_exp s0) = ex_PlatformExperimentID (sub_exp s)
    \<and> sub_SubmissionKey s0 = sub_SubmissionKey s \<and> sub_HypothesisID s0 = sub_HypothesisID s \<and> sub_CodeRef s0 = sub_CodeRef s"
  using assms unfolding admit_estimate_def takeLargestEstimate_def Let_def
  by (simp split: if_splits option.splits prod.splits) (auto simp: Let_def split: if_splits)

text \<open>The row a search finds where only one qualifies.\<close>

lemma find_only:
  assumes "wf_map m" and "map_of m k = Some v" and "P v" and "\<And>j w. map_of m j = Some w \<Longrightarrow> P w \<Longrightarrow> j = k"
  shows "find (\<lambda>(j, w). P w) m = Some (k, v)"
  using assms
proof (induction m)
  case (Cons x m)
  obtain j w where x: "x = (j, w)" by force
  show ?case
  proof (cases "j = k")
    case True
    with Cons.prems(2,3) x show ?thesis by simp
  next
    case False
    with Cons.prems(4) [of j w] x have "\<not> P w" by auto
    moreover have "find (\<lambda>(j, w). P w) m = Some (k, v)"
    proof (rule Cons.IH)
      show "wf_map m" using Cons.prems(1) by (simp add: wf_map_def keys_def)
      show "map_of m k = Some v" using Cons.prems(2) False x by simp
      fix i u
      assume iu: "map_of m i = Some u" "P u"
      have "j \<notin> fst ` set m" using Cons.prems(1) x by (simp add: wf_map_def keys_def)
      with map_of_SomeD [OF iu(1)] have "i \<noteq> j" by force
      with iu Cons.prems(4) [of i u] x show "i = k" by simp
    qed (rule Cons.prems(3))
    ultimately show ?thesis by (simp add: x)
  qed
qed simp

text \<open>An agent within what it is allotted: of each tier, and of its share.\<close>

definition tier_used :: "AgentQuota \<Rightarrow> CapacityTier \<Rightarrow> rat" where
  "tier_used q tier = (if tier = CapacityGuaranteed then aq_UsedGuaranteedAccH q else aq_UsedBurstAccH q)"

definition tier_limit :: "AgentQuota \<Rightarrow> CapacityTier \<Rightarrow> rat" where
  "tier_limit q tier = (if tier = CapacityGuaranteed then aq_GuaranteedAcceleratorHours q else aq_BurstAcceleratorHours q)"

definition within_quota :: "CapacityTier \<Rightarrow> AgentQuota \<Rightarrow> bool" where
  "within_quota tier q \<longleftrightarrow> tier_used q tier \<le> tier_limit q tier \<and> Used q \<le> Share q"

lemma Remaining_room:
  assumes "0 < cost" and "cost \<le> Remaining q tier"
  shows "tier_used q tier + cost \<le> tier_limit q tier \<and> Used q + cost \<le> Share q"
  using assms by (auto simp: Remaining_def tier_used_def tier_limit_def split: if_splits)

subsection \<open>Sample data\<close>

definition sample_observed :: AgentQuota where
  "sample_observed = \<lparr>aq_AgentID = ''a1'', aq_PlatformExperimentID = ''p1'', aq_GuaranteedAcceleratorHours = 0,
     aq_BurstAcceleratorHours = 0, aq_UsedGuaranteedAccH = 3, aq_UsedBurstAccH = 0\<rparr>"

definition unestimated :: submission where
  "unestimated = sample_submission\<lparr>sub_exp := sample_exp\<lparr>ex_EstimatedDurationHours := 0, ex_EstimatedCostAccH := 0\<rparr>\<rparr>"

subsection \<open>The properties\<close>

text \<open>C10: a job is admitted within its agent's quota. Counting what the metrics store observed and the whole estimate of
  every job of the agent that has not ended or is not settled yet, the new job's included, the agent is within its tier's
  hours and within its share of the platform experiment's budget; and that holds too of the estimate the platform gives a
  job that states none.\<close>

theorem admit_within_quota:
  fixes s s' :: submission
  assumes admitted: "AdmitExperimentTx rates now (Some observed) limit inserted s db = (Inr AdmitInserted, s', db')"
    and "\<And>rate. map_of rates (ex_AcceleratorType (sub_exp s)) = Some rate \<Longrightarrow> 0 < rate" and "0 < ex_AcceleratorCount (sub_exp s)"
    and "0 < ex_EstimatedCostAccH (sub_exp s')"
  shows "\<exists>allocation. map_of (db_quotas db') (ex_AgentID (sub_exp s), ex_PlatformExperimentID (sub_exp s)) = Some allocation
    \<and> within_quota (ex_CapacityTier (sub_exp s))
        (with_used allocation observed (ex_AgentID (sub_exp s)) (ex_PlatformExperimentID (sub_exp s)) db')"
proof -
  let ?agent = "ex_AgentID (sub_exp s)" and ?pe = "ex_PlatformExperimentID (sub_exp s)" and ?tier = "ex_CapacityTier (sub_exp s)"
  from AdmitExperimentTx_inserted [OF admitted] have "admit_new rates now (Some observed) limit inserted s db = (Inr AdmitInserted, s', db')"
    by blast
  then obtain allocation s0 where quota: "map_of (db_quotas db) (?agent, ?pe) = Some allocation"
    and estimate: "admit_estimate rates (Remaining (with_used allocation observed ?agent ?pe db) ?tier) s = (None, s0)"
    and created: "createExperiment s0 db = (None, s', db')"
    by (elim admit_new_inserted) simp
  note row = createExperiment_inserted [OF created]
  note within_rem = admit_estimate_within [OF estimate assms(2,3)]
  let ?cost = "ex_EstimatedCostAccH (sub_exp s')" and ?q = "with_used allocation observed ?agent ?pe"
  have origin: "of_agent ?agent ?pe (new_row s')" "of_tier tier (new_row s') \<longleftrightarrow> tier = ?tier" "ex_EstimatedCostAccH (jr_job (new_row s')) = ?cost"
    for tier
    using row within_rem by (cases s0; force simp: of_agent_def of_tier_def new_row_def)+
  have db': "db' = db\<lparr>db_rows := mput (ex_ID (sub_exp s0)) (new_row s') (db_rows db), db_changes := db_changes db @ announce_insert (new_row s')\<rparr>"
    using row by blast
  have reserved: "reserved_where (of_tier tier) ?agent ?pe db' =
      reserved_where (of_tier tier) ?agent ?pe db + (if reserves (new_row s') \<and> tier = ?tier then ?cost else 0)" for tier
    unfolding db' using reserved_insert [where P = "of_tier tier"] row origin by simp
  have "?cost \<le> Remaining (?q db) ?tier" using within_rem row by simp
  note room = Remaining_room [OF assms(4) this]
  have "tier_used (?q db') ?tier \<le> tier_used (?q db) ?tier + ?cost" "Used (?q db') \<le> Used (?q db) + ?cost"
    using assms(4) by (cases ?tier; simp add: tier_used_def Used_def with_used_def reserved)+
  moreover have "tier_limit (?q db') ?tier = tier_limit (?q db) ?tier" "Share (?q db') = Share (?q db)"
    by (simp_all add: tier_limit_def Share_def with_used_def)
  ultimately have "within_quota ?tier (?q db')" using room by (simp add: within_quota_def)
  moreover have "map_of (db_quotas db') (?agent, ?pe) = Some allocation" using quota by (simp add: db')
  ultimately show ?thesis by blast
qed

theorem admit_within_quota_witness:
  "\<exists>s' db' allocation.
     AdmitExperimentTx [(''nvidia.com/gpu.product=A100'', 2)] 0 (Some sample_observed) \<lparr>rl_MaxPerHour = 0, rl_Window = 0\<rparr> (\<lambda>_. True)
       unestimated (sample_db\<lparr>db_rows := []\<rparr>) = (Inr AdmitInserted, s', db')
     \<and> ex_EstimatedDurationHours (sub_exp s') = 7 / 2
     \<and> within_quota CapacityGuaranteed (with_used allocation sample_observed ''a1'' ''p1'' db')"
proof -
  let ?c = "AdmitExperimentTx [(''nvidia.com/gpu.product=A100'', 2)] 0 (Some sample_observed) \<lparr>rl_MaxPerHour = 0, rl_Window = 0\<rparr> (\<lambda>_. True)
       unestimated (sample_db\<lparr>db_rows := []\<rparr>)"
  have c: "?c = (Inr AdmitInserted, fst (snd ?c), snd (snd ?c))"
  proof -
    have "fst ?c = Inr AdmitInserted" by code_simp
    then show ?thesis by (metis prod.collapse)
  qed
  have e: "ex_EstimatedDurationHours (sub_exp (fst (snd ?c))) = 7 / 2" "0 < ex_EstimatedCostAccH (sub_exp (fst (snd ?c)))"
    by code_simp+
  have facts: "ex_AcceleratorType (sub_exp unestimated) = ''nvidia.com/gpu.product=A100''" "0 < ex_AcceleratorCount (sub_exp unestimated)"
      "ex_AgentID (sub_exp unestimated) = ''a1''" "ex_PlatformExperimentID (sub_exp unestimated) = ''p1''"
      "ex_CapacityTier (sub_exp unestimated) = CapacityGuaranteed"
    by code_simp+
  have "0 < rate" if "map_of [(''nvidia.com/gpu.product=A100'', 2)] (ex_AcceleratorType (sub_exp unestimated)) = Some rate" for rate :: rat
    using that facts(1) by simp
  from admit_within_quota [OF c this facts(2) e(2)] facts(3-5) c e(1) show ?thesis by metis
qed

text \<open>The rows of one agent, platform experiment and key, once one has been inserted: it stays, and no other joins it.\<close>

lemma only_origin_step:
  assumes "store_step M db db'" and "snd (snd orig) \<noteq> []" and "wf_map (db_rows db)"
    and "\<exists>r. map_of (db_rows db) i = Some r \<and> origin r = orig"
    and "\<forall>j r. map_of (db_rows db) j = Some r \<and> origin r = orig \<longrightarrow> j = i"
  shows "wf_map (db_rows db') \<and> (\<exists>r. map_of (db_rows db') i = Some r \<and> origin r = orig)
    \<and> (\<forall>j r. map_of (db_rows db') j = Some r \<and> origin r = orig \<longrightarrow> j = i)"
proof -
  have there: "\<exists>r. map_of (db_rows db') i = Some r \<and> origin r = orig"
    using assms(4) same_origin.law_rows [OF r_into_rtranclp [where r = "store_step M", OF assms(1)] order_refl] by blast
  from assms(1) consider (rows) "rows_step M db db'" | (insert) "inserts db db'" | (clusters) "reclusters db db'" by (auto simp: store_step_def)
  then show ?thesis
  proof cases
    case rows
    then have k: "keys (db_rows db') = keys (db_rows db)" by (simp add: rows_by_def)
    have "j = i" if r': "map_of (db_rows db') j = Some r'" "origin r' = orig" for j r'
    proof -
      have "j \<in> set (keys (db_rows db))" unfolding k [symmetric] using r' by (auto simp: set_keys)
      then obtain r where r: "map_of (db_rows db) j = Some r" by (auto simp: set_keys)
      with rows r' have "r' = r \<or> (\<exists>opn. row_step M opn r r')" unfolding rows_by_def by blast
      with same_origin.law_step [OF _ refl] r'(2) have "origin r = orig" by metis
      with assms(5) r show ?thesis by blast
    qed
    then show ?thesis using there assms(3) k by (auto simp: wf_map_def keys_def)
  next
    case insert
    then obtain s where s: "ex_ID (sub_exp s) \<notin> set (keys (db_rows db))" "\<not> key_taken s db"
      "db_rows db' = db_rows db @ [(ex_ID (sub_exp s), new_row s)]" by (auto simp: inserts_def)
    from assms(4) obtain r where r: "(i, r) \<in> set (db_rows db)" "origin r = orig" by (auto dest: map_of_SomeD)
    have "origin (new_row s) \<noteq> orig"
    proof
      assume "origin (new_row s) = orig"
      then have "orig = (ex_AgentID (sub_exp s), ex_PlatformExperimentID (sub_exp s), sub_SubmissionKey s)" by (auto simp: origin_def new_row_def)
      with r assms(2) have "key_taken s db" by (force simp: key_taken_def list_ex_iff origin_def)
      with s(2) show False ..
    qed
    then have "j = i" if "map_of (db_rows db') j = Some r" "origin r = orig" for j r
      using that assms(5) unfolding s(3) by (fastforce simp: map_add_Some_iff split: if_splits)
    moreover have "wf_map (db_rows db')" using assms(3) s(1,3) by (simp add: wf_map_def keys_def)
    ultimately show ?thesis using there by blast
  next
    case clusters
    then have "db_rows db' = db_rows db" by (simp add: reclusters_def)
    then show ?thesis using assms(3-5) by (elim ssubst) blast
  qed
qed

lemma only_origin_steps:
  assumes "(store_step M)\<^sup>*\<^sup>* db db'" and "snd (snd orig) \<noteq> []" and "wf_map (db_rows db)"
    and "\<exists>r. map_of (db_rows db) i = Some r \<and> origin r = orig"
    and "\<forall>j r. map_of (db_rows db) j = Some r \<and> origin r = orig \<longrightarrow> j = i"
  shows "wf_map (db_rows db') \<and> (\<exists>r. map_of (db_rows db') i = Some r \<and> origin r = orig)
    \<and> (\<forall>j r. map_of (db_rows db') j = Some r \<and> origin r = orig \<longrightarrow> j = i)"
  using assms(1)
proof (induction rule: rtranclp_induct)
  case base
  with assms(3-5) show ?case by blast
next
  case (step b c)
  from only_origin_step [OF step.hyps(2) assms(2)] step.IH show ?case by blast
qed

text \<open>C16: a submit sent again with its key makes no second job.  Once a submission was admitted under a key, any further
  submission of that agent in that platform experiment under the same key, whatever else it says and whatever was written to the store since, the
  inserts of other jobs and the registration of clusters included, is answered with the id of the first and writes nothing.\<close>

theorem resubmit_repeats:
  assumes admitted: "AdmitExperimentTx rates now observe limit inserted s db = (Inr AdmitInserted, s1, db1)"
    and "sub_SubmissionKey s \<noteq> []" and "wf_map (db_rows db)" and "(store_step M)\<^sup>*\<^sup>* db1 db2"
    and "ex_AgentID (sub_exp again) = ex_AgentID (sub_exp s1)" "ex_PlatformExperimentID (sub_exp again) = ex_PlatformExperimentID (sub_exp s1)"
      "sub_SubmissionKey again = sub_SubmissionKey s1"
  shows "AdmitExperimentTx rates' now' observe' limit' inserted' again db2 =
    (Inr AdmitRepeated, again\<lparr>sub_exp := (sub_exp again)\<lparr>ex_ID := ex_ID (sub_exp s1)\<rparr>\<rparr>, db2)"
proof -
  let ?i = "ex_ID (sub_exp s1)" and ?o = "(ex_AgentID (sub_exp s1), ex_PlatformExperimentID (sub_exp s1), sub_SubmissionKey s1)"
  from AdmitExperimentTx_inserted [OF admitted] assms(2) have new: "find (\<lambda>(i, r). stored_for s r) (db_rows db) = None"
    and "admit_new rates now observe limit inserted s db = (Inr AdmitInserted, s1, db1)" by blast+
  from this(2) obtain s0 remaining where estimate: "admit_estimate rates remaining s = (None, s0)"
    and created: "createExperiment s0 db = (None, s1, db1)" by (rule admit_new_inserted) (rule that)
  note row = createExperiment_inserted [OF created]
  have origin_s: "(ex_AgentID (sub_exp s), ex_PlatformExperimentID (sub_exp s), sub_SubmissionKey s) = ?o"
    using admit_estimate_origin [OF estimate] row by simp
  have fresh: "origin r \<noteq> ?o" if "(j, r) \<in> set (db_rows db)" for j r
    using new that origin_s by (auto simp: find_None_iff stored_for_def of_agent_def origin_def)
  have i: "?i \<notin> set (keys (db_rows db))" using row by (auto simp: set_keys)
  have rows: "db_rows db1 = db_rows db @ [(?i, new_row s1)]" using row mput_fresh [OF i] by simp
  have wf: "wf_map (db_rows db1)" using assms(3) i by (auto simp: rows wf_map_def keys_def)
  have o1: "origin (new_row s1) = ?o" by (simp add: origin_def new_row_def)
  have one: "\<exists>r. map_of (db_rows db1) ?i = Some r \<and> origin r = ?o" using row o1 by simp
  have only: "\<forall>j r. map_of (db_rows db1) j = Some r \<and> origin r = ?o \<longrightarrow> j = ?i"
    using fresh by (auto simp: rows map_add_Some_iff dest!: map_of_SomeD split: if_splits)
  have key: "snd (snd ?o) \<noteq> []" using assms(2) origin_s by simp
  note kept = only_origin_steps [OF assms(4) key wf one only]
  then obtain r2 where r2: "map_of (db_rows db2) ?i = Some r2" "origin r2 = ?o" by blast
  have match: "stored_for again r \<longleftrightarrow> origin r = ?o" for r
    using assms(5-7) by (auto simp: stored_for_def of_agent_def origin_def)
  have "find (\<lambda>(i, r). stored_for again r) (db_rows db2) = Some (?i, r2)"
    by (rule find_only [OF _ r2(1)]) (use kept match r2(2) in blast)+
  moreover have "sub_SubmissionKey again \<noteq> []" using key assms(7) by simp
  ultimately show ?thesis by (simp add: AdmitExperimentTx_def)
qed

theorem resubmit_repeats_witness:
  "\<exists>s1 db1. AdmitExperimentTx [(''nvidia.com/gpu.product=A100'', 2)] 0 (Some sample_observed) \<lparr>rl_MaxPerHour = 0, rl_Window = 0\<rparr> (\<lambda>_. True)
       unestimated (sample_db\<lparr>db_rows := []\<rparr>) = (Inr AdmitInserted, s1, db1)
     \<and> AdmitExperimentTx [] 9 None \<lparr>rl_MaxPerHour = 1, rl_Window = 99\<rparr> (\<lambda>_. False) (unestimated\<lparr>sub_exp := sample_exp\<lparr>ex_ID := ''e2''\<rparr>\<rparr>)
         (snd (EndQueuedSettled 5 ''e1'' StatusEvicted ''cancelled'' db1))
       = (Inr AdmitRepeated, unestimated\<lparr>sub_exp := sample_exp\<rparr>, snd (EndQueuedSettled 5 ''e1'' StatusEvicted ''cancelled'' db1))"
proof -
  let ?c = "AdmitExperimentTx [(''nvidia.com/gpu.product=A100'', 2)] 0 (Some sample_observed) \<lparr>rl_MaxPerHour = 0, rl_Window = 0\<rparr> (\<lambda>_. True)
       unestimated (sample_db\<lparr>db_rows := []\<rparr>)"
  let ?again = "unestimated\<lparr>sub_exp := sample_exp\<lparr>ex_ID := ''e2''\<rparr>\<rparr>" and ?db2 = "snd (EndQueuedSettled 5 ''e1'' StatusEvicted ''cancelled'' (snd (snd ?c)))"
  have c: "?c = (Inr AdmitInserted, fst (snd ?c), snd (snd ?c))"
  proof -
    have "fst ?c = Inr AdmitInserted" by code_simp
    then show ?thesis by (metis prod.collapse)
  qed
  have "rows_step 2 (snd (snd ?c)) ?db2"
    unfolding EndQueuedSettled_def by (intro write_job_step) (auto intro: row_step.end_queued)
  then have steps: "(store_step 2)\<^sup>*\<^sup>* (snd (snd ?c)) ?db2" by (simp add: store_step_def r_into_rtranclp)
  have facts: "sub_SubmissionKey unestimated \<noteq> []" "wf_map (db_rows (sample_db\<lparr>db_rows := []\<rparr>))"
      "ex_AgentID (sub_exp ?again) = ex_AgentID (sub_exp (fst (snd ?c)))"
      "ex_PlatformExperimentID (sub_exp ?again) = ex_PlatformExperimentID (sub_exp (fst (snd ?c)))"
      "sub_SubmissionKey ?again = sub_SubmissionKey (fst (snd ?c))" "ex_ID (sub_exp (fst (snd ?c))) = ''e1''"
    by code_simp+
  have "?again\<lparr>sub_exp := (sub_exp ?again)\<lparr>ex_ID := ''e1''\<rparr>\<rparr> = unestimated\<lparr>sub_exp := sample_exp\<rparr>"
    by (simp add: sample_exp_def unestimated_def sample_submission_def)
  with resubmit_repeats [OF c facts(1,2) steps facts(3-5)] facts(6) c show ?thesis by metis
qed

text \<open>C11: a queued job is given an accelerator type only within its agent's quota and its platform experiment's cap. After the
  reservation the agent's reserved and observed hours, the job's at its new cost, are within the tier's hours and within the
  share, and the accelerators of the platform experiment's other placed jobs together with the job's are at most the cap;
  a refusal or a failure changes nothing.\<close>

theorem reserve_within_quota:
  assumes reserved: "ReserveAdmittedAcceleratorTypeTx i t cost n defaultMax (Some observed) db = (res, db')"
    and row: "map_of (db_rows db) i = Some r" "wf_map (db_rows db)" "\<not> Ended (jr_Status r)"
  shows "if res = Reserved then
      (\<exists>allocation cap. map_of (db_quotas db') (ex_AgentID (jr_job r), ex_PlatformExperimentID (jr_job r)) = Some allocation
         \<and> within_quota (ex_CapacityTier (jr_job r))
             (with_used allocation observed (ex_AgentID (jr_job r)) (ex_PlatformExperimentID (jr_job r)) db')
         \<and> concurrency_cap (ex_PlatformExperimentID (jr_job r)) defaultMax db' = Some cap
         \<and> (n \<le> 0 \<or> cap \<le> 0 \<or> in_flight (ex_PlatformExperimentID (jr_job r)) i db' + n \<le> cap))
    else db' = db"
proof (cases "res = Reserved")
  case True
  let ?agent = "ex_AgentID (jr_job r)" and ?pe = "ex_PlatformExperimentID (jr_job r)" and ?tier = "ex_CapacityTier (jr_job r)"
  let ?r = "r\<lparr>jr_job := (jr_job r)\<lparr>ex_AcceleratorType := t, ex_EstimatedCostAccH := cost\<rparr>\<rparr>" and ?old = "ex_EstimatedCostAccH (jr_job r)"
  from reserved True row(1) obtain allocation cap where quota: "map_of (db_quotas db) (?agent, ?pe) = Some allocation"
      and cap: "concurrency_cap ?pe defaultMax db = Some cap"
      and tier: "tier_used observed ?tier + reserved_where (of_tier ?tier) ?agent ?pe db - ?old + cost \<le> tier_limit allocation ?tier"
      and share: "Used observed + reserved_where (\<lambda>_. True) ?agent ?pe db - ?old + cost \<le> Share allocation"
      and room: "\<not> (n > 0 \<and> cap > 0 \<and> in_flight ?pe i db + n > cap)"
      and db': "db' = snd (write_admitted_type i t cost db)"
    unfolding ReserveAdmittedAcceleratorTypeTx_def Let_def tier_used_def tier_limit_def
    by (simp split: option.splits if_splits)
  have db': "db' = db\<lparr>db_rows := mput i ?r (db_rows db), db_changes := db_changes db\<rparr>"
    unfolding db' write_admitted_type_def write_job_def using row(1) by simp
  have same: "of_agent ?agent ?pe r \<and> reserves r" "of_agent ?agent ?pe ?r \<and> reserves ?r"
    using row(3) by (simp_all add: of_agent_def reserves_def)
  have after: "reserved_where (of_tier c) ?agent ?pe db' = reserved_where (of_tier c) ?agent ?pe db + (if c = ?tier then cost - ?old else 0)" for c
    unfolding db' by (subst reserved_update [OF row(2,1) same]) (auto simp: of_tier_def)
  have used: "tier_used (with_used allocation observed ?agent ?pe db') ?tier
        = tier_used observed ?tier + reserved_where (of_tier ?tier) ?agent ?pe db - ?old + cost"
      "Used (with_used allocation observed ?agent ?pe db') = Used observed + reserved_where (\<lambda>_. True) ?agent ?pe db - ?old + cost"
    by (cases ?tier; simp add: tier_used_def with_used_def Used_def after reserved_tiers)+
  have limits: "tier_limit (with_used allocation observed ?agent ?pe db') ?tier = tier_limit allocation ?tier"
      "Share (with_used allocation observed ?agent ?pe db') = Share allocation"
    by (simp_all add: tier_limit_def Share_def with_used_def)
  have "within_quota ?tier (with_used allocation observed ?agent ?pe db')"
    unfolding within_quota_def used limits using tier share by simp
  moreover have "in_flight ?pe i db' = in_flight ?pe i db"
    unfolding db' by (rule in_flight_elsewhere)
  moreover have "concurrency_cap ?pe defaultMax db' = Some cap" "map_of (db_quotas db') (?agent, ?pe) = Some allocation"
    using cap quota by (simp_all add: db' concurrency_cap_def)
  ultimately show ?thesis using True room by auto
next
  case False
  then have "db' = db" using reserved unfolding ReserveAdmittedAcceleratorTypeTx_def Let_def
    by (auto split: option.splits if_splits)
  with False show ?thesis by simp
qed

theorem reserve_within_quota_witness:
  "\<exists>allocation. fst (ReserveAdmittedAcceleratorTypeTx ''e1'' ''nvidia.com/gpu.product=H100'' 6 1 0 (Some sample_observed) sample_db) = Reserved
     \<and> within_quota CapacityGuaranteed (with_used allocation sample_observed ''a1'' ''p1''
          (snd (ReserveAdmittedAcceleratorTypeTx ''e1'' ''nvidia.com/gpu.product=H100'' 6 1 0 (Some sample_observed) sample_db)))
     \<and> snd (ReserveAdmittedAcceleratorTypeTx ''e1'' ''nvidia.com/gpu.product=H100'' 8 1 0 (Some sample_observed) sample_db) = sample_db"
proof -
  let ?c = "\<lambda>cost. ReserveAdmittedAcceleratorTypeTx ''e1'' ''nvidia.com/gpu.product=H100'' cost 1 0 (Some sample_observed) sample_db"
  have row: "map_of (db_rows sample_db) ''e1'' = Some sample_row" by (simp add: sample_db_def)
  have facts: "wf_map (db_rows sample_db)" "\<not> Ended (jr_Status sample_row)" "ex_CapacityTier (jr_job sample_row) = CapacityGuaranteed"
      "ex_AgentID (jr_job sample_row) = ''a1''" "ex_PlatformExperimentID (jr_job sample_row) = ''p1''" by code_simp+
  have results: "fst (?c 6) = Reserved" "fst (?c 8) \<noteq> Reserved" by code_simp+
  note kept = reserve_within_quota [where t = "''nvidia.com/gpu.product=H100''" and n = 1 and defaultMax = 0 and observed = sample_observed, OF _ row facts(1,2)]
  note kept = kept [OF prod.collapse [symmetric]]
  from kept [of 6] kept [of 8] results facts(3-5) show ?thesis by auto
qed

subsection \<open>The rate of submissions\<close>

lemma RecentSubmissions_insert:
  assumes "map_of (db_rows db) i = None"
  shows "RecentSubmissions now agent pe window (db\<lparr>db_rows := mput i r (db_rows db), db_changes := cs\<rparr>) =
    RecentSubmissions now agent pe window db
    + (if of_agent agent pe r \<and> now - window \<le> ex_CreatedAt (jr_job r)
          \<and> submission_of r \<notin> set (map submission_of (recent_rows agent pe (now - window) db)) then 1 else 0)"
proof -
  have "i \<notin> set (keys (db_rows db))" using assms by (auto simp: set_keys)
  then show ?thesis
    by (simp add: RecentSubmissions_def recent_rows_def mput_fresh length_remdups_card_conv insert_absorb card_insert_if)
qed

text \<open>an agent's submissions keep to its rate limit. A submission is the jobs of one hypothesis on one commit: where a
  limit is set, admitting a job either leaves the number of the agent's submissions within the window as it was or leaves it
  within the limit.\<close>

theorem submission_rate_kept:
  fixes s s' :: submission
  assumes admitted: "AdmitExperimentTx rates now observe limit inserted s db = (Inr AdmitInserted, s', db')" and "0 < rl_MaxPerHour limit"
  defines "recent \<equiv> RecentSubmissions now (ex_AgentID (sub_exp s)) (ex_PlatformExperimentID (sub_exp s)) (rl_Window limit)"
  shows "recent db' = recent db \<or> recent db' \<le> rl_MaxPerHour limit"
proof -
  let ?rows = "recent_rows (ex_AgentID (sub_exp s)) (ex_PlatformExperimentID (sub_exp s)) (now - rl_Window limit) db"
  from AdmitExperimentTx_inserted [OF admitted] have "admit_new rates now observe limit inserted s db = (Inr AdmitInserted, s', db')" by blast
  then obtain remaining s0 where under: "\<not> over_rate now limit s db" and estimate: "admit_estimate rates remaining s = (None, s0)"
    and created: "createExperiment s0 db = (None, s', db')" by (elim admit_new_inserted) blast
  note row = createExperiment_inserted [OF created]
  have "submission_of (new_row s') = (sub_HypothesisID s, sub_CodeRef s)"
    using created_submission [OF created] admit_estimate_origin [OF estimate] by (simp add: submission_of_def new_row_def)
  then have "recent db < rl_MaxPerHour limit" if "submission_of (new_row s') \<notin> set (map submission_of ?rows)"
    using that under assms(2) by (auto simp: over_rate_def Let_def recent_def submission_of_def list_ex_iff image_iff)
  moreover have "recent db' = recent db \<or> recent db' = recent db + 1 \<and> submission_of (new_row s') \<notin> set (map submission_of ?rows)"
    using row RecentSubmissions_insert [of db "ex_ID (sub_exp s0)"] by (simp add: recent_def)
  ultimately show ?thesis by linarith
qed

theorem submission_rate_kept_witness:
  "fst (AdmitExperimentTx [] 5 (Some sample_observed) \<lparr>rl_MaxPerHour = 1, rl_Window = 9\<rparr> (\<lambda>_. True) sample_submission (sample_db\<lparr>db_rows := []\<rparr>))
     = Inr AdmitInserted
   \<and> RecentSubmissions 5 ''a1'' ''p1'' 9
       (snd (snd (AdmitExperimentTx [] 5 (Some sample_observed) \<lparr>rl_MaxPerHour = 1, rl_Window = 9\<rparr> (\<lambda>_. True) sample_submission (sample_db\<lparr>db_rows := []\<rparr>)))) \<le> 1"
proof -
  let ?c = "AdmitExperimentTx [] 5 (Some sample_observed) \<lparr>rl_MaxPerHour = 1, rl_Window = 9\<rparr> (\<lambda>_. True) sample_submission (sample_db\<lparr>db_rows := []\<rparr>)"
  have f: "fst ?c = Inr AdmitInserted" by code_simp
  then have c: "?c = (Inr AdmitInserted, fst (snd ?c), snd (snd ?c))" by (metis prod.collapse)
  have "RecentSubmissions 5 ''a1'' ''p1'' 9 (sample_db\<lparr>db_rows := []\<rparr>) = 0" "ex_AgentID (sub_exp sample_submission) = ''a1''"
      "ex_PlatformExperimentID (sub_exp sample_submission) = ''p1''" by code_simp+
  with submission_rate_kept [OF c] f show ?thesis by auto
qed

end
