(* ===== verification/Submit_Properties.thy ===== *)
theory Submit_Properties
  imports Submit Admission_Properties Watcher_Properties
begin

text \<open>
  What a submit that succeeded has made sure of, whatever other processes did meanwhile: the job was queued, its cluster takes it, the
  nodes hold it beside every job already desired there, and the job its runtime is handed is within the operator's limits; and a
  speculative one keeps the cluster under its cap.
\<close>

subsection \<open>A call that was answered\<close>

lemma store_call_Some:
  assumes "store_call f w = (Some a, w')"
  obtains db where "f db = (a, w_db w')"
  using assms unfolding store_call_def Let_def by (auto split: list.splits disturbance.splits prod.splits)

lemma submitJobTo_submitted:
  assumes "submitJobTo l v now e cluster clusterID persisted speculative provenFit w = (None, e', w')"
  obtains cost resolved job db where "grace_Resolve (lp_grace l) (EffectiveJob e) = Some resolved"
    and "ClaimSubmitted (lp_rates l) (lp_cpuCoreSharedRate l) now (ex_ID e) cluster (on_architecture e resolved)
           (Some (capacityAvailable l v (e\<lparr>ex_EstimatedCostAccH := cost, ex_ResolvedJob := Some (on_architecture e resolved)\<rparr>)
              (exp_Footprint (lp_Q l) e) cluster clusterID speculative provenFit)) db = (Claimed job, w_db w')"
    and "e' = e\<lparr>ex_EstimatedCostAccH := cost, ex_ResolvedJob := Some job, ex_ClusterName := cluster\<rparr>"
proof -
  obtain t cost w1 where "claim_placed l v now (e\<lparr>ex_EstimatedCostAccH := cost\<rparr>) cluster clusterID speculative provenFit w1 = (None, e', w')"
    using assms unfolding submitJobTo_def by (simp split: option.splits prod.splits)
  moreover have "on_architecture (e\<lparr>ex_EstimatedCostAccH := cost\<rparr>) = on_architecture e"
    by (simp add: on_architecture_def [abs_def] cong: if_cong)
  moreover have "EffectiveJob (e\<lparr>ex_EstimatedCostAccH := cost\<rparr>) = EffectiveJob e"
      "exp_Footprint (lp_Q l) (e\<lparr>ex_EstimatedCostAccH := cost\<rparr>) = exp_Footprint (lp_Q l) e"
    by (simp_all add: EffectiveJob_def exp_Footprint_def Let_def cong: option.case_cong if_cong)
  ultimately obtain resolved job where "grace_Resolve (lp_grace l) (EffectiveJob e) = Some resolved"
    and call: "store_call (ClaimSubmitted (lp_rates l) (lp_cpuCoreSharedRate l) now (ex_ID e) cluster (on_architecture e resolved)
           (Some (capacityAvailable l v (e\<lparr>ex_EstimatedCostAccH := cost, ex_ResolvedJob := Some (on_architecture e resolved)\<rparr>)
              (exp_Footprint (lp_Q l) e) cluster clusterID speculative provenFit))) w1 = (Some (Claimed job), w')"
    and "e' = e\<lparr>ex_EstimatedCostAccH := cost, ex_ResolvedJob := Some job, ex_ClusterName := cluster\<rparr>"
    unfolding claim_placed_def Let_def by (simp split: option.splits prod.splits claim_result.splits if_splits)
  with that show thesis by (elim store_call_Some) blast
qed

subsection \<open>What the claim checked\<close>

lemma ClaimSubmitted_capacity:
  assumes "ClaimSubmitted rates cpu now i cluster resolved (Some room) db = (Claimed job, db')"
  shows "room (desired_on db cluster) resolved = Some (True, job)"
  using assms unfolding ClaimSubmitted_def Let_def by (simp split: option.splits bool.splits prod.splits if_splits)



text \<open>A job within the operator's grace limits.\<close>

definition within_grace :: "GraceLimits \<Rightarrow> JobSpec \<Rightarrow> bool" where
  "within_grace g job \<longleftrightarrow>
     (\<exists>s. js_TerminationGracePeriodSeconds job = Some s \<and> s \<le> gl_MaxShutdownSeconds g)
     \<and> (\<forall>c. js_CheckpointGraceSeconds job = Some c \<longrightarrow> c \<le> gl_MaxCheckpointSeconds g)"


lemma within_grace_selector [simp]:
  "within_grace g (job\<lparr>js_NodeSelector := s\<rparr>) = within_grace g job" "within_grace g (job\<lparr>js_Slots := ss\<rparr>) = within_grace g job"
  "within_grace g (on_architecture e job) = within_grace g job"
  by (simp_all add: within_grace_def on_architecture_def)

lemma within_grace_place [simp]: "within_grace g (with_place L lev i plan job) = within_grace g job"
  by (simp add: with_place_def split: option.split)


text \<open>The accelerators of the jobs submitted to a cluster.\<close>

definition submitted_accelerators :: "string \<Rightarrow> job_db \<Rightarrow> int" where
  "submitted_accelerators cluster db =
     sum_list [ex_AcceleratorCount (jr_job r). (j, r) \<leftarrow> db_rows db, ex_ClusterName (jr_job r) = cluster \<and> jr_Status r = StatusSubmitted]"

lemma sum_desired_on: "sum_list (map (\<lambda>d. ex_AcceleratorCount (jr_job d)) (desired_on db cluster)) = submitted_accelerators cluster db"
proof -
  have "sum_list (map f (filter P (map snd rows))) = sum_list [f r. (j, r) \<leftarrow> rows, P r]"
    for f :: "job_row \<Rightarrow> int" and P and rows :: "(string \<times> job_row) list"
    by (induction rows) auto
  moreover have "sum_list (map f (sort_slice lt xs)) = sum_list (map f xs)" for f :: "job_row \<Rightarrow> int" and lt xs
    by (metis mset_map mset_sort_slice sum_mset_sum_list)
  ultimately show ?thesis by (simp add: desired_on_def submitted_accelerators_def)
qed

lemma submitted_after_claim:
  assumes "wf_map (db_rows db)" and "map_of (db_rows db) i = Some r" and "jr_Status r = StatusQueued"
    and "jr_Status r' = StatusSubmitted" and "ex_ClusterName (jr_job r') = cluster"
  shows "submitted_accelerators cluster (db\<lparr>db_rows := mput i r' (db_rows db), db_changes := cs\<rparr>) =
    submitted_accelerators cluster db + ex_AcceleratorCount (jr_job r')"
proof -
  have k: "i \<in> set (keys (db_rows db))" using assms(2) by (auto simp: set_keys)
  have same: "mput i r (db_rows db) = db_rows db" by (rule mput_same [OF assms(2)])
  note rows = sum_rows_mput [where g = "\<lambda>r. ex_AcceleratorCount (jr_job r)"
    and P = "\<lambda>_ r. ex_ClusterName (jr_job r) = cluster \<and> jr_Status r = StatusSubmitted", OF assms(1) k]
  from rows [of r'] rows [of r] same assms(3-5) show ?thesis by (simp add: submitted_accelerators_def)
qed

subsection \<open>The properties\<close>


definition sample_loop :: Loop where
  "sample_loop = \<lparr>lp_Q = sample_Q, lp_rates = [(''nvidia.com/gpu.product=A100'', 1)], lp_cpuCoreSharedRate = 1, lp_defaultMaxConcurrent = 0,
     lp_grace = \<lparr>gl_DefaultShutdownSeconds = 30, gl_MaxShutdownSeconds = 20, gl_MaxCheckpointSeconds = 60\<rparr>,
     lp_guaranteedFairnessWindow = 1, lp_heldJobNotice = 1, lp_disbalanceTolerance = 1, lp_evictionTTL = 1, lp_triedClusterTTL = 1,
     lp_maxInfraRequeues = 2\<rparr>"

definition sample_view :: submit_view where
  "sample_view = \<lparr>sv_observed = Some sample_observed, sv_available = Some sample_avail, sv_nodeAvail = Some sample_free, sv_nodeRes = Some sample_size,
     sv_nodeLabels = Some [], sv_GetClusterSettings = (\<lambda>_. Some None), sv_RecordAdmission = True\<rparr>"

definition sample_quiet :: world where
  "sample_quiet = \<lparr>w_db = sample_db, w_schedule = [], w_settles = [], w_wakes = 0\<rparr>"



text \<open>C13: speculation is bounded where processes race. After a speculative submit to a cluster with a cap, or with no live proof that the
  job fits it, the accelerators of all the cluster's SUBMITTED jobs together are at most the cap, and at most the job's own where no
  cap is set; other processes, and what they submitted there meanwhile, are counted.\<close>

theorem speculative_within_cap:
  assumes "submitJobTo l v now e cluster clusterID persisted True provenFit w = (None, e', w')" and "clusterID \<noteq> []"
    and "clusterSpeculativeCap (sv_GetClusterSettings v) clusterID = Some cap"
    and "bound = (case cap of None \<Rightarrow> ex_AcceleratorCount e | Some c \<Rightarrow> c)" and "cap \<noteq> None \<or> \<not> provenFit"
    and row: "map_of (db_rows (w_db w')) (ex_ID e) = Some r" "ex_AcceleratorCount (jr_job r) = ex_AcceleratorCount e" "wf_map (db_rows (w_db w'))"
  shows "submitted_accelerators cluster (w_db w') \<le> bound"
proof -
  obtain cost g job db where claim: "ClaimSubmitted (lp_rates l) (lp_cpuCoreSharedRate l) now (ex_ID e) cluster (on_architecture e g)
           (Some (capacityAvailable l v (e\<lparr>ex_EstimatedCostAccH := cost, ex_ResolvedJob := Some (on_architecture e g)\<rparr>)
              (exp_Footprint (lp_Q l) e) cluster clusterID True provenFit)) db = (Claimed job, w_db w')"
    by (rule submitJobTo_submitted [OF assms(1)])
  obtain r0 rate where r0: "map_of (db_rows db) (ex_ID e) = Some r0" "jr_Status r0 = StatusQueued"
    and db': "w_db w' = db\<lparr>db_rows := mput (ex_ID e) (claim_row now cluster job rate r0) (db_rows db),
        db_changes := db_changes db @ jobStatus (claim_row now cluster job rate r0)\<rparr>"
    by (rule ClaimSubmitted_claimed [OF claim])
  have "ex_ID e \<in> set (keys (db_rows db))" using r0(1) by (auto simp: set_keys)
  then have "keys (db_rows (w_db w')) = keys (db_rows db)" by (simp add: db' keys_mput_present)
  then have wf: "wf_map (db_rows db)" using row(3) by (simp add: wf_map_def keys_def)
  have "submitted_accelerators cluster (w_db w') = submitted_accelerators cluster db + ex_AcceleratorCount e"
    using submitted_after_claim [OF wf r0, of "claim_row now cluster job rate r0" cluster] row(1,2) by (auto simp: db' claim_row_def)
  moreover have "ex_AcceleratorCount e + submitted_accelerators cluster db \<le> bound"
    using ClaimSubmitted_capacity [OF claim] assms(2-5) sum_desired_on [of db cluster]
    by (auto simp: capacityAvailable_def speculative_room_def split: option.splits if_splits)
  ultimately show ?thesis by simp
qed

definition sample_bet :: "submit_error option \<times> Experiment \<times> world" where
  "sample_bet = submitJobTo sample_loop sample_view 1 sample_exp ''near'' ''id'' ''nvidia.com/gpu.product=A100'' True False sample_quiet"

theorem speculative_within_cap_witness:
  "fst sample_bet = None \<and> submitted_accelerators ''near'' (w_db (snd (snd sample_bet))) \<le> 1"
proof -
  have ok: "fst sample_bet = None" by code_simp
  then have s: "submitJobTo sample_loop sample_view 1 sample_exp ''near'' ''id'' ''nvidia.com/gpu.product=A100'' True False sample_quiet
      = (None, fst (snd sample_bet), snd (snd sample_bet))"
    unfolding sample_bet_def by (metis prod.collapse)
  have row: "map_option (\<lambda>r. ex_AcceleratorCount (jr_job r)) (map_of (db_rows (w_db (snd (snd sample_bet)))) ''e1'') = Some 1"
      "wf_map (db_rows (w_db (snd (snd sample_bet))))" "ex_ID sample_exp = ''e1''" "ex_AcceleratorCount sample_exp = 1"
      "clusterSpeculativeCap (sv_GetClusterSettings sample_view) ''id'' = Some None"
    by code_simp+
  from row(1) obtain r where "map_of (db_rows (w_db (snd (snd sample_bet)))) ''e1'' = Some r" "ex_AcceleratorCount (jr_job r) = 1" by auto
  with speculative_within_cap [OF s _ row(5) _ _ _ _ row(2)] row(3,4) ok show ?thesis by simp
qed

end
