(* ===== verification/Waits_Properties.thy ===== *)
theory Waits_Properties
  imports Waits Submit_Properties
begin

text \<open>
  A reason is stored as its code and its sentence and read back as both, a reason that was marked stands on the row, and
  a row that says it already is not written.
\<close>

subsection \<open>Splitting a stored reason\<close>

text \<open>No code has a colon, so the first one ends it.\<close>

lemma SplitQueueReason_code: "CHR '':'' \<notin> set code \<Longrightarrow> SplitQueueReason (code @ '': '' @ s) = (code, s)"
  by (induction code) auto

lemma SplitQueueReason_join: "snd (SplitQueueReason s) \<noteq> [] \<Longrightarrow> fst (SplitQueueReason s) @ '': '' @ snd (SplitQueueReason s) = s"
proof (induction s rule: SplitQueueReason.induct)
  case (2 c cs)
  show ?case
  proof (cases "c = CHR '':'' \<and> cs \<noteq> [] \<and> hd cs = CHR '' ''")
    case True
    then show ?thesis by (cases cs) auto
  next
    case False
    with 2 show ?thesis by (auto simp: case_prod_unfold Let_def)
  qed
qed simp

text \<open>The reasons there are: a misfit names a cluster, and a claim is refused under the code of one of the two limits.\<close>

definition worded :: "wait_reason \<Rightarrow> bool" where
  "worded r = (case r of
      Misfits ms \<Rightarrow> ms \<noteq> []
    | OverComputeLimit c \<Rightarrow> cr_Code c \<in> {NotAdmittedOrgComputeLimit, NotAdmittedProjectComputeLimit}
    | _ \<Rightarrow> True)"

lemmas code_defs = NotAdmittedCapacityUnavailable_def NotAdmittedOutranked_def NotAdmittedStageCut_def NotAdmittedJobTooLong_def
  NotAdmittedWorkloadCreation_def NotAdmittedInsufficientQuota_def NotAdmittedNoMultiNodeCluster_def NotAdmittedNoClusterForOrg_def
  NotAdmittedClustersDisabled_def NotAdmittedWaitingForScaleUp_def NotAdmittedNoScalableCapacity_def NotAdmittedConcurrencyCap_def
  NotAdmittedExceedsAcceleratorShare_def NotAdmittedExceedsClusterCapacity_def NotAdmittedNoClusterForArchitecture_def
  NotAdmittedOrgComputeLimit_def NotAdmittedProjectComputeLimit_def NotAdmittedExceedsProjectComputeLimit_def

lemma refusal_code_plain: "CHR '':'' \<notin> set (refusal_code r) \<and> refusal_code r \<noteq> []"
  by (cases r) (simp_all add: code_defs)

lemma misfit_code_plain: "CHR '':'' \<notin> set (misfit_code m) \<and> misfit_code m \<noteq> []"
  by (cases m) (simp_all add: code_defs)

lemma never_fits_code_plain: "CHR '':'' \<notin> set (never_fits_code r) \<and> never_fits_code r \<noteq> []"
  by (cases r) (simp_all add: code_defs)

lemma reason_code_plain: "worded r \<Longrightarrow> CHR '':'' \<notin> set (reason_code r) \<and> reason_code r \<noteq> []"
  by (cases r)
    (auto simp: worded_def refusal_code_plain misfit_code_plain never_fits_code_plain code_defs split: list.splits)

lemma reason_text_split: "worded r \<Longrightarrow> SplitQueueReason (reason_text say r) = (reason_code r, say r)"
  unfolding reason_text_def using reason_code_plain SplitQueueReason_code by blast

lemma reason_text_sentenced: "worded r \<Longrightarrow> say r \<noteq> [] \<Longrightarrow> sentenced (reason_text say r)"
  using reason_code_plain by (simp add: sentenced_def reason_text_split)

lemma same_reason:
  assumes "worded r" and "say r \<noteq> []" and "SplitQueueReason (reason_text say r) = SplitQueueReason (coalesce stored)"
  shows "stored = Some (reason_text say r)"
proof -
  have split: "SplitQueueReason (coalesce stored) = (reason_code r, say r)" using assms(1,3) reason_text_split by metis
  then have "coalesce stored = reason_text say r"
    using SplitQueueReason_join [of "coalesce stored"] assms(2) by (simp add: reason_text_def)
  moreover have "stored \<noteq> None" using split assms(2) by (cases stored) (simp_all add: coalesce_def)
  ultimately show ?thesis by (cases stored) (simp_all add: coalesce_def)
qed

subsection \<open>Marking\<close>

text \<open>a queued job that is marked says exactly the reason it was marked with, readable back as its code and its sentence,
  and the marking of a row that says it already writes nothing.\<close>

theorem markNotAdmitted_says:
  assumes "worded r" and "say r \<noteq> []" and "w_schedule w = []"
    and "map_of (db_rows (w_db w)) i = Some row" and "jr_Status row = StatusQueued"
  shows "case markNotAdmitted say i (jr_NotAdmittedReason row) r w of (ok, w') \<Rightarrow>
      ok \<and> map_of (db_rows (w_db w')) i = Some (row\<lparr>jr_NotAdmittedReason := Some (reason_text say r)\<rparr>)
      \<and> SplitQueueReason (reason_text say r) = (reason_code r, say r)
      \<and> (jr_NotAdmittedReason row = Some (reason_text say r) \<longrightarrow> w' = w)"
proof (cases "jr_NotAdmittedReason row = Some (reason_text say r)")
  case True
  then have "row\<lparr>jr_NotAdmittedReason := Some (reason_text say r)\<rparr> = row" by (cases row) simp
  with True assms show ?thesis by (simp add: markNotAdmitted_def coalesce_def reason_text_split)
next
  case False
  with same_reason [OF assms(1), of say] assms(2) have "SplitQueueReason (reason_text say r) \<noteq> SplitQueueReason (coalesce (jr_NotAdmittedReason row))" by blast
  with False assms reason_text_sentenced [OF assms(1), of say] show ?thesis
    by (simp add: markNotAdmitted_def store_call_def UpdateNotAdmittedReason_def write_job_def reason_text_split Let_def)
qed

definition sample_say :: "wait_reason \<Rightarrow> string" where
  "sample_say r = ''its agent was cut''"

theorem markNotAdmitted_says_witness:
  "(case markNotAdmitted sample_say ''e1'' (jr_NotAdmittedReason sample_row) StageCutWait sample_quiet of (ok, w') \<Rightarrow>
      ok \<and> map_of (db_rows (w_db w')) ''e1'' = Some (sample_row\<lparr>jr_NotAdmittedReason := Some ''stage_cut: its agent was cut''\<rparr>))
   \<and> SplitQueueReason ''stage_cut: its agent was cut'' = (''stage_cut'', ''its agent was cut'')"
proof -
  have t: "reason_text sample_say StageCutWait = ''stage_cut: its agent was cut''" by code_simp
  have "worded StageCutWait" "sample_say StageCutWait \<noteq> []" "w_schedule sample_quiet = []"
    by (simp_all add: worded_def sample_say_def sample_quiet_def)
  moreover have "map_of (db_rows (w_db sample_quiet)) ''e1'' = Some sample_row" "jr_Status sample_row = StatusQueued" by code_simp+
  ultimately show ?thesis
    using markNotAdmitted_says [of StageCutWait sample_say sample_quiet "''e1''" sample_row, unfolded t]
    by (simp add: sample_say_def NotAdmittedStageCut_def split: prod.splits)
qed

end
