(* ===== verification/Speculate_Properties.thy ===== *)
theory Speculate_Properties
  imports Speculate Place_Properties Submit_Properties
begin

text \<open>
  What speculation bets on: exactly the clusters that scale up for the job, that no job failed on lately, that carry no bet
  for the same accelerators and stay within their cap, the best of them first.
\<close>

subsection \<open>The cache\<close>

text \<open>What the cache holds is what the store answers.\<close>

definition spec_cache_ok :: "speculation_env \<Rightarrow> resolutionCache \<Rightarrow> bool" where
  "spec_cache_ok senv ca \<longleftrightarrow>
     (\<forall>tried. ca_recentlyTried ca = Some tried \<longrightarrow> se_RecentlyTriedClusters senv = Some tried)
     \<and> (\<forall>i cap. map_of (ca_speculativeCaps ca) i = Some cap \<longrightarrow> clusterSpeculativeCap (se_GetClusterSettings senv) i = Some cap)"

lemma spec_cache_new: "spec_cache_ok senv newResolutionCache"
  by (simp add: spec_cache_ok_def newResolutionCache_def)

lemma recentlyTriedClusters_answer:
  assumes "recentlyTriedClusters senv ca = (v, ca')" and "spec_cache_ok senv ca"
  shows "v = se_RecentlyTriedClusters senv \<and> spec_cache_ok senv ca'"
  using assms by (auto simp: recentlyTriedClusters_def spec_cache_ok_def split: option.splits)

lemma speculativeCap_answer:
  assumes "speculativeCap senv i ca = (v, ca')" and "spec_cache_ok senv ca"
  shows "v = clusterSpeculativeCap (se_GetClusterSettings senv) i \<and> spec_cache_ok senv ca'"
proof (cases "map_of (ca_speculativeCaps ca) i")
  case None
  with assms show ?thesis by (auto simp: speculativeCap_def spec_cache_ok_def split: option.splits if_splits)
next
  case (Some cap)
  with assms(2) have "clusterSpeculativeCap (se_GetClusterSettings senv) i = Some cap" unfolding spec_cache_ok_def by blast
  with Some assms show ?thesis by (simp add: speculativeCap_def)
qed

text \<open>Each half of the cache is left alone by what fills the other.\<close>

lemma attribute_claimed_keeps:
  "ca_recentlyTried (snd (attribute_claimed env cluster t rs inst ca)) = ca_recentlyTried ca
   \<and> ca_speculativeCaps (snd (attribute_claimed env cluster t rs inst ca)) = ca_speculativeCaps ca"
  by (induction rs arbitrary: inst ca) (simp_all add: Let_def split: option.split)

lemma installed_keeps:
  "ca_recentlyTried (snd (installedAcceleratorsByNode env ca cluster t nodeAvail totals)) = ca_recentlyTried ca
   \<and> ca_speculativeCaps (snd (installedAcceleratorsByNode env ca cluster t nodeAvail totals)) = ca_speculativeCaps ca"
  by (simp add: installedAcceleratorsByNode_def loadClaimed_def Let_def attribute_claimed_keeps split: option.split)

lemma spec_cache_keeps:
  "spec_cache_ok senv ca \<Longrightarrow> ca_recentlyTried ca' = ca_recentlyTried ca \<Longrightarrow> ca_speculativeCaps ca' = ca_speculativeCaps ca \<Longrightarrow> spec_cache_ok senv ca'"
  by (simp add: spec_cache_ok_def)

lemma cache_ok_keeps:
  "recentlyTriedClusters senv ca = (v, ca') \<Longrightarrow> cache_ok env ca \<Longrightarrow> cache_ok env ca'"
  "speculativeCap senv i ca = (cap, ca') \<Longrightarrow> cache_ok env ca \<Longrightarrow> cache_ok env ca'"
  by (auto simp: recentlyTriedClusters_def speculativeCap_def cache_ok_def split: option.splits)

text \<open>The ceiling without the cache.\<close>

definition ceiling_spec :: "resolve_env \<Rightarrow> tickClusters \<Rightarrow> Experiment \<Rightarrow> string \<Rightarrow> resolve_error + capmap" where
  "ceiling_spec env c e cluster =
     (let nodeAvail = mget [] (tk_nodeAvailAtTickStart c) cluster; totals = mget [] (tk_nodeResTotal c) cluster
      in if totals = [] then Inr nodeAvail
         else case installed_spec env cluster (ex_AcceleratorType e) nodeAvail totals of
                Inl err \<Rightarrow> Inl err
              | Inr installed \<Rightarrow> Inr (map (\<lambda>(node, n). (node, [(ex_AcceleratorType e, n)])) installed))"

lemma accel_ceiling_cached:
  assumes "accel_ceiling env c e cluster ca = (v, ca')" and "cache_ok env ca" and "spec_cache_ok senv ca"
  shows "v = ceiling_spec env c e cluster \<and> cache_ok env ca' \<and> spec_cache_ok senv ca'"
proof (cases "mget [] (tk_nodeResTotal c) cluster = []")
  case True
  with assms show ?thesis by (auto simp: accel_ceiling_def ceiling_spec_def)
next
  case False
  let ?i = "installedAcceleratorsByNode env ca cluster (ex_AcceleratorType e) (mget [] (tk_nodeAvailAtTickStart c) cluster)
      (mget [] (tk_nodeResTotal c) cluster)"
  have "ca' = snd ?i" and v: "v = (case fst ?i of Inl err \<Rightarrow> Inl err
      | Inr installed \<Rightarrow> Inr (map (\<lambda>(node, n). (node, [(ex_AcceleratorType e, n)])) installed))"
    using assms(1) False by (auto simp: accel_ceiling_def Let_def split: prod.splits sum.splits)
  with installed_cached [OF assms(2)] installed_keeps spec_cache_keeps [OF assms(3)] False show ?thesis
    by (simp add: ceiling_spec_def)
qed

subsection \<open>The candidates\<close>

definition proven_fit :: "quantity_lib \<Rightarrow> resolve_env \<Rightarrow> speculation \<Rightarrow> Experiment \<Rightarrow> string \<Rightarrow> bool" where
  "proven_fit Q env sp e cluster \<longleftrightarrow>
     (case ceiling_spec env (sp_clusters sp) e cluster of
        Inl _ \<Rightarrow> False
      | Inr most \<Rightarrow> fitsLargestNode Q e most (mget [] (tk_nodeResTotal (sp_clusters sp)) cluster) (mget [] (tk_nodeLabels (sp_clusters sp)) cluster))"

text \<open>A cluster the job may be bet on: it scales up for the job, and the bets outstanding there with this one are within the cap,
  which is the job's own size where none is set and no live node proves that it fits.\<close>

definition bettable :: "quantity_lib \<Rightarrow> resolve_env \<Rightarrow> speculation_env \<Rightarrow> int \<Rightarrow> speculation \<Rightarrow> string list \<Rightarrow> int \<Rightarrow> Experiment \<Rightarrow> string \<Rightarrow> string \<Rightarrow> bool" where
  "bettable Q env senv ttl sp tried now e cluster clusterID \<longleftrightarrow>
     may_scale_for ttl sp tried now e cluster clusterID
     \<and> (\<exists>cap. clusterSpeculativeCap (se_GetClusterSettings senv) clusterID = Some cap
          \<and> within_cap cap (proven_fit Q env sp e cluster) (geti (sp_footprint sp) cluster) (ex_AcceleratorCount e))"

definition candidate_of :: "quantity_lib \<Rightarrow> resolve_env \<Rightarrow> speculation \<Rightarrow> Experiment \<Rightarrow> string \<times> string \<Rightarrow> spec_candidate" where
  "candidate_of Q env sp e = (\<lambda>(cluster, clusterID). \<lparr>sc_cluster = cluster, sc_clusterID = clusterID, sc_provenFit = proven_fit Q env sp e cluster\<rparr>)"

lemma candidate_walk_exact:
  assumes "candidate_walk Q env senv ttl sp tried now e ids ca = (Inr cands, ca')" and "cache_ok env ca" and "spec_cache_ok senv ca"
  shows "cands = map (candidate_of Q env sp e) (filter (\<lambda>(cluster, clusterID). bettable Q env senv ttl sp tried now e cluster clusterID) ids)"
  using assms
proof (induction ids arbitrary: ca cands)
  case (Cons x ids)
  obtain cluster clusterID where x: "x = (cluster, clusterID)" by force
  show ?case
  proof (cases "may_scale_for ttl sp tried now e cluster clusterID")
    case False
    with Cons x show ?thesis by (simp add: bettable_def)
  next
    case True
    obtain v ca1 where ceil: "accel_ceiling env (sp_clusters sp) e cluster ca = (v, ca1)" by force
    note ok1 = accel_ceiling_cached [OF ceil Cons.prems(2,3)]
    obtain cap ca2 where cap: "speculativeCap senv clusterID ca1 = (cap, ca2)" by force
    note ok2 = speculativeCap_answer [OF cap] cache_ok_keeps(2) [OF cap]
    obtain most c cands0 where found: "v = Inr most" "cap = Some c"
      and rest: "candidate_walk Q env senv ttl sp tried now e ids ca2 = (Inr cands0, ca')"
      and cands: "cands = (if within_cap c (fitsLargestNode Q e most (mget [] (tk_nodeResTotal (sp_clusters sp)) cluster)
              (mget [] (tk_nodeLabels (sp_clusters sp)) cluster)) (geti (sp_footprint sp) cluster) (ex_AcceleratorCount e)
          then [\<lparr>sc_cluster = cluster, sc_clusterID = clusterID, sc_provenFit = fitsLargestNode Q e most
             (mget [] (tk_nodeResTotal (sp_clusters sp)) cluster) (mget [] (tk_nodeLabels (sp_clusters sp)) cluster)\<rparr>] else []) @ cands0"
      using Cons.prems(1) True ceil cap by (auto simp: x Let_def split: sum.splits option.splits prod.splits)
    have fit: "fitsLargestNode Q e most (mget [] (tk_nodeResTotal (sp_clusters sp)) cluster) (mget [] (tk_nodeLabels (sp_clusters sp)) cluster)
        = proven_fit Q env sp e cluster"
      using ok1 [unfolded found(1), THEN conjunct1, symmetric] by (simp add: proven_fit_def)
    have "clusterSpeculativeCap (se_GetClusterSettings senv) clusterID = Some c" using ok1 ok2 found(2) by simp
    moreover have "cands0 = map (candidate_of Q env sp e) (filter (\<lambda>(cluster, clusterID). bettable Q env senv ttl sp tried now e cluster clusterID) ids)"
      using Cons.IH [OF rest] ok1 ok2 by simp
    ultimately show ?thesis unfolding cands fit using True by (simp add: x bettable_def candidate_of_def)
  qed
qed simp

subsection \<open>The property\<close>

text \<open>a guaranteed job that fits nowhere is bet on exactly the clusters that scale up for it: connected, of its org's, able to span
  nodes where it does, with a place for it, not failed on lately by it or by any job, without a bet outstanding for the same accelerators, and
  with room under the cap, which is the job's own size where no cap is set and no live node proves a fit. Those its org ranks higher come first, among
  equals those proven to fit, then those with fewer accelerators outstanding.\<close>

theorem speculativeCandidates_exact:
  assumes "speculativeCandidates Q env senv ttl sp now e ca = (Inr (bets, proven), ca')" and "cache_ok env ca" and "spec_cache_ok senv ca"
  shows "\<exists>tried. se_RecentlyTriedClusters senv = Some tried
     \<and> set bets = {cluster. \<exists>clusterID. (cluster, clusterID) \<in> set (tk_clusterIDs (sp_clusters sp))
         \<and> bettable Q env senv ttl sp tried now e cluster clusterID}
     \<and> map fst proven = bets \<and> (\<forall>(cluster, fit) \<in> set proven. fit = proven_fit Q env sp e cluster)
     \<and> sorted_wrt (\<lambda>a b. let rank_of = rank_in (tk_registered (sp_clusters sp)) (ex_OrgID e) in
           rank_of a > rank_of b
           \<or> rank_of a = rank_of b \<and> (proven_fit Q env sp e b \<longrightarrow> proven_fit Q env sp e a)
             \<and> (proven_fit Q env sp e a = proven_fit Q env sp e b \<longrightarrow> geti (sp_footprint sp) a \<le> geti (sp_footprint sp) b)) bets"
proof -
  obtain v ca1 where tried: "recentlyTriedClusters senv ca = (v, ca1)" by force
  note ok = recentlyTriedClusters_answer [OF tried assms(3)] cache_ok_keeps(1) [OF tried assms(2)]
  let ?before = "spec_before (tk_registered (sp_clusters sp)) (ex_OrgID e) (sp_footprint sp)"
  from assms(1) tried obtain t cands where t: "v = Some t"
    and walk: "candidate_walk Q env senv ttl sp t now e (tk_clusterIDs (sp_clusters sp)) ca1 = (Inr cands, ca')"
    and bets: "bets = map sc_cluster (sort_slice ?before cands)" "proven = map (\<lambda>c. (sc_cluster c, sc_provenFit c)) (sort_slice ?before cands)"
    by (auto simp: speculativeCandidates_def Let_def split: option.splits sum.splits prod.splits)
  note cands = candidate_walk_exact [OF walk] ok
  have fit: "sc_provenFit c = proven_fit Q env sp e (sc_cluster c)" if "c \<in> set cands" for c
    using that cands by (auto simp: candidate_of_def)
  have "sorted_wrt (\<lambda>a b. \<not> ?before b a) (sort_slice ?before cands)" by (rule spec_order.sorted_sort_slice)
  then have "sorted_wrt (\<lambda>a b. let rank_of = rank_in (tk_registered (sp_clusters sp)) (ex_OrgID e) in
           rank_of a > rank_of b
           \<or> rank_of a = rank_of b \<and> (proven_fit Q env sp e b \<longrightarrow> proven_fit Q env sp e a)
             \<and> (proven_fit Q env sp e a = proven_fit Q env sp e b \<longrightarrow> geti (sp_footprint sp) a \<le> geti (sp_footprint sp) b)) bets"
    unfolding bets(1) sorted_wrt_map
    by (rule sorted_wrt_mono_rel [rotated]) (auto simp: spec_before_def fit Let_def split: if_splits)
  moreover have "set bets = {cluster. \<exists>clusterID. (cluster, clusterID) \<in> set (tk_clusterIDs (sp_clusters sp))
         \<and> bettable Q env senv ttl sp t now e cluster clusterID}"
    using cands by (force simp: bets(1) candidate_of_def image_iff)
  moreover have "map fst proven = bets" "\<forall>(cluster, fit) \<in> set proven. fit = proven_fit Q env sp e cluster"
    using fit by (auto simp: bets)
  ultimately show ?thesis using t ok by auto
qed

definition sample_speculation :: speculation where
  "sample_speculation = \<lparr>sp_autoscalerEnabled = [''near'', ''far''], sp_connected = [''near'', ''far''], sp_clusters = sample_tick
     \<lparr>tk_clusterIDs := [(''near'', ''id-near''), (''far'', ''id-far'')]\<rparr>, sp_footprint = [(''far'', 3)], sp_desiredFree = []\<rparr>"

definition sample_store :: speculation_env where
  "sample_store = \<lparr>se_RecentlyTriedClusters = Some [], se_GetClusterSettings = (\<lambda>_. Some None)\<rparr>"

definition sample_claims :: resolve_env where
  "sample_claims = \<lparr>re_ListCapacityClaimed = Some [], re_LatestNode = (\<lambda>_. Some None)\<rparr>"

theorem speculativeCandidates_exact_witness:
  "\<exists>proven ca. speculativeCandidates sample_Q sample_claims sample_store 1 sample_speculation 0 sample_exp newResolutionCache
       = (Inr ([''near'', ''far''], proven), ca)
     \<and> bettable sample_Q sample_claims sample_store 1 sample_speculation [] 0 sample_exp ''near'' ''id-near''"
proof -
  let ?s = "speculativeCandidates sample_Q sample_claims sample_store 1 sample_speculation 0 sample_exp newResolutionCache"
  have "(case fst ?s of Inl _ \<Rightarrow> [] | Inr (bets, _) \<Rightarrow> bets) = [''near'', ''far'']" by code_simp
  then obtain proven ca where s: "?s = (Inr ([''near'', ''far''], proven), ca)" by (cases ?s) (auto split: sum.splits prod.splits)
  have tried: "se_RecentlyTriedClusters sample_store = Some []" by (simp add: sample_store_def)
  have "set [''near'', ''far''] = {cluster. \<exists>clusterID. (cluster, clusterID) \<in> set (tk_clusterIDs (sp_clusters sample_speculation))
       \<and> bettable sample_Q sample_claims sample_store 1 sample_speculation [] 0 sample_exp cluster clusterID}" (is "_ = ?bets")
    using speculativeCandidates_exact [OF s cache_ok_new spec_cache_new, unfolded tried option.inject]
    by (elim exE conjE) (hypsubst, assumption)
  moreover have "''near'' \<in> set [''near'', ''far'']" by simp
  ultimately have "''near'' \<in> ?bets" by (rule subst)
  then obtain clusterID where "(''near'', clusterID) \<in> set (tk_clusterIDs (sp_clusters sample_speculation))"
    and bet: "bettable sample_Q sample_claims sample_store 1 sample_speculation [] 0 sample_exp ''near'' clusterID"
    by (elim CollectE exE conjE)
  moreover have "tk_clusterIDs (sp_clusters sample_speculation) = [(''near'', ''id-near''), (''far'', ''id-far'')]"
    by (simp add: sample_speculation_def)
  ultimately have "clusterID = ''id-near''" by simp
  with bet s show ?thesis by blast
qed

end
