(* ===== verification/Tick_Steps.thy ===== *)
theory Tick_Steps
  imports Tick_Laws Endings_Properties Waits_Properties Speculate_Properties
begin

text \<open>
  A tick and the recomputation of priorities write the rows of jobs by these steps of their state machine only, among whatever the other
  processes write meanwhile and whichever of the tick's calls fail: they claim queued jobs, requeue and evict running ones, settle ended ones,
  and leave notes.
\<close>

subsection \<open>Calls that move the world\<close>

fun tick_may :: "row_op \<Rightarrow> job_row \<Rightarrow> bool" where
  "tick_may Claim r \<longleftrightarrow> jr_Status r = StatusQueued"
| "tick_may Preempted r \<longleftrightarrow> jr_Status r = StatusRunning"
| "tick_may (Terminate to) r \<longleftrightarrow> jr_Status r = StatusRunning \<and> to = StatusEvicted"
| "tick_may Settled r \<longleftrightarrow> Ended (jr_Status r)"
| "tick_may Note r \<longleftrightarrow> True"
| "tick_may _ r \<longleftrightarrow> False"

abbreviation tick_step :: "int \<Rightarrow> job_db \<Rightarrow> job_db \<Rightarrow> bool" where
  "tick_step \<equiv> rows_by tick_may"

text \<open>What a tick relies on: the other processes keep within what a process may do, a row stands under its id, and no cluster is nameless.\<close>

definition sane :: "int \<Rightarrow> (job_db \<Rightarrow> job_db \<Rightarrow> bool) \<Rightarrow> world \<Rightarrow> bool" where
  "sane M R w \<longleftrightarrow> lawful tick_may M R w \<and> table_ok (w_db w) \<and> [] \<notin> set (keys (db_clusters (w_db w)))"

definition keeps_moving :: "int \<Rightarrow> (job_db \<Rightarrow> job_db \<Rightarrow> bool) \<Rightarrow> world \<Rightarrow> world \<Rightarrow> bool" where
  "keeps_moving M R w w' \<longleftrightarrow> (sane M R w \<longrightarrow> moves R w w')"

lemma sane_steps:
  assumes "sane M R w" and "R\<^sup>*\<^sup>* (w_db w) db"
  shows "table_ok db" and "[] \<notin> set (keys (db_clusters db))"
  using assms table_ok_steps [of tick_may M R w] store_clusters_named [OF assms(2)] lawful_within unfolding sane_def by blast+

lemma sane_moves: "sane M R w \<Longrightarrow> moves R w w' \<Longrightarrow> sane M R w'"
  using sane_steps [of M R w "w_db w'"] lawful_moves [of R w w'] by (simp add: sane_def moves_def)

lemma keeps_moving_refl [simp]: "keeps_moving M R w w"
  by (simp add: keeps_moving_def)

lemma keeps_moving_trans [trans]: "keeps_moving M R a b \<Longrightarrow> keeps_moving M R b c \<Longrightarrow> keeps_moving M R a c"
  unfolding keeps_moving_def using sane_moves moves_trans by blast

lemma call_keeps:
  assumes "\<And>db. table_ok db \<Longrightarrow> [] \<notin> set (keys (db_clusters db)) \<Longrightarrow> tick_step M db (snd (f db))"
  shows "keeps_moving M R w (snd (store_call f w))"
  unfolding keeps_moving_def
proof
  assume s: "sane M R w"
  then have lawful: "lawful tick_may M R w" by (simp add: sane_def)
  have "R\<^sup>*\<^sup>* db (snd (f db))" if "R\<^sup>*\<^sup>* (w_db w) db" for db
    using own_step [OF lawful assms] sane_steps [OF s that] by blast
  then show "moves R w (snd (store_call f w))"
    using store_call_moves [OF lawful, of f "fst (store_call f w)" "snd (store_call f w)"] by simp
qed

lemma write_reason_by: "tick_step M db (snd (UpdateNotAdmittedReason i reason db))"
proof -
  have "tick_step M db (snd (write_job jobQueueReason (\<lambda>r. jr_Status r = StatusQueued \<and> jr_NotAdmittedReason r \<noteq> Some reason)
      (\<lambda>r. r\<lparr>jr_NotAdmittedReason := Some reason\<rparr>) i db))"
    by (rule note_write_by) (simp_all add: same_life_def)
  then show ?thesis by (simp add: UpdateNotAdmittedReason_def case_prod_unfold Let_def)
qed

lemma write_score_by: "tick_step M db (snd (UpdateExperimentPriority i new db))"
  unfolding UpdateExperimentPriority_def by (rule note_write_by) (simp_all add: same_life_def)

lemma requeue_by: "tick_step M db (snd (store_RequeuePreempted now i hours cost db))"
  unfolding store_RequeuePreempted_def by (rule write_job_by) (auto intro!: exI [of _ Preempted] row_step.preempted)

lemma held_by: "tick_step M db (MarkHeldJobs now minimum db)"
  unfolding MarkHeldJobs_def by (rule update_where_by) (auto simp: is_held_def same_life_def intro!: exI [of _ Note] row_step.noted)

lemma reserve_by: "tick_step M db (snd (ReserveAdmittedAcceleratorTypeTx i t cost n m observe db))"
proof -
  have "tick_step M db (snd (write_admitted_type i t cost db))"
    unfolding write_admitted_type_def by (rule note_write_by) (simp_all add: same_life_def)
  then show ?thesis by (simp add: ReserveAdmittedAcceleratorTypeTx_def Let_def case_prod_unfold split: option.split)
qed

text \<open>A strand-breaking eviction is no fault of the environment, so it never becomes a requeue, and it ends the job only if it runs.\<close>

lemma evict_by:
  assumes "\<not> IsInfrastructureFault reason"
  shows "tick_step M db (snd (ResolveTermination M now i StatusRunning StatusEvicted reason db))"
proof -
  have "tick_step M db (snd (write_job jobStatus (\<lambda>r. jr_Status r = StatusRunning) (finish_row now StatusEvicted (Some reason)) i db))"
    by (rule write_job_by) (auto simp: Ended_def intro!: exI [of _ "Terminate StatusEvicted"] row_step.terminate)
  with assms show ?thesis by (simp add: ResolveTermination_def case_prod_unfold Let_def)
qed

subsection \<open>The writes of a tick\<close>

lemma markNotAdmitted_keeps: "keeps_moving M R w (snd (markNotAdmitted say i stored r w))"
  using call_keeps [of M "UpdateNotAdmittedReason i (reason_text say r)" R w, OF write_reason_by]
  by (auto simp: markNotAdmitted_def split: prod.split option.split)

lemma submitJobTo_keeps: "keeps_moving M R w (snd (snd (submitJobTo l v now e cluster clusterID persisted speculative provenFit w)))"
proof -
  have claim: "keeps_moving M R w (snd (snd (claim_placed l v now e cluster clusterID speculative provenFit w)))" for e w
  proof -
    have c: "keeps_moving M R w (snd (store_call (ClaimSubmitted rates cpu now i cluster job room) w))" for rates cpu i job room
      by (rule call_keeps) (rule ClaimSubmitted_by, simp_all)
    show ?thesis
      unfolding claim_placed_def Let_def by (simp add: case_prod_unfold c split: option.split claim_result.split)
  qed
  have reserve: "keeps_moving M R w (snd (ReserveAdmittedAcceleratorType l v i t cost n w))" for i t cost n
  proof -
    have c: "keeps_moving M R w (snd (store_call (ReserveAdmittedAcceleratorTypeTx i t cost n m observe) w))" for m observe
      by (rule call_keeps) (rule reserve_by)
    show ?thesis
      unfolding ReserveAdmittedAcceleratorType_def by (simp add: case_prod_unfold c split: option.split reserve_result.split)
  qed
  show ?thesis
    unfolding submitJobTo_def
    by (auto simp: case_prod_unfold reserve split: option.split intro: keeps_moving_trans [OF reserve claim])
qed

lemma EvictExperiment_keeps:
  assumes "\<not> IsInfrastructureFault reason"
  shows "keeps_moving M R w (snd (snd (EvictExperiment M env now i reason (u, w))))"
  unfolding keeps_moving_def
proof
  assume s: "sane M R w"
  obtain got w1 where get: "store_call (GetExperiment i) w = (got, w1)" by force
  have lawful: "lawful tick_may M R w" using s by (simp add: sane_def)
  have same: "R\<^sup>*\<^sup>* db (snd (GetExperiment i db))" for db by (simp add: GetExperiment_def)
  note called = store_call_moves [OF lawful same get]
  have w1: "moves R w w1" using called by blast
  show "moves R w (snd (snd (EvictExperiment M env now i reason (u, w))))"
  proof (cases "\<exists>x. got = Some (Some x) \<and> jr_Status x = StatusRunning")
    case False
    with w1 get show ?thesis by (auto simp: EvictExperiment_def split: option.split)
  next
    case True
    then obtain x where x: "got = Some (Some x)" "jr_Status x = StatusRunning" by blast
    with called obtain db where db: "R\<^sup>*\<^sup>* (w_db w) db" "map_of (db_rows db) i = Some x"
      by (auto simp: GetExperiment_def)
    have id: "ex_ID (jr_job x) = i" using sane_steps(1) [OF s db(1)] db(2) by (simp add: table_ok_def)
    let ?f = "ResolveTermination M now i StatusRunning StatusEvicted reason"
    obtain v w2 where c: "store_call ?f w1 = (v, w2)" by force
    have lawful1: "lawful tick_may M R w1" by (rule lawful_moves [OF w1 lawful])
    note written = store_call_moves [OF lawful1 own_step [OF lawful1 evict_by [OF assms]] c]
    then have w2: "moves R w w2" using moves_trans [OF w1] by blast
    show ?thesis
    proof (cases "v = Some TerminationWritten")
      case True
      let ?x = "x\<lparr>jr_Status := StatusEvicted, jr_EvictionReason := Some reason\<rparr>"
      from written True obtain db' where "?f db' = (TerminationWritten, w_db w2)" by blast
      from ResolveTermination_written [OF this] have "has_ended ?x (w_db w2)" using id by (auto simp: has_ended_def Ended_def)
      from moves_trans [OF w2 settle_moves [OF lawful_moves [OF w2 lawful] this]]
      have "moves R w (snd (settle env now ?x (u, w2)))" by simp
      then show ?thesis using get c x True by (simp add: EvictExperiment_def)
    next
      case False
      with w2 get c x show ?thesis by (auto simp: EvictExperiment_def split: option.split Termination.split)
    qed
  qed
qed

subsection \<open>The passes\<close>

definition moving :: "int \<Rightarrow> (job_db \<Rightarrow> job_db \<Rightarrow> bool) \<Rightarrow> tickState \<Rightarrow> tickState \<Rightarrow> bool" where
  "moving M R t t' \<longleftrightarrow> keeps_moving M R (ts_world t) (ts_world t')"

lemma moving_trans: "moving M R a b \<Longrightarrow> moving M R b c \<Longrightarrow> moving M R a c"
  unfolding moving_def by (rule keeps_moving_trans)

lemma moving_same: "ts_world t' = ts_world t \<Longrightarrow> moving M R t t'"
  by (simp add: moving_def)

lemma moving_refl [simp]: "moving M R t t"
  by (simp add: moving_same)

lemma ask_moving: "(\<And>db. table_ok db \<Longrightarrow> [] \<notin> set (keys (db_clusters db)) \<Longrightarrow> tick_step M db (snd (f db))) \<Longrightarrow> moving M R t (snd (ask f t))"
  using call_keeps [of M f R "ts_world t"] by (simp add: moving_def ask_def case_prod_unfold)

lemma world_fields [simp]:
  "ts_world (skipExperiment i err t) = ts_world t" "ts_world (note_event ev t) = ts_world t"
  "ts_world (claim_views tier cluster fp t) = ts_world t" "ts_world (claim_nodes l cluster e t) = ts_world t"
  "ts_world (keep_from_burst cluster fp t) = ts_world t" "ts_world (hold_room l tier cluster fp e t) = ts_world t"
  by (simp_all add: skipExperiment_def note_event_def claim_views_def claim_nodes_def keep_from_burst_def hold_room_def Let_def
      split: prod.split list.split)

lemma mark_moving: "moving M R t (mark env i r t)"
  using markNotAdmitted_keeps [of M R "ts_world t" "te_say env" i "map_of (ts_said t) i" r]
  by (simp add: mark_def moving_def case_prod_unfold Let_def)

lemma submit_to_moving: "moving M R t (snd (snd (submit_to l env e cluster clusterID persisted speculative provenFit t)))"
  using submitJobTo_keeps by (simp add: submit_to_def moving_def case_prod_unfold)

lemma admit_moving: "moving M R t (admit l env tier e cluster persisted fp t)"
proof -
  let ?s = "submit_to l env e cluster [] persisted False False t"
  have s: "moving M R t (snd (snd ?s))" by (rule submit_to_moving)
  have "moving M R t (mark env i r (snd (snd ?s)))" for i r by (rule moving_trans [OF s mark_moving])
  moreover have "moving M R t (note_event ev (claim_nodes l cluster e' (claim_views tier cluster fp (snd (snd ?s)))))" for ev e'
    by (rule moving_trans [OF s]) (rule moving_same, simp)
  ultimately show ?thesis by (simp add: admit_def case_prod_unfold split: option.split)
qed

lemma requeue_moving: "moving M R (snd nt) (snd (requeue_victim env i running victim nt))"
proof -
  have "moving M R t (snd (ask (store_RequeuePreempted now j hours cost) t))" for t now j hours cost by (rule ask_moving) (rule requeue_by)
  moreover from this have "moving M R t ((snd (ask (store_RequeuePreempted now j hours cost) t))\<lparr>ts_usage := u\<rparr>)" for t now j hours cost u
    by (simp add: moving_def)
  ultimately show ?thesis by (simp add: requeue_victim_def case_prod_unfold split: option.split bool.split)
qed

lemma preempt_on_moving: "moving M R t (snd (preempt_on l env cluster running e t))"
proof -
  have "moving M R (snd nt) (snd (fold (requeue_victim env i running) victims nt))" for i victims nt
  proof (induction victims arbitrary: nt)
    case (Cons v victims)
    show ?case using moving_trans [OF requeue_moving Cons.IH] by simp
  qed simp
  from this [of "(0, t)"] show ?thesis
    by (simp add: preempt_on_def Let_def case_prod_unfold moving_def split: option.split)
qed

lemma disbalance_once_moving: "moving (lp_maxInfraRequeues l) R t (disbalance_once l env cluster views fp e t)"
proof -
  let ?M = "lp_maxInfraRequeues l"
  have evict: "moving ?M R t (evict_victim l env i c nodeAvail victim t)" for t i c nodeAvail victim
    unfolding evict_victim_def moving_def using EvictExperiment_keeps [of "WithDetail EvictionResourceDisbalance (te_explain env victim)" ?M R "ts_world t"]
    by (simp add: case_prod_unfold)
  have evictions: "moving ?M R t (fold (evict_victim l env i c nodeAvail) victims t)" for t i c nodeAvail victims
    by (induction victims arbitrary: t) (auto intro: moving_trans [OF evict])
  have read: "moving ?M R t (snd (ask (list_with_status StatusRunning) t))" for t
    by (rule ask_moving) (simp add: list_with_status_def)
  have "moving ?M R t (snd (disbalance_on l env cluster views fp e t))" for t
    using read [of t] moving_trans [OF read evictions]
    by (auto simp: disbalance_on_def Let_def case_prod_unfold split: option.split sum.split intro: moving_same)
  from this [of "note_event (Balanced (ex_ID e) cluster) (t\<lparr>ts_disbalanceRan := cluster # ts_disbalanceRan t\<rparr>)"]
  show ?thesis by (simp add: disbalance_once_def case_prod_unfold moving_def split: option.split)
qed

interpretation moving: passes_law env "moving (lp_maxInfraRequeues l) R" l "\<lambda>_. True" "\<lambda>_. True" for env l R
proof unfold_locales
  show "moving (lp_maxInfraRequeues l) R t (finishTick l env t)" for t
  proof -
    have "moving (lp_maxInfraRequeues l) R t (snd (ask (\<lambda>db. ((), MarkHeldJobs now m db)) t))" for now m
      by (rule ask_moving) (simp add: held_by)
    then show ?thesis by (simp add: finishTick_def case_prod_unfold moving_def split: option.split)
  qed
qed (auto simp: moving_same mark_moving admit_moving submit_to_moving preempt_on_moving disbalance_once_moving
      intro: moving_trans moving_same ask_moving)

end
