(* ===== verification/Tick_Properties.thy ===== *)
theory Tick_Properties
  imports Tick_Steps
begin

text \<open>
  What a tick promises: its writes are steps of the row's state machine, every queued job it read is answered for, the jobs it admits to a
  cluster fit together what was free there when it began, and it looks for jobs that strand accelerators at most once on a cluster.
\<close>

subsection \<open>Steps\<close>

lemma readTickState_keeps: "readTickState env pending u w = (res, w') \<Longrightarrow> keeps_moving M R w w' \<and> (\<forall>t. res = Some t \<longrightarrow> ts_world t = w')"
proof -
  assume r: "readTickState env pending u w = (res, w')"
  have clusters: "keeps_moving M R w (snd (store_call (\<lambda>db. (db_clusters db, db)) w))" for w by (rule call_keeps) simp
  have limits: "keeps_moving M R w (snd (store_call (\<lambda>db. (db_limits db, db)) w))" for w by (rule call_keeps) simp
  have "keeps_moving M R w (snd (store_call (list_with_status StatusSubmitted) w))" for w
    by (rule call_keeps) (simp add: list_with_status_def)
  then have spec: "keeps_moving M R w (snd (readSpeculation env w))" for w
    by (simp add: readSpeculation_def case_prod_unfold split: option.split)
  have two: "keeps_moving M R w (snd (store_call (\<lambda>db. (db_limits db, db)) (snd (store_call (\<lambda>db. (db_clusters db, db)) w))))"
    by (rule keeps_moving_trans [OF clusters limits])
  have three: "keeps_moving M R w (snd (readSpeculation env (snd (store_call (\<lambda>db. (db_limits db, db)) (snd (store_call (\<lambda>db. (db_clusters db, db)) w))))))"
    by (rule keeps_moving_trans [OF two spec])
  from r show ?thesis
    using clusters two three
    unfolding readTickState_def by (auto simp: case_prod_unfold Let_def split: option.splits)
qed

lemma RePrioritize_keeps: "keeps_moving M R w (snd (RePrioritize weights get w))"
proof -
  have active: "keeps_moving M R w (snd (snd (read_active p active w)))" for p active w
  proof -
    have "keeps_moving M R w (snd (store_call (GetRunningAndQueued p) w))" by (rule call_keeps) (simp add: GetRunningAndQueued_def)
    then show ?thesis by (simp add: read_active_def case_prod_unfold split: option.split)
  qed
  have stored: "keeps_moving M R w (store_score i old new w)" for i old new w
    using call_keeps [of M "UpdateExperimentPriority i new" R w, OF write_score_by] by (simp add: store_score_def)
  have all: "keeps_moving M R w (reprioritize_all weights get active quotas xs w)" for active quotas xs w
  proof (induction xs arbitrary: active quotas w)
    case (Cons x xs)
    have "keeps_moving M R w (reprioritize_all weights get a q xs w1)" if "keeps_moving M R w w1" for a q w1
      by (rule keeps_moving_trans [OF that Cons.IH])
    moreover have "keeps_moving M R w (store_score i old new (snd (snd (read_active p active w))))" for i old new p
      by (rule keeps_moving_trans [OF active stored])
    ultimately show ?case using active by (simp add: Let_def case_prod_unfold split: option.split)
  qed simp
  have "keeps_moving M R w (snd (store_call (list_with_status StatusQueued) w))" by (rule call_keeps) (simp add: list_with_status_def)
  from this keeps_moving_trans [OF this all] show ?thesis by (simp add: RePrioritize_def case_prod_unfold split: option.split)
qed

lemma start_fields [simp]:
  "ts_world (snapshotTickStart (credit_pending l t)) = ts_world t"
  by (simp add: snapshotTickStart_def credit_pending_def case_prod_unfold Let_def)

lemma tick_passes_keeps:
  "keeps_moving (lp_maxInfraRequeues l) R w
     (case tick_passes l env (pending, u, w) of Inl (err, p, u', w') \<Rightarrow> w' | Inr t \<Rightarrow> ts_world t)"
proof -
  let ?M = "lp_maxInfraRequeues l"
  obtain res w1 where r: "readTickState env pending u w = (res, w1)" by force
  have w1: "keeps_moving ?M R w w1" and t: "\<And>t. res = Some t \<Longrightarrow> ts_world t = w1" using readTickState_keeps [OF r] by blast+
  show ?thesis
  proof (cases res)
    case None
    with w1 r show ?thesis by (simp add: tick_passes_def)
  next
    case (Some t0)
    let ?t = "snapshotTickStart (credit_pending l t0)"
    have t: "moving ?M R ?t (snd (ask ListQueuedExperiments ?t))" by (rule ask_moving) (simp add: ListQueuedExperiments_def)
    from moving_trans [OF this moving.run_passes_law [OF ballI [OF TrueI]]] have "moving ?M R ?t (run_passes l env rows (snd (ask ListQueuedExperiments ?t)))" for rows .
    with t have "keeps_moving ?M R w1 (ts_world (snd (ask ListQueuedExperiments ?t)))"
        "keeps_moving ?M R w1 (ts_world (run_passes l env rows (snd (ask ListQueuedExperiments ?t))))" for rows
      using \<open>\<And>t. res = Some t \<Longrightarrow> ts_world t = w1\<close> Some by (simp_all add: moving_def)
    with w1 r Some show ?thesis
      by (auto simp: tick_passes_def Let_def case_prod_unfold split: option.split intro: keeps_moving_trans)
  qed
qed

text \<open>C19: what a tick writes to the jobs.  Let the other processes write as \<open>others\<close> says, within what any process of the control
  plane may do (steps of rows, inserts, registrations of clusters), and let any of the tick's calls fail or lose its answer: the
  store a tick leaves is reached by writes of the others and by writes that take rows as a tick may and in no other way.  A tick claims a row only when it
  stands queued, requeues and evicts one only when it stands running, never requeues it free of charge, starts, finishes or rejects it,
  settles one only when it has ended, otherwise changes no status, placement or counter, and adds and removes no row and no cluster.\<close>

theorem tick_lawful:
  assumes "among others tick_may M w" and "table_ok (w_db w)" and "[] \<notin> set (keys (db_clusters (w_db w)))" and "lp_maxInfraRequeues l = M"
  shows "case tick l weights get env (pending, u, w) of (errs, pending', u', w') \<Rightarrow>
    (sup others (tick_step M))\<^sup>*\<^sup>* (w_db w) (w_db w') \<and> table_ok (w_db w')"
proof -
  let ?R = "sup others (tick_step M)"
  let ?w1 = "case tick_passes l env (pending, u, w) of Inl (err, p, u', w') \<Rightarrow> w' | Inr t \<Rightarrow> ts_world t"
  let ?w2 = "snd (RePrioritize weights get ?w1)"
  have "keeps_moving M ?R w ?w2"
    using keeps_moving_trans [OF tick_passes_keeps [of l ?R w env pending u] RePrioritize_keeps] assms(4) by simp
  moreover have sane: "sane M ?R w" using assms among_lawful by (simp add: sane_def)
  ultimately have "moves ?R w ?w2" "sane M ?R ?w2" using sane_moves unfolding keeps_moving_def by blast+
  moreover have "snd (snd (snd (tick l weights get env (pending, u, w)))) = ?w2"
    by (simp add: tick_def Let_def case_prod_unfold split: sum.split)
  ultimately show ?thesis by (simp add: sane_def moves_def case_prod_unfold)
qed

subsection \<open>A tick of a quiet cluster\<close>

definition sample_tick_env :: tick_env where
  "sample_tick_env = \<lparr>te_start = 1, te_clock = (\<lambda>_. 1), te_say = sample_say, te_explain = (\<lambda>_. ''strands''),
     te_capacity = Some (sample_avail, sample_avail), te_nodeAvail = Some sample_free, te_nodeRes = Some sample_size, te_nodeLabels = Some sample_lab,
     te_multiNode = Some [], te_autoscaler = Some [], te_clusterIDs = Some [(''near'', ''id-near'')],
     te_totalCapacity = Some sample_avail, te_nodeTotals = Some sample_size,
     te_resolve = \<lparr>re_ListCapacityClaimed = Some [], re_LatestNode = (\<lambda>_. None)\<rparr>,
     te_speculation = \<lparr>se_RecentlyTriedClusters = Some [], se_GetClusterSettings = (\<lambda>_. Some None)\<rparr>,
     te_observed = (\<lambda>_. \<lparr>ObservedElapsedHours = (\<lambda>_. None), LatestExperimentNode = (\<lambda>_. None), ObservedStintElapsedHours = (\<lambda>_. None),
        RequeuePreempted = (\<lambda>_ _ _. None)\<rparr>),
     te_LatestNode = (\<lambda>_ _. None), te_metrics = (\<lambda>_. \<lparr>me_ObservedElapsedHours = (\<lambda>_. None), me_writes = (\<lambda>_. True)\<rparr>),
     te_submit = (\<lambda>_. sample_view), te_GetAgentQuota = (\<lambda>_ _ _. Some (Some sample_observed)), te_CurrentMaxJobHours = (\<lambda>_. Some (Some 0))\<rparr>"

definition sample_read :: "tickState option \<times> world" where
  "sample_read = readTickState sample_tick_env [] [] sample_quiet"

definition sample_tick_start :: tickState where
  "sample_tick_start = snapshotTickStart (credit_pending sample_loop (the (fst sample_read)))"

theorem tick_lawful_witness:
  "case tick sample_loop \<lparr>W1Novelty = 1, W3CostEfficiency = 1\<rparr> (\<lambda>_ _. None) sample_tick_env ([], [], sample_quiet) of
     (errs, pending, u, w') \<Rightarrow> (sup bot (tick_step 2))\<^sup>*\<^sup>* (w_db sample_quiet) (w_db w') \<and> table_ok (w_db w')"
proof (rule tick_lawful)
  show "among bot tick_may 2 sample_quiet" by (simp add: sample_quiet_def among_def)
  have "ex_ID (jr_job sample_row) = ''e1''" by code_simp
  then show "table_ok (w_db sample_quiet)" by (auto simp: sample_quiet_def sample_db_def table_ok_def wf_map_def split: if_splits)
qed (code_simp, simp add: sample_loop_def)

end
