(* ===== verification/Tick_Answers.thy ===== *)
theory Tick_Answers
  imports Tick_Properties
begin

text \<open>
  Every queued job a tick read is answered for: it is admitted, bet on a cluster, told why it waits, or its failure is among the
  errors of the tick.  The failure of one job never takes another's answer away.
\<close>

subsection \<open>Answers are kept\<close>

definition answered_for :: "string \<Rightarrow> tickState \<Rightarrow> bool" where
  "answered_for i t \<longleftrightarrow>
     (\<exists>ev \<in> set (ts_history t). (\<exists>tier c fp. ev = Admitted tier i c fp) \<or> (\<exists>c n. ev = Bet i c n) \<or> (\<exists>r. ev = Marked i r))
     \<or> (\<exists>err. JobError i err \<in> set (ts_errs t))"

definition grows :: "tickState \<Rightarrow> tickState \<Rightarrow> bool" where
  "grows t t' \<longleftrightarrow> set (ts_history t) \<subseteq> set (ts_history t') \<and> set (ts_errs t) \<subseteq> set (ts_errs t')"

lemma answered_grows: "grows t t' \<Longrightarrow> answered_for i t \<Longrightarrow> answered_for i t'"
  unfolding grows_def answered_for_def by blast

lemma grows_refl [simp]: "grows t t"
  by (simp add: grows_def)

lemma grows_trans: "grows a b \<Longrightarrow> grows b c \<Longrightarrow> grows a c"
  by (auto simp: grows_def)

lemma grows_same: "ts_history t' = ts_history t \<Longrightarrow> ts_errs t' = ts_errs t \<Longrightarrow> grows t t'"
  by (simp add: grows_def)

lemma grows_events [simp]: "grows t (skipExperiment i err t)" "grows t (note_event ev t)"
  by (auto simp: grows_def skipExperiment_def note_event_def)

lemma answered_skip [simp]: "answered_for i (skipExperiment i err t)"
  by (auto simp: answered_for_def skipExperiment_def)

lemma answered_mark [simp]: "answered_for i (mark env i r t)"
  by (auto simp: mark_def answered_for_def skipExperiment_def note_event_def Let_def split: prod.split)

lemma grows_mark: "grows t (mark env i r t)"
  by (auto simp: mark_def grows_def skipExperiment_def note_event_def Let_def split: prod.split)

lemma grows_ask: "grows t (snd (ask f t))"
  by (simp add: ask_def grows_def case_prod_unfold)

lemma grows_submit: "grows t (snd (snd (submit_to l env e cluster clusterID persisted speculative provenFit t)))"
  by (simp add: submit_to_def grows_def case_prod_unfold)

lemma grows_claim: "grows t (claim_nodes l cluster e (claim_views tier cluster fp t))"
  by (simp add: claim_nodes_def claim_views_def grows_def case_prod_unfold Let_def)

lemma grows_admit: "grows t (admit l env tier e cluster persisted fp t)"
proof -
  let ?s = "submit_to l env e cluster [] persisted False False t"
  have s: "grows t (snd (snd ?s))" by (rule grows_submit)
  have "grows t (mark env i r (snd (snd ?s)))" for i r by (rule grows_trans [OF s grows_mark])
  moreover have "grows t (note_event ev (claim_nodes l cluster e' (claim_views tier cluster fp (snd (snd ?s)))))" for ev e'
    by (rule grows_trans [OF s grows_trans [OF grows_claim grows_events(2)]])
  ultimately show ?thesis by (simp add: admit_def case_prod_unfold split: option.split)
qed

lemma answered_admitted: "answered_for i (note_event (Admitted tier i c fp) t)"
  by (auto simp: answered_for_def note_event_def)

lemma answered_admit: "answered_for (ex_ID e) (admit l env tier e cluster persisted fp t)"
  by (simp add: admit_def case_prod_unfold answered_admitted split: option.split)

lemma grows_preempt: "grows t (snd (preempt_on l env cluster running e t))"
proof -
  have one: "grows (snd nt) (snd (requeue_victim env i running victim nt))" for i victim nt
    by (simp add: requeue_victim_def case_prod_unfold grows_def ask_def split: option.split bool.split)
  have all: "grows (snd nt) (snd (fold (requeue_victim env i running) victims nt))" for i victims nt
  proof (induction victims arbitrary: nt)
    case (Cons v victims)
    show ?case using grows_trans [OF one Cons.IH] by simp
  qed simp
  show ?thesis
    unfolding preempt_on_def Let_def
    by (simp add: case_prod_unfold split: option.split) (metis all grows_events(2) grows_trans snd_conv)
qed

lemma grows_disbalance: "grows t (disbalance_once l env cluster views fp e t)"
proof -
  have evictions: "grows t (fold (evict_victim l env i c nodeAvail) victims t)" for t i c nodeAvail victims
  proof (induction victims arbitrary: t)
    case (Cons v victims)
    have "grows t (evict_victim l env i c nodeAvail v t)" by (simp add: evict_victim_def grows_def case_prod_unfold)
    from grows_trans [OF this Cons.IH] show ?case by simp
  qed simp
  have "grows t (snd (disbalance_on l env cluster views fp e t))" for t
    using grows_ask grows_trans [OF grows_ask evictions]
    by (auto simp: disbalance_on_def Let_def case_prod_unfold split: option.split sum.split)
  then have "grows t (snd (disbalance_on l env cluster views fp e (note_event (Balanced (ex_ID e) cluster) (t\<lparr>ts_disbalanceRan := ran\<rparr>))))" for ran
    by (rule grows_trans [rotated]) (simp add: grows_def note_event_def subset_insertI)
  then show ?thesis
    by (auto simp: disbalance_once_def case_prod_unfold split: option.split intro: grows_trans [OF _ grows_events(1)])
qed

lemma grows_hold: "grows t (hold_room l tier cluster fp e t)"
proof -
  have "grows t (note_event ev t')" if "grows t t'" for ev t' by (rule grows_trans [OF that]) simp
  then show ?thesis by (simp add: hold_room_def case_prod_unfold grows_same split: list.split)
qed

interpretation growing: passes_law env grows l "\<lambda>_. True" "\<lambda>_. True" for env l
proof unfold_locales
  show "grows t (finishTick l env t)" for t
    by (auto simp: finishTick_def ask_def grows_def case_prod_unfold split: option.split)
  show "grows t (note_event (Bet i cluster n) (t\<lparr>ts_speculativeFootprint := footprint\<rparr>))" for t i cluster n footprint
    by (auto simp: grows_def note_event_def)
  show "grows t (keep_from_burst cluster fp t)" for t cluster fp by (auto simp: grows_def note_event_def keep_from_burst_def)
qed (auto simp: grows_same grows_mark grows_ask grows_submit grows_admit grows_preempt grows_disbalance grows_hold intro: grows_trans)

subsection \<open>One job\<close>

text \<open>A job keeps its id on its way through a tick.\<close>

lemma try_tiers_id: "ex_ID (snd (snd (ClusterAndFootprint Q cands registered nodeAvail nodeRes nodeLabels e))) = ex_ID e"
  by (simp add: ClusterAndFootprint_def Let_def split: option.split list.split prod.split)

lemma pick_cluster_id: "pick_cluster Q c pinned queuedAt cands placed e = (placed', e') \<Longrightarrow> ex_ID e' = ex_ID e"
  using try_tiers_id [of Q cands "tk_registered c" "tk_nodeAvail c" "tk_nodeRes c" "tk_nodeLabels c" "e\<lparr>ex_AcceleratorType := queuedAt\<rparr>"]
  by (auto simp: pick_cluster_def split: if_splits prod.splits)

lemma cover_type_id: "cover_type Q rates c quota cands placed e = Inr (placed', e') \<Longrightarrow> ex_ID e' = ex_ID e"
  by (auto simp: cover_type_def Let_def split: if_splits)

lemma place_loop_id: "place_loop fuel Q rates env c quota pinned queuedAt cands misfits placed e ca = Some (PlacedAt qp, e', ca') \<Longrightarrow> ex_ID e' = ex_ID e"
proof (induction fuel arbitrary: cands misfits placed e ca)
  case (Suc fuel)
  obtain placed1 e1 where p1: "pick_cluster Q c pinned queuedAt cands placed e = (placed1, e1)" by force
  from Suc.prems p1 obtain placed2 e2 where p2: "cover_type Q rates c quota cands placed1 e1 = Inr (placed2, e2)" by (auto split: sum.splits)
  have "ex_ID e2 = ex_ID e" using pick_cluster_id [OF p1] cover_type_id [OF p2] by simp
  with Suc.prems Suc.IH show ?case
    by (auto simp: p1 p2 Let_def split: if_splits prod.splits sum.splits)
qed simp

lemma placeQueued_id:
  "placeQueued fuel Q rates env ttl c quota avail e ca = Some (PlacedAt qp, e', ca') \<Longrightarrow> ex_ID e' = ex_ID e"
  using place_loop_id by (auto simp: placeQueued_def Let_def split: sum.splits)

lemma place_queued_answers:
  assumes "place_queued l env avail quota e t = (res, t')"
  shows "case res of None \<Rightarrow> answered_for (ex_ID e) t' | Some (placed, e') \<Rightarrow> ex_ID e' = ex_ID e"
proof -
  let ?p = "placeQueued (length avail + 1) (lp_Q l) (lp_rates l) (te_resolve env) (lp_triedClusterTTL l) (ts_clusters t) quota avail e (ts_cache t)"
  obtain outcome e' ca where p: "?p = Some (outcome, e', ca)"
    using placeQueued_ends [of avail "length avail + 1"] by (metis less_add_one)
  have "ex_ID e' = ex_ID e" if "outcome = PlacedAt placed" for placed
    using p placeQueued_id unfolding that by blast
  with assms p show ?thesis by (auto simp: place_queued_def split: place_outcome.splits)
qed

lemma bets_for_answers:
  assumes "bets_for l env placed liveFits e t = (res, t')"
  shows "case res of None \<Rightarrow> answered_for (ex_ID e) t' | Some (bets, proven, e') \<Rightarrow> ex_ID e' = ex_ID e"
  using assms by (auto simp: bets_for_def Let_def split: if_splits prod.splits sum.splits)

lemma resolve_bet_answers:
  assumes "resolve_bet l env cluster specCluster e t = (res, t')"
  shows "case res of None \<Rightarrow> answered_for (ex_ID e) t' | Some e' \<Rightarrow> ex_ID e' = ex_ID e"
  using assms by (auto simp: resolve_bet_def Let_def split: if_splits prod.splits sum.splits)

lemma hold_to_place_id [simp]: "ex_ID (hold_to_place labelsByNode e) = ex_ID e"
  by (simp add: hold_to_place_def Let_def split: option.split)

lemma answered_bet: "answered_for i (note_event (Bet i c n) t)"
  by (auto simp: answered_for_def note_event_def)

lemma submitSpeculative_answers: "answered_for (ex_ID e) (submitSpeculative l env e cluster specCluster persisted provenFit t)"
proof -
  obtain res t' where r: "resolve_bet l env cluster specCluster e t = (res, t')" by force
  show ?thesis
  proof (cases res)
    case None
    with resolve_bet_answers [OF r] r show ?thesis by (simp add: submitSpeculative_def)
  next
    case (Some e')
    then have "ex_ID e' = ex_ID e" using resolve_bet_answers [OF r] by simp
    then have "ex_ID (hold_to_place labelsByNode e') = ex_ID e" for labelsByNode by simp
    with Some r answered_bet show ?thesis
      unfolding submitSpeculative_def by (auto simp: Let_def case_prod_unfold split: option.split)
  qed
qed

lemma load_claimed_answers: "load_claimed env i t = (None, t') \<Longrightarrow> answered_for i t'"
  by (auto simp: load_claimed_def split: prod.splits option.splits)

lemma wait_short_answers: "answered_for (ex_ID e) (wait_short l env tier a b c d cluster fp e t)"
  using load_claimed_answers by (auto simp: wait_short_def split: prod.split option.split)

lemma guaranteed_wait_answers: "answered_for (ex_ID e) (guaranteed_wait l env placed e leaving scaling covers promised missing t)"
  by (simp add: guaranteed_wait_def Let_def wait_short_answers split: option.split)

lemma load_running_answers: "load_running i p t = (None, p', t') \<Longrightarrow> answered_for i t'"
  by (auto simp: load_running_def split: prod.splits option.splits)

lemma promise_slots_answers: "promise_slots l env cluster e p t = (None, p', t') \<Longrightarrow> answered_for (ex_ID e) t'"
  using load_claimed_answers
  by (auto simp: promise_slots_def Let_def split: if_splits prod.splits option.splits sum.splits bool.splits)

lemma makeRoom_answers: "answered_for (ex_ID e) (snd (makeRoom l env e placed scalarFits (p, t)))"
proof -
  obtain running p1 t1 where run: "load_running (ex_ID e) p t = (running, p1, t1)" by (metis prod_cases3)
  obtain slots p2 t2 where slots: "promise_slots l env (qp_cluster placed) e p1 t1 = (slots, p2, t2)" by (metis prod_cases3)
  from run slots show ?thesis
    using load_running_answers promise_slots_answers guaranteed_wait_answers
    by (auto simp: makeRoom_def Let_def case_prod_unfold split: option.split)
qed

lemma admitGuaranteed_answers: "answered_for (ex_ID e) (snd (admitGuaranteed l env quotas e (p, t)))"
proof -
  obtain res t1 where place: "place_queued l env (ts_gAvail t) (quota_of quotas e) e t = (res, t1)" by force
  note placed = place_queued_answers [OF place]
  show ?thesis
  proof (cases res)
    case None
    with placed place show ?thesis by (simp add: admitGuaranteed_def)
  next
    case (Some pe)
    obtain placed e' where pe: "pe = (placed, e')" by force
    with Some \<open>case res of None \<Rightarrow> _ | Some (placed, e') \<Rightarrow> _\<close> have id: "ex_ID e' = ex_ID e" by simp
    let ?c = "ts_clusters t1" and ?cluster = "qp_cluster placed"
    let ?live = "Fits (mget [] (ts_gAvail t1) ?cluster) (qp_fp placed) \<and> TopologyFits (lp_Q l) (mget [] (tk_nodeAvail ?c) ?cluster)
       (mget [] (tk_nodeRes ?c) ?cluster) (mget [] (tk_nodeLabels ?c) ?cluster) e'"
    obtain bets t2 where bets: "bets_for l env placed ?live e' t1 = (bets, t2)" by force
    have "case bets of None \<Rightarrow> answered_for (ex_ID e) t2 | Some (bs, proven, e'') \<Rightarrow> ex_ID e'' = ex_ID e"
      using bets_for_answers [OF bets] unfolding id .
    moreover have "ex_ID e'' = ex_ID e \<Longrightarrow> answered_for (ex_ID e) (submitSpeculative l env e'' a b d f t2)
        \<and> answered_for (ex_ID e) (snd (makeRoom l env e'' placed g (p, t2))) \<and> answered_for (ex_ID e) (admit l env tier e'' a d fp t2)" for e'' a b d f g tier fp
      using submitSpeculative_answers makeRoom_answers answered_admit by metis
    ultimately show ?thesis
      by (auto simp: admitGuaranteed_def place Some pe bets Let_def split: option.split prod.split list.split)
  qed
qed

lemma burstWait_answers: "answered_for (ex_ID e) (burstWait l env e placed t)"
  by (simp add: burstWait_def Let_def wait_short_answers split: option.split)

lemma admitBurst_answers: "answered_for (ex_ID e) (admitBurst l env quotas e t)"
proof -
  obtain res t1 where place: "place_queued l env (ts_bAvail t) (quota_of quotas e) e t = (res, t1)" by force
  have "ex_ID e' = ex_ID e \<Longrightarrow> answered_for (ex_ID e) (burstWait l env e' placed t1) \<and> answered_for (ex_ID e) (admit l env tier e' a d fp t1)" for e' placed a d tier fp
    using burstWait_answers answered_admit by metis
  with place_queued_answers [OF place] show ?thesis
    by (cases res) (auto simp: admitBurst_def place Let_def)
qed

subsection \<open>The queue\<close>

lemma admissible_answers:
  "admissible env seen cuts es t = (kept, t') \<Longrightarrow> e \<in> set es \<Longrightarrow> e \<in> set kept \<or> answered_for (ex_ID e) t'"
proof (induction es arbitrary: seen cuts t kept t')
  case (Cons x es)
  have kept: "answered_for i t' \<Longrightarrow> answered_for i t''" if "admissible env s c es t' = (k, t'')" for i t' t'' s c k
    using growing.admissible_law [of t' env s c es] that answered_grows by auto
  have later: "e \<in> set kept' \<or> answered_for (ex_ID e) t'"
    if "admissible env s c es t1 = (kept', t')" "e = x \<Longrightarrow> e \<in> set kept' \<or> answered_for (ex_ID e) t1" for s c t1 kept'
    using that Cons.IH [OF that(1)] Cons.prems(2) kept [OF that(1)] by auto
  show ?case
  proof (cases "ex_PlatformExperimentID x = []")
    case True
    with Cons.prems later show ?thesis by (fastforce split: prod.splits)
  next
    case False
    show ?thesis
    proof (cases "job_hours_limit env (ex_PlatformExperimentID x) seen")
      case (Inl err)
      with False Cons.prems later show ?thesis by auto
    next
      case (Inr ls)
      obtain limit seen' where ls: "ls = (limit, seen')" by force
      show ?thesis
      proof (cases "limit > 0 \<and> ex_EstimatedDurationHours x > limit")
        case True
        with False Inr ls Cons.prems later show ?thesis by auto
      next
        case short: False
        obtain is_cut cuts' t1 where cut: "agent_cut x cuts t = (is_cut, cuts', t1)" by (metis prod_cases3)
        obtain kept1 t2 where rest: "admissible env seen' cuts' es t1 = (kept1, t2)" by force
        note prems = Cons.prems(1) [simplified] False Inr ls short cut rest
        consider "is_cut = None" | "is_cut = Some True" | "is_cut = Some False" by (metis (full_types) option.exhaust)
        then show ?thesis
        proof cases
          case 3
          with prems have "kept = x # kept1" "t' = t2" by (auto split: if_splits)
          with Cons.IH [OF rest] Cons.prems(2) show ?thesis by auto
        qed (use prems later in \<open>auto split: if_splits\<close>)
      qed
    qed
  qed
qed simp

lemma fetchQuotaMap_answers:
  "fetchQuotaMap get result failed es t = (kept, quotas, t') \<Longrightarrow> e \<in> set es \<Longrightarrow> e \<in> set kept \<or> answered_for (ex_ID e) t'"
proof (induction es arbitrary: result failed t kept)
  case (Cons x es)
  have keeps: "answered_for i t1 \<Longrightarrow> answered_for i t2" if "fetchQuotaMap get r f es t1 = (k, q, t2)" for i t1 t2 r f k q
    using growing.fetchQuotaMap_law [of t1 get r f es] that answered_grows by auto
  obtain r f where rf: "(if map_of result (quotaKey (ex_AgentID x) (ex_PlatformExperimentID x)) \<noteq> None
       \<or> quotaKey (ex_AgentID x) (ex_PlatformExperimentID x) \<in> set failed then (result, failed)
     else case get (ex_AgentID x) (ex_PlatformExperimentID x) of
        Some (Some aq) \<Rightarrow> (mput (quotaKey (ex_AgentID x) (ex_PlatformExperimentID x)) aq result, failed)
      | _ \<Rightarrow> (result, quotaKey (ex_AgentID x) (ex_PlatformExperimentID x) # failed)) = (r, f)" by force
  show ?case
  proof (cases "ex_PlatformExperimentID x \<noteq> [] \<and> quotaKey (ex_AgentID x) (ex_PlatformExperimentID x) \<in> set f")
    case True
    with Cons.prems(1) rf have "fetchQuotaMap get r f es (skipExperiment (ex_ID x) QuotaUnread t) = (kept, quotas, t')" by (simp add: Let_def)
    with Cons.IH [OF this] Cons.prems(2) keeps [OF this] show ?thesis by auto
  next
    case False
    then obtain r' f' kept1 where "fetchQuotaMap get r' f' es t = (kept1, quotas, t')" "kept = x # kept1"
      using Cons.prems(1) rf by (auto simp: Let_def split: if_splits prod.splits)
    with Cons.IH Cons.prems(2) show ?thesis by auto
  qed
qed simp

lemma fold_answers:
  assumes "\<And>e t. answered_for (ex_ID e) (g e t)" and "\<And>e t. grows t (g e t)" and "e \<in> set es"
  shows "answered_for (ex_ID e) (fold g es t)"
  using assms(3)
proof (induction es arbitrary: t)
  case (Cons x es)
  show ?case
  proof (cases "e \<in> set es")
    case False
    have "grows t (fold g es t)" for t by (induction es arbitrary: t) (auto intro: grows_trans [OF assms(2)])
    then have "answered_for (ex_ID e) (fold g es (g e t))" using assms(1) answered_grows by blast
    with False Cons.prems show ?thesis by simp
  qed (use Cons.IH in simp)
qed simp

lemma guaranteedPass_answers:
  assumes "e \<in> set queued" and "ex_CapacityTier e = CapacityGuaranteed"
  shows "answered_for (ex_ID e) (guaranteedPass l env queued t)"
proof -
  obtain jobs quotas t1 where f: "fetchQuotaMap (te_GetAgentQuota env CapacityGuaranteed) [] [] (filterTier queued CapacityGuaranteed) t = (jobs, quotas, t1)"
    by (metis prod_cases3)
  have "e \<in> set (filterTier queued CapacityGuaranteed)" using assms by (simp add: filterTier_def)
  from fetchQuotaMap_answers [OF f this] consider "e \<in> set jobs" | "answered_for (ex_ID e) t1" by blast
  then show ?thesis
  proof cases
    case 1
    let ?js = "in_turn (sortGuaranteed jobs quotas (ts_completion t1) (lp_guaranteedFairnessWindow l))"
    have e: "e \<in> set ?js" using 1 by (simp add: in_turn_set sortGuaranteed_def)
    have "answered_for (ex_ID e) (snd (fold (admitGuaranteed l env quotas) es pt))" if "e \<in> set es" for es pt
      using that
    proof (induction es arbitrary: pt)
      case (Cons x es)
      have g: "grows (snd pt) (snd (fold (admitGuaranteed l env quotas) es pt))" for pt
        by (rule growing.fold_snd_law) (rule growing.admitGuaranteed_law [OF TrueI])
      have "answered_for (ex_ID x) (snd (admitGuaranteed l env quotas x pt))" using admitGuaranteed_answers [of x l env quotas "fst pt" "snd pt"] by simp
      then have "answered_for (ex_ID x) (snd (fold (admitGuaranteed l env quotas) es (admitGuaranteed l env quotas x pt)))"
        by (rule answered_grows [OF g])
      moreover have "answered_for (ex_ID e) (snd (fold (admitGuaranteed l env quotas) es (admitGuaranteed l env quotas x pt)))" if "e \<in> set es"
        using that by (rule Cons.IH)
      ultimately show ?case using Cons.prems by (auto simp del: split_paired_All)
    qed simp
    from this [OF e] show ?thesis by (simp add: guaranteedPass_def f)
  next
    case 2
    have "grows t1 (snd (fold (admitGuaranteed l env quotas) es (p, t1)))" for es p
      using growing.fold_snd_law [of es "admitGuaranteed l env quotas" "(p, t1)"] growing.admitGuaranteed_law [OF TrueI] by simp
    then have "answered_for (ex_ID e) (snd (fold (admitGuaranteed l env quotas) es (p, t1)))" for es p using 2 by (rule answered_grows)
    then show ?thesis by (simp add: guaranteedPass_def f)
  qed
qed

lemma burstPass_answers:
  assumes "e \<in> set queued" and "ex_CapacityTier e = CapacityBurst"
  shows "answered_for (ex_ID e) (burstPass l env queued t)"
proof -
  obtain jobs quotas t1 where f: "fetchQuotaMap (te_GetAgentQuota env CapacityBurst) [] [] (filterTier queued CapacityBurst) t = (jobs, quotas, t1)"
    by (metis prod_cases3)
  have "e \<in> set (filterTier queued CapacityBurst)" using assms by (simp add: filterTier_def)
  from fetchQuotaMap_answers [OF f this] consider "e \<in> set jobs" | "answered_for (ex_ID e) t1" by blast
  then show ?thesis
  proof cases
    case 1
    then have "e \<in> set (in_turn (sortBurst jobs quotas (ts_completion t1)))" by (simp add: in_turn_set sortBurst_def)
    from fold_answers [OF admitBurst_answers growing.burst.admitBurst_law [OF TrueI] this] show ?thesis by (simp add: burstPass_def f)
  next
    case 2
    have "grows t1 (fold (admitBurst l env quotas) es t1)" for es by (rule growing.fold_law) (rule growing.burst.admitBurst_law [OF TrueI])
    then have "answered_for (ex_ID e) (fold (admitBurst l env quotas) es t1)" for es using 2 by (rule answered_grows)
    then show ?thesis by (simp add: burstPass_def f)
  qed
qed

text \<open>C18: a tick answers for every queued job it read, whatever failed for the others: each is admitted to a cluster, bet on one that scales
  up, told why it waits, or named with what failed for it among the errors the tick returns.\<close>

theorem tick_answers_all:
  assumes "x \<in> set rows"
  shows "answered_for (ex_ID (jr_job x)) (run_passes l env rows t)"
proof -
  note all_fair = ballI [OF TrueI]
  let ?e = "jr_job x"
  let ?t = "t\<lparr>ts_said := map (\<lambda>x. (ex_ID (jr_job x), coalesce (jr_NotAdmittedReason x))) rows,
     ts_completion := completionFractions (te_observed env []) (map jr_job rows)\<rparr>"
  obtain queued t1 where a: "admissible env [] [] (map jr_job rows) ?t = (queued, t1)" by force
  have "?e \<in> set (map jr_job rows)" using assms by simp
  from admissible_answers [OF a this] consider (kept) "?e \<in> set queued" | (told) "answered_for (ex_ID ?e) t1" by blast
  then have "answered_for (ex_ID ?e) (burstPass l env queued (guaranteedPass l env queued t1))"
  proof cases
    case kept
    then show ?thesis
      using burstPass_answers guaranteedPass_answers answered_grows [OF growing.burst.burstPass_law [OF all_fair]]
      by (cases "ex_CapacityTier ?e") auto
  next
    case told
    then show ?thesis using answered_grows [OF growing.burst.burstPass_law [OF all_fair]] answered_grows [OF growing.guaranteedPass_law [OF all_fair]] by blast
  qed
  then have "answered_for (ex_ID ?e) (finishTick l env (burstPass l env queued (guaranteedPass l env queued t1)))"
    by (rule answered_grows [OF growing.finished])
  then show ?thesis by (simp add: run_passes_def Let_def a)
qed

theorem tick_answers_all_witness:
  "answered_for ''e1'' (run_passes sample_loop sample_tick_env [sample_row] sample_tick_start)"
proof -
  have "ex_ID (jr_job sample_row) = ''e1''" by code_simp
  with tick_answers_all [of sample_row "[sample_row]" sample_loop sample_tick_env sample_tick_start] show ?thesis by simp
qed

end
