(* ===== verification/Tick_Bounds.thy ===== *)
theory Tick_Bounds
  imports Tick_Properties
begin

text \<open>
  What a tick claims of a cluster: the footprints of the jobs it admits there, of both passes together, stay within what was free when it
  began, and it looks for jobs that strand accelerators at most once on it.
\<close>

subsection \<open>Footprints of real jobs\<close>

text \<open>No group of the job, as it was written or as it was resolved, asks for fewer than no nodes.\<close>

definition replicas_ok :: "JobSpec \<Rightarrow> bool" where
  "replicas_ok j \<longleftrightarrow> list_all (\<lambda>g. 0 \<le> jg_Replicas g) (NodeGroups j)"

definition sized :: "Experiment \<Rightarrow> bool" where
  "sized e \<longleftrightarrow> replicas_ok (ex_Job e) \<and> (case ex_ResolvedJob e of None \<Rightarrow> True | Some j \<Rightarrow> replicas_ok j)"

definition asks_for :: "Footprint \<Rightarrow> bool" where
  "asks_for fp \<longleftrightarrow> wf_map fp \<and> (\<forall>k. 0 \<le> geti fp k)"

lemma group_footprint_nonneg: "0 \<le> jg_Replicas g \<Longrightarrow> 0 \<le> geti (group_footprint Q g) k"
proof -
  assume "0 \<le> jg_Replicas g"
  moreover have "0 \<le> sum_list (map snd (filter (\<lambda>e. nodeResourceKeys (fst e) = k) (nodeResources Q g)))"
    by (rule sum_list_nonneg) (auto dest: nodeResources_pos)
  ultimately show ?thesis
    by (simp add: group_footprint_def geti_Scale fp_Add_def NewFootprint_def geti_fold_madd)
qed

lemma sized_asks: "sized e \<Longrightarrow> asks_for (exp_Footprint Q e)"
proof -
  assume "sized e"
  then have "list_all (\<lambda>g. 0 \<le> jg_Replicas g) (NodeGroups (EffectiveJob e))"
    by (auto simp: sized_def EffectiveJob_def replicas_ok_def split: option.splits)
  then have "0 \<le> sum_list (map (\<lambda>g. geti (group_footprint Q g) k) (NodeGroups (EffectiveJob e)))" for k
    by (intro sum_list_nonneg) (auto simp: list_all_iff group_footprint_nonneg)
  then have "0 \<le> geti (exp_Footprint Q e) k" for k
    by (simp add: exp_Footprint_def Let_def fp_Add_def geti_fold_groups NewFootprint_def add_nonneg_nonneg)
  then show ?thesis by (simp add: asks_for_def)
qed

lemma asks_nothing [simp]: "asks_for []"
  by (simp add: asks_for_def wf_map_def)

lemma sized_type [simp]: "sized (e\<lparr>ex_AcceleratorType := t\<rparr>) = sized e"
  by (simp add: sized_def)

lemma size_groups_replicas: "list_all (\<lambda>g. 0 \<le> jg_Replicas g) (size_groups Q e sizes nodes rank gs) = list_all (\<lambda>g. 0 \<le> jg_Replicas g) gs"
  by (induction gs arbitrary: rank) (auto simp: case_prod_unfold)

lemma size_groups_Nil [simp]: "size_groups Q e sizes nodes rank gs = [] \<longleftrightarrow> gs = []"
  by (cases gs) (auto simp: case_prod_unfold)

lemma ResolveOntoSlots_replicas:
  "ResolveOntoSlots Q e cluster sizes free labelsByNode = Inr job \<Longrightarrow> replicas_ok (ex_Job e) \<Longrightarrow> replicas_ok job"
  by (auto simp: ResolveOntoSlots_def Let_def replicas_ok_def NodeGroups_def Nodes_def size_groups_replicas split: sum.splits prod.splits if_splits)

lemma resolve_replicas:
  "resolveClusterLocalResources Q env ca e cluster a b c d = (Inr (Inr job), ca') \<Longrightarrow> replicas_ok (ex_Job e) \<Longrightarrow> replicas_ok job"
  using ResolveOntoSlots_replicas [of Q e cluster a c d]
  by (auto simp: resolveClusterLocalResources_def split: if_splits sum.splits prod.splits option.splits)

lemma pick_cluster_sized:
  assumes "pick_cluster Q c pinned queuedAt cands placed e = (placed', e')" and "sized e" and "asks_for (qp_fp placed)"
  shows "sized e' \<and> asks_for (qp_fp placed')"
  using assms
  by (auto simp: pick_cluster_def ClusterAndFootprint_def Let_def sized_asks split: if_splits list.splits option.splits prod.splits)

lemma cover_type_sized:
  assumes "cover_type Q rates c quota cands placed e = Inr (placed', e')" and "sized e" and "asks_for (qp_fp placed)"
  shows "sized e' \<and> asks_for (qp_fp placed')"
  using assms by (auto simp: cover_type_def Let_def sized_asks split: if_splits)

lemma place_loop_asks:
  "place_loop fuel Q rates env c quota pinned queuedAt cands misfits placed e ca = Some (PlacedAt qp, e', ca') \<Longrightarrow> sized e \<Longrightarrow> asks_for (qp_fp placed)
   \<Longrightarrow> asks_for (qp_fp qp)"
proof (induction fuel arbitrary: cands misfits placed e ca)
  case (Suc fuel)
  obtain placed1 e1 where p1: "pick_cluster Q c pinned queuedAt cands placed e = (placed1, e1)" by force
  from Suc.prems p1 obtain placed2 e2 where p2: "cover_type Q rates c quota cands placed1 e1 = Inr (placed2, e2)" by (auto split: sum.splits)
  have s: "sized e2" "asks_for (qp_fp placed2)"
    using pick_cluster_sized [OF p1 Suc.prems(2,3)] cover_type_sized [OF p2] by auto
  have "sized (e2\<lparr>ex_ResolvedJob := Some job\<rparr>)" if "replicas_ok job" for job using s(1) that by (simp add: sized_def)
  then have "asks_for (exp_Footprint Q (e2\<lparr>ex_ResolvedJob := Some job\<rparr>))"
    if "resolveClusterLocalResources Q env ca e2 cluster a b cc d = (Inr (Inr job), ca2)" for cluster a b cc d job ca2
    using resolve_replicas [OF that] s(1) sized_asks by (simp add: sized_def)
  with Suc.prems(1) s Suc.IH show ?case
    by (auto simp: p1 p2 Let_def split: if_splits prod.splits sum.splits)
qed simp

lemma placeQueued_asks:
  "placeQueued fuel Q rates env ttl c quota avail e ca = Some (PlacedAt qp, e', ca') \<Longrightarrow> sized e \<Longrightarrow> asks_for (qp_fp qp)"
  using place_loop_asks sized_asks by (auto simp: placeQueued_def Let_def split: sum.splits if_splits)

lemma place_queued_asks:
  assumes "sized e" and "place_queued l env avail quota e t = (Some (placed, e'), t')"
  shows "asks_for (qp_fp placed)"
proof -
  let ?p = "placeQueued (length avail + 1) (lp_Q l) (lp_rates l) (te_resolve env) (lp_triedClusterTTL l) (ts_clusters t) quota avail e (ts_cache t)"
  obtain ca where "?p = Some (PlacedAt placed, e', ca)"
    using assms(2) by (auto simp: place_queued_def split: option.splits place_outcome.splits prod.splits)
  from placeQueued_asks [OF this assms(1)] show ?thesis .
qed

subsection \<open>What is claimed\<close>

definition claimed_on :: "string \<Rightarrow> ResourceKey \<Rightarrow> tick_event \<Rightarrow> int" where
  "claimed_on c k ev = (case ev of Admitted tier i cluster fp \<Rightarrow> if cluster = c then geti fp k else 0 | _ \<Rightarrow> 0)"

definition claimed :: "tickState \<Rightarrow> string \<Rightarrow> ResourceKey \<Rightarrow> int" where
  "claimed t c k = sum_list (map (claimed_on c k) (ts_history t))"

definition looked :: "tickState \<Rightarrow> string \<Rightarrow> nat" where
  "looked t c = length (filter (\<lambda>ev. \<exists>i. ev = Balanced i c) (ts_history t))"

text \<open>Steps that claim nothing, keep nothing free and do not look for stranded accelerators.\<close>

definition idle :: "tickState \<Rightarrow> tickState \<Rightarrow> bool" where
  "idle t t' \<longleftrightarrow> ts_gAvail t' = ts_gAvail t \<and> ts_bAvail t' = ts_bAvail t \<and> ts_disbalanceRan t' = ts_disbalanceRan t
     \<and> claimed t' = claimed t \<and> looked t' = looked t"

lemma idle_refl [simp]: "idle t t"
  by (simp add: idle_def)

lemma idle_trans: "idle a b \<Longrightarrow> idle b c \<Longrightarrow> idle a c"
  by (simp add: idle_def)

lemma idle_same:
  "ts_history t' = ts_history t \<Longrightarrow> ts_gAvail t' = ts_gAvail t \<Longrightarrow> ts_bAvail t' = ts_bAvail t \<Longrightarrow> ts_disbalanceRan t' = ts_disbalanceRan t
   \<Longrightarrow> idle t t'"
  by (simp add: idle_def fun_eq_iff claimed_def looked_def)

lemma claimed_note: "claimed (note_event ev t) c k = claimed t c k + claimed_on c k ev"
  by (simp add: claimed_def note_event_def)

lemma looked_note: "looked (note_event ev t) c = looked t c + (if \<exists>i. ev = Balanced i c then 1 else 0)"
  by (simp add: looked_def note_event_def)

lemma idle_event:
  "(\<And>c k. claimed_on c k ev = 0) \<Longrightarrow> (\<And>i c. ev \<noteq> Balanced i c) \<Longrightarrow> idle t (note_event ev t)"
  by (simp add: idle_def fun_eq_iff claimed_note looked_note) (simp add: note_event_def)

lemma idle_skip [simp]: "idle t (skipExperiment i err t)"
  by (rule idle_same) (simp_all add: skipExperiment_def)

lemma idle_cached: "idle t (t\<lparr>ts_cache := ca\<rparr>)"
  by (rule idle_same) simp_all

lemma idle_world: "idle t (t\<lparr>ts_world := w\<rparr>)"
  by (rule idle_same) simp_all

lemma idle_mark: "idle t (mark env i r t)"
proof -
  have "idle (t\<lparr>ts_world := w\<rparr>) (note_event (Marked i r) (t\<lparr>ts_world := w\<rparr>))" for w
    by (rule idle_event) (simp_all add: claimed_on_def)
  from idle_trans [OF idle_world this] idle_trans [OF idle_world idle_skip] show ?thesis
    by (auto simp: mark_def Let_def split: prod.split)
qed

lemma ask_fields [simp]:
  "ts_history (snd (ask f t)) = ts_history t" "ts_gAvail (snd (ask f t)) = ts_gAvail t" "ts_bAvail (snd (ask f t)) = ts_bAvail t"
  "ts_disbalanceRan (snd (ask f t)) = ts_disbalanceRan t"
  by (simp_all add: ask_def case_prod_unfold)

lemma idle_ask: "idle t (snd (ask f t))"
  by (rule idle_same) simp_all

lemma idle_submit: "idle t (snd (snd (submit_to l env e cluster clusterID persisted speculative provenFit t)))"
  by (rule idle_same) (simp_all add: submit_to_def case_prod_unfold)

lemma idle_bet: "idle t (note_event (Bet i cluster n) (t\<lparr>ts_speculativeFootprint := footprint\<rparr>))"
proof (rule idle_trans)
  show "idle t (t\<lparr>ts_speculativeFootprint := footprint\<rparr>)" by (rule idle_same) simp_all
qed (rule idle_event, simp_all add: claimed_on_def)

lemma idle_preempt: "idle t (snd (preempt_on l env cluster running e t))"
proof -
  have one: "idle (snd nt) (snd (requeue_victim env i running victim nt))" for i victim nt
    using idle_ask idle_same
    by (auto simp: requeue_victim_def case_prod_unfold split: option.split bool.split)
  have all: "idle (snd nt) (snd (fold (requeue_victim env i running) victims nt))" for i victims nt
  proof (induction victims arbitrary: nt)
    case (Cons v victims)
    show ?case using idle_trans [OF one Cons.IH] by simp
  qed simp
  have "idle t' (note_event (Requeued i cluster ids) t')" for t' i ids by (rule idle_event) (simp_all add: claimed_on_def)
  then show ?thesis
    unfolding preempt_on_def Let_def
    by (simp add: case_prod_unfold split: option.split) (metis all idle_trans snd_conv)
qed

lemma idle_disbalance_on: "idle t (snd (disbalance_on l env cluster views fp e t))"
proof -
  have evictions: "idle t (fold (evict_victim l env i c nodeAvail) victims t)" for t i c nodeAvail victims
  proof (induction victims arbitrary: t)
    case (Cons v victims)
    have "idle t (evict_victim l env i c nodeAvail v t)" by (rule idle_same) (simp_all add: evict_victim_def case_prod_unfold)
    from idle_trans [OF this Cons.IH] show ?case by simp
  qed simp
  show ?thesis
    using idle_ask idle_trans [OF idle_ask evictions]
    by (auto simp: disbalance_on_def Let_def case_prod_unfold split: option.split sum.split)
qed

lemma idle_finish: "idle t (finishTick l env t)"
  by (rule idle_same) (simp_all add: finishTick_def case_prod_unfold split: option.split)


subsection \<open>Within what was free\<close>

abbreviation free :: "(string, Footprint) gomap \<Rightarrow> string \<Rightarrow> ResourceKey \<Rightarrow> int" where
  "free view c k \<equiv> geti (mget [] view c) k"

text \<open>A footprint is taken off one cluster, no amount of it below nothing.\<close>

lemma free_sub_view:
  assumes "asks_for fp"
  shows "free (sub_view cluster fp view) c k =
     (if c = cluster \<and> map_of view cluster \<noteq> None \<and> k \<in> set (keys fp) then max 0 (free view c k - geti fp k) else free view c k)"
proof (cases "map_of view cluster")
  case (Some a)
  then obtain f where f: "SubtractFootprint (Some a) fp = Some f" by (simp add: SubtractFootprint_def)
  have "geti f k = (if k \<in> set (keys fp) then max 0 (geti a k - geti fp k) else geti a k)"
    using geti_SubtractFootprint [OF _ f] assms by (simp add: asks_for_def)
  moreover have "mget [] view cluster = a" using Some by (simp add: mget_def)
  ultimately show ?thesis using Some f by (simp add: sub_view_def)
qed (simp add: sub_view_def SubtractFootprint_def)

lemma sub_view_less: "asks_for fp \<Longrightarrow> max 0 (free (sub_view cluster fp view) c k) \<le> max 0 (free view c k)"
  by (auto simp: free_sub_view asks_for_def) (smt (verit))

lemma sub_view_fits:
  assumes "asks_for fp" and "Fits (mget [] view cluster) fp"
  shows "max 0 (free (sub_view cluster fp view) c k) + (if cluster = c then geti fp k else 0) \<le> max 0 (free view c k)"
proof (cases "k \<in> set (keys fp)")
  case True
  then have "geti fp k \<le> 0 \<or> geti fp k \<le> free view cluster k"
    using assms(2) mget_entry by (fastforce simp: Fits_def list_all_iff)
  moreover have "free view cluster k = 0" if "map_of view cluster = None" using that by (simp add: mget_def)
  moreover have "0 \<le> geti fp k" using assms(1) by (simp add: asks_for_def)
  ultimately show ?thesis using True assms(1) by (auto simp: free_sub_view)
next
  case False
  then show ?thesis using assms(1) by (simp add: free_sub_view mget_absent)
qed

lemma sub_view_order:
  assumes "asks_for fp" and "max 0 (free view c k) \<le> max 0 (free view' c k)"
  shows "max 0 (free (sub_view cluster fp view) c k) \<le> max 0 (free (sub_view cluster fp view') c k)"
proof -
  have "free view' cluster k = 0" if "map_of view' cluster = None" using that by (simp add: mget_def)
  moreover have "free view cluster k = 0" if "map_of view cluster = None" using that by (simp add: mget_def)
  moreover have "0 \<le> geti fp k" using assms(1) by (simp add: asks_for_def)
  ultimately show ?thesis using assms by (auto simp: free_sub_view)
qed

text \<open>
  Through the guaranteed pass the burst view shows no more than the guaranteed one; through the burst pass its own view is what is left.
\<close>

definition in_bounds_guaranteed :: "(string \<Rightarrow> ResourceKey \<Rightarrow> int) \<Rightarrow> tickState \<Rightarrow> bool" where
  "in_bounds_guaranteed start t \<longleftrightarrow> (\<forall>c k. max 0 (free (ts_bAvail t) c k) \<le> max 0 (free (ts_gAvail t) c k)
     \<and> max 0 (free (ts_gAvail t) c k) + claimed t c k \<le> start c k)"

definition in_bounds :: "(string \<Rightarrow> ResourceKey \<Rightarrow> int) \<Rightarrow> tickState \<Rightarrow> bool" where
  "in_bounds start t \<longleftrightarrow> (\<forall>c k. max 0 (free (ts_bAvail t) c k) + claimed t c k \<le> start c k)"

lemma in_bounds_both: "in_bounds_guaranteed start t \<Longrightarrow> in_bounds start t"
  unfolding in_bounds_guaranteed_def in_bounds_def by (smt (verit))

definition stays :: "((string \<Rightarrow> ResourceKey \<Rightarrow> int) \<Rightarrow> tickState \<Rightarrow> bool) \<Rightarrow> tickState \<Rightarrow> tickState \<Rightarrow> bool" where
  "stays P t t' \<longleftrightarrow> (\<forall>start. P start t \<longrightarrow> P start t')"

lemma stays_trans: "stays P a b \<Longrightarrow> stays P b c \<Longrightarrow> stays P a c"
  by (simp add: stays_def)

lemma stays_refl: "stays P t t"
  by (simp add: stays_def)

lemma idle_in_bounds: "idle t t' \<Longrightarrow> stays in_bounds t t'" "idle t t' \<Longrightarrow> stays in_bounds_guaranteed t t'"
  by (simp_all add: stays_def in_bounds_def in_bounds_guaranteed_def idle_def)

lemma idle_claim_nodes: "idle t (claim_nodes l cluster e t)"
  by (rule idle_same) (simp_all add: claim_nodes_def Let_def case_prod_unfold)

lemma admit_cases:
  obtains "idle t (admit l env tier e cluster persisted fp t)"
  | "ts_gAvail (admit l env tier e cluster persisted fp t) = ts_gAvail (claim_views tier cluster fp t)"
      "ts_bAvail (admit l env tier e cluster persisted fp t) = ts_bAvail (claim_views tier cluster fp t)"
      "ts_disbalanceRan (admit l env tier e cluster persisted fp t) = ts_disbalanceRan t"
      "\<And>c k. claimed (admit l env tier e cluster persisted fp t) c k = claimed t c k + (if cluster = c then geti fp k else 0)"
      "looked (admit l env tier e cluster persisted fp t) = looked t"
proof -
  let ?s = "submit_to l env e cluster [] persisted False False t" let ?t = "snd (snd ?s)"
  have sub: "idle t ?t" by (rule idle_submit)
  show ?thesis
  proof (cases "fst ?s")
    case (Some err)
    have "idle t (mark env i r ?t)" for i r by (rule idle_trans [OF sub idle_mark])
    with Some that(1) show ?thesis by (simp add: admit_def case_prod_unfold)
  next
    case None
    let ?e = "fst (snd ?s)"
    have c: "idle (claim_views tier cluster fp ?t) (claim_nodes l cluster ?e (claim_views tier cluster fp ?t))" by (rule idle_claim_nodes)
    have v: "claimed (claim_views tier cluster fp ?t) = claimed t" "looked (claim_views tier cluster fp ?t) = looked t"
      "ts_disbalanceRan (claim_views tier cluster fp ?t) = ts_disbalanceRan t"
      "ts_gAvail (claim_views tier cluster fp ?t) = ts_gAvail (claim_views tier cluster fp t)"
      "ts_bAvail (claim_views tier cluster fp ?t) = ts_bAvail (claim_views tier cluster fp t)"
      using sub by (auto simp: claim_views_def idle_def fun_eq_iff claimed_def looked_def)
    have a: "admit l env tier e cluster persisted fp t
        = note_event (Admitted tier (ex_ID e) cluster fp) (claim_nodes l cluster ?e (claim_views tier cluster fp ?t))"
      using None by (simp add: admit_def case_prod_unfold)
    show ?thesis
    proof (rule that(2))
      show "looked (admit l env tier e cluster persisted fp t) = looked t"
        using c v by (auto simp: a fun_eq_iff looked_note idle_def)
    qed (use c v in \<open>simp_all add: a claimed_note claimed_on_def idle_def\<close>, simp_all add: note_event_def)
  qed
qed


lemma admit_guaranteed_stays:
  assumes "asks_for fp" and "Fits (mget [] (ts_gAvail t) cluster) fp"
  shows "stays in_bounds_guaranteed t (admit l env CapacityGuaranteed e cluster persisted fp t)"
proof (rule admit_cases [of t l env CapacityGuaranteed e cluster persisted fp])
  assume f: "ts_gAvail (admit l env CapacityGuaranteed e cluster persisted fp t) = ts_gAvail (claim_views CapacityGuaranteed cluster fp t)"
      "ts_bAvail (admit l env CapacityGuaranteed e cluster persisted fp t) = ts_bAvail (claim_views CapacityGuaranteed cluster fp t)"
      "\<And>c k. claimed (admit l env CapacityGuaranteed e cluster persisted fp t) c k = claimed t c k + (if cluster = c then geti fp k else 0)"
  show ?thesis
    unfolding stays_def in_bounds_guaranteed_def
  proof (intro allI impI conjI)
    fix start c k
    assume i: "\<forall>c k. max 0 (free (ts_bAvail t) c k) \<le> max 0 (free (ts_gAvail t) c k) \<and> max 0 (free (ts_gAvail t) c k) + claimed t c k \<le> start c k"
    then have i: "max 0 (free (ts_bAvail t) c k) \<le> max 0 (free (ts_gAvail t) c k)" "max 0 (free (ts_gAvail t) c k) + claimed t c k \<le> start c k"
      by blast+
    show "max 0 (free (ts_bAvail (admit l env CapacityGuaranteed e cluster persisted fp t)) c k)
        \<le> max 0 (free (ts_gAvail (admit l env CapacityGuaranteed e cluster persisted fp t)) c k)"
      using sub_view_order [OF assms(1) i(1)] by (simp add: f claim_views_def)
    show "max 0 (free (ts_gAvail (admit l env CapacityGuaranteed e cluster persisted fp t)) c k)
        + claimed (admit l env CapacityGuaranteed e cluster persisted fp t) c k \<le> start c k"
      using sub_view_fits [OF assms, of c k] i(2) by (simp add: f claim_views_def)
  qed
qed (rule idle_in_bounds)

lemma admit_burst_stays:
  assumes "asks_for fp" and "Fits (mget [] (ts_bAvail t) cluster) fp"
  shows "stays in_bounds t (admit l env CapacityBurst e cluster persisted fp t)"
proof (rule admit_cases [of t l env CapacityBurst e cluster persisted fp])
  assume f: "ts_bAvail (admit l env CapacityBurst e cluster persisted fp t) = ts_bAvail (claim_views CapacityBurst cluster fp t)"
      "\<And>c k. claimed (admit l env CapacityBurst e cluster persisted fp t) c k = claimed t c k + (if cluster = c then geti fp k else 0)"
  show ?thesis
    unfolding stays_def in_bounds_def
  proof (intro allI impI)
    fix start c k
    assume i: "\<forall>c k. max 0 (free (ts_bAvail t) c k) + claimed t c k \<le> start c k"
    show "max 0 (free (ts_bAvail (admit l env CapacityBurst e cluster persisted fp t)) c k)
        + claimed (admit l env CapacityBurst e cluster persisted fp t) c k \<le> start c k"
      using sub_view_fits [OF assms, of c k] i [THEN spec, THEN spec, of c k] by (simp add: f claim_views_def)
  qed
qed (rule idle_in_bounds)

text \<open>Room that is held, or kept from the burst jobs.\<close>

lemma holdRoom_result:
  "holdRoom Q notice e cluster fp c held views = (held', views') \<Longrightarrow> held' = held \<or> views' = map (sub_view cluster fp) views"
  unfolding holdRoom_def Let_def sub_view_def by (simp split: option.splits if_splits)

lemma hold_room_cases:
  obtains "hold_room l tier cluster fp e t = t"
  | held where "hold_room l tier cluster fp e t = note_event (Kept cluster fp)
       (if tier = CapacityGuaranteed then t\<lparr>ts_held := held, ts_gAvail := sub_view cluster fp (ts_gAvail t), ts_bAvail := sub_view cluster fp (ts_bAvail t)\<rparr>
        else t\<lparr>ts_held := held, ts_bAvail := sub_view cluster fp (ts_bAvail t)\<rparr>)"
proof -
  let ?views = "if tier = CapacityGuaranteed then [ts_gAvail t, ts_bAvail t] else [ts_bAvail t]"
  obtain held views where h: "holdRoom (lp_Q l) (lp_heldJobNotice l) e cluster fp (ts_clusters t) (ts_held t) ?views = (held, views)" by force
  consider "held = ts_held t" | "held \<noteq> ts_held t" "views = map (sub_view cluster fp) ?views" using holdRoom_result [OF h] by blast
  then show ?thesis
  proof cases
    case 1
    with h that(1) show ?thesis by (simp add: hold_room_def)
  next
    case 2
    with h that(2) [of held] show ?thesis by (simp add: hold_room_def split: if_splits)
  qed
qed

lemma kept_looked:
  "claimed (note_event (Kept cluster fp) t) = claimed t" "looked (note_event (Kept cluster fp) t) = looked t"
  by (simp_all add: fun_eq_iff claimed_note looked_note claimed_on_def)

lemma claimed_views [simp]:
  "claimed (t\<lparr>ts_held := h\<rparr>) = claimed t" "claimed (t\<lparr>ts_gAvail := g\<rparr>) = claimed t" "claimed (t\<lparr>ts_bAvail := b\<rparr>) = claimed t"
  by (simp_all add: fun_eq_iff claimed_def)

lemma hold_room_stays:
  assumes "asks_for fp"
  shows "stays in_bounds_guaranteed t (hold_room l CapacityGuaranteed cluster fp e t)" "stays in_bounds t (hold_room l CapacityBurst cluster fp e t)"
proof -
  note less = sub_view_less [OF assms] and order = sub_view_order [OF assms]
  show "stays in_bounds_guaranteed t (hold_room l CapacityGuaranteed cluster fp e t)"
  proof (rule hold_room_cases [of l CapacityGuaranteed cluster fp e t])
    fix held
    assume h: "hold_room l CapacityGuaranteed cluster fp e t = note_event (Kept cluster fp)
       (if CapacityGuaranteed = CapacityGuaranteed then t\<lparr>ts_held := held, ts_gAvail := sub_view cluster fp (ts_gAvail t), ts_bAvail := sub_view cluster fp (ts_bAvail t)\<rparr>
        else t\<lparr>ts_held := held, ts_bAvail := sub_view cluster fp (ts_bAvail t)\<rparr>)"
    have f: "ts_gAvail (hold_room l CapacityGuaranteed cluster fp e t) = sub_view cluster fp (ts_gAvail t)"
      "ts_bAvail (hold_room l CapacityGuaranteed cluster fp e t) = sub_view cluster fp (ts_bAvail t)"
      "claimed (hold_room l CapacityGuaranteed cluster fp e t) = claimed t"
      unfolding h kept_looked by (simp_all add: note_event_def)
    show ?thesis
      unfolding stays_def in_bounds_guaranteed_def f using order less by (meson add_mono_thms_linordered_semiring(3) order_trans)
  qed (simp add: stays_refl)
  show "stays in_bounds t (hold_room l CapacityBurst cluster fp e t)"
  proof (rule hold_room_cases [of l CapacityBurst cluster fp e t])
    fix held
    assume h: "hold_room l CapacityBurst cluster fp e t = note_event (Kept cluster fp)
       (if CapacityBurst = CapacityGuaranteed then t\<lparr>ts_held := held, ts_gAvail := sub_view cluster fp (ts_gAvail t), ts_bAvail := sub_view cluster fp (ts_bAvail t)\<rparr>
        else t\<lparr>ts_held := held, ts_bAvail := sub_view cluster fp (ts_bAvail t)\<rparr>)"
    have f: "ts_bAvail (hold_room l CapacityBurst cluster fp e t) = sub_view cluster fp (ts_bAvail t)"
      "claimed (hold_room l CapacityBurst cluster fp e t) = claimed t"
      unfolding h kept_looked by (simp_all add: note_event_def)
    show ?thesis
      unfolding stays_def in_bounds_def f using less by (meson add_mono_thms_linordered_semiring(3) order_trans)
  qed (simp add: stays_refl)
qed

lemma keep_stays:
  assumes "asks_for fp"
  shows "stays in_bounds_guaranteed t (keep_from_burst cluster fp t)"
proof -
  have f: "ts_gAvail (keep_from_burst cluster fp t) = ts_gAvail t" "ts_bAvail (keep_from_burst cluster fp t) = sub_view cluster fp (ts_bAvail t)"
      "claimed (keep_from_burst cluster fp t) = claimed t"
    unfolding keep_from_burst_def kept_looked by (simp_all add: note_event_def)
  show ?thesis
    unfolding stays_def in_bounds_guaranteed_def f using sub_view_less [OF assms] by (meson order_trans)
qed

lemma claimed_ran [simp]: "claimed (t\<lparr>ts_disbalanceRan := rs\<rparr>) = claimed t" "looked (t\<lparr>ts_disbalanceRan := rs\<rparr>) = looked t"
  by (simp_all add: fun_eq_iff claimed_def looked_def)

text \<open>A look for stranded accelerators claims nothing, and is counted.\<close>

lemma disbalance_once_fields:
  "ts_gAvail (disbalance_once l env cluster views fp e t) = ts_gAvail t" "ts_bAvail (disbalance_once l env cluster views fp e t) = ts_bAvail t"
  "claimed (disbalance_once l env cluster views fp e t) = claimed t"
  "ts_disbalanceRan (disbalance_once l env cluster views fp e t) = (if cluster \<in> set (ts_disbalanceRan t) then ts_disbalanceRan t else cluster # ts_disbalanceRan t)"
  "looked (disbalance_once l env cluster views fp e t) c = looked t c + (if c = cluster \<and> cluster \<notin> set (ts_disbalanceRan t) then 1 else 0)"
proof -
  let ?t = "note_event (Balanced (ex_ID e) cluster) (t\<lparr>ts_disbalanceRan := cluster # ts_disbalanceRan t\<rparr>)"
  have "idle ?t (snd (disbalance_on l env cluster views fp e ?t))" by (rule idle_disbalance_on)
  moreover from this have "idle ?t (skipExperiment i err (snd (disbalance_on l env cluster views fp e ?t)))" for i err by (rule idle_trans) simp
  ultimately have i: "cluster \<notin> set (ts_disbalanceRan t) \<Longrightarrow> idle ?t (disbalance_once l env cluster views fp e t)"
    by (simp add: disbalance_once_def case_prod_unfold split: option.split)
  have f: "ts_gAvail ?t = ts_gAvail t" "ts_bAvail ?t = ts_bAvail t" "claimed ?t = claimed t" "ts_disbalanceRan ?t = cluster # ts_disbalanceRan t"
    "looked ?t c = looked t c + (if c = cluster then 1 else 0)"
    by (simp_all add: fun_eq_iff claimed_note looked_note claimed_on_def) (simp_all add: note_event_def)
  show "ts_gAvail (disbalance_once l env cluster views fp e t) = ts_gAvail t" "ts_bAvail (disbalance_once l env cluster views fp e t) = ts_bAvail t"
    "claimed (disbalance_once l env cluster views fp e t) = claimed t"
    "ts_disbalanceRan (disbalance_once l env cluster views fp e t) = (if cluster \<in> set (ts_disbalanceRan t) then ts_disbalanceRan t else cluster # ts_disbalanceRan t)"
    "looked (disbalance_once l env cluster views fp e t) c = looked t c + (if c = cluster \<and> cluster \<notin> set (ts_disbalanceRan t) then 1 else 0)"
    using i f by (cases "cluster \<in> set (ts_disbalanceRan t)"; simp add: disbalance_once_def idle_def)+
qed

lemma disbalance_stays:
  "stays in_bounds_guaranteed t (disbalance_once l env cluster views fp e t)" "stays in_bounds t (disbalance_once l env cluster views fp e t)"
  by (simp_all add: stays_def in_bounds_guaranteed_def in_bounds_def disbalance_once_fields)

lemma idle_free: "idle t (t\<lparr>ts_desiredFree := desired\<rparr>)" "idle t (t\<lparr>ts_said := said, ts_completion := completion\<rparr>)"
  by (rule idle_same; simp)+

lemmas idle_steps = idle_cached idle_skip idle_mark idle_ask idle_submit idle_bet idle_preempt idle_free idle_finish

interpretation guaranteed_bounds: guaranteed_law env "stays in_bounds_guaranteed" l sized asks_for for env l
  by unfold_locales
    (auto intro: stays_trans stays_refl idle_in_bounds place_queued_asks admit_guaranteed_stays hold_room_stays keep_stays disbalance_stays
      idle_steps)

interpretation burst_bounds: burst_law env "stays in_bounds" l sized asks_for for env l
  by unfold_locales
    (auto intro: stays_trans stays_refl idle_in_bounds place_queued_asks admit_burst_stays hold_room_stays disbalance_stays idle_steps)


lemma run_passes_in_bounds:
  assumes "\<forall>x \<in> set rows. sized (jr_job x)" and "ts_history t = []" and "ts_bAvail t = ts_gAvail t"
  shows "claimed (run_passes l env rows t) c k \<le> max 0 (free (ts_gAvail t) c k)"
proof -
  let ?start = "\<lambda>c k. max 0 (free (ts_gAvail t) c k)"
  let ?t = "t\<lparr>ts_said := map (\<lambda>x. (ex_ID (jr_job x), coalesce (jr_NotAdmittedReason x))) rows,
     ts_completion := completionFractions (te_observed env []) (map jr_job rows)\<rparr>"
  obtain queued t' where a: "admissible env [] [] (map jr_job rows) ?t = (queued, t')" by force
  have q: "\<forall>e \<in> set queued. sized e" using admissible_subset [OF a] assms(1) by auto
  have "in_bounds_guaranteed ?start t"
    using assms(2,3) by (simp add: in_bounds_guaranteed_def claimed_def)
  then have "in_bounds_guaranteed ?start ?t"
    using idle_in_bounds(2) [OF idle_free(2)] by (simp add: stays_def)
  then have "in_bounds_guaranteed ?start t'"
    using guaranteed_bounds.admissible_law [of ?t env "[]" "[]" "map jr_job rows"] a by (simp add: stays_def)
  then have "in_bounds_guaranteed ?start (guaranteedPass l env queued t')"
    using guaranteed_bounds.guaranteedPass_law [OF q] unfolding stays_def by blast
  then have "in_bounds ?start (burstPass l env queued (guaranteedPass l env queued t'))"
    using burst_bounds.burstPass_law [OF q] in_bounds_both unfolding stays_def by blast
  then have "in_bounds ?start (run_passes l env rows t)"
    using idle_in_bounds(1) [OF idle_finish] by (simp add: stays_def run_passes_def Let_def a)
  then have "max 0 (free (ts_bAvail (run_passes l env rows t)) c k) + claimed (run_passes l env rows t) c k \<le> max 0 (free (ts_gAvail t) c k)"
    by (simp add: in_bounds_def)
  then show ?thesis by linarith
qed

subsection \<open>Looked for once\<close>

definition each_once :: "tickState \<Rightarrow> bool" where
  "each_once t \<longleftrightarrow> (\<forall>c. looked t c = (if c \<in> set (ts_disbalanceRan t) then 1 else 0))"

lemma idle_once: "idle t t' \<Longrightarrow> each_once t \<longrightarrow> each_once t'"
  by (simp add: idle_def each_once_def)

lemma claims_once:
  "each_once t \<longrightarrow> each_once (admit l env tier e cluster persisted fp t)"
  "each_once t \<longrightarrow> each_once (hold_room l tier cluster fp e t)"
  "each_once t \<longrightarrow> each_once (keep_from_burst cluster fp t)"
  "each_once t \<longrightarrow> each_once (disbalance_once l env cluster views fp e t)"
proof -
  show "each_once t \<longrightarrow> each_once (admit l env tier e cluster persisted fp t)"
    by (rule admit_cases [of t l env tier e cluster persisted fp]) (rule idle_once, assumption, simp add: each_once_def)
  have kept: "each_once (note_event (Kept cluster fp) (t\<lparr>ts_held := held, ts_gAvail := g, ts_bAvail := b\<rparr>)) = each_once t"
    "each_once (note_event (Kept cluster fp) (t\<lparr>ts_held := held, ts_bAvail := b\<rparr>)) = each_once t"
    "each_once (note_event (Kept cluster fp) (t\<lparr>ts_bAvail := b\<rparr>)) = each_once t" for held g b
    by (simp_all add: each_once_def looked_def note_event_def)
  show "each_once t \<longrightarrow> each_once (hold_room l tier cluster fp e t)"
    by (rule hold_room_cases [of l tier cluster fp e t]) (simp_all add: kept split: if_split)
  show "each_once t \<longrightarrow> each_once (keep_from_burst cluster fp t)" by (simp add: keep_from_burst_def kept)
  show "each_once t \<longrightarrow> each_once (disbalance_once l env cluster views fp e t)"
    by (auto simp: each_once_def disbalance_once_fields)
qed

interpretation looking: passes_law env "\<lambda>t t'. each_once t \<longrightarrow> each_once t'" l "\<lambda>_. True" "\<lambda>_. True" for env l
  by unfold_locales
    (simp_all add: claims_once [THEN mp] idle_steps [THEN idle_once, THEN mp])

subsection \<open>The start of a tick\<close>

lemma CloneAvail_same [simp]: "CloneAvail avail = avail"
  by (simp add: CloneAvail_def case_prod_unfold)

lemma credit_same:
  assumes "tc_bAvail cap = tc_gAvail cap" and "applyPendingEvictions now ttl pending cap = (pending', cap')"
  shows "tc_bAvail cap' = tc_gAvail cap'"
proof -
  have "tc_bAvail (snd (fold (apply_pending now ttl) es pc)) = tc_gAvail (snd (fold (apply_pending now ttl) es pc))"
    if "tc_bAvail (snd pc) = tc_gAvail (snd pc)" for es pc
    using that by (induction es arbitrary: pc) (auto simp: apply_pending_def case_prod_unfold)
  from this [of "(pending, cap)" pending] assms show ?thesis by (simp add: applyPendingEvictions_def)
qed

lemma start_agrees:
  assumes "readTickState env pending u w = (Some t0, w1)"
  shows "ts_history (snapshotTickStart (credit_pending l t0)) = []" (is "?a")
    and "ts_bAvail (snapshotTickStart (credit_pending l t0)) = ts_gAvail (snapshotTickStart (credit_pending l t0))" (is "?b")
    and "ts_disbalanceRan (snapshotTickStart (credit_pending l t0)) = []" (is "?c")
proof -
  have t0: "ts_history t0 = []" "ts_bAvail t0 = ts_gAvail t0" "ts_disbalanceRan t0 = []"
    using assms by (auto simp: readTickState_def Let_def split: option.splits prod.splits)
  obtain p cap where c: "applyPendingEvictions (tk_start (ts_clusters t0)) (lp_evictionTTL l) (ts_pending t0)
      \<lparr>tc_gAvail = ts_gAvail t0, tc_bAvail = ts_bAvail t0, tc_nodeAvail = tk_nodeAvail (ts_clusters t0), tc_nodeRes = tk_nodeRes (ts_clusters t0)\<rparr> = (p, cap)"
    by force
  have "tc_bAvail cap = tc_gAvail cap" using credit_same [OF _ c] t0 by simp
  then show ?a ?b ?c using t0 by (simp_all add: snapshotTickStart_def credit_pending_def Let_def c [unfolded t0(2)])
qed


subsection \<open>The whole tick\<close>

text \<open>C17: no tick overbooks a cluster. Of every resource of every cluster, the jobs a tick admits there, the guaranteed and the burst ones
  together, take no more than was free there when its passes began, whatever it bets, preempts, holds room for or evicts on the way and
  whatever other processes do meanwhile. The jobs it read ask for no negative number of nodes.\<close>

theorem tick_never_overbooks:
  assumes "readTickState env pending u w = (Some t0, w1)"
    and "ask ListQueuedExperiments (snapshotTickStart (credit_pending l t0)) = (Some rows, t)"
    and "\<forall>x \<in> set rows. sized (jr_job x)"
  shows "tick_passes l env (pending, u, w) = Inr (run_passes l env rows t)
     \<and> claimed (run_passes l env rows t) c k \<le> max 0 (free (ts_gAvail (snapshotTickStart (credit_pending l t0))) c k)"
proof
  let ?t = "snapshotTickStart (credit_pending l t0)"
  show "tick_passes l env (pending, u, w) = Inr (run_passes l env rows t)"
    using assms(1,2) by (simp add: tick_passes_def)
  have "t = snd (ask ListQueuedExperiments ?t)" using assms(2) by simp
  with start_agrees [OF assms(1), of l] have "ts_history t = []" "ts_bAvail t = ts_gAvail t" "ts_gAvail t = ts_gAvail ?t" by simp_all
  with run_passes_in_bounds [OF assms(3) this(1,2)] show "claimed (run_passes l env rows t) c k \<le> max 0 (free (ts_gAvail ?t) c k)" by metis
qed

theorem tick_never_overbooks_witness:
  "\<exists>rows t. ask ListQueuedExperiments sample_tick_start = (Some rows, t) \<and> rows \<noteq> []
     \<and> tick_passes sample_loop sample_tick_env ([], [], sample_quiet) = Inr (run_passes sample_loop sample_tick_env rows t)
     \<and> claimed (run_passes sample_loop sample_tick_env rows t) ''near'' (ResourceKey ResourceKindAccelerator ''nvidia.com/gpu.product=A100'') \<le> 3"
proof -
  let ?k = "ResourceKey ResourceKindAccelerator ''nvidia.com/gpu.product=A100''"
  have "fst sample_read \<noteq> None" by code_simp
  then obtain t0 w1 where r: "readTickState sample_tick_env [] [] sample_quiet = (Some t0, w1)"
    unfolding sample_read_def by (metis option.exhaust prod.collapse)
  then have t0: "snapshotTickStart (credit_pending sample_loop t0) = sample_tick_start" by (simp add: sample_tick_start_def sample_read_def)
  have some: "case fst (ask ListQueuedExperiments sample_tick_start) of None \<Rightarrow> False
      | Some rows \<Rightarrow> rows \<noteq> [] \<and> list_all (\<lambda>x. sized (jr_job x)) rows" by code_simp
  obtain rows t where q: "ask ListQueuedExperiments sample_tick_start = (Some rows, t)"
    using some by (metis option.case_eq_if option.collapse prod.collapse)
  have start: "max 0 (free (ts_gAvail sample_tick_start) ''near'' ?k) = 3" by code_simp
  have rows: "rows \<noteq> []" "\<forall>x \<in> set rows. sized (jr_job x)" using some by (simp_all add: q list_all_iff)
  from tick_never_overbooks [OF r, of sample_loop, unfolded t0, OF q rows(2), of "''near''" ?k] q rows(1) show ?thesis
    unfolding start by blast
qed

text \<open>C20: a tick looks at most once on each cluster for jobs that strand accelerators, however many jobs wait for it.\<close>

theorem tick_looks_once:
  "case tick_passes l env st of Inl _ \<Rightarrow> True | Inr t \<Rightarrow> looked t c \<le> 1"
proof -
  obtain pending u w where st: "st = (pending, u, w)" by (metis prod_cases3)
  obtain res w1 where r: "readTickState env pending u w = (res, w1)" by force
  show ?thesis
  proof (cases res)
    case None
    with r show ?thesis by (simp add: st tick_passes_def)
  next
    case (Some t0)
    let ?t = "snapshotTickStart (credit_pending l t0)"
    have "each_once ?t" using start_agrees [OF r [unfolded Some], of l] by (simp add: each_once_def looked_def)
    then have "each_once (snd (ask ListQueuedExperiments ?t))" by (rule idle_once [OF idle_ask, THEN mp])
    then have "each_once (run_passes l env rows (snd (ask ListQueuedExperiments ?t)))" for rows
      using looking.run_passes_law [OF ballI [OF TrueI]] by blast
    then have "looked (run_passes l env rows (snd (ask ListQueuedExperiments ?t))) c \<le> 1" for rows by (simp add: each_once_def)
    with r Some show ?thesis by (simp add: st tick_passes_def Let_def case_prod_unfold split: option.split)
  qed
qed

end
