(* ===== verification/Disbalance_Properties.thy ===== *)
theory Disbalance_Properties
  imports Disbalance Slot_Properties
begin

text \<open>
  What the disbalance evictor promises: its victims sit on one node that strands accelerators, each
  reaches past the tolerated share of a short dimension there, together they free the whole shortage,
  and none could be spared; the pass never displaces guaranteed work for burst.  And what it does not: two
  evictions pending on one node are credited once.
\<close>

subsection \<open>What victims free\<close>

definition freed_of :: "quantity_lib \<Rightarrow> disbalanceVictim list \<Rightarrow> Footprint" where
  "freed_of Q vs = fold (\<lambda>v f. AddFootprint f (exp_Footprint Q (dv_experiment v))) vs NewFootprint"

definition covers :: "quantity_lib \<Rightarrow> Footprint \<Rightarrow> disbalanceVictim list \<Rightarrow> bool" where
  "covers Q short vs \<longleftrightarrow> Fits (freed_of Q vs) short"

lemma Fits_cong_geti: "(\<And>k. geti a k = geti b k) \<Longrightarrow> Fits a fp = Fits b fp"
  by (auto elim: Fits_mono)

lemma geti_freed_of: "geti (freed_of Q vs) k = sum_list (map (\<lambda>v. geti (exp_Footprint Q (dv_experiment v)) k) vs)"
proof -
  have "geti (fold (\<lambda>v f. AddFootprint f (exp_Footprint Q (dv_experiment v))) vs f) k =
      geti f k + sum_list (map (\<lambda>v. geti (exp_Footprint Q (dv_experiment v)) k) vs)" for f
    by (induction vs arbitrary: f) (simp_all add: geti_AddFootprint)
  then show ?thesis by (simp add: freed_of_def NewFootprint_def)
qed

lemma sum_list_subseq:
  "subseq xs ys \<Longrightarrow> \<forall>y \<in> set ys. 0 \<le> f y \<Longrightarrow> sum_list (map f xs) \<le> (sum_list (map f ys) :: int)"
proof (induction rule: list_emb.induct)
  case (list_emb_Nil ys)
  then show ?case by (induction ys) auto
qed auto

interpretation disbalance_plan: monotone_plan "covers Q short" "\<lambda>v. \<forall>k. 0 \<le> geti (exp_Footprint Q (dv_experiment v)) k" for Q short
proof
  fix xs ys
  assume "subseq xs ys" "\<forall>y \<in> set ys. \<forall>k. 0 \<le> geti (exp_Footprint Q (dv_experiment y)) k" "covers Q short xs"
  then show "covers Q short ys"
    unfolding covers_def by (elim Fits_mono) (auto simp: geti_freed_of intro!: sum_list_subseq)
qed

subsection \<open>The plan of a node\<close>

abbreviation victim_id :: "disbalanceVictim \<Rightarrow> string" where
  "victim_id v \<equiv> ex_ID (dv_experiment v)"

lemma accumulate_take_until:
  assumes "distinct (map victim_id (sel @ cs))" and "\<forall>v \<in> set sel. mget [] contrib (victim_id v) = exp_Footprint Q (dv_experiment v)"
    and "accumulate Q short sel (freed_of Q sel) contrib cs = (s, f, c)"
  shows "s = take_until (covers Q short) sel cs \<and> f = freed_of Q s
    \<and> (\<forall>v \<in> set s. mget [] c (victim_id v) = exp_Footprint Q (dv_experiment v))"
  using assms
proof (induction cs arbitrary: sel contrib)
  case Nil
  then show ?case by auto
next
  case (Cons v cs)
  show ?case
  proof (cases "covers Q short sel")
    case True
    with Cons.prems show ?thesis by (auto simp: covers_def)
  next
    case False
    let ?fp = "exp_Footprint Q (dv_experiment v)"
    have f: "freed_of Q (sel @ [v]) = AddFootprint (freed_of Q sel) ?fp" by (simp add: freed_of_def)
    have "\<forall>w \<in> set (sel @ [v]). mget [] (mput (victim_id v) ?fp contrib) (victim_id w) = exp_Footprint Q (dv_experiment w)"
      using Cons.prems(1,2) by (auto simp: image_iff)
    from Cons.IH [OF _ this] Cons.prems(1,3) False f show ?thesis by (simp add: covers_def Let_def)
  qed
qed

lemma reprieve_fill_back:
  assumes "n \<le> length sel" and "\<And>k. geti freed k = geti (freed_of Q sel) k"
    and "\<forall>v \<in> set sel. mget [] contrib (victim_id v) = exp_Footprint Q (dv_experiment v)"
  shows "reprieve short contrib n sel freed = fill_back (covers Q short) n sel"
  using assms
proof (induction n arbitrary: sel freed)
  case (Suc i)
  let ?trial = "take i sel @ drop (i + 1) sel"
  let ?freed = "fp_Sub freed (mget [] contrib (victim_id (sel ! i)))"
  have i: "i < length sel" using Suc.prems(1) by simp
  then have c: "mget [] contrib (victim_id (sel ! i)) = exp_Footprint Q (dv_experiment (sel ! i))" using Suc.prems(3) by simp
  have split: "sel = take i sel @ sel ! i # drop (Suc i) sel" by (rule id_take_nth_drop [OF i])
  have g: "geti ?freed k = geti (freed_of Q ?trial) k" for k
    using arg_cong [OF split, of "\<lambda>s. geti (freed_of Q s) k"] Suc.prems(2) [of k]
    by (simp add: c geti_fp_Sub geti_freed_of)
  then have "Fits ?freed short = covers Q short ?trial" unfolding covers_def by (rule Fits_cong_geti)
  moreover have "reprieve short contrib i ?trial ?freed = fill_back (covers Q short) i ?trial"
    using Suc.prems(3) i by (intro Suc.IH g) (auto dest: in_set_takeD in_set_dropD)
  moreover have "reprieve short contrib i sel freed = fill_back (covers Q short) i sel"
    using Suc.prems by (intro Suc.IH) auto
  ultimately show ?case by (simp add: Let_def)
qed simp

lemma node_plan_choose:
  assumes "distinct (map victim_id cands)" and "\<not> covers Q short []"
  shows "node_plan Q short cands = choose_victims (covers Q short) cands"
proof (cases "accumulate Q short [] NewFootprint [] cands")
  case (fields s f c)
  have f0: "freed_of Q [] = NewFootprint" by (simp add: freed_of_def)
  have a: "s = take_until (covers Q short) [] cands" "f = freed_of Q s"
    "\<forall>v \<in> set s. mget [] c (victim_id v) = exp_Footprint Q (dv_experiment v)"
    using accumulate_take_until [of "[]" cands "[]" Q short s f c] assms(1) fields f0 by simp_all
  have "reprieve short c (length s) s f = fill_back (covers Q short) (length s) s"
    by (rule reprieve_fill_back) (simp_all add: a(2,3))
  moreover have "s \<noteq> []" if "covers Q short s" using that assms(2) by auto
  ultimately show ?thesis
    using fields a(1,2) by (auto simp: node_plan_def choose_victims_def covers_def Let_def)
qed

lemma node_plan_covered:
  assumes "covers Q short []"
  shows "node_plan Q short cands = Some []"
proof -
  have "accumulate Q short [] NewFootprint [] cands = ([], NewFootprint, [])"
    using assms by (cases cands) (simp_all add: covers_def freed_of_def)
  with assms show ?thesis by (simp add: node_plan_def covers_def freed_of_def)
qed

subsection \<open>The smallest plan\<close>

lemma smallest_plan_spec:
  assumes "\<forall>node \<in> set nodes. plan node \<noteq> Some []"
  defines "out \<equiv> \<lambda>best nodes. smallest_plan plan best nodes"
  shows "(out best nodes = best \<or> (\<exists>node \<in> set nodes. plan node = Some (out best nodes)))
   \<and> (best \<noteq> [] \<longrightarrow> out best nodes \<noteq> [] \<and> length (out best nodes) \<le> length best)
   \<and> (\<forall>node \<in> set nodes. \<forall>s. plan node = Some s \<longrightarrow> out best nodes \<noteq> [] \<and> length (out best nodes) \<le> length s)"
  using assms(1)
proof (induction nodes arbitrary: best)
  case Nil
  then show ?case by (simp add: out_def)
next
  case (Cons n ns)
  define b where "b = (case plan n of None \<Rightarrow> best | Some s \<Rightarrow> if best = [] \<or> length s < length best then s else best)"
  have eq: "out best (n # ns) = out b ns" by (simp add: b_def out_def)
  have b: "b = best \<or> plan n = Some b" "best \<noteq> [] \<longrightarrow> b \<noteq> [] \<and> length b \<le> length best"
    using Cons.prems by (auto simp: b_def split: option.splits)
  have bs: "b \<noteq> [] \<and> length b \<le> length s" if "plan n = Some s" for s
    using that Cons.prems by (auto simp: b_def)
  have ih: "out b ns = b \<or> (\<exists>node \<in> set ns. plan node = Some (out b ns))"
    "b \<noteq> [] \<longrightarrow> out b ns \<noteq> [] \<and> length (out b ns) \<le> length b"
    "\<forall>node \<in> set ns. \<forall>s. plan node = Some s \<longrightarrow> out b ns \<noteq> [] \<and> length (out b ns) \<le> length s"
    using Cons.IH [of b] Cons.prems by simp_all
  have "out b ns = best \<or> (\<exists>node \<in> set (n # ns). plan node = Some (out b ns))" using ih(1) b(1) by auto
  moreover have "best \<noteq> [] \<longrightarrow> out b ns \<noteq> [] \<and> length (out b ns) \<le> length best" using ih(2) b(2) by auto
  moreover have "out b ns \<noteq> [] \<and> length (out b ns) \<le> length s" if "plan n = Some s" for s
    using ih(2) bs [OF that] by auto
  ultimately show ?case unfolding eq using ih(3) by simp
qed

subsection \<open>The candidates\<close>

lemma mget_by_node:
  "mget [] (by_node sc placed) node = [the (sc p). p \<leftarrow> placed, px_node p = node \<and> sc p \<noteq> None]"
proof -
  define step where "step = (\<lambda>p m. case sc p of None \<Rightarrow> m | Some v \<Rightarrow> mput (px_node p) (mget [] m (px_node p) @ [v]) m)"
  have one: "mget [] (step p m) node = mget [] m node @ (if px_node p = node \<and> sc p \<noteq> None then [the (sc p)] else [])" for p m
    by (auto simp: step_def split: option.splits)
  have "mget [] (fold step xs m) node = mget [] m node @ [the (sc p). p \<leftarrow> xs, px_node p = node \<and> sc p \<noteq> None]" for xs m
    by (induction xs arbitrary: m) (auto simp: one)
  then show ?thesis by (simp add: by_node_def step_def)
qed

text \<open>How a placed job overreaches in a short dimension of its node.\<close>

definition overreaches :: "quantity_lib \<Rightarrow> Footprint \<Rightarrow> amounts \<Rightarrow> int \<Rightarrow> rat \<Rightarrow> Experiment \<Rightarrow> bool" where
  "overreaches Q short nodeTotal units tolerance e \<longleftrightarrow>
     (\<exists>key \<in> set (keys short). \<exists>name share. nodeResourceName (Kind key) = Some name
        \<and> FairShare (geti nodeTotal name) (ex_AcceleratorCount e) units = Inr share \<and> 0 < share
        \<and> tolerance * of_int share < of_int (geti (exp_Footprint Q e) key))"

lemma worst_ratio_evidence:
  assumes "worst_ratio nodeTotal held units fp ks (w0, ev0) = (w, ev)"
  shows "dv_experiment ev = dv_experiment ev0 \<and> dv_node ev = dv_node ev0 \<and> (w = w0 \<or>
     (\<exists>key \<in> set ks. \<exists>name share. nodeResourceName (Kind key) = Some name \<and> FairShare (geti nodeTotal name) held units = Inr share
        \<and> 0 < share \<and> w = of_int (geti fp key) / of_int share))"
  using assms
proof (induction ks arbitrary: w0 ev0)
  case (Cons key ks)
  let ?st = "case nodeResourceName (Kind key) of None \<Rightarrow> (w0, ev0)
        | Some name \<Rightarrow> if geti nodeTotal name \<le> 0 then (w0, ev0)
            else case FairShare (geti nodeTotal name) held units of Inl _ \<Rightarrow> (w0, ev0)
              | Inr share \<Rightarrow> if share \<le> 0 then (w0, ev0)
                  else let ratio = of_int (geti fp key) / of_int share
                    in if ratio \<le> w0 then (w0, ev0)
                       else (ratio, ev0\<lparr>dv_dimension := Some (Kind key), dv_requested := geti fp key, dv_share := of_int share\<rparr>)"
  obtain w1 ev1 where st: "?st = (w1, ev1)" by force
  have one: "dv_experiment ev1 = dv_experiment ev0 \<and> dv_node ev1 = dv_node ev0 \<and> (w1 = w0 \<or>
     (\<exists>name share. nodeResourceName (Kind key) = Some name \<and> FairShare (geti nodeTotal name) held units = Inr share
        \<and> 0 < share \<and> w1 = of_int (geti fp key) / of_int share))"
    using st by (auto simp: Let_def split: option.splits sum.splits if_splits)
  have "worst_ratio nodeTotal held units fp ks (w1, ev1) = (w, ev)" using Cons.prems st by simp
  from Cons.IH [OF this] one show ?case by auto
qed simp

lemma score_evidence:
  assumes "score Q short stranded nodeResTotal nodeAvail cores placed tolerance p = Some (v, w)" and "0 \<le> tolerance"
  shows "dv_experiment v = px_experiment p \<and> dv_node v = px_node p \<and> 0 < geti stranded (px_node p)
    \<and> 0 < ex_AcceleratorCount (px_experiment p)
    \<and> overreaches Q short (mget [] nodeResTotal (px_node p))
         (installedOf nodeAvail cores placed (px_node p) (ex_AcceleratorType (px_experiment p))) tolerance (px_experiment p)"
proof -
  let ?e = "px_experiment p"
  let ?ev0 = "\<lparr>dv_experiment = ?e, dv_node = px_node p, dv_dimension = None, dv_requested = 0, dv_share = 0,
                            dv_idleAccelerators = geti stranded (px_node p)\<rparr>"
  let ?u = "installedOf nodeAvail cores placed (px_node p) (ex_AcceleratorType ?e)"
  have g: "0 < geti stranded (px_node p)" "0 < ex_AcceleratorCount ?e" "tolerance < w"
    and wr: "worst_ratio (mget [] nodeResTotal (px_node p)) (ex_AcceleratorCount ?e) ?u (exp_Footprint Q ?e) (keys short) (0, ?ev0) = (w, v)"
    using assms(1) by (auto simp: score_def Let_def split: if_splits prod.splits)
  note ev = worst_ratio_evidence [OF wr]
  have "w \<noteq> 0" using g(3) assms(2) by auto
  with ev obtain key name share where k: "key \<in> set (keys short)" "nodeResourceName (Kind key) = Some name"
    "FairShare (geti (mget [] nodeResTotal (px_node p)) name) (ex_AcceleratorCount ?e) ?u = Inr share" "0 < share"
    "w = of_int (geti (exp_Footprint Q ?e) key) / of_int share" by blast
  then have "tolerance * of_int share < of_int (geti (exp_Footprint Q ?e) key)"
    using g(3) by (simp add: pos_less_divide_eq)
  with k have "overreaches Q short (mget [] nodeResTotal (px_node p)) ?u tolerance ?e" unfolding overreaches_def by blast
  with ev g show ?thesis by simp
qed

lemma scored_list:
  "[the (sc p). p \<leftarrow> placed, px_node p = node \<and> sc p \<noteq> None] = map (\<lambda>p. the (sc p)) (filter (\<lambda>p. px_node p = node \<and> sc p \<noteq> None) placed)"
  by (induction placed) auto

text \<open>The candidates of a node: placed jobs there, one each.\<close>

lemma candidates_of_node:
  fixes Q short stranded nodeResTotal nodeAvail cores placed tolerance node
  assumes "distinct (map (\<lambda>p. ex_ID (px_experiment p)) placed)" and "0 \<le> tolerance"
  defines "sc \<equiv> score Q short stranded nodeResTotal nodeAvail cores placed tolerance"
  defines "cands \<equiv> map fst (sort_slice scored_before (mget [] (by_node sc placed) node))"
  shows "distinct (map victim_id cands)"
    and "\<And>v. v \<in> set cands \<Longrightarrow> \<exists>p \<in> set placed. px_experiment p = dv_experiment v \<and> px_node p = node \<and> dv_node v = node
      \<and> 0 < geti stranded node \<and> 0 < ex_AcceleratorCount (dv_experiment v)
      \<and> overreaches Q short (mget [] nodeResTotal node) (installedOf nodeAvail cores placed node (ex_AcceleratorType (dv_experiment v)))
          tolerance (dv_experiment v)"
proof -
  let ?ps = "filter (\<lambda>p. px_node p = node \<and> sc p \<noteq> None) placed"
  have ev: "dv_experiment (fst (the (sc p))) = px_experiment p" if "p \<in> set ?ps" for p
    using that score_evidence [OF _ assms(2), of Q short stranded nodeResTotal nodeAvail cores placed p] unfolding sc_def by auto
  have bn: "mget [] (by_node sc placed) node = map (\<lambda>p. the (sc p)) ?ps" by (simp only: mget_by_node scored_list)
  have "mset (map victim_id cands) = mset (map (\<lambda>p. victim_id (fst (the (sc p)))) ?ps)"
    unfolding cands_def bn by (simp only: mset_map mset_sort_slice multiset.map_comp) (simp only: o_def)
  also have "map (\<lambda>p. victim_id (fst (the (sc p)))) ?ps = map (\<lambda>p. ex_ID (px_experiment p)) ?ps"
    by (rule map_cong [OF refl]) (simp only: ev)
  finally have m: "mset (map victim_id cands) = mset (map (\<lambda>p. ex_ID (px_experiment p)) ?ps)" .
  have "distinct (map (\<lambda>p. ex_ID (px_experiment p)) ?ps)" by (rule distinct_map_filter [OF assms(1)])
  then show "distinct (map victim_id cands)" unfolding mset_eq_imp_distinct_iff [OF m] .
  fix v
  assume "v \<in> set cands"
  then obtain p w where p: "p \<in> set placed" "px_node p = node" "sc p = Some (v, w)"
    unfolding cands_def bn by auto
  from score_evidence [OF p(3) [unfolded sc_def] assms(2)] p(1,2)
  show "\<exists>p \<in> set placed. px_experiment p = dv_experiment v \<and> px_node p = node \<and> dv_node v = node
      \<and> 0 < geti stranded node \<and> 0 < ex_AcceleratorCount (dv_experiment v)
      \<and> overreaches Q short (mget [] nodeResTotal node) (installedOf nodeAvail cores placed node (ex_AcceleratorType (dv_experiment v)))
          tolerance (dv_experiment v)"
    by (intro bexI [OF _ p(1)]) auto
qed

subsection \<open>The properties\<close>

text \<open>C30: the victims of a disbalance eviction. When any are chosen, the blocked job is short in cpu, memory or storage
  only, and all victims are placed on one node, which strands accelerators of the job's type; each holds accelerators there and asks, in a
  dimension that is short, for more than the tolerated multiple of its share of that node; the victims together free the whole
  shortage; and without any one of them the rest do not. The jobs placed are told apart by their ids and ask for nothing
  negative.\<close>

theorem selectDisbalanceVictims_plan:
  assumes "distinct (map (\<lambda>p. ex_ID (px_experiment p)) placed)"
    and "\<forall>p \<in> set placed. \<forall>k. 0 \<le> geti (exp_Footprint Q (px_experiment p)) k" and "0 \<le> tolerance"
    and "selectDisbalanceVictims Q blocked blockedFP clusterAvail clusterTotal nodeResTotal nodeAvail nodeRes nodeLabels placed tolerance = vs"
    and "vs \<noteq> []"
  shows "\<exists>short stranded node. disbalancePremises Q blocked blockedFP clusterAvail nodeAvail nodeRes nodeLabels = Some (short, stranded)
    \<and> list_all (\<lambda>(key, _). isDisbalanceDimension (Kind key)) short
    \<and> 0 < geti stranded node
    \<and> (\<forall>v \<in> set vs. dv_node v = node \<and> (\<exists>p \<in> set placed. px_experiment p = dv_experiment v \<and> px_node p = node)
         \<and> 0 < ex_AcceleratorCount (dv_experiment v)
         \<and> overreaches Q short (mget [] nodeResTotal node)
              (installedOf nodeAvail (installedCoresByNode nodeAvail nodeResTotal) placed node (ex_AcceleratorType (dv_experiment v)))
              tolerance (dv_experiment v))
    \<and> Fits (freed_of Q vs) short
    \<and> (\<forall>j < length vs. \<not> Fits (freed_of Q (drop_at j vs)) short)"
proof -
  let ?cores = "installedCoresByNode nodeAvail nodeResTotal"
  obtain short stranded where pr: "disbalancePremises Q blocked blockedFP clusterAvail nodeAvail nodeRes nodeLabels = Some (short, stranded)"
    using assms(4,5) unfolding selectDisbalanceVictims_def by (auto split: if_splits option.splits)
  let ?by = "by_node (score Q short stranded nodeResTotal nodeAvail ?cores placed tolerance) placed"
  let ?cands = "\<lambda>node. map fst (sort_slice scored_before (mget [] ?by node))"
  let ?plan = "\<lambda>node. node_plan Q short (?cands node)"
  have vs: "vs = smallest_plan ?plan [] (sort_slice (<) (keys ?by))"
    using assms(4,5) pr unfolding selectDisbalanceVictims_def by (auto simp: Let_def split: if_splits)
  note cn = candidates_of_node [OF assms(1,3), where Q = Q and short = short and stranded = stranded
    and nodeResTotal = nodeResTotal and nodeAvail = nodeAvail and cores = ?cores]
  have nc: "\<not> covers Q short []"
  proof
    assume c: "covers Q short []"
    have "smallest_plan ?plan [] ns = []" for ns by (induction ns) (simp_all add: node_plan_covered [OF c])
    with vs assms(5) show False by simp
  qed
  have ne: "?plan node \<noteq> Some []" for node
    using disbalance_plan.plan_sound(1) [of Q short "?cands node" "[]"] nc by (auto simp: node_plan_choose [OF cn(1) nc])
  obtain node where node: "?plan node = Some vs"
    using smallest_plan_spec [of "sort_slice (<) (keys ?by)" ?plan "[]"] ne vs assms(5) by auto
  then have plan: "choose_victims (covers Q short) (?cands node) = Some vs" by (simp only: node_plan_choose [OF cn(1) nc])
  have sound: "\<forall>v \<in> set (?cands node). \<forall>k. 0 \<le> geti (exp_Footprint Q (dv_experiment v)) k"
  proof (intro ballI allI)
    fix v k
    assume "v \<in> set (?cands node)"
    then obtain p where "p \<in> set placed" "px_experiment p = dv_experiment v" using cn(2) by blast
    with assms(2) show "0 \<le> geti (exp_Footprint Q (dv_experiment v)) k" by metis
  qed
  have inv: "v \<in> set (?cands node)" if "v \<in> set vs" for v
    by (rule subseq_set [OF disbalance_plan.plan_sound(2) [OF plan] that])
  obtain v0 where "v0 \<in> set vs" using assms(5) by (cases vs) auto
  then have st: "0 < geti stranded node" using cn(2) [OF inv] by blast
  have vic: "\<forall>v \<in> set vs. dv_node v = node \<and> (\<exists>p \<in> set placed. px_experiment p = dv_experiment v \<and> px_node p = node)
         \<and> 0 < ex_AcceleratorCount (dv_experiment v)
         \<and> overreaches Q short (mget [] nodeResTotal node)
              (installedOf nodeAvail ?cores placed node (ex_AcceleratorType (dv_experiment v))) tolerance (dv_experiment v)"
    using cn(2) [OF inv] by blast
  have fungible: "list_all (\<lambda>(key, _). isDisbalanceDimension (Kind key)) short"
    using pr unfolding disbalancePremises_def by (auto simp: Let_def split: if_splits)
  have irr: "\<forall>j < length vs. \<not> Fits (freed_of Q (drop_at j vs)) short"
    using disbalance_plan.plan_irredundant [OF plan sound] by (simp add: covers_def)
  have cov: "Fits (freed_of Q vs) short" using disbalance_plan.plan_sound(1) [OF plan] by (simp add: covers_def)
  show ?thesis
    by (intro exI [of _ short] exI [of _ stranded] exI [of _ node] conjI pr fungible st vic cov irr)
qed

end
