(* ===== verification/Eviction_Properties.thy ===== *)
theory Eviction_Properties
  imports Disbalance_Properties
begin

text \<open>
  The eviction pass and the credit of pending evictions: who may be evicted, and what the next tick
  reads of capacity that is on its way back.
\<close>

subsection \<open>Victims are placed jobs\<close>

lemma accumulate_subset:
  "accumulate Q short sel freed contrib cs = (s, f, c) \<Longrightarrow> set s \<subseteq> set sel \<union> set cs"
proof (induction cs arbitrary: sel freed contrib)
  case (Cons v cs)
  show ?case
  proof (cases "Fits freed short")
    case False
    with Cons.IH [of "sel @ [v]"] Cons.prems show ?thesis by (auto simp: Let_def)
  qed (use Cons in auto)
qed auto

lemma reprieve_subset: "set (reprieve short contrib n sel freed) \<subseteq> set sel"
proof (induction n arbitrary: sel freed)
  case (Suc i)
  have "set (take i sel @ drop (i + 1) sel) \<subseteq> set sel" by (auto dest: in_set_takeD in_set_dropD)
  then have "set (reprieve short contrib i (take i sel @ drop (i + 1) sel) f) \<subseteq> set sel" for f
    by (rule subset_trans [OF Suc])
  with Suc [of sel freed] show ?case by (simp add: Let_def)
qed simp

lemma node_plan_subset: "node_plan Q short cands = Some vs \<Longrightarrow> set vs \<subseteq> set cands"
  using accumulate_subset [of Q short "[]" NewFootprint "[]" cands] reprieve_subset
  by (fastforce simp: node_plan_def split: prod.splits if_splits)

lemma smallest_plan_from:
  "smallest_plan plan best nodes = best \<or> (\<exists>node. plan node = Some (smallest_plan plan best nodes))"
proof (induction nodes arbitrary: best)
  case (Cons n ns)
  let ?b = "case plan n of None \<Rightarrow> best | Some s \<Rightarrow> if best = [] \<or> length s < length best then s else best"
  have "?b = best \<or> plan n = Some ?b" by (auto split: option.splits)
  with Cons [of ?b] show ?case by auto
qed simp

lemma score_experiment:
  "score Q short stranded nodeResTotal nodeAvail cores placed tolerance p = Some (v, w) \<Longrightarrow>
     dv_experiment v = px_experiment p \<and> dv_node v = px_node p"
  by (auto simp: score_def Let_def dest!: worst_ratio_evidence split: if_splits prod.splits)

lemma victims_placed:
  assumes "v \<in> set (selectDisbalanceVictims Q blocked blockedFP clusterAvail clusterTotal nodeResTotal nodeAvail nodeRes nodeLabels placed tolerance)"
  shows "\<exists>p \<in> set placed. px_experiment p = dv_experiment v \<and> px_node p = dv_node v"
proof -
  let ?vs = "selectDisbalanceVictims Q blocked blockedFP clusterAvail clusterTotal nodeResTotal nodeAvail nodeRes nodeLabels placed tolerance"
  let ?cores = "installedCoresByNode nodeAvail nodeResTotal"
  let ?sc = "\<lambda>short stranded. score Q short stranded nodeResTotal nodeAvail ?cores placed tolerance"
  let ?by = "\<lambda>short stranded. by_node (?sc short stranded) placed"
  let ?plan = "\<lambda>short stranded node. node_plan Q short (map fst (sort_slice scored_before (mget [] (?by short stranded) node)))"
  have ne: "?vs \<noteq> []" using assms by auto
  then obtain short stranded where pr: "disbalancePremises Q blocked blockedFP clusterAvail nodeAvail nodeRes nodeLabels = Some (short, stranded)"
    unfolding selectDisbalanceVictims_def by (auto split: if_splits option.splits)
  have vs: "?vs = smallest_plan (?plan short stranded) [] (sort_slice (<) (keys (?by short stranded)))"
    using ne pr unfolding selectDisbalanceVictims_def by (auto simp: Let_def split: if_splits)
  have "?vs \<noteq> []" by (rule ne)
  then obtain node where "?plan short stranded node = Some ?vs"
    using smallest_plan_from [of "?plan short stranded" "[]" "sort_slice (<) (keys (?by short stranded))"] vs by auto
  from node_plan_subset [OF this] assms
  have "v \<in> set (map fst (mget [] (?by short stranded) node))" by auto
  then obtain p w where "p \<in> set placed" "?sc short stranded p = Some (v, w)" unfolding mget_by_node scored_list by auto
  then show ?thesis using score_experiment by (intro bexI [of _ p]) auto
qed

lemma place_running_known:
  assumes "place_running env may es = Inr ps" and "p \<in> set ps"
  shows "px_experiment p \<in> set es \<and> may (px_experiment p) \<and> ev_LatestNode env (ex_ID (px_experiment p)) = Some (Some (px_node p))"
  using assms
proof (induction es arbitrary: ps)
  case (Cons e es)
  then show ?case by (fastforce split: if_splits option.splits sum.splits)
qed simp

lemma evict_one_ids:
  "fst (evict_one Q env cluster nodeAvail now v st) = fst st @ (if ev_Evict env (victim_id v) then [victim_id v] else [])"
  by (cases st) (simp add: evict_one_def Let_def)

text \<open>What is remembered of a job that was evicted from a node: everything it holds, and what the node reported free then.\<close>

definition condemned :: "quantity_lib \<Rightarrow> string \<Rightarrow> capmap \<Rightarrow> int \<Rightarrow> Experiment \<Rightarrow> string \<Rightarrow> pendingEviction" where
  "condemned Q cluster nodeAvail now e node =
     \<lparr>pv_cluster = cluster, pv_node = node, pv_footprint = exp_Footprint Q e, pv_acceleratorType = AcceleratorKey (ex_AcceleratorType e),
      pv_acceleratorCount = ex_AcceleratorCount e, pv_evictedAt = now,
      pv_nodeFreeAtEviction = geti (mget [] nodeAvail node) (AcceleratorKey (ex_AcceleratorType e))\<rparr>"

lemma evict_one_pending:
  "map_of (snd (evict_one Q env cluster nodeAvail now v st)) i =
     (if ev_Evict env (victim_id v) \<and> i = victim_id v
      then Some (condemned Q cluster nodeAvail now (dv_experiment v) (dv_node v)) else map_of (snd st) i)"
  by (cases st) (simp add: evict_one_def condemned_def Let_def)

definition taken_ids :: "evict_env \<Rightarrow> disbalanceVictim list \<Rightarrow> string set" where
  "taken_ids env vs = victim_id ` {v \<in> set vs. ev_Evict env (victim_id v)}"

lemma taken_ids_Cons:
  "taken_ids env (v # vs) = (if ev_Evict env (victim_id v) then insert (victim_id v) (taken_ids env vs) else taken_ids env vs)"
  by (auto simp: taken_ids_def)

lemma evict_all_ids: "set (fst (fold (evict_one Q env cluster nodeAvail now) vs st)) = set (fst st) \<union> taken_ids env vs"
proof (induction vs arbitrary: st)
  case Nil
  then show ?case by (simp add: taken_ids_def)
next
  case (Cons v vs)
  then show ?case by (auto simp: taken_ids_Cons evict_one_ids)
qed

lemma evict_all_other:
  "i \<notin> taken_ids env vs \<Longrightarrow> map_of (snd (fold (evict_one Q env cluster nodeAvail now) vs st)) i = map_of (snd st) i"
proof (induction vs arbitrary: st)
  case (Cons v vs)
  have "map_of (snd (fold (evict_one Q env cluster nodeAvail now) vs (evict_one Q env cluster nodeAvail now v st))) i
      = map_of (snd (evict_one Q env cluster nodeAvail now v st)) i"
    using Cons.prems by (intro Cons.IH) (simp add: taken_ids_Cons split: if_splits)
  also have "\<dots> = map_of (snd st) i"
    unfolding evict_one_pending using Cons.prems by (auto simp: taken_ids_Cons split: if_splits)
  finally show ?case by simp
qed simp

lemma evict_all_entry:
  "i \<in> taken_ids env vs \<Longrightarrow>
     \<exists>v \<in> set vs. victim_id v = i \<and> ev_Evict env i
       \<and> map_of (snd (fold (evict_one Q env cluster nodeAvail now) vs st)) i
           = Some (condemned Q cluster nodeAvail now (dv_experiment v) (dv_node v))"
proof (induction vs arbitrary: st)
  case (Cons v vs)
  show ?case
  proof (cases "i \<in> taken_ids env vs")
    case True
    with Cons.IH show ?thesis by simp
  next
    case False
    with Cons.prems have "ev_Evict env (victim_id v)" "i = victim_id v" by (auto simp: taken_ids_Cons split: if_splits)
    moreover have "map_of (snd (fold (evict_one Q env cluster nodeAvail now) vs (evict_one Q env cluster nodeAvail now v st))) i
        = map_of (snd (evict_one Q env cluster nodeAvail now v st)) i" by (rule evict_all_other [OF False])
    ultimately show ?thesis by (simp add: evict_one_pending)
  qed
qed (simp add: taken_ids_def)

subsection \<open>Crediting what is on its way back\<close>

definition kept :: "int \<Rightarrow> int \<Rightarrow> tick_capacity \<Rightarrow> pendingEviction \<Rightarrow> bool" where
  "kept now ttl cap pe \<longleftrightarrow> now - pv_evictedAt pe \<le> ttl \<and> \<not> reported_back cap pe"

definition credited :: "pendingEviction \<Rightarrow> tick_capacity \<Rightarrow> tick_capacity" where
  "credited pe cap =
     \<lparr>tc_gAvail = add_to (pv_cluster pe) (pv_footprint pe) (tc_gAvail cap),
      tc_bAvail = add_to (pv_cluster pe) (pv_footprint pe) (tc_bAvail cap),
      tc_nodeAvail = credit_devices pe (tc_nodeAvail cap),
      tc_nodeRes = credit_resources pe (tc_nodeRes cap)\<rparr>"

lemma apply_pending_step:
  "apply_pending now ttl (i, pe) (pending, cap) =
     (if kept now ttl cap pe then (pending, credited pe cap) else (mdel i pending, cap))"
  by (auto simp: apply_pending_def kept_def credited_def)

lemma node_of_put_at:
  "node_of_cluster m c n \<noteq> None \<Longrightarrow>
     node_of_cluster (put_at c n a m) c' n' = (if c' = c \<and> n' = n then Some a else node_of_cluster m c' n')"
  by (auto simp: node_of_cluster_def put_at_def mget_def split: option.splits)

lemma node_of_credit_devices:
  "(pv_cluster pe, pv_node pe) \<noteq> (c, n) \<Longrightarrow> node_of_cluster (credit_devices pe m) c n = node_of_cluster m c n"
  by (auto simp: credit_devices_def node_of_put_at split: option.splits)

lemma kept_credited:
  assumes "(pv_cluster pe, pv_node pe) \<noteq> (pv_cluster pe', pv_node pe')"
  shows "kept now ttl (credited pe cap) pe' = kept now ttl cap pe'"
  using node_of_credit_devices [OF assms] by (simp add: kept_def reported_back_def credited_def)

lemma map_of_add_to:
  "map_of (add_to c fp m) c' = (if c' = c then map_option (\<lambda>f. AddFootprint f fp) (map_of m c) else map_of m c')"
  by (auto simp: add_to_def split: option.splits)

abbreviation location :: "string \<times> pendingEviction \<Rightarrow> string \<times> string" where
  "location x \<equiv> (pv_cluster (snd x), pv_node (snd x))"

lemma apply_pending_fold:
  assumes "distinct (map location xs)"
  shows "fold (apply_pending now ttl) xs (pend, cap) =
    (fold mdel (map fst (filter (\<lambda>(i, pe). \<not> kept now ttl cap pe) xs)) pend,
     fold (\<lambda>(i, pe). credited pe) (filter (\<lambda>(i, pe). kept now ttl cap pe) xs) cap)"
  using assms
proof (induction xs arbitrary: pend cap)
  case (Cons x xs)
  obtain i pe where x: "x = (i, pe)" by force
  have apart: "(pv_cluster pe, pv_node pe) \<noteq> (pv_cluster (snd y), pv_node (snd y))" if "y \<in> set xs" for y
    using Cons.prems that by (auto simp: x image_iff)
  have same: "filter (\<lambda>(i, pe'). kept now ttl (credited pe cap) pe') xs = filter (\<lambda>(i, pe'). kept now ttl cap pe') xs"
    "filter (\<lambda>(i, pe'). \<not> kept now ttl (credited pe cap) pe') xs = filter (\<lambda>(i, pe'). \<not> kept now ttl cap pe') xs"
    by (rule filter_cong [OF refl], use kept_credited [OF apart] in auto)+
  show ?case
  proof (cases "kept now ttl cap pe")
    case True
    with Cons same show ?thesis by (simp add: x apply_pending_step)
  next
    case False
    with Cons show ?thesis by (simp add: x apply_pending_step)
  qed
qed simp

lemma fold_mdel: "fold mdel ks m = filter (\<lambda>x. fst x \<notin> set ks) m"
  by (induction ks arbitrary: m) (auto simp: mdel_def intro!: filter_cong)

lemma gAvail_credited:
  assumes "map_of (tc_gAvail cap) c = Some f" and "\<forall>(i, pe) \<in> set xs. wf_map (pv_footprint pe)"
  shows "\<exists>f'. map_of (tc_gAvail (fold (\<lambda>(i, pe). credited pe) xs cap)) c = Some f'
    \<and> (\<forall>k. geti f' k = geti f k + sum_list (map (\<lambda>(i, pe). geti (pv_footprint pe) k) (filter (\<lambda>(i, pe). pv_cluster pe = c) xs)))"
  using assms
proof (induction xs arbitrary: cap f)
  case (Cons x xs)
  obtain i pe where x: "x = (i, pe)" by force
  have wf: "wf_map (pv_footprint pe)" using Cons.prems(2) by (simp add: x)
  let ?f = "if c = pv_cluster pe then AddFootprint f (pv_footprint pe) else f"
  have "map_of (tc_gAvail (credited pe cap)) c = Some ?f"
    using Cons.prems(1) by (auto simp: credited_def map_of_add_to)
  from Cons.IH [OF this] Cons.prems(2) obtain f' where f': "map_of (tc_gAvail (fold (\<lambda>(i, pe). credited pe) xs (credited pe cap))) c = Some f'"
    "\<forall>k. geti f' k = geti ?f k + sum_list (map (\<lambda>(i, pe). geti (pv_footprint pe) k) (filter (\<lambda>(i, pe). pv_cluster pe = c) xs))" by auto
  then show ?case by (intro exI [of _ f']) (auto simp: x geti_AddFootprint [OF wf])
qed simp

subsection \<open>The properties\<close>

text \<open>C36: who the disbalance pass may evict, and what it remembers of them. Where it fails it has evicted nobody and its pending
  evictions are as they were. Every job it evicts is a running job of the cluster other than the blocked one, at a node the metrics store
  knows, not already being evicted, and of the burst tier when the blocked job is of the burst tier, and the evictor took it. From
  then on the job is a pending eviction of this cluster and that node, dated now, with the job's footprint, its accelerators and what the node
  reported free of them when the pass ran: so while that entry is no older than the time to live the job is pending, which is what keeps a
  later pass from taking it again. The entry of every other job is as it was.\<close>

theorem evictDisbalanced_safe:
  assumes "evictDisbalanced Q env ttl tolerance now pending blocked cluster avail clusterTotal nodeResTotal nodeAvail nodeRes nodeLabels blockedFP
     = (err, evicted, pending')"
  shows "(err \<noteq> None \<longrightarrow> evicted = [] \<and> pending' = pending)
    \<and> (\<forall>i \<in> set evicted. \<exists>running e node. ev_ListRunning env = Some running \<and> e \<in> set running \<and> ex_ID e = i
         \<and> ex_ClusterName e = cluster \<and> i \<noteq> ex_ID blocked \<and> \<not> isPendingEviction ttl pending i now
         \<and> (ex_CapacityTier blocked = CapacityBurst \<longrightarrow> ex_CapacityTier e = CapacityBurst)
         \<and> ev_LatestNode env i = Some (Some node) \<and> ev_Evict env i
         \<and> map_of pending' i = Some
             \<lparr>pv_cluster = cluster, pv_node = node, pv_footprint = exp_Footprint Q e,
              pv_acceleratorType = AcceleratorKey (ex_AcceleratorType e), pv_acceleratorCount = ex_AcceleratorCount e, pv_evictedAt = now,
              pv_nodeFreeAtEviction = geti (mget [] nodeAvail node) (AcceleratorKey (ex_AcceleratorType e))\<rparr>
         \<and> (\<forall>later. isPendingEviction ttl pending' i later \<longleftrightarrow> later - now \<le> ttl))
    \<and> (\<forall>i. i \<notin> set evicted \<longrightarrow> map_of pending' i = map_of pending i)"
proof (cases "evicted = [] \<and> pending' = pending")
  case True
  then show ?thesis by simp
next
  case False
  from assms False obtain running placed where r: "ev_ListRunning env = Some running"
    "place_running env (may_evict ttl pending now blocked cluster) running = Inr placed" "err = None"
    "(evicted, pending') = fold (evict_one Q env cluster nodeAvail now)
        (selectDisbalanceVictims Q blocked blockedFP avail clusterTotal nodeResTotal nodeAvail nodeRes nodeLabels placed tolerance) ([], pending)"
    unfolding evictDisbalanced_def disbalance_victims_def by (auto simp: Let_def split: if_splits option.splits sum.splits)
  let ?vs = "selectDisbalanceVictims Q blocked blockedFP avail clusterTotal nodeResTotal nodeAvail nodeRes nodeLabels placed tolerance"
  have res: "evicted = fst (fold (evict_one Q env cluster nodeAvail now) ?vs ([], pending))"
    "pending' = snd (fold (evict_one Q env cluster nodeAvail now) ?vs ([], pending))"
    using r(4) by (metis fst_conv, metis snd_conv)
  have ev: "set evicted = taken_ids env ?vs" unfolding res(1) evict_all_ids by simp
  have "\<exists>e node. e \<in> set running \<and> ex_ID e = i \<and> may_evict ttl pending now blocked cluster e
      \<and> ev_LatestNode env i = Some (Some node) \<and> ev_Evict env i \<and> map_of pending' i = Some (condemned Q cluster nodeAvail now e node)"
    if i: "i \<in> set evicted" for i
  proof -
    from evict_all_entry i ev obtain v where v: "v \<in> set ?vs" "victim_id v = i" "ev_Evict env i"
      "map_of pending' i = Some (condemned Q cluster nodeAvail now (dv_experiment v) (dv_node v))" unfolding res(2) by blast
    obtain p where p: "p \<in> set placed" "px_experiment p = dv_experiment v" "px_node p = dv_node v" using victims_placed [OF v(1)] by blast
    from place_running_known [OF r(2) p(1)] v show ?thesis unfolding p(2,3) by auto
  qed
  moreover have "map_of pending' i = map_of pending i" if "i \<notin> set evicted" for i
    unfolding res(2) using evict_all_other that ev by simp
  ultimately show ?thesis using r(1,3) by (fastforce simp: may_evict_def condemned_def isPendingEviction_def)
qed

text \<open>A node of two A100 with one held by a job that takes seven of its eight cores.\<close>

definition hog :: Experiment where
  "hog = sample_exp\<lparr>ex_ID := ''hog'', ex_ClusterName := ''c'', ex_Job := sample_job\<lparr>js_CPU := ''7''\<rparr>\<rparr>"

definition hog_total :: capmap where
  "hog_total = [(''n1'', [(NodeResourceCPUMillicores, 8000), (NodeResourceMemoryBytes, 32), (NodeResourceStorageBytes, 8)])]"

definition hog_free :: capmap where
  "hog_free = [(''n1'', [(NodeResourceCPUMillicores, 1000), (NodeResourceMemoryBytes, 24), (NodeResourceStorageBytes, 6)])]"

definition hog_devices :: capmap where
  "hog_devices = [(''n1'', [(''nvidia.com/gpu.product=A100'', 1)])]"

definition hog_avail :: Footprint where
  "hog_avail = [(ResourceKey ResourceKindCPU [], 1000), (ResourceKey ResourceKindMemory [], 24), (ResourceKey ResourceKindStorage [], 6),
     (ResourceKey ResourceKindAccelerator ''nvidia.com/gpu.product=A100'', 1)]"

definition hog_env :: evict_env where
  "hog_env = \<lparr>ev_ListRunning = Some [hog], ev_LatestNode = (\<lambda>i. Some (Some ''n1'')), ev_Evict = (\<lambda>i. True)\<rparr>"

theorem evictDisbalanced_safe_witness:
  "\<exists>r. r = evictDisbalanced sample_Q hog_env 60 (3 / 2) 1000 [] sample_exp ''c'' hog_avail hog_avail hog_total hog_devices hog_free [(''n1'', [])]
       (exp_Footprint sample_Q sample_exp)
     \<and> fst (snd r) = [''hog''] \<and> ''hog'' \<noteq> ex_ID sample_exp
     \<and> isPendingEviction 60 (snd (snd r)) ''hog'' 1060 \<and> \<not> isPendingEviction 60 (snd (snd r)) ''hog'' 1061"
proof -
  let ?r = "evictDisbalanced sample_Q hog_env 60 (3 / 2) 1000 [] sample_exp ''c'' hog_avail hog_avail hog_total hog_devices hog_free [(''n1'', [])]
       (exp_Footprint sample_Q sample_exp)"
  have e: "fst (snd ?r) = [''hog'']" by code_simp
  have "?r = (fst ?r, fst (snd ?r), snd (snd ?r))" by simp
  from evictDisbalanced_safe [OF this] e
  have "''hog'' \<noteq> ex_ID sample_exp" and "isPendingEviction 60 (snd (snd ?r)) ''hog'' later \<longleftrightarrow> later - 1000 \<le> 60" for later by auto
  then show ?thesis using e by (intro exI [of _ ?r]) simp
qed

theorem selectDisbalanceVictims_plan_witness:
  "\<exists>short. Fits (freed_of sample_Q (selectDisbalanceVictims sample_Q sample_exp (exp_Footprint sample_Q sample_exp) hog_avail hog_avail hog_total hog_devices
     hog_free [(''n1'', [])] [\<lparr>px_experiment = hog, px_node = ''n1''\<rparr>] (3 / 2))) short \<and> short \<noteq> []"
proof -
  let ?vs = "selectDisbalanceVictims sample_Q sample_exp (exp_Footprint sample_Q sample_exp) hog_avail hog_avail hog_total hog_devices
     hog_free [(''n1'', [])] [\<lparr>px_experiment = hog, px_node = ''n1''\<rparr>] (3 / 2)"
  have d: "distinct (map (\<lambda>p. ex_ID (px_experiment p)) [\<lparr>px_experiment = hog, px_node = ''n1''\<rparr>])" by simp
  have all: "list_all (\<lambda>(k, v). 0 \<le> v) (exp_Footprint sample_Q hog)" by code_simp
  have nn: "\<forall>p \<in> set [\<lparr>px_experiment = hog, px_node = ''n1''\<rparr>]. \<forall>k. 0 \<le> geti (exp_Footprint sample_Q (px_experiment p)) k"
  proof -
    have "0 \<le> geti (exp_Footprint sample_Q hog) k" for k
    proof (cases "k \<in> set (keys (exp_Footprint sample_Q hog))")
      case True
      from mget_entry [OF this, of 0] all show ?thesis by (auto simp: list_all_iff)
    qed (simp add: mget_absent)
    then show ?thesis by simp
  qed
  have ne: "?vs \<noteq> []" by code_simp
  obtain short stranded node where s: "disbalancePremises sample_Q sample_exp (exp_Footprint sample_Q sample_exp) hog_avail hog_devices hog_free [(''n1'', [])] = Some (short, stranded)"
    "Fits (freed_of sample_Q ?vs) short"
    using selectDisbalanceVictims_plan [OF d nn _ refl ne] by auto
  have "short \<noteq> []" using s(1) unfolding disbalancePremises_def by (auto simp: Let_def split: if_splits)
  with s(2) show ?thesis by blast
qed

text \<open>while no two pending evictions are on one node, applyPendingEvictions drops exactly the entries that are older than the
  time to live or whose node reports more free devices than when it was condemned, and credits every other one, once, to the free
  capacity of its cluster.\<close>

theorem applyPendingEvictions_exact:
  assumes "wf_map pending" and "distinct (map location pending)" and "\<forall>(i, pe) \<in> set pending. wf_map (pv_footprint pe)"
    and "applyPendingEvictions now ttl pending cap = (pending', cap')"
  shows "pending' = filter (\<lambda>(i, pe). kept now ttl cap pe) pending
    \<and> (\<forall>c f. map_of (tc_gAvail cap) c = Some f \<longrightarrow> (\<exists>f'. map_of (tc_gAvail cap') c = Some f'
         \<and> (\<forall>k. geti f' k = geti f k + sum_list (map (\<lambda>(i, pe). geti (pv_footprint pe) k)
               (filter (\<lambda>(i, pe). kept now ttl cap pe \<and> pv_cluster pe = c) pending)))))"
proof -
  let ?drop = "map fst (filter (\<lambda>(i, pe). \<not> kept now ttl cap pe) pending)"
  let ?keep = "filter (\<lambda>(i, pe). kept now ttl cap pe) pending"
  have r: "pending' = fold mdel ?drop pending" "cap' = fold (\<lambda>(i, pe). credited pe) ?keep cap"
    using assms(4) apply_pending_fold [OF assms(2), of now ttl pending cap] by (simp_all add: applyPendingEvictions_def)
  have "fst x \<notin> set ?drop \<longleftrightarrow> (case x of (i, pe) \<Rightarrow> kept now ttl cap pe)" if x: "x \<in> set pending" for x
  proof -
    have d: "distinct (map fst pending)" using assms(1) by (simp add: wf_map_def)
    have "fst x \<in> set ?drop \<longleftrightarrow> \<not> kept now ttl cap (snd x)"
    proof
      assume "fst x \<in> set ?drop"
      then obtain pe where pe: "(fst x, pe) \<in> set pending" "\<not> kept now ttl cap pe" by auto
      have "pe = snd x" by (rule eq_key_imp_eq_value [OF d pe(1)]) (simp add: x)
      with pe(2) show "\<not> kept now ttl cap (snd x)" by simp
    next
      assume n: "\<not> kept now ttl cap (snd x)"
      have "x \<in> set (filter (\<lambda>(i, pe). \<not> kept now ttl cap pe) pending)" using x n by (simp add: case_prod_beta)
      then have "fst x \<in> fst ` set (filter (\<lambda>(i, pe). \<not> kept now ttl cap pe) pending)" by (rule imageI)
      then show "fst x \<in> set ?drop" by (simp only: set_map)
    qed
    then show ?thesis by (simp add: case_prod_beta)
  qed
  then have p: "pending' = ?keep" unfolding r(1) fold_mdel by (rule filter_cong [OF refl])
  have "\<forall>(i, pe) \<in> set ?keep. wf_map (pv_footprint pe)" using assms(3) by auto
  moreover have "filter (\<lambda>(i, pe). pv_cluster pe = c) ?keep = filter (\<lambda>(i, pe). kept now ttl cap pe \<and> pv_cluster pe = c) pending" for c
    by (simp add: filter_filter) (rule filter_cong, auto)
  ultimately show ?thesis using p gAvail_credited [of cap _ _ ?keep] unfolding r(2) by simp
qed

definition sample_pending :: "int \<Rightarrow> pendingEviction" where
  "sample_pending free = \<lparr>pv_cluster = ''c'', pv_node = ''n1'', pv_footprint = hog_avail, pv_acceleratorType = ''nvidia.com/gpu.product=A100'',
     pv_acceleratorCount = 1, pv_evictedAt = 1000, pv_nodeFreeAtEviction = free\<rparr>"

definition sample_capacity :: tick_capacity where
  "sample_capacity = \<lparr>tc_gAvail = [(''c'', [])], tc_bAvail = [(''c'', [])], tc_nodeAvail = [(''c'', hog_devices)], tc_nodeRes = [(''c'', hog_free)]\<rparr>"

theorem applyPendingEvictions_exact_witness:
  "fst (applyPendingEvictions 1010 60 [(''hog'', sample_pending 1)] sample_capacity) = [(''hog'', sample_pending 1)]
   \<and> (\<exists>f'. map_of (tc_gAvail (snd (applyPendingEvictions 1010 60 [(''hog'', sample_pending 1)] sample_capacity))) ''c'' = Some f'
        \<and> geti f' (ResourceKey ResourceKindCPU []) = 1000)"
proof -
  let ?r = "applyPendingEvictions 1010 60 [(''hog'', sample_pending 1)] sample_capacity"
  have w: "wf_map [(''hog'', sample_pending 1)]" "distinct (map location [(''hog'', sample_pending 1)])"
    "\<forall>(i, pe) \<in> set [(''hog'', sample_pending 1)]. wf_map (pv_footprint pe)" by code_simp+
  have k: "kept 1010 60 sample_capacity (sample_pending 1)" by code_simp
  have g: "map_of (tc_gAvail sample_capacity) ''c'' = Some []" by code_simp
  have v: "pv_cluster (sample_pending 1) = ''c''" "geti (pv_footprint (sample_pending 1)) (ResourceKey ResourceKindCPU []) = 1000" by code_simp+
  have r: "?r = (fst ?r, snd ?r)" by simp
  note t = applyPendingEvictions_exact [OF w r]
  obtain f' where "map_of (tc_gAvail (snd ?r)) ''c'' = Some f'"
    "\<forall>key. geti f' key = geti [] key + sum_list (map (\<lambda>(i, pe). geti (pv_footprint pe) key)
       (filter (\<lambda>(i, pe). kept 1010 60 sample_capacity pe \<and> pv_cluster pe = ''c'') [(''hog'', sample_pending 1)]))"
    using t [THEN conjunct2, rule_format, OF g] by blast
  moreover have "fst ?r = [(''hog'', sample_pending 1)]" using t [THEN conjunct1] k by simp
  ultimately show ?thesis using k v by (intro conjI exI [of _ f']) simp_all
qed

text \<open>C37: of two evictions pending on one node with the same accelerator type only one is credited. The comment of applyPendingEvictions
  says every entry that is still fresh is credited back. Take two fresh entries of one node, each with accelerators of some type, neither reported
  back: the node reports free of each type what it did when the jobs were condemned. When their types differ both are kept and credited, as the comment
  says. When the types are the same, crediting the first raises the node's free count of that type in place, and the check of the second
  reads the raised count as the node having reported its devices back: the second is deleted and never credited. The victims of one
  disbalance plan are all on one node, so this is what follows a plan of two victims with accelerators of one type.\<close>

theorem applyPendingEvictions_loses_second:
  assumes "i \<noteq> j" and "now - pv_evictedAt a \<le> ttl" and "now - pv_evictedAt b \<le> ttl"
    and "pv_cluster a = pv_cluster b" and "pv_node a = pv_node b"
    and "pv_acceleratorType a \<noteq> []" and "pv_acceleratorType b \<noteq> []"
    and "0 < pv_acceleratorCount a" and "0 < pv_acceleratorCount b"
    and "node_of_cluster (tc_nodeAvail cap) (pv_cluster a) (pv_node a) = Some capacity"
    and "pv_nodeFreeAtEviction a = geti capacity (pv_acceleratorType a)"
    and "pv_nodeFreeAtEviction b = geti capacity (pv_acceleratorType b)"
  shows "kept now ttl cap a \<and> kept now ttl cap b
    \<and> applyPendingEvictions now ttl [(i, a), (j, b)] cap =
        (if pv_acceleratorType a = pv_acceleratorType b then ([(i, a)], credited a cap)
         else ([(i, a), (j, b)], credited b (credited a cap)))"
proof -
  have ka: "kept now ttl cap a" and kb: "kept now ttl cap b"
    using assms by (simp_all add: kept_def reported_back_def)
  have "node_of_cluster (tc_nodeAvail (credited a cap)) (pv_cluster b) (pv_node b)
      = Some (madd (pv_acceleratorType a) (pv_acceleratorCount a) capacity)"
    using assms by (simp add: credited_def credit_devices_def node_of_put_at)
  then have "kept now ttl (credited a cap) b \<longleftrightarrow> pv_acceleratorType a \<noteq> pv_acceleratorType b"
    using assms by (auto simp: kept_def reported_back_def)
  with ka kb assms(1) show ?thesis by (simp add: applyPendingEvictions_def apply_pending_step mdel_def)
qed

theorem applyPendingEvictions_loses_second_witness:
  "fst (applyPendingEvictions 1010 60 [(''hog'', sample_pending 1), (''hog2'', sample_pending 1)] sample_capacity) = [(''hog'', sample_pending 1)]
   \<and> (\<exists>b. pv_acceleratorType b = ''nvidia.com/gpu.product=H100''
        \<and> fst (applyPendingEvictions 1010 60 [(''hog'', sample_pending 1), (''hog2'', b)] sample_capacity) = [(''hog'', sample_pending 1), (''hog2'', b)])"
proof -
  let ?b = "(sample_pending 0)\<lparr>pv_acceleratorType := ''nvidia.com/gpu.product=H100''\<rparr>" and ?devices = "[(''nvidia.com/gpu.product=A100'', 1 :: int)]"
  have h: "(1010 :: int) - pv_evictedAt (sample_pending 1) \<le> 60" "pv_acceleratorType (sample_pending 1) \<noteq> []" "0 < pv_acceleratorCount (sample_pending 1)"
    "node_of_cluster (tc_nodeAvail sample_capacity) (pv_cluster (sample_pending 1)) (pv_node (sample_pending 1)) = Some ?devices"
    "pv_nodeFreeAtEviction (sample_pending 1) = geti ?devices (pv_acceleratorType (sample_pending 1))" by code_simp+
  have b: "(1010 :: int) - pv_evictedAt ?b \<le> 60" "pv_cluster (sample_pending 1) = pv_cluster ?b" "pv_node (sample_pending 1) = pv_node ?b"
    "pv_acceleratorType ?b \<noteq> []" "0 < pv_acceleratorCount ?b" "pv_nodeFreeAtEviction ?b = geti ?devices (pv_acceleratorType ?b)"
    "pv_acceleratorType (sample_pending 1) \<noteq> pv_acceleratorType ?b" "pv_acceleratorType ?b = ''nvidia.com/gpu.product=H100''" by code_simp+
  have ids: "''hog'' \<noteq> ''hog2''" by simp
  from applyPendingEvictions_loses_second [OF ids h(1) h(1) refl refl h(2) h(2) h(3) h(3) h(4) h(5) h(5)]
    applyPendingEvictions_loses_second [OF ids h(1) b(1) b(2) b(3) h(2) b(4) h(3) b(5) h(4) h(5) b(6)] b(7,8)
  show ?thesis by (intro conjI exI [of _ ?b]) simp_all
qed

end
