(* ===== verification/Preempt_Properties.thy ===== *)
theory Preempt_Properties
  imports Preempt
begin

text \<open>
  What preemption promises: a plan that is carried out makes the preemptor placeable, evicts only jobs
  whose progress and node are known, and writes nothing when there is no complete plan; a preempted job
  keeps the rate it was admitted at.
\<close>

subsection \<open>Candidates and writes\<close>

definition rankable :: "preempt_env \<Rightarrow> Experiment \<Rightarrow> bool" where
  "rankable env e \<longleftrightarrow> ObservedElapsedHours env (ex_ID e) \<noteq> None
     \<and> (\<exists>node. LatestExperimentNode env (ex_ID e) = Some (Some node))"

lemma rc_candidates_rank: "rc_candidates (rank_candidates env es) = filter (rankable env) es"
proof -
  have "rc_candidates (ranking_step env e rc) = rc_candidates rc @ (if rankable env e then [e] else [])" for e rc
    by (auto simp: ranking_step_def rankable_def split: option.splits)
  then have "rc_candidates (fold (ranking_step env) es rc) = rc_candidates rc @ filter (rankable env) es" for rc
    by (induction es arbitrary: rc) auto
  then show ?thesis by (simp add: rank_candidates_def)
qed

lemma rc_nodeOf_rank:
  assumes "e \<in> set (filter (rankable env) es)"
  shows "LatestExperimentNode env (ex_ID e) = Some (Some (gets (rc_nodeOf (rank_candidates env es)) (ex_ID e)))"
proof -
  have step: "gets (rc_nodeOf (ranking_step env x rc)) k =
      (if rankable env x \<and> ex_ID x = k then the (the (LatestExperimentNode env k)) else gets (rc_nodeOf rc) k)" for x rc k
    by (auto simp: ranking_step_def rankable_def split: option.splits)
  have "gets (rc_nodeOf (fold (ranking_step env) es rc)) k =
      (if \<exists>x \<in> set es. rankable env x \<and> ex_ID x = k then the (the (LatestExperimentNode env k)) else gets (rc_nodeOf rc) k)" for rc k
    by (induction es arbitrary: rc) (auto simp: step)
  with assms show ?thesis by (auto simp: rank_candidates_def rankable_def)
qed

lemma requeue_one_cases:
  "requeue_one env v eff = eff \<or> (\<exists>stint. ObservedStintElapsedHours env (ex_ID v) = Some stint
     \<and> requeue_one env v eff = eff\<lparr>pe_requeued := pe_requeued eff @ [(ex_ID v, rescale v stint)], pe_settled := pe_settled eff @ [ex_ID v]\<rparr>)"
  by (auto simp: requeue_one_def Let_def split: option.splits bool.splits prod.splits)

lemma requeue_victims_writes:
  "subseq (map fst (pe_requeued (requeue_victims env vs))) (map ex_ID vs)
   \<and> pe_settled (requeue_victims env vs) = map fst (pe_requeued (requeue_victims env vs))"
proof -
  have "\<exists>ws. subseq ws (map ex_ID vs) \<and> map fst (pe_requeued (fold (requeue_one env) vs eff)) = map fst (pe_requeued eff) @ ws
     \<and> pe_settled (fold (requeue_one env) vs eff) = pe_settled eff @ ws" for eff
  proof (induction vs arbitrary: eff)
    case (Cons v vs)
    obtain ws where ws: "subseq ws (map ex_ID vs)"
      "map fst (pe_requeued (fold (requeue_one env) vs (requeue_one env v eff))) = map fst (pe_requeued (requeue_one env v eff)) @ ws"
      "pe_settled (fold (requeue_one env) vs (requeue_one env v eff)) = pe_settled (requeue_one env v eff) @ ws"
      using Cons by blast
    show ?case
      using requeue_one_cases [of env v eff]
    proof
      assume "requeue_one env v eff = eff"
      with ws show ?thesis by (intro exI [of _ ws]) auto
    next
      assume "\<exists>stint. ObservedStintElapsedHours env (ex_ID v) = Some stint
        \<and> requeue_one env v eff = eff\<lparr>pe_requeued := pe_requeued eff @ [(ex_ID v, rescale v stint)], pe_settled := pe_settled eff @ [ex_ID v]\<rparr>"
      with ws show ?thesis by (intro exI [of _ "ex_ID v # ws"]) auto
    qed
  qed simp
  from this [of "\<lparr>pe_requeued = [], pe_settled = []\<rparr>"] show ?thesis
    unfolding requeue_victims_def by auto
qed

interpretation preempt_plan: eviction_plan "placeableWithout Q avail nodeAvail nodeRes nodeLabels nodeOf preemptor"
  for Q avail nodeAvail nodeRes nodeLabels nodeOf preemptor .

subsection \<open>The properties\<close>

text \<open>C29: preempt never disrupts jobs for a partial plan. When it does not commit it has written nothing,
  unless it says how many of its victims it requeued. When it acts, it acts on a list of victims such that the
  job, sized to this cluster, is placeable by footprint and node layout without them and is not placeable with all
  of them running; every victim is one of the burst jobs it was given, with known progress and at a known
  node; the requeued jobs are victims, in order, each settled; and the plan counts as committed exactly
  when every victim was requeued.\<close>

theorem preempt_complete_plan:
  assumes "preempt Q env cluster avail nodeAvail nodeRes nodeResTotal nodeLabels burstRunning preemptor = (res, eff)"
  defines "rc \<equiv> rank_candidates env burstRunning"
  shows "(res = NotCommitted \<longrightarrow> eff = no_effects)
    \<and> (res \<noteq> NotCommitted \<longrightarrow> (\<exists>sized vs.
         size_preemptor Q cluster nodeRes nodeResTotal nodeLabels (rc_nodeOf rc) (rc_candidates rc) preemptor = Some sized
         \<and> placeableWithout Q avail nodeAvail nodeRes nodeLabels (rc_nodeOf rc) sized vs
         \<and> \<not> placeableWithout Q avail nodeAvail nodeRes nodeLabels (rc_nodeOf rc) sized []
         \<and> (\<forall>v \<in> set vs. v \<in> set burstRunning \<and> ObservedElapsedHours env (ex_ID v) \<noteq> None
              \<and> LatestExperimentNode env (ex_ID v) = Some (Some (gets (rc_nodeOf rc) (ex_ID v))))
         \<and> subseq (map fst (pe_requeued eff)) (map ex_ID vs)
         \<and> pe_settled eff = map fst (pe_requeued eff)
         \<and> (res = Committed \<longleftrightarrow> map fst (pe_requeued eff) = map ex_ID vs)))"
proof (cases "res = NotCommitted")
  case True
  then show ?thesis
    using assms(1) by (auto simp: preempt_def preempt_plan_def preempt_outcome_def Let_def split: if_splits option.splits)
next
  case False
  let ?P = "\<lambda>sized. placeableWithout Q avail nodeAvail nodeRes nodeLabels (rc_nodeOf rc) sized"
  let ?cands = "sort_slice (victim_before Q (rc_elapsed rc)) (rc_candidates rc)"
  from False assms(1) obtain sized vs where s:
    "size_preemptor Q cluster nodeRes nodeResTotal nodeLabels (rc_nodeOf rc) (rc_candidates rc) preemptor = Some sized"
    "choose_victims (?P sized) ?cands = Some vs" "eff = requeue_victims env vs"
    "res = (if length (pe_requeued eff) = length vs then Committed else Partly (int (length (pe_requeued eff))) (int (length vs)))"
    unfolding preempt_def preempt_plan_def preempt_outcome_def Let_def rc_def [symmetric] by (auto split: if_splits option.splits)
  note w = requeue_victims_writes [of env vs, folded s(3)]
  have v: "\<forall>v \<in> set vs. v \<in> set burstRunning \<and> ObservedElapsedHours env (ex_ID v) \<noteq> None
      \<and> LatestExperimentNode env (ex_ID v) = Some (Some (gets (rc_nodeOf rc) (ex_ID v)))"
  proof
    fix v
    assume "v \<in> set vs"
    then have m: "v \<in> set (filter (rankable env) burstRunning)"
      using subseq_set [OF preempt_plan.plan_sound(2) [OF s(2)]] by (simp add: rc_def rc_candidates_rank)
    then have "v \<in> set burstRunning" "ObservedElapsedHours env (ex_ID v) \<noteq> None" by (simp_all add: rankable_def)
    with rc_nodeOf_rank [OF m] show "v \<in> set burstRunning \<and> ObservedElapsedHours env (ex_ID v) \<noteq> None
      \<and> LatestExperimentNode env (ex_ID v) = Some (Some (gets (rc_nodeOf rc) (ex_ID v)))"
      by (simp add: rc_def)
  qed
  have c: "res = Committed \<longleftrightarrow> map fst (pe_requeued eff) = map ex_ID vs"
    unfolding s(4) using w(1) [THEN conjunct1] subseq_same_length [of "map fst (pe_requeued eff)" "map ex_ID vs"]
    by (auto dest: arg_cong [of _ _ length])
  show ?thesis
    using False s(1) preempt_plan.plan_sound(1,3) [OF s(2)] v w c by blast
qed

definition sample_env :: preempt_env where
  "sample_env = \<lparr>ObservedElapsedHours = (\<lambda>id. if id = ''b1'' then Some 1 else None),
     LatestExperimentNode = (\<lambda>id. Some (Some ''n1'')),
     ObservedStintElapsedHours = (\<lambda>id. Some 1), RequeuePreempted = (\<lambda>id remaining cost. Some True)\<rparr>"

definition sample_burst :: Experiment where
  "sample_burst = sample_exp\<lparr>ex_ID := ''b1'', ex_CapacityTier := CapacityBurst, ex_ClusterName := ''c''\<rparr>"

definition full_node :: capmap where
  "full_node = [(''n1'', [(''nvidia.com/gpu.product=A100'', 0)])]"

definition full_node_res :: capmap where
  "full_node_res = [(''n1'', [(NodeResourceCPUMillicores, 0), (NodeResourceMemoryBytes, 0), (NodeResourceStorageBytes, 0)])]"

theorem preempt_complete_plan_witness:
  "preempt sample_Q sample_env ''c'' [] full_node full_node_res full_node_res [(''n1'', [])] [sample_burst, sample_two] sample_exp
     = (Committed, \<lparr>pe_requeued = [(''b1'', 1, 1)], pe_settled = [''b1'']\<rparr>)
   \<and> (\<exists>vs. placeableWithout sample_Q [] full_node full_node_res [(''n1'', [])]
          (rc_nodeOf (rank_candidates sample_env [sample_burst, sample_two])) sample_exp vs \<and> map ex_ID vs = [''b1''])"
proof -
  have e: "preempt sample_Q sample_env ''c'' [] full_node full_node_res full_node_res [(''n1'', [])] [sample_burst, sample_two] sample_exp
     = (Committed, \<lparr>pe_requeued = [(''b1'', 1, 1)], pe_settled = [''b1'']\<rparr>)" by code_simp
  have sz: "size_preemptor sample_Q ''c'' full_node_res full_node_res [(''n1'', [])]
      (rc_nodeOf (rank_candidates sample_env [sample_burst, sample_two]))
      (rc_candidates (rank_candidates sample_env [sample_burst, sample_two])) sample_exp = Some sample_exp" by code_simp
  show ?thesis using preempt_complete_plan [OF e] e sz by auto
qed

text \<open>a preempted job is requeued with what is left of its estimate and never with more. For a job with a
  positive estimate and a stint that ran for no negative time, the remaining hours are positive and at most the
  estimate, and the remaining cost is to the remaining hours as the cost was to the estimate, so the
  rate per hour is unchanged.\<close>

theorem rescale_keeps_rate:
  assumes "0 < ex_EstimatedDurationHours victim" and "0 \<le> stint" and "rescale victim stint = (remaining, cost)"
  shows "0 < remaining \<and> remaining \<le> ex_EstimatedDurationHours victim
    \<and> cost / remaining = ex_EstimatedCostAccH victim / ex_EstimatedDurationHours victim"
proof -
  let ?d = "ex_EstimatedDurationHours victim"
  have r: "remaining = (if ?d - stint \<le> 0 then min MinRemainingHours ?d else ?d - stint)"
    and "cost = ex_EstimatedCostAccH victim * ((if ?d - stint \<le> 0 then min MinRemainingHours ?d else ?d - stint) / ?d)"
    using assms(1,3) by (auto simp: rescale_def Let_def)
  then have c: "cost = ex_EstimatedCostAccH victim * (remaining / ?d)" by (simp only:)
  have pos: "0 < remaining" using assms(1) by (simp add: r MinRemainingHours_def)
  moreover have "remaining \<le> ?d" using assms(1,2) by (simp add: r)
  ultimately show ?thesis using assms(1) by (simp add: c field_simps)
qed

theorem rescale_keeps_rate_witness:
  "rescale sample_exp 5 = (1 / 4, 1 / 4)
   \<and> (1 / 4) / (1 / 4) = ex_EstimatedCostAccH sample_exp / ex_EstimatedDurationHours sample_exp"
proof -
  have e: "rescale sample_exp 5 = (1 / 4, 1 / 4)"
    by (simp add: rescale_def sample_exp_def MinRemainingHours_def Let_def)
  have d: "0 < ex_EstimatedDurationHours sample_exp" by (simp add: sample_exp_def)
  show ?thesis using rescale_keeps_rate [OF d _ e] e by simp
qed

end
