(* ===== verification/Job_Properties.thy ===== *)
theory Job_Properties
  imports Samples
begin

text \<open>
  Properties of footprints and shares (controlplane/domain/resource.go and experiment.go),
  with their instances on the sample data.
\<close>

text \<open>a job's footprint is what its nodes hold. In each of cpu, memory and storage the footprint
  is the sum over the job's node shapes, the same shapes placement puts on nodes one by one; a
  grouped job is counted group by group, never as an average. Its accelerators are the job's total
  under the type it carries, and no other accelerator type appears.\<close>

theorem footprint_is_node_sum:
  assumes "\<And>g. g \<in> set (NodeGroups (EffectiveJob e)) \<Longrightarrow> 0 \<le> jg_Replicas g"
    and "key \<in> node_dimensions"
  shows "geti (exp_Footprint Q e) (nodeResourceKeys key) =
       sum_list (map (\<lambda>s. geti (ns_Resources s) key) (NodeShapes Q e))
     \<and> geti (exp_Footprint Q e) (ResourceKey ResourceKindAccelerator t) =
         (if 0 < ex_AcceleratorCount e \<and> ex_AcceleratorType e \<noteq> [] \<and> t = ex_AcceleratorType e
          then ex_AcceleratorCount e else 0)"
  using sum_NodeShapes [OF assms(1), where f = "\<lambda>s. geti (ns_Resources s) key" and Q = Q]
  by (simp add: geti_exp_Footprint_node [OF assms(2)] geti_exp_Footprint_accelerator)

theorem footprint_is_node_sum_witness:
  "geti (exp_Footprint sample_Q sample_two) (nodeResourceKeys NodeResourceCPUMillicores) =
     sum_list (map (\<lambda>s. geti (ns_Resources s) NodeResourceCPUMillicores) (NodeShapes sample_Q sample_two))
   \<and> geti (exp_Footprint sample_Q sample_two) (nodeResourceKeys NodeResourceCPUMillicores) = 8000"
proof -
  have r: "0 \<le> jg_Replicas g" if "g \<in> set (NodeGroups (EffectiveJob sample_two))" for g
  proof -
    have "list_all (\<lambda>g. 0 \<le> jg_Replicas g) (NodeGroups (EffectiveJob sample_two))" by code_simp
    with that show ?thesis by (simp add: list_all_iff)
  qed
  have "NodeResourceCPUMillicores \<in> node_dimensions" by (simp add: node_dimensions_def)
  from footprint_is_node_sum [OF r this, where Q = sample_Q]
  have "geti (exp_Footprint sample_Q sample_two) (nodeResourceKeys NodeResourceCPUMillicores) =
     sum_list (map (\<lambda>s. geti (ns_Resources s) NodeResourceCPUMillicores) (NodeShapes sample_Q sample_two))"
    by simp
  moreover have "geti (exp_Footprint sample_Q sample_two) (nodeResourceKeys NodeResourceCPUMillicores) = 8000"
    by code_simp
  ultimately show ?thesis by simp
qed

text \<open>the fit check fails closed. A footprint fits a capacity exactly when every dimension it asks
  a positive amount of is there in full, where a dimension the capacity does not report counts as
  zero; and adding capacity never makes a fitting footprint stop fitting.\<close>

theorem Fits_exact:
  assumes "wf_map fp"
  shows "(Fits capacity fp \<longleftrightarrow> (\<forall>k. 0 < geti fp k \<longrightarrow> geti fp k \<le> geti capacity k))
     \<and> ((\<forall>k. geti capacity k \<le> geti larger k) \<longrightarrow> Fits capacity fp \<longrightarrow> Fits larger fp)"
  using Fits_iff [OF assms] Fits_mono by blast

theorem Fits_exact_witness:
  "Fits [(ResourceKey ResourceKindCPU [], 5)] [(ResourceKey ResourceKindCPU [], 3)]
   \<and> Fits [(ResourceKey ResourceKindCPU [], 6)] [(ResourceKey ResourceKindCPU [], 3)]"
proof -
  let ?fp = "[(ResourceKey ResourceKindCPU [], 3)] :: Footprint"
  let ?c = "[(ResourceKey ResourceKindCPU [], 5)] :: Footprint"
  let ?d = "[(ResourceKey ResourceKindCPU [], 6)] :: Footprint"
  have wf: "wf_map ?fp" by code_simp
  have "Fits ?c ?fp" by code_simp
  moreover have "\<forall>k. geti ?c k \<le> geti ?d k" by (simp add: mget_def)
  ultimately show ?thesis using Fits_exact [OF wf, of ?c ?d] by blast
qed

text \<open>adding and subtracting footprints are inverse in every dimension, and both keep one entry
  per dimension.\<close>

theorem footprint_add_sub:
  assumes "wf_map f" and "wf_map g"
  shows "geti (fp_Sub (AddFootprint f g) g) k = geti f k
     \<and> geti (AddFootprint f g) k = geti f k + geti g k
     \<and> wf_map (AddFootprint f g) \<and> wf_map (fp_Sub f g)"
  using assms by (simp add: geti_fp_Sub geti_AddFootprint)

theorem footprint_add_sub_witness:
  "geti (fp_Sub (AddFootprint (exp_Footprint sample_Q sample_exp) (exp_Footprint sample_Q sample_two))
     (exp_Footprint sample_Q sample_two)) (ResourceKey ResourceKindCPU [])
   = geti (exp_Footprint sample_Q sample_exp) (ResourceKey ResourceKindCPU [])"
  using footprint_add_sub [of "exp_Footprint sample_Q sample_exp" "exp_Footprint sample_Q sample_two"
      "ResourceKey ResourceKindCPU []"] by simp

text \<open>the fair share of a node. For held accelerators of installed ones, and an amount whose
  product with them stays in 64 bits, the share is the proportionate part rounded down; the shares of
  jobs that together hold no more than is installed never exceed the node; and only a node with
  nothing installed is an error.\<close>

theorem FairShare_proportionate:
  assumes "0 < installed" and "0 < amount"
    and "\<And>h. h \<in> set held \<Longrightarrow> 0 < h \<and> amount * h < 2 ^ 63"
    and "sum_list held \<le> installed"
  shows "\<exists>shares. list_all2 (\<lambda>h s. FairShare amount h installed = Inr s
       \<and> s * installed \<le> amount * h \<and> amount * h < (s + 1) * installed) held shares
     \<and> sum_list shares \<le> amount"
proof -
  let ?s = "\<lambda>h. amount * h div installed"
  have each: "FairShare amount h installed = Inr (?s h) \<and> ?s h * installed \<le> amount * h
      \<and> amount * h < (?s h + 1) * installed" if "h \<in> set held" for h
  proof -
    have "?s h * installed + amount * h mod installed = amount * h" by (rule div_mult_mod_eq)
    moreover have "0 \<le> amount * h mod installed" "amount * h mod installed < installed"
      using assms(1) by simp_all
    moreover have "(?s h + 1) * installed = ?s h * installed + installed" by (simp add: distrib_right)
    ultimately have "?s h * installed \<le> amount * h" "amount * h < (?s h + 1) * installed" by linarith+
    with FairShare_value [OF assms(1) _ assms(2)] assms(3) [OF that] show ?thesis by simp
  qed
  have "sum_list (map ?s held) * installed \<le> amount * sum_list held"
    by (rule sum_div_le [OF assms(1)])
  also have "\<dots> \<le> amount * installed" using assms(2,4) by simp
  finally have "sum_list (map ?s held) \<le> amount" using assms(1) by simp
  moreover have "list_all2 (\<lambda>h s. FairShare amount h installed = Inr s
       \<and> s * installed \<le> amount * h \<and> amount * h < (s + 1) * installed) held (map ?s held)"
    using each by (simp add: list_all2_map2 list.rel_refl_strong)
  ultimately show ?thesis by blast
qed

theorem FairShare_proportionate_witness:
  "\<exists>shares. list_all2 (\<lambda>h s. FairShare 64000 h 8 = Inr s
       \<and> s * 8 \<le> 64000 * h \<and> 64000 * h < (s + 1) * 8) [2, 3, 3] shares \<and> sum_list shares \<le> 64000"
  by (rule FairShare_proportionate) auto

end
