(* ===== verification/Standings.thy ===== *)
theory Standings
  imports QueueOrder
begin

text \<open>
  Who is ahead in a platform experiment: the metrics it declares (contract/experimentspec/metric.go), which completed
  jobs hold its constraints and the best value of each agent over those (storage/metricsdb/metric_standings.go), and
  the standings made of them (service/platformexperiments/results.go).

  A metric value is a rational where Go has a finite float64: QueryVector fails on any other.  What a query of the metrics
  store answers is a parameter, \<open>None\<close> where it fails; the PromQL it is asked in is left out.  The sentence an
  unrankable job is given is left out too, and its kind kept.
\<close>

subsection \<open>Declared metrics\<close>

type_synonym MetricRole = string

definition MetricRoleRanking :: MetricRole where "MetricRoleRanking = ''ranking''"
definition MetricRoleConstraint :: MetricRole where "MetricRoleConstraint = ''constraint''"
definition MetricRoleAttribute :: MetricRole where "MetricRoleAttribute = ''attribute''"
definition MetricRoleReference :: MetricRole where "MetricRoleReference = ''reference''"

lemmas role_defs = MetricRoleRanking_def MetricRoleConstraint_def MetricRoleAttribute_def MetricRoleReference_def

definition ValidMetricRole :: "MetricRole \<Rightarrow> bool" where
  "ValidMetricRole role \<longleftrightarrow>
     role \<in> {[], MetricRoleRanking, MetricRoleConstraint, MetricRoleAttribute, MetricRoleReference}"

record MetricDefinition =
  md_Key :: string
  md_Direction :: string
  md_Role :: MetricRole
  md_Bound :: "rat option"
  md_TargetVsBaseline :: "rat option"
  md_Deterministic :: bool

definition EffectiveRole :: "MetricDefinition \<Rightarrow> MetricRole" where
  "EffectiveRole d = (if md_Role d = [] then MetricRoleRanking else md_Role d)"

definition minimizes :: "string \<Rightarrow> bool" where
  "minimizes direction \<longleftrightarrow> direction = ''minimize''"

definition MetricTarget :: "MetricDefinition \<Rightarrow> rat \<Rightarrow> rat option" where
  "MetricTarget d baseline =
     (case md_TargetVsBaseline d of
        None \<Rightarrow> None
      | Some t \<Rightarrow> if baseline = 0 then None else Some (baseline + t * \<bar>baseline\<bar>))"

text \<open>\<open>Holds\<close>; the bound is the one the definition points to.\<close>

definition HoldsBound :: "string \<Rightarrow> rat \<Rightarrow> rat \<Rightarrow> bool" where
  "HoldsBound direction bound v = (if minimizes direction then v \<le> bound else v \<ge> bound)"

definition MetricScore :: "string \<Rightarrow> rat \<Rightarrow> rat" where
  "MetricScore direction v = (if minimizes direction then - v else v)"

definition Better :: "string \<Rightarrow> rat \<Rightarrow> rat \<Rightarrow> bool" where
  "Better direction a b \<longleftrightarrow> MetricScore direction a > MetricScore direction b"

text \<open>What ValidateMetricDefinitions refuses; the index and the key it names in the sentence are left out.  A rational is always finite.\<close>

datatype metric_error =
  KeyRequired | DuplicateKey | BadDirection | BadRole | BoundRequired | BoundMeaningless
  | TargetMeaningless | TargetNotAbove | TargetNotBelow

definition validateTarget :: "MetricDefinition \<Rightarrow> metric_error option" where
  "validateTarget d =
     (case md_TargetVsBaseline d of
        None \<Rightarrow> None
      | Some t \<Rightarrow>
          if EffectiveRole d \<noteq> MetricRoleRanking then Some TargetMeaningless
          else if md_Direction d = ''maximize'' \<and> t \<le> 0 then Some TargetNotAbove
          else if md_Direction d = ''minimize'' \<and> t \<ge> 0 then Some TargetNotBelow
          else None)"

definition validate_metric :: "string list \<Rightarrow> MetricDefinition \<Rightarrow> metric_error option" where
  "validate_metric seen d =
     (if md_Key d = [] then Some KeyRequired
      else if md_Key d \<in> set seen then Some DuplicateKey
      else if md_Direction d \<noteq> ''maximize'' \<and> md_Direction d \<noteq> ''minimize'' then Some BadDirection
      else if \<not> ValidMetricRole (md_Role d) then Some BadRole
      else if EffectiveRole d = MetricRoleConstraint \<and> md_Bound d = None then Some BoundRequired
      else if EffectiveRole d \<noteq> MetricRoleConstraint \<and> md_Bound d \<noteq> None then Some BoundMeaningless
      else validateTarget d)"

fun validate_metrics :: "string list \<Rightarrow> MetricDefinition list \<Rightarrow> metric_error option" where
  "validate_metrics seen [] = None"
| "validate_metrics seen (d # ds) =
     (case validate_metric seen d of Some err \<Rightarrow> Some err | None \<Rightarrow> validate_metrics (md_Key d # seen) ds)"

definition ValidateMetricDefinitions :: "MetricDefinition list \<Rightarrow> metric_error option" where
  "ValidateMetricDefinitions defs = validate_metrics [] defs"

definition PrimaryRankingMetric :: "MetricDefinition list \<Rightarrow> MetricDefinition option" where
  "PrimaryRankingMetric defs = find (\<lambda>d. EffectiveRole d = MetricRoleRanking) defs"

text \<open>\<open>True\<close> where the definitions are refused.\<close>

definition RequireRankingMetric :: "MetricDefinition list \<Rightarrow> bool" where
  "RequireRankingMetric defs \<longleftrightarrow> PrimaryRankingMetric defs = None"

subsection \<open>Which jobs rank\<close>

definition BasisRaw :: string where "BasisRaw = ''raw''"

record VectorSample =
  vs_Labels :: "(string, string) gomap"
  vs_Value :: rat

abbreviation vs_job :: "VectorSample \<Rightarrow> string" where "vs_job s \<equiv> gets (vs_Labels s) ''job_id''"
abbreviation vs_agent :: "VectorSample \<Rightarrow> string" where "vs_agent s \<equiv> gets (vs_Labels s) ''agent_id''"
abbreviation vs_basis :: "VectorSample \<Rightarrow> string" where "vs_basis s \<equiv> gets (vs_Labels s) ''metric_basis''"

text \<open>What the metrics store answers for the last values on a metric, by job and by agent and job.\<close>

record metric_queries =
  mq_by_job :: "string \<Rightarrow> VectorSample list option"
  mq_by_agent :: "string \<Rightarrow> VectorSample list option"

datatype unrankable_reason = Violates string rat | NotReported string

definition raw_values :: "VectorSample list \<Rightarrow> (string, rat) gomap" where
  "raw_values samples = fold (\<lambda>s m. if vs_basis s = BasisRaw then mput (vs_job s) (vs_Value s) m else m) samples []"

definition violations :: "string \<Rightarrow> rat \<Rightarrow> VectorSample list \<Rightarrow> (string, rat) gomap" where
  "violations direction bound samples =
     fold (\<lambda>s m. if vs_basis s = BasisRaw \<and> \<not> HoldsBound direction bound (vs_Value s) then mput (vs_job s) (vs_Value s) m else m)
       samples []"

type_synonym judgement = "(string, unrankable_reason) gomap \<times> string list"

definition judge_job :: "string \<Rightarrow> (string, rat) gomap \<Rightarrow> (string, rat) gomap \<Rightarrow> string \<Rightarrow> judgement \<Rightarrow> judgement" where
  "judge_job key reported violated job = (\<lambda>(unrankable, broken).
     let broke = map_of violated job; broken = (if broke = None then broken else List.insert job broken)
     in if job \<in> set (keys unrankable) then (unrankable, broken)
        else case broke of
               Some v \<Rightarrow> (mput job (Violates key v) unrankable, broken)
             | None \<Rightarrow> if job \<notin> set (keys reported) then (mput job (NotReported key) unrankable, broken)
                       else (unrankable, broken))"

text \<open>
  The jobs of \<open>completed\<close> are visited in any order.  \<open>None\<close> is the panic of a constraint without a
  bound, which ValidateMetricDefinitions refuses.
\<close>

definition judgeConstraint :: "MetricDefinition \<Rightarrow> VectorSample list \<Rightarrow> string list \<Rightarrow> judgement \<Rightarrow> judgement option" where
  "judgeConstraint d samples completed judged =
     (case md_Bound d of
        None \<Rightarrow> None
      | Some bound \<Rightarrow>
          Some (fold (judge_job (md_Key d) (raw_values samples) (violations (md_Direction d) bound samples)) completed judged))"

fun judgeConstraints :: "metric_queries \<Rightarrow> MetricDefinition list \<Rightarrow> string list \<Rightarrow> judgement \<Rightarrow> judgement option" where
  "judgeConstraints q [] completed judged = Some judged"
| "judgeConstraints q (d # ds) completed judged =
     (if EffectiveRole d \<noteq> MetricRoleConstraint then judgeConstraints q ds completed judged
      else case mq_by_job q (md_Key d) of
             None \<Rightarrow> None
           | Some samples \<Rightarrow>
               (case judgeConstraint d samples completed judged of
                  None \<Rightarrow> None | Some judged \<Rightarrow> judgeConstraints q ds completed judged))"

definition UnrankableJobs :: "metric_queries \<Rightarrow> MetricDefinition list \<Rightarrow> string list \<Rightarrow> (string, unrankable_reason) gomap option" where
  "UnrankableJobs q metrics completed = map_option fst (judgeConstraints q metrics completed ([], []))"

definition RankableJobs :: "metric_queries \<Rightarrow> MetricDefinition list \<Rightarrow> string list \<Rightarrow> string list option" where
  "RankableJobs q metrics completed =
     map_option (\<lambda>unrankable. filter (\<lambda>job. job \<notin> set (keys unrankable)) completed) (UnrankableJobs q metrics completed)"

datatype constraints_met = ConstraintsHeld | ConstraintsBroken | ConstraintsUnknown

definition ConstraintsMet :: "metric_queries \<Rightarrow> MetricDefinition list \<Rightarrow> string list \<Rightarrow> (string, constraints_met) gomap option" where
  "ConstraintsMet q metrics completed =
     map_option (\<lambda>(unrankable, broken).
       map (\<lambda>job. (job, if job \<in> set broken then ConstraintsBroken
                         else if job \<in> set (keys unrankable) then ConstraintsUnknown else ConstraintsHeld)) completed)
       (judgeConstraints q metrics completed ([], []))"

subsection \<open>The best of each agent\<close>

record AgentBest =
  ab_Value :: rat
  ab_ExperimentID :: string

definition betterOn :: "string \<Rightarrow> AgentBest \<Rightarrow> AgentBest \<Rightarrow> bool" where
  "betterOn direction a b =
     (if ab_Value a = ab_Value b then ab_ExperimentID a < ab_ExperimentID b else Better direction (ab_Value a) (ab_Value b))"

definition keep_best :: "string \<Rightarrow> string \<Rightarrow> AgentBest \<Rightarrow> (string, AgentBest) gomap \<Rightarrow> (string, AgentBest) gomap" where
  "keep_best direction agentID cand best =
     (case map_of best agentID of
        None \<Rightarrow> mput agentID cand best
      | Some cur \<Rightarrow> if betterOn direction cand cur then mput agentID cand best else best)"

text \<open>\<open>None\<close> is the error of a sample that names no agent; the second result is the agents seen on another basis.\<close>

fun best_walk :: "string \<Rightarrow> string list \<Rightarrow> VectorSample list \<Rightarrow> (string, AgentBest) gomap \<times> string list
    \<Rightarrow> ((string, AgentBest) gomap \<times> string list) option" where
  "best_walk direction rankable [] acc = Some acc"
| "best_walk direction rankable (s # ss) (best, nonRaw) =
     (if vs_job s \<notin> set rankable then best_walk direction rankable ss (best, nonRaw)
      else if vs_agent s = [] then None
      else if vs_basis s \<noteq> BasisRaw then best_walk direction rankable ss (best, List.insert (vs_agent s) nonRaw)
      else best_walk direction rankable ss
             (keep_best direction (vs_agent s) \<lparr>ab_Value = vs_Value s, ab_ExperimentID = vs_job s\<rparr> best, nonRaw))"

definition sortedKeys :: "string list \<Rightarrow> string list" where
  "sortedKeys xs = sort_slice (<) xs"

definition bestOf :: "MetricDefinition \<Rightarrow> VectorSample list \<Rightarrow> string list \<Rightarrow> ((string, AgentBest) gomap \<times> string list) option" where
  "bestOf d samples rankable =
     map_option (\<lambda>(best, nonRaw). (best, sortedKeys nonRaw)) (best_walk (md_Direction d) rankable samples ([], []))"

definition bestOver :: "metric_queries \<Rightarrow> MetricDefinition \<Rightarrow> string list \<Rightarrow> ((string, AgentBest) gomap \<times> string list) option" where
  "bestOver q d jobs = Option.bind (mq_by_agent q (md_Key d)) (\<lambda>samples. bestOf d samples jobs)"

definition BestPerAgentOnMetric :: "metric_queries \<Rightarrow> MetricDefinition list \<Rightarrow> MetricDefinition \<Rightarrow> string list
    \<Rightarrow> ((string, AgentBest) gomap \<times> string list) option" where
  "BestPerAgentOnMetric q metrics d completed = Option.bind (RankableJobs q metrics completed) (bestOver q d)"

record JobValue =
  jv_AgentID :: string
  jv_ExperimentID :: string
  jv_Value :: rat

definition LastPerJobOnMetric :: "metric_queries \<Rightarrow> MetricDefinition \<Rightarrow> string list \<Rightarrow> JobValue list option" where
  "LastPerJobOnMetric q d completed =
     map_option (\<lambda>samples.
       sort_slice (\<lambda>a b. if jv_AgentID a \<noteq> jv_AgentID b then jv_AgentID a < jv_AgentID b
                         else jv_ExperimentID a < jv_ExperimentID b)
         (map (\<lambda>s. \<lparr>jv_AgentID = vs_agent s, jv_ExperimentID = vs_job s, jv_Value = vs_Value s\<rparr>)
           (filter (\<lambda>s. vs_job s \<in> set completed \<and> vs_basis s = BasisRaw) samples)))
       (mq_by_agent q (md_Key d))"

subsection \<open>Standings\<close>

record AgentStanding =
  as_Rank :: int
  as_AgentID :: string
  as_Best :: rat
  as_ExperimentID :: string
  as_BeatsBaseline :: "bool option"

definition standing_before :: "string \<Rightarrow> AgentStanding \<Rightarrow> AgentStanding \<Rightarrow> bool" where
  "standing_before direction a b =
     (if as_Best a \<noteq> as_Best b then Better direction (as_Best a) (as_Best b) else as_AgentID a < as_AgentID b)"

text \<open>The place of each standing in the list and the rank of the one before it, \<open>None\<close> at the first.\<close>

fun assign_ranks :: "int \<Rightarrow> (rat \<times> int) option \<Rightarrow> AgentStanding list \<Rightarrow> AgentStanding list" where
  "assign_ranks i before [] = []"
| "assign_ranks i before (s # ss) =
     (let r = (case before of Some (best, r) \<Rightarrow> if as_Best s = best then r else i + 1 | None \<Rightarrow> i + 1)
      in s\<lparr>as_Rank := r\<rparr> # assign_ranks (i + 1) (Some (as_Best s, r)) ss)"

definition assignRanks :: "AgentStanding list \<Rightarrow> AgentStanding list" where
  "assignRanks ss = assign_ranks 0 None ss"

definition standing_of :: "string \<times> AgentBest \<Rightarrow> AgentStanding" where
  "standing_of = (\<lambda>(agentID, b). \<lparr>as_Rank = 0, as_AgentID = agentID, as_Best = ab_Value b,
      as_ExperimentID = ab_ExperimentID b, as_BeatsBaseline = None\<rparr>)"

definition order_standings :: "MetricDefinition \<Rightarrow> (string, AgentBest) gomap \<Rightarrow> string list \<Rightarrow> AgentStanding list" where
  "order_standings d best executors =
     assignRanks (sort_slice (standing_before (md_Direction d))
       (map standing_of (filter (\<lambda>(agentID, b). agentID \<in> set executors) best)))"

text \<open>The declared baseline's value on the metric, and the standings with whether each beats it; \<open>None\<close> is a failed read.\<close>

definition setAgainstBaseline :: "metric_queries \<Rightarrow> MetricDefinition \<Rightarrow> string \<Rightarrow> AgentStanding list
    \<Rightarrow> (rat option \<times> AgentStanding list) option" where
  "setAgainstBaseline q d baselineJobID ss =
     (if baselineJobID = [] then Some (None, ss)
      else case LastPerJobOnMetric q d [baselineJobID] of
             None \<Rightarrow> None
           | Some [] \<Rightarrow> Some (None, ss)
           | Some (v # vs) \<Rightarrow>
               Some (Some (jv_Value v),
                 map (\<lambda>s. s\<lparr>as_BeatsBaseline := Some (Better (md_Direction d) (as_Best s) (jv_Value v))\<rparr>) ss))"

subsection \<open>References\<close>

record ReferenceValue =
  rv_AgentID :: string
  rv_Value :: rat
  rv_ExperimentID :: string
  rv_ConstraintsMet :: "constraints_met option"

record MetricReference =
  mr_Metric :: string
  mr_Direction :: string
  mr_Values :: "ReferenceValue list"
  mr_Best :: "rat option"
  mr_LeaderMetric :: string
  mr_Leader :: "rat option"
  mr_Beaten :: "bool option"

record MetricStandings =
  ms_Metric :: string
  ms_Direction :: string
  ms_Standings :: "AgentStanding list"
  ms_Baseline :: "rat option"

definition reference_of :: "(string, constraints_met) gomap \<Rightarrow> MetricDefinition \<Rightarrow> JobValue list \<Rightarrow> MetricReference" where
  "reference_of met d vs =
     \<lparr>mr_Metric = md_Key d, mr_Direction = md_Direction d,
      mr_Values = map (\<lambda>v. \<lparr>rv_AgentID = jv_AgentID v, rv_Value = jv_Value v, rv_ExperimentID = jv_ExperimentID v,
                              rv_ConstraintsMet = map_of met (jv_ExperimentID v)\<rparr>) vs,
      mr_Best = None, mr_LeaderMetric = [], mr_Leader = None, mr_Beaten = None\<rparr>"

fun reference_walk :: "metric_queries \<Rightarrow> (string, constraints_met) gomap \<Rightarrow> string list \<Rightarrow> MetricDefinition list \<Rightarrow> MetricReference list option" where
  "reference_walk q met completed [] = Some []"
| "reference_walk q met completed (d # ds) =
     (if EffectiveRole d \<noteq> MetricRoleReference then reference_walk q met completed ds
      else case LastPerJobOnMetric q d completed of
             None \<Rightarrow> None
           | Some vs \<Rightarrow> map_option ((#) (reference_of met d vs)) (reference_walk q met completed ds))"

definition references :: "metric_queries \<Rightarrow> MetricDefinition list \<Rightarrow> string list option \<Rightarrow> MetricReference list option" where
  "references q metrics completed =
     (if \<not> list_ex (\<lambda>d. EffectiveRole d = MetricRoleReference) metrics then Some []
      else Option.bind completed (\<lambda>completed.
        Option.bind (ConstraintsMet q metrics completed) (\<lambda>met. reference_walk q met completed metrics)))"

definition best_reference :: "string \<Rightarrow> ReferenceValue list \<Rightarrow> rat option" where
  "best_reference direction vs =
     fold (\<lambda>v best. if rv_ConstraintsMet v \<noteq> Some ConstraintsHeld then best
                    else case best of None \<Rightarrow> Some (rv_Value v)
                                    | Some b \<Rightarrow> if Better direction (rv_Value v) b then Some (rv_Value v) else Some b) vs None"

definition set_against_leader :: "MetricStandings list \<Rightarrow> MetricReference \<Rightarrow> MetricReference" where
  "set_against_leader metrics r =
     (let r = r\<lparr>mr_Best := best_reference (mr_Direction r) (mr_Values r)\<rparr>
      in case metrics of
           [] \<Rightarrow> r
         | primary # rest \<Rightarrow>
             if ms_Direction primary \<noteq> mr_Direction r then r
             else let r = r\<lparr>mr_LeaderMetric := ms_Metric primary\<rparr>
                  in case (ms_Standings primary, mr_Best r) of
                       (leader # ss, Some best) \<Rightarrow>
                         r\<lparr>mr_Leader := Some (as_Best leader), mr_Beaten := Some (Better (mr_Direction r) (as_Best leader) best)\<rparr>
                     | _ \<Rightarrow> r)"

definition setAgainstLeader :: "MetricStandings list \<Rightarrow> MetricReference list \<Rightarrow> MetricReference list" where
  "setAgainstLeader metrics refs = map (set_against_leader metrics) refs"

end
