(* ===== verification/Ladder.thy ===== *)
theory Ladder
  imports Standings
begin

text \<open>
  The stage ladder of a platform experiment: its stages and their validation (contract/experimentspec/stage.go), the clock that
  drives it and what a boundary releases (domain/stage.go), and who is cut at a boundary
  (service/controller/stages_rank.go, stages.go).

  Percentages, hours and progress are rationals where Go has float64, so the rounding of a product such as
  \<open>evict_pct / 100 * survivors\<close> is not modelled.  A time is the number of nanoseconds since Go's zero time.
  What the stores answer is a parameter, \<open>None\<close> where a read fails.
\<close>

subsection \<open>Stages\<close>

definition MaxStages :: nat where "MaxStages = 8"
definition MinExecutorsForCut :: nat where "MinExecutorsForCut = 5"

record Stage =
  st_LengthPct :: rat
  st_EvictPct :: rat
  st_MaxJobHours :: rat

definition ReleaseFrac :: "Stage \<Rightarrow> rat" where
  "ReleaseFrac s = st_LengthPct s / 100"

text \<open>What ValidateStages refuses; the stage it names in the sentence is left out.\<close>

datatype stage_error = StageCount | LengthPct | EvictPct | MaxJobHours | LengthSum | FinalEvicts

definition validate_stage :: "Stage \<Rightarrow> stage_error option" where
  "validate_stage s =
     (if st_LengthPct s \<le> 0 then Some LengthPct
      else if st_EvictPct s < 0 \<or> st_EvictPct s \<ge> 100 then Some EvictPct
      else if st_MaxJobHours s < 0 then Some MaxJobHours
      else None)"

fun first_error :: "'e option list \<Rightarrow> 'e option" where
  "first_error [] = None"
| "first_error (e # es) = (case e of Some err \<Rightarrow> Some err | None \<Rightarrow> first_error es)"

definition ValidateStages :: "Stage list \<Rightarrow> stage_error option" where
  "ValidateStages stages =
     (if stages = [] \<or> length stages > MaxStages then Some StageCount
      else case first_error (map validate_stage stages) of
             Some err \<Rightarrow> Some err
           | None \<Rightarrow>
               let total = sum_list (map st_LengthPct stages)
               in if total < 99999 / 1000 \<or> total > 100001 / 1000 then Some LengthSum
                  else if st_EvictPct (last stages) \<noteq> 0 then Some FinalEvicts else None)"

definition RunStages :: "Stage list \<Rightarrow> nat \<Rightarrow> Stage list" where
  "RunStages stages executors =
     (if executors \<ge> MinExecutorsForCut \<or> stages = [] then stages
      else [\<lparr>st_LengthPct = 100, st_EvictPct = 0, st_MaxJobHours = st_MaxJobHours (last stages)\<rparr>])"

subsection \<open>The clock\<close>

text \<open>The fields of a platform experiment the ladder reads.\<close>

record PlatformExperiment =
  pe_ID :: string
  pe_Running :: bool
  pe_Metrics :: "MetricDefinition list"
  pe_Stages :: "Stage list"
  pe_CurrentStage :: int
  pe_StartedAt :: int
  pe_EndsAt :: int
  pe_BudgetAcceleratorHours :: rat
  pe_ReportIntervalSeconds :: int

text \<open>A conversion of a float64 to an integer drops the fraction.\<close>

definition go_trunc :: "rat \<Rightarrow> int" where
  "go_trunc x = (if x < 0 then \<lceil>x\<rceil> else \<lfloor>x\<rfloor>)"

text \<open>\<open>RoundHours\<close> (domain/credits.go).\<close>

definition RoundHours :: "rat \<Rightarrow> rat" where
  "RoundHours hours = of_int (go_round (hours * 10 ^ 6)) / 10 ^ 6"

definition StageProgress :: "rat \<Rightarrow> rat \<Rightarrow> int \<Rightarrow> int \<Rightarrow> int \<Rightarrow> rat" where
  "StageProgress consumed budget startedAt endsAt now =
     (let budgetProgress = (if budget > 0 then consumed / budget else 0);
          window = endsAt - startedAt;
          timeProgress = (if window > 0 \<and> startedAt \<noteq> 0 \<and> endsAt \<noteq> 0
                          then of_int (now - startedAt) / of_int window else 0)
      in min 1 (max timeProgress budgetProgress))"

definition BoundaryProgress :: "Stage list \<Rightarrow> int \<Rightarrow> rat" where
  "BoundaryProgress stages stageIndex = sum_list (map st_LengthPct (take (nat stageIndex) stages)) / 100"

definition CurrentStageDef :: "PlatformExperiment \<Rightarrow> Stage option" where
  "CurrentStageDef pe =
     (if pe_CurrentStage pe < 1 \<or> pe_CurrentStage pe > int (length (pe_Stages pe)) then None
      else Some (pe_Stages pe ! nat (pe_CurrentStage pe - 1)))"

definition CurrentMaxJobHours :: "PlatformExperiment \<Rightarrow> rat" where
  "CurrentMaxJobHours pe = (case CurrentStageDef pe of None \<Rightarrow> 0 | Some stage \<Rightarrow> st_MaxJobHours stage)"

definition StageEndsAt :: "PlatformExperiment \<Rightarrow> int \<Rightarrow> int" where
  "StageEndsAt pe stageIndex =
     (if pe_StartedAt pe = 0 then 0
      else pe_StartedAt pe
        + go_trunc (BoundaryProgress (pe_Stages pe) stageIndex * of_int (pe_EndsAt pe - pe_StartedAt pe)))"

text \<open>The maps are by agent; the callers have a survivor.\<close>

definition unspent_by :: "(string, rat) gomap \<Rightarrow> (string, rat) gomap \<Rightarrow> rat" where
  "unspent_by allocated used =
     sum_list (map (\<lambda>(agentID, a). let unspent = a - mget 0 used agentID in if unspent > 0 then unspent else 0) allocated)"

definition StageCredit :: "rat \<Rightarrow> rat \<Rightarrow> (string, rat) gomap \<Rightarrow> (string, rat) gomap \<Rightarrow> int \<Rightarrow> rat" where
  "StageCredit budget releaseFrac allocatedByCut usedByCut survivors =
     RoundHours ((budget * releaseFrac + unspent_by allocatedByCut usedByCut) / of_int survivors)"

text \<open>\<open>nextStageRelease\<close> (service/platformexperiments/next_stage.go): when the next stage starts by the clock and what it gives.\<close>

definition nextStageRelease :: "PlatformExperiment \<Rightarrow> rat \<Rightarrow> int \<Rightarrow> (int \<times> rat) option" where
  "nextStageRelease pe runBudget standing =
     (if \<not> pe_Running pe \<or> pe_CurrentStage pe < 1 \<or> pe_CurrentStage pe \<ge> int (length (pe_Stages pe)) \<or> standing = 0 then None
      else let startsAt = StageEndsAt pe (pe_CurrentStage pe)
           in if startsAt = 0 then None
              else Some (startsAt, StageCredit runBudget (ReleaseFrac (pe_Stages pe ! nat (pe_CurrentStage pe))) [] [] standing))"

definition boundariesProgress :: "Stage list \<Rightarrow> rat list" where
  "boundariesProgress stages = map (\<lambda>i. BoundaryProgress stages (int i)) [1 ..< length stages]"

subsection \<open>Ranking on one metric\<close>

record ranked =
  rk_agentID :: string
  rk_value :: rat
  rk_hasData :: bool

definition tied :: "ranked \<Rightarrow> ranked \<Rightarrow> bool" where
  "tied a b =
     (if rk_hasData a \<noteq> rk_hasData b then False else if \<not> rk_hasData a then True else rk_value a = rk_value b)"

text \<open>The order of the cut, worst first.\<close>

definition worse :: "string \<Rightarrow> ranked \<Rightarrow> ranked \<Rightarrow> bool" where
  "worse direction a b =
     (if rk_hasData a \<noteq> rk_hasData b then \<not> rk_hasData a
      else if \<not> rk_hasData a then False
      else Better direction (rk_value b) (rk_value a))"

definition minSurvivorsAfterCut :: int where "minSurvivorsAfterCut = 2"

definition cut_line :: "rat \<Rightarrow> nat \<Rightarrow> int" where
  "cut_line evictPct n = min (go_trunc (evictPct / 100 * of_nat n)) (int n - minSurvivorsAfterCut)"

text \<open>The line moves up until no tie straddles it.\<close>

fun back_off :: "ranked list \<Rightarrow> nat \<Rightarrow> nat" where
  "back_off order 0 = 0"
| "back_off order (Suc k) =
     (if Suc k < length order \<and> tied (order ! k) (order ! Suc k) then back_off order k else Suc k)"

definition cutBottom :: "ranked list \<Rightarrow> string \<Rightarrow> rat \<Rightarrow> string list" where
  "cutBottom order direction evictPct =
     (let order = sort_slice (worse direction) order;
          k = back_off order (nat (cut_line evictPct (length order)))
      in map rk_agentID (take k order))"

subsection \<open>Who is cut at a boundary\<close>

record AgentJobs =
  aj_Completed :: bool
  aj_InFlight :: bool

text \<open>
  What a pass reads of a platform experiment: the agents with a quota, those cut and the executors, the jobs of each agent, and the
  completed jobs as they are read for each metric.
\<close>

record ladder_reads =
  lr_quotas :: "string list option"
  lr_cuts :: "string list option"
  lr_executors :: "string list option"
  lr_jobs :: "(string, AgentJobs) gomap option"
  lr_completed :: "string \<Rightarrow> string list option"
  lr_queries :: metric_queries

definition standing_agents :: "string list \<Rightarrow> string list \<Rightarrow> string list \<Rightarrow> string list" where
  "standing_agents quotas cuts executors =
     sort_slice (<) (filter (\<lambda>a. a \<in> set executors \<and> a \<notin> set cuts) quotas)"

definition currentSurvivors :: "ladder_reads \<Rightarrow> string list option" where
  "currentSurvivors rd =
     Option.bind (lr_quotas rd) (\<lambda>quotas. Option.bind (lr_cuts rd) (\<lambda>cuts. Option.bind (lr_executors rd) (\<lambda>executors.
       Some (standing_agents quotas cuts executors))))"

definition ranked_by :: "(string, AgentBest) gomap \<Rightarrow> string list \<Rightarrow> ranked list" where
  "ranked_by best survivors =
     map (\<lambda>a. case map_of best a of
                None \<Rightarrow> \<lparr>rk_agentID = a, rk_value = 0, rk_hasData = False\<rparr>
              | Some b \<Rightarrow> \<lparr>rk_agentID = a, rk_value = ab_Value b, rk_hasData = True\<rparr>) survivors"

text \<open>\<open>Some None\<close> is a metric without data of a survivor.\<close>

definition cutOnMetric :: "ladder_reads \<Rightarrow> MetricDefinition list \<Rightarrow> MetricDefinition \<Rightarrow> Stage \<Rightarrow> string list \<Rightarrow> string list option option" where
  "cutOnMetric rd metrics d stage survivors =
     Option.bind (lr_completed rd (md_Key d)) (\<lambda>completed.
       map_option (\<lambda>(best, nonRaw).
         let order = ranked_by best survivors
         in if filter rk_hasData order = [] then None
            else Some (cutBottom order (md_Direction d) (st_EvictPct stage)))
       (BestPerAgentOnMetric (lr_queries rd) metrics d completed))"

text \<open>The number of metrics each agent fell below the line on, and the number of metrics with data.\<close>

fun count_cuts :: "ladder_reads \<Rightarrow> MetricDefinition list \<Rightarrow> Stage \<Rightarrow> string list \<Rightarrow> MetricDefinition list
    \<Rightarrow> (string, int) gomap \<times> int \<Rightarrow> ((string, int) gomap \<times> int) option" where
  "count_cuts rd metrics stage survivors [] acc = Some acc"
| "count_cuts rd metrics stage survivors (d # ds) (cutCount, healthy) =
     (case cutOnMetric rd metrics d stage survivors of
        None \<Rightarrow> None
      | Some None \<Rightarrow> count_cuts rd metrics stage survivors ds (cutCount, healthy)
      | Some (Some below) \<Rightarrow>
          count_cuts rd metrics stage survivors ds (fold (\<lambda>a. madd a 1) below cutCount, healthy + 1))"

datatype cut_error = StageRankingPending | CutUnread

definition no_jobs :: AgentJobs where
  "no_jobs = \<lparr>aj_Completed = False, aj_InFlight = False\<rparr>"

text \<open>The survivors and the agents cut.\<close>

definition computeCut :: "ladder_reads \<Rightarrow> MetricDefinition list \<Rightarrow> Stage \<Rightarrow> cut_error + string list \<times> string list" where
  "computeCut rd metrics stage =
     (case currentSurvivors rd of
        None \<Rightarrow> Inl CutUnread
      | Some survivors \<Rightarrow>
          let ranking = filter (\<lambda>d. EffectiveRole d = MetricRoleRanking) metrics
          in if st_EvictPct stage = 0 \<or> ranking = [] \<or> length survivors < MinExecutorsForCut then Inr (survivors, [])
             else case lr_jobs rd of
                    None \<Rightarrow> Inl CutUnread
                  | Some jobsBy \<Rightarrow>
                      (case count_cuts rd metrics stage survivors ranking ([], 0) of
                         None \<Rightarrow> Inl CutUnread
                       | Some (cutCount, healthy) \<Rightarrow>
                           if healthy = 0
                           then let anyCompleted = list_ex (\<lambda>a. aj_Completed (mget no_jobs jobsBy a)) survivors;
                                    anyInFlight = list_ex (\<lambda>a. aj_InFlight (mget no_jobs jobsBy a)) survivors
                                in if \<not> anyCompleted \<and> anyInFlight then Inl StageRankingPending else Inr (survivors, [])
                           else Inr (filter (\<lambda>a. geti cutCount a \<noteq> healthy) survivors,
                                     filter (\<lambda>a. geti cutCount a = healthy) survivors)))"

end
