(* ===== verification/Standings_Properties.thy ===== *)
theory Standings_Properties
  imports Standings
begin

text \<open>
  The standings of a run, described without the folds that compute them: a value counts for an agent when one of its completed jobs that
  holds every constraint reported it on the raw basis, an executor stands with the best of those, and its rank is one more than the
  number of executors that did strictly better.
\<close>

subsection \<open>Constraints\<close>

definition raw_of :: "VectorSample list \<Rightarrow> string \<Rightarrow> VectorSample list" where
  "raw_of samples job = filter (\<lambda>s. vs_basis s = BasisRaw \<and> vs_job s = job) samples"

definition holds_constraint :: "metric_queries \<Rightarrow> MetricDefinition \<Rightarrow> string \<Rightarrow> bool" where
  "holds_constraint q d job \<longleftrightarrow>
     (case (mq_by_job q (md_Key d), md_Bound d) of
        (Some samples, Some bound) \<Rightarrow>
          raw_of samples job \<noteq> [] \<and> list_all (\<lambda>s. HoldsBound (md_Direction d) bound (vs_Value s)) (raw_of samples job)
      | _ \<Rightarrow> False)"

definition holds_constraints :: "metric_queries \<Rightarrow> MetricDefinition list \<Rightarrow> string \<Rightarrow> bool" where
  "holds_constraints q metrics job \<longleftrightarrow>
     list_all (\<lambda>d. EffectiveRole d = MetricRoleConstraint \<longrightarrow> holds_constraint q d job) metrics"

lemma set_keys_raw_values: "job \<in> set (keys (raw_values samples)) \<longleftrightarrow> raw_of samples job \<noteq> []"
proof -
  have "set (keys (fold (\<lambda>s m. if vs_basis s = BasisRaw then mput (vs_job s) (vs_Value s) m else m) samples m))
      = set (keys m) \<union> vs_job ` {s \<in> set samples. vs_basis s = BasisRaw}" for m
    by (induction samples arbitrary: m) auto
  then show ?thesis by (auto simp: raw_values_def raw_of_def filter_empty_conv)
qed

lemma violations_None:
  "map_of (violations direction bound samples) job = None
   \<longleftrightarrow> list_all (\<lambda>s. HoldsBound direction bound (vs_Value s)) (raw_of samples job)"
proof -
  have "set (keys (fold (\<lambda>s m. if vs_basis s = BasisRaw \<and> \<not> HoldsBound direction bound (vs_Value s)
                               then mput (vs_job s) (vs_Value s) m else m) samples m))
      = set (keys m) \<union> vs_job ` {s \<in> set samples. vs_basis s = BasisRaw \<and> \<not> HoldsBound direction bound (vs_Value s)}" for m
    by (induction samples arbitrary: m) auto
  from this [of "[]"] have k: "set (keys (violations direction bound samples))
      = vs_job ` {s \<in> set samples. vs_basis s = BasisRaw \<and> \<not> HoldsBound direction bound (vs_Value s)}"
    by (simp add: violations_def)
  have "map_of (violations direction bound samples) job = None \<longleftrightarrow> job \<notin> set (keys (violations direction bound samples))"
    by (simp add: set_keys domIff)
  with k have "map_of (violations direction bound samples) job = None
      \<longleftrightarrow> job \<notin> vs_job ` {s \<in> set samples. vs_basis s = BasisRaw \<and> \<not> HoldsBound direction bound (vs_Value s)}"
    by simp
  then show ?thesis by (auto simp: raw_of_def list_all_iff)
qed

lemma judge_job_keys:
  "set (keys (fst (judge_job key reported violated job j))) =
     set (keys (fst j)) \<union> (if map_of violated job \<noteq> None \<or> job \<notin> set (keys reported) then {job} else {})"
  by (cases j) (auto simp: judge_job_def Let_def split: option.splits)

lemma judge_jobs_keys:
  "set (keys (fst (fold (judge_job key reported violated) jobs j))) =
     set (keys (fst j)) \<union> {job \<in> set jobs. map_of violated job \<noteq> None \<or> job \<notin> set (keys reported)}"
proof (induction jobs arbitrary: j)
  case (Cons job jobs)
  show ?case unfolding fold_Cons o_apply Cons.IH judge_job_keys by auto
qed simp

lemma judgeConstraints_keys:
  assumes "judgeConstraints q metrics completed j = Some j'"
  shows "set (keys (fst j')) = set (keys (fst j))
    \<union> {job \<in> set completed. \<not> holds_constraints q metrics job}"
  using assms
proof (induction metrics arbitrary: j)
  case (Cons d ds)
  show ?case
  proof (cases "EffectiveRole d = MetricRoleConstraint")
    case False
    with Cons show ?thesis by (simp add: holds_constraints_def)
  next
    case True
    with Cons.prems obtain samples bound where s: "mq_by_job q (md_Key d) = Some samples" "md_Bound d = Some bound"
      by (auto simp: judgeConstraint_def split: option.splits)
    with True Cons.prems Cons.IH have "set (keys (fst j')) =
        set (keys (fst (fold (judge_job (md_Key d) (raw_values samples) (violations (md_Direction d) bound samples)) completed j)))
        \<union> {job \<in> set completed. \<not> holds_constraints q ds job}"
      by (auto simp: judgeConstraint_def)
    with True s show ?thesis
      unfolding judge_jobs_keys set_keys_raw_values
      by (auto simp: violations_None holds_constraints_def holds_constraint_def)
  qed
qed (simp add: holds_constraints_def)

lemma RankableJobs_exact:
  "RankableJobs q metrics completed = Some jobs \<Longrightarrow> job \<in> set jobs \<longleftrightarrow> job \<in> set completed \<and> holds_constraints q metrics job"
  by (auto simp: RankableJobs_def UnrankableJobs_def dest: judgeConstraints_keys)

subsection \<open>The best of each agent\<close>

definition counts_for :: "VectorSample list \<Rightarrow> string list \<Rightarrow> string \<Rightarrow> AgentBest \<Rightarrow> bool" where
  "counts_for samples jobs a b \<longleftrightarrow>
     (\<exists>s \<in> set samples. vs_agent s = a \<and> vs_basis s = BasisRaw \<and> vs_job s = ab_ExperimentID b \<and> vs_Value s = ab_Value b
        \<and> vs_job s \<in> set jobs)"

lemma betterOn_trans:
  "\<not> betterOn direction x y \<Longrightarrow> betterOn direction z y \<Longrightarrow> \<not> betterOn direction x z"
  by (auto simp: betterOn_def Better_def MetricScore_def split: if_splits)

lemma betterOn_irrefl: "\<not> betterOn direction x x"
  by (simp add: betterOn_def)

definition best_so_far :: "string \<Rightarrow> (string \<Rightarrow> AgentBest \<Rightarrow> bool) \<Rightarrow> (string, AgentBest) gomap \<Rightarrow> bool" where
  "best_so_far direction P best \<longleftrightarrow>
     (\<forall>a. (map_of best a = None \<longrightarrow> (\<forall>b. \<not> P a b)) \<and> (\<forall>b. map_of best a = Some b \<longrightarrow> P a b \<and> (\<forall>b'. P a b' \<longrightarrow> \<not> betterOn direction b' b)))"

lemma best_so_far_keep:
  assumes "best_so_far direction P best"
  shows "best_so_far direction (\<lambda>a b. P a b \<or> a = agent \<and> b = cand) (keep_best direction agent cand best)"
  unfolding best_so_far_def
proof (intro allI conjI impI)
  fix a
  let ?best = "keep_best direction agent cand best"
  have old: "map_of best a = None \<Longrightarrow> \<not> P a b" "map_of best a = Some b \<Longrightarrow> P a b"
    "map_of best a = Some b \<Longrightarrow> P a b' \<Longrightarrow> \<not> betterOn direction b' b" for b b'
    using assms by (auto simp: best_so_far_def)
  {
    fix b assume "map_of ?best a = None"
    then show "\<not> (P a b \<or> a = agent \<and> b = cand)"
      using old(1) by (auto simp: keep_best_def split: option.splits if_splits)
  }
  {
    fix b assume m: "map_of ?best a = Some b"
    then show "P a b \<or> a = agent \<and> b = cand"
      using old(2) by (auto simp: keep_best_def split: option.splits if_splits)
    fix b' assume b': "P a b' \<or> a = agent \<and> b' = cand"
    show "\<not> betterOn direction b' b"
    proof (cases "a = agent")
      case False
      with m b' old(3) show ?thesis by (auto simp: keep_best_def split: option.splits if_splits)
    next
      case True
      show ?thesis
      proof (cases "map_of best agent")
        case None
        with m b' True old(1) show ?thesis by (auto simp: keep_best_def betterOn_irrefl)
      next
        case (Some cur)
        show ?thesis
        proof (cases "betterOn direction cand cur")
          case True
          with Some m \<open>a = agent\<close> have "b = cand" by (simp add: keep_best_def)
          with b' old(3) [of cur b'] Some \<open>a = agent\<close> True betterOn_trans show ?thesis
            using betterOn_irrefl by blast
        next
          case False
          with Some m \<open>a = agent\<close> have "b = cur" by (simp add: keep_best_def)
          with b' old(3) [of cur b'] Some \<open>a = agent\<close> False show ?thesis by auto
        qed
      qed
    qed
  }
qed

lemma best_so_far_cong: "(\<And>a b. P a b \<longleftrightarrow> Q a b) \<Longrightarrow> best_so_far direction P best \<Longrightarrow> best_so_far direction Q best"
  by (simp add: best_so_far_def)

lemma best_walk_best:
  assumes "best_walk direction jobs samples (best, nonRaw) = Some (best', nonRaw')" and "best_so_far direction P best"
  shows "best_so_far direction (\<lambda>a b. P a b \<or> counts_for samples jobs a b) best'"
  using assms
proof (induction samples arbitrary: best nonRaw P)
  case Nil
  then show ?case by (simp add: counts_for_def)
next
  case (Cons s ss)
  let ?cand = "\<lparr>ab_Value = vs_Value s, ab_ExperimentID = vs_job s\<rparr>"
  show ?case
  proof (cases "vs_job s \<in> set jobs \<and> vs_basis s = BasisRaw")
    case False
    then have same: "counts_for (s # ss) jobs a b \<longleftrightarrow> counts_for ss jobs a b" for a b by (auto simp: counts_for_def)
    from False Cons.prems(1) obtain nr where "best_walk direction jobs ss (best, nr) = Some (best', nonRaw')"
      by (auto split: if_splits)
    from Cons.IH [OF this Cons.prems(2)] show ?thesis by (simp add: same)
  next
    case True
    with Cons.prems(1) have w: "best_walk direction jobs ss (keep_best direction (vs_agent s) ?cand best, nonRaw) = Some (best', nonRaw')"
      by (auto split: if_splits)
    have "(P a b \<or> a = vs_agent s \<and> b = ?cand) \<or> counts_for ss jobs a b \<longleftrightarrow> P a b \<or> counts_for (s # ss) jobs a b" for a b
      using True by (auto simp: counts_for_def)
    with Cons.IH [OF w best_so_far_keep [OF Cons.prems(2)]] show ?thesis by (rule best_so_far_cong [rotated])
  qed
qed

lemma wf_keep_best: "wf_map best \<Longrightarrow> wf_map (keep_best direction a cand best)"
  by (auto simp: keep_best_def split: option.splits)

lemma wf_best_walk: "best_walk direction jobs samples (best, nonRaw) = Some (best', nonRaw') \<Longrightarrow> wf_map best \<Longrightarrow> wf_map best'"
  by (induction samples arbitrary: best nonRaw) (auto simp: wf_keep_best split: if_splits)

text \<open>A value that counts: reported on the raw basis by a completed job that holds every constraint.\<close>

definition qualifies :: "metric_queries \<Rightarrow> MetricDefinition list \<Rightarrow> MetricDefinition \<Rightarrow> string list \<Rightarrow> string \<Rightarrow> AgentBest \<Rightarrow> bool" where
  "qualifies q metrics d completed a b \<longleftrightarrow>
     ab_ExperimentID b \<in> set completed \<and> holds_constraints q metrics (ab_ExperimentID b)
     \<and> (\<exists>samples. mq_by_agent q (md_Key d) = Some samples \<and> (\<exists>s \<in> set samples. vs_agent s = a \<and> vs_basis s = BasisRaw
          \<and> vs_job s = ab_ExperimentID b \<and> vs_Value s = ab_Value b))"

lemma BestPerAgentOnMetric_best:
  assumes "BestPerAgentOnMetric q metrics d completed = Some (best, nonRaw)"
  shows "best_so_far (md_Direction d) (qualifies q metrics d completed) best \<and> wf_map best"
proof -
  from assms obtain jobs where j: "RankableJobs q metrics completed = Some jobs" and o: "bestOver q d jobs = Some (best, nonRaw)"
    by (cases "RankableJobs q metrics completed") (auto simp: BestPerAgentOnMetric_def)
  from o obtain samples where s: "mq_by_agent q (md_Key d) = Some samples" and b: "bestOf d samples jobs = Some (best, nonRaw)"
    by (cases "mq_by_agent q (md_Key d)") (auto simp: bestOver_def)
  from b obtain nr where w: "best_walk (md_Direction d) jobs samples ([], []) = Some (best, nr)"
    by (auto simp: bestOf_def)
  have "best_so_far (md_Direction d) (\<lambda>a b. False) []" by (simp add: best_so_far_def)
  from best_walk_best [OF w this] have "best_so_far (md_Direction d) (counts_for samples jobs) best" by simp
  moreover have "counts_for samples jobs a b \<longleftrightarrow> qualifies q metrics d completed a b" for a b
    using s RankableJobs_exact [OF j, of "ab_ExperimentID b"] by (auto simp: counts_for_def qualifies_def)
  ultimately show ?thesis using wf_best_walk [OF w] by (auto intro: best_so_far_cong)
qed

subsection \<open>Ranks\<close>

lemma swo_standing: "strict_weak_order (standing_before direction)"
  by unfold_locales (auto simp: standing_before_def Better_def MetricScore_def split: if_splits)

definition ahead_of :: "string \<Rightarrow> AgentStanding list \<Rightarrow> AgentStanding \<Rightarrow> AgentStanding list" where
  "ahead_of direction ss s = filter (\<lambda>t. Better direction (as_Best t) (as_Best s)) ss"

lemma assign_ranks_counts:
  assumes "sorted_wrt (\<lambda>a b. \<not> Better direction (as_Best b) (as_Best a)) (seen @ ss)"
    and "before = (if seen = [] then None else Some (as_Best (last seen), 1 + int (length (ahead_of direction (seen @ ss) (last seen)))))"
  shows "assign_ranks (int (length seen)) before ss =
    map (\<lambda>s. s\<lparr>as_Rank := 1 + int (length (ahead_of direction (seen @ ss) s))\<rparr>) ss"
  using assms
proof (induction ss arbitrary: seen before)
  case (Cons s ss)
  let ?all = "seen @ s # ss"
  let ?r = "case before of Some (best, r) \<Rightarrow> if as_Best s = best then r else int (length seen) + 1 | None \<Rightarrow> int (length seen) + 1"
  have later: "ahead_of direction (s # ss) s = []"
    using Cons.prems(1) by (auto simp: ahead_of_def filter_empty_conv sorted_wrt_append Better_def)
  have r: "?r = 1 + int (length (ahead_of direction ?all s))"
  proof (cases "seen \<noteq> [] \<and> as_Best s = as_Best (last seen)")
    case True
    with Cons.prems(2) show ?thesis by (simp add: ahead_of_def)
  next
    case False
    have "t \<in> set seen \<Longrightarrow> Better direction (as_Best t) (as_Best s)" for t
    proof -
      assume t: "t \<in> set seen"
      then have ne: "seen \<noteq> []" by auto
      have l: "\<not> Better direction (as_Best s) (as_Best (last seen))" using Cons.prems(1) ne by (auto simp: sorted_wrt_append)
      have tl: "\<not> Better direction (as_Best (last seen)) (as_Best t)"
      proof (cases "t = last seen")
        case False
        with t ne have "t \<in> set (butlast seen)" by (metis append_butlast_last_id in_set_butlastD rotate1.simps(2) set_ConsD set_rotate1)
        with Cons.prems(1) ne show ?thesis
          by (metis append_butlast_last_id list.set_intros(1) sorted_wrt_append)
      qed (simp add: Better_def)
      from l tl False ne show "Better direction (as_Best t) (as_Best s)"
        by (auto simp: Better_def MetricScore_def split: if_splits)
    qed
    then have "ahead_of direction ?all s = seen" using later by (auto simp: ahead_of_def filter_id_conv)
    with False Cons.prems(2) show ?thesis by (auto split: option.splits)
  qed
  have "assign_ranks (int (length (seen @ [s]))) (Some (as_Best s, ?r)) ss =
      map (\<lambda>s'. s'\<lparr>as_Rank := 1 + int (length (ahead_of direction ((seen @ [s]) @ ss) s'))\<rparr>) ss"
    using Cons.prems(1) r by (intro Cons.IH) auto
  with r show ?case by (simp add: Let_def add.commute)
qed simp

lemma assignRanks_counts:
  assumes "sorted_wrt (\<lambda>a b. \<not> Better direction (as_Best b) (as_Best a)) ss"
  shows "assignRanks ss = map (\<lambda>s. s\<lparr>as_Rank := 1 + int (length (ahead_of direction ss s))\<rparr>) ss"
  using assign_ranks_counts [of direction "[]" ss None] assms by (simp add: assignRanks_def)

lemma sorted_standings:
  "sorted_wrt (\<lambda>a b. \<not> Better direction (as_Best b) (as_Best a)) (sort_slice (standing_before direction) ss)"
  using strict_weak_order.sorted_sort_slice [OF swo_standing]
  by (rule sorted_wrt_mono_rel [rotated]) (auto simp: standing_before_def Better_def split: if_splits)

lemma standing_of_sel [simp]:
  "as_AgentID (standing_of (a, b)) = a" "as_Best (standing_of (a, b)) = ab_Value b"
  "as_ExperimentID (standing_of (a, b)) = ab_ExperimentID b"
  "as_AgentID (standing_of e) = fst e"
  by (simp_all add: standing_of_def split: prod.splits)

text \<open>The executors with a best, and how many of them did strictly better than a value.\<close>

definition entered :: "(string, AgentBest) gomap \<Rightarrow> string list \<Rightarrow> (string, AgentBest) gomap" where
  "entered best executors = filter (\<lambda>(a, b). a \<in> set executors) best"

definition strictly_better :: "MetricDefinition \<Rightarrow> (string, AgentBest) gomap \<Rightarrow> string list \<Rightarrow> rat \<Rightarrow> (string, AgentBest) gomap" where
  "strictly_better d best executors v = filter (\<lambda>(a, b). Better (md_Direction d) (ab_Value b) v) (entered best executors)"

lemma order_standings_entries:
  "mset (order_standings d best executors) = image_mset
     (\<lambda>(a, b). (standing_of (a, b))\<lparr>as_Rank := 1 + int (length (strictly_better d best executors (ab_Value b)))\<rparr>)
     (mset (entered best executors))"
proof -
  let ?ss = "map standing_of (entered best executors)" and ?dir = "md_Direction d"
  let ?rank = "\<lambda>s. s\<lparr>as_Rank := 1 + int (length (ahead_of ?dir (sort_slice (standing_before ?dir) ?ss) s))\<rparr>"
  have n: "length (ahead_of ?dir (sort_slice (standing_before ?dir) ?ss) (standing_of (a, b)))
      = length (strictly_better d best executors (ab_Value b))" for a b
  proof -
    have "mset (ahead_of ?dir (sort_slice (standing_before ?dir) ?ss) (standing_of (a, b))) = mset (ahead_of ?dir ?ss (standing_of (a, b)))"
      by (simp add: ahead_of_def)
    then have "length (ahead_of ?dir (sort_slice (standing_before ?dir) ?ss) (standing_of (a, b))) = length (ahead_of ?dir ?ss (standing_of (a, b)))"
      by (metis size_mset)
    then show ?thesis by (simp add: ahead_of_def strictly_better_def filter_map o_def case_prod_beta' standing_of_def)
  qed
  have "order_standings d best executors = map ?rank (sort_slice (standing_before ?dir) ?ss)"
    unfolding order_standings_def entered_def [symmetric] by (rule assignRanks_counts [OF sorted_standings])
  then have "mset (order_standings d best executors) = image_mset (\<lambda>e. ?rank (standing_of e)) (mset (entered best executors))"
    by (simp add: image_mset.compositionality o_def)
  also have "\<dots> = image_mset (\<lambda>(a, b). (standing_of (a, b))\<lparr>as_Rank := 1 + int (length (strictly_better d best executors (ab_Value b)))\<rparr>)
     (mset (entered best executors))"
    by (intro image_mset_cong) (auto simp: n)
  finally show ?thesis .
qed

lemma card_strictly_better:
  assumes "best_so_far (md_Direction d) P best" and "wf_map best"
  shows "length (strictly_better d best executors v) = card {a \<in> set executors. \<exists>b. P a b \<and> Better (md_Direction d) (ab_Value b) v}"
proof -
  have d: "distinct (map fst (strictly_better d best executors v))"
    using assms(2) by (simp add: strictly_better_def entered_def wf_map_def distinct_map_filter)
  have "a \<in> fst ` set (strictly_better d best executors v)
      \<longleftrightarrow> a \<in> set executors \<and> (\<exists>b. P a b \<and> Better (md_Direction d) (ab_Value b) v)" for a
  proof
    assume "a \<in> fst ` set (strictly_better d best executors v)"
    then obtain b where b: "(a, b) \<in> set best" "a \<in> set executors" "Better (md_Direction d) (ab_Value b) v"
      by (auto simp: strictly_better_def entered_def)
    with assms have "P a b" by (auto simp: best_so_far_def wf_map_def)
    with b show "a \<in> set executors \<and> (\<exists>b. P a b \<and> Better (md_Direction d) (ab_Value b) v)" by auto
  next
    assume "a \<in> set executors \<and> (\<exists>b. P a b \<and> Better (md_Direction d) (ab_Value b) v)"
    then obtain b where e: "a \<in> set executors" and b: "P a b" "Better (md_Direction d) (ab_Value b) v" by auto
    with assms(1) obtain c where c: "map_of best a = Some c" "\<not> betterOn (md_Direction d) b c"
      unfolding best_so_far_def by (metis option.exhaust)
    with b(2) have "Better (md_Direction d) (ab_Value c) v"
      by (auto simp: betterOn_def Better_def split: if_splits)
    with c(1) e show "a \<in> fst ` set (strictly_better d best executors v)"
      by (force simp: strictly_better_def entered_def dest: map_of_SomeD)
  qed
  then have "fst ` set (strictly_better d best executors v)
      = {a \<in> set executors. \<exists>b. P a b \<and> Better (md_Direction d) (ab_Value b) v}" by auto
  with d show ?thesis by (metis distinct_card length_map set_map)
qed

lemma agents_order_standings: "mset (map as_AgentID (order_standings d best executors)) = mset (map fst (entered best executors))"
  by (simp add: order_standings_entries image_mset.compositionality o_def case_prod_beta')

text \<open>C25: the standings on a metric list each executor with a value that counts exactly once, and nobody else: a value counts when a completed job that
  holds every constraint reported it on the raw basis.  Each stands with a value that counts and that none of its others beats, and its rank
  is one more than the number of executors that did strictly better, so equals share a rank and the next counts all ahead of it.\<close>

theorem standings_exact:
  assumes "BestPerAgentOnMetric q metrics d completed = Some (best, nonRaw)"
  shows "distinct (map as_AgentID (order_standings d best executors))
    \<and> set (map as_AgentID (order_standings d best executors)) = {a \<in> set executors. \<exists>b. qualifies q metrics d completed a b}
    \<and> (\<forall>s \<in> set (order_standings d best executors).
         let b = \<lparr>ab_Value = as_Best s, ab_ExperimentID = as_ExperimentID s\<rparr>
         in qualifies q metrics d completed (as_AgentID s) b
          \<and> (\<forall>c. qualifies q metrics d completed (as_AgentID s) c \<longrightarrow> \<not> betterOn (md_Direction d) c b)
          \<and> as_Rank s = 1 + int (card {a \<in> set executors. \<exists>c. qualifies q metrics d completed a c \<and> Better (md_Direction d) (ab_Value c) (as_Best s)}))"
proof (intro conjI ballI)
  let ?P = "qualifies q metrics d completed" and ?os = "order_standings d best executors"
  have b: "best_so_far (md_Direction d) ?P best" and wf: "wf_map best" using BestPerAgentOnMetric_best [OF assms] by auto
  have "distinct (map fst (entered best executors))" using wf by (simp add: entered_def wf_map_def distinct_map_filter)
  then show "distinct (map as_AgentID ?os)" by (metis agents_order_standings mset_eq_imp_distinct_iff)
  have "set (map as_AgentID ?os) = fst ` set (entered best executors)"
    by (metis agents_order_standings list.set_map set_mset_mset)
  also have "\<dots> = {a \<in> set executors. \<exists>c. ?P a c}"
  proof -
    have "(\<exists>c. (a, c) \<in> set best) \<longleftrightarrow> (\<exists>c. ?P a c)" for a
      using b wf unfolding best_so_far_def by (metis map_of_SomeD map_of_eq_Some_iff option.exhaust wf_map_def)
    then show ?thesis by (force simp: entered_def)
  qed
  finally show "set (map as_AgentID ?os) = {a \<in> set executors. \<exists>c. ?P a c}" .
  fix s assume "s \<in> set ?os"
  then have "s \<in># mset ?os" by simp
  then obtain a c where c: "(a, c) \<in> set (entered best executors)"
    and s: "s = (standing_of (a, c))\<lparr>as_Rank := 1 + int (length (strictly_better d best executors (ab_Value c)))\<rparr>"
    unfolding order_standings_entries by auto
  obtain v j where vj: "c = \<lparr>ab_Value = v, ab_ExperimentID = j\<rparr>" by (cases c) auto
  from c wf have m: "map_of best a = Some c" by (simp add: entered_def wf_map_def)
  with b have "?P a c" "\<forall>c'. ?P a c' \<longrightarrow> \<not> betterOn (md_Direction d) c' c" by (auto simp: best_so_far_def)
  moreover note s card_strictly_better [OF b wf, of executors "ab_Value c"]
  ultimately
  show "let b = \<lparr>ab_Value = as_Best s, ab_ExperimentID = as_ExperimentID s\<rparr>
         in ?P (as_AgentID s) b \<and> (\<forall>c. ?P (as_AgentID s) c \<longrightarrow> \<not> betterOn (md_Direction d) c b)
          \<and> as_Rank s = 1 + int (card {a \<in> set executors. \<exists>c. ?P a c \<and> Better (md_Direction d) (ab_Value c) (as_Best s)})"
    by (simp add: standing_of_def vj)
qed

definition sample_metric :: MetricDefinition where
  "sample_metric = \<lparr>md_Key = ''loss'', md_Direction = ''minimize'', md_Role = [], md_Bound = None, md_TargetVsBaseline = None,
     md_Deterministic = False\<rparr>"

definition sample_constraint :: MetricDefinition where
  "sample_constraint = \<lparr>md_Key = ''gate'', md_Direction = ''maximize'', md_Role = MetricRoleConstraint, md_Bound = Some 1,
     md_TargetVsBaseline = None, md_Deterministic = False\<rparr>"

definition sample_of :: "string \<Rightarrow> string \<Rightarrow> rat \<Rightarrow> VectorSample" where
  "sample_of agent job v = \<lparr>vs_Labels = [(''agent_id'', agent), (''job_id'', job), (''metric_basis'', ''raw'')], vs_Value = v\<rparr>"

text \<open>Three executors and a baseline agent; the best value of the run broke the gate.\<close>

definition sample_queries :: metric_queries where
  "sample_queries =
     \<lparr>mq_by_job = (\<lambda>k. Some [sample_of [] ''j1'' 1, sample_of [] ''j2'' 0, sample_of [] ''j3'' 1, sample_of [] ''j4'' 2]),
      mq_by_agent = (\<lambda>k. Some [sample_of ''a'' ''j1'' 3, sample_of ''a'' ''j2'' 1, sample_of ''b'' ''j3'' 3, sample_of ''base'' ''j4'' 2])\<rparr>"

lemma sample_bests:
  "BestPerAgentOnMetric sample_queries [sample_metric, sample_constraint] sample_metric [''j1'', ''j2'', ''j3'', ''j4'']
   = Some ([(''a'', \<lparr>ab_Value = 3, ab_ExperimentID = ''j1''\<rparr>), (''b'', \<lparr>ab_Value = 3, ab_ExperimentID = ''j3''\<rparr>),
       (''base'', \<lparr>ab_Value = 2, ab_ExperimentID = ''j4''\<rparr>)], [])"
  by code_simp

definition sample_ranked :: "AgentStanding list" where
  "sample_ranked = order_standings sample_metric [(''a'', \<lparr>ab_Value = 3, ab_ExperimentID = ''j1''\<rparr>), (''b'', \<lparr>ab_Value = 3, ab_ExperimentID = ''j3''\<rparr>),
       (''base'', \<lparr>ab_Value = 2, ab_ExperimentID = ''j4''\<rparr>)] [''a'', ''b'', ''c'']"

theorem standings_exact_witness:
  "map as_AgentID sample_ranked = [''a'', ''b''] \<and> as_Rank (last sample_ranked) = 1
   \<and> card {a \<in> {''a'', ''b'', ''c''}. \<exists>c. qualifies sample_queries [sample_metric, sample_constraint] sample_metric
         [''j1'', ''j2'', ''j3'', ''j4''] a c \<and> Better ''minimize'' (ab_Value c) (as_Best (last sample_ranked))} = 0"
proof -
  have v: "map as_AgentID sample_ranked = [''a'', ''b'']" "as_Rank (last sample_ranked) = 1" by code_simp+
  then have "sample_ranked \<noteq> []" by auto
  then have m: "last sample_ranked \<in> set sample_ranked" by simp
  have "as_Rank (last sample_ranked) = 1 + int (card {a \<in> set [''a'', ''b'', ''c'']. \<exists>c. qualifies sample_queries [sample_metric, sample_constraint]
      sample_metric [''j1'', ''j2'', ''j3'', ''j4''] a c \<and> Better (md_Direction sample_metric) (ab_Value c) (as_Best (last sample_ranked))})"
    using standings_exact [OF sample_bests, of "[''a'', ''b'', ''c'']", folded sample_ranked_def] m unfolding Let_def by blast
  then show ?thesis using v by (simp add: sample_metric_def)
qed

end
