(* ===== verification/Ladder_Properties.thy ===== *)
theory Ladder_Properties
  imports Ladder Standings_Properties
begin

text \<open>
  What a stage boundary decides.  The cut on one metric has an exact description that names no sorting: an agent falls below the
  line if and only if those that are not strictly ahead of it, itself among them, fit under the line.  From it follow who is cut over
  all metrics and what of the field is left.
\<close>

subsection \<open>The line on one metric\<close>

interpretation worse_order: strict_weak_order "worse direction" for direction
  by unfold_locales (auto simp: worse_def Better_def split: if_splits)

lemma tied_iff: "tied a b \<longleftrightarrow> \<not> worse direction a b \<and> \<not> worse direction b a"
  by (auto simp: tied_def worse_def Better_def MetricScore_def)

lemma back_off_le: "back_off order k \<le> k"
  by (induction k) auto

lemma back_off_edge:
  "back_off order k = Suc j \<Longrightarrow> Suc j < length order \<Longrightarrow> \<not> tied (order ! j) (order ! Suc j)"
  by (induction k) (auto split: if_splits)

lemma back_off_chain:
  "back_off order k \<le> i \<Longrightarrow> i < k \<Longrightarrow> tied (order ! i) (order ! Suc i)"
proof (induction k)
  case (Suc k)
  then show ?case by (cases "i = k") (auto split: if_splits)
qed simp

context strict_weak_order
begin

lemma sorted_le:
  assumes "sorted_wrt (\<lambda>a b. \<not> lt b a) xs" and "i \<le> j" and "j < length xs"
  shows "\<not> lt (xs ! j) (xs ! i)"
  using assms by (cases "i = j") (auto simp: swo_irrefl sorted_wrt_iff_nth_less)

lemma chain_incomparable:
  assumes "\<And>p. i \<le> p \<Longrightarrow> p < k \<Longrightarrow> \<not> lt (xs ! p) (xs ! Suc p)" and "i \<le> k"
  shows "\<not> lt (xs ! i) (xs ! k)"
  using assms(2,1)
proof (induction rule: dec_induct)
  case base
  then show ?case by (simp add: swo_irrefl)
next
  case (step n)
  then show ?case by (meson less_Suc_eq swo_incomp)
qed

text \<open>The elements that do not come after one of a sorted list are counted by a prefix.\<close>

lemma length_not_after_ge:
  assumes s: "sorted_wrt (\<lambda>a b. \<not> lt b a) xs" and k: "k < length xs"
    and r: "\<And>p. p \<le> k \<Longrightarrow> \<not> lt r (xs ! p)"
  shows "k < length (filter (\<lambda>y. \<not> lt r y) xs)"
proof -
  have "filter (\<lambda>y. \<not> lt r y) (take (Suc k) xs) = take (Suc k) xs"
    using k r by (auto simp: filter_id_conv in_set_conv_nth)
  then have "filter (\<lambda>y. \<not> lt r y) xs = take (Suc k) xs @ filter (\<lambda>y. \<not> lt r y) (drop (Suc k) xs)"
    by (metis append_take_drop_id filter_append)
  with k show ?thesis by simp
qed

lemma length_not_after_le:
  assumes "\<And>p. k \<le> p \<Longrightarrow> p < length xs \<Longrightarrow> lt r (xs ! p)"
  shows "length (filter (\<lambda>y. \<not> lt r y) xs) \<le> k"
proof -
  have "filter (\<lambda>y. \<not> lt r y) (drop k xs) = []"
    using assms by (auto simp: filter_empty_conv in_set_conv_nth)
  then have "filter (\<lambda>y. \<not> lt r y) xs = filter (\<lambda>y. \<not> lt r y) (take k xs)"
    by (metis append_take_drop_id filter_append append_Nil2)
  then show ?thesis by (metis length_filter_le length_take min.cobounded2 le_trans min.commute)
qed

end

lemma under_the_line:
  assumes s: "sorted_wrt (\<lambda>a b. \<not> worse direction b a) order" and k: "k < length order" and i: "i < length order"
  shows "i < back_off order k \<longleftrightarrow> length (filter (\<lambda>y. \<not> worse direction (order ! i) y) order) \<le> k"
proof -
  let ?j = "back_off order k"
  have jk: "?j \<le> k" by (rule back_off_le)
  show ?thesis
  proof
    assume ij: "i < ?j"
    then obtain j where j: "?j = Suc j" by (cases ?j) auto
    with jk k have edge: "\<not> tied (order ! j) (order ! Suc j)" by (intro back_off_edge) auto
    have up: "worse direction (order ! j) (order ! Suc j)"
      using edge worse_order.sorted_le [OF s, of j "Suc j"] jk j k by (auto simp: tied_iff [of _ _ direction])
    have "worse direction (order ! i) (order ! p)" if p: "?j \<le> p" "p < length order" for p
    proof (rule ccontr)
      assume "\<not> worse direction (order ! i) (order ! p)"
      moreover have "\<not> worse direction (order ! p) (order ! Suc j)" using worse_order.sorted_le [OF s] p j by auto
      moreover have "\<not> worse direction (order ! j) (order ! i)" using worse_order.sorted_le [OF s] ij j k jk by auto
      ultimately show False using up worse_order.swo_incomp by blast
    qed
    then have "length (filter (\<lambda>y. \<not> worse direction (order ! i) y) order) \<le> ?j"
      by (rule worse_order.length_not_after_le)
    with jk show "length (filter (\<lambda>y. \<not> worse direction (order ! i) y) order) \<le> k" by simp
  next
    assume le: "length (filter (\<lambda>y. \<not> worse direction (order ! i) y) order) \<le> k"
    show "i < ?j"
    proof (rule ccontr)
      assume "\<not> i < ?j"
      then have ji: "?j \<le> i" by simp
      let ?m = "max i k"
      have chain: "\<not> worse direction (order ! i) (order ! ?m)"
      proof (cases "i \<le> k")
        case True
        have "\<not> worse direction (order ! i) (order ! k)"
        proof (rule worse_order.chain_incomparable [OF _ True])
          fix p assume "i \<le> p" "p < k"
          with ji have "tied (order ! p) (order ! Suc p)" by (intro back_off_chain [of order k]) auto
          then show "\<not> worse direction (order ! p) (order ! Suc p)" by (simp add: tied_iff [of _ _ direction])
        qed
        with True show ?thesis by (simp add: max_def)
      qed (simp add: worse_order.swo_irrefl max_def)
      have m: "?m < length order" using i k by auto
      have "\<not> worse direction (order ! i) (order ! p)" if "p \<le> ?m" for p
        using chain worse_order.sorted_le [OF s that m] worse_order.swo_incomp by blast
      then have "?m < length (filter (\<lambda>y. \<not> worse direction (order ! i) y) order)"
        by (intro worse_order.length_not_after_ge [OF s m])
      with le show False by simp
    qed
  qed
qed

lemma cut_line_less: "0 < n \<Longrightarrow> nat (cut_line evictPct n) < n"
  by (auto simp: cut_line_def minSurvivorsAfterCut_def)

lemma length_filter_mset:
  "mset xs = mset ys \<Longrightarrow> length (filter P xs) = length (filter P ys)"
  by (metis mset_filter size_mset)

lemma cutBottom_exact:
  assumes r: "r \<in> set order" and d: "distinct (map rk_agentID order)"
  shows "rk_agentID r \<in> set (cutBottom order direction evictPct)
     \<longleftrightarrow> int (length (filter (\<lambda>y. \<not> worse direction r y) order)) \<le> cut_line evictPct (length order)"
proof -
  let ?o = "sort_slice (worse direction) order" and ?line = "cut_line evictPct (length order)"
  from r obtain i where i: "i < length ?o" "?o ! i = r" by (metis in_set_conv_nth set_sort_slice)
  have n: "0 < length order" using r by (cases order) auto
  have d': "distinct (map rk_agentID ?o)" by (metis d mset_map mset_sort_slice mset_eq_imp_distinct_iff)
  have same: "length (filter (\<lambda>y. \<not> worse direction r y) ?o) = length (filter (\<lambda>y. \<not> worse direction r y) order)"
    by (rule length_filter_mset) simp
  have pos: "0 < length (filter (\<lambda>y. \<not> worse direction r y) order)"
    using r worse_order.swo_irrefl [of direction r] by (auto simp: filter_empty_conv)
  have mem: "rk_agentID r \<in> set (map rk_agentID (take k ?o)) \<longleftrightarrow> i < k" for k
  proof
    assume "rk_agentID r \<in> set (map rk_agentID (take k ?o))"
    then obtain p where p: "p < k" "p < length ?o" "rk_agentID (?o ! p) = rk_agentID (?o ! i)"
      using i(2) by (auto simp: in_set_conv_nth)
    with d' i(1) have "p = i" by (auto simp: distinct_conv_nth)
    with p show "i < k" by simp
  next
    assume "i < k"
    with i show "rk_agentID r \<in> set (map rk_agentID (take k ?o))"
      by (metis image_eqI in_set_conv_nth length_take list.set_map min_less_iff_conj nth_take)
  qed
  have "rk_agentID r \<in> set (cutBottom order direction evictPct) \<longleftrightarrow> i < back_off ?o (nat ?line)"
    unfolding cutBottom_def Let_def by (simp only: mem length_sort_slice)
  also have "\<dots> \<longleftrightarrow> length (filter (\<lambda>y. \<not> worse direction r y) order) \<le> nat ?line"
    using under_the_line [where direction = direction and order = ?o and k = "nat ?line" and i = i, OF worse_order.sorted_sort_slice] cut_line_less [OF n, of evictPct] i same by simp
  also have "\<dots> \<longleftrightarrow> int (length (filter (\<lambda>y. \<not> worse direction r y) order)) \<le> ?line"
    using pos by linarith
  finally show ?thesis .
qed

lemma cutBottom_subset: "set (cutBottom order direction evictPct) \<subseteq> rk_agentID ` set order"
  by (auto simp: cutBottom_def Let_def dest!: in_set_takeD)

lemma length_cutBottom: "int (length (cutBottom order direction evictPct)) \<le> max 0 (cut_line evictPct (length order))"
  using back_off_le [of "sort_slice (worse direction) order" "nat (cut_line evictPct (length order))"]
  by (auto simp: cutBottom_def Let_def)

subsection \<open>The line over all metrics\<close>

text \<open>One agent strictly ahead of another on a metric: with data where the other has none, or with the better value.\<close>

definition strictly_ahead :: "string \<Rightarrow> (string, AgentBest) gomap \<Rightarrow> string \<Rightarrow> string \<Rightarrow> bool" where
  "strictly_ahead direction best b a =
     (case (map_of best a, map_of best b) of
        (None, Some y) \<Rightarrow> True
      | (Some x, Some y) \<Rightarrow> Better direction (ab_Value y) (ab_Value x)
      | _ \<Rightarrow> False)"

definition bests_read :: "ladder_reads \<Rightarrow> MetricDefinition list \<Rightarrow> MetricDefinition \<Rightarrow> (string, AgentBest) gomap" where
  "bests_read rd metrics d =
     (case Option.bind (lr_completed rd (md_Key d)) (BestPerAgentOnMetric (lr_queries rd) metrics d) of
        None \<Rightarrow> [] | Some (best, nonRaw) \<Rightarrow> best)"

definition has_data :: "(string, AgentBest) gomap \<Rightarrow> string list \<Rightarrow> bool" where
  "has_data best survivors \<longleftrightarrow> list_ex (\<lambda>a. map_of best a \<noteq> None) survivors"

definition healthy_metrics :: "ladder_reads \<Rightarrow> MetricDefinition list \<Rightarrow> string list \<Rightarrow> MetricDefinition list" where
  "healthy_metrics rd metrics survivors =
     filter (\<lambda>d. EffectiveRole d = MetricRoleRanking \<and> has_data (bests_read rd metrics d) survivors) metrics"

definition below_line :: "string \<Rightarrow> (string, AgentBest) gomap \<Rightarrow> rat \<Rightarrow> string list \<Rightarrow> string \<Rightarrow> bool" where
  "below_line direction best evictPct survivors a \<longleftrightarrow>
     int (length (filter (\<lambda>b. \<not> strictly_ahead direction best b a) survivors)) \<le> cut_line evictPct (length survivors)"

lemma agents_ranked_by [simp]: "map rk_agentID (ranked_by best survivors) = survivors"
  by (induction survivors) (auto simp: ranked_by_def split: option.splits)

lemma length_ranked_by [simp]: "length (ranked_by best survivors) = length survivors"
  by (simp add: ranked_by_def)

lemma worse_ranked_by:
  "worse direction (case map_of best a of None \<Rightarrow> \<lparr>rk_agentID = a, rk_value = 0, rk_hasData = False\<rparr>
              | Some b \<Rightarrow> \<lparr>rk_agentID = a, rk_value = ab_Value b, rk_hasData = True\<rparr>)
     (case map_of best b of None \<Rightarrow> \<lparr>rk_agentID = b, rk_value = 0, rk_hasData = False\<rparr>
              | Some c \<Rightarrow> \<lparr>rk_agentID = b, rk_value = ab_Value c, rk_hasData = True\<rparr>)
   \<longleftrightarrow> strictly_ahead direction best b a"
  by (auto simp: worse_def strictly_ahead_def split: option.splits)

lemma cutBottom_below:
  assumes "distinct survivors" and "a \<in> set survivors"
  shows "a \<in> set (cutBottom (ranked_by best survivors) direction evictPct) \<longleftrightarrow> below_line direction best evictPct survivors a"
proof -
  let ?r = "\<lambda>a. case map_of best a of None \<Rightarrow> \<lparr>rk_agentID = a, rk_value = 0, rk_hasData = False\<rparr>
              | Some b \<Rightarrow> \<lparr>rk_agentID = a, rk_value = ab_Value b, rk_hasData = True\<rparr>"
  have a: "rk_agentID (?r a) = a" by (simp split: option.splits)
  have m: "?r a \<in> set (ranked_by best survivors)" using assms(2) by (auto simp: ranked_by_def)
  have "length (filter (\<lambda>y. \<not> worse direction (?r a) y) (ranked_by best survivors))
      = length (filter (\<lambda>b. \<not> strictly_ahead direction best b a) survivors)"
    by (simp add: ranked_by_def filter_map o_def worse_ranked_by)
  with cutBottom_exact [OF m, of direction evictPct] assms(1) a show ?thesis by (simp add: below_line_def)
qed

lemma cutBottom_survivors: "set (cutBottom (ranked_by best survivors) direction evictPct) \<subseteq> set survivors"
  using cutBottom_subset [of "ranked_by best survivors"] by (metis agents_ranked_by set_map)

lemma distinct_cutBottom:
  assumes "distinct survivors"
  shows "distinct (cutBottom (ranked_by best survivors) direction evictPct)"
proof -
  have "distinct (map rk_agentID (sort_slice (worse direction) (ranked_by best survivors)))"
    by (metis agents_ranked_by assms mset_eq_imp_distinct_iff mset_map mset_sort_slice)
  then show ?thesis by (simp add: cutBottom_def Let_def take_map [symmetric])
qed

lemma cutOnMetric_read:
  assumes "cutOnMetric rd metrics d stage survivors = Some c"
  shows "c = (if has_data (bests_read rd metrics d) survivors
              then Some (cutBottom (ranked_by (bests_read rd metrics d) survivors) (md_Direction d) (st_EvictPct stage)) else None)"
proof -
  have data: "filter rk_hasData (ranked_by best survivors) = [] \<longleftrightarrow> \<not> has_data best survivors" for best
    by (auto simp: ranked_by_def has_data_def filter_empty_conv list_ex_iff split: option.splits)
  from assms obtain completed where c: "lr_completed rd (md_Key d) = Some completed"
    by (cases "lr_completed rd (md_Key d)") (auto simp: cutOnMetric_def)
  with assms obtain best nonRaw where b: "BestPerAgentOnMetric (lr_queries rd) metrics d completed = Some (best, nonRaw)"
    by (cases "BestPerAgentOnMetric (lr_queries rd) metrics d completed") (auto simp: cutOnMetric_def)
  from assms b c show ?thesis
    by (simp add: cutOnMetric_def bests_read_def data split: if_splits)
qed

lemma geti_count: "distinct xs \<Longrightarrow> geti (fold (\<lambda>a. madd a 1) xs m) a = geti m a + (if a \<in> set xs then 1 else 0)"
  by (induction xs arbitrary: m) auto

lemma count_cuts_counts:
  assumes "count_cuts rd metrics stage survivors ds (c, h) = Some (c', h')" and "distinct survivors"
  shows "h' = h + int (length (filter (\<lambda>d. has_data (bests_read rd metrics d) survivors) ds))
    \<and> (\<forall>a \<in> set survivors. geti c' a = geti c a + int (length (filter (\<lambda>d. has_data (bests_read rd metrics d) survivors
          \<and> below_line (md_Direction d) (bests_read rd metrics d) (st_EvictPct stage) survivors a) ds)))"
  using assms(1)
proof (induction ds arbitrary: c h)
  case (Cons d ds)
  then obtain r where r: "cutOnMetric rd metrics d stage survivors = Some r" by (auto split: option.splits)
  let ?best = "bests_read rd metrics d"
  let ?below = "cutBottom (ranked_by ?best survivors) (md_Direction d) (st_EvictPct stage)"
  show ?case
  proof (cases "has_data ?best survivors")
    case False
    with cutOnMetric_read [OF r] r Cons.prems have "count_cuts rd metrics stage survivors ds (c, h) = Some (c', h')" by simp
    from Cons.IH [OF this] False show ?thesis by simp
  next
    case True
    with cutOnMetric_read [OF r] r Cons.prems
    have "count_cuts rd metrics stage survivors ds (fold (\<lambda>a. madd a 1) ?below c, h + 1) = Some (c', h')" by simp
    from Cons.IH [OF this] True show ?thesis
      by (simp add: geti_count distinct_cutBottom cutBottom_below assms(2))
  qed
qed auto

lemma all_counted: "length (filter P xs) = length (filter (\<lambda>x. P x \<and> Q x) xs) \<longleftrightarrow> (\<forall>x \<in> set (filter P xs). Q x)"
proof (induction xs)
  case (Cons x xs)
  have "length (filter (\<lambda>x. P x \<and> Q x) xs) \<le> length (filter P xs)" by (induction xs) auto
  with Cons show ?case by auto
qed simp

definition cut_at_boundary :: "ladder_reads \<Rightarrow> MetricDefinition list \<Rightarrow> Stage \<Rightarrow> string list \<Rightarrow> string \<Rightarrow> bool" where
  "cut_at_boundary rd metrics stage survivors a \<longleftrightarrow>
     st_EvictPct stage \<noteq> 0 \<and> length survivors \<ge> MinExecutorsForCut
     \<and> healthy_metrics rd metrics survivors \<noteq> []
     \<and> list_all (\<lambda>d. below_line (md_Direction d) (bests_read rd metrics d) (st_EvictPct stage) survivors a)
          (healthy_metrics rd metrics survivors)"

lemma computeCut_cases:
  assumes "computeCut rd metrics stage = Inr (kept, out)" and "currentSurvivors rd = Some survivors" and "distinct survivors"
  shows "kept = filter (\<lambda>a. \<not> cut_at_boundary rd metrics stage survivors a) survivors
    \<and> out = filter (cut_at_boundary rd metrics stage survivors) survivors"
proof -
  let ?ranking = "filter (\<lambda>d. EffectiveRole d = MetricRoleRanking) metrics"
  let ?H = "healthy_metrics rd metrics survivors"
  have H: "?H = filter (\<lambda>d. has_data (bests_read rd metrics d) survivors) ?ranking"
    by (simp add: healthy_metrics_def conj_commute)
  have none: ?thesis if "kept = survivors" "out = []" "\<And>a. a \<in> set survivors \<Longrightarrow> \<not> cut_at_boundary rd metrics stage survivors a"
    using that by (auto simp: filter_id_conv filter_empty_conv)
  show ?thesis
  proof (cases "st_EvictPct stage = 0 \<or> ?ranking = [] \<or> length survivors < MinExecutorsForCut")
    case True
    with assms(1,2) have ks: "kept = survivors" "out = []" by (auto simp: computeCut_def Let_def)
    have "?ranking = [] \<Longrightarrow> ?H = []" by (simp only: H filter.simps)
    with True show ?thesis by (intro none [OF ks]) (auto simp: cut_at_boundary_def)
  next
    case False
    then have g: "st_EvictPct stage \<noteq> 0" "length survivors \<ge> MinExecutorsForCut" by auto
    from assms(1,2) False obtain jobsBy where j: "lr_jobs rd = Some jobsBy"
      by (cases "lr_jobs rd") (auto simp: computeCut_def Let_def)
    with assms(1,2) False obtain c h where ch: "count_cuts rd metrics stage survivors ?ranking ([], 0) = Some (c, h)"
      by (cases "count_cuts rd metrics stage survivors ?ranking ([], 0)") (auto simp: computeCut_def Let_def)
    note n = count_cuts_counts [OF ch assms(3)]
    have h: "h = int (length ?H)" using n by (simp add: H)
    show ?thesis
    proof (cases "h = 0")
      case True
      with assms(1,2) False j ch have ks: "kept = survivors" "out = []"
        by (auto simp: computeCut_def Let_def split: if_splits)
      from True h show ?thesis by (intro none [OF ks]) (auto simp: cut_at_boundary_def)
    next
      case ne: False
      with assms(1,2) False j ch have ks: "kept = filter (\<lambda>a. geti c a \<noteq> h) survivors" "out = filter (\<lambda>a. geti c a = h) survivors"
        by (auto simp: computeCut_def Let_def)
      have "geti c a = h \<longleftrightarrow> cut_at_boundary rd metrics stage survivors a" if "a \<in> set survivors" for a
      proof -
        have "geti c a = h \<longleftrightarrow> length (filter (\<lambda>d. has_data (bests_read rd metrics d) survivors) ?ranking)
            = length (filter (\<lambda>d. has_data (bests_read rd metrics d) survivors
                \<and> below_line (md_Direction d) (bests_read rd metrics d) (st_EvictPct stage) survivors a) ?ranking)"
          using n that by auto
        with ne h g H show ?thesis by (simp only: all_counted) (auto simp: cut_at_boundary_def list_all_iff)
      qed
      with ks show ?thesis by (auto intro: filter_cong)
    qed
  qed
qed

lemma standing_agents_distinct: "distinct quotas \<Longrightarrow> distinct (standing_agents quotas cuts executors)"
  by (simp add: standing_agents_def)

lemma length_below:
  assumes "distinct survivors"
  shows "int (length (filter (below_line direction best evictPct survivors) survivors)) \<le> max 0 (cut_line evictPct (length survivors))"
proof -
  let ?below = "cutBottom (ranked_by best survivors) direction evictPct"
  have "set (filter (below_line direction best evictPct survivors) survivors) \<subseteq> set ?below"
    using cutBottom_below [OF assms] by auto
  then have "card (set (filter (below_line direction best evictPct survivors) survivors)) \<le> card (set ?below)"
    by (rule card_mono [rotated]) simp
  moreover have "card (set (filter (below_line direction best evictPct survivors) survivors))
      = length (filter (below_line direction best evictPct survivors) survivors)"
    using assms by (intro distinct_card) simp
  moreover have "card (set ?below) \<le> length ?below" by (rule card_length)
  ultimately show ?thesis using length_cutBottom [of "ranked_by best survivors" direction evictPct] by simp
qed

lemma length_cut:
  assumes "distinct survivors"
  shows "int (length (filter (cut_at_boundary rd metrics stage survivors) survivors))
    \<le> max 0 (cut_line (st_EvictPct stage) (length survivors))"
proof (cases "healthy_metrics rd metrics survivors")
  case Nil
  then have "filter (cut_at_boundary rd metrics stage survivors) survivors = []"
    by (auto simp: filter_empty_conv cut_at_boundary_def)
  then show ?thesis by simp
next
  case (Cons d ds)
  let ?B = "below_line (md_Direction d) (bests_read rd metrics d) (st_EvictPct stage) survivors"
  have "length (filter (cut_at_boundary rd metrics stage survivors) survivors) \<le> length (filter ?B survivors)"
  proof -
    have "filter (cut_at_boundary rd metrics stage survivors) survivors
        = filter (cut_at_boundary rd metrics stage survivors) (filter ?B survivors)"
      using Cons by (auto simp: cut_at_boundary_def intro!: filter_cong)
    then show ?thesis by (metis length_filter_le)
  qed
  with length_below [OF assms, of "md_Direction d" "bests_read rd metrics d" "st_EvictPct stage"] show ?thesis by linarith
qed

text \<open>An agent below the line where another is not is strictly behind it.\<close>

interpretation ahead_order: strict_weak_order "\<lambda>a b. strictly_ahead direction best b a" for direction best
  by unfold_locales (auto simp: strictly_ahead_def Better_def split: option.splits)

lemma below_line_behind:
  assumes "below_line direction best evictPct survivors a" and "\<not> below_line direction best evictPct survivors b"
  shows "strictly_ahead direction best b a"
proof (rule ccontr)
  assume no: "\<not> strictly_ahead direction best b a"
  have "length (filter (\<lambda>c. \<not> strictly_ahead direction best c b) survivors)
      \<le> length (filter (\<lambda>c. \<not> strictly_ahead direction best c a) survivors)"
  proof -
    have "filter (\<lambda>c. \<not> strictly_ahead direction best c b) survivors
        = filter (\<lambda>c. \<not> strictly_ahead direction best c b) (filter (\<lambda>c. \<not> strictly_ahead direction best c a) survivors)"
      using ahead_order.swo_incomp [OF no] by (auto intro!: filter_cong)
    then show ?thesis by (metis length_filter_le)
  qed
  with assms show False by (simp add: below_line_def)
qed

text \<open>C24: a stage boundary cuts exactly the survivors that fall below the line on every ranking metric with data of a survivor, where
  falling below the line on a metric is said without any sorting: those not strictly ahead of the agent, itself among them, are at
  most the share the stage evicts, and leave two.  So a cut takes at most that share of the field and leaves two, takes whole groups of
  equals and nobody of a field below five, and every agent kept is strictly ahead of every agent cut on some ranking metric.\<close>

theorem computeCut_exact:
  assumes "computeCut rd metrics stage = Inr (kept, out)"
    and "currentSurvivors rd = Some survivors" and "distinct survivors"
  shows "out = filter (cut_at_boundary rd metrics stage survivors) survivors
    \<and> kept = filter (\<lambda>a. \<not> cut_at_boundary rd metrics stage survivors a) survivors
    \<and> int (length out) \<le> max 0 (min (go_trunc (st_EvictPct stage / 100 * of_nat (length survivors))) (int (length survivors) - 2))
    \<and> (out \<noteq> [] \<longrightarrow> length kept \<ge> 2)
    \<and> (\<forall>a \<in> set out. \<forall>b \<in> set kept. \<exists>d \<in> set metrics. EffectiveRole d = MetricRoleRanking
         \<and> strictly_ahead (md_Direction d) (bests_read rd metrics d) b a)"
proof -
  note c = computeCut_cases [OF assms]
  have len: "int (length out) \<le> max 0 (cut_line (st_EvictPct stage) (length survivors))"
    using c length_cut [OF assms(3)] by simp
  have "length survivors = length out + length kept"
    using c sum_length_filter_compl [of "cut_at_boundary rd metrics stage survivors" survivors] by simp
  with len have two: "out \<noteq> [] \<longrightarrow> length kept \<ge> 2"
    by (cases out) (auto simp: cut_line_def minSurvivorsAfterCut_def)
  have "\<exists>d \<in> set metrics. EffectiveRole d = MetricRoleRanking \<and> strictly_ahead (md_Direction d) (bests_read rd metrics d) b a"
    if a: "a \<in> set out" and b: "b \<in> set kept" for a b
  proof -
    from a c have cut: "cut_at_boundary rd metrics stage survivors a" by auto
    from b c have "\<not> cut_at_boundary rd metrics stage survivors b" by auto
    with cut obtain d where d: "d \<in> set (healthy_metrics rd metrics survivors)"
      and "\<not> below_line (md_Direction d) (bests_read rd metrics d) (st_EvictPct stage) survivors b"
      by (auto simp: cut_at_boundary_def list_all_iff)
    with cut show ?thesis
      by (auto simp: cut_at_boundary_def list_all_iff healthy_metrics_def intro!: bexI [of _ d] below_line_behind)
  qed
  with c len two show ?thesis by (auto simp: cut_line_def minSurvivorsAfterCut_def)
qed

text \<open>Six executors, half of them to be cut: three share a value across the line, so only the one without data is cut.\<close>

definition sample_reads :: ladder_reads where
  "sample_reads =
     \<lparr>lr_quotas = Some [''a'', ''b'', ''c'', ''d'', ''e'', ''f'', ''base''], lr_cuts = Some [],
      lr_executors = Some [''f'', ''e'', ''d'', ''c'', ''b'', ''a''], lr_jobs = Some [],
      lr_completed = (\<lambda>k. Some [''j1'', ''j2'', ''j3'', ''j4'', ''j5'']),
      lr_queries = \<lparr>mq_by_job = (\<lambda>k. Some []),
        mq_by_agent = (\<lambda>k. Some [sample_of ''a'' ''j1'' 1, sample_of ''b'' ''j2'' 1, sample_of ''c'' ''j3'' 5,
          sample_of ''d'' ''j4'' 5, sample_of ''e'' ''j5'' 5])\<rparr>\<rparr>"

definition sample_stage :: Stage where
  "sample_stage = \<lparr>st_LengthPct = 40, st_EvictPct = 50, st_MaxJobHours = 1\<rparr>"

lemma sample_cut:
  "computeCut sample_reads [sample_metric] sample_stage = Inr ([''a'', ''b'', ''c'', ''d'', ''e''], [''f''])"
  "currentSurvivors sample_reads = Some [''a'', ''b'', ''c'', ''d'', ''e'', ''f'']"
  by code_simp+

theorem computeCut_exact_witness:
  "filter (cut_at_boundary sample_reads [sample_metric] sample_stage [''a'', ''b'', ''c'', ''d'', ''e'', ''f''])
     [''a'', ''b'', ''c'', ''d'', ''e'', ''f''] = [''f'']"
  using computeCut_exact [OF sample_cut] by simp

end
