(* ===== verification/Runs.thy ===== *)
theory Runs
  imports Ladder JobRows
begin

text \<open>
  The tables of running platform experiments beside the jobs: the experiments' own rows, the agents signed up to them and the stage
  boundaries crossed (storage/db/schema.sql), who of the agents is at work (storage/db/signups_read.go), and what a write announces of a run
  (storage/db/platform_experiments_changes.go).  The quotas, the cuts and the announcements are in the \<open>job_db\<close> of theory
  JobRows.  A transaction is a function of the tables; where it fails it leaves them as they were.
\<close>

datatype SignupRole = SignupRoleExecutor | SignupRoleBaseline | SignupRoleReviewer | SignupRoleResearcher | SignupRolePlanner

datatype QuotaTier = QuotaTierGuaranteed | QuotaTierBurstOnly

datatype RunStatus = PlatformExpDraft | PlatformExpOpen | PlatformExpRunning | PlatformExpClosed

definition SubmitsJobs :: "SignupRole \<Rightarrow> bool" where
  "SubmitsJobs r \<longleftrightarrow> r \<noteq> SignupRolePlanner \<and> r \<noteq> SignupRoleResearcher"

definition SharesBudget :: "SignupRole \<Rightarrow> bool" where
  "SharesBudget r \<longleftrightarrow> SubmitsJobs r \<and> r \<noteq> SignupRoleBaseline"

definition TakesSignup :: "RunStatus \<Rightarrow> SignupRole \<Rightarrow> bool" where
  "TakesSignup status role \<longleftrightarrow>
     status = PlatformExpOpen \<or> status = PlatformExpRunning \<and> (role = SignupRoleExecutor \<or> role = SignupRoleResearcher)"

text \<open>Hyperparameters, which nothing here reads, are left out of an entry and of a signup.\<close>

record PoolKey =
  pk_AgentType :: string
  pk_Model :: string

record AgentPoolEntry =
  pl_AgentType :: string
  pl_Model :: string
  pl_Count :: int

type_synonym AgentPool = "AgentPoolEntry list"

definition ResearcherAgentType :: string where "ResearcherAgentType = ''researcher''"

definition Researches :: "PoolKey \<Rightarrow> bool" where
  "Researches k \<longleftrightarrow> pk_AgentType k = ResearcherAgentType"

definition entry_key :: "AgentPoolEntry \<Rightarrow> PoolKey" where
  "entry_key e = \<lparr>pk_AgentType = pl_AgentType e, pk_Model = pl_Model e\<rparr>"

text \<open>\<open>su_Stopped\<close>: its machine stopped with no restart left.\<close>

record Signup =
  su_PlatformExperimentID :: string
  su_AgentID :: string
  su_Role :: SignupRole
  su_QuotaTier :: QuotaTier
  su_InAgentSandbox :: bool
  su_AgentType :: string
  su_Model :: string
  su_SignedUpAt :: int
  su_Finished :: bool
  su_Stopped :: bool
  su_Replaces :: string

record run_row =
  rr_Status :: RunStatus
  rr_CurrentStage :: int
  rr_Stages :: "Stage list"
  rr_Agents :: AgentPool
  rr_MaxAgents :: int
  rr_Held :: string

record run_db =
  rn_jobs :: job_db
  rn_runs :: "(string, run_row) gomap"
  rn_signups :: "Signup list"
  rn_advances :: "(string \<times> int) list"

subsection \<open>Who is at work\<close>

definition is_cut :: "run_db \<Rightarrow> string \<Rightarrow> string \<Rightarrow> bool" where
  "is_cut db pe agent \<longleftrightarrow> (pe, agent) \<in> set (db_cuts (rn_jobs db))"

definition is_replaced :: "run_db \<Rightarrow> Signup \<Rightarrow> bool" where
  "is_replaced db s \<longleftrightarrow>
     list_ex (\<lambda>r. su_PlatformExperimentID r = su_PlatformExperimentID s \<and> su_Replaces r = su_AgentID s) (rn_signups db)"

definition of_team :: "Signup \<Rightarrow> bool" where
  "of_team s \<longleftrightarrow> su_Role s = SignupRoleExecutor \<or> su_Role s = SignupRoleResearcher"

definition agent_at_work :: "run_db \<Rightarrow> Signup \<Rightarrow> bool" where
  "agent_at_work db s \<longleftrightarrow>
     of_team s \<and> \<not> su_Finished s \<and> \<not> su_Stopped s \<and> \<not> is_cut db (su_PlatformExperimentID s) (su_AgentID s) \<and> \<not> is_replaced db s"

definition executor_at_work :: "run_db \<Rightarrow> Signup \<Rightarrow> bool" where
  "executor_at_work db s \<longleftrightarrow> su_Role s = SignupRoleExecutor \<and> agent_at_work db s"

definition signups_of :: "run_db \<Rightarrow> string \<Rightarrow> Signup list" where
  "signups_of db pe = filter (\<lambda>s. su_PlatformExperimentID s = pe) (rn_signups db)"

text \<open>\<open>ORDER BY s.signed_up_at, s.agent_id\<close>.\<close>

definition joined_before :: "Signup \<Rightarrow> Signup \<Rightarrow> bool" where
  "joined_before a b =
     (if su_SignedUpAt a \<noteq> su_SignedUpAt b then su_SignedUpAt a < su_SignedUpAt b else su_AgentID a < su_AgentID b)"

interpretation joined_order: strict_weak_order joined_before
  by unfold_locales (auto simp: joined_before_def split: if_splits)

definition executors_at_work :: "run_db \<Rightarrow> string \<Rightarrow> Signup list" where
  "executors_at_work db pe = sort_slice joined_before (filter (executor_at_work db) (signups_of db pe))"

definition ListSignupsByRole :: "run_db \<Rightarrow> string \<Rightarrow> SignupRole \<Rightarrow> string list" where
  "ListSignupsByRole db pe role =
     map su_AgentID (sort_slice (\<lambda>a b. su_SignedUpAt a < su_SignedUpAt b) (filter (\<lambda>s. su_Role s = role) (signups_of db pe)))"

definition signup_key :: "Signup \<Rightarrow> PoolKey" where
  "signup_key s = \<lparr>pk_AgentType = su_AgentType s, pk_Model = su_Model s\<rparr>"

definition agentsAtWork :: "run_db \<Rightarrow> string \<Rightarrow> (PoolKey, int) gomap" where
  "agentsAtWork db pe = fold (\<lambda>s. madd (signup_key s) 1) (filter (agent_at_work db) (signups_of db pe)) []"

subsection \<open>Announcements of a run\<close>

definition announce :: "Change list \<Rightarrow> run_db \<Rightarrow> run_db" where
  "announce cs db = db\<lparr>rn_jobs := (rn_jobs db)\<lparr>db_changes := db_changes (rn_jobs db) @ cs\<rparr>\<rparr>"

definition run_change :: "string \<Rightarrow> string \<Rightarrow> string \<Rightarrow> string \<Rightarrow> Change" where
  "run_change pe kind value detail =
     \<lparr>ch_Kind = kind, ch_Subject = pe, ch_Value = value, ch_Detail = detail, ch_PlatformExperimentID = pe, ch_AgentID = []\<rparr>"

definition agent_change :: "string \<Rightarrow> string \<Rightarrow> string \<Rightarrow> string \<Rightarrow> string \<Rightarrow> string \<Rightarrow> Change" where
  "agent_change pe agent kind subject value detail =
     \<lparr>ch_Kind = kind, ch_Subject = subject, ch_Value = value, ch_Detail = detail, ch_PlatformExperimentID = pe, ch_AgentID = agent\<rparr>"

subsection \<open>Cutting agents\<close>

text \<open>\<open>cutTx\<close>: each agent once, an agent cut before keeps the cut it has.  The stage and the reason a cut is written with are in its announcement.\<close>

definition cut_one :: "string \<Rightarrow> int \<Rightarrow> string \<Rightarrow> string \<Rightarrow> run_db \<Rightarrow> run_db" where
  "cut_one pe stage reason agent db =
     (if is_cut db pe agent then db
      else announce ((if reason = [] then [agent_change pe agent ''stage.boundary'' pe (show_int stage) ''cut''] else [])
             @ [agent_change pe agent ''agent.cut'' agent (show_int stage) reason])
           (db\<lparr>rn_jobs := (rn_jobs db)\<lparr>db_cuts := db_cuts (rn_jobs db) @ [(pe, agent)]\<rparr>\<rparr>))"

definition cutTx :: "string \<Rightarrow> string list \<Rightarrow> int \<Rightarrow> string \<Rightarrow> run_db \<Rightarrow> run_db" where
  "cutTx pe agents stage reason = fold (cut_one pe stage reason) agents"

end
