(* ===== verification/Pools.thy ===== *)
theory Pools
  imports Runs
begin

text \<open>
  The team a platform experiment keeps at work (domain/agent_pool.go) and the writes that hold it
  (storage/db/platform_experiments_store_pool.go): what is missing of it, which places are held empty, and who goes when
  \<open>max_agents\<close> or an entry is lowered.  The catalog of agent types is an argument.
\<close>

subsection \<open>The pool\<close>

definition pool_Executors :: "AgentPool \<Rightarrow> int" where
  "pool_Executors p = sum_list (map pl_Count (filter (\<lambda>e. \<not> Researches (entry_key e)) p))"

definition add_to_pool :: "AgentPoolEntry \<Rightarrow> AgentPool \<Rightarrow> AgentPool" where
  "add_to_pool e p =
     (if list_ex (\<lambda>f. entry_key f = entry_key e) p
      then map (\<lambda>f. if entry_key f = entry_key e then f\<lparr>pl_Count := pl_Count f + pl_Count e\<rparr> else f) p
      else p @ [e])"

text \<open>\<open>resolve\<close> is ResolveAgentLaunch with the catalog: the agent type and model an entry is started as, \<open>None\<close> for its error.\<close>

fun resolve_entries :: "(AgentPoolEntry \<Rightarrow> PoolKey option) \<Rightarrow> AgentPool \<Rightarrow> AgentPool \<Rightarrow> AgentPool option" where
  "resolve_entries resolve [] out = Some out"
| "resolve_entries resolve (e # es) out =
     (case resolve e of
        None \<Rightarrow> None
      | Some key \<Rightarrow>
          resolve_entries resolve es
            (add_to_pool \<lparr>pl_AgentType = pk_AgentType key, pl_Model = pk_Model key, pl_Count = pl_Count e\<rparr> out))"

definition Resolved :: "(AgentPoolEntry \<Rightarrow> PoolKey option) \<Rightarrow> AgentPool \<Rightarrow> AgentPool option" where
  "Resolved resolve p = resolve_entries resolve p []"

definition PoolOf :: "PoolKey list \<Rightarrow> AgentPool" where
  "PoolOf ks = fold (\<lambda>k. add_to_pool \<lparr>pl_AgentType = pk_AgentType k, pl_Model = pk_Model k, pl_Count = 1\<rparr>) ks []"

text \<open>The entries are visited from the last: the list is the reversed pool, the number what the executors are over.\<close>

fun cap_entries :: "int \<Rightarrow> AgentPool \<Rightarrow> AgentPool" where
  "cap_entries over [] = []"
| "cap_entries over (e # es) =
     (if over \<le> 0 \<or> Researches (entry_key e) then e # cap_entries over es
      else let n = min (pl_Count e) over in e\<lparr>pl_Count := pl_Count e - n\<rparr> # cap_entries (over - n) es)"

definition Capped :: "AgentPool \<Rightarrow> int \<Rightarrow> AgentPool" where
  "Capped p maxAgents = rev (cap_entries (pool_Executors p - maxAgents) (rev p))"

subsection \<open>What is missing of it\<close>

record PoolPlace =
  pp_Entry :: AgentPoolEntry
  pp_Replaces :: string

definition MaxReplacementsAnHour :: int where "MaxReplacementsAnHour = 3"

record EndedPlace =
  ep_AgentID :: string
  ep_Early :: bool

datatype hold_reason = HoldEndedEarly | HoldReplacementLimit

record PoolHold =
  ph_Key :: PoolKey
  ph_Replaces :: string
  ph_Reason :: hold_reason

text \<open>What is still needed after the places early ends hold, the agents that may be replaced, and those holds.\<close>

fun pool_early :: "PoolKey \<Rightarrow> EndedPlace list \<Rightarrow> int \<Rightarrow> int \<times> string list \<times> PoolHold list" where
  "pool_early key [] need = (need, [], [])"
| "pool_early key (r # rs) need =
     (if \<not> ep_Early r then (case pool_early key rs need of (need, ps, hs) \<Rightarrow> (need, ep_AgentID r # ps, hs))
      else if need > 0
           then (case pool_early key rs (need - 1) of (need, ps, hs) \<Rightarrow>
                   (need, ps, \<lparr>ph_Key = key, ph_Replaces = ep_AgentID r, ph_Reason = HoldEndedEarly\<rparr> # hs))
           else pool_early key rs need)"

text \<open>The places of one entry: the agents left to replace and the replacements allowed.\<close>

fun pool_fill :: "AgentPoolEntry \<Rightarrow> string list \<Rightarrow> int \<Rightarrow> nat \<Rightarrow> PoolPlace list \<times> PoolHold list" where
  "pool_fill e ps allowed n =
     (if n = 0 then ([], [])
      else case ps of
        [] \<Rightarrow> (case pool_fill e [] allowed (n - 1) of (places, holds) \<Rightarrow> (\<lparr>pp_Entry = e, pp_Replaces = []\<rparr> # places, holds))
      | p # ps \<Rightarrow>
          if allowed = 0
          then (case pool_fill e ps allowed (n - 1) of (places, holds) \<Rightarrow>
                  (places, \<lparr>ph_Key = entry_key e, ph_Replaces = p, ph_Reason = HoldReplacementLimit\<rparr> # holds))
          else (case pool_fill e ps (allowed - 1) (n - 1) of (places, holds) \<Rightarrow> (\<lparr>pp_Entry = e, pp_Replaces = p\<rparr> # places, holds)))"

declare pool_fill.simps [simp del]

text \<open>How many places of an entry are filled, its need and the room left among the executors.\<close>

definition pool_fits :: "PoolKey \<Rightarrow> int \<Rightarrow> int \<Rightarrow> int" where
  "pool_fits key need room = (if Researches key then need else min need room)"

fun pool_walk :: "(PoolKey, int) gomap \<Rightarrow> (PoolKey, EndedPlace list) gomap \<Rightarrow> (PoolKey, int) gomap \<Rightarrow> int \<Rightarrow> AgentPool
    \<Rightarrow> PoolPlace list \<times> PoolHold list" where
  "pool_walk atWork ended recent room [] = ([], [])"
| "pool_walk atWork ended recent room (e # es) =
     (case pool_early (entry_key e) (mget [] ended (entry_key e)) (pl_Count e - geti atWork (entry_key e)) of
        (need, ps, early) \<Rightarrow>
          let fits = pool_fits (entry_key e) need room;
              (places, holds) = pool_fill e ps (max 0 (MaxReplacementsAnHour - geti recent (entry_key e))) (nat fits);
              (places', holds') = pool_walk atWork ended recent (if Researches (entry_key e) then room else room - fits) es
          in (places @ places', early @ holds @ holds'))"

definition executors_working :: "(PoolKey, int) gomap \<Rightarrow> int" where
  "executors_working atWork = sum_list (map snd (filter (\<lambda>(k, n). \<not> Researches k) atWork))"

definition PoolDeficit :: "AgentPool \<Rightarrow> int \<Rightarrow> (PoolKey, int) gomap \<Rightarrow> (PoolKey, EndedPlace list) gomap \<Rightarrow> (PoolKey, int) gomap
    \<Rightarrow> PoolPlace list \<times> PoolHold list" where
  "PoolDeficit pool maxAgents atWork ended recent = pool_walk atWork ended recent (maxAgents - executors_working atWork) pool"

definition keyName :: "PoolKey \<Rightarrow> string" where
  "keyName k = (if pk_Model k = [] then pk_AgentType k else pk_AgentType k @ '' on '' @ pk_Model k)"

fun strings_join :: "string \<Rightarrow> string list \<Rightarrow> string" where
  "strings_join sep [] = []"
| "strings_join sep [x] = x"
| "strings_join sep (x # y # xs) = x @ sep @ strings_join sep (y # xs)"

definition hold_name :: "PoolHold \<Rightarrow> string" where
  "hold_name h = ph_Replaces h @ '' ('' @ keyName (ph_Key h) @ '')''"

definition HoldsLine :: "PoolHold list \<Rightarrow> string" where
  "HoldsLine holds =
     (if holds = [] then []
      else let early = map hold_name (filter (\<lambda>h. ph_Reason h = HoldEndedEarly) holds);
               limited = map hold_name (filter (\<lambda>h. ph_Reason h \<noteq> HoldEndedEarly) holds);
               parts = (if early = [] then [] else [strings_join '', '' early
                    @ '' ended before submitting a job or within '' @ show_int 10
                    @ '' minutes of joining, so the platform does not replace them: add agents or raise the pool once the cause is fixed''])
                 @ (if limited = [] then [] else [strings_join '', '' limited
                    @ '' wait to be replaced: their pool entry had '' @ show_int MaxReplacementsAnHour @ '' replacements in the last hour''])
           in ''agents not replaced: '' @ strings_join ''; '' parts)"

subsection \<open>Holding a run to its agents\<close>

definition put_agents :: "string \<Rightarrow> AgentPool \<Rightarrow> run_db \<Rightarrow> run_db" where
  "put_agents pe p db =
     (case map_of (rn_runs db) pe of
        None \<Rightarrow> db | Some r \<Rightarrow> db\<lparr>rn_runs := mput pe (r\<lparr>rr_Agents := p\<rparr>) (rn_runs db)\<rparr>)"

definition agents_of :: "run_db \<Rightarrow> string \<Rightarrow> AgentPool" where
  "agents_of db pe = (case map_of (rn_runs db) pe of None \<Rightarrow> [] | Some r \<Rightarrow> rr_Agents r)"

fun lower_entry :: "PoolKey \<Rightarrow> int \<Rightarrow> AgentPool \<Rightarrow> AgentPool" where
  "lower_entry key n [] = []"
| "lower_entry key n (e # es) =
     (if entry_key e = key then (if pl_Count e \<le> n then e # es else e\<lparr>pl_Count := pl_Count e - 1\<rparr> # es)
      else e # lower_entry key n es)"

definition shrinkPoolToAtWorkTx :: "string \<Rightarrow> PoolKey \<Rightarrow> run_db \<Rightarrow> run_db" where
  "shrinkPoolToAtWorkTx pe key db = put_agents pe (lower_entry key (geti (agentsAtWork db pe) key) (agents_of db pe)) db"

definition signupKeysTx :: "run_db \<Rightarrow> string \<Rightarrow> string list \<Rightarrow> PoolKey list" where
  "signupKeysTx db pe agents =
     map signup_key (sort_slice (\<lambda>a b. su_AgentID a < su_AgentID b)
       (filter (\<lambda>s. su_AgentID s \<in> set agents \<and> of_team s) (signups_of db pe)))"

definition lowerPoolTx :: "string \<Rightarrow> string list \<Rightarrow> run_db \<Rightarrow> run_db" where
  "lowerPoolTx pe agents db = fold (shrinkPoolToAtWorkTx pe) (signupKeysTx db pe agents) db"

definition CutMaxAgentsLowered :: string where "CutMaxAgentsLowered = ''max_agents_lowered''"

text \<open>\<open>OFFSET\<close> of a number that is not negative: max_agents.\<close>

definition evictAboveMaxTx :: "string \<Rightarrow> int \<Rightarrow> bool \<Rightarrow> run_db \<Rightarrow> run_db" where
  "evictAboveMaxTx pe maxAgents lowerPool db =
     (case map_of (rn_runs db) pe of
        None \<Rightarrow> db
      | Some r \<Rightarrow>
          if rr_Status r \<noteq> PlatformExpRunning then db
          else let evicted = map su_AgentID (drop (nat maxAgents) (executors_at_work db pe))
               in if evicted = [] then db
                  else let db = cutTx pe evicted (rr_CurrentStage r) CutMaxAgentsLowered db
                       in if lowerPool then lowerPoolTx pe evicted db else db)"

definition wanted_of :: "AgentPool \<Rightarrow> (PoolKey, int) gomap" where
  "wanted_of p = fold (\<lambda>e. madd (entry_key e) (pl_Count e)) p []"

text \<open>The executors beyond what their entry wants, the newest of it.\<close>

fun above_entries :: "(PoolKey, int) gomap \<Rightarrow> (PoolKey, int) gomap \<Rightarrow> Signup list \<Rightarrow> string list" where
  "above_entries wanted seen [] = []"
| "above_entries wanted seen (s # ss) =
     (let key = signup_key s; seen = madd key 1 seen
      in if geti seen key > geti wanted key then su_AgentID s # above_entries wanted seen ss else above_entries wanted seen ss)"

definition evictAboveEntriesTx :: "string \<Rightarrow> AgentPool option \<Rightarrow> run_db \<Rightarrow> run_db" where
  "evictAboveEntriesTx pe pool db =
     (case (pool, map_of (rn_runs db) pe) of
        (Some p, Some r) \<Rightarrow>
          if rr_Status r \<noteq> PlatformExpRunning then db
          else let evicted = above_entries (wanted_of p) [] (executors_at_work db pe)
               in if evicted = [] then db else cutTx pe evicted (rr_CurrentStage r) CutMaxAgentsLowered db
      | _ \<Rightarrow> db)"

text \<open>\<open>True\<close> where the change is refused (PoolBelowAtWorkError).\<close>

definition below_at_work :: "int \<Rightarrow> AgentPool option \<Rightarrow> (PoolKey, int) gomap \<Rightarrow> bool" where
  "below_at_work maxAgents pool atWork \<longleftrightarrow>
     maxAgents < executors_working atWork
     \<or> (case pool of None \<Rightarrow> False | Some p \<Rightarrow> list_ex (\<lambda>e. pl_Count e < geti atWork (entry_key e)) p)"

text \<open>\<open>None\<close> is the refusal, which rolls the write back; the answer is whether the agents written differ.  \<open>known\<close>: the agent types an entry may name.\<close>

definition setAgentsTx :: "(AgentPoolEntry \<Rightarrow> bool) \<Rightarrow> string \<Rightarrow> int \<Rightarrow> AgentPool option \<Rightarrow> run_db \<Rightarrow> bool option \<times> run_db" where
  "setAgentsTx known pe maxAgents pool db =
     (if \<not> (case pool of None \<Rightarrow> True | Some p \<Rightarrow> list_all known p) then (None, db)
      else let db' = evictAboveEntriesTx pe pool (evictAboveMaxTx pe maxAgents (pool = None) db)
           in if below_at_work maxAgents pool (agentsAtWork db' pe) then (None, db)
              else let stored = agents_of db' pe
                   in case (case pool of Some p \<Rightarrow> Some p
                                       | None \<Rightarrow> if pool_Executors stored \<le> maxAgents then None else Some (Capped stored maxAgents)) of
                        None \<Rightarrow> (Some False, db')
                      | Some p \<Rightarrow> (Some (p \<noteq> stored), put_agents pe p db'))"

definition HoldAgents :: "string \<Rightarrow> string \<Rightarrow> run_db \<Rightarrow> run_db" where
  "HoldAgents pe line db =
     (case map_of (rn_runs db) pe of
        None \<Rightarrow> db
      | Some r \<Rightarrow>
          if rr_Status r = PlatformExpRunning \<and> rr_Held r \<noteq> line
          then announce (if line = [] then [] else [run_change pe ''platform_experiment.status'' ''running'' line])
                 (db\<lparr>rn_runs := mput pe (r\<lparr>rr_Held := line\<rparr>) (rn_runs db)\<rparr>)
          else db)"

text \<open>\<open>poolWantsTx\<close>: whether the keeper's agent is still wanted once the experiment is locked.\<close>

definition pool_wants :: "(PoolKey, int) gomap \<Rightarrow> string \<Rightarrow> Signup \<Rightarrow> run_db \<Rightarrow> bool" where
  "pool_wants recent pe s db \<longleftrightarrow>
     (case find (\<lambda>e. entry_key e = signup_key s) (agents_of db pe) of
        None \<Rightarrow> False
      | Some e \<Rightarrow> pl_Count e > geti (agentsAtWork db pe) (signup_key s)
                  \<and> (su_Replaces s = [] \<or> geti recent (signup_key s) < MaxReplacementsAnHour))"

end
