(* ===== verification/Budget.thy ===== *)
theory Budget
  imports Pools
begin

text \<open>
  How a platform experiment's budget is divided among its agents: the shares and how they are given at the start
  (domain/credits.go, service/platformexperiments/start.go), what a stage boundary moves (AdvanceStage,
  storage/db/platform_experiments_start.go), and the share of an executor that joins a run
  (storage/db/signups_enrol.go).  Hours are rationals where Go has float64; RoundHours is kept.

  A write of quotas announces each agent's share; \<open>fmt\<close>, a parameter, is the text of a number (\<open>%g\<close>).
\<close>

subsection \<open>Shares\<close>

record QuotaConfig =
  qc_Top3BonusFraction :: rat
  qc_BurstFraction :: rat

definition AllocateQuota :: "rat \<Rightarrow> int \<Rightarrow> rat \<Rightarrow> rat \<Rightarrow> QuotaConfig \<Rightarrow> rat \<times> rat" where
  "AllocateQuota budgetAccH signedUpCount myBonusFraction totalBonusFraction cfg =
     (if signedUpCount \<le> 0 then (0, 0)
      else let baseShare = budgetAccH / of_int signedUpCount;
               bonusPool = baseShare * totalBonusFraction;
               adjustedBase = (budgetAccH - bonusPool) / of_int signedUpCount;
               guaranteed = RoundHours (adjustedBase + baseShare * myBonusFraction)
           in (guaranteed, RoundHours (guaranteed * qc_BurstFraction cfg)))"

definition ResolveQuotaTier :: "QuotaTier option \<Rightarrow> QuotaTier \<Rightarrow> QuotaTier" where
  "ResolveQuotaTier override experimentDefault = (case override of Some tier \<Rightarrow> tier | None \<Rightarrow> experimentDefault)"

definition ApplyQuotaTier :: "QuotaTier \<Rightarrow> rat \<Rightarrow> rat \<Rightarrow> rat \<times> rat" where
  "ApplyQuotaTier tier guaranteed burst = (if tier = QuotaTierGuaranteed then (guaranteed, burst) else (0, guaranteed))"

definition BaselineShare :: "rat \<Rightarrow> rat" where
  "BaselineShare budget = RoundHours (budget / 2)"

record ExecutorQuota =
  eq_AgentID :: string
  eq_Guaranteed :: rat
  eq_Burst :: rat
  eq_Used :: rat
  eq_Ended :: bool

definition Unspent :: "ExecutorQuota \<Rightarrow> rat" where
  "Unspent q = max 0 ((if eq_Guaranteed q \<le> 0 then eq_Burst q else eq_Guaranteed q) - eq_Used q)"

text \<open>What the executors that ended give, in the order given: what is still needed after them, and what is taken of each.\<close>

fun take_ended :: "rat \<Rightarrow> ExecutorQuota list \<Rightarrow> (string, rat) gomap \<Rightarrow> rat \<times> (string, rat) gomap" where
  "take_ended need [] taken = (need, taken)"
| "take_ended need (q # qs) taken =
     (if \<not> eq_Ended q \<or> need \<le> 0 then take_ended need qs taken
      else let n = min need (Unspent q)
           in if n > 0 then take_ended (need - n) qs (mput (eq_AgentID q) n taken) else take_ended need qs taken)"

definition LateShare :: "ExecutorQuota list \<Rightarrow> rat \<times> (string, rat) gomap" where
  "LateShare quotas =
     (let unspent = sum_list (map Unspent quotas);
          atWork = length (filter (\<lambda>q. \<not> eq_Ended q) quotas);
          share = RoundHours (unspent / of_nat (atWork + 1));
          (need, taken) = take_ended share quotas [];
          above = sum_list (map (\<lambda>q. max 0 (Unspent q - share)) (filter (\<lambda>q. \<not> eq_Ended q) quotas))
      in if need \<le> 0 \<or> above \<le> 0 then (share, taken)
         else (share, fold (\<lambda>q taken.
                let excess = Unspent q - share
                in if \<not> eq_Ended q \<and> excess > 0 then mput (eq_AgentID q) (RoundHours (excess * min 1 (need / above))) taken
                   else taken) quotas taken))"

subsection \<open>The quota rows\<close>

definition quota_row :: "string \<Rightarrow> string \<Rightarrow> rat \<Rightarrow> rat \<Rightarrow> AgentQuota" where
  "quota_row agent pe guaranteed burst =
     \<lparr>aq_AgentID = agent, aq_PlatformExperimentID = pe, aq_GuaranteedAcceleratorHours = guaranteed,
      aq_BurstAcceleratorHours = burst, aq_UsedGuaranteedAccH = 0, aq_UsedBurstAccH = 0\<rparr>"

definition quota_of :: "run_db \<Rightarrow> string \<Rightarrow> string \<Rightarrow> AgentQuota option" where
  "quota_of db pe agent = map_of (db_quotas (rn_jobs db)) (agent, pe)"

definition put_quota :: "string \<Rightarrow> string \<Rightarrow> AgentQuota \<Rightarrow> run_db \<Rightarrow> run_db" where
  "put_quota pe agent q db = db\<lparr>rn_jobs := (rn_jobs db)\<lparr>db_quotas := mput (agent, pe) q (db_quotas (rn_jobs db))\<rparr>\<rparr>"

definition quota_changed :: "(rat \<Rightarrow> string) \<Rightarrow> string \<Rightarrow> string \<Rightarrow> AgentQuota \<Rightarrow> Change" where
  "quota_changed fmt pe agent q = agent_change pe agent ''quota.changed'' agent (fmt (Share q)) []"

text \<open>An \<open>UPDATE agent_quotas\<close> of one agent; nothing where it has no row.\<close>

definition update_quota :: "(rat \<Rightarrow> string) \<Rightarrow> string \<Rightarrow> (AgentQuota \<Rightarrow> AgentQuota) \<Rightarrow> string \<Rightarrow> run_db \<Rightarrow> run_db" where
  "update_quota fmt pe upd agent db =
     (case quota_of db pe agent of
        None \<Rightarrow> db
      | Some q \<Rightarrow> announce [quota_changed fmt pe agent (upd q)] (put_quota pe agent (upd q) db))"

text \<open>The rows an \<open>UPDATE\<close> of several agents writes are each written once.\<close>

definition update_quotas :: "(rat \<Rightarrow> string) \<Rightarrow> string \<Rightarrow> (AgentQuota \<Rightarrow> AgentQuota) \<Rightarrow> string list \<Rightarrow> run_db \<Rightarrow> run_db" where
  "update_quotas fmt pe upd agents = fold (update_quota fmt pe upd) (remdups agents)"

definition upsertAgentQuota :: "(rat \<Rightarrow> string) \<Rightarrow> AgentQuota \<Rightarrow> run_db \<Rightarrow> run_db" where
  "upsertAgentQuota fmt q db =
     (let pe = aq_PlatformExperimentID q; agent = aq_AgentID q;
          q = (case quota_of db pe agent of
                 None \<Rightarrow> q
               | Some old \<Rightarrow> old\<lparr>aq_GuaranteedAcceleratorHours := aq_GuaranteedAcceleratorHours q,
                                aq_BurstAcceleratorHours := aq_BurstAcceleratorHours q\<rparr>)
      in announce [quota_changed fmt pe agent q] (put_quota pe agent q db))"

text \<open>\<open>ORDER BY guaranteed_accelerator_hours DESC\<close>.\<close>

definition ListAgentQuotas :: "run_db \<Rightarrow> string \<Rightarrow> AgentQuota list" where
  "ListAgentQuotas db pe =
     sort_slice (\<lambda>a b. aq_GuaranteedAcceleratorHours a > aq_GuaranteedAcceleratorHours b)
       (map snd (filter (\<lambda>((agent, p), q). p = pe) (db_quotas (rn_jobs db))))"

definition allocateBaselineQuota :: "(rat \<Rightarrow> string) \<Rightarrow> string \<Rightarrow> string \<Rightarrow> QuotaTier \<Rightarrow> rat \<Rightarrow> run_db \<Rightarrow> run_db" where
  "allocateBaselineQuota fmt pe agent tier budget =
     (let (guaranteed, burst) = ApplyQuotaTier tier (BaselineShare budget) 0
      in upsertAgentQuota fmt (quota_row agent pe guaranteed burst))"

definition reallocateBaselineQuotas :: "(rat \<Rightarrow> string) \<Rightarrow> string \<Rightarrow> rat \<Rightarrow> run_db \<Rightarrow> run_db" where
  "reallocateBaselineQuotas fmt pe budget db =
     fold (\<lambda>s. allocateBaselineQuota fmt pe (su_AgentID s) (su_QuotaTier s) budget)
       (filter (\<lambda>s. su_Role s = SignupRoleBaseline) (signups_of db pe)) db"

subsection \<open>The start\<close>

record StartParticipant =
  sp_AgentID :: string
  sp_Role :: SignupRole
  sp_AgentExists :: bool
  sp_HasTop3 :: bool
  sp_QuotaTier :: QuotaTier

definition start_bonus :: "QuotaConfig \<Rightarrow> StartParticipant \<Rightarrow> rat" where
  "start_bonus cfg p = (if sp_HasTop3 p then qc_Top3BonusFraction cfg else 0)"

definition start_quota :: "QuotaConfig \<Rightarrow> string \<Rightarrow> rat \<Rightarrow> StartParticipant list \<Rightarrow> StartParticipant \<Rightarrow> AgentQuota" where
  "start_quota cfg pe budget participants p =
     (let (guaranteed, burst) = AllocateQuota budget (int (length participants)) (start_bonus cfg p)
            (sum_list (map (start_bonus cfg) participants)) cfg;
          (guaranteed, burst) = ApplyQuotaTier (sp_QuotaTier p) guaranteed burst
      in quota_row (sp_AgentID p) pe guaranteed burst)"

text \<open>\<open>None\<close> is the error that fails the start: nobody takes part, or an agent does not exist.\<close>

definition quotasFor :: "QuotaConfig \<Rightarrow> string \<Rightarrow> Stage list \<Rightarrow> rat \<Rightarrow> StartParticipant list \<Rightarrow> (AgentQuota list \<times> Stage list) option" where
  "quotasFor cfg pe stages runBudget participants =
     (if participants = [] \<or> \<not> list_all sp_AgentExists participants then None
      else let executors = length (filter (\<lambda>p. sp_Role p = SignupRoleExecutor) participants);
               stages = RunStages stages executors
           in Some (map (start_quota cfg pe (runBudget * ReleaseFrac (hd stages)) participants) participants, stages))"

text \<open>The agents that share the budget, in the order of their ids; what the tables of agents say of one is an argument.\<close>

definition start_participants :: "(string \<Rightarrow> bool) \<Rightarrow> (string \<Rightarrow> bool) \<Rightarrow> run_db \<Rightarrow> string \<Rightarrow> StartParticipant list" where
  "start_participants exists top3 db pe =
     map (\<lambda>s. \<lparr>sp_AgentID = su_AgentID s, sp_Role = su_Role s, sp_AgentExists = exists (su_AgentID s),
               sp_HasTop3 = top3 (su_AgentID s), sp_QuotaTier = su_QuotaTier s\<rparr>)
       (sort_slice (\<lambda>a b. su_AgentID a < su_AgentID b) (filter (\<lambda>s. SharesBudget (su_Role s)) (signups_of db pe)))"

text \<open>
  The start; the columns of its clock are left out.  \<open>None\<close> is an error, \<open>Some False\<close> a run that is not open.
\<close>

definition StartPlatformExperimentTx :: "(rat \<Rightarrow> string) \<Rightarrow> (string \<Rightarrow> bool) \<Rightarrow> (string \<Rightarrow> bool) \<Rightarrow> QuotaConfig \<Rightarrow> string \<Rightarrow> rat \<Rightarrow> run_db
    \<Rightarrow> bool option \<times> run_db" where
  "StartPlatformExperimentTx fmt exists top3 cfg pe runBudget db =
     (case map_of (rn_runs db) pe of
        None \<Rightarrow> (Some False, db)
      | Some r \<Rightarrow>
          if rr_Status r \<noteq> PlatformExpOpen then (Some False, db)
          else (case quotasFor cfg pe (rr_Stages r) runBudget (start_participants exists top3 db pe) of
                  None \<Rightarrow> (None, db)
                | Some (quotas, stages) \<Rightarrow>
                    if ValidateStages stages \<noteq> None then (None, db)
                    else (Some True, fold (upsertAgentQuota fmt) quotas
                           (announce [run_change pe ''platform_experiment.status'' ''running'' []]
                             (db\<lparr>rn_runs := mput pe (r\<lparr>rr_Status := PlatformExpRunning, rr_Stages := stages, rr_Held := []\<rparr>) (rn_runs db)\<rparr>)))))"

subsection \<open>A stage boundary\<close>

definition participantTiers :: "run_db \<Rightarrow> string \<Rightarrow> string list \<Rightarrow> (string, QuotaTier) gomap" where
  "participantTiers db pe agents =
     map (\<lambda>s. (su_AgentID s, su_QuotaTier s)) (filter (\<lambda>s. su_AgentID s \<in> set agents) (signups_of db pe))"

definition credit_quota :: "rat \<Rightarrow> rat \<Rightarrow> AgentQuota \<Rightarrow> AgentQuota" where
  "credit_quota g b q =
     q\<lparr>aq_GuaranteedAcceleratorHours := aq_GuaranteedAcceleratorHours q + g, aq_BurstAcceleratorHours := aq_BurstAcceleratorHours q + b\<rparr>"

text \<open>\<open>None\<close> is an agent without a signup.  The two tiers are credited in one order or the other, each agent in its own.\<close>

definition creditIntoTier :: "(rat \<Rightarrow> string) \<Rightarrow> string \<Rightarrow> string list \<Rightarrow> rat \<Rightarrow> rat \<Rightarrow> run_db \<Rightarrow> run_db option" where
  "creditIntoTier fmt pe agents guaranteed burst db =
     (if agents = [] \<or> guaranteed = 0 \<and> burst = 0 then Some db
      else let tiers = participantTiers db pe agents
           in if list_ex (\<lambda>a. map_of tiers a = None) agents then None
              else Some (fold (\<lambda>tier.
                     let (g, b) = ApplyQuotaTier tier guaranteed burst
                     in update_quotas fmt pe (credit_quota g b) (filter (\<lambda>a. map_of tiers a = Some tier) agents))
                   [QuotaTierGuaranteed, QuotaTierBurstOnly] db))"

record StageRedistribution =
  sd_Budget :: rat
  sd_ReleaseFrac :: rat
  sd_UsedByAgent :: "(string, rat) gomap"
  sd_UsedBurstByAgent :: "(string, rat) gomap"

text \<open>What the cut agents hold in the column of their tier and used of it; \<open>None\<close> is a cut agent without a signup.\<close>

fun cut_holdings :: "run_db \<Rightarrow> string \<Rightarrow> (string, QuotaTier) gomap \<Rightarrow> StageRedistribution \<Rightarrow> string list
    \<Rightarrow> ((string, rat) gomap \<times> (string, rat) gomap) option" where
  "cut_holdings db pe tiers sd [] = Some ([], [])"
| "cut_holdings db pe tiers sd (a # as) =
     (case quota_of db pe a of
        None \<Rightarrow> cut_holdings db pe tiers sd as
      | Some q \<Rightarrow>
          (case (map_of tiers a, cut_holdings db pe tiers sd as) of
             (Some tier, Some (allocated, used)) \<Rightarrow>
               if tier = QuotaTierGuaranteed
               then Some ((a, aq_GuaranteedAcceleratorHours q) # allocated, (a, mget 0 (sd_UsedByAgent sd) a) # used)
               else Some ((a, aq_BurstAcceleratorHours q) # allocated, (a, mget 0 (sd_UsedBurstByAgent sd) a) # used)
           | _ \<Rightarrow> None))"

definition zero_quota :: "AgentQuota \<Rightarrow> AgentQuota" where
  "zero_quota q = q\<lparr>aq_GuaranteedAcceleratorHours := 0, aq_BurstAcceleratorHours := 0\<rparr>"

definition move_dimension :: "(rat \<Rightarrow> string) \<Rightarrow> string \<Rightarrow> string list \<Rightarrow> string list \<Rightarrow> StageRedistribution \<Rightarrow> run_db \<Rightarrow> run_db option" where
  "move_dimension fmt pe cut_agents survivors sd db =
     (if sd_Budget sd \<le> 0 then Some db
      else case cut_holdings db pe (participantTiers db pe cut_agents) sd (remdups cut_agents) of
             None \<Rightarrow> None
           | Some (allocated, used) \<Rightarrow>
               let db = update_quotas fmt pe zero_quota cut_agents db
               in if survivors = [] then Some db
                  else let credit = StageCredit (sd_Budget sd) (sd_ReleaseFrac sd) allocated used (int (length survivors))
                       in if credit \<le> 0 then Some db else creditIntoTier fmt pe survivors credit 0 db)"

fun move_dimensions :: "(rat \<Rightarrow> string) \<Rightarrow> string \<Rightarrow> string list \<Rightarrow> string list \<Rightarrow> StageRedistribution list \<Rightarrow> run_db \<Rightarrow> run_db option" where
  "move_dimensions fmt pe cut_agents survivors [] db = Some db"
| "move_dimensions fmt pe cut_agents survivors (d # ds) db =
     Option.bind (move_dimension fmt pe cut_agents survivors d db) (move_dimensions fmt pe cut_agents survivors ds)"

definition set_stage :: "string \<Rightarrow> int \<Rightarrow> run_db \<Rightarrow> run_db" where
  "set_stage pe stage db =
     (case map_of (rn_runs db) pe of
        None \<Rightarrow> db | Some r \<Rightarrow> db\<lparr>rn_runs := mput pe (r\<lparr>rr_CurrentStage := stage\<rparr>) (rn_runs db)\<rparr>)"

text \<open>\<open>Some False\<close>: the boundary was committed before.  \<open>None\<close>: an error, nothing written.\<close>

definition AdvanceStage :: "(rat \<Rightarrow> string) \<Rightarrow> string \<Rightarrow> int \<Rightarrow> string list \<Rightarrow> string list \<Rightarrow> StageRedistribution list \<Rightarrow> run_db
    \<Rightarrow> bool option \<times> run_db" where
  "AdvanceStage fmt pe stageIndex cut_agents survivors dims db =
     (if (pe, stageIndex) \<in> set (rn_advances db) then (Some False, db)
      else let db1 = announce [run_change pe ''stage.boundary'' (show_int stageIndex) ''advanced'']
                       (db\<lparr>rn_advances := rn_advances db @ [(pe, stageIndex)]\<rparr>);
               db2 = cutTx pe cut_agents stageIndex [] db1;
               db3 = (if cut_agents = [] then db2 else lowerPoolTx pe cut_agents db2)
           in case move_dimensions fmt pe cut_agents survivors dims db3 of
                None \<Rightarrow> (None, db)
              | Some db4 \<Rightarrow> (Some True, set_stage pe (stageIndex + 1) db4))"

subsection \<open>Joining a run\<close>

record LateJoin =
  lj_Used :: "(string, rat) gomap"
  lj_BurstFraction :: rat
  lj_MinShare :: rat

definition late_quota_of :: "run_db \<Rightarrow> string \<Rightarrow> LateJoin \<Rightarrow> Signup \<Rightarrow> ExecutorQuota option" where
  "late_quota_of db pe late s =
     map_option (\<lambda>q. \<lparr>eq_AgentID = su_AgentID s, eq_Guaranteed = aq_GuaranteedAcceleratorHours q,
                      eq_Burst = aq_BurstAcceleratorHours q, eq_Used = mget 0 (lj_Used late) (su_AgentID s),
                      eq_Ended = su_Finished s \<or> su_Stopped s\<rparr>) (quota_of db pe (su_AgentID s))"

definition late_quotas :: "run_db \<Rightarrow> string \<Rightarrow> LateJoin \<Rightarrow> string \<Rightarrow> ExecutorQuota list" where
  "late_quotas db pe late agent =
     List.map_filter (late_quota_of db pe late)
       (sort_slice joined_before (filter (\<lambda>s. su_Role s = SignupRoleExecutor \<and> su_AgentID s \<noteq> agent
          \<and> \<not> is_cut db pe (su_AgentID s)) (signups_of db pe)))"

definition take_quota :: "rat \<Rightarrow> AgentQuota \<Rightarrow> AgentQuota" where
  "take_quota n q =
     (let g = aq_GuaranteedAcceleratorHours q; b = aq_BurstAcceleratorHours q
      in q\<lparr>aq_GuaranteedAcceleratorHours := (if g > 0 then max 0 (g - n) else 0),
           aq_BurstAcceleratorHours := (if g > 0 then b else max 0 (b - n))\<rparr>)"

text \<open>\<open>None\<close> is ErrNoShareLeft.\<close>

definition allocateLateQuota :: "(rat \<Rightarrow> string) \<Rightarrow> string \<Rightarrow> Signup \<Rightarrow> LateJoin \<Rightarrow> run_db \<Rightarrow> run_db option" where
  "allocateLateQuota fmt pe s late db =
     (let (share, taken) = LateShare (late_quotas db pe late (su_AgentID s))
      in if share \<le> 0 \<or> share < lj_MinShare late then None
         else let db = fold (\<lambda>(a, n). update_quota fmt pe (take_quota n) a) taken db;
                  (guaranteed, burst) = ApplyQuotaTier (su_QuotaTier s) share (RoundHours (share * lj_BurstFraction late))
              in Some (upsertAgentQuota fmt (quota_row (su_AgentID s) pe guaranteed burst) db))"

end
