(* ===== verification/Budget_Laws.thy ===== *)
theory Budget_Laws
  imports Budget
begin

text \<open>
  The lemmas the budget's properties share: rounding to the millionth of an hour, the sum of the shares of a platform experiment and how
  each write of quotas moves it, and what of the tables the other writes of a boundary leave alone.
\<close>

subsection \<open>Rounding\<close>

definition half_micro :: rat where "half_micro = 1 / 2000000"

lemma go_round_near: "\<bar>of_int (go_round x) - x\<bar> \<le> (1 / 2 :: rat)"
proof -
  have f: "of_int \<lfloor>y\<rfloor> \<le> y" "y < of_int \<lfloor>y\<rfloor> + 1" for y :: rat using floor_correct [of y] by simp_all
  have "of_int (go_round x) - x \<le> 1 / 2" "- (of_int (go_round x) - x) \<le> 1 / 2"
    using f [of "1 / 2 - x"] f [of "x + 1 / 2"] unfolding go_round_def by (cases "x < 0"; simp; linarith)+
  then show ?thesis by (rule abs_leI)
qed

lemma go_round_nonneg: "0 \<le> x \<Longrightarrow> 0 \<le> go_round x"
  by (simp add: go_round_def)

lemma go_round_mono:
  assumes "0 \<le> x" and "x \<le> y"
  shows "go_round x \<le> go_round y"
  using assms by (simp add: go_round_def floor_mono)

lemma RoundHours_near: "\<bar>RoundHours x - x\<bar> \<le> half_micro"
proof -
  have "RoundHours x * 10 ^ 6 = of_int (go_round (x * 10 ^ 6))" by (simp add: RoundHours_def)
  moreover have "\<bar>of_int (go_round (x * 10 ^ 6)) - x * 10 ^ 6\<bar> \<le> (1 / 2 :: rat)" by (rule go_round_near)
  ultimately have "\<bar>RoundHours x * 10 ^ 6 - x * 10 ^ 6\<bar> \<le> 1 / 2" by simp
  then have "RoundHours x * 10 ^ 6 - x * 10 ^ 6 \<le> 1 / 2" "- (RoundHours x * 10 ^ 6 - x * 10 ^ 6) \<le> 1 / 2"
    by (rule abs_le_D1, rule abs_le_D2)
  then have "RoundHours x - x \<le> half_micro" "- (RoundHours x - x) \<le> half_micro" by (simp_all add: half_micro_def)
  then show ?thesis by (rule abs_leI)
qed

lemma RoundHours_le: "RoundHours x \<le> x + half_micro"
  and RoundHours_ge: "x - half_micro \<le> RoundHours x"
  using RoundHours_near [of x] by linarith+

lemma RoundHours_nonneg: "0 \<le> x \<Longrightarrow> 0 \<le> RoundHours x"
  by (simp add: RoundHours_def go_round_nonneg)

lemma RoundHours_mono: "0 \<le> x \<Longrightarrow> x \<le> y \<Longrightarrow> RoundHours x \<le> RoundHours y"
  by (simp add: RoundHours_def divide_right_mono go_round_mono)

lemma RoundHours_0 [simp]: "RoundHours 0 = 0"
proof -
  have "\<lfloor>1 / 2 :: rat\<rfloor> = 0" by (rule floor_unique) simp_all
  then show ?thesis by (simp add: RoundHours_def go_round_def)
qed

text \<open>A rounded share that is positive is at least a millionth.\<close>

lemma RoundHours_pos: "0 < RoundHours x \<Longrightarrow> 2 * half_micro \<le> RoundHours x"
proof -
  assume "0 < RoundHours x"
  then have "0 < go_round (x * 10 ^ 6)" by (simp add: RoundHours_def zero_less_divide_iff)
  then have "1 \<le> (of_int (go_round (x * 10 ^ 6)) :: rat)" by simp
  then show ?thesis by (simp add: RoundHours_def half_micro_def field_simps)
qed

lemma half_micro_pos: "0 < half_micro"
  by (simp add: half_micro_def)

lemma near_divide:
  fixes n c x h :: rat
  assumes "0 < n" and "\<bar>c - x / n\<bar> \<le> h"
  shows "\<bar>n * c - x\<bar> \<le> n * h"
proof -
  have "n * c - x = n * (c - x / n)" using assms(1) by (simp add: right_diff_distrib)
  then have "\<bar>n * c - x\<bar> = n * \<bar>c - x / n\<bar>" using assms(1) by (simp add: abs_mult)
  with assms show ?thesis by (simp add: mult_left_mono)
qed

subsection \<open>Sums over the quota rows\<close>

definition msum :: "('k \<Rightarrow> 'v \<Rightarrow> rat) \<Rightarrow> ('k, 'v) gomap \<Rightarrow> rat" where
  "msum f m = sum_list (map (\<lambda>(k, v). f k v) m)"

lemma msum_mput:
  "wf_map m \<Longrightarrow> msum f (mput k v m) = msum f m - (case map_of m k of None \<Rightarrow> 0 | Some w \<Rightarrow> f k w) + f k v"
proof (induction m)
  case Nil
  then show ?case by (simp add: msum_def mput_def)
next
  case (Cons e m)
  obtain k' v' where e: "e = (k', v')" by (cases e)
  from Cons e have "wf_map m" by (simp add: wf_map_def)
  with Cons e show ?case by (cases "k' = k") (auto simp: msum_def mput_def split: option.splits)
qed

text \<open>All the shares of a platform experiment.\<close>

definition total_shares :: "run_db \<Rightarrow> string \<Rightarrow> rat" where
  "total_shares db pe = msum (\<lambda>(agent, p) q. if p = pe then Share q else 0) (db_quotas (rn_jobs db))"

definition quotas_ok :: "run_db \<Rightarrow> bool" where
  "quotas_ok db \<longleftrightarrow> wf_map (db_quotas (rn_jobs db))"

text \<open>What of the tables an announcement leaves alone.\<close>

lemma announce_simps [simp]:
  "db_quotas (rn_jobs (announce cs db)) = db_quotas (rn_jobs db)" "db_cuts (rn_jobs (announce cs db)) = db_cuts (rn_jobs db)"
  "rn_runs (announce cs db) = rn_runs db" "rn_signups (announce cs db) = rn_signups db" "rn_advances (announce cs db) = rn_advances db"
  by (simp_all add: announce_def)

lemma put_quota_simps [simp]:
  "db_quotas (rn_jobs (put_quota pe a q db)) = mput (a, pe) q (db_quotas (rn_jobs db))"
  "db_cuts (rn_jobs (put_quota pe a q db)) = db_cuts (rn_jobs db)" "rn_runs (put_quota pe a q db) = rn_runs db"
  "rn_signups (put_quota pe a q db) = rn_signups db" "rn_advances (put_quota pe a q db) = rn_advances db"
  by (simp_all add: put_quota_def)

text \<open>Writes that leave the quotas as they are, and those that leave all but the quotas.\<close>

definition same_quotas :: "run_db \<Rightarrow> run_db \<Rightarrow> bool" where
  "same_quotas db db' \<longleftrightarrow> db_quotas (rn_jobs db') = db_quotas (rn_jobs db) \<and> rn_signups db' = rn_signups db"

definition same_roster :: "run_db \<Rightarrow> run_db \<Rightarrow> bool" where
  "same_roster db db' \<longleftrightarrow> rn_signups db' = rn_signups db \<and> rn_advances db' = rn_advances db \<and> rn_runs db' = rn_runs db
     \<and> db_cuts (rn_jobs db') = db_cuts (rn_jobs db)"

lemma same_refl [simp]: "same_quotas db db" "same_roster db db"
  by (simp_all add: same_quotas_def same_roster_def)

lemma same_quotas_trans: "same_quotas a b \<Longrightarrow> same_quotas b c \<Longrightarrow> same_quotas a c"
  by (simp add: same_quotas_def)

lemma same_roster_trans: "same_roster a b \<Longrightarrow> same_roster b c \<Longrightarrow> same_roster a c"
  by (simp add: same_roster_def)

lemma fold_keeps: "(\<And>x s. x \<in> set xs \<Longrightarrow> R s (f x s)) \<Longrightarrow> (\<And>s. R s s) \<Longrightarrow> (\<And>a b c. R a b \<Longrightarrow> R b c \<Longrightarrow> R a c) \<Longrightarrow> R s (fold f xs s)"
  by (induction xs arbitrary: s) (auto, metis)

lemma cut_one_same: "same_quotas db (cut_one pe stage reason a db)" "rn_runs (cut_one pe stage reason a db) = rn_runs db"
  "rn_advances (cut_one pe stage reason a db) = rn_advances db"
  by (simp_all add: cut_one_def same_quotas_def)

lemma cutTx_same: "same_quotas db (cutTx pe agents stage reason db)"
  unfolding cutTx_def by (rule fold_keeps) (auto simp: cut_one_same intro: same_quotas_trans)

lemma cutTx_advances: "rn_advances (cutTx pe agents stage reason db) = rn_advances db"
  unfolding cutTx_def by (induction agents arbitrary: db) (simp_all add: cut_one_same)

lemma put_agents_simps [simp]:
  "rn_jobs (put_agents pe p db) = rn_jobs db" "rn_signups (put_agents pe p db) = rn_signups db" "rn_advances (put_agents pe p db) = rn_advances db"
  by (simp_all add: put_agents_def split: option.splits)

lemma lowerPoolTx_same: "same_quotas db (lowerPoolTx pe agents db)" "rn_advances (lowerPoolTx pe agents db) = rn_advances db"
  "db_cuts (rn_jobs (lowerPoolTx pe agents db)) = db_cuts (rn_jobs db)"
proof -
  have "same_quotas db (fold (shrinkPoolToAtWorkTx pe) ks db) \<and> rn_advances (fold (shrinkPoolToAtWorkTx pe) ks db) = rn_advances db
      \<and> db_cuts (rn_jobs (fold (shrinkPoolToAtWorkTx pe) ks db)) = db_cuts (rn_jobs db)" for ks
    by (induction ks arbitrary: db) (auto simp: shrinkPoolToAtWorkTx_def same_quotas_def)
  then show "same_quotas db (lowerPoolTx pe agents db)" "rn_advances (lowerPoolTx pe agents db) = rn_advances db"
    "db_cuts (rn_jobs (lowerPoolTx pe agents db)) = db_cuts (rn_jobs db)"
    by (simp_all add: lowerPoolTx_def)
qed

lemma set_stage_simps [simp]:
  "rn_jobs (set_stage pe n db) = rn_jobs db" "rn_signups (set_stage pe n db) = rn_signups db" "rn_advances (set_stage pe n db) = rn_advances db"
  by (simp_all add: set_stage_def split: option.splits)

lemma same_quotas_total: "same_quotas db db' \<Longrightarrow> total_shares db' pe = total_shares db pe"
  by (simp add: same_quotas_def total_shares_def)

lemma same_quotas_ok: "same_quotas db db' \<Longrightarrow> quotas_ok db' = quotas_ok db"
  by (simp add: same_quotas_def quotas_ok_def)

lemma same_quotas_of: "same_quotas db db' \<Longrightarrow> quota_of db' p a = quota_of db p a"
  by (simp add: same_quotas_def quota_of_def)

subsection \<open>What one write of a row does to the sum\<close>

lemma quota_of_update [simp]:
  "quota_of (update_quota fmt pe upd a db) p b =
     (if p = pe \<and> b = a then map_option upd (quota_of db pe a) else quota_of db p b)"
  by (auto simp: update_quota_def quota_of_def split: option.splits)

lemma update_quota_roster: "same_roster db (update_quota fmt pe upd a db)"
  by (auto simp: update_quota_def same_roster_def split: option.splits)

lemma quotas_ok_update [simp]: "quotas_ok db \<Longrightarrow> quotas_ok (update_quota fmt pe upd a db)"
  by (auto simp: update_quota_def quotas_ok_def split: option.splits)

definition share_gain :: "run_db \<Rightarrow> string \<Rightarrow> (AgentQuota \<Rightarrow> AgentQuota) \<Rightarrow> string \<Rightarrow> rat" where
  "share_gain db pe upd a = (case quota_of db pe a of None \<Rightarrow> 0 | Some q \<Rightarrow> Share (upd q) - Share q)"

lemma total_update_quota:
  "quotas_ok db \<Longrightarrow> total_shares (update_quota fmt pe upd a db) pe = total_shares db pe + share_gain db pe upd a"
  by (auto simp: update_quota_def total_shares_def share_gain_def quotas_ok_def quota_of_def msum_mput split: option.splits)

lemma total_updates:
  "quotas_ok db \<Longrightarrow> distinct (map fst ps) \<Longrightarrow>
     total_shares (fold (\<lambda>(a, u). update_quota fmt pe u a) ps db) pe
       = total_shares db pe + sum_list (map (\<lambda>(a, u). share_gain db pe u a) ps)
     \<and> quotas_ok (fold (\<lambda>(a, u). update_quota fmt pe u a) ps db)"
proof (induction ps arbitrary: db)
  case (Cons p ps)
  obtain a u where p: "p = (a, u)" by (cases p)
  let ?db = "update_quota fmt pe u a db"
  have "share_gain ?db pe u' b = share_gain db pe u' b" if "(b, u') \<in> set ps" for b u'
    using that Cons.prems(2) p by (force simp: share_gain_def)
  then have "map (\<lambda>(a, u). share_gain ?db pe u a) ps = map (\<lambda>(a, u). share_gain db pe u a) ps" by auto
  with Cons.IH [of ?db] Cons.prems p show ?case by (simp add: total_update_quota)
qed simp

lemma quota_of_updates:
  "distinct (map fst ps) \<Longrightarrow> quota_of (fold (\<lambda>(a, u). update_quota fmt pe u a) ps db) p b =
     (case map_of ps b of None \<Rightarrow> quota_of db p b | Some u \<Rightarrow> if p = pe then map_option u (quota_of db pe b) else quota_of db p b)"
proof (induction ps arbitrary: db)
  case (Cons e ps)
  obtain a u where e: "e = (a, u)" by (cases e)
  with Cons.prems have "map_of ps a = None" by (simp add: map_of_eq_None_iff)
  with Cons.IH Cons.prems e show ?case by (cases "b = a") (simp_all split: option.splits)
qed simp

lemma roster_updates: "same_roster db (fold (\<lambda>(a, u). update_quota fmt pe u a) ps db)"
  by (rule fold_keeps) (auto simp: update_quota_roster intro: same_roster_trans)

text \<open>A statement that writes one update to several agents.\<close>

lemma update_quotas_fold: "update_quotas fmt pe upd agents db = fold (\<lambda>(a, u). update_quota fmt pe u a) (map (\<lambda>a. (a, upd)) (remdups agents)) db"
  by (simp add: update_quotas_def fold_map o_def)

lemma total_update_quotas:
  assumes "quotas_ok db" and "distinct agents"
  shows "total_shares (update_quotas fmt pe upd agents db) pe = total_shares db pe + sum_list (map (share_gain db pe upd) agents)"
    and "quotas_ok (update_quotas fmt pe upd agents db)"
  using total_updates [OF assms(1), of "map (\<lambda>a. (a, upd)) agents"] assms(2)
  by (simp_all add: update_quotas_fold distinct_remdups_id o_def)

lemma quota_of_update_quotas:
  "quota_of (update_quotas fmt pe upd agents db) p b =
     (if p = pe \<and> b \<in> set agents then map_option upd (quota_of db pe b) else quota_of db p b)"
proof -
  have "map_of (map (\<lambda>a. (a, upd)) (remdups agents)) b = (if b \<in> set agents then Some upd else None)"
    by (induction agents) auto
  then show ?thesis
    by (simp add: update_quotas_fold quota_of_updates o_def)
qed

lemma roster_update_quotas: "same_roster db (update_quotas fmt pe upd agents db)"
  by (simp add: update_quotas_fold roster_updates)

lemma upsert_simps:
  "same_roster db (upsertAgentQuota fmt q db)" "quotas_ok db \<Longrightarrow> quotas_ok (upsertAgentQuota fmt q db)"
  by (simp_all add: upsertAgentQuota_def Let_def same_roster_def quotas_ok_def)

lemma total_upsert_new:
  "quotas_ok db \<Longrightarrow> quota_of db (aq_PlatformExperimentID q) (aq_AgentID q) = None
   \<Longrightarrow> total_shares (upsertAgentQuota fmt q db) (aq_PlatformExperimentID q) = total_shares db (aq_PlatformExperimentID q) + Share q"
  by (simp add: upsertAgentQuota_def Let_def total_shares_def quotas_ok_def quota_of_def msum_mput)

end
