(* ===== verification/Budget_Properties.thy ===== *)
theory Budget_Properties
  imports Budget_Laws
begin

text \<open>
  A platform experiment's hours are neither minted nor lost where its budget moves: at the start, at a stage boundary, and when an executor
  joins.  Each is exact up to the rounding of a share to the millionth of an hour, at most half of one for each row written
  (\<open>half_micro\<close>).  The one exception the code has is stated too: a row taken down to nothing turns its burst hours into a share.
\<close>

subsection \<open>The share of a late executor\<close>

definition ended_unspent :: "ExecutorQuota list \<Rightarrow> rat" where
  "ended_unspent qs = sum_list (map Unspent (filter eq_Ended qs))"

definition taken_sum :: "(string, rat) gomap \<Rightarrow> rat" where
  "taken_sum taken = sum_list (map snd taken)"

lemma Unspent_nonneg [simp]: "0 \<le> Unspent q"
  by (simp add: Unspent_def)

lemma ended_unspent_nonneg: "0 \<le> ended_unspent qs"
  by (auto simp: ended_unspent_def intro!: sum_list_nonneg)

lemma taken_sum_put: "k \<notin> set (keys m) \<Longrightarrow> taken_sum (mput k v m) = taken_sum m + v"
  by (induction m) (auto simp: taken_sum_def mput_def keys_def)

lemma skip_nothing:
  fixes n a b :: rat
  assumes "0 \<le> a" and "0 \<le> b" and "n \<le> 0 \<or> a = 0" and "0 \<le> n"
  shows "min n (a + b) = min n b \<and> max 0 (n - (a + b)) = max 0 (n - b)"
  using assms by (auto simp: min_def max_def)

lemma take_ended_walk:
  assumes "take_ended need qs taken = (need', taken')" and "wf_map taken"
    and "distinct (map eq_AgentID qs)" and "set (map eq_AgentID qs) \<inter> set (keys taken) = {}"
  shows "wf_map taken' \<and> set (keys taken') \<subseteq> set (keys taken) \<union> eq_AgentID ` {q \<in> set qs. eq_Ended q}
    \<and> (0 \<le> need \<longrightarrow> need' = max 0 (need - ended_unspent qs) \<and> taken_sum taken' = taken_sum taken + min need (ended_unspent qs))
    \<and> (\<forall>a \<in> set (keys taken). mget 0 taken' a = mget 0 taken a)
    \<and> (\<forall>q \<in> set qs. mget 0 taken' (eq_AgentID q) \<le> Unspent q \<and> 0 \<le> mget 0 taken' (eq_AgentID q)
          \<and> (mget 0 taken' (eq_AgentID q) \<noteq> 0 \<longrightarrow> eq_Ended q))"
  using assms
proof (induction qs arbitrary: need taken)
  case Nil
  then show ?case by (simp add: ended_unspent_def)
next
  case (Cons q qs)
  have fresh: "mget 0 taken (eq_AgentID q) = 0" "eq_AgentID q \<notin> set (keys taken)"
    using Cons.prems(4) by (auto simp: mget_absent)
  have others: "set (map eq_AgentID qs) \<inter> set (keys taken) = {}" "distinct (map eq_AgentID qs)"
    using Cons.prems by auto
  show ?case
  proof (cases "eq_Ended q \<and> need > 0 \<and> min need (Unspent q) > 0")
    case False
    then have w: "take_ended need qs taken = (need', taken')" using Cons.prems(1) by (auto simp: Let_def split: if_splits)
    note ih = Cons.IH [OF w Cons.prems(2) others(2,1)]
    have q0: "mget 0 taken' (eq_AgentID q) = 0"
    proof -
      have "eq_AgentID q \<notin> set (keys taken')" using ih fresh(2) Cons.prems(3) by auto
      then show ?thesis by (rule mget_absent)
    qed
    have e: "0 \<le> need \<Longrightarrow> min need (ended_unspent (q # qs)) = min need (ended_unspent qs)"
      "0 \<le> need \<Longrightarrow> max 0 (need - ended_unspent (q # qs)) = max 0 (need - ended_unspent qs)"
    proof -
      have u: "ended_unspent (q # qs) = (if eq_Ended q then Unspent q else 0) + ended_unspent qs" by (simp add: ended_unspent_def)
      have "\<not> 0 < Unspent q \<Longrightarrow> Unspent q = 0" using Unspent_nonneg [of q] by linarith
      with False have "need \<le> 0 \<or> Unspent q = 0 \<or> \<not> eq_Ended q" by (auto simp: min_def split: if_splits)
      with u skip_nothing [OF Unspent_nonneg ended_unspent_nonneg, of need q qs]
      show "0 \<le> need \<Longrightarrow> min need (ended_unspent (q # qs)) = min need (ended_unspent qs)"
        "0 \<le> need \<Longrightarrow> max 0 (need - ended_unspent (q # qs)) = max 0 (need - ended_unspent qs)"
        by (auto split: if_splits)
    qed
    from ih q0 e show ?thesis by auto
  next
    case True
    let ?n = "min need (Unspent q)"
    have w: "take_ended (need - ?n) qs (mput (eq_AgentID q) ?n taken) = (need', taken')"
      using Cons.prems(1) True by (auto simp: Let_def)
    have "set (map eq_AgentID qs) \<inter> set (keys (mput (eq_AgentID q) ?n taken)) = {}" using others(1) Cons.prems(3) by auto
    note ih = Cons.IH [OF w _ others(2) this]
    have ts: "taken_sum (mput (eq_AgentID q) ?n taken) = taken_sum taken + ?n" by (rule taken_sum_put [OF fresh(2)])
    have eu: "ended_unspent (q # qs) = Unspent q + ended_unspent qs" using True by (simp add: ended_unspent_def)
    have sums: "max 0 (need - ?n - ended_unspent qs) = max 0 (need - ended_unspent (q # qs))"
      "?n + min (need - ?n) (ended_unspent qs) = min need (ended_unspent (q # qs))"
      using True ended_unspent_nonneg [of qs] by (auto simp: eu min_def max_def)
    from ih Cons.prems(2) have ih': "wf_map taken'"
      "set (keys taken') \<subseteq> insert (eq_AgentID q) (set (keys taken)) \<union> eq_AgentID ` {q \<in> set qs. eq_Ended q}"
      "need' = max 0 (need - ?n - ended_unspent qs)" "taken_sum taken' = taken_sum taken + ?n + min (need - ?n) (ended_unspent qs)"
      "\<forall>a \<in> insert (eq_AgentID q) (set (keys taken)). mget 0 taken' a = mget 0 (mput (eq_AgentID q) ?n taken) a"
      "\<forall>q \<in> set qs. mget 0 taken' (eq_AgentID q) \<le> Unspent q \<and> 0 \<le> mget 0 taken' (eq_AgentID q)
          \<and> (mget 0 taken' (eq_AgentID q) \<noteq> 0 \<longrightarrow> eq_Ended q)"
      by (simp_all add: ts)
    have q: "mget 0 taken' (eq_AgentID q) = ?n" using ih'(5) by simp
    have keep: "\<forall>a \<in> set (keys taken). mget 0 taken' a = mget 0 taken a" using ih'(5) fresh(2) by auto
    show ?thesis using ih'(1-4,6) q keep sums True by auto
  qed
qed

text \<open>What is taken of the executors at work.\<close>

definition excess_walk :: "rat \<Rightarrow> rat \<Rightarrow> ExecutorQuota list \<Rightarrow> (string, rat) gomap \<Rightarrow> (string, rat) gomap" where
  "excess_walk share f qs = fold (\<lambda>q taken.
     let excess = Unspent q - share
     in if \<not> eq_Ended q \<and> excess > 0 then mput (eq_AgentID q) (RoundHours (excess * f)) taken else taken) qs"

definition excess_of :: "rat \<Rightarrow> ExecutorQuota list \<Rightarrow> rat" where
  "excess_of share qs = sum_list (map (\<lambda>q. max 0 (Unspent q - share)) (filter (\<lambda>q. \<not> eq_Ended q) qs))"

lemma excess_walk_keys:
  "wf_map taken \<Longrightarrow> wf_map (excess_walk share f qs taken)
   \<and> set (keys (excess_walk share f qs taken)) = set (keys taken) \<union> eq_AgentID ` {q \<in> set qs. \<not> eq_Ended q \<and> Unspent q > share}"
  by (induction qs arbitrary: taken) (auto simp: excess_walk_def Let_def)

lemma excess_walk_values:
  assumes "distinct (map eq_AgentID qs)" 
  shows "(\<forall>q \<in> set qs. mget 0 (excess_walk share f qs taken) (eq_AgentID q) =
           (if \<not> eq_Ended q \<and> Unspent q > share then RoundHours ((Unspent q - share) * f) else mget 0 taken (eq_AgentID q)))
    \<and> (\<forall>a. a \<notin> set (map eq_AgentID qs) \<longrightarrow> mget 0 (excess_walk share f qs taken) a = mget 0 taken a)"
  using assms
proof (induction qs arbitrary: taken)
  case (Cons q qs)
  let ?t = "if \<not> eq_Ended q \<and> Unspent q - share > 0 then mput (eq_AgentID q) (RoundHours ((Unspent q - share) * f)) taken else taken"
  have e: "excess_walk share f (q # qs) taken = excess_walk share f qs ?t" by (simp add: excess_walk_def Let_def)
  have ne: "p \<in> set qs \<Longrightarrow> eq_AgentID p \<noteq> eq_AgentID q" for p using Cons.prems by (auto simp: image_iff)
  from Cons.IH [of ?t] Cons.prems show ?case unfolding e by (auto simp: ne)
qed (simp add: excess_walk_def)

lemma excess_walk_sum:
  assumes "distinct (map eq_AgentID qs)" and "\<forall>q \<in> set qs. \<not> eq_Ended q \<longrightarrow> eq_AgentID q \<notin> set (keys taken)"
  shows "\<bar>taken_sum (excess_walk share f qs taken) - (taken_sum taken + excess_of share qs * f)\<bar>
    \<le> of_nat (length (filter (\<lambda>q. \<not> eq_Ended q) qs)) * half_micro"
  using assms
proof (induction qs arbitrary: taken)
  case Nil
  then show ?case by (simp add: excess_walk_def excess_of_def)
next
  case (Cons q qs)
  show ?case
  proof (cases "\<not> eq_Ended q \<and> Unspent q - share > 0")
    case False
    then have e: "excess_walk share f (q # qs) taken = excess_walk share f qs taken"
      "excess_of share (q # qs) = excess_of share qs" by (auto simp: excess_walk_def excess_of_def Let_def)
    have "\<bar>taken_sum (excess_walk share f qs taken) - (taken_sum taken + excess_of share qs * f)\<bar>
        \<le> of_nat (length (filter (\<lambda>q. \<not> eq_Ended q) qs)) * half_micro" using Cons by auto
    with e half_micro_pos show ?thesis by (auto simp: distrib_right)
  next
    case True
    let ?v = "RoundHours ((Unspent q - share) * f)"
    have e: "excess_walk share f (q # qs) taken = excess_walk share f qs (mput (eq_AgentID q) ?v taken)"
      "excess_of share (q # qs) = (Unspent q - share) + excess_of share qs"
      using True by (auto simp: excess_walk_def excess_of_def Let_def)
    have ts: "taken_sum (mput (eq_AgentID q) ?v taken) = taken_sum taken + ?v"
      using Cons.prems(2) True by (intro taken_sum_put) auto
    have "\<bar>taken_sum (excess_walk share f qs (mput (eq_AgentID q) ?v taken)) - (taken_sum taken + ?v + excess_of share qs * f)\<bar>
        \<le> of_nat (length (filter (\<lambda>q. \<not> eq_Ended q) qs)) * half_micro"
    proof -
      have "p \<in> set qs \<Longrightarrow> eq_AgentID p \<noteq> eq_AgentID q" for p using Cons.prems(1) by (auto simp: image_iff)
      then have "\<forall>p \<in> set qs. \<not> eq_Ended p \<longrightarrow> eq_AgentID p \<notin> set (keys (mput (eq_AgentID q) ?v taken))" using Cons.prems(2) by auto
      from Cons.IH [OF _ this] Cons.prems(1) show ?thesis unfolding ts by simp
    qed
    moreover have "\<bar>?v - (Unspent q - share) * f\<bar> \<le> half_micro" by (rule RoundHours_near)
    ultimately have "\<bar>taken_sum (excess_walk share f (q # qs) taken) - (taken_sum taken + excess_of share (q # qs) * f)\<bar>
        \<le> of_nat (length (filter (\<lambda>q. \<not> eq_Ended q) qs)) * half_micro + half_micro"
      unfolding e distrib_right by linarith
    with True show ?thesis by (simp add: distrib_right)
  qed
qed

lemma LateShare_unfold:
  assumes "LateShare qs = (share, taken)" and "take_ended share qs [] = (need, ended)"
  shows "share = RoundHours (sum_list (map Unspent qs) / of_nat (length (filter (\<lambda>q. \<not> eq_Ended q) qs) + 1))"
    and "taken = (if need \<le> 0 \<or> excess_of share qs \<le> 0 then ended
      else excess_walk share (min 1 (need / excess_of share qs)) qs ended)"
  using assms by (auto simp: LateShare_def excess_walk_def excess_of_def Let_def split: prod.splits if_splits)

lemma sum_by_ended:
  "sum_list (map Unspent qs) = ended_unspent qs + sum_list (map Unspent (filter (\<lambda>q. \<not> eq_Ended q) qs))"
  by (induction qs) (auto simp: ended_unspent_def)

lemma excess_of_ge:
  "excess_of share qs \<ge> sum_list (map Unspent (filter (\<lambda>q. \<not> eq_Ended q) qs)) - of_nat (length (filter (\<lambda>q. \<not> eq_Ended q) qs)) * share"
  by (induction qs) (auto simp: excess_of_def distrib_right)

definition at_work :: "ExecutorQuota list \<Rightarrow> nat" where
  "at_work qs = length (filter (\<lambda>q. \<not> eq_Ended q) qs)"

lemma LateShare_values:
  assumes ls: "LateShare qs = (share, taken)" and d: "distinct (map eq_AgentID qs)" and pos: "0 < share"
  shows "wf_map taken \<and> set (keys taken) \<subseteq> set (map eq_AgentID qs)
    \<and> (\<forall>q \<in> set qs. let n = mget 0 taken (eq_AgentID q)
         in 0 \<le> n \<and> n \<le> Unspent q \<and> (eq_Ended q \<or> n = 0 \<or> Unspent q - n \<ge> share - half_micro))"
proof -
  obtain need ended where te: "take_ended share qs [] = (need, ended)" by fastforce
  note u = LateShare_unfold [OF ls te]
  from take_ended_walk [OF te _ d] pos have w: "wf_map ended" "set (keys ended) \<subseteq> eq_AgentID ` {q \<in> set qs. eq_Ended q}"
    and v: "\<And>q. q \<in> set qs \<Longrightarrow> mget 0 ended (eq_AgentID q) \<le> Unspent q \<and> 0 \<le> mget 0 ended (eq_AgentID q)
          \<and> (mget 0 ended (eq_AgentID q) \<noteq> 0 \<longrightarrow> eq_Ended q)" by auto
  show ?thesis
  proof (cases "need \<le> 0 \<or> excess_of share qs \<le> 0")
    case True
    with u have "taken = ended" by simp
    with w v show ?thesis by (force simp: Let_def)
  next
    case False
    let ?f = "min 1 (need / excess_of share qs)"
    from False u have t: "taken = excess_walk share ?f qs ended" by simp
    have f: "0 \<le> ?f" "?f \<le> 1" using False by (simp_all add: zero_le_divide_iff)
    have "let n = mget 0 taken (eq_AgentID q)
         in 0 \<le> n \<and> n \<le> Unspent q \<and> (eq_Ended q \<or> n = 0 \<or> Unspent q - n \<ge> share - half_micro)" if q: "q \<in> set qs" for q
    proof (cases "\<not> eq_Ended q \<and> Unspent q > share")
      case False
      with excess_walk_values [OF d, of share ?f ended] q t v [OF q] show ?thesis by (auto simp: Let_def)
    next
      case True
      let ?x = "Unspent q - share"
      have n: "mget 0 taken (eq_AgentID q) = RoundHours (?x * ?f)"
        using excess_walk_values [OF d, of share ?f ended] q t True by auto
      have x: "0 \<le> ?x * ?f" "?x * ?f \<le> ?x" using True f mult_left_le [of ?f ?x] by (auto intro!: mult_nonneg_nonneg)
      have "RoundHours (?x * ?f) \<le> ?x + half_micro" using RoundHours_le [of "?x * ?f"] x(2) by linarith
      moreover have "2 * half_micro \<le> share" using u(1) pos RoundHours_pos by metis
      ultimately show ?thesis using n RoundHours_nonneg [OF x(1)] half_micro_pos by (simp add: Let_def)
    qed
    moreover have "wf_map taken" "set (keys taken) \<subseteq> set (map eq_AgentID qs)"
      using excess_walk_keys [OF w(1), of share ?f qs] w(2) t by auto
    ultimately show ?thesis by blast
  qed
qed

lemma LateShare_sum:
  assumes ls: "LateShare qs = (share, taken)" and d: "distinct (map eq_AgentID qs)" and pos: "0 < share"
  shows "\<bar>taken_sum taken - share\<bar> \<le> (2 * of_nat (at_work qs) + 1) * half_micro"
proof -
  obtain need ended where te: "take_ended share qs [] = (need, ended)" by fastforce
  note u = LateShare_unfold [OF ls te]
  let ?w = "of_nat (at_work qs) :: rat" and ?E = "ended_unspent qs" and ?A = "excess_of share qs"
  let ?W = "sum_list (map Unspent (filter (\<lambda>q. \<not> eq_Ended q) qs))"
  from take_ended_walk [OF te _ d] pos have need: "need = max 0 (share - ?E)" and ts: "taken_sum ended = min share ?E"
    and keys: "set (keys ended) \<subseteq> eq_AgentID ` {q \<in> set qs. eq_Ended q}" by (auto simp: taken_sum_def)
  have E: "0 \<le> ?E" by (rule ended_unspent_nonneg)
  have share: "share = RoundHours ((?E + ?W) / (?w + 1))"
    using u(1) [unfolded sum_by_ended [of qs]] by (simp add: at_work_def add.commute)
  then have "share \<le> (?E + ?W) / (?w + 1) + half_micro" using RoundHours_le by simp
  then have "share * (?w + 1) \<le> ((?E + ?W) / (?w + 1) + half_micro) * (?w + 1)" by (rule mult_right_mono) simp
  moreover have "((?E + ?W) / (?w + 1) + half_micro) * (?w + 1) = ?E + ?W + half_micro * (?w + 1)"
  proof -
    have "0 < ?w + 1" by (simp add: add_nonneg_pos)
    then have "(?E + ?W) / (?w + 1) * (?w + 1) = ?E + ?W" by simp
    then show ?thesis by (simp only: distrib_right [of "(?E + ?W) / (?w + 1)"])
  qed
  ultimately have up: "share * (?w + 1) \<le> ?E + ?W + half_micro * (?w + 1)" by simp
  have A: "?A \<ge> ?W - ?w * share" using excess_of_ge [of qs share] by (simp add: at_work_def)
  have h: "0 \<le> ?w * half_micro" using half_micro_pos by simp
  have short: "share - ?E - ?A \<le> (?w + 1) * half_micro"
    using up A by (simp add: distrib_left distrib_right mult.commute) 
  show ?thesis
  proof (cases "need \<le> 0 \<or> ?A \<le> 0")
    case True
    with u have "taken = ended" by simp
    then have "taken_sum taken = min share ?E" using ts by simp
    moreover have "share - min share ?E \<le> (?w + 1) * half_micro"
    proof (cases "share \<le> ?E")
      case True
      with h half_micro_pos show ?thesis by (simp add: distrib_right)
    next
      case False
      with \<open>need \<le> 0 \<or> ?A \<le> 0\<close> need have "?A \<le> 0" by auto
      moreover have "0 \<le> ?A" unfolding excess_of_def by (rule sum_list_nonneg) auto
      ultimately show ?thesis using short False by simp
    qed
    ultimately have "\<bar>taken_sum taken - share\<bar> \<le> (?w + 1) * half_micro" by (simp add: abs_le_iff)
    with h show ?thesis by (simp add: distrib_right)
  next
    case False
    let ?f = "min 1 (need / ?A)"
    from False u have t: "taken = excess_walk share ?f qs ended" by simp
    have "\<forall>q \<in> set qs. \<not> eq_Ended q \<longrightarrow> eq_AgentID q \<notin> set (keys ended)"
      using keys d by (fastforce simp: distinct_map inj_on_def)
    from excess_walk_sum [OF d this, of share ?f] t
    have r: "\<bar>taken_sum taken - (taken_sum ended + ?A * ?f)\<bar> \<le> ?w * half_micro" by (simp add: at_work_def)
    have "?A * ?f = min ?A need" using False by (simp add: min_def field_simps)
    moreover have "taken_sum ended = ?E" "need = share - ?E" using False need ts by (auto simp: max_def min_def split: if_splits)
    ultimately have "\<bar>taken_sum ended + ?A * ?f - share\<bar> \<le> (?w + 1) * half_micro"
      using short h half_micro_pos by (simp add: min_def abs_le_iff distrib_right) 
    with r show ?thesis by (simp add: distrib_right) 
  qed
qed

subsection \<open>An executor joins\<close>

text \<open>One row for each agent, one signup for each agent of the platform experiment, and no hours below nothing.\<close>

definition rows_nonneg :: "run_db \<Rightarrow> string \<Rightarrow> bool" where
  "rows_nonneg db pe \<longleftrightarrow>
     list_all (\<lambda>((a, p), q). p = pe \<longrightarrow> aq_GuaranteedAcceleratorHours q \<ge> 0 \<and> aq_BurstAcceleratorHours q \<ge> 0) (db_quotas (rn_jobs db))"

definition run_ok :: "run_db \<Rightarrow> string \<Rightarrow> bool" where
  "run_ok db pe \<longleftrightarrow> quotas_ok db \<and> distinct (map su_AgentID (signups_of db pe)) \<and> rows_nonneg db pe"

lemma rows_nonnegD:
  assumes "rows_nonneg db pe" and "quota_of db pe a = Some q"
  shows "aq_GuaranteedAcceleratorHours q \<ge> 0" "aq_BurstAcceleratorHours q \<ge> 0"
proof -
  from assms(2) have "((a, pe), q) \<in> set (db_quotas (rn_jobs db))" by (auto simp: quota_of_def dest: map_of_SomeD)
  with assms(1) show "aq_GuaranteedAcceleratorHours q \<ge> 0" "aq_BurstAcceleratorHours q \<ge> 0"
    by (auto simp: rows_nonneg_def list_all_iff)
qed

lemma late_quotas_row:
  assumes "x \<in> set (late_quotas db pe late agent)"
  obtains q where "quota_of db pe (eq_AgentID x) = Some q" "eq_Guaranteed x = aq_GuaranteedAcceleratorHours q"
    "eq_Burst x = aq_BurstAcceleratorHours q" "eq_AgentID x \<noteq> agent" "eq_Used x = mget 0 (lj_Used late) (eq_AgentID x)"
  using assms by (auto simp: late_quotas_def List.map_filter_def late_quota_of_def)

lemma late_quotas_distinct:
  assumes "distinct (map su_AgentID (signups_of db pe))"
  shows "distinct (map eq_AgentID (late_quotas db pe late agent))"
proof -
  let ?ss = "sort_slice joined_before (filter (\<lambda>s. su_Role s = SignupRoleExecutor \<and> su_AgentID s \<noteq> agent
          \<and> \<not> is_cut db pe (su_AgentID s)) (signups_of db pe))"
  have "mset (map su_AgentID ?ss) = mset (map su_AgentID (filter (\<lambda>s. su_Role s = SignupRoleExecutor \<and> su_AgentID s \<noteq> agent
          \<and> \<not> is_cut db pe (su_AgentID s)) (signups_of db pe)))" by simp
  then have "distinct (map su_AgentID ?ss)"
    using distinct_map_filter [OF assms] mset_eq_imp_distinct_iff by blast
  moreover have "map eq_AgentID (List.map_filter (late_quota_of db pe late) ss)
      = filter (\<lambda>a. quota_of db pe a \<noteq> None) (map su_AgentID ss)" for ss
    by (induction ss) (auto simp: map_filter_simps late_quota_of_def)
  ultimately show ?thesis by (simp add: late_quotas_def)
qed

text \<open>The burst hours of the rows a newcomer's share takes whole: what turns into shares of their own.\<close>

definition burst_of_drained :: "run_db \<Rightarrow> string \<Rightarrow> (string, rat) gomap \<Rightarrow> rat" where
  "burst_of_drained db pe taken =
     sum_list (map (\<lambda>(a, n). case quota_of db pe a of
                      None \<Rightarrow> 0
                    | Some q \<Rightarrow> if aq_GuaranteedAcceleratorHours q > 0 \<and> n = aq_GuaranteedAcceleratorHours q
                               then aq_BurstAcceleratorHours q else 0) taken)"

lemma take_quota_gain:
  assumes "0 \<le> n" and "n \<le> Share q" and "aq_GuaranteedAcceleratorHours q \<ge> 0" and "aq_BurstAcceleratorHours q \<ge> 0"
  shows "Share (take_quota n q) - Share q
    = (if aq_GuaranteedAcceleratorHours q > 0 \<and> n = aq_GuaranteedAcceleratorHours q then aq_BurstAcceleratorHours q else 0) - n"
  using assms by (cases "aq_GuaranteedAcceleratorHours q > 0") (auto simp: Share_def take_quota_def Let_def max_def)

lemma late_gains:
  assumes "run_ok db pe" and "\<forall>(a, n) \<in> set taken. \<exists>q. quota_of db pe a = Some q \<and> 0 \<le> n \<and> n \<le> Share q"
  shows "sum_list (map (\<lambda>(a, n). share_gain db pe (take_quota n) a) taken) = burst_of_drained db pe taken - taken_sum taken"
  using assms(2)
proof (induction taken)
  case (Cons e taken)
  obtain a n where e: "e = (a, n)" by (cases e)
  with Cons.prems obtain q where q: "quota_of db pe a = Some q" "0 \<le> n" "n \<le> Share q" by auto
  with take_quota_gain [OF q(2,3)] rows_nonnegD [OF _ q(1)] assms(1) Cons e show ?case
    by (simp add: share_gain_def burst_of_drained_def taken_sum_def run_ok_def)
qed (simp add: burst_of_drained_def taken_sum_def)

lemma late_join_total:
  assumes join: "allocateLateQuota fmt pe s late db = Some db'" and ok: "run_ok db pe"
    and new: "quota_of db pe (su_AgentID s) = None" and used: "list_all (\<lambda>(a, u). u \<ge> 0) (lj_Used late)"
    and ls: "LateShare (late_quotas db pe late (su_AgentID s)) = (share, taken)"
  shows "\<bar>total_shares db' pe - (total_shares db pe + burst_of_drained db pe taken)\<bar>
           \<le> (2 * of_nat (at_work (late_quotas db pe late (su_AgentID s))) + 1) * half_micro
    \<and> map_option Share (quota_of db' pe (su_AgentID s)) = Some share \<and> share \<ge> lj_MinShare late \<and> share > 0"
proof -
  let ?qs = "late_quotas db pe late (su_AgentID s)"
  from join ls have pos: "share > 0" "share \<ge> lj_MinShare late" by (auto simp: allocateLateQuota_def split: if_splits)
  note d = late_quotas_distinct [of db pe late "su_AgentID s"]
  have d: "distinct (map eq_AgentID ?qs)" using ok late_quotas_distinct by (auto simp: run_ok_def)
  note v = LateShare_values [OF ls d pos(1)]
  have row: "\<exists>q. quota_of db pe a = Some q \<and> 0 \<le> n \<and> n \<le> Share q \<and> a \<noteq> su_AgentID s" if "(a, n) \<in> set taken" for a n
  proof -
    from that v obtain x where x: "x \<in> set ?qs" "eq_AgentID x = a" by (force dest: in_keysI)
    from that v have n: "mget 0 taken a = n" by (auto intro: mget_in)
    from v x n have nx: "0 \<le> n" "n \<le> Unspent x" by (auto simp: Let_def)
    from late_quotas_row [OF x(1)] obtain q where q: "quota_of db pe a = Some q" "eq_Guaranteed x = aq_GuaranteedAcceleratorHours q"
      "eq_Burst x = aq_BurstAcceleratorHours q" "a \<noteq> su_AgentID s" "eq_Used x = mget 0 (lj_Used late) a" using x(2) by metis
    have "mget 0 (lj_Used late) a \<ge> 0" using used by (auto simp: mget_def list_all_iff dest: map_of_SomeD split: option.splits)
    then have "eq_Used x \<ge> 0" using q(5) by simp
    moreover have "Share q \<ge> 0" using rows_nonnegD [OF _ q(1)] ok by (simp add: Share_def run_ok_def)
    ultimately have "Unspent x \<le> Share q" using q(2,3) by (cases "aq_GuaranteedAcceleratorHours q > 0") (auto simp: Unspent_def Share_def)
    with nx q show ?thesis by force
  qed
  let ?ps = "map (\<lambda>(a, n). (a, take_quota n)) taken"
  let ?db1 = "fold (\<lambda>(a, n). update_quota fmt pe (take_quota n) a) taken db"
  have f: "?db1 = fold (\<lambda>(a, u). update_quota fmt pe u a) ?ps db" by (simp add: fold_map o_def case_prod_beta')
  have dps: "distinct (map fst ?ps)" using v by (simp add: wf_map_def o_def case_prod_beta')
  have "\<forall>(a, n) \<in> set taken. \<exists>q. quota_of db pe a = Some q \<and> 0 \<le> n \<and> n \<le> Share q" using row by blast
  note gains = late_gains [OF ok this]
  have t1: "total_shares ?db1 pe = total_shares db pe + (burst_of_drained db pe taken - taken_sum taken)" "quotas_ok ?db1"
    using total_updates [of db ?ps fmt pe] dps ok gains
    by (simp_all add: run_ok_def o_def case_prod_beta' fold_map)
  have no: "quota_of ?db1 pe (su_AgentID s) = None"
  proof -
    have "map_of ?ps (su_AgentID s) = None" using row by (force simp: map_of_eq_None_iff)
    then show ?thesis using quota_of_updates [OF dps] new f by simp
  qed
  obtain g b where gb: "ApplyQuotaTier (su_QuotaTier s) share (RoundHours (share * lj_BurstFraction late)) = (g, b)" by fastforce
  then have sh: "Share (quota_row (su_AgentID s) pe g b) = share"
    using pos(1) by (auto simp: ApplyQuotaTier_def Share_def quota_row_def split: if_splits)
  from join ls pos gb have db': "db' = upsertAgentQuota fmt (quota_row (su_AgentID s) pe g b) ?db1"
    by (auto simp: allocateLateQuota_def Let_def)
  have "total_shares db' pe = total_shares ?db1 pe + share"
    using total_upsert_new [of ?db1 "quota_row (su_AgentID s) pe g b"] t1(2) no sh by (simp add: db' quota_row_def)
  with t1(1) LateShare_sum [OF ls d pos(1)] have "\<bar>total_shares db' pe - (total_shares db pe + burst_of_drained db pe taken)\<bar>
           \<le> (2 * of_nat (at_work ?qs) + 1) * half_micro" by (simp add: abs_le_iff)
  moreover have "map_option Share (quota_of db' pe (su_AgentID s)) = Some share"
  proof -
    have "quota_of db' pe (su_AgentID s) = Some (quota_row (su_AgentID s) pe g b)"
      using no unfolding db' by (simp add: upsertAgentQuota_def Let_def quota_of_def quota_row_def)
    with sh show ?thesis by simp
  qed
  ultimately show ?thesis using pos by simp
qed

lemma late_join_row:
  assumes join: "allocateLateQuota fmt pe s late db = Some db'" and ls: "LateShare (late_quotas db pe late (su_AgentID s)) = (share, taken)"
    and "wf_map taken" and "(a, n) \<in> set taken" and "quota_of db pe a = Some q" and "a \<noteq> su_AgentID s"
  shows "quota_of db' pe a = Some (take_quota n q)"
proof -
  let ?ps = "map (\<lambda>(a, n). (a, take_quota n)) taken"
  let ?db1 = "fold (\<lambda>(a, n). update_quota fmt pe (take_quota n) a) taken db"
  have "?db1 = fold (\<lambda>(a, u). update_quota fmt pe u a) ?ps db" by (simp add: fold_map o_def case_prod_beta')
  moreover have d: "distinct (map fst ?ps)" using assms(3) by (simp add: wf_map_def o_def case_prod_beta')
  moreover from d assms(4) have "map_of ?ps a = Some (take_quota n)" by (intro map_of_is_SomeI) force+
  ultimately have "quota_of ?db1 pe a = Some (take_quota n q)" using assms(5) by (simp add: quota_of_updates)
  moreover obtain g b where "db' = upsertAgentQuota fmt (quota_row (su_AgentID s) pe g b) ?db1"
    using join ls by (auto simp: allocateLateQuota_def Let_def case_prod_unfold split: if_splits)
  ultimately show ?thesis using assms(6) by (simp add: upsertAgentQuota_def Let_def quota_of_def quota_row_def)
qed

lemma member_le_sum_list_nonneg: "\<forall>x \<in> set xs. 0 \<le> x \<Longrightarrow> y \<in> set xs \<Longrightarrow> y \<le> sum_list xs" for xs :: "rat list"
proof (induction xs)
  case (Cons x xs)
  have "0 \<le> sum_list xs" using Cons.prems(1) by (intro sum_list_nonneg) auto
  with Cons show ?case by (auto simp: add_increasing)
qed simp

lemma burst_of_drained_ge:
  assumes "run_ok db pe" and "(a, n) \<in> set taken" and "quota_of db pe a = Some q"
    and "0 < aq_GuaranteedAcceleratorHours q" and "n = aq_GuaranteedAcceleratorHours q"
  shows "aq_BurstAcceleratorHours q \<le> burst_of_drained db pe taken"
proof -
  let ?f = "\<lambda>(a, n). case quota_of db pe a of None \<Rightarrow> 0
      | Some q \<Rightarrow> if aq_GuaranteedAcceleratorHours q > 0 \<and> n = aq_GuaranteedAcceleratorHours q then aq_BurstAcceleratorHours q else 0"
  have "\<forall>x \<in> set (map ?f taken). 0 \<le> x"
    using assms(1) by (auto simp: run_ok_def dest: rows_nonnegD split: option.split)
  moreover have "aq_BurstAcceleratorHours q \<in> set (map ?f taken)" using assms(2-5) by force
  ultimately show ?thesis unfolding burst_of_drained_def by (rule member_le_sum_list_nonneg)
qed

text \<open>C23: an executor that joins a running platform experiment is given hours the others did not use and no others.  Its share is at least one trial, none of
  the executors at work that give is left with less unspent than it, none gives back what it used, and the shares of the platform
  experiment sum to what they did before, up to rounding and to the burst hours of the rows its share takes whole.\<close>

theorem late_join_conserves:
  assumes "allocateLateQuota fmt pe s late db = Some db'" and "run_ok db pe"
    and "quota_of db pe (su_AgentID s) = None" and "list_all (\<lambda>(a, u). u \<ge> 0) (lj_Used late)"
  shows "let qs = late_quotas db pe late (su_AgentID s); (share, taken) = LateShare qs
    in \<bar>total_shares db' pe - (total_shares db pe + burst_of_drained db pe taken)\<bar> \<le> (2 * of_nat (at_work qs) + 1) * half_micro
     \<and> map_option Share (quota_of db' pe (su_AgentID s)) = Some share \<and> share \<ge> lj_MinShare late \<and> share > 0
     \<and> (\<forall>q \<in> set qs. let n = mget 0 taken (eq_AgentID q)
          in 0 \<le> n \<and> n \<le> Unspent q \<and> (eq_Ended q \<or> n = 0 \<or> Unspent q - n \<ge> share - half_micro))"
proof -
  let ?qs = "late_quotas db pe late (su_AgentID s)"
  obtain share taken where ls: "LateShare ?qs = (share, taken)" by fastforce
  note t = late_join_total [OF assms ls]
  have d: "distinct (map eq_AgentID ?qs)" using assms(2) late_quotas_distinct by (auto simp: run_ok_def)
  from t LateShare_values [OF ls d] ls show ?thesis by simp
qed

text \<open>A run of two executors, one of which finished having used nothing, and a newcomer.\<close>

definition sample_signup :: "string \<Rightarrow> QuotaTier \<Rightarrow> bool \<Rightarrow> Signup" where
  "sample_signup a tier ended =
     \<lparr>su_PlatformExperimentID = ''p'', su_AgentID = a, su_Role = SignupRoleExecutor, su_QuotaTier = tier, su_InAgentSandbox = True,
      su_AgentType = ''generalist'', su_Model = [], su_SignedUpAt = 0, su_Finished = ended, su_Stopped = False, su_Replaces = []\<rparr>"

definition sample_run :: run_db where
  "sample_run =
     \<lparr>rn_jobs = \<lparr>db_rows = [], db_clusters = [], db_projects = [], db_limits = [],
        db_quotas = [((''x'', ''p''), quota_row ''x'' ''p'' 2 1), ((''y'', ''p''), quota_row ''y'' ''p'' 10 5)],
        db_cuts = [], db_finished = [], db_maxConcurrent = [], db_changes = []\<rparr>,
      rn_runs = [], rn_signups = [sample_signup ''x'' QuotaTierGuaranteed True, sample_signup ''y'' QuotaTierGuaranteed False],
      rn_advances = []\<rparr>"

definition sample_late :: LateJoin where
  "sample_late = \<lparr>lj_Used = [(''y'', 1)], lj_BurstFraction = 1 / 2, lj_MinShare = 1\<rparr>"

definition sample_joined :: run_db where
  "sample_joined = the (allocateLateQuota (\<lambda>x. []) ''p'' (sample_signup ''z'' QuotaTierGuaranteed False) sample_late sample_run)"

lemma sample_join:
  "allocateLateQuota (\<lambda>x. []) ''p'' (sample_signup ''z'' QuotaTierGuaranteed False) sample_late sample_run = Some sample_joined"
  "run_ok sample_run ''p''" "quota_of sample_run ''p'' (su_AgentID (sample_signup ''z'' QuotaTierGuaranteed False)) = None"
  "list_all (\<lambda>(a, u). u \<ge> 0) (lj_Used sample_late)"
  by code_simp+

theorem late_join_conserves_witness:
  "\<bar>total_shares sample_joined ''p'' - (total_shares sample_run ''p''
      + burst_of_drained sample_run ''p'' (snd (LateShare (late_quotas sample_run ''p'' sample_late ''z''))))\<bar> \<le> 3 * half_micro"
proof -
  have "at_work (late_quotas sample_run ''p'' sample_late ''z'') = 1" by code_simp
  with late_join_conserves [OF sample_join] show ?thesis by (simp add: Let_def case_prod_beta' sample_signup_def)
qed

text \<open>C39: an executor that joins can be given hours that are not in the budget.  Where its share takes the whole of another executor's guaranteed
  hours, the write leaves that row its burst hours, and the row's share, which was its guaranteed hours, is from then on its burst hours: hours that
  counted inside the share become a share beside it.  When they are more than the roundings, the shares of the platform experiment sum to more than they
  did, by at least those burst hours less the roundings; and whoever joins next has a share worked out of them, as that row offers what of
  its burst hours its agent has not used.\<close>

theorem late_join_mints:
  assumes "allocateLateQuota fmt pe s late db = Some db'" and "run_ok db pe"
    and "quota_of db pe (su_AgentID s) = None" and "list_all (\<lambda>(a, u). u \<ge> 0) (lj_Used late)"
    and "LateShare (late_quotas db pe late (su_AgentID s)) = (share, taken)"
    and "(a, n) \<in> set taken" and "quota_of db pe a = Some q"
    and "n = aq_GuaranteedAcceleratorHours q" and "0 < aq_GuaranteedAcceleratorHours q"
    and "(2 * of_nat (at_work (late_quotas db pe late (su_AgentID s))) + 1) * half_micro < aq_BurstAcceleratorHours q"
  shows "(\<exists>q'. quota_of db' pe a = Some q' \<and> aq_GuaranteedAcceleratorHours q' = 0 \<and> Share q' = aq_BurstAcceleratorHours q)
    \<and> total_shares db pe < total_shares db' pe
    \<and> total_shares db pe + aq_BurstAcceleratorHours q
        \<le> total_shares db' pe + (2 * of_nat (at_work (late_quotas db pe late (su_AgentID s))) + 1) * half_micro
    \<and> (\<forall>signups late' next. \<forall>x \<in> set (late_quotas (db'\<lparr>rn_signups := signups\<rparr>) pe late' next).
         eq_AgentID x = a \<longrightarrow> Unspent x = max 0 (aq_BurstAcceleratorHours q - mget 0 (lj_Used late') a))"
proof -
  let ?qs = "late_quotas db pe late (su_AgentID s)"
  let ?slack = "(2 * of_nat (at_work ?qs) + 1) * half_micro"
  note t = late_join_total [OF assms(1-5)]
  have d: "distinct (map eq_AgentID ?qs)" using assms(2) late_quotas_distinct by (auto simp: run_ok_def)
  from t have "0 < share" by blast
  then have wf: "wf_map taken" using LateShare_values [OF assms(5) d] by blast
  have apart: "a \<noteq> su_AgentID s" using assms(3,7) by auto
  let ?q = "take_quota n q"
  have row: "quota_of db' pe a = Some ?q" by (rule late_join_row [OF assms(1,5) wf assms(6,7) apart])
  have q: "aq_GuaranteedAcceleratorHours ?q = 0" "aq_BurstAcceleratorHours ?q = aq_BurstAcceleratorHours q"
    using assms(8,9) by (simp_all add: take_quota_def Let_def)
  have "aq_BurstAcceleratorHours q \<le> burst_of_drained db pe taken" by (rule burst_of_drained_ge [OF assms(2,6,7,9,8)])
  with t have more: "total_shares db pe + aq_BurstAcceleratorHours q \<le> total_shares db' pe + ?slack" by (simp add: abs_le_iff)
  have "Unspent x = max 0 (aq_BurstAcceleratorHours q - mget 0 (lj_Used late') a)"
    if x: "x \<in> set (late_quotas (db'\<lparr>rn_signups := signups\<rparr>) pe late' next)" "eq_AgentID x = a" for signups late' "next" x
  proof -
    have "quota_of (db'\<lparr>rn_signups := signups\<rparr>) pe a = Some ?q" using row by (simp add: quota_of_def)
    with late_quotas_row [OF x(1)] x(2) q show ?thesis by (metis Unspent_def option.inject order_refl)
  qed
  with row q more assms(10) show ?thesis by (auto simp: Share_def)
qed

theorem late_join_mints_witness:
  "total_shares sample_run ''p'' = 12 \<and> total_shares sample_run ''p'' < total_shares sample_joined ''p''
   \<and> (\<exists>q'. quota_of sample_joined ''p'' ''x'' = Some q' \<and> Share q' = 1)"
proof -
  let ?qs = "late_quotas sample_run ''p'' sample_late (su_AgentID (sample_signup ''z'' QuotaTierGuaranteed False))"
  have taken: "(''x'', 2) \<in> set (snd (LateShare ?qs))" and work: "at_work ?qs = 1" and twelve: "total_shares sample_run ''p'' = 12"
    and row: "quota_of sample_run ''p'' ''x'' = Some (quota_row ''x'' ''p'' 2 1)"
    and hours: "2 = aq_GuaranteedAcceleratorHours (quota_row ''x'' ''p'' 2 1)" "0 < aq_GuaranteedAcceleratorHours (quota_row ''x'' ''p'' 2 1)"
      "aq_BurstAcceleratorHours (quota_row ''x'' ''p'' 2 1) = 1"
    by code_simp+
  have "(2 * of_nat (at_work ?qs) + 1) * half_micro < aq_BurstAcceleratorHours (quota_row ''x'' ''p'' 2 1)"
    by (simp add: work hours(3) half_micro_def)
  from late_join_mints [OF sample_join prod.collapse [symmetric] taken row hours(1,2) this] twelve hours(3) show ?thesis by auto
qed

end
