(* ===== verification/Ladder_Shape.thy ===== *)
theory Ladder_Shape
  imports Ladder
begin

text \<open>The shape of the ladder a run is started with: valid where the declared one is, its boundaries in order and before its end.\<close>

lemma first_error_none: "first_error es = None \<longleftrightarrow> (\<forall>e \<in> set es. e = None)"
  by (induction es) (auto split: option.splits)

lemma ValidateStages_none:
  assumes "ValidateStages stages = None"
  shows "stages \<noteq> []" and "\<forall>s \<in> set stages. 0 < st_LengthPct s \<and> 0 \<le> st_MaxJobHours s"
    and "99999 / 1000 \<le> sum_list (map st_LengthPct stages)" and "sum_list (map st_LengthPct stages) \<le> 100001 / 1000"
proof -
  show "stages \<noteq> []" using assms by (auto simp: ValidateStages_def)
  have each: "first_error (map validate_stage stages) = None"
    using assms by (simp add: ValidateStages_def split: if_splits option.splits)
  show "\<forall>s \<in> set stages. 0 < st_LengthPct s \<and> 0 \<le> st_MaxJobHours s"
  proof
    fix s
    assume "s \<in> set stages"
    with each [unfolded first_error_none] have "validate_stage s = None" by simp
    then show "0 < st_LengthPct s \<and> 0 \<le> st_MaxJobHours s" by (simp add: validate_stage_def not_le not_less split: if_splits)
  qed
  from each assms show "99999 / 1000 \<le> sum_list (map st_LengthPct stages)" "sum_list (map st_LengthPct stages) \<le> 100001 / 1000"
    by (simp_all only: ValidateStages_def Let_def option.case not_le not_less de_Morgan_disj split: if_splits) simp_all
qed

lemma ValidateStages_release: "ValidateStages stages = None \<Longrightarrow> ReleaseFrac (hd stages) > 0"
  using ValidateStages_none(1,2) by (simp add: ReleaseFrac_def)

lemma RunStages_valid:
  assumes "ValidateStages stages = None"
  shows "ValidateStages (RunStages stages n) = None"
proof (cases "n \<ge> MinExecutorsForCut")
  case True
  with assms show ?thesis by (simp add: RunStages_def)
next
  case False
  note v = ValidateStages_none [OF assms]
  have "0 \<le> st_MaxJobHours (last stages)" using v(1,2) by simp
  with False v(1) show ?thesis by (simp add: RunStages_def ValidateStages_def validate_stage_def MaxStages_def)
qed

lemma positive_sum: "\<forall>x \<in> set xs. 0 < f x \<Longrightarrow> xs \<noteq> [] \<Longrightarrow> (0 :: rat) < sum_list (map f xs)"
proof (induction xs)
  case (Cons x xs)
  then show ?case by (cases xs) (auto intro: add_pos_pos)
qed simp

lemma BoundaryProgress_less:
  assumes "\<forall>s \<in> set stages. 0 < st_LengthPct s" and "i < j" and "j \<le> length stages"
  shows "BoundaryProgress stages (int i) < BoundaryProgress stages (int j)"
proof -
  have "take j stages = take i stages @ take (j - i) (drop i stages)"
    using assms(2) by (metis le_add_diff_inverse less_imp_le take_add)
  moreover have "0 < sum_list (map st_LengthPct (take (j - i) (drop i stages)))"
    using assms by (intro positive_sum) (auto dest: in_set_takeD in_set_dropD)
  ultimately show ?thesis by (simp add: BoundaryProgress_def divide_strict_right_mono)
qed

text \<open>C28: a run's ladder is well formed.  Where the declared ladder is valid, so is the one the run is started with, whose boundaries lie in order, each
  after the start and before the end of the last stage, which is the end of the run up to the tolerance of the sum; with too few executors to
  cut there is no boundary, and the one stage keeps the last stage's cap on a job's length.\<close>

theorem run_ladder_well_formed:
  assumes "ValidateStages stages = None"
  shows "let run = RunStages stages n
    in ValidateStages run = None \<and> sorted_wrt (<) (boundariesProgress run)
     \<and> (\<forall>b \<in> set (boundariesProgress run). 0 < b \<and> b < BoundaryProgress run (int (length run)))
     \<and> \<bar>BoundaryProgress run (int (length run)) - 1\<bar> \<le> 1 / 100000
     \<and> (n < MinExecutorsForCut \<longrightarrow> boundariesProgress run = [] \<and> st_MaxJobHours (hd run) = st_MaxJobHours (last stages))"
proof -
  let ?run = "RunStages stages n"
  note valid = RunStages_valid [OF assms, of n]
  note v = ValidateStages_none [OF valid]
  have pos: "\<forall>s \<in> set ?run. 0 < st_LengthPct s" using v(2) by simp
  have "sorted_wrt (<) (boundariesProgress ?run)"
    unfolding boundariesProgress_def sorted_wrt_map
  proof (rule sorted_wrt_mono_rel [OF _ sorted_wrt_upt])
    show "BoundaryProgress ?run (int i) < BoundaryProgress ?run (int j)"
      if "i \<in> set [1 ..< length ?run]" "j \<in> set [1 ..< length ?run]" "i < j" for i j
      using that by (intro BoundaryProgress_less [OF pos]) auto
  qed
  moreover have "\<forall>b \<in> set (boundariesProgress ?run). 0 < b \<and> b < BoundaryProgress ?run (int (length ?run))"
  proof -
    have "BoundaryProgress ?run (int 0) < BoundaryProgress ?run (int i) \<and> BoundaryProgress ?run (int i) < BoundaryProgress ?run (int (length ?run))"
      if "1 \<le> i" "i < length ?run" for i
      using that BoundaryProgress_less [OF pos, of 0 i] BoundaryProgress_less [OF pos, of i "length ?run"] by simp
    then show ?thesis by (auto simp: boundariesProgress_def BoundaryProgress_def)
  qed
  moreover have "\<bar>BoundaryProgress ?run (int (length ?run)) - 1\<bar> \<le> 1 / 100000"
    using v(3,4) by (intro abs_leI) (simp_all add: BoundaryProgress_def field_simps)
  moreover have "n < MinExecutorsForCut \<longrightarrow> boundariesProgress ?run = [] \<and> st_MaxJobHours (hd ?run) = st_MaxJobHours (last stages)"
    using ValidateStages_none(1) [OF assms] by (simp add: RunStages_def boundariesProgress_def)
  ultimately show ?thesis using valid by (simp add: Let_def)
qed

definition sample_stages :: "Stage list" where
  "sample_stages = [\<lparr>st_LengthPct = 30, st_EvictPct = 50, st_MaxJobHours = 1\<rparr>, \<lparr>st_LengthPct = 30, st_EvictPct = 25, st_MaxJobHours = 4\<rparr>,
     \<lparr>st_LengthPct = 40, st_EvictPct = 0, st_MaxJobHours = 0\<rparr>]"

theorem run_ladder_well_formed_witness:
  "sorted_wrt (<) (boundariesProgress (RunStages sample_stages 6)) \<and> boundariesProgress (RunStages sample_stages 6) = [3 / 10, 6 / 10]"
proof -
  have v: "ValidateStages sample_stages = None" by code_simp
  have b: "boundariesProgress (RunStages sample_stages 6) = [3 / 10, 6 / 10]" by code_simp
  from run_ladder_well_formed [OF v, of 6] b show ?thesis unfolding Let_def by blast
qed

end
