(* ===== verification/Boundary_Properties.thy ===== *)
theory Boundary_Properties
  imports Budget_Properties Ladder_Shape
begin

text \<open>
  The two points at which a platform experiment's budget is released: its start and each stage boundary.  What the shares of its agents sum
  to moves by what is released there and by what the agents cut had spent, exactly but for the rounding of a share, and each agent holds its
  share in the column of its tier.
\<close>

subsection \<open>The column of a tier\<close>

definition tier_of :: "run_db \<Rightarrow> string \<Rightarrow> string \<Rightarrow> QuotaTier option" where
  "tier_of db pe a = map_of (map (\<lambda>s. (su_AgentID s, su_QuotaTier s)) (signups_of db pe)) a"

definition in_tier :: "QuotaTier \<Rightarrow> AgentQuota \<Rightarrow> bool" where
  "in_tier tier q \<longleftrightarrow>
     (if tier = QuotaTierGuaranteed then aq_GuaranteedAcceleratorHours q > 0 \<or> aq_GuaranteedAcceleratorHours q = 0 \<and> aq_BurstAcceleratorHours q = 0
      else aq_GuaranteedAcceleratorHours q = 0)"

definition rows_in_tier :: "run_db \<Rightarrow> string \<Rightarrow> bool" where
  "rows_in_tier db pe \<longleftrightarrow>
     list_all (\<lambda>s. case quota_of db pe (su_AgentID s) of None \<Rightarrow> True | Some q \<Rightarrow> in_tier (su_QuotaTier s) q) (signups_of db pe)"

definition tier_column :: "QuotaTier \<Rightarrow> AgentQuota \<Rightarrow> rat" where
  "tier_column tier q =
     (if tier = QuotaTierGuaranteed then aq_GuaranteedAcceleratorHours q else aq_BurstAcceleratorHours q)"

lemma map_of_filtered: "map_of (filter (\<lambda>(k, v). k \<in> A) m) a = (if a \<in> A then map_of m a else None)"
  by (induction m) auto

lemma participantTiers_of: "map_of (participantTiers db pe as) a = (if a \<in> set as then tier_of db pe a else None)"
proof -
  have "participantTiers db pe as = filter (\<lambda>(k, v). k \<in> set as) (map (\<lambda>s. (su_AgentID s, su_QuotaTier s)) (signups_of db pe))"
    by (simp add: participantTiers_def filter_map o_def)
  then show ?thesis by (simp add: map_of_filtered tier_of_def)
qed

lemma rows_in_tierD:
  assumes "rows_in_tier db pe" and "tier_of db pe a = Some tier" and "quota_of db pe a = Some q"
  shows "in_tier tier q"
proof -
  from assms(2) obtain s where "s \<in> set (signups_of db pe)" "su_AgentID s = a" "su_QuotaTier s = tier"
    by (auto simp: tier_of_def dest!: map_of_SomeD)
  with assms(1,3) show ?thesis by (auto simp: rows_in_tier_def list_all_iff)
qed

lemma tier_of_signup:
  assumes "distinct (map su_AgentID (signups_of db pe))" and "s \<in> set (signups_of db pe)"
  shows "tier_of db pe (su_AgentID s) = Some (su_QuotaTier s)"
proof -
  have "distinct (map fst (map (\<lambda>s. (su_AgentID s, su_QuotaTier s)) (signups_of db pe)))" using assms(1) by (simp add: o_def)
  moreover have "(su_AgentID s, su_QuotaTier s) \<in> set (map (\<lambda>s. (su_AgentID s, su_QuotaTier s)) (signups_of db pe))" using assms(2) by auto
  ultimately show ?thesis unfolding tier_of_def by (rule map_of_is_SomeI)
qed

lemma Share_in_tier: "in_tier tier q \<Longrightarrow> Share q = tier_column tier q"
  by (auto simp: in_tier_def Share_def tier_column_def split: if_splits)

lemma in_tier_zero: "in_tier tier (zero_quota q)" "Share (zero_quota q) = 0"
  by (simp_all add: in_tier_def zero_quota_def Share_def)

lemma in_tier_credit:
  assumes "in_tier tier q" and "0 < c" and "ApplyQuotaTier tier c 0 = (g, b)" and "aq_GuaranteedAcceleratorHours q \<ge> 0"
  shows "in_tier tier (credit_quota g b q)" "Share (credit_quota g b q) = Share q + c"
  using assms by (auto simp: in_tier_def credit_quota_def Share_def ApplyQuotaTier_def split: if_splits)

subsection \<open>What the agents cut leave\<close>

text \<open>What an agent has spent of its share, as the boundary is told it.\<close>

definition cut_used :: "run_db \<Rightarrow> string \<Rightarrow> StageRedistribution \<Rightarrow> string \<Rightarrow> rat" where
  "cut_used db pe sd a =
     mget 0 (if tier_of db pe a = Some QuotaTierGuaranteed then sd_UsedByAgent sd else sd_UsedBurstByAgent sd) a"

definition cut_spent :: "run_db \<Rightarrow> string \<Rightarrow> StageRedistribution \<Rightarrow> string \<Rightarrow> rat" where
  "cut_spent db pe sd a = (case quota_of db pe a of None \<Rightarrow> 0 | Some q \<Rightarrow> min (Share q) (cut_used db pe sd a))"

definition share_of :: "run_db \<Rightarrow> string \<Rightarrow> string \<Rightarrow> rat" where
  "share_of db pe a = (case quota_of db pe a of None \<Rightarrow> 0 | Some q \<Rightarrow> Share q)"

lemma unspent_by_Cons:
  "a \<notin> fst ` set allocated \<Longrightarrow> unspent_by ((a, x) # allocated) ((a, u) # used) = max 0 (x - u) + unspent_by allocated used"
proof -
  assume a: "a \<notin> fst ` set allocated"
  then have "map (\<lambda>(agentID, y). let unspent = y - mget 0 ((a, u) # used) agentID in if unspent > 0 then unspent else 0) allocated
      = map (\<lambda>(agentID, y). let unspent = y - mget 0 used agentID in if unspent > 0 then unspent else 0) allocated"
    by (force simp: mget_Cons)
  note m = this
  show ?thesis unfolding unspent_by_def list.map m by (simp add: mget_Cons max_def)
qed

lemma cut_holdings_unspent:
  assumes "cut_holdings db pe (participantTiers db pe agents) sd as = Some (allocated, used)"
    and "distinct as" and "set as \<subseteq> set agents" and "rows_in_tier db pe"
  shows "unspent_by allocated used = sum_list (map (\<lambda>a. share_of db pe a - cut_spent db pe sd a) as) \<and> fst ` set allocated \<subseteq> set as"
  using assms
proof (induction as arbitrary: allocated used)
  case Nil
  then show ?case by (simp add: unspent_by_def)
next
  case (Cons a as)
  show ?case
  proof (cases "quota_of db pe a")
    case None
    with Cons.prems have "cut_holdings db pe (participantTiers db pe agents) sd as = Some (allocated, used)" by simp
    from Cons.IH [OF this] Cons.prems None show ?thesis by (auto simp: share_of_def cut_spent_def)
  next
    case (Some q)
    with Cons.prems obtain tier al us where t: "tier_of db pe a = Some tier"
      and rec: "cut_holdings db pe (participantTiers db pe agents) sd as = Some (al, us)"
      and res: "allocated = (a, tier_column tier q) # al" "used = (a, cut_used db pe sd a) # us"
      by (fastforce simp: participantTiers_of tier_column_def cut_used_def split: option.splits if_splits)
    note ih = Cons.IH [OF rec]
    have "a \<notin> fst ` set al" using ih Cons.prems by auto
    note u = unspent_by_Cons [OF this]
    have "tier_column tier q = Share q" using Share_in_tier [OF rows_in_tierD [OF Cons.prems(4) t Some]] by simp
    then have "max 0 (tier_column tier q - cut_used db pe sd a) = share_of db pe a - cut_spent db pe sd a"
      using Some by (simp add: share_of_def cut_spent_def)
    with u ih Cons.prems res show ?thesis by auto
  qed
qed

subsection \<open>A boundary\<close>

lemma same_quotas_tiers: "same_quotas db db' \<Longrightarrow> tier_of db' p a = tier_of db p a \<and> signups_of db' p = signups_of db p"
  by (simp add: same_quotas_def tier_of_def signups_of_def)

lemma same_roster_tiers: "same_roster db db' \<Longrightarrow> tier_of db' p a = tier_of db p a \<and> signups_of db' p = signups_of db p"
  by (simp add: same_roster_def tier_of_def signups_of_def)

lemma same_quotas_kept:
  assumes "same_quotas db db'"
  shows "rows_in_tier db' pe = rows_in_tier db pe" "rows_nonneg db' pe = rows_nonneg db pe" "run_ok db' pe = run_ok db pe"
    "cut_spent db' pe sd a = cut_spent db pe sd a" "share_of db' pe a = share_of db pe a"
proof -
  have q: "quota_of db' p a = quota_of db p a" "signups_of db' p = signups_of db p" "tier_of db' p a = tier_of db p a" for p a
    using same_quotas_of [OF assms] same_quotas_tiers [OF assms] by simp_all
  have n: "rows_nonneg db' pe = rows_nonneg db pe" using assms by (simp add: rows_nonneg_def same_quotas_def)
  show "rows_in_tier db' pe = rows_in_tier db pe" by (simp only: rows_in_tier_def q)
  show "rows_nonneg db' pe = rows_nonneg db pe" by (rule n)
  show "run_ok db' pe = run_ok db pe" by (simp only: run_ok_def q n same_quotas_ok [OF assms])
  show "cut_spent db' pe sd a = cut_spent db pe sd a" by (simp only: cut_spent_def cut_used_def q)
  show "share_of db' pe a = share_of db pe a" by (simp only: share_of_def q)
qed

text \<open>The credit, one statement for each tier, is the credit of each survivor.\<close>

definition tier_credit :: "run_db \<Rightarrow> string \<Rightarrow> rat \<Rightarrow> string \<Rightarrow> AgentQuota \<Rightarrow> AgentQuota" where
  "tier_credit db pe c a =
     (if tier_of db pe a = Some QuotaTierGuaranteed then credit_quota c 0 else credit_quota 0 c)"

lemma creditIntoTier_rows:
  assumes "creditIntoTier fmt pe survivors c 0 db = Some db'" and "c > 0" and "survivors \<noteq> []"
  shows "quota_of db' pe a = (if a \<in> set survivors then map_option (tier_credit db pe c a) (quota_of db pe a) else quota_of db pe a)"
    and "same_roster db db'" and "\<forall>a \<in> set survivors. tier_of db pe a \<noteq> None"
    and "quotas_ok db \<Longrightarrow> distinct survivors \<Longrightarrow> quotas_ok db'
      \<and> total_shares db' pe = total_shares db pe + sum_list (map (\<lambda>a. share_gain db pe (tier_credit db pe c a) a) survivors)"
proof -
  let ?of = "\<lambda>tier. filter (\<lambda>a. map_of (participantTiers db pe survivors) a = Some tier) survivors"
  let ?db1 = "update_quotas fmt pe (credit_quota c 0) (?of QuotaTierGuaranteed) db"
  have all: "\<forall>a \<in> set survivors. tier_of db pe a \<noteq> None"
    and db': "db' = update_quotas fmt pe (credit_quota 0 c) (?of QuotaTierBurstOnly) ?db1"
    using assms by (auto simp: creditIntoTier_def ApplyQuotaTier_def list_ex_iff participantTiers_of split: if_splits)
  show "\<forall>a \<in> set survivors. tier_of db pe a \<noteq> None" by (rule all)
  show "same_roster db db'" unfolding db' by (rule same_roster_trans [OF roster_update_quotas roster_update_quotas])
  have tiers: "a \<in> set survivors \<Longrightarrow> tier_of db pe a = Some QuotaTierGuaranteed \<or> tier_of db pe a = Some QuotaTierBurstOnly" for a
    using all by (metis QuotaTier.exhaust not_None_eq)
  show "quota_of db' pe a = (if a \<in> set survivors then map_option (tier_credit db pe c a) (quota_of db pe a) else quota_of db pe a)"
    using tiers [of a] by (auto simp: db' quota_of_update_quotas participantTiers_of tier_credit_def)
  show "quotas_ok db' \<and> total_shares db' pe = total_shares db pe + sum_list (map (\<lambda>a. share_gain db pe (tier_credit db pe c a) a) survivors)"
    if ok: "quotas_ok db" and d: "distinct survivors"
  proof -
    note s1 = total_update_quotas [OF ok, of "?of QuotaTierGuaranteed" fmt pe "credit_quota c 0"]
    note s2 = total_update_quotas [of ?db1 "?of QuotaTierBurstOnly" fmt pe "credit_quota 0 c"]
    have g2: "share_gain ?db1 pe (credit_quota 0 c) a = share_gain db pe (credit_quota 0 c) a" if "a \<in> set (?of QuotaTierBurstOnly)" for a
      using that by (simp add: share_gain_def quota_of_update_quotas)
    then have m2: "map (share_gain ?db1 pe (credit_quota 0 c)) (?of QuotaTierBurstOnly) = map (share_gain db pe (credit_quota 0 c)) (?of QuotaTierBurstOnly)"
      by (intro map_cong) auto
    have split: "sum_list (map (\<lambda>a. share_gain db pe (tier_credit db pe c a) a) as)
        = sum_list (map (share_gain db pe (credit_quota c 0)) (filter (\<lambda>a. map_of (participantTiers db pe survivors) a = Some QuotaTierGuaranteed) as))
        + sum_list (map (share_gain db pe (credit_quota 0 c)) (filter (\<lambda>a. map_of (participantTiers db pe survivors) a = Some QuotaTierBurstOnly) as))"
      if "set as \<subseteq> set survivors" for as
      using that tiers by (induction as) (auto simp: participantTiers_of tier_credit_def)
    show ?thesis using s1 s2 d m2 split [of survivors] by (simp add: db')
  qed
qed

lemma rows_nonneg_iff:
  "quotas_ok db \<Longrightarrow> rows_nonneg db pe \<longleftrightarrow>
     (\<forall>a q. quota_of db pe a = Some q \<longrightarrow> aq_GuaranteedAcceleratorHours q \<ge> 0 \<and> aq_BurstAcceleratorHours q \<ge> 0)"
  by (auto simp: rows_nonneg_def quota_of_def quotas_ok_def list_all_iff wf_map_def map_of_eq_Some_iff)

lemma rows_in_tier_iff:
  "distinct (map su_AgentID (signups_of db pe)) \<Longrightarrow> rows_in_tier db pe \<longleftrightarrow>
     (\<forall>a tier q. tier_of db pe a = Some tier \<longrightarrow> quota_of db pe a = Some q \<longrightarrow> in_tier tier q)"
proof (intro iffI allI impI)
  fix a tier q
  assume "rows_in_tier db pe" "tier_of db pe a = Some tier" "quota_of db pe a = Some q"
  then show "in_tier tier q" by (rule rows_in_tierD)
next
  assume d: "distinct (map su_AgentID (signups_of db pe))"
    and r: "\<forall>a tier q. tier_of db pe a = Some tier \<longrightarrow> quota_of db pe a = Some q \<longrightarrow> in_tier tier q"
  then show "rows_in_tier db pe" using tier_of_signup [OF d] by (auto simp: rows_in_tier_def list_all_iff split: option.splits)
qed

text \<open>What a dimension of the boundary does to the rows: \<open>c\<close> is the credit of each survivor.\<close>

definition moved_row :: "run_db \<Rightarrow> string \<Rightarrow> string list \<Rightarrow> string list \<Rightarrow> rat \<Rightarrow> string \<Rightarrow> AgentQuota option" where
  "moved_row db pe cut_agents survivors c a =
     (if a \<in> set cut_agents then map_option zero_quota (quota_of db pe a)
      else if a \<in> set survivors then map_option (tier_credit db pe c a) (quota_of db pe a) else quota_of db pe a)"

definition boundary_credit :: "run_db \<Rightarrow> string \<Rightarrow> string list \<Rightarrow> StageRedistribution \<Rightarrow> nat \<Rightarrow> rat" where
  "boundary_credit db pe cut_agents sd n =
     RoundHours ((sd_Budget sd * sd_ReleaseFrac sd + sum_list (map (\<lambda>a. share_of db pe a - cut_spent db pe sd a) cut_agents)) / of_nat n)"

lemma tier_credit_0: "tier_credit db pe 0 a = id"
  by (auto simp: tier_credit_def credit_quota_def)

lemma share_gain_zero: "share_gain db pe zero_quota = (\<lambda>a. - share_of db pe a)"
  by (simp add: share_gain_def share_of_def in_tier_zero fun_eq_iff split: option.splits)

lemma tier_credit_share:
  assumes "run_ok db pe" and "rows_in_tier db pe" and "tier_of db pe a = Some tier" and "quota_of db pe a = Some q" and "0 < c"
  shows "in_tier tier (tier_credit db pe c a q)" "Share (tier_credit db pe c a q) = Share q + c"
proof -
  note t = rows_in_tierD [OF assms(2-4)] and g = rows_nonnegD(1) [OF _ assms(4)]
  show "in_tier tier (tier_credit db pe c a q)" "Share (tier_credit db pe c a q) = Share q + c"
    using in_tier_credit [OF t assms(5) _ g] assms(1,3)
    by (cases tier; simp add: run_ok_def tier_credit_def ApplyQuotaTier_def)+
qed

lemma move_dimension_rows:
  assumes move: "move_dimension fmt pe cut_agents survivors sd db = Some db'" and ok: "run_ok db pe" and tiers: "rows_in_tier db pe"
    and d: "distinct cut_agents" "distinct survivors" "set cut_agents \<inter> set survivors = {}" and sv: "survivors \<noteq> []"
    and rows: "\<forall>a \<in> set survivors. quota_of db pe a \<noteq> None" and B: "sd_Budget sd > 0" "sd_ReleaseFrac sd \<ge> 0"
  defines "c \<equiv> boundary_credit db pe cut_agents sd (length survivors)"
  shows "c \<ge> 0" "quota_of db' pe a = moved_row db pe cut_agents survivors c a" "same_roster db db'" "quotas_ok db'"
    "c > 0 \<Longrightarrow> \<forall>a \<in> set survivors. tier_of db pe a \<noteq> None"
    "total_shares db' pe = total_shares db pe - sum_list (map (share_of db pe) cut_agents) + of_nat (length survivors) * c"
proof -
  let ?db1 = "update_quotas fmt pe zero_quota cut_agents db"
  from move B(1) obtain al us where h: "cut_holdings db pe (participantTiers db pe cut_agents) sd (remdups cut_agents) = Some (al, us)"
    by (auto simp: move_dimension_def split: option.splits if_splits)
  have u: "unspent_by al us = sum_list (map (\<lambda>a. share_of db pe a - cut_spent db pe sd a) cut_agents)"
    using cut_holdings_unspent [OF h _ _ tiers] d(1) by (simp add: distinct_remdups_id)
  have credit: "StageCredit (sd_Budget sd) (sd_ReleaseFrac sd) al us (int (length survivors)) = c"
    by (simp add: StageCredit_def u c_def boundary_credit_def)
  have "share_of db pe a - cut_spent db pe sd a \<ge> 0" for a by (simp add: share_of_def cut_spent_def split: option.splits)
  then have "sum_list (map (\<lambda>a. share_of db pe a - cut_spent db pe sd a) cut_agents) \<ge> 0" by (intro sum_list_nonneg) auto
  then show c0: "c \<ge> 0" using B unfolding c_def boundary_credit_def by (intro RoundHours_nonneg) simp
  from ok have q: "quotas_ok db" by (simp add: run_ok_def)
  have t1: "total_shares ?db1 pe = total_shares db pe - sum_list (map (share_of db pe) cut_agents)" "quotas_ok ?db1"
    using total_update_quotas [OF q d(1), of fmt pe zero_quota] by (simp_all add: share_gain_zero uminus_sum_list_map o_def)
  note r1 = roster_update_quotas [of db fmt pe zero_quota cut_agents]
  have keep: "quota_of ?db1 pe a = quota_of db pe a" if "a \<in> set survivors" for a
    using that d(3) by (auto simp: quota_of_update_quotas)
  have res: "if c \<le> 0 then db' = ?db1 else creditIntoTier fmt pe survivors c 0 ?db1 = Some db'"
    using move B(1) h sv credit by (simp add: move_dimension_def Let_def split: if_splits)
  have "quota_of db' pe a = moved_row db pe cut_agents survivors c a \<and> same_roster db db' \<and> quotas_ok db' \<and>
        (0 < c \<longrightarrow> (\<forall>a \<in> set survivors. tier_of db pe a \<noteq> None)) \<and>
        total_shares db' pe = total_shares db pe - sum_list (map (share_of db pe) cut_agents) + of_nat (length survivors) * c"
  proof (cases "c \<le> 0")
    case True
    with c0 have "c = 0" by simp
    with res t1 r1 show ?thesis
      by (auto simp: moved_row_def quota_of_update_quotas tier_credit_0 option.map_id)
  next
    case False
    with res have cr: "creditIntoTier fmt pe survivors c 0 ?db1 = Some db'" and pos: "c > 0" by simp_all
    have tc: "tier_credit ?db1 pe c = tier_credit db pe c" using same_roster_tiers [OF r1] by (simp add: tier_credit_def fun_eq_iff)
    note rows' = creditIntoTier_rows [OF cr pos sv, unfolded tc]
    have t: "\<forall>a \<in> set survivors. tier_of db pe a \<noteq> None" using rows'(3) same_roster_tiers [OF r1] by simp
    have gain: "share_gain ?db1 pe (tier_credit db pe c a) a = c" if "a \<in> set survivors" for a
    proof -
      from that t rows have "tier_of db pe a \<noteq> None" "quota_of db pe a \<noteq> None" by blast+
      then obtain tier q where tq: "tier_of db pe a = Some tier" "quota_of db pe a = Some q" by auto
      from tier_credit_share(2) [OF ok tiers tq pos] show ?thesis by (simp add: share_gain_def keep [OF that] tq)
    qed
    have "map (\<lambda>a. share_gain ?db1 pe (tier_credit db pe c a) a) survivors = map (\<lambda>a. c) survivors" using gain by (intro map_cong) auto
    then have s: "sum_list (map (\<lambda>a. share_gain ?db1 pe (tier_credit db pe c a) a) survivors) = of_nat (length survivors) * c"
      by (simp only: sum_list_triv)
    have "quota_of db' pe a = moved_row db pe cut_agents survivors c a"
      using rows'(1) [of a] d(3) by (auto simp: moved_row_def quota_of_update_quotas)
    with rows'(2,4) t1 d(2) s t same_roster_trans [OF r1]
    show ?thesis
      by simp
  qed
  then show "quota_of db' pe a = moved_row db pe cut_agents survivors c a" "same_roster db db'" "quotas_ok db'"
    "c > 0 \<Longrightarrow> \<forall>a \<in> set survivors. tier_of db pe a \<noteq> None"
    "total_shares db' pe = total_shares db pe - sum_list (map (share_of db pe) cut_agents) + of_nat (length survivors) * c"
    by simp_all
qed

lemma moved_row_ok:
  assumes ok: "run_ok db pe" and tiers: "rows_in_tier db pe" and c: "c \<ge> 0"
    and q: "moved_row db pe cut_agents survivors c a = Some q"
  shows "aq_GuaranteedAcceleratorHours q \<ge> 0 \<and> aq_BurstAcceleratorHours q \<ge> 0"
    and "(c > 0 \<Longrightarrow> a \<in> set survivors \<Longrightarrow> tier_of db pe a \<noteq> None) \<Longrightarrow> tier_of db pe a = Some tier \<Longrightarrow> in_tier tier q"
proof -
  from q obtain q0 where q0: "quota_of db pe a = Some q0" by (auto simp: moved_row_def split: if_splits)
  note n = rows_nonnegD [OF _ q0]
  show "aq_GuaranteedAcceleratorHours q \<ge> 0 \<and> aq_BurstAcceleratorHours q \<ge> 0"
    using q q0 n c ok by (auto simp: moved_row_def run_ok_def zero_quota_def tier_credit_def credit_quota_def split: if_splits)
  assume t: "tier_of db pe a = Some tier"
  note it = rows_in_tierD [OF tiers t q0]
  show "in_tier tier q"
  proof (cases "c = 0")
    case True
    with q q0 it show ?thesis by (auto simp: moved_row_def tier_credit_0 in_tier_zero split: if_splits)
  next
    case False
    with tier_credit_share(1) [OF ok tiers t q0, of c] c q q0 it show ?thesis
      by (auto simp: moved_row_def in_tier_zero split: if_splits)
  qed
qed

lemma set_stage_quotas: "same_quotas db (set_stage pe n db)"
  by (simp add: same_quotas_def)

text \<open>The tables a boundary moves the budget in: its mark is made, its agents are cut and their places are given up.\<close>

definition before_move :: "run_db \<Rightarrow> string \<Rightarrow> int \<Rightarrow> string list \<Rightarrow> run_db" where
  "before_move db pe stage cut_agents =
     (let db = cutTx pe cut_agents stage []
            (announce [run_change pe ''stage.boundary'' (show_int stage) ''advanced''] (db\<lparr>rn_advances := rn_advances db @ [(pe, stage)]\<rparr>))
      in if cut_agents = [] then db else lowerPoolTx pe cut_agents db)"

lemma AdvanceStage_moves:
  "AdvanceStage fmt pe stage cut_agents survivors [sd] db = (Some True, db') \<Longrightarrow>
     \<exists>db4. move_dimension fmt pe cut_agents survivors sd (before_move db pe stage cut_agents) = Some db4 \<and> db' = set_stage pe (stage + 1) db4"
  by (auto simp: AdvanceStage_def before_move_def Let_def split: if_splits option.splits bind_splits)

lemma before_move_same: "same_quotas db (before_move db pe stage cut_agents)"
proof -
  let ?db = "announce [run_change pe ''stage.boundary'' (show_int stage) ''advanced''] (db\<lparr>rn_advances := rn_advances db @ [(pe, stage)]\<rparr>)"
  have "same_quotas db ?db" by (simp add: same_quotas_def)
  then have "same_quotas db (cutTx pe cut_agents stage [] ?db)" using cutTx_same same_quotas_trans by blast
  then show ?thesis using lowerPoolTx_same(1) same_quotas_trans by (auto simp: before_move_def Let_def)
qed

lemma before_move_advances: "(pe, stage) \<in> set (rn_advances (before_move db pe stage cut_agents))"
  by (simp add: before_move_def Let_def cutTx_advances lowerPoolTx_same)

lemma boundary_rows:
  assumes adv: "AdvanceStage fmt pe stage cut_agents survivors [sd] db = (Some True, db')" and ok: "run_ok db pe" and tiers: "rows_in_tier db pe"
    and d: "distinct cut_agents" "distinct survivors" "set cut_agents \<inter> set survivors = {}" and sv: "survivors \<noteq> []"
    and rows: "\<forall>a \<in> set survivors. quota_of db pe a \<noteq> None" and B: "sd_Budget sd > 0" "sd_ReleaseFrac sd \<ge> 0"
  defines "c \<equiv> boundary_credit db pe cut_agents sd (length survivors)"
  shows "c \<ge> 0" "quota_of db' pe a = moved_row db pe cut_agents survivors c a" "quotas_ok db'"
    "signups_of db' pe = signups_of db pe" "tier_of db' pe a = tier_of db pe a" "c > 0 \<Longrightarrow> \<forall>a \<in> set survivors. tier_of db pe a \<noteq> None"
    "total_shares db' pe = total_shares db pe - sum_list (map (share_of db pe) cut_agents) + of_nat (length survivors) * c"
    "(pe, stage) \<in> set (rn_advances db')"
proof -
  let ?db3 = "before_move db pe stage cut_agents"
  from AdvanceStage_moves [OF adv] obtain db4 where move: "move_dimension fmt pe cut_agents survivors sd ?db3 = Some db4"
    and db': "db' = set_stage pe (stage + 1) db4" by blast
  note s3 = before_move_same [of db pe stage cut_agents]
  note k3 = same_quotas_kept [OF s3] same_quotas_of [OF s3]
  have t3: "tier_of ?db3 p a = tier_of db p a" "signups_of ?db3 p = signups_of db p" for p a using same_quotas_tiers [OF s3] by simp_all
  have moved3: "moved_row ?db3 pe cut_agents survivors x a = moved_row db pe cut_agents survivors x a" for x a
    by (simp only: moved_row_def tier_credit_def k3 t3)
  have c3: "boundary_credit ?db3 pe cut_agents sd (length survivors) = c" by (simp only: c_def boundary_credit_def k3)
  have ok3: "run_ok ?db3 pe" "rows_in_tier ?db3 pe" "\<forall>a \<in> set survivors. quota_of ?db3 pe a \<noteq> None"
    using k3 ok tiers rows by simp_all
  note m = move_dimension_rows [OF move ok3(1,2) d sv ok3(3) B, unfolded c3 moved3 t3 same_quotas_total [OF s3] k3]
  note s4 = set_stage_quotas [of db4 pe "stage + 1", folded db']
  show "c \<ge> 0" by (rule m(1))
  show "quota_of db' pe a = moved_row db pe cut_agents survivors c a" by (simp only: same_quotas_of [OF s4] m(2))
  show "quotas_ok db'" by (simp only: same_quotas_ok [OF s4] m(4))
  show "signups_of db' pe = signups_of db pe" "tier_of db' pe a = tier_of db pe a"
    using same_quotas_tiers [OF s4] same_roster_tiers [OF m(3)] t3 by simp_all
  show "c > 0 \<Longrightarrow> \<forall>a \<in> set survivors. tier_of db pe a \<noteq> None" by (rule m(5))
  show "total_shares db' pe = total_shares db pe - sum_list (map (share_of db pe) cut_agents) + of_nat (length survivors) * c"
    using m(6) same_quotas_total [OF s4] by simp
  show "(pe, stage) \<in> set (rn_advances db')" using before_move_advances m(3) by (simp add: db' same_roster_def)
qed

text \<open>A boundary leaves the rows in order, and a survivor's share grows by the credit.\<close>

lemma moved_rows_ok:
  assumes "run_ok db pe" and "rows_in_tier db pe" and "c \<ge> 0" and "c > 0 \<Longrightarrow> \<forall>a \<in> set survivors. tier_of db pe a \<noteq> None"
    and rows: "\<And>a. quota_of db' pe a = moved_row db pe cut_agents survivors c a" and "quotas_ok db'"
    and "signups_of db' pe = signups_of db pe" and "\<And>a. tier_of db' pe a = tier_of db pe a"
  shows "run_ok db' pe \<and> rows_in_tier db' pe"
proof -
  have d: "distinct (map su_AgentID (signups_of db' pe))" using assms(1,7) by (simp add: run_ok_def)
  have "rows_nonneg db' pe" "rows_in_tier db' pe"
    using moved_row_ok [OF assms(1-3)] assms(4) by (auto simp: rows_nonneg_iff [OF assms(6)] rows_in_tier_iff [OF d] assms(8) rows)
  with d assms(6) show ?thesis by (simp add: run_ok_def)
qed

lemma moved_row_share:
  assumes "run_ok db pe" and "rows_in_tier db pe" and "c \<ge> 0" and "c > 0 \<Longrightarrow> \<forall>a \<in> set survivors. tier_of db pe a \<noteq> None"
    and "a \<in> set survivors" and "a \<notin> set cut_agents" and "quota_of db pe a = Some q"
  shows "map_option Share (moved_row db pe cut_agents survivors c a) = Some (Share q + c)"
proof (cases "c = 0")
  case True
  with assms show ?thesis by (simp add: moved_row_def tier_credit_0)
next
  case False
  with assms(3) have pos: "c > 0" by simp
  with assms(4,5) obtain tier where "tier_of db pe a = Some tier" by auto
  from tier_credit_share(2) [OF assms(1,2) this assms(7) pos] assms show ?thesis by (simp add: moved_row_def)
qed

lemma boundary_credit_near:
  assumes "n > 0"
  shows "\<bar>of_nat n * boundary_credit db pe cut_agents sd n - (sd_Budget sd * sd_ReleaseFrac sd + sum_list (map (share_of db pe) cut_agents)
      - sum_list (map (cut_spent db pe sd) cut_agents))\<bar> \<le> of_nat n * half_micro"
proof -
  let ?x = "sd_Budget sd * sd_ReleaseFrac sd + sum_list (map (\<lambda>a. share_of db pe a - cut_spent db pe sd a) cut_agents)"
  have "\<bar>boundary_credit db pe cut_agents sd n - ?x / of_nat n\<bar> \<le> half_micro" unfolding boundary_credit_def by (rule RoundHours_near)
  from near_divide [OF _ this] assms show ?thesis by (simp add: sum_list_subtractf algebra_simps)
qed

text \<open>C21: a stage boundary releases its stage's part of the budget and what the agents cut left, and nothing else.  The shares of the platform experiment
  sum to what they did, plus the stage's part, less what the agents cut had spent of theirs, up to the rounding of one credit for each
  survivor; an agent cut is left with no share, and every survivor is given the same.  No row goes below nothing or leaves the column of its
  agent's tier, and running the same boundary again does nothing.\<close>

theorem boundary_conserves:
  assumes "AdvanceStage fmt pe stage cut_agents survivors [sd] db = (Some True, db')" and "run_ok db pe" and "rows_in_tier db pe"
    and "distinct cut_agents" and "distinct survivors" and "set cut_agents \<inter> set survivors = {}" and "survivors \<noteq> []"
    and "\<forall>a \<in> set survivors. quota_of db pe a \<noteq> None" and "sd_Budget sd > 0" and "sd_ReleaseFrac sd \<ge> 0"
  shows "\<bar>total_shares db' pe - (total_shares db pe + sd_Budget sd * sd_ReleaseFrac sd - sum_list (map (cut_spent db pe sd) cut_agents))\<bar>
      \<le> of_nat (length survivors) * half_micro
    \<and> (\<forall>a \<in> set cut_agents. share_of db' pe a = 0)
    \<and> (\<forall>a \<in> set survivors. share_of db' pe a = share_of db pe a + boundary_credit db pe cut_agents sd (length survivors))
    \<and> run_ok db' pe \<and> rows_in_tier db' pe
    \<and> AdvanceStage fmt pe stage cut_agents survivors [sd] db' = (Some False, db')"
proof -
  let ?c = "boundary_credit db pe cut_agents sd (length survivors)"
  note b = boundary_rows [OF assms]
  have "run_ok db' pe \<and> rows_in_tier db' pe" by (rule moved_rows_ok [OF assms(2,3) b(1,6,2,3,4,5)])
  moreover have "\<forall>a \<in> set cut_agents. share_of db' pe a = 0"
    by (auto simp: share_of_def b(2) moved_row_def in_tier_zero split: option.splits)
  moreover have "\<forall>a \<in> set survivors. share_of db' pe a = share_of db pe a + ?c"
  proof
    fix a
    assume a: "a \<in> set survivors"
    with assms(6,8) obtain q where q: "quota_of db pe a = Some q" and "a \<notin> set cut_agents" by auto
    from moved_row_share [OF assms(2,3) b(1,6) a this(2,1)] q show "share_of db' pe a = share_of db pe a + ?c"
      by (auto simp: share_of_def b(2))
  qed
  moreover have "AdvanceStage fmt pe stage cut_agents survivors [sd] db' = (Some False, db')" using b(8) by (simp add: AdvanceStage_def)
  moreover have "\<bar>total_shares db' pe - (total_shares db pe + sd_Budget sd * sd_ReleaseFrac sd - sum_list (map (cut_spent db pe sd) cut_agents))\<bar>
      \<le> of_nat (length survivors) * half_micro"
    using boundary_credit_near [of "length survivors" db pe cut_agents sd] assms(7) by (simp add: b(7) algebra_simps)
  ultimately show ?thesis by blast
qed

text \<open>A boundary at which one of two executors is cut, having used half an hour of its two.\<close>

definition sample_boundary :: StageRedistribution where
  "sample_boundary = \<lparr>sd_Budget = 20, sd_ReleaseFrac = 1 / 4, sd_UsedByAgent = [(''x'', 1 / 2), (''y'', 3)], sd_UsedBurstByAgent = []\<rparr>"

definition sample_crossed :: run_db where
  "sample_crossed = snd (AdvanceStage (\<lambda>x. []) ''p'' 1 [''x''] [''y''] [sample_boundary] sample_run)"

theorem boundary_conserves_witness:
  "share_of sample_crossed ''p'' ''x'' = 0 \<and> share_of sample_crossed ''p'' ''y'' = 10 + (20 / 4 + 3 / 2)
   \<and> \<bar>total_shares sample_crossed ''p'' - (12 + 20 / 4 - 1 / 2)\<bar> \<le> half_micro \<and> rows_in_tier sample_crossed ''p''"
proof -
  have run: "AdvanceStage (\<lambda>x. []) ''p'' 1 [''x''] [''y''] [sample_boundary] sample_run = (Some True, sample_crossed)" by code_simp
  have hyps: "run_ok sample_run ''p''" "rows_in_tier sample_run ''p''" "distinct [''x'']" "distinct [''y'']" "set [''x''] \<inter> set [''y''] = {}"
    "[''y''] \<noteq> []" "\<forall>a \<in> set [''y'']. quota_of sample_run ''p'' a \<noteq> None" "sd_Budget sample_boundary > 0" "sd_ReleaseFrac sample_boundary \<ge> 0"
    by code_simp+
  have vals: "boundary_credit sample_run ''p'' [''x''] sample_boundary (length [''y'']) = 20 / 4 + 3 / 2" "share_of sample_run ''p'' ''y'' = 10"
    "total_shares sample_run ''p'' + sd_Budget sample_boundary * sd_ReleaseFrac sample_boundary
       - sum_list (map (cut_spent sample_run ''p'' sample_boundary) [''x'']) = 12 + 20 / 4 - 1 / 2"
    by code_simp+
  from boundary_conserves [OF run hyps, unfolded vals] show ?thesis using vals(2) by simp
qed

subsection \<open>The start\<close>

text \<open>The shares of the start sum to what it gives, each rounded.\<close>

definition given :: "QuotaConfig \<Rightarrow> rat \<Rightarrow> StartParticipant list \<Rightarrow> StartParticipant \<Rightarrow> rat" where
  "given cfg B ps p = fst (AllocateQuota B (int (length ps)) (start_bonus cfg p) (sum_list (map (start_bonus cfg) ps)) cfg)"

lemma bonus_sum:
  assumes "0 \<le> qc_Top3BonusFraction cfg" and "qc_Top3BonusFraction cfg \<le> 1"
  shows "0 \<le> sum_list (map (start_bonus cfg) ps) \<and> sum_list (map (start_bonus cfg) ps) \<le> of_nat (length ps)"
  using assms by (induction ps) (auto simp: start_bonus_def)

lemma given_nonneg:
  assumes "0 \<le> qc_Top3BonusFraction cfg" and "qc_Top3BonusFraction cfg \<le> 1" and "0 \<le> B"
  shows "0 \<le> given cfg B ps p"
proof (cases "ps = []")
  case True
  then show ?thesis by (simp add: given_def AllocateQuota_def)
next
  case False
  let ?n = "of_nat (length ps) :: rat" and ?T = "sum_list (map (start_bonus cfg) ps)"
  have n: "?n > 0" using False by simp
  have "B / ?n * ?T \<le> B / ?n * ?n" using bonus_sum [OF assms(1,2), of ps] assms(3) n by (intro mult_left_mono) auto
  then have "B / ?n * ?T \<le> B" using n by simp
  then have "0 \<le> (B - B / ?n * ?T) / ?n" using n by simp
  moreover have "0 \<le> B / ?n * start_bonus cfg p" using assms by (simp add: start_bonus_def)
  ultimately have "0 \<le> RoundHours ((B - B / ?n * ?T) / ?n + B / ?n * start_bonus cfg p)" by (intro RoundHours_nonneg) simp
  with False show ?thesis by (simp add: given_def AllocateQuota_def Let_def)
qed

lemma rounded_sum:
  "\<bar>sum_list (map (\<lambda>p. RoundHours (f p)) ps) - sum_list (map f ps)\<bar> \<le> of_nat (length ps) * half_micro"
proof (induction ps)
  case (Cons p ps)
  moreover have "\<bar>RoundHours (f p) - f p\<bar> \<le> half_micro" by (rule RoundHours_near)
  ultimately show ?case by (simp add: distrib_right)
qed simp

lemma affine_sum:
  fixes a d :: rat
  shows "sum_list (map (\<lambda>p. a + d * f p) qs) = of_nat (length qs) * a + d * sum_list (map f qs)"
  by (induction qs) (simp_all add: algebra_simps)

lemma given_sum:
  assumes "ps \<noteq> []"
  shows "\<bar>sum_list (map (given cfg B ps) ps) - B\<bar> \<le> of_nat (length ps) * half_micro"
proof -
  let ?n = "of_nat (length ps) :: rat" and ?T = "sum_list (map (start_bonus cfg) ps)"
  let ?f = "\<lambda>p. (B - B / ?n * ?T) / ?n + B / ?n * start_bonus cfg p"
  have g: "given cfg B ps = (\<lambda>p. RoundHours (?f p))" using assms by (simp add: given_def AllocateQuota_def Let_def fun_eq_iff)
  have "sum_list (map ?f ps) = B" using assms by (simp only: affine_sum) simp
  with rounded_sum [of ?f ps] show ?thesis unfolding g by simp
qed

lemma start_quota_row:
  assumes "0 \<le> given cfg B ps p" and "0 \<le> qc_BurstFraction cfg" and "ps \<noteq> []"
  shows "Share (start_quota cfg pe B ps p) = given cfg B ps p \<and> in_tier (sp_QuotaTier p) (start_quota cfg pe B ps p)
    \<and> aq_AgentID (start_quota cfg pe B ps p) = sp_AgentID p \<and> aq_PlatformExperimentID (start_quota cfg pe B ps p) = pe
    \<and> aq_GuaranteedAcceleratorHours (start_quota cfg pe B ps p) \<ge> 0 \<and> aq_BurstAcceleratorHours (start_quota cfg pe B ps p) \<ge> 0"
proof -
  let ?g = "given cfg B ps p"
  obtain g b where gb: "AllocateQuota B (int (length ps)) (start_bonus cfg p) (sum_list (map (start_bonus cfg) ps)) cfg = (g, b)" by fastforce
  then have "g = ?g" "b = RoundHours (?g * qc_BurstFraction cfg)" using assms(3) by (auto simp: given_def AllocateQuota_def Let_def split: if_splits)
  with gb assms RoundHours_nonneg [of "?g * qc_BurstFraction cfg"] show ?thesis
    by (auto simp: start_quota_def ApplyQuotaTier_def quota_row_def Share_def in_tier_def)
qed

lemma upsert_new_rows:
  assumes "quotas_ok db" and "distinct (map aq_AgentID qs)" and "\<forall>q \<in> set qs. aq_PlatformExperimentID q = pe"
    and "\<forall>q \<in> set qs. quota_of db pe (aq_AgentID q) = None"
  shows "quotas_ok (fold (upsertAgentQuota fmt) qs db) \<and> same_roster db (fold (upsertAgentQuota fmt) qs db)
    \<and> total_shares (fold (upsertAgentQuota fmt) qs db) pe = total_shares db pe + sum_list (map Share qs)
    \<and> (\<forall>a. quota_of (fold (upsertAgentQuota fmt) qs db) pe a =
          (case map_of (map (\<lambda>q. (aq_AgentID q, q)) qs) a of None \<Rightarrow> quota_of db pe a | Some q \<Rightarrow> Some q))"
  using assms
proof (induction qs arbitrary: db)
  case (Cons q qs)
  let ?db = "upsertAgentQuota fmt q db"
  have q: "aq_PlatformExperimentID q = pe" "quota_of db pe (aq_AgentID q) = None" using Cons.prems by simp_all
  have row: "quota_of ?db pe a = (if a = aq_AgentID q then Some q else quota_of db pe a)" for a
    using q by (simp add: upsertAgentQuota_def Let_def quota_of_def)
  have ne: "aq_AgentID r \<noteq> aq_AgentID q" if "r \<in> set qs" for r using Cons.prems(2) that by (metis distinct.simps(2) image_eqI list.simps(9) set_map)
  have "\<forall>r \<in> set qs. quota_of ?db pe (aq_AgentID r) = None"
  proof
    fix r
    assume r: "r \<in> set qs"
    with Cons.prems(4) have "quota_of db pe (aq_AgentID r) = None" by simp
    with row [of "aq_AgentID r"] ne [OF r] show "quota_of ?db pe (aq_AgentID r) = None" by simp
  qed
  note ih = Cons.IH [OF upsert_simps(2) [OF Cons.prems(1)] _ _ this]
  have t: "total_shares ?db pe = total_shares db pe + Share q" using total_upsert_new [OF Cons.prems(1)] q by metis
  have absent: "map_of (map (\<lambda>q. (aq_AgentID q, q)) qs) (aq_AgentID q) = None"
    using Cons.prems(2) by (simp add: map_of_eq_None_iff image_image)
  have d: "distinct (map aq_AgentID qs)" "\<forall>r \<in> set qs. aq_PlatformExperimentID r = pe" using Cons.prems by simp_all
  note ih = ih [OF d]
  have "same_roster db (fold (upsertAgentQuota fmt) qs ?db)" using ih same_roster_trans [OF upsert_simps(1)] by blast
  moreover have "total_shares (fold (upsertAgentQuota fmt) qs ?db) pe = total_shares db pe + sum_list (map Share (q # qs))" using ih t by simp
  moreover have "quota_of (fold (upsertAgentQuota fmt) qs ?db) pe a =
      (case map_of (map (\<lambda>q. (aq_AgentID q, q)) (q # qs)) a of None \<Rightarrow> quota_of db pe a | Some q \<Rightarrow> Some q)" for a
    using ih absent by (cases "a = aq_AgentID q"; simp add: row split: option.split)
  ultimately show ?case using ih by simp
qed simp

lemma length_filter_sorted: "length (filter P (sort_slice lt xs)) = length (filter P xs)"
  by (metis mset_filter mset_sort_slice size_mset)

definition sharing :: "run_db \<Rightarrow> string \<Rightarrow> Signup list" where
  "sharing db pe = filter (\<lambda>s. SharesBudget (su_Role s)) (signups_of db pe)"

lemma start_participants_of:
  assumes "run_ok db pe"
  shows "distinct (map sp_AgentID (start_participants exists top3 db pe))" "length (start_participants exists top3 db pe) = length (sharing db pe)"
    "set (map (\<lambda>p. (sp_AgentID p, sp_QuotaTier p)) (start_participants exists top3 db pe)) = set (map (\<lambda>s. (su_AgentID s, su_QuotaTier s)) (sharing db pe))"
proof -
  let ?ss = "sort_slice (\<lambda>a b. su_AgentID a < su_AgentID b) (sharing db pe)"
  have m: "map sp_AgentID (start_participants exists top3 db pe) = map su_AgentID ?ss"
    by (simp add: start_participants_def sharing_def o_def)
  have "distinct (map su_AgentID (sharing db pe))" using assms by (simp add: run_ok_def sharing_def distinct_map_filter)
  moreover have "mset (map su_AgentID ?ss) = mset (map su_AgentID (sharing db pe))" by simp
  ultimately show "distinct (map sp_AgentID (start_participants exists top3 db pe))"
    unfolding m using mset_eq_imp_distinct_iff by blast
  show "length (start_participants exists top3 db pe) = length (sharing db pe)" by (simp add: start_participants_def sharing_def)
  show "set (map (\<lambda>p. (sp_AgentID p, sp_QuotaTier p)) (start_participants exists top3 db pe)) = set (map (\<lambda>s. (su_AgentID s, su_QuotaTier s)) (sharing db pe))"
    by (force simp: start_participants_def sharing_def)
qed

lemma start_executors:
  "length (filter (\<lambda>p. sp_Role p = SignupRoleExecutor) (start_participants exists top3 db pe))
     = length (filter (\<lambda>s. su_Role s = SignupRoleExecutor) (signups_of db pe))"
proof -
  have "length (filter (\<lambda>p. sp_Role p = SignupRoleExecutor) (start_participants exists top3 db pe))
      = length (filter (\<lambda>s. su_Role s = SignupRoleExecutor) (sharing db pe))"
    by (simp add: start_participants_def sharing_def filter_map o_def length_filter_sorted)
  also have "filter (\<lambda>s. su_Role s = SignupRoleExecutor) (sharing db pe) = filter (\<lambda>s. su_Role s = SignupRoleExecutor) (signups_of db pe)"
    by (auto simp: sharing_def SharesBudget_def SubmitsJobs_def intro!: filter_cong)
  finally show ?thesis .
qed

text \<open>The rows the start writes: one for each agent that shares the budget, in the column of its tier.\<close>

lemma start_participant_tier:
  assumes "run_ok db pe" and "p \<in> set (start_participants exists top3 db pe)"
  shows "tier_of db pe (sp_AgentID p) = Some (sp_QuotaTier p)" and "sp_AgentID p \<in> su_AgentID ` set (sharing db pe)"
proof -
  have "(sp_AgentID p, sp_QuotaTier p) \<in> set (map (\<lambda>p. (sp_AgentID p, sp_QuotaTier p)) (start_participants exists top3 db pe))"
    using assms(2) by auto
  then have "(sp_AgentID p, sp_QuotaTier p) \<in> set (map (\<lambda>s. (su_AgentID s, su_QuotaTier s)) (sharing db pe))"
    by (simp only: start_participants_of(3) [OF assms(1)])
  then obtain s where s: "s \<in> set (sharing db pe)" "su_AgentID s = sp_AgentID p" "su_QuotaTier s = sp_QuotaTier p" by auto
  then have "s \<in> set (signups_of db pe)" by (simp add: sharing_def)
  from tier_of_signup [OF _ this] assms(1) s show "tier_of db pe (sp_AgentID p) = Some (sp_QuotaTier p)" by (simp add: run_ok_def)
  from s show "sp_AgentID p \<in> su_AgentID ` set (sharing db pe)" by (metis imageI)
qed

lemma start_rows:
  assumes ok: "run_ok db pe" and cfg: "0 \<le> qc_Top3BonusFraction cfg" "qc_Top3BonusFraction cfg \<le> 1" "0 \<le> qc_BurstFraction cfg"
    and B: "0 \<le> B" and ps: "ps = start_participants exists top3 db pe" "ps \<noteq> []"
  defines "quotas \<equiv> map (start_quota cfg pe B ps) ps"
  shows "distinct (map aq_AgentID quotas)" "aq_AgentID ` set quotas = su_AgentID ` set (sharing db pe)"
    "\<bar>sum_list (map Share quotas) - B\<bar> \<le> of_nat (length (sharing db pe)) * half_micro"
    "q \<in> set quotas \<Longrightarrow> aq_PlatformExperimentID q = pe \<and> 0 \<le> aq_GuaranteedAcceleratorHours q \<and> 0 \<le> aq_BurstAcceleratorHours q"
    "q \<in> set quotas \<Longrightarrow> tier_of db pe (aq_AgentID q) = Some tier \<Longrightarrow> in_tier tier q"
proof -
  note sp = start_participants_of [OF ok, of exists top3, folded ps(1)]
  note row = start_quota_row [OF given_nonneg [OF cfg(1,2) B] cfg(3) ps(2), of pe]
  have "map aq_AgentID quotas = map sp_AgentID ps" using row by (simp add: quotas_def)
  with sp(1) show "distinct (map aq_AgentID quotas)" by simp
  have "fst ` set (map (\<lambda>p. (sp_AgentID p, sp_QuotaTier p)) ps) = fst ` set (map (\<lambda>s. (su_AgentID s, su_QuotaTier s)) (sharing db pe))"
    by (simp only: sp(3))
  then show "aq_AgentID ` set quotas = su_AgentID ` set (sharing db pe)" using row by (simp add: quotas_def image_image)
  have "map Share quotas = map (given cfg B ps) ps" using row by (simp add: quotas_def)
  with given_sum [OF ps(2), of cfg B] sp(2) show "\<bar>sum_list (map Share quotas) - B\<bar> \<le> of_nat (length (sharing db pe)) * half_micro" by simp
  show "aq_PlatformExperimentID q = pe \<and> 0 \<le> aq_GuaranteedAcceleratorHours q \<and> 0 \<le> aq_BurstAcceleratorHours q" if "q \<in> set quotas"
    using that row by (auto simp: quotas_def)
  show "in_tier tier q" if q: "q \<in> set quotas" and t: "tier_of db pe (aq_AgentID q) = Some tier"
  proof -
    from q obtain p where p: "p \<in> set ps" "q = start_quota cfg pe B ps p" by (auto simp: quotas_def)
    with row t start_participant_tier(1) [OF ok, of p exists top3] show ?thesis by (auto simp: ps(1))
  qed
qed

text \<open>New rows of the right columns leave the rows in order.\<close>

lemma given_rows_ok:
  assumes "run_ok db pe" and "rows_in_tier db pe" and "quotas_ok db'" and "signups_of db' pe = signups_of db pe"
    and rows: "\<And>a. quota_of db' pe a = (case map_of (map (\<lambda>q. (aq_AgentID q, q)) quotas) a of None \<Rightarrow> quota_of db pe a | Some q \<Rightarrow> Some q)"
    and nonneg: "\<And>q. q \<in> set quotas \<Longrightarrow> 0 \<le> aq_GuaranteedAcceleratorHours q \<and> 0 \<le> aq_BurstAcceleratorHours q"
    and tiers: "\<And>q tier. q \<in> set quotas \<Longrightarrow> tier_of db pe (aq_AgentID q) = Some tier \<Longrightarrow> in_tier tier q"
  shows "run_ok db' pe \<and> rows_in_tier db' pe"
proof -
  have d: "distinct (map su_AgentID (signups_of db' pe))" using assms(1,4) by (simp add: run_ok_def)
  have t: "tier_of db' pe a = tier_of db pe a" for a using assms(4) by (simp add: tier_of_def)
  have split: "quota_of db pe a = Some q \<or> q \<in> set quotas \<and> aq_AgentID q = a" if "quota_of db' pe a = Some q" for a q
    using that by (auto simp: rows dest!: map_of_SomeD split: option.splits)
  have old: "quota_of db pe a = Some q \<Longrightarrow> 0 \<le> aq_GuaranteedAcceleratorHours q \<and> 0 \<le> aq_BurstAcceleratorHours q" for a q
    using assms(1) rows_nonnegD [of db pe a q] by (simp add: run_ok_def)
  have "rows_nonneg db' pe" unfolding rows_nonneg_iff [OF assms(3)] using split old nonneg by blast
  moreover have "rows_in_tier db' pe" unfolding rows_in_tier_iff [OF d] t using split tiers rows_in_tierD [OF assms(2)] by blast
  ultimately show ?thesis using d assms(3) by (simp add: run_ok_def)
qed

text \<open>C22: the start gives the agents that share the budget its first stage's part of it.  The run is running and keeps its ladder, or one stage where no
  boundary could cut; each agent that shares the budget has a row and no other row moves; the shares given sum to the first stage's part up
  to the rounding of each; and every row is in the column of its agent's tier, so the boundaries that follow conserve it.\<close>

theorem start_gives_first_stage:
  assumes "StartPlatformExperimentTx fmt exists top3 cfg pe runBudget db = (Some True, db')" and "run_ok db pe" and "rows_in_tier db pe"
    and "\<forall>s \<in> set (sharing db pe). quota_of db pe (su_AgentID s) = None"
    and "0 \<le> qc_Top3BonusFraction cfg" and "qc_Top3BonusFraction cfg \<le> 1" and "0 \<le> qc_BurstFraction cfg" and "0 \<le> runBudget"
  shows "\<exists>r r'. map_of (rn_runs db) pe = Some r \<and> map_of (rn_runs db') pe = Some r' \<and> rr_Status r = PlatformExpOpen
    \<and> rr_Status r' = PlatformExpRunning \<and> ValidateStages (rr_Stages r') = None
    \<and> rr_Stages r' = RunStages (rr_Stages r) (length (filter (\<lambda>s. su_Role s = SignupRoleExecutor) (signups_of db pe)))
    \<and> \<bar>total_shares db' pe - (total_shares db pe + runBudget * ReleaseFrac (hd (rr_Stages r')))\<bar>
        \<le> of_nat (length (sharing db pe)) * half_micro
    \<and> (\<forall>a. a \<in> su_AgentID ` set (sharing db pe) \<longleftrightarrow> quota_of db pe a \<noteq> quota_of db' pe a)
    \<and> run_ok db' pe \<and> rows_in_tier db' pe"
proof -
  let ?ps = "start_participants exists top3 db pe" and ?open = "\<lambda>r stages. r\<lparr>rr_Status := PlatformExpRunning, rr_Stages := stages, rr_Held := []\<rparr>"
  let ?db1 = "\<lambda>r stages. announce [run_change pe ''platform_experiment.status'' ''running'' []] (db\<lparr>rn_runs := mput pe (?open r stages) (rn_runs db)\<rparr>)"
  from assms(1) obtain r quotas stages where r: "map_of (rn_runs db) pe = Some r" "rr_Status r = PlatformExpOpen"
    and q: "quotasFor cfg pe (rr_Stages r) runBudget ?ps = Some (quotas, stages)" and v: "ValidateStages stages = None"
    and db': "db' = fold (upsertAgentQuota fmt) quotas (?db1 r stages)"
    by (auto simp: StartPlatformExperimentTx_def split: option.splits if_splits)
  let ?B = "runBudget * ReleaseFrac (hd stages)"
  have s1: "same_quotas db (?db1 r stages)" by (simp add: same_quotas_def)
  from q have ps: "?ps \<noteq> []" and quotas: "quotas = map (start_quota cfg pe ?B ?ps) ?ps"
    and stages: "stages = RunStages (rr_Stages r) (length (filter (\<lambda>s. su_Role s = SignupRoleExecutor) (signups_of db pe)))"
    by (auto simp: quotasFor_def Let_def start_executors split: if_splits)
  have "0 \<le> ?B" using ValidateStages_release [OF v] assms(8) by simp
  note sr = start_rows [OF assms(2,5-7) this refl ps, folded quotas]
  have "\<forall>q \<in> set quotas. quota_of db pe (aq_AgentID q) = None" using sr(2) assms(4) by (metis imageE imageI)
  then have fresh: "\<forall>q \<in> set quotas. quota_of (?db1 r stages) pe (aq_AgentID q) = None" by (simp only: same_quotas_of [OF s1])
  have "quotas_ok (?db1 r stages)" using same_quotas_ok [OF s1] assms(2) by (simp add: run_ok_def)
  note u = upsert_new_rows [OF this sr(1) _ fresh, of fmt, folded db', unfolded same_quotas_total [OF s1] same_quotas_of [OF s1]]
  have pe: "\<forall>q \<in> set quotas. aq_PlatformExperimentID q = pe" using sr(4) by simp
  from u [OF pe] have "same_roster (?db1 r stages) db'" by blast
  from same_roster_tiers [OF this] same_quotas_tiers [OF s1] have "signups_of db' pe = signups_of db pe" by (simp only: )
  then have ok': "run_ok db' pe \<and> rows_in_tier db' pe"
    using u [OF pe] sr(4,5) by (intro given_rows_ok [OF assms(2,3), of db' quotas]) blast+
  have moved: "a \<in> su_AgentID ` set (sharing db pe) \<longleftrightarrow> quota_of db pe a \<noteq> quota_of db' pe a" for a
  proof (cases "a \<in> su_AgentID ` set (sharing db pe)")
    case True
    with assms(4) have "quota_of db pe a = None" by auto
    moreover from True have "map_of (map (\<lambda>q. (aq_AgentID q, q)) quotas) a \<noteq> None" by (simp add: map_of_eq_None_iff image_image sr(2))
    ultimately show ?thesis using True u [OF pe] by auto
  next
    case False
    then have "map_of (map (\<lambda>q. (aq_AgentID q, q)) quotas) a = None" by (simp add: map_of_eq_None_iff image_image sr(2))
    with False u [OF pe] show ?thesis by simp
  qed
  have run': "map_of (rn_runs db') pe = Some (?open r stages)" using u [OF pe] by (simp add: same_roster_def)
  have "\<bar>total_shares db' pe - (total_shares db pe + ?B)\<bar> \<le> of_nat (length (sharing db pe)) * half_micro" using u [OF pe] sr(3) by simp
  with r run' v stages moved ok' show ?thesis by auto
qed

text \<open>The start of a run of two executors, one with a top-3 place, whose ladder has two stages and too few executors to cut from.\<close>

definition sample_ladder :: "Stage list" where
  "sample_ladder = [\<lparr>st_LengthPct = 40, st_EvictPct = 50, st_MaxJobHours = 1\<rparr>, \<lparr>st_LengthPct = 60, st_EvictPct = 0, st_MaxJobHours = 0\<rparr>]"

definition sample_open :: run_db where
  "sample_open = sample_run\<lparr>rn_jobs := (rn_jobs sample_run)\<lparr>db_quotas := []\<rparr>,
     rn_runs := [(''p'', \<lparr>rr_Status = PlatformExpOpen, rr_CurrentStage = 1, rr_Stages = sample_ladder, rr_Agents = [], rr_MaxAgents = 2,
       rr_Held = []\<rparr>)]\<rparr>"

definition sample_cfg :: QuotaConfig where
  "sample_cfg = \<lparr>qc_Top3BonusFraction = 1 / 5, qc_BurstFraction = 1 / 2\<rparr>"

definition sample_started :: run_db where
  "sample_started = snd (StartPlatformExperimentTx (\<lambda>x. []) (\<lambda>a. True) (\<lambda>a. a = ''x'') sample_cfg ''p'' 10 sample_open)"

theorem start_gives_first_stage_witness:
  "\<bar>total_shares sample_started ''p'' - 10\<bar> \<le> 2 * half_micro \<and> run_ok sample_started ''p'' \<and> rows_in_tier sample_started ''p''"
proof -
  have run: "StartPlatformExperimentTx (\<lambda>x. []) (\<lambda>a. True) (\<lambda>a. a = ''x'') sample_cfg ''p'' 10 sample_open = (Some True, sample_started)"
    by code_simp
  have hyps: "run_ok sample_open ''p''" "rows_in_tier sample_open ''p''"
    "\<forall>s \<in> set (sharing sample_open ''p''). quota_of sample_open ''p'' (su_AgentID s) = None"
    "0 \<le> qc_Top3BonusFraction sample_cfg" "qc_Top3BonusFraction sample_cfg \<le> 1" "0 \<le> qc_BurstFraction sample_cfg" "0 \<le> (10 :: rat)"
    by code_simp+
  have vals: "total_shares sample_open ''p'' = 0" "length (sharing sample_open ''p'') = 2"
    "map_option (\<lambda>r. ReleaseFrac (hd (rr_Stages r))) (map_of (rn_runs sample_started) ''p'') = Some 1"
    by code_simp+
  from start_gives_first_stage [OF run hyps] vals show ?thesis by auto
qed

end
