(* ===== verification/Pool_Properties.thy ===== *)
theory Pool_Properties
  imports Budget_Laws
begin

text \<open>
  The keeper of a platform experiment's team fills exactly the places its pool is missing, holds the rest, and stays inside
  \<open>max_agents\<close> as long as no entry has more at work than it wants; and a change of the agents leaves the run inside them.
\<close>

subsection \<open>What the keeper fills and holds\<close>

text \<open>In closed form: the ended agents of an entry that are held early, the others, what is still needed, and the replacements allowed.\<close>

definition missing :: "(PoolKey, int) gomap \<Rightarrow> AgentPoolEntry \<Rightarrow> nat" where
  "missing atWork e = nat (pl_Count e - geti atWork (entry_key e))"

definition held_early :: "(PoolKey, int) gomap \<Rightarrow> (PoolKey, EndedPlace list) gomap \<Rightarrow> AgentPoolEntry \<Rightarrow> string list" where
  "held_early atWork ended e = map ep_AgentID (take (missing atWork e) (filter ep_Early (mget [] ended (entry_key e))))"

definition replaceable :: "(PoolKey, EndedPlace list) gomap \<Rightarrow> AgentPoolEntry \<Rightarrow> string list" where
  "replaceable ended e = map ep_AgentID (filter (\<lambda>r. \<not> ep_Early r) (mget [] ended (entry_key e)))"

definition open_places :: "(PoolKey, int) gomap \<Rightarrow> (PoolKey, EndedPlace list) gomap \<Rightarrow> AgentPoolEntry \<Rightarrow> nat" where
  "open_places atWork ended e = missing atWork e - length (held_early atWork ended e)"

definition allowed_replacements :: "(PoolKey, int) gomap \<Rightarrow> AgentPoolEntry \<Rightarrow> nat" where
  "allowed_replacements recent e = nat (MaxReplacementsAnHour - geti recent (entry_key e))"

definition filled :: "(PoolKey, EndedPlace list) gomap \<Rightarrow> (PoolKey, int) gomap \<Rightarrow> AgentPoolEntry \<Rightarrow> nat \<Rightarrow> string list" where
  "filled ended recent e n =
     take (min (allowed_replacements recent e) n) (replaceable ended e) @ replicate (n - length (replaceable ended e)) []"

definition held :: "(PoolKey, int) gomap \<Rightarrow> (PoolKey, EndedPlace list) gomap \<Rightarrow> (PoolKey, int) gomap \<Rightarrow> AgentPoolEntry \<Rightarrow> nat
    \<Rightarrow> (string \<times> hold_reason) list" where
  "held atWork ended recent e n =
     map (\<lambda>a. (a, HoldEndedEarly)) (held_early atWork ended e)
     @ map (\<lambda>a. (a, HoldReplacementLimit)) (drop (allowed_replacements recent e) (take n (replaceable ended e)))"

definition places_of :: "AgentPoolEntry \<Rightarrow> PoolPlace list \<Rightarrow> string list" where
  "places_of e places = map pp_Replaces (filter (\<lambda>p. pp_Entry p = e) places)"

definition holds_of :: "AgentPoolEntry \<Rightarrow> PoolHold list \<Rightarrow> (string \<times> hold_reason) list" where
  "holds_of e holds = map (\<lambda>h. (ph_Replaces h, ph_Reason h)) (filter (\<lambda>h. ph_Key h = entry_key e) holds)"

lemma pool_early_exact:
  "pool_early key rs need = (need - int (min (nat need) (length (filter ep_Early rs))),
     map ep_AgentID (filter (\<lambda>r. \<not> ep_Early r) rs),
     map (\<lambda>r. \<lparr>ph_Key = key, ph_Replaces = ep_AgentID r, ph_Reason = HoldEndedEarly\<rparr>) (take (nat need) (filter ep_Early rs)))"
proof (induction rs arbitrary: need)
  case (Cons r rs)
  have "need > 0 \<Longrightarrow> nat need = Suc (nat (need - 1))" by simp
  with Cons show ?case by auto
qed simp

lemma pool_fill_exact:
  "0 \<le> allowed \<Longrightarrow> pool_fill e ps allowed n =
     (map (\<lambda>p. \<lparr>pp_Entry = e, pp_Replaces = p\<rparr>) (take (min (nat allowed) n) ps @ replicate (n - length ps) []),
      map (\<lambda>p. \<lparr>ph_Key = entry_key e, ph_Replaces = p, ph_Reason = HoldReplacementLimit\<rparr>) (drop (nat allowed) (take n ps)))"
proof (induction n arbitrary: ps allowed)
  case 0
  then show ?case by (simp add: pool_fill.simps)
next
  case (Suc n)
  show ?case
  proof (cases ps)
    case Nil
    with Suc show ?thesis by (subst pool_fill.simps) simp
  next
    case (Cons p ps')
    have "allowed \<noteq> 0 \<Longrightarrow> nat allowed = Suc (nat (allowed - 1))" using Suc.prems by simp
    with Suc Cons show ?thesis by (subst pool_fill.simps) simp
  qed
qed

definition executor_entries :: "AgentPool \<Rightarrow> AgentPool" where
  "executor_entries pool = filter (\<lambda>e. \<not> Researches (entry_key e)) pool"

text \<open>What one entry is given, with \<open>n\<close> of its places filled.\<close>

definition entry_part :: "(PoolKey, int) gomap \<Rightarrow> (PoolKey, EndedPlace list) gomap \<Rightarrow> (PoolKey, int) gomap \<Rightarrow> AgentPoolEntry \<Rightarrow> nat
    \<Rightarrow> PoolPlace list \<times> PoolHold list" where
  "entry_part atWork ended recent e n =
     (map (\<lambda>p. \<lparr>pp_Entry = e, pp_Replaces = p\<rparr>) (filled ended recent e n),
      map (\<lambda>(p, why). \<lparr>ph_Key = entry_key e, ph_Replaces = p, ph_Reason = why\<rparr>) (held atWork ended recent e n))"

definition entry_fits :: "(PoolKey, int) gomap \<Rightarrow> (PoolKey, EndedPlace list) gomap \<Rightarrow> int \<Rightarrow> AgentPoolEntry \<Rightarrow> int" where
  "entry_fits atWork ended room e = pool_fits (entry_key e) (int (open_places atWork ended e)) room"

lemma pool_walk_Cons:
  assumes "geti atWork (entry_key e) \<le> pl_Count e"
  shows "pool_walk atWork ended recent room (e # es) =
    (let fits = entry_fits atWork ended room e;
         (places, holds) = entry_part atWork ended recent e (nat fits);
         (places', holds') = pool_walk atWork ended recent (if Researches (entry_key e) then room else room - fits) es
     in (places @ places', holds @ holds'))"
proof -
  have "pl_Count e - geti atWork (entry_key e) - int (min (nat (pl_Count e - geti atWork (entry_key e))) (length (filter ep_Early (mget [] ended (entry_key e)))))
      = int (open_places atWork ended e)"
    using assms by (simp add: open_places_def held_early_def missing_def min_def)
  moreover have "nat (max 0 x) = nat x" for x :: int by (simp add: max_def)
  ultimately show ?thesis
    by (simp add: pool_early_exact pool_fill_exact entry_part_def filled_def held_def held_early_def missing_def replaceable_def
        allowed_replacements_def entry_fits_def Let_def comp_def split: prod.splits)
qed

lemma parts_of:
  "places_of e (fst (entry_part atWork ended recent e n)) = filled ended recent e n"
  "holds_of e (snd (entry_part atWork ended recent e n)) = held atWork ended recent e n"
  "e' \<noteq> e \<Longrightarrow> places_of e' (fst (entry_part atWork ended recent e n)) = []"
  "entry_key e' \<noteq> entry_key e \<Longrightarrow> holds_of e' (snd (entry_part atWork ended recent e n)) = []"
  by (auto simp: places_of_def holds_of_def entry_part_def filter_map o_def case_prod_beta')

lemma of_append: "places_of e (xs @ ys) = places_of e xs @ places_of e ys" "holds_of e (hs @ ks) = holds_of e hs @ holds_of e ks"
  by (simp_all add: places_of_def holds_of_def)

lemma of_none: "e \<notin> pp_Entry ` set places \<Longrightarrow> places_of e places = []" "entry_key e \<notin> ph_Key ` set holds \<Longrightarrow> holds_of e holds = []"
  by (auto simp: places_of_def holds_of_def filter_empty_conv, metis image_eqI)

lemma fits_step:
  fixes n room rest :: int
  assumes "0 \<le> n" and "0 \<le> rest"
  shows "int (nat (min n room)) + min rest (max 0 (room - min n room)) = min (n + rest) (max 0 room)"
  using assms by (auto simp: min_def max_def)

lemma pool_walk_exact:
  assumes "distinct (map entry_key es)" and "\<forall>e \<in> set es. geti atWork (entry_key e) \<le> pl_Count e"
    and "pool_walk atWork ended recent room es = (places, holds)"
  shows "pp_Entry ` set places \<subseteq> set es \<and> ph_Key ` set holds \<subseteq> entry_key ` set es
    \<and> (\<exists>fits. (\<forall>e \<in> set es. places_of e places = filled ended recent e (fits e) \<and> holds_of e holds = held atWork ended recent e (fits e)
            \<and> fits e \<le> open_places atWork ended e \<and> (Researches (entry_key e) \<longrightarrow> fits e = open_places atWork ended e))
        \<and> sum_list (map (\<lambda>e. int (fits e)) (executor_entries es))
            = min (sum_list (map (\<lambda>e. int (open_places atWork ended e)) (executor_entries es))) (max 0 room))"
  using assms
proof (induction es arbitrary: room places holds)
  case Nil
  then show ?case by (simp add: executor_entries_def)
next
  case (Cons e es)
  let ?f = "entry_fits atWork ended room e" and ?o = "open_places atWork ended"
  let ?part = "entry_part atWork ended recent e (nat ?f)" and ?room = "if Researches (entry_key e) then room else room - ?f"
  obtain places' holds' where w: "pool_walk atWork ended recent ?room es = (places', holds')" by fastforce
  have pe: "geti atWork (entry_key e) \<le> pl_Count e" using Cons.prems(2) by simp
  have res: "places = fst ?part @ places'" "holds = snd ?part @ holds'"
    using Cons.prems(3) unfolding pool_walk_Cons [OF pe] by (simp_all add: Let_def w split: prod.splits)
  have fresh: "entry_key e \<notin> entry_key ` set es" using Cons.prems(1) by simp
  then have ne: "e \<notin> set es" by auto
  obtain fits where ih: "pp_Entry ` set places' \<subseteq> set es" "ph_Key ` set holds' \<subseteq> entry_key ` set es"
    and each: "\<forall>x \<in> set es. places_of x places' = filled ended recent x (fits x) \<and> holds_of x holds' = held atWork ended recent x (fits x)
            \<and> fits x \<le> ?o x \<and> (Researches (entry_key x) \<longrightarrow> fits x = ?o x)"
    and total: "sum_list (map (\<lambda>e. int (fits e)) (executor_entries es)) = min (sum_list (map (\<lambda>e. int (?o e)) (executor_entries es))) (max 0 ?room)"
  proof -
    have "distinct (map entry_key es)" "\<forall>e \<in> set es. geti atWork (entry_key e) \<le> pl_Count e" using Cons.prems by simp_all
    from Cons.IH [OF this w] show thesis by (elim conjE exE) (rule that)
  qed
  let ?fits = "fits(e := nat ?f)"
  have sub: "pp_Entry ` set places \<subseteq> set (e # es)" "ph_Key ` set holds \<subseteq> entry_key ` set (e # es)"
    using ih by (auto simp: res entry_part_def)
  have mine: "places_of e places = filled ended recent e (nat ?f)" "holds_of e holds = held atWork ended recent e (nat ?f)"
  proof -
    have "e \<notin> pp_Entry ` set places'" "entry_key e \<notin> ph_Key ` set holds'" using ih ne fresh by auto
    then show "places_of e places = filled ended recent e (nat ?f)" "holds_of e holds = held atWork ended recent e (nat ?f)"
      by (simp_all add: res of_append parts_of of_none)
  qed
  have all: "places_of x places = filled ended recent x (?fits x) \<and> holds_of x holds = held atWork ended recent x (?fits x)
            \<and> ?fits x \<le> ?o x \<and> (Researches (entry_key x) \<longrightarrow> ?fits x = ?o x)" if x: "x \<in> set (e # es)" for x
  proof (cases "x = e")
    case True
    with mine show ?thesis by (auto simp: entry_fits_def pool_fits_def min_def)
  next
    case False
    with x have in_es: "x \<in> set es" by simp
    with fresh have "entry_key x \<noteq> entry_key e" by (metis image_eqI)
    with bspec [OF each in_es] False show ?thesis by (simp add: res of_append parts_of)
  qed
  have same: "map (\<lambda>x. int (?fits x)) (executor_entries es) = map (\<lambda>x. int (fits x)) (executor_entries es)"
    using ne by (auto simp: executor_entries_def)
  have rest0: "0 \<le> sum_list (map (\<lambda>e. int (?o e)) (executor_entries es))" by (rule sum_list_nonneg) auto
  have "sum_list (map (\<lambda>x. int (?fits x)) (executor_entries (e # es)))
      = min (sum_list (map (\<lambda>e. int (?o e)) (executor_entries (e # es)))) (max 0 room)"
  proof (cases "Researches (entry_key e)")
    case True
    then have c: "executor_entries (e # es) = executor_entries es" by (simp add: executor_entries_def)
    show ?thesis unfolding c same total using True by simp
  next
    case False
    then have f: "?f = min (int (?o e)) room" by (simp add: entry_fits_def pool_fits_def)
    have c: "executor_entries (e # es) = e # executor_entries es" using False by (simp add: executor_entries_def)
    show ?thesis
      unfolding c list.map sum_list.Cons same total using False fits_step [OF _ rest0, of "int (?o e)" room] by (simp add: f)
  qed
  with all sub show ?case by blast
qed

text \<open>C26: the keeper of the team fills exactly what its pool is missing.  While no entry has more at work than it wants, each entry is given a number of
  places: first, held, those of the agents that ended early; then, of the places left, one for each of the others in the order they ended, at
  most the replacements the hour still allows, the rest held; then the places no agent left.  A researcher's entry is filled; the executors
  together are filled as far as they are missing and \<open>max_agents\<close> leaves room, never beyond.\<close>

theorem PoolDeficit_exact:
  assumes "distinct (map entry_key pool)" and "\<forall>e \<in> set pool. geti atWork (entry_key e) \<le> pl_Count e"
    and "PoolDeficit pool maxAgents atWork ended recent = (places, holds)"
  shows "pp_Entry ` set places \<subseteq> set pool \<and> ph_Key ` set holds \<subseteq> entry_key ` set pool
    \<and> (\<exists>fits. (\<forall>e \<in> set pool. places_of e places = filled ended recent e (fits e) \<and> holds_of e holds = held atWork ended recent e (fits e)
            \<and> fits e \<le> open_places atWork ended e \<and> (Researches (entry_key e) \<longrightarrow> fits e = open_places atWork ended e))
        \<and> sum_list (map (\<lambda>e. int (fits e)) (executor_entries pool))
            = min (sum_list (map (\<lambda>e. int (open_places atWork ended e)) (executor_entries pool))) (max 0 (maxAgents - executors_working atWork)))"
  using assms(3) unfolding PoolDeficit_def by (rule pool_walk_exact [OF assms(1,2)])

text \<open>An entry of four executors with one at work, where one ended early and two later; another replacement was made in the hour.\<close>

definition sample_entry :: "string \<Rightarrow> int \<Rightarrow> AgentPoolEntry" where
  "sample_entry t n = \<lparr>pl_AgentType = t, pl_Model = [], pl_Count = n\<rparr>"

definition sample_ended :: "EndedPlace list" where
  "sample_ended = [\<lparr>ep_AgentID = ''u'', ep_Early = False\<rparr>, \<lparr>ep_AgentID = ''v'', ep_Early = True\<rparr>, \<lparr>ep_AgentID = ''w'', ep_Early = False\<rparr>]"

theorem PoolDeficit_exact_witness:
  "\<exists>fits. let e = sample_entry ''a'' 4; places = fst (PoolDeficit [e] 4 [(entry_key e, 1)] [(entry_key e, sample_ended)] [(entry_key e, 2)])
     in places_of e places = filled [(entry_key e, sample_ended)] [(entry_key e, 2)] e (fits e) \<and> fits e = (2 :: nat)"
proof -
  let ?e = "sample_entry ''a'' 4"
  let ?d = "PoolDeficit [?e] 4 [(entry_key ?e, 1)] [(entry_key ?e, sample_ended)] [(entry_key ?e, 2)]"
  have h: "distinct (map entry_key [?e])" "\<forall>e \<in> set [?e]. geti [(entry_key ?e, 1)] (entry_key e) \<le> pl_Count e" by code_simp+
  have v: "executor_entries [?e] = [?e]" "int (open_places [(entry_key ?e, 1)] [(entry_key ?e, sample_ended)] ?e) = 2"
    "executors_working [(entry_key ?e, 1)] = 1" by code_simp+
  obtain places holds where d: "?d = (places, holds)" by fastforce
  from PoolDeficit_exact [OF h d] obtain fits where f: "places_of ?e places = filled [(entry_key ?e, sample_ended)] [(entry_key ?e, 2)] ?e (fits ?e)"
    "sum_list (map (\<lambda>e. int (fits e)) (executor_entries [?e])) = 2" unfolding v by (auto simp: v)
  then show ?thesis using d by (auto simp: Let_def v)
qed

subsection \<open>Entries with more at work than they want\<close>

text \<open>How many more executors the entries have at work than they want.\<close>

definition surplus :: "(PoolKey, int) gomap \<Rightarrow> AgentPool \<Rightarrow> int" where
  "surplus atWork es = sum_list (map (\<lambda>e. geti atWork (entry_key e) - pl_Count e) es)"

definition overstaffed :: "(PoolKey, int) gomap \<Rightarrow> AgentPoolEntry \<Rightarrow> bool" where
  "overstaffed atWork e \<longleftrightarrow> \<not> Researches (entry_key e) \<and> pl_Count e \<le> geti atWork (entry_key e)"

lemma pool_walk_overstaffed:
  "\<forall>e \<in> set over. overstaffed atWork e \<Longrightarrow> 0 \<le> room \<Longrightarrow>
     pool_walk atWork ended recent room (over @ es) = pool_walk atWork ended recent (room + surplus atWork over) es"
proof (induction over arbitrary: room)
  case (Cons e over)
  let ?more = "geti atWork (entry_key e) - pl_Count e"
  have e: "\<not> Researches (entry_key e)" "0 \<le> ?more" using Cons.prems(1) by (simp_all add: overstaffed_def)
  then have "pool_walk atWork ended recent room ((e # over) @ es)
      = pool_walk atWork ended recent (room - (pl_Count e - geti atWork (entry_key e))) (over @ es)"
    using Cons.prems(2) by (simp add: pool_early_exact pool_fits_def pool_fill.simps [of _ _ _ 0] split: prod.split)
  also have "room - (pl_Count e - geti atWork (entry_key e)) = room + ?more" by simp
  also have "pool_walk atWork ended recent (room + ?more) (over @ es) = pool_walk atWork ended recent (room + ?more + surplus atWork over) es"
    using Cons.prems e(2) by (intro Cons.IH) simp_all
  finally show ?case by (simp add: surplus_def add.assoc)
qed (simp add: surplus_def)

lemma pool_walk_entries: "pp_Entry ` set (fst (pool_walk atWork ended recent room es)) \<subseteq> set es"
proof (induction es arbitrary: room)
  case (Cons e es)
  have "pp_Entry ` set (fst (pool_fill e ps (max 0 x) n)) \<subseteq> {e}" for ps x n
    by (subst pool_fill_exact) auto
  with Cons show ?case by (fastforce simp: Let_def case_prod_unfold)
qed simp

text \<open>C40: where entries have more at work than they want, as ones whose executors the coordinator added, the keeper's count of the room left
  grows by what they are over, and it asks for executors that \<open>max_agents\<close> has no room for.  Take an executors' entry that comes after such entries in a run
  that is within its \<open>max_agents\<close>: the places it is given are counted against \<open>max_agents\<close> and what those entries are over together, so that, where it misses as
  many and none of its agents ended, the executors at work and those to be added are more than \<open>max_agents\<close> by exactly what those entries are over.\<close>

theorem PoolDeficit_over_max:
  assumes "distinct (map entry_key (over @ e # rest))" and "\<forall>x \<in> set over. overstaffed atWork x"
    and "\<not> Researches (entry_key e)" and "geti atWork (entry_key e) \<le> pl_Count e" and "executors_working atWork \<le> maxAgents"
    and "PoolDeficit (over @ e # rest) maxAgents atWork ended recent = (places, holds)"
  shows "places_of e places =
        filled ended recent e (nat (min (int (open_places atWork ended e)) (maxAgents - executors_working atWork + surplus atWork over)))
    \<and> (mget [] ended (entry_key e) = [] \<longrightarrow>
        int (length (places_of e places)) + executors_working atWork
          = min (pl_Count e - geti atWork (entry_key e) + executors_working atWork) (maxAgents + surplus atWork over))"
proof -
  let ?room = "maxAgents - executors_working atWork + surplus atWork over"
  let ?fits = "min (int (open_places atWork ended e)) ?room"
  have s: "0 \<le> surplus atWork over" unfolding surplus_def using assms(2) by (intro sum_list_nonneg) (auto simp: overstaffed_def)
  have w: "(places, holds) = pool_walk atWork ended recent ?room (e # rest)"
    using assms(6) pool_walk_overstaffed [OF assms(2)] assms(5) by (simp add: PoolDeficit_def)
  have f: "entry_fits atWork ended ?room e = ?fits" using assms(3) by (simp add: entry_fits_def pool_fits_def)
  have "places = fst (entry_part atWork ended recent e (nat ?fits)) @ fst (pool_walk atWork ended recent (?room - ?fits) rest)"
    using w unfolding pool_walk_Cons [OF assms(4)] f by (simp add: assms(3) Let_def split: prod.splits)
  moreover have "e \<notin> pp_Entry ` set (fst (pool_walk atWork ended recent (?room - ?fits) rest))"
    using pool_walk_entries assms(1) by fastforce
  ultimately have p: "places_of e places = filled ended recent e (nat ?fits)"
    by (simp add: of_append parts_of of_none)
  have "int (length (places_of e places)) = ?fits \<and> int (open_places atWork ended e) = pl_Count e - geti atWork (entry_key e)"
    if "mget [] ended (entry_key e) = []"
    using that assms(4,5) s by (simp add: p filled_def replaceable_def open_places_def held_early_def missing_def)
  with p show ?thesis by (auto simp: min_def)
qed

text \<open>Four places at most and two executors at work, in an entry that wants none: four more are asked for.\<close>

theorem PoolDeficit_over_max_witness:
  "\<exists>e. int (length (places_of e (fst (PoolDeficit ([sample_entry ''a'' 0] @ e # []) 4 [(entry_key (sample_entry ''a'' 0), 2)] [] []))))
      + executors_working [(entry_key (sample_entry ''a'' 0), 2)] = 6"
proof -
  let ?a = "sample_entry ''a'' 0" and ?e = "sample_entry ''b'' 5"
  let ?at = "[(entry_key ?a, 2 :: int)]"
  have h: "distinct (map entry_key ([?a] @ ?e # []))" "\<not> Researches (entry_key ?e)" "geti ?at (entry_key ?e) \<le> pl_Count ?e"
    "executors_working ?at \<le> 4" by code_simp+
  have "overstaffed ?at ?a" by code_simp
  then have o: "\<forall>x \<in> set [?a]. overstaffed ?at x" by simp
  have v: "surplus ?at [?a] = 2" "pl_Count ?e - geti ?at (entry_key ?e) = 5" "executors_working ?at = 2" by code_simp+
  have none: "mget [] [] (entry_key ?e) = []" by (simp add: mget_absent)
  from PoolDeficit_over_max [OF h(1) o h(2-4) prod.collapse [symmetric], of "[]" "[]", THEN conjunct2, THEN mp, OF none]
  have "int (length (places_of ?e (fst (PoolDeficit ([?a] @ ?e # []) 4 ?at [] [])))) + executors_working ?at = 6"
    unfolding v by simp
  then show ?thesis by blast
qed

subsection \<open>A change of the agents\<close>

lemma sort_ins_front: "\<forall>y \<in> set ys. \<not> lt y x \<Longrightarrow> sort_ins lt x ys = x # ys"
  by (cases ys) simp_all

lemma sort_slice_sorted: "sorted_wrt (\<lambda>a b. \<not> lt b a) xs \<Longrightarrow> sort_slice lt xs = xs"
  by (induction xs) (simp_all add: sort_ins_front)

lemma joined_total: "inj_on su_AgentID A \<Longrightarrow> a \<in> A \<Longrightarrow> b \<in> A \<Longrightarrow> \<not> joined_before a b \<Longrightarrow> \<not> joined_before b a \<Longrightarrow> a = b"
  by (auto simp: joined_before_def inj_on_def split: if_splits)

lemma sort_joined_filter:
  assumes "distinct (map su_AgentID xs)"
  shows "sort_slice joined_before (filter P xs) = filter P (sort_slice joined_before xs)"
proof -
  have inj: "inj_on su_AgentID (set xs)" using assms by (simp add: distinct_map)
  have "sort_slice joined_before (filter P xs) = sort_slice joined_before (filter P (sort_slice joined_before xs))"
  proof (rule joined_order.sort_slice_unique)
    show "mset (filter P xs) = mset (filter P (sort_slice joined_before xs))" by simp
    show "x = y" if "x \<in> set (filter P xs)" "y \<in> set (filter P xs)" "\<not> joined_before x y" "\<not> joined_before y x" for x y
      using joined_total [OF inj] that by simp
  qed
  also have "\<dots> = filter P (sort_slice joined_before xs)"
    by (rule sort_slice_sorted, rule sorted_wrt_filter, rule joined_order.sorted_sort_slice)
  finally show ?thesis .
qed

lemma is_cut_cutTx: "is_cut (cutTx pe agents stage why db) p a \<longleftrightarrow> is_cut db p a \<or> p = pe \<and> a \<in> set agents"
  unfolding cutTx_def by (induction agents arbitrary: db) (auto simp: cut_one_def is_cut_def)

text \<open>The state of a run that a cut of \<open>agents\<close> leaves.\<close>

lemma executors_after_cut:
  assumes signups: "rn_signups db' = rn_signups db" and cuts: "\<And>a. is_cut db' pe a \<longleftrightarrow> is_cut db pe a \<or> a \<in> A"
    and d: "distinct (map su_AgentID (signups_of db pe))"
  shows "executors_at_work db' pe = filter (\<lambda>s. su_AgentID s \<notin> A) (executors_at_work db pe)"
proof -
  have s: "signups_of db' pe = signups_of db pe" by (simp add: signups_of_def signups)
  have "executor_at_work db' x = (executor_at_work db x \<and> su_AgentID x \<notin> A)" if "x \<in> set (signups_of db pe)" for x
    using that by (auto simp: executor_at_work_def agent_at_work_def is_replaced_def signups cuts signups_of_def)
  then have "filter (executor_at_work db') (signups_of db' pe) = filter (\<lambda>s. su_AgentID s \<notin> A) (filter (executor_at_work db) (signups_of db pe))"
    unfolding s by (simp cong: filter_cong add: conj_commute)
  then show ?thesis
    unfolding executors_at_work_def by (simp only: sort_joined_filter [OF distinct_map_filter [OF d]])
qed

lemma drop_names: "distinct (map f xs) \<Longrightarrow> filter (\<lambda>x. f x \<notin> set (map f (drop n xs))) xs = take n xs"
proof -
  assume d: "distinct (map f xs)"
  have inj: "inj_on f (set xs)" and dx: "distinct xs" using d by (simp_all add: distinct_map)
  have "x \<in> set (take n xs) \<Longrightarrow> f x \<notin> set (map f (drop n xs))" for x
  proof
    assume x: "x \<in> set (take n xs)" and "f x \<in> set (map f (drop n xs))"
    then obtain y where y: "y \<in> set (drop n xs)" "f y = f x" by auto
    with x inj have "y = x" by (meson in_set_dropD in_set_takeD inj_onD)
    with x y set_take_disj_set_drop_if_distinct [OF dx, of n n] show False by auto
  qed
  then have "filter (\<lambda>x. f x \<notin> set (map f (drop n xs))) (take n xs @ drop n xs) = take n xs"
    by (simp add: filter_id_conv filter_empty_conv del: append_take_drop_id)
  then show ?thesis by simp
qed

lemma signups_cut [simp]: "rn_signups (cutTx pe agents stage why db) = rn_signups db" "rn_signups (lowerPoolTx pe agents db) = rn_signups db"
  using cutTx_same lowerPoolTx_same(1) by (simp_all add: same_quotas_def)

lemma is_cut_lowerPool [simp]: "is_cut (lowerPoolTx pe agents db) p a = is_cut db p a"
  by (simp add: is_cut_def lowerPoolTx_same)

lemma executors_distinct: "distinct (map su_AgentID (signups_of db pe)) \<Longrightarrow> distinct (map su_AgentID (executors_at_work db pe))"
proof -
  assume d: "distinct (map su_AgentID (signups_of db pe))"
  have "mset (map su_AgentID (executors_at_work db pe)) = mset (map su_AgentID (filter (executor_at_work db) (signups_of db pe)))"
    by (simp add: executors_at_work_def)
  then show ?thesis using distinct_map_filter [OF d] mset_eq_imp_distinct_iff by blast
qed

lemma evictAboveMax_executors:
  assumes "map_of (rn_runs db) pe = Some r" and "rr_Status r = PlatformExpRunning" and "distinct (map su_AgentID (signups_of db pe))"
  shows "executors_at_work (evictAboveMaxTx pe n lower db) pe = take (nat n) (executors_at_work db pe)"
proof -
  let ?evicted = "map su_AgentID (drop (nat n) (executors_at_work db pe))"
  have "executors_at_work (evictAboveMaxTx pe n lower db) pe = filter (\<lambda>s. su_AgentID s \<notin> set ?evicted) (executors_at_work db pe)"
  proof (cases "?evicted = []")
    case True
    with assms(1,2) show ?thesis by (simp add: evictAboveMaxTx_def)
  next
    case False
    with assms(1,2) have e: "evictAboveMaxTx pe n lower db = (let db = cutTx pe ?evicted (rr_CurrentStage r) CutMaxAgentsLowered db
        in if lower then lowerPoolTx pe ?evicted db else db)" by (simp add: evictAboveMaxTx_def Let_def)
    show ?thesis unfolding e by (rule executors_after_cut [OF _ _ assms(3)]) (simp_all add: Let_def is_cut_cutTx)
  qed
  then show ?thesis by (simp only: drop_names [OF executors_distinct [OF assms(3)]])
qed

text \<open>The roles of the agents and the agent types they run as agree.\<close>

definition roles_match :: "run_db \<Rightarrow> string \<Rightarrow> bool" where
  "roles_match db pe \<longleftrightarrow>
     list_all (\<lambda>s. of_team s \<longrightarrow> (Researches (signup_key s) \<longleftrightarrow> su_Role s = SignupRoleResearcher)) (signups_of db pe)"

lemma executors_working_madd:
  "wf_map m \<Longrightarrow> executors_working (madd k a m) = executors_working m + (if Researches k then 0 else a)"
proof (induction m)
  case Nil
  then show ?case by (simp add: executors_working_def madd_def mput_def)
next
  case (Cons e m)
  obtain k' n where e: "e = (k', n)" by force
  with Cons show ?case
    by (cases "k' = k") (auto simp: executors_working_def madd_def mput_def mget_Cons wf_map_Cons)
qed

lemma executors_working_fold:
  "wf_map m \<Longrightarrow> executors_working (fold (\<lambda>s. madd (signup_key s) 1) ss m)
     = executors_working m + int (length (filter (\<lambda>s. \<not> Researches (signup_key s)) ss))"
  by (induction ss arbitrary: m) (simp_all add: executors_working_madd)

lemma executors_working_at_work:
  assumes "roles_match db pe"
  shows "executors_working (agentsAtWork db pe) = int (length (executors_at_work db pe))"
proof -
  have "executors_working (agentsAtWork db pe)
      = int (length (filter (\<lambda>s. \<not> Researches (signup_key s)) (filter (agent_at_work db) (signups_of db pe))))"
    unfolding agentsAtWork_def by (subst executors_working_fold) (simp_all add: executors_working_def)
  also have "filter (\<lambda>s. \<not> Researches (signup_key s)) (filter (agent_at_work db) (signups_of db pe)) = filter (executor_at_work db) (signups_of db pe)"
    using assms by (auto simp: roles_match_def list_all_iff executor_at_work_def agent_at_work_def of_team_def intro!: filter_cong)
  finally show ?thesis by (simp add: executors_at_work_def)
qed

lemma agentsAtWork_nonneg: "0 \<le> geti (agentsAtWork db pe) k"
proof -
  have "0 \<le> geti m k \<Longrightarrow> 0 \<le> geti (fold (\<lambda>s. madd (signup_key s) 1) ss m) k" for m :: "(PoolKey, int) gomap" and ss
  proof (induction ss arbitrary: m)
    case (Cons s ss)
    then have "0 \<le> geti (madd (signup_key s) 1 m) k" by auto
    from Cons.IH [OF this] show ?case by simp
  qed simp
  then show ?thesis by (simp add: agentsAtWork_def)
qed

lemma at_work_cong:
  assumes "rn_signups db' = rn_signups db" and "db_cuts (rn_jobs db') = db_cuts (rn_jobs db)"
  shows "agentsAtWork db' pe = agentsAtWork db pe" "executors_at_work db' pe = executors_at_work db pe" "roles_match db' pe = roles_match db pe"
proof -
  have w: "agent_at_work db' = agent_at_work db" and s: "signups_of db' pe = signups_of db pe"
    using assms by (simp_all add: fun_eq_iff agent_at_work_def is_cut_def is_replaced_def signups_of_def)
  have "executor_at_work db' = executor_at_work db" by (simp add: fun_eq_iff executor_at_work_def w)
  then show "agentsAtWork db' pe = agentsAtWork db pe" "executors_at_work db' pe = executors_at_work db pe" "roles_match db' pe = roles_match db pe"
    by (simp_all add: agentsAtWork_def executors_at_work_def roles_match_def w s)
qed

subsubsection \<open>Capping a pool\<close>

definition counts_ok :: "AgentPool \<Rightarrow> bool" where
  "counts_ok p \<longleftrightarrow> list_all (\<lambda>e. pl_Count e \<ge> 0) p"

lemma pool_Executors_nonneg: "counts_ok p \<Longrightarrow> 0 \<le> pool_Executors p"
  unfolding pool_Executors_def counts_ok_def by (rule sum_list_nonneg) (auto simp: list_all_iff)

lemma entry_key_count [simp]: "entry_key (e\<lparr>pl_Count := n\<rparr>) = entry_key e"
  by (simp add: entry_key_def)

lemma cap_entries_sum:
  "counts_ok es \<Longrightarrow> 0 \<le> over \<Longrightarrow> pool_Executors (cap_entries over es) = pool_Executors es - min over (pool_Executors es)"
proof (induction over es rule: cap_entries.induct)
  case (2 over e es)
  from 2(3) have ok: "counts_ok es" "0 \<le> pl_Count e" by (simp_all add: counts_ok_def)
  note nn = pool_Executors_nonneg [OF ok(1)]
  show ?case
  proof (cases "over \<le> 0 \<or> Researches (entry_key e)")
    case True
    with 2(1) [OF True ok(1) 2(4)] ok nn 2(4) show ?thesis by (auto simp: pool_Executors_def min_def split: if_splits)
  next
    case False
    let ?n = "min (pl_Count e) over"
    have "0 \<le> over - ?n" by simp
    from 2(2) [OF False refl ok(1) this] False ok nn show ?thesis by (auto simp: pool_Executors_def Let_def min_def)
  qed
qed (simp add: pool_Executors_def)

lemma pool_Executors_rev [simp]: "pool_Executors (rev p) = pool_Executors p"
  by (simp add: pool_Executors_def rev_filter [symmetric] rev_map [symmetric])

lemma Capped_within: "counts_ok p \<Longrightarrow> 0 \<le> n \<Longrightarrow> n \<le> pool_Executors p \<Longrightarrow> pool_Executors (Capped p n) = n"
  unfolding Capped_def using cap_entries_sum [of "rev p" "pool_Executors p - n"] by (simp add: counts_ok_def min_def)

subsubsection \<open>The change\<close>

lemma lower_entry_ok: "0 \<le> n \<Longrightarrow> counts_ok p \<Longrightarrow> counts_ok (lower_entry key n p)"
  by (induction p) (auto simp: counts_ok_def)

lemma agents_of_put: "map_of (rn_runs db) pe \<noteq> None \<Longrightarrow> agents_of (put_agents pe p db) pe = p"
  by (auto simp: agents_of_def put_agents_def)

lemma runs_put: "map_of (rn_runs db) pe \<noteq> None \<Longrightarrow> map_of (rn_runs (put_agents pe p db)) pe \<noteq> None"
  by (auto simp: put_agents_def)

lemma lowerPool_agents:
  assumes "map_of (rn_runs db) pe \<noteq> None" and "counts_ok (agents_of db pe)"
  shows "map_of (rn_runs (lowerPoolTx pe agents db)) pe \<noteq> None \<and> counts_ok (agents_of (lowerPoolTx pe agents db) pe)"
proof -
  have "map_of (rn_runs (fold (shrinkPoolToAtWorkTx pe) ks db)) pe \<noteq> None \<and> counts_ok (agents_of (fold (shrinkPoolToAtWorkTx pe) ks db) pe)" for ks
    using assms
  proof (induction ks arbitrary: db)
    case (Cons k ks)
    have "map_of (rn_runs (shrinkPoolToAtWorkTx pe k db)) pe \<noteq> None" "counts_ok (agents_of (shrinkPoolToAtWorkTx pe k db) pe)"
      using Cons.prems by (simp_all only: shrinkPoolToAtWorkTx_def runs_put agents_of_put lower_entry_ok agentsAtWork_nonneg not_False_eq_True)
    with Cons.IH show ?case by simp
  qed simp
  then show ?thesis by (simp add: lowerPoolTx_def)
qed

lemma runs_cutTx: "rn_runs (cutTx pe agents stage why db) = rn_runs db"
  unfolding cutTx_def by (induction agents arbitrary: db) (simp_all add: cut_one_same)

lemma evictAboveMax_kept:
  assumes "map_of (rn_runs db) pe = Some r" and "counts_ok (rr_Agents r)"
  shows "map_of (rn_runs (evictAboveMaxTx pe n lower db)) pe \<noteq> None \<and> counts_ok (agents_of (evictAboveMaxTx pe n lower db) pe)
    \<and> rn_signups (evictAboveMaxTx pe n lower db) = rn_signups db
    \<and> (\<not> lower \<longrightarrow> rn_runs (evictAboveMaxTx pe n lower db) = rn_runs db)"
  using assms lowerPool_agents [of "cutTx pe (map su_AgentID (drop (nat n) (executors_at_work db pe))) (rr_CurrentStage r) CutMaxAgentsLowered db"]
  by (simp add: evictAboveMaxTx_def Let_def agents_of_def runs_cutTx)

lemma evictAboveEntries_kept [simp]:
  "rn_signups (evictAboveEntriesTx pe pool db) = rn_signups db" "rn_runs (evictAboveEntriesTx pe pool db) = rn_runs db"
  by (simp_all add: evictAboveEntriesTx_def Let_def runs_cutTx split: option.split)

text \<open>C27: a change of a run's agents leaves the run inside them.  Once it is written, no more executors are at work than \<open>max_agents\<close>; agents that are
  stated are stored as stated, and none of their entries has more at work than it wants; where none are stated, the stored ones want no more
  executors than \<open>max_agents\<close>, and of a running experiment exactly the newest executors beyond it are gone.  One that does not run
  loses nobody.\<close>

theorem setAgents_holds:
  assumes "setAgentsTx known pe maxAgents pool db = (Some changed, db')" and "map_of (rn_runs db) pe = Some r" and "0 \<le> maxAgents"
    and "distinct (map su_AgentID (signups_of db pe))" and "roles_match db pe" and "counts_ok (rr_Agents r)"
  shows "int (length (executors_at_work db' pe)) \<le> maxAgents
    \<and> (case pool of
        Some p \<Rightarrow> agents_of db' pe = p \<and> (\<forall>e \<in> set p. geti (agentsAtWork db' pe) (entry_key e) \<le> pl_Count e)
      | None \<Rightarrow> pool_Executors (agents_of db' pe) \<le> maxAgents
          \<and> (rr_Status r = PlatformExpRunning \<longrightarrow> executors_at_work db' pe = take (nat maxAgents) (executors_at_work db pe)))
    \<and> (rr_Status r \<noteq> PlatformExpRunning \<longrightarrow> executors_at_work db' pe = executors_at_work db pe)"
proof -
  let ?db1 = "evictAboveMaxTx pe maxAgents (pool = None) db"
  let ?db2 = "evictAboveEntriesTx pe pool ?db1"
  note k1 = evictAboveMax_kept [OF assms(2,6), of maxAgents "pool = None"]
  have signups: "rn_signups ?db2 = rn_signups db" using k1 by simp
  have runs: "map_of (rn_runs ?db2) pe \<noteq> None" "agents_of ?db2 pe = agents_of ?db1 pe"
    using k1 by (simp_all add: agents_of_def)
  let ?stored = "agents_of ?db2 pe"
  have within: "\<not> below_at_work maxAgents pool (agentsAtWork ?db2 pe)"
    using assms(1) by (auto simp: setAgentsTx_def Let_def split: if_splits)
  have res: "db' = (case pool of Some p \<Rightarrow> put_agents pe p ?db2
      | None \<Rightarrow> if pool_Executors ?stored \<le> maxAgents then ?db2 else put_agents pe (Capped ?stored maxAgents) ?db2)"
    using assms(1) by (auto simp: setAgentsTx_def Let_def split: if_splits option.splits)
  have work: "agentsAtWork db' pe = agentsAtWork ?db2 pe" "executors_at_work db' pe = executors_at_work ?db2 pe"
    by (rule at_work_cong; simp add: res split: option.splits)+
  have "roles_match ?db2 pe" using assms(5) by (simp only: roles_match_def signups_of_def signups)
  then have count: "int (length (executors_at_work db' pe)) \<le> maxAgents"
    using within by (simp add: work executors_working_at_work below_at_work_def)
  have still: "rr_Status r \<noteq> PlatformExpRunning \<Longrightarrow> executors_at_work db' pe = executors_at_work db pe"
    using assms(2) by (simp add: work evictAboveMaxTx_def evictAboveEntriesTx_def split: option.splits)
  show ?thesis
  proof (cases pool)
    case None
    have "pool_Executors (agents_of db' pe) \<le> maxAgents"
      using runs k1 assms(3) by (auto simp: res None agents_of_put Capped_within)
    moreover have "?db2 = ?db1" by (simp add: evictAboveEntriesTx_def None)
    then have "rr_Status r = PlatformExpRunning \<Longrightarrow> executors_at_work db' pe = take (nat maxAgents) (executors_at_work db pe)"
      using evictAboveMax_executors [OF assms(2) _ assms(4)] by (simp only: work)
    ultimately show ?thesis using count still None by simp
  next
    case (Some p)
    have "agents_of db' pe = p" using runs by (simp add: res Some agents_of_put)
    moreover have "\<forall>e \<in> set p. geti (agentsAtWork db' pe) (entry_key e) \<le> pl_Count e"
      using within by (auto simp: work below_at_work_def Some list_ex_iff)
    ultimately show ?thesis using count still Some by simp
  qed
qed

text \<open>A running team of three executors whose \<open>max_agents\<close> is lowered to two.\<close>

definition sample_member :: "string \<Rightarrow> int \<Rightarrow> Signup" where
  "sample_member a t =
     \<lparr>su_PlatformExperimentID = ''p'', su_AgentID = a, su_Role = SignupRoleExecutor, su_QuotaTier = QuotaTierGuaranteed, su_InAgentSandbox = True,
      su_AgentType = ''generalist'', su_Model = [], su_SignedUpAt = t, su_Finished = False, su_Stopped = False, su_Replaces = []\<rparr>"

definition sample_team :: run_db where
  "sample_team =
     \<lparr>rn_jobs = \<lparr>db_rows = [], db_clusters = [], db_projects = [], db_limits = [], db_quotas = [], db_cuts = [], db_finished = [],
        db_maxConcurrent = [], db_changes = []\<rparr>,
      rn_runs = [(''p'', \<lparr>rr_Status = PlatformExpRunning, rr_CurrentStage = 1, rr_Stages = [], rr_Agents = [sample_entry ''generalist'' 3],
        rr_MaxAgents = 2, rr_Held = []\<rparr>)],
      rn_signups = [sample_member ''x'' 9, sample_member ''y'' 4, sample_member ''z'' 5], rn_advances = []\<rparr>"

definition sample_lowered :: run_db where
  "sample_lowered = snd (setAgentsTx (\<lambda>e. True) ''p'' 2 None sample_team)"

theorem setAgents_holds_witness:
  "map su_AgentID (executors_at_work sample_lowered ''p'') = [''y'', ''z''] \<and> pool_Executors (agents_of sample_lowered ''p'') \<le> 2"
proof -
  have run: "setAgentsTx (\<lambda>e. True) ''p'' 2 None sample_team = (Some False, sample_lowered)" by code_simp
  have r: "map_of (rn_runs sample_team) ''p'' = Some \<lparr>rr_Status = PlatformExpRunning, rr_CurrentStage = 1, rr_Stages = [],
      rr_Agents = [sample_entry ''generalist'' 3], rr_MaxAgents = 2, rr_Held = []\<rparr>" by code_simp
  have h: "(0 :: int) \<le> 2" "distinct (map su_AgentID (signups_of sample_team ''p''))" "roles_match sample_team ''p''"
    "counts_ok (rr_Agents \<lparr>rr_Status = PlatformExpRunning, rr_CurrentStage = 1, rr_Stages = [], rr_Agents = [sample_entry ''generalist'' 3],
      rr_MaxAgents = 2, rr_Held = []\<rparr>)"
    by code_simp+
  have two: "map su_AgentID (take (nat 2) (executors_at_work sample_team ''p'')) = [''y'', ''z'']" by code_simp
  from setAgents_holds [OF run r h] two show ?thesis by simp
qed

end
